(* ===== verification/Ax_Prelude.thy ===== *)
theory Ax_Prelude
  imports Main "HOL-Library.Word"
begin

unbundle bit_operations_syntax

section \<open>Shared vocabulary of the AXM57104A driver model\<close>

text \<open>
  What every component of the development uses: the machine integers of the C code, the
  error numbers the driver returns, C array access with its out-of-bounds case written out,
  and the model of memory-mapped I/O.

  The hardware behind the PCIe BARs is not part of the repository, so it is a parameter.
  A \<open>device\<close> answers every 32-bit read from the complete history of the accesses made so
  far, which covers any deterministic hardware (side-effecting reads such as the timestamp
  FIFOs, selector registers that switch a bank, and values that change with time). The
  driver's accesses are logged, newest first, so a theorem can say which registers are
  written, with which values and in which order.
\<close>

subsection \<open>Machine integers\<close>

type_synonym u8 = "8 word"
type_synonym u16 = "16 word"
type_synonym u32 = "32 word"
type_synonym u64 = "64 word"

subsection \<open>Collections of facts used by the component proofs\<close>

named_theorems io_simps \<open>unfolding of the memory-mapped I/O primitives\<close>
named_theorems array_simps \<open>C array access inside its bounds\<close>

subsection \<open>Error numbers returned by the driver (Linux values)\<close>

abbreviation (input) EPERM_NEG :: int where "EPERM_NEG \<equiv> -1"
abbreviation (input) EIO_NEG :: int where "EIO_NEG \<equiv> -5"
abbreviation (input) ENOMEM_NEG :: int where "ENOMEM_NEG \<equiv> -12"
abbreviation (input) EFAULT_NEG :: int where "EFAULT_NEG \<equiv> -14"
abbreviation (input) EBUSY_NEG :: int where "EBUSY_NEG \<equiv> -16"
abbreviation (input) ENODEV_NEG :: int where "ENODEV_NEG \<equiv> -19"
abbreviation (input) EINVAL_NEG :: int where "EINVAL_NEG \<equiv> -22"
abbreviation (input) ERANGE_NEG :: int where "ERANGE_NEG \<equiv> -34"
abbreviation (input) EOPNOTSUPP_NEG :: int where "EOPNOTSUPP_NEG \<equiv> -95"
abbreviation (input) EADDRNOTAVAIL_NEG :: int where "EADDRNOTAVAIL_NEG \<equiv> -99"

subsection \<open>C arrays\<close>

text \<open>An access outside the array is undefined behaviour in C: it is the value \<open>None\<close>.\<close>

definition arr_get :: "'a list \<Rightarrow> int \<Rightarrow> 'a option" where
  "arr_get xs i = (if 0 \<le> i \<and> i < int (length xs) then Some (xs ! nat i) else None)"

definition arr_set :: "'a list \<Rightarrow> int \<Rightarrow> 'a \<Rightarrow> 'a list option" where
  "arr_set xs i v = (if 0 \<le> i \<and> i < int (length xs) then Some (xs[nat i := v]) else None)"

lemma arr_get_in [array_simps]: "0 \<le> i \<Longrightarrow> i < int (length xs) \<Longrightarrow> arr_get xs i = Some (xs ! nat i)"
  by (simp add: arr_get_def)

lemma arr_set_in [array_simps]: "0 \<le> i \<Longrightarrow> i < int (length xs) \<Longrightarrow> arr_set xs i v = Some (xs[nat i := v])"
  by (simp add: arr_set_def)

lemma arr_set_get: "arr_set xs i v = Some ys \<Longrightarrow> arr_get ys j = (if j = i then Some v else arr_get xs j)"
  by (auto simp: arr_set_def arr_get_def split: if_splits)

lemma arr_set_length: "arr_set xs i v = Some ys \<Longrightarrow> length ys = length xs"
  by (auto simp: arr_set_def split: if_splits)

subsection \<open>Running a fallible operation over a list\<close>

fun fold_opt :: "('q \<Rightarrow> 'a \<Rightarrow> 'q option) \<Rightarrow> 'q \<Rightarrow> 'a list \<Rightarrow> 'q option" where
  "fold_opt f q [] = Some q"
| "fold_opt f q (x # xs) = Option.bind (f q x) (\<lambda>q'. fold_opt f q' xs)"

lemma fold_opt_append:
  "fold_opt f q (xs @ ys) = Option.bind (fold_opt f q xs) (\<lambda>q'. fold_opt f q' ys)"
  by (induction xs arbitrary: q) (auto simp: Option.bind_assoc)

lemma find_append: "find P (xs @ ys) = (case find P xs of None \<Rightarrow> find P ys | Some x \<Rightarrow> Some x)"
  by (induction xs) auto

subsection \<open>Memory-mapped I/O\<close>

text \<open>An address is a BAR number and a byte offset into that BAR.\<close>

type_synonym mmio_addr = "int \<times> int"

datatype ioev = RD mmio_addr | WR mmio_addr u32

type_synonym io_log = "ioev list"
type_synonym device = "io_log \<Rightarrow> mmio_addr \<Rightarrow> u32"

definition ioread32 :: "device \<Rightarrow> mmio_addr \<Rightarrow> io_log \<Rightarrow> u32 \<times> io_log" where
  "ioread32 hw a l = (hw l a, RD a # l)"

definition iowrite32 :: "u32 \<Rightarrow> mmio_addr \<Rightarrow> io_log \<Rightarrow> io_log" where
  "iowrite32 v a l = WR a v # l"

lemmas io_prims [io_simps] = ioread32_def iowrite32_def

text \<open>The writes of a log, oldest first, and the number of reads of one register.\<close>

fun io_writes :: "io_log \<Rightarrow> (mmio_addr \<times> u32) list" where
  "io_writes [] = []"
| "io_writes (RD a # l) = io_writes l"
| "io_writes (WR a v # l) = io_writes l @ [(a, v)]"

fun io_reads :: "mmio_addr \<Rightarrow> io_log \<Rightarrow> nat" where
  "io_reads a [] = 0"
| "io_reads a (RD b # l) = (if a = b then Suc (io_reads a l) else io_reads a l)"
| "io_reads a (WR b v # l) = io_reads a l"

fun last_write :: "mmio_addr \<Rightarrow> io_log \<Rightarrow> u32 option" where
  "last_write a [] = None"
| "last_write a (RD b # l) = last_write a l"
| "last_write a (WR b v # l) = (if a = b then Some v else last_write a l)"

lemma io_writes_append: "io_writes (xs @ ys) = io_writes ys @ io_writes xs"
  by (induction xs rule: io_writes.induct) auto

lemma io_reads_append: "io_reads a (xs @ ys) = io_reads a xs + io_reads a ys"
  by (induction a xs rule: io_reads.induct) auto

subsection \<open>Splitting and joining 64-bit register pairs\<close>

text \<open>The driver splits a 64-bit time into two registers and reads it back from two.\<close>

definition hi32 :: "u64 \<Rightarrow> u32" where
  "hi32 t = ucast (drop_bit 32 (t AND 0xFFFFFFFF00000000))"

definition lo32 :: "u64 \<Rightarrow> u32" where
  "lo32 t = ucast (t AND 0x00000000FFFFFFFF)"

definition join64 :: "u32 \<Rightarrow> u32 \<Rightarrow> u64" where
  "join64 hi lo = push_bit 32 (ucast hi) + ucast lo"

lemma u64_mask_hi: "(0xFFFFFFFF00000000::u64) = push_bit 32 (mask 32)" by (simp add: mask_eq_exp_minus_1)

lemma u64_mask_lo: "(0x00000000FFFFFFFF::u64) = mask 32" by (simp add: mask_eq_exp_minus_1)

lemma join64_hi_lo [simp]: "join64 (hi32 t) (lo32 t) = t"
proof -
  have "push_bit 32 (ucast (hi32 t) :: u64) + ucast (lo32 t) = push_bit 32 (ucast (hi32 t)) OR ucast (lo32 t)"
    by (rule disjunctive_add) (auto simp: bit_simps hi32_def lo32_def)
  also have "\<dots> = t"
    by (rule bit_word_eqI) (auto simp: bit_simps hi32_def lo32_def u64_mask_hi u64_mask_lo)
  finally show ?thesis by (simp add: join64_def)
qed

lemma uint_hi32: "uint (hi32 t) = uint t div 2^32"
proof -
  have "hi32 t = ucast (drop_bit 32 t)"
    by (rule bit_word_eqI) (auto simp: bit_simps hi32_def u64_mask_hi)
  moreover have d: "uint (drop_bit 32 t) = uint t div 2^32"
    by (simp add: drop_bit_eq_div uint_div)
  moreover have "uint t div 2^32 < 2^32"
    using uint_lt2p [of t] by simp
  ultimately show ?thesis by (simp only: unsigned_ucast_eq take_bit_eq_mod) (simp add: mod_pos_pos_trivial pos_imp_zdiv_nonneg_iff)
qed

lemma uint_lo32: "uint (lo32 t) = uint t mod 2^32"
proof -
  have "lo32 t = ucast t"
    by (rule bit_word_eqI) (auto simp: bit_simps lo32_def u64_mask_lo)
  then show ?thesis by (simp add: unsigned_ucast_eq take_bit_eq_mod)
qed

lemma uint_join64: "uint (join64 h l) = uint h * 2 ^ 32 + uint l"
proof -
  have h: "uint (push_bit 32 (ucast h :: u64)) = uint h * 2 ^ 32"
    using uint_lt2p [of h] by (simp add: push_bit_eq_mult uint_word_ariths unsigned_ucast_eq take_bit_eq_mod)
  moreover have l: "uint (ucast l :: u64) = uint l"
    using uint_lt2p [of l] by (simp add: unsigned_ucast_eq take_bit_eq_mod)
  ultimately show ?thesis
    using uint_lt2p [of h] uint_lt2p [of l] by (simp add: join64_def uint_word_ariths)
qed

end
