(* ===== verification/Ts_Queue.thy ===== *)
theory Ts_Queue
  imports Ax_Prelude
begin

unbundle bit_operations_syntax

section \<open>The timestamp capture queue\<close>

text \<open>
  The ring buffer of captured hardware timestamps (\<open>TS_QUEUE\<close> in
  \<open>switch/ax_switch.h\<close>, its operations in \<open>switch/ax_switch.c\<close>). The queue overwrites its
  oldest entry when it is full and is searched from the newest entry backwards. The
  abstract view of a queue is the list of the entries it still holds, newest first; the
  operations refine \<open>cons\<close> followed by truncation to the capacity, and "first match".
  Each operation runs under the queue's spinlock and is one atomic step of the model.
\<close>

subsection \<open>Data\<close>

record capture_data =
  port_id :: u8
  timestamp_l :: "u32 list"
  timestamp_h :: "u32 list"
  msg_type :: u8
  sequence_id :: u16
  domain_number :: u8

record ts_queue =
  ts_items :: "capture_data list"
  write_ptr :: int
  num_items :: int
  max_num_items :: int

text \<open>Status codes of the queue operations.\<close>

abbreviation (input) AX_STATUS_SUCCESS :: int where "AX_STATUS_SUCCESS \<equiv> 0"
abbreviation (input) AX_STATUS_FAILURE :: int where "AX_STATUS_FAILURE \<equiv> -1"
abbreviation (input) AX_STATUS_NOT_SUPPORT :: int where "AX_STATUS_NOT_SUPPORT \<equiv> -2"
abbreviation (input) AX_STATUS_QITEM_NOT_FOUND :: int where "AX_STATUS_QITEM_NOT_FOUND \<equiv> -3"
abbreviation (input) AX_STATUS_Q_NO_ITEM :: int where "AX_STATUS_Q_NO_ITEM \<equiv> -4"

subsection \<open>Operations\<close>

definition tsn_tsq_flush :: "ts_queue \<Rightarrow> ts_queue" where
  "tsn_tsq_flush q = q\<lparr>write_ptr := 0, num_items := 0\<rparr>"

definition tsn_tsq_insert_item :: "ts_queue \<Rightarrow> capture_data \<Rightarrow> ts_queue option" where
  "tsn_tsq_insert_item q d =
     (case arr_set (ts_items q) (write_ptr q) d of
        None \<Rightarrow> None
      | Some items \<Rightarrow>
          (let q1 = q\<lparr>ts_items := items, write_ptr := write_ptr q + 1\<rparr>;
               q2 = (if write_ptr q1 = max_num_items q1 then q1\<lparr>write_ptr := 0\<rparr> else q1);
               q3 = (if num_items q2 < max_num_items q2
                     then q2\<lparr>num_items := num_items q2 + 1\<rparr> else q2)
           in Some q3))"

text \<open>
  \<open>kmalloc\<close> is the kernel's: it gets the number of entries and returns a buffer with
  arbitrary contents, or \<open>None\<close>.
\<close>

definition tsn_tsq_init ::
    "(int \<Rightarrow> capture_data list option) \<Rightarrow> ts_queue \<Rightarrow> int \<Rightarrow> int \<Rightarrow> int \<times> ts_queue" where
  "tsn_tsq_init kmalloc q number_of_ports number_of_domains =
     (let q1 = q\<lparr>max_num_items := number_of_ports * number_of_domains + 8\<rparr> in
      case kmalloc (max_num_items q1) of
        None \<Rightarrow> (-1, q1\<lparr>ts_items := []\<rparr>)
      | Some buf \<Rightarrow> (0, tsn_tsq_flush (q1\<lparr>ts_items := buf\<rparr>)))"

definition tsn_tsq_remove :: "ts_queue \<Rightarrow> ts_queue" where
  "tsn_tsq_remove q = q\<lparr>ts_items := [], max_num_items := 0\<rparr>"

definition ax_insert_items :: "ts_queue \<Rightarrow> capture_data \<Rightarrow> ts_queue option" where
  "ax_insert_items q d =
     (case arr_set (ts_items q) (write_ptr q) d of
        None \<Rightarrow> None
      | Some items \<Rightarrow>
          (let wp = write_ptr q + 1;
               wp' = (if wp = max_num_items q then 0 else wp);
               n' = (if num_items q < max_num_items q then num_items q + 1 else num_items q)
           in Some (q\<lparr>ts_items := items, write_ptr := wp', num_items := n'\<rparr>)))"

definition ax_tsq_check_item_1 :: "capture_data \<Rightarrow> capture_data \<Rightarrow> bool" where
  "ax_tsq_check_item_1 queue_d tstamp_d \<longleftrightarrow>
     port_id queue_d = port_id tstamp_d \<and>
     msg_type queue_d = msg_type tstamp_d \<and>
     sequence_id queue_d = sequence_id tstamp_d \<and>
     domain_number queue_d = domain_number tstamp_d"

text \<open>
  The search loop of \<open>ax_tsq_find_item_1\<close>: \<open>n\<close> iterations are left and \<open>rp\<close> is
  \<open>read_ptr\<close>. The result is \<open>Some (Some rp)\<close> for a \<open>break\<close> at \<open>rp\<close>, \<open>Some None\<close> when the loop
  ran to the end, and \<open>None\<close> for an access outside \<open>ts_items\<close>.
\<close>

fun tsq_search :: "ts_queue \<Rightarrow> capture_data \<Rightarrow> nat \<Rightarrow> int \<Rightarrow> int option option" where
  "tsq_search q d 0 rp = Some None"
| "tsq_search q d (Suc n) rp =
     (case arr_get (ts_items q) rp of
        None \<Rightarrow> None
      | Some item \<Rightarrow>
          if ax_tsq_check_item_1 item d then Some (Some rp)
          else tsq_search q d n (if rp - 1 < 0 then max_num_items q - 1 else rp - 1))"

definition ax_tsq_find_item_1 :: "ts_queue \<Rightarrow> capture_data \<Rightarrow> (int \<times> capture_data) option" where
  "ax_tsq_find_item_1 q d =
     (if num_items q \<noteq> 0 then
        (let rp = (if write_ptr q - 1 < 0 then max_num_items q - 1 else write_ptr q - 1) in
         case tsq_search q d (nat (num_items q)) rp of
           None \<Rightarrow> None
         | Some None \<Rightarrow> Some (AX_STATUS_QITEM_NOT_FOUND, d)
         | Some (Some rp') \<Rightarrow>
             map_option (\<lambda>item. (AX_STATUS_SUCCESS, item)) (arr_get (ts_items q) rp'))
      else Some (AX_STATUS_Q_NO_ITEM, d))"

subsection \<open>Invariant and abstraction\<close>

definition tsq_wf :: "ts_queue \<Rightarrow> bool" where
  "tsq_wf q \<longleftrightarrow>
     0 < max_num_items q \<and> int (length (ts_items q)) = max_num_items q \<and>
     0 \<le> write_ptr q \<and> write_ptr q < max_num_items q \<and>
     0 \<le> num_items q \<and> num_items q \<le> max_num_items q"

definition tsq_slot :: "ts_queue \<Rightarrow> nat \<Rightarrow> nat" where
  "tsq_slot q i = nat ((write_ptr q - 1 - int i) mod max_num_items q)"

definition tsq_list :: "ts_queue \<Rightarrow> capture_data list" where
  "tsq_list q = map (\<lambda>i. ts_items q ! tsq_slot q i) [0..<nat (num_items q)]"

definition tsq_cap :: "ts_queue \<Rightarrow> nat" where
  "tsq_cap q = nat (max_num_items q)"

text \<open>The specification of the search on the abstract view.\<close>

definition capture_key :: "capture_data \<Rightarrow> u8 \<times> u8 \<times> u16 \<times> u8" where
  "capture_key d = (port_id d, msg_type d, sequence_id d, domain_number d)"

definition tsq_lookup :: "capture_data list \<Rightarrow> capture_data \<Rightarrow> capture_data option" where
  "tsq_lookup items d = find (\<lambda>item. capture_key item = capture_key d) items"

lemma check_item_key: "ax_tsq_check_item_1 item d \<longleftrightarrow> capture_key item = capture_key d"
  by (simp add: ax_tsq_check_item_1_def capture_key_def)

lemma tsq_lookup_check: "tsq_lookup items d = find (\<lambda>item. ax_tsq_check_item_1 item d) items"
  by (simp add: tsq_lookup_def check_item_key)

text \<open>Concrete data for the witnesses.\<close>

definition sample_capture :: "u16 \<Rightarrow> capture_data" where
  "sample_capture s = \<lparr>port_id = 1, timestamp_l = [10, 20, 30], timestamp_h = [1, 2, 3],
     msg_type = 0, sequence_id = s, domain_number = 0\<rparr>"

definition sample_queue :: ts_queue where
  "sample_queue = \<lparr>ts_items = replicate 2 (sample_capture 0), write_ptr = 1, num_items = 2,
     max_num_items = 2\<rparr>"

subsection \<open>Interface: a bounded history\<close>

text \<open>
  What the clients of the queue rely on: an insertion succeeds on a well-formed queue, puts
  the entry in front and drops what exceeds the capacity.
\<close>

locale bounded_history =
  fixes insert_item :: "'q \<Rightarrow> 'a \<Rightarrow> 'q option"
    and contents :: "'q \<Rightarrow> 'a list"
    and capacity :: "'q \<Rightarrow> nat"
    and invar :: "'q \<Rightarrow> bool"
  assumes insert_ok:
      "invar q \<Longrightarrow> \<exists>q'. insert_item q x = Some q' \<and> invar q' \<and> capacity q' = capacity q \<and>
         contents q' = take (capacity q) (x # contents q)"
    and contents_bounded: "invar q \<Longrightarrow> length (contents q) \<le> capacity q"
begin

lemma insert_all_ok:
  "invar q \<Longrightarrow> \<exists>q'. fold_opt insert_item q xs = Some q' \<and> invar q' \<and> capacity q' = capacity q \<and>
     contents q' = take (capacity q) (rev xs @ contents q)"
proof (induction xs arbitrary: q)
  case Nil
  then show ?case using contents_bounded by simp
next
  case (Cons x xs)
  from insert_ok [OF Cons.prems, of x] obtain q1 where q1: "insert_item q x = Some q1" "invar q1"
    "capacity q1 = capacity q" "contents q1 = take (capacity q) (x # contents q)"
    by blast
  from Cons.IH [OF q1(2)] q1(3,4) show ?case
    by (simp add: q1(1) take_append min_def)
qed

lemma insert_recent:
  assumes "invar q" and "fold_opt insert_item q xs = Some q'" and "length xs \<le> capacity q"
  shows "take (length xs) (contents q') = rev xs"
  using insert_all_ok [OF assms(1), of xs] assms(2,3) by (auto simp: take_append min_def)

end

subsection \<open>Ring arithmetic\<close>

lemma tsq_slot_less: "tsq_wf q \<Longrightarrow> tsq_slot q i < length (ts_items q)"
  by (simp add: tsq_wf_def tsq_slot_def nat_less_iff)

lemma ring_dec:
  "0 < m \<Longrightarrow> 0 \<le> p \<Longrightarrow> p < m \<Longrightarrow> (p - 1) mod m = (if p - 1 < 0 then m - 1 else p - 1)" for p m :: int
  by (cases "p = 0") (auto simp: zmod_minus1)

lemma ring_dec_mod:
  assumes "0 < (m::int)"
  shows "(let r = p mod m in if r - 1 < 0 then m - 1 else r - 1) = (p - 1) mod m"
  using ring_dec [of m "p mod m"] assms by (simp add: Let_def mod_diff_left_eq)

lemma tsq_slot_insert:
  assumes wf: "tsq_wf q" and wp: "write_ptr q' = (if write_ptr q + 1 = max_num_items q then 0 else write_ptr q + 1)"
    and mx: "max_num_items q' = max_num_items q"
  shows "tsq_slot q' 0 = nat (write_ptr q)"
    and "tsq_slot q' (Suc i) = tsq_slot q i"
proof -
  have w: "write_ptr q' = (write_ptr q + 1) mod max_num_items q"
    using wf wp by (auto simp: tsq_wf_def)
  have "(write_ptr q' - 1 - int k) mod max_num_items q = (write_ptr q - int k) mod max_num_items q" for k
    by (simp add: w mod_simps algebra_simps)
  from this [of 0] this [of "Suc i"] wf
  show "tsq_slot q' 0 = nat (write_ptr q)" "tsq_slot q' (Suc i) = tsq_slot q i"
    by (simp_all add: tsq_slot_def mx tsq_wf_def algebra_simps)
qed

lemma tsq_slot_neq:
  assumes "tsq_wf q" and "int i + 1 < max_num_items q"
  shows "tsq_slot q i \<noteq> nat (write_ptr q)"
proof
  assume "tsq_slot q i = nat (write_ptr q)"
  then have "(write_ptr q - 1 - int i) mod max_num_items q = write_ptr q mod max_num_items q"
    using assms(1) by (simp add: tsq_slot_def tsq_wf_def eq_nat_nat_iff)
  then have "max_num_items q dvd int i + 1"
    by (simp add: mod_eq_dvd_iff) (metis add.commute dvd_minus_iff minus_add_distrib uminus_add_conv_diff)
  then show False using assms(2) zdvd_imp_le by fastforce
qed

subsection \<open>The two insertion routines are the same function\<close>

lemma insert_routines_eq: "tsn_tsq_insert_item q d = ax_insert_items q d"
  by (simp add: tsn_tsq_insert_item_def ax_insert_items_def Let_def split: option.split)

subsection \<open>Insertion refines cons-and-truncate\<close>

lemma ax_insert_items_eq:
  assumes "tsq_wf q"
  shows "ax_insert_items q d =
    Some (q\<lparr>ts_items := (ts_items q)[nat (write_ptr q) := d],
            write_ptr := (if write_ptr q + 1 = max_num_items q then 0 else write_ptr q + 1),
            num_items := (if num_items q < max_num_items q then num_items q + 1 else num_items q)\<rparr>)"
  using assms by (simp add: ax_insert_items_def tsq_wf_def array_simps)

lemma tsq_list_nth: "i < nat (num_items q) \<Longrightarrow> tsq_list q ! i = ts_items q ! tsq_slot q i"
  by (simp add: tsq_list_def)

lemma length_tsq_list [simp]: "length (tsq_list q) = nat (num_items q)"
  by (simp add: tsq_list_def)

lemma tsq_insert_refines:
  assumes wf: "tsq_wf q" and ins: "ax_insert_items q d = Some q'"
  shows "tsq_wf q' \<and> tsq_cap q' = tsq_cap q \<and> tsq_list q' = take (tsq_cap q) (d # tsq_list q)"
proof -
  have q': "q' = q\<lparr>ts_items := (ts_items q)[nat (write_ptr q) := d],
            write_ptr := (if write_ptr q + 1 = max_num_items q then 0 else write_ptr q + 1),
            num_items := (if num_items q < max_num_items q then num_items q + 1 else num_items q)\<rparr>"
    using ins by (simp add: ax_insert_items_eq [OF wf])
  have wf': "tsq_wf q'"
    using wf by (auto simp: tsq_wf_def q')
  note slots = tsq_slot_insert [OF wf, of q']
  have "tsq_list q' ! i = take (tsq_cap q) (d # tsq_list q) ! i" if i: "i < nat (num_items q')" for i
  proof (cases i)
    case 0
    have "tsq_slot q' 0 = nat (write_ptr q)" by (rule slots(1)) (simp_all add: q')
    moreover have "nat (write_ptr q) < length (ts_items q)"
      using wf by (simp add: tsq_wf_def nat_less_iff)
    ultimately show ?thesis using wf i 0
      by (simp add: tsq_list_nth tsq_cap_def tsq_wf_def) (simp add: q')
  next
    case (Suc j)
    have s: "tsq_slot q' (Suc j) = tsq_slot q j" by (rule slots(2)) (simp_all add: q')
    from i Suc wf have j: "int j + 1 < max_num_items q" "j < nat (num_items q)"
      by (auto simp: q' tsq_wf_def split: if_splits)
    from tsq_slot_neq [OF wf j(1)] j i Suc s show ?thesis
      by (simp add: tsq_list_nth tsq_cap_def) (simp add: q')
  qed
  moreover have "nat (num_items q') = length (take (tsq_cap q) (d # tsq_list q))"
    using wf by (auto simp: q' tsq_cap_def tsq_wf_def)
  ultimately have "tsq_list q' = take (tsq_cap q) (d # tsq_list q)"
    by (intro nth_equalityI) auto
  with wf' show ?thesis by (simp add: tsq_cap_def q')
qed

lemma tsq_insert_total: "tsq_wf q \<Longrightarrow> \<exists>q'. ax_insert_items q d = Some q'"
  by (simp add: ax_insert_items_eq)

lemma tsq_insert_ok:
  assumes "tsq_wf q"
  shows "\<exists>q'. ax_insert_items q d = Some q' \<and> tsq_wf q' \<and> tsq_cap q' = tsq_cap q \<and>
    tsq_list q' = take (tsq_cap q) (d # tsq_list q)"
  using tsq_insert_total [OF assms, of d] tsq_insert_refines [OF assms, of d] by blast

lemma tsq_list_bounded: "tsq_wf q \<Longrightarrow> length (tsq_list q) \<le> tsq_cap q"
  by (auto simp: tsq_cap_def tsq_wf_def intro: nat_mono)

interpretation rxq: bounded_history tsn_tsq_insert_item tsq_list tsq_cap tsq_wf
  by unfold_locales (simp_all only: insert_routines_eq tsq_insert_ok tsq_list_bounded)

interpretation txq: bounded_history ax_insert_items tsq_list tsq_cap tsq_wf
  by unfold_locales (simp_all only: tsq_insert_ok tsq_list_bounded)

subsection \<open>The search refines first-match\<close>

lemma tsq_search_refines:
  assumes wf: "tsq_wf q" and "k + n = nat (num_items q)"
  shows "\<exists>r. tsq_search q d n ((write_ptr q - 1 - int k) mod max_num_items q) = Some r \<and>
     map_option (\<lambda>rp. ts_items q ! nat rp) r = tsq_lookup (drop k (tsq_list q)) d \<and>
     (\<forall>rp. r = Some rp \<longrightarrow> 0 \<le> rp \<and> rp < max_num_items q)"
  using assms(2)
proof (induction n arbitrary: k)
  case 0
  then show ?case by (simp add: tsq_lookup_check)
next
  case (Suc n)
  let ?rp = "(write_ptr q - 1 - int k) mod max_num_items q"
  have m: "0 < max_num_items q" and len: "int (length (ts_items q)) = max_num_items q"
    using wf by (auto simp: tsq_wf_def)
  have rp: "0 \<le> ?rp" "?rp < max_num_items q" using m by auto
  have k: "k < length (tsq_list q)" using Suc.prems by simp
  have item: "tsq_list q ! k = ts_items q ! nat ?rp"
    using k by (simp add: tsq_list_nth tsq_slot_def)
  have get: "arr_get (ts_items q) ?rp = Some (tsq_list q ! k)"
    using rp len by (simp add: arr_get_in item)
  have dr: "drop k (tsq_list q) = tsq_list q ! k # drop (Suc k) (tsq_list q)"
    using k by (rule Cons_nth_drop_Suc [symmetric])
  have nxt: "(if ?rp - 1 < 0 then max_num_items q - 1 else ?rp - 1) =
      (write_ptr q - 1 - int (Suc k)) mod max_num_items q"
    using ring_dec_mod [OF m, of "write_ptr q - 1 - int k"] unfolding Let_def of_nat_Suc
    by (simp only: diff_diff_eq add.commute [of 1])
  show ?case
  proof (cases "ax_tsq_check_item_1 (tsq_list q ! k) d")
    case True
    then show ?thesis using rp by (simp add: get dr tsq_lookup_check item)
  next
    case False
    with Suc.IH [of "Suc k"] Suc.prems show ?thesis
      by (simp only: tsq_search.simps get dr option.case if_False nxt) (simp add: tsq_lookup_check)
  qed
qed

lemma ax_tsq_find_refines:
  assumes wf: "tsq_wf q"
  shows "ax_tsq_find_item_1 q d = Some
     (if tsq_list q = [] then (AX_STATUS_Q_NO_ITEM, d)
      else case tsq_lookup (tsq_list q) d of
             None \<Rightarrow> (AX_STATUS_QITEM_NOT_FOUND, d)
           | Some item \<Rightarrow> (AX_STATUS_SUCCESS, item))"
proof (cases "num_items q = 0")
  case True
  then show ?thesis by (simp add: ax_tsq_find_item_1_def tsq_list_def)
next
  case False
  then have ne: "tsq_list q \<noteq> []" using wf by (auto simp: tsq_wf_def tsq_list_def)
  have start: "(if write_ptr q - 1 < 0 then max_num_items q - 1 else write_ptr q - 1) =
      (write_ptr q - 1 - int 0) mod max_num_items q"
    using wf ring_dec [of "max_num_items q" "write_ptr q"] by (simp add: tsq_wf_def)
  from tsq_search_refines [OF wf, of 0 "nat (num_items q)" d] obtain r where
    r: "tsq_search q d (nat (num_items q)) ((write_ptr q - 1 - int 0) mod max_num_items q) = Some r"
       "map_option (\<lambda>rp. ts_items q ! nat rp) r = tsq_lookup (tsq_list q) d"
       "\<forall>rp. r = Some rp \<longrightarrow> 0 \<le> rp \<and> rp < max_num_items q"
    by auto
  have "int (length (ts_items q)) = max_num_items q" using wf by (simp add: tsq_wf_def)
  then show ?thesis
    using False ne r(3) unfolding ax_tsq_find_item_1_def start Let_def r(1) r(2) [symmetric]
    by (cases r) (auto simp: arr_get_in)
qed

subsection \<open>Properties\<close>

lemma sample_queue_wf: "tsq_wf sample_queue"
  by (simp add: tsq_wf_def sample_queue_def)

lemma sample_queue_list: "tsq_list sample_queue = [sample_capture 0, sample_capture 0]"
  by (simp add: tsq_list_def sample_queue_def tsq_slot_def upt_rec numeral_2_eq_2 del: One_nat_def)

lemma sample_queue_cap: "tsq_cap sample_queue = 2"
  by (simp add: tsq_cap_def sample_queue_def)

lemma sample_capture_eq [simp]: "ax_tsq_check_item_1 (sample_capture a) (sample_capture b) \<longleftrightarrow> a = b"
  by (simp add: ax_tsq_check_item_1_def sample_capture_def)

text \<open>
  C15. Inserting into a well-formed capture queue never writes outside the item array, keeps
  the queue well-formed, and the entries then visible (newest first) are the new entry
  followed by the old ones, cut to the capacity: the ring overwrites its oldest entry.
\<close>

theorem tsq_insert_history:
  assumes "tsq_wf q"
  shows "\<exists>q'. tsn_tsq_insert_item q d = Some q' \<and> tsq_wf q' \<and> tsq_cap q' = tsq_cap q \<and>
    tsq_list q' = take (tsq_cap q) (d # tsq_list q)"
  by (rule rxq.insert_ok [OF assms])

theorem tsq_insert_history_witness:
  "tsq_wf sample_queue \<and>
   (\<exists>q'. tsn_tsq_insert_item sample_queue (sample_capture 7) = Some q' \<and> tsq_wf q' \<and>
     tsq_list q' = [sample_capture 7, sample_capture 0])"
  using tsq_insert_history [OF sample_queue_wf, of "sample_capture 7"] sample_queue_wf
  by (auto simp: sample_queue_list sample_queue_cap)

text \<open>
  C7. The backward search of a well-formed queue stays inside the item array and returns
  the newest entry whose port, message type, sequence number and domain all match the
  request; it reports "no item" exactly for an empty queue and "not found" exactly when no
  entry it still holds matches.
\<close>

theorem tsq_find_newest_match:
  assumes "tsq_wf q"
  shows "ax_tsq_find_item_1 q d = Some
     (if tsq_list q = [] then (AX_STATUS_Q_NO_ITEM, d)
      else case tsq_lookup (tsq_list q) d of
             None \<Rightarrow> (AX_STATUS_QITEM_NOT_FOUND, d)
           | Some item \<Rightarrow> (AX_STATUS_SUCCESS, item))"
  using assms by (rule ax_tsq_find_refines)

theorem tsq_find_newest_match_witness:
  "tsq_wf sample_queue \<and>
   ax_tsq_find_item_1 sample_queue (sample_capture 0) = Some (AX_STATUS_SUCCESS, sample_capture 0) \<and>
   ax_tsq_find_item_1 sample_queue (sample_capture 5) = Some (AX_STATUS_QITEM_NOT_FOUND, sample_capture 5)"
  using tsq_find_newest_match [OF sample_queue_wf, of "sample_capture 0"]
    tsq_find_newest_match [OF sample_queue_wf, of "sample_capture 5"] sample_queue_wf
  by (simp add: sample_queue_list tsq_lookup_check)

text \<open>
  A captured timestamp can be fetched back as long as fewer captures than the capacity
  have followed it and none of them has the same key: after the insertions the search for
  its key returns exactly that capture.
\<close>

theorem tsq_insert_then_find:
  assumes wf: "tsq_wf q" and ins: "fold_opt tsn_tsq_insert_item q (d # later) = Some q'"
    and room: "length later < tsq_cap q"
    and fresh: "\<forall>x \<in> set later. capture_key x \<noteq> capture_key key"
    and key: "capture_key d = capture_key key"
  shows "ax_tsq_find_item_1 q' key = Some (AX_STATUS_SUCCESS, d)"
proof -
  obtain q2 where q2: "fold_opt tsn_tsq_insert_item q (d # later) = Some q2" "tsq_wf q2"
      "tsq_list q2 = take (tsq_cap q) (rev (d # later) @ tsq_list q)"
    using rxq.insert_all_ok [OF wf, of "d # later"] by blast
  then have l: "tsq_list q' = rev later @ d # take (tsq_cap q - Suc (length later)) (tsq_list q)"
    using ins room by (auto simp: take_append Suc_diff_Suc take_Cons')
  have "find (\<lambda>item. ax_tsq_check_item_1 item key) (rev later) = None"
    using fresh by (auto simp: find_None_iff check_item_key)
  then have "tsq_lookup (tsq_list q') key = Some d"
    using key by (simp add: l tsq_lookup_check find_append check_item_key)
  then show ?thesis
    using q2(1,2) ins l by (simp add: ax_tsq_find_refines del: fold_opt.simps)
qed

theorem tsq_insert_then_find_witness:
  "\<exists>q'. fold_opt tsn_tsq_insert_item sample_queue [sample_capture 7, sample_capture 8] = Some q' \<and>
     ax_tsq_find_item_1 q' (sample_capture 7) = Some (AX_STATUS_SUCCESS, sample_capture 7)"
proof -
  obtain q' where q': "fold_opt tsn_tsq_insert_item sample_queue [sample_capture 7, sample_capture 8] = Some q'"
    using rxq.insert_all_ok [OF sample_queue_wf] by blast
  have "ax_tsq_find_item_1 q' (sample_capture 7) = Some (AX_STATUS_SUCCESS, sample_capture 7)"
    by (rule tsq_insert_then_find [OF sample_queue_wf q'])
      (simp_all add: sample_queue_cap flip: check_item_key)
  with q' show ?thesis by blast
qed

end
