(* ===== verification/Ax_Regs.thy ===== *)
theory Ax_Regs
  imports Ax_Prelude
begin

section \<open>Register map and constants\<close>

text \<open>
  The register offsets, bit masks and sizes the driver names in \<open>switch/ax_switch.h\<close> and
  \<open>libxdma.h\<close>, with the values the headers give them. They are abbreviations for the
  numbers, so that address comparisons are decided by arithmetic.
\<close>

subsection \<open>TSN switch registers, offsets into BAR 2 (\<open>switch/ax_switch.h\<close>)\<close>

abbreviation (input) DRIVER_VERSION :: int where "DRIVER_VERSION \<equiv> 0x0000"
abbreviation (input) CORE_VERSION :: int where "CORE_VERSION \<equiv> 0x0000"
abbreviation (input) MAC_ADDR_LO :: int where "MAC_ADDR_LO \<equiv> 0x0004"
abbreviation (input) MAC_ADDR_HI :: int where "MAC_ADDR_HI \<equiv> 0x0008"
abbreviation (input) IP_ADDRESS :: int where "IP_ADDRESS \<equiv> 0x000C"
abbreviation (input) TSN_LICENSE :: int where "TSN_LICENSE \<equiv> 0x0010"
abbreviation (input) GUI_ENABLE :: int where "GUI_ENABLE \<equiv> 0x0014"
abbreviation (input) AS_REG_OFFSET :: int where "AS_REG_OFFSET \<equiv> 0x0100"
abbreviation (input) AS_T_INT_MASK :: int where "AS_T_INT_MASK \<equiv> 0x0100"
abbreviation (input) AS_T_SELECTOR :: int where "AS_T_SELECTOR \<equiv> 0x0104"
abbreviation (input) AS_T_ADDEND :: int where "AS_T_ADDEND \<equiv> 0x0108"
abbreviation (input) AS_T_COUNT_PERIOD :: int where "AS_T_COUNT_PERIOD \<equiv> 0x010C"
abbreviation (input) AS_T_CLOCK_PERIOD :: int where "AS_T_CLOCK_PERIOD \<equiv> 0x0110"
abbreviation (input) AS_T_VAL_I_LO :: int where "AS_T_VAL_I_LO \<equiv> 0x0114"
abbreviation (input) AS_T_VAL_I_HI :: int where "AS_T_VAL_I_HI \<equiv> 0x0118"
abbreviation (input) AS_T_VAL_O_LO :: int where "AS_T_VAL_O_LO \<equiv> 0x011C"
abbreviation (input) AS_T_VAL_O_HI :: int where "AS_T_VAL_O_HI \<equiv> 0x0120"
abbreviation (input) MDIO_REG_OFFSET :: int where "MDIO_REG_OFFSET \<equiv> 0x0200"
abbreviation (input) MDIO_CTRL :: int where "MDIO_CTRL \<equiv> 0x0200"
abbreviation (input) MDIO_WRITE_DATA :: int where "MDIO_WRITE_DATA \<equiv> 0x0204"
abbreviation (input) MDIO_READ_DATA :: int where "MDIO_READ_DATA \<equiv> 0x0208"
abbreviation (input) I2C_REG_OFFSET :: int where "I2C_REG_OFFSET \<equiv> 0x0300"
abbreviation (input) I2C_MASTER_CTRL :: int where "I2C_MASTER_CTRL \<equiv> 0x0300"
abbreviation (input) I2C_WRITE_DATA_LO :: int where "I2C_WRITE_DATA_LO \<equiv> 0x0304"
abbreviation (input) I2C_WRITE_DATA_HI :: int where "I2C_WRITE_DATA_HI \<equiv> 0x0308"
abbreviation (input) I2C_READ_DATA_LO :: int where "I2C_READ_DATA_LO \<equiv> 0x030C"
abbreviation (input) I2C_READ_DATA_HI :: int where "I2C_READ_DATA_HI \<equiv> 0x0310"
abbreviation (input) IP_REG_OFFSET :: int where "IP_REG_OFFSET \<equiv> 0x0400"
abbreviation (input) IP_INT_VECTOR :: int where "IP_INT_VECTOR \<equiv> 0x0400"
abbreviation (input) IP_PSTATUS_MASK :: int where "IP_PSTATUS_MASK \<equiv> 0x0408"
abbreviation (input) IP_PSTATUS_SELECTION :: int where "IP_PSTATUS_SELECTION \<equiv> 0x0410"
abbreviation (input) IP_PS_VECTOR :: int where "IP_PS_VECTOR \<equiv> 0x0414"
abbreviation (input) FDB_REG_OFFSET :: int where "FDB_REG_OFFSET \<equiv> 0x0600"
abbreviation (input) FDB_BASE_ADDR :: int where "FDB_BASE_ADDR \<equiv> 0x0600"
abbreviation (input) FDB_CTRL :: int where "FDB_CTRL \<equiv> 0x060C"
abbreviation (input) STP_REG_OFFSET :: int where "STP_REG_OFFSET \<equiv> 0x0900"
abbreviation (input) STP_CTRL :: int where "STP_CTRL \<equiv> 0x0904"
abbreviation (input) STP_MSTID_SELECTOR :: int where "STP_MSTID_SELECTOR \<equiv> 0x0908"
abbreviation (input) STP_PORT_STATE_LO :: int where "STP_PORT_STATE_LO \<equiv> 0x090C"
abbreviation (input) STP_PORT_STATE_HI :: int where "STP_PORT_STATE_HI \<equiv> 0x0910"
abbreviation (input) DSA_OFFSET :: int where "DSA_OFFSET \<equiv> 0x0C00"
abbreviation (input) QBV_REG_OFFSET :: int where "QBV_REG_OFFSET \<equiv> 0x2000"
abbreviation (input) QBV_PORT_SELECTOR :: int where "QBV_PORT_SELECTOR \<equiv> 0x2000"
abbreviation (input) QBV_QUEUE_SELECTOR :: int where "QBV_QUEUE_SELECTOR \<equiv> 0x2004"
abbreviation (input) QBV_GATE_ENABLED :: int where "QBV_GATE_ENABLED \<equiv> 0x2008"
abbreviation (input) QBV_ADMIN_CONTROL_LIST_LENGTH :: int where "QBV_ADMIN_CONTROL_LIST_LENGTH \<equiv> 0x2014"
abbreviation (input) QBV_ADMIN_CONTROL_LIST_POINTER :: int where "QBV_ADMIN_CONTROL_LIST_POINTER \<equiv> 0x2018"
abbreviation (input) QBV_ADMIN_GCL_GATE_STATES :: int where "QBV_ADMIN_GCL_GATE_STATES \<equiv> 0x201C"
abbreviation (input) QBV_ADMIN_CTRL_LIST_TIME_INTERVAL :: int where "QBV_ADMIN_CTRL_LIST_TIME_INTERVAL \<equiv> 0x2020"
abbreviation (input) QBV_ADMIN_CYCLE_TIME :: int where "QBV_ADMIN_CYCLE_TIME \<equiv> 0x2024"
abbreviation (input) QBV_ADMIN_CYCLE_TIME_EXTENDED :: int where "QBV_ADMIN_CYCLE_TIME_EXTENDED \<equiv> 0x2028"
abbreviation (input) QBV_ADMIN_BASE_TIME_NS_HI :: int where "QBV_ADMIN_BASE_TIME_NS_HI \<equiv> 0x2030"
abbreviation (input) QBV_ADMIN_BASE_TIME_NS_LO :: int where "QBV_ADMIN_BASE_TIME_NS_LO \<equiv> 0x2034"
abbreviation (input) QBV_OPER_CONTROL_LIST_LENGTH :: int where "QBV_OPER_CONTROL_LIST_LENGTH \<equiv> 0x203C"
abbreviation (input) QBV_OPER_CONTROL_LIST_POINTER :: int where "QBV_OPER_CONTROL_LIST_POINTER \<equiv> 0x2040"
abbreviation (input) QBV_OPER_GCL_GATE_STATES :: int where "QBV_OPER_GCL_GATE_STATES \<equiv> 0x2044"
abbreviation (input) QBV_OPER_CTRL_LIST_TIME_INTERVAL :: int where "QBV_OPER_CTRL_LIST_TIME_INTERVAL \<equiv> 0x2048"
abbreviation (input) QBV_OPER_CYCLE_TIME :: int where "QBV_OPER_CYCLE_TIME \<equiv> 0x204C"
abbreviation (input) QBV_OPER_CYCLE_TIME_EXTENDED :: int where "QBV_OPER_CYCLE_TIME_EXTENDED \<equiv> 0x2050"
abbreviation (input) QBV_OPER_BASE_TIME_NS_HI :: int where "QBV_OPER_BASE_TIME_NS_HI \<equiv> 0x2058"
abbreviation (input) QBV_OPER_BASE_TIME_NS_LO :: int where "QBV_OPER_BASE_TIME_NS_LO \<equiv> 0x205C"
abbreviation (input) QBV_CONFIG_CHANGE_REQ :: int where "QBV_CONFIG_CHANGE_REQ \<equiv> 0x2060"
abbreviation (input) QBV_CONFIG_CHANGE_CTRL :: int where "QBV_CONFIG_CHANGE_CTRL \<equiv> 0x2064"
abbreviation (input) QBV_CONFIG_CHANGE_STATE :: int where "QBV_CONFIG_CHANGE_STATE \<equiv> 0x2068"
abbreviation (input) QBV_CONFIG_CHANGE_TIME_S_H :: int where "QBV_CONFIG_CHANGE_TIME_S_H \<equiv> 0x206C"
abbreviation (input) QBV_CONFIG_CHANGE_TIME_NS_HI :: int where "QBV_CONFIG_CHANGE_TIME_NS_HI \<equiv> 0x2070"
abbreviation (input) QBV_CONFIG_CHANGE_TIME_NS_LO :: int where "QBV_CONFIG_CHANGE_TIME_NS_LO \<equiv> 0x2074"
abbreviation (input) QBV_CYCLE_START_TIME_CTRL :: int where "QBV_CYCLE_START_TIME_CTRL \<equiv> 0x2078"
abbreviation (input) QBV_CYCLE_START_TIME_S_H :: int where "QBV_CYCLE_START_TIME_S_H \<equiv> 0x207C"
abbreviation (input) QBV_CYCLE_START_TIME_NS_HI :: int where "QBV_CYCLE_START_TIME_NS_HI \<equiv> 0x2080"
abbreviation (input) QBV_CYCLE_START_TIME_NS_LO :: int where "QBV_CYCLE_START_TIME_NS_LO \<equiv> 0x2084"
abbreviation (input) QBV_CONFIG_CHANGE_ERROR_CNT :: int where "QBV_CONFIG_CHANGE_ERROR_CNT \<equiv> 0x2088"
abbreviation (input) QBV_TIMER_DOMAIN_INDEX :: int where "QBV_TIMER_DOMAIN_INDEX \<equiv> 0x2098"
abbreviation (input) QBV_TIMER_CHANGE_REQUEST :: int where "QBV_TIMER_CHANGE_REQUEST \<equiv> 0x209C"
abbreviation (input) PTP_REG_OFFSET :: int where "PTP_REG_OFFSET \<equiv> 0x3100"
abbreviation (input) PTP_TIMESTAMP_CTRL :: int where "PTP_TIMESTAMP_CTRL \<equiv> 0x3110"
abbreviation (input) PTP_RX_PORT :: int where "PTP_RX_PORT \<equiv> 0x3114"
abbreviation (input) PTP_FR_RX_TIMESTAMP_LO :: int where "PTP_FR_RX_TIMESTAMP_LO \<equiv> 0x3118"
abbreviation (input) PTP_FR_RX_TIMESTAMP_HI :: int where "PTP_FR_RX_TIMESTAMP_HI \<equiv> 0x311C"
abbreviation (input) PTP_RX_D0_TIMESTAMP_LO :: int where "PTP_RX_D0_TIMESTAMP_LO \<equiv> 0x3120"
abbreviation (input) PTP_RX_D0_TIMESTAMP_HI :: int where "PTP_RX_D0_TIMESTAMP_HI \<equiv> 0x3124"
abbreviation (input) PTP_RX_D1_TIMESTAMP_LO :: int where "PTP_RX_D1_TIMESTAMP_LO \<equiv> 0x3128"
abbreviation (input) PTP_RX_D1_TIMESTAMP_HI :: int where "PTP_RX_D1_TIMESTAMP_HI \<equiv> 0x312C"
abbreviation (input) PTP_RX_D2_TIMESTAMP_LO :: int where "PTP_RX_D2_TIMESTAMP_LO \<equiv> 0x3130"
abbreviation (input) PTP_RX_D2_TIMESTAMP_HI :: int where "PTP_RX_D2_TIMESTAMP_HI \<equiv> 0x3134"
abbreviation (input) PTP_RX_D3_TIMESTAMP_LO :: int where "PTP_RX_D3_TIMESTAMP_LO \<equiv> 0x3138"
abbreviation (input) PTP_RX_D3_TIMESTAMP_HI :: int where "PTP_RX_D3_TIMESTAMP_HI \<equiv> 0x313C"
abbreviation (input) PTP_RX_MESSAGE_INFO :: int where "PTP_RX_MESSAGE_INFO \<equiv> 0x3140"
abbreviation (input) PTP_TX_PORT :: int where "PTP_TX_PORT \<equiv> 0x3144"
abbreviation (input) PTP_FR_TX_TIMESTAMP_LO :: int where "PTP_FR_TX_TIMESTAMP_LO \<equiv> 0x3148"
abbreviation (input) PTP_FR_TX_TIMESTAMP_HI :: int where "PTP_FR_TX_TIMESTAMP_HI \<equiv> 0x314C"
abbreviation (input) PTP_TX_D0_TIMESTAMP_LO :: int where "PTP_TX_D0_TIMESTAMP_LO \<equiv> 0x3150"
abbreviation (input) PTP_TX_D0_TIMESTAMP_HI :: int where "PTP_TX_D0_TIMESTAMP_HI \<equiv> 0x3154"
abbreviation (input) PTP_TX_D1_TIMESTAMP_LO :: int where "PTP_TX_D1_TIMESTAMP_LO \<equiv> 0x3158"
abbreviation (input) PTP_TX_D1_TIMESTAMP_HI :: int where "PTP_TX_D1_TIMESTAMP_HI \<equiv> 0x315C"
abbreviation (input) PTP_TX_D2_TIMESTAMP_LO :: int where "PTP_TX_D2_TIMESTAMP_LO \<equiv> 0x3160"
abbreviation (input) PTP_TX_D2_TIMESTAMP_HI :: int where "PTP_TX_D2_TIMESTAMP_HI \<equiv> 0x3164"
abbreviation (input) PTP_TX_D3_TIMESTAMP_LO :: int where "PTP_TX_D3_TIMESTAMP_LO \<equiv> 0x3168"
abbreviation (input) PTP_TX_D3_TIMESTAMP_HI :: int where "PTP_TX_D3_TIMESTAMP_HI \<equiv> 0x316C"
abbreviation (input) PTP_TX_MESSAGE_INFO :: int where "PTP_TX_MESSAGE_INFO \<equiv> 0x3170"
abbreviation (input) PORT_OFFSET :: int where "PORT_OFFSET \<equiv> 0x3000"
abbreviation (input) PORT_MOD_VERN :: int where "PORT_MOD_VERN \<equiv> 0x0000"
abbreviation (input) PORT_LTCN_TXRX_10 :: int where "PORT_LTCN_TXRX_10 \<equiv> 0x0008"
abbreviation (input) PORT_LTCN_TXRX_100 :: int where "PORT_LTCN_TXRX_100 \<equiv> 0x000C"
abbreviation (input) PORT_LTCN_TXRX_1000 :: int where "PORT_LTCN_TXRX_1000 \<equiv> 0x0010"
abbreviation (input) PORT_M_PHY_SPEED :: int where "PORT_M_PHY_SPEED \<equiv> 0x001C"
abbreviation (input) PORT_RX_FRAME :: int where "PORT_RX_FRAME \<equiv> 0x0020"
abbreviation (input) PORT_TX_FRAME :: int where "PORT_TX_FRAME \<equiv> 0x0024"
abbreviation (input) PORT_FRAME_ERR :: int where "PORT_FRAME_ERR \<equiv> 0x0028"
abbreviation (input) PORT_CAP_CTRL :: int where "PORT_CAP_CTRL \<equiv> 0x008C"
abbreviation (input) PORT_RX_TIMEA_LO :: int where "PORT_RX_TIMEA_LO \<equiv> 0x0090"
abbreviation (input) PORT_TX_TIMEA_LO :: int where "PORT_TX_TIMEA_LO \<equiv> 0x00A8"
abbreviation (input) PORT_RX_CLOCK_ID_HI :: int where "PORT_RX_CLOCK_ID_HI \<equiv> 0x00A4"

subsection \<open>NIC registers, offsets into BAR 0 (\<open>libxdma.h\<close>)\<close>

abbreviation (input) MAC_MODULE_VERSION :: int where "MAC_MODULE_VERSION \<equiv> 0x0000"
abbreviation (input) RX_CTRL :: int where "RX_CTRL \<equiv> 0x0004"
abbreviation (input) AX_RX_CTL_PRO :: u32 where "AX_RX_CTL_PRO \<equiv> 0x1"
abbreviation (input) AX_RX_CTL_AB :: u32 where "AX_RX_CTL_AB \<equiv> 0x2"
abbreviation (input) AX_RX_CTL_AM :: u32 where "AX_RX_CTL_AM \<equiv> 0x4"
abbreviation (input) AX_RX_CTL_AMALL :: u32 where "AX_RX_CTL_AMALL \<equiv> 0x8"
abbreviation (input) NODE_ID_0 :: int where "NODE_ID_0 \<equiv> 0x0008"
abbreviation (input) NODE_ID_1 :: int where "NODE_ID_1 \<equiv> 0x000C"
abbreviation (input) MULTI_FILTER_ARR_0 :: int where "MULTI_FILTER_ARR_0 \<equiv> 0x0010"
abbreviation (input) MULTI_FILTER_ARR_1 :: int where "MULTI_FILTER_ARR_1 \<equiv> 0x0014"
abbreviation (input) GLOBAL_MAC_CONFIG :: int where "GLOBAL_MAC_CONFIG \<equiv> 0x0018"
abbreviation (input) AX_PLINK :: u32 where "AX_PLINK \<equiv> 0x1"
abbreviation (input) SWITCH_ISR :: int where "SWITCH_ISR \<equiv> 0x0040"

subsection \<open>Bits of the SG DMA control, status and descriptor words (\<open>libxdma.h\<close>)\<close>

abbreviation (input) XDMA_CTRL_RUN_STOP :: u32 where "XDMA_CTRL_RUN_STOP \<equiv> 0x1"
abbreviation (input) XDMA_CTRL_IE_DESC_STOPPED :: u32 where "XDMA_CTRL_IE_DESC_STOPPED \<equiv> 0x2"
abbreviation (input) XDMA_CTRL_IE_DESC_COMPLETED :: u32 where "XDMA_CTRL_IE_DESC_COMPLETED \<equiv> 0x4"
abbreviation (input) XDMA_CTRL_IE_DESC_ALIGN_MISMATCH :: u32 where "XDMA_CTRL_IE_DESC_ALIGN_MISMATCH \<equiv> 0x8"
abbreviation (input) XDMA_CTRL_IE_MAGIC_STOPPED :: u32 where "XDMA_CTRL_IE_MAGIC_STOPPED \<equiv> 0x10"
abbreviation (input) XDMA_CTRL_IE_IDLE_STOPPED :: u32 where "XDMA_CTRL_IE_IDLE_STOPPED \<equiv> 0x40"
abbreviation (input) XDMA_CTRL_IE_READ_ERROR :: u32 where "XDMA_CTRL_IE_READ_ERROR \<equiv> 0x3e00"
abbreviation (input) XDMA_CTRL_IE_DESC_ERROR :: u32 where "XDMA_CTRL_IE_DESC_ERROR \<equiv> 0xf80000"
abbreviation (input) XDMA_CTRL_NON_INCR_ADDR :: u32 where "XDMA_CTRL_NON_INCR_ADDR \<equiv> 0x2000000"
abbreviation (input) XDMA_CTRL_POLL_MODE_WB :: u32 where "XDMA_CTRL_POLL_MODE_WB \<equiv> 0x4000000"
abbreviation (input) XDMA_STAT_BUSY :: u32 where "XDMA_STAT_BUSY \<equiv> 0x1"
abbreviation (input) XDMA_STAT_DESC_STOPPED :: u32 where "XDMA_STAT_DESC_STOPPED \<equiv> 0x2"
abbreviation (input) XDMA_STAT_DESC_COMPLETED :: u32 where "XDMA_STAT_DESC_COMPLETED \<equiv> 0x4"
abbreviation (input) XDMA_STAT_ALIGN_MISMATCH :: u32 where "XDMA_STAT_ALIGN_MISMATCH \<equiv> 0x8"
abbreviation (input) XDMA_STAT_MAGIC_STOPPED :: u32 where "XDMA_STAT_MAGIC_STOPPED \<equiv> 0x10"
abbreviation (input) XDMA_STAT_INVALID_LEN :: u32 where "XDMA_STAT_INVALID_LEN \<equiv> 0x20"
abbreviation (input) XDMA_STAT_IDLE_STOPPED :: u32 where "XDMA_STAT_IDLE_STOPPED \<equiv> 0x40"
abbreviation (input) XDMA_STAT_DESC_UNSUPP_REQ :: u32 where "XDMA_STAT_DESC_UNSUPP_REQ \<equiv> 0x80000"
abbreviation (input) XDMA_STAT_DESC_COMPL_ABORT :: u32 where "XDMA_STAT_DESC_COMPL_ABORT \<equiv> 0x100000"
abbreviation (input) XDMA_STAT_DESC_PARITY_ERR :: u32 where "XDMA_STAT_DESC_PARITY_ERR \<equiv> 0x200000"
abbreviation (input) XDMA_STAT_DESC_HEADER_EP :: u32 where "XDMA_STAT_DESC_HEADER_EP \<equiv> 0x400000"
abbreviation (input) XDMA_STAT_DESC_UNEXP_COMPL :: u32 where "XDMA_STAT_DESC_UNEXP_COMPL \<equiv> 0x800000"
abbreviation (input) XDMA_STAT_H2C_R_UNSUPP_REQ :: u32 where "XDMA_STAT_H2C_R_UNSUPP_REQ \<equiv> 0x200"
abbreviation (input) XDMA_STAT_H2C_R_COMPL_ABORT :: u32 where "XDMA_STAT_H2C_R_COMPL_ABORT \<equiv> 0x400"
abbreviation (input) XDMA_STAT_H2C_R_PARITY_ERR :: u32 where "XDMA_STAT_H2C_R_PARITY_ERR \<equiv> 0x800"
abbreviation (input) XDMA_STAT_H2C_R_HEADER_EP :: u32 where "XDMA_STAT_H2C_R_HEADER_EP \<equiv> 0x1000"
abbreviation (input) XDMA_STAT_H2C_R_UNEXP_COMPL :: u32 where "XDMA_STAT_H2C_R_UNEXP_COMPL \<equiv> 0x2000"
abbreviation (input) XDMA_STAT_H2C_W_DECODE_ERR :: u32 where "XDMA_STAT_H2C_W_DECODE_ERR \<equiv> 0x4000"
abbreviation (input) XDMA_STAT_H2C_W_SLAVE_ERR :: u32 where "XDMA_STAT_H2C_W_SLAVE_ERR \<equiv> 0x8000"
abbreviation (input) XDMA_STAT_C2H_R_DECODE_ERR :: u32 where "XDMA_STAT_C2H_R_DECODE_ERR \<equiv> 0x200"
abbreviation (input) XDMA_STAT_C2H_R_SLAVE_ERR :: u32 where "XDMA_STAT_C2H_R_SLAVE_ERR \<equiv> 0x400"
abbreviation (input) XDMA_DESC_STOPPED :: u32 where "XDMA_DESC_STOPPED \<equiv> 0x1"
abbreviation (input) XDMA_DESC_COMPLETED :: u32 where "XDMA_DESC_COMPLETED \<equiv> 0x2"
abbreviation (input) XDMA_DESC_EOP :: u32 where "XDMA_DESC_EOP \<equiv> 0x10"
abbreviation (input) XDMA_PERF_RUN :: u32 where "XDMA_PERF_RUN \<equiv> 0x1"
abbreviation (input) XDMA_PERF_CLEAR :: u32 where "XDMA_PERF_CLEAR \<equiv> 0x2"
abbreviation (input) XDMA_PERF_AUTO :: u32 where "XDMA_PERF_AUTO \<equiv> 0x4"
abbreviation (input) XDMA_OFS_INT_CTRL :: int where "XDMA_OFS_INT_CTRL \<equiv> 0x2000"
abbreviation (input) XDMA_OFS_CONFIG :: int where "XDMA_OFS_CONFIG \<equiv> 0x3000"
abbreviation (input) DESC_MAGIC :: u32 where "DESC_MAGIC \<equiv> 0xAD4B0000"
abbreviation (input) C2H_WB :: u32 where "C2H_WB \<equiv> 0x52B40000"
abbreviation (input) IRQ_BLOCK_ID :: u32 where "IRQ_BLOCK_ID \<equiv> 0x1fc20000"
abbreviation (input) CONFIG_BLOCK_ID :: u32 where "CONFIG_BLOCK_ID \<equiv> 0x1fc30000"
abbreviation (input) XDMA_ID_H2C :: u32 where "XDMA_ID_H2C \<equiv> 0x1fc0"
abbreviation (input) XDMA_ID_C2H :: u32 where "XDMA_ID_C2H \<equiv> 0x1fc1"
abbreviation (input) MAGIC_ENGINE :: u32 where "MAGIC_ENGINE \<equiv> 0xEEEEEEEE"
abbreviation (input) MAGIC_DEVICE :: u32 where "MAGIC_DEVICE \<equiv> 0xDDDDDDDD"
abbreviation (input) XDMA_TRANSFER_MAX_DESC :: int where "XDMA_TRANSFER_MAX_DESC \<equiv> 2048"
abbreviation (input) PKT_BUF_LEN :: int where "PKT_BUF_LEN \<equiv> 2048"
abbreviation (input) DMA_PACKET_SIZE :: int where "DMA_PACKET_SIZE \<equiv> 2048"
abbreviation (input) RX_DESC_NUM :: int where "RX_DESC_NUM \<equiv> 1024"
abbreviation (input) DESC_LIST_NUM :: int where "DESC_LIST_NUM \<equiv> 2"
abbreviation (input) XDMA_BAR_NUM :: int where "XDMA_BAR_NUM \<equiv> 3"
abbreviation (input) XDMA_CHANNEL_NUM_MAX :: int where "XDMA_CHANNEL_NUM_MAX \<equiv> 2"
abbreviation (input) MAX_USER_IRQ :: int where "MAX_USER_IRQ \<equiv> 16"
abbreviation (input) H2C_CHANNEL_OFFSET :: int where "H2C_CHANNEL_OFFSET \<equiv> 0x1000"
abbreviation (input) SGDMA_OFFSET_FROM_CHANNEL :: int where "SGDMA_OFFSET_FROM_CHANNEL \<equiv> 0x4000"
abbreviation (input) CHANNEL_SPACING :: int where "CHANNEL_SPACING \<equiv> 0x100"
abbreviation (input) AX_MCAST_FILTER_SIZE :: int where "AX_MCAST_FILTER_SIZE \<equiv> 8"
abbreviation (input) AX_MAX_MCAST :: int where "AX_MAX_MCAST \<equiv> 64"
abbreviation (input) PHY_ID_SHIFT :: int where "PHY_ID_SHIFT \<equiv> 0x01"
abbreviation (input) XDMA_ENG_IRQ_NUM :: int where "XDMA_ENG_IRQ_NUM \<equiv> 1"
abbreviation (input) BYPASS_MODE_SPACING :: int where "BYPASS_MODE_SPACING \<equiv> 0x0100"
abbreviation (input) TX_DESC_NUM :: int where "TX_DESC_NUM \<equiv> RX_DESC_NUM"
abbreviation (input) XDMA_BAR_SIZE :: int where "XDMA_BAR_SIZE \<equiv> 0x8000"
abbreviation (input) CONFIG_CHANGE_BIT :: u32 where "CONFIG_CHANGE_BIT \<equiv> 0x100"
abbreviation (input) TIMER_CHANGE_BIT :: u32 where "TIMER_CHANGE_BIT \<equiv> 0x200"
abbreviation (input) TIMER_VALUE_CHANGE_BIT :: u32 where "TIMER_VALUE_CHANGE_BIT \<equiv> 0x400"
abbreviation (input) XDEV_FLAG_OFFLINE :: u32 where "XDEV_FLAG_OFFLINE \<equiv> 0x1"

end
