(* ===== verification/Ax_Switch.thy ===== *)
theory Ax_Switch
  imports Ax_Regs Ts_Queue
begin

unbundle bit_operations_syntax

section \<open>The TSN switch object\<close>

text \<open>
  \<open>struct ax_switch\<close> of \<open>switch/ax_switch.h\<close> with its initialisation, the register
  accessors, and the small helpers of \<open>switch/ax_switch.c\<close> that the interrupt handlers and
  the timestamping code share. \<open>pMemBase\<close> is the number of the BAR the switch registers
  live in (BAR 2 after \<open>axm57104_probe\<close>). The members the C code uses only to talk to the
  kernel (\<open>dev\<close>, \<open>mtsn_cdev\<close>, the interrupt numbers, the lock pointer) are left out.
\<close>

record ax_ptp_clock_data =
  ptp_clock :: "int option"
  ptp_clock_index :: int
  domain_index :: int
  base_addend_val :: u32
  clk_pMemBase :: int

record ax_switch =
  pMemBase :: int
  rx_queue :: ts_queue
  tx_queue :: ts_queue
  ax_ptp_clocks :: "ax_ptp_clock_data list"
  number_of_ports :: int
  number_of_domains :: int
  domain_number_map :: "int list"
  phc_id :: u32
  ptp_mode :: int

abbreviation (input) NUM_SWITCH_PORTS :: int where "NUM_SWITCH_PORTS \<equiv> 5"
abbreviation (input) NUM_OF_DOMAIN :: int where "NUM_OF_DOMAIN \<equiv> 2"
abbreviation (input) MAX_NUM_DOMAINS :: int where "MAX_NUM_DOMAINS \<equiv> 2"
abbreviation (input) PTP_DOMAIN_NUM :: int where "PTP_DOMAIN_NUM \<equiv> 2"
abbreviation (input) NS_PER_SEC :: u64 where "NS_PER_SEC \<equiv> 1000000000"

subsection \<open>Register access\<close>

definition ax_tsn_read_reg :: "device \<Rightarrow> ax_switch \<Rightarrow> int \<Rightarrow> io_log \<Rightarrow> u32 \<times> io_log" where
  "ax_tsn_read_reg hw sw RegAddr l = ioread32 hw (pMemBase sw, RegAddr) l"

definition ax_tsn_write_reg :: "ax_switch \<Rightarrow> int \<Rightarrow> u32 \<Rightarrow> io_log \<Rightarrow> io_log" where
  "ax_tsn_write_reg sw RegAddr Value l = iowrite32 Value (pMemBase sw, RegAddr) l"

subsection \<open>Initialisation\<close>

text \<open>
  \<open>ax_tsn_init_switch\<close> on a non-null switch. The receive queue is initialised first; when
  the transmit queue cannot be allocated the function fails without releasing the receive
  queue, as the code does.
\<close>

definition ax_tsn_init_switch ::
    "(int \<Rightarrow> capture_data list option) \<Rightarrow> (int \<Rightarrow> capture_data list option) \<Rightarrow>
     ax_switch option \<Rightarrow> int \<times> ax_switch option" where
  "ax_tsn_init_switch kmalloc_rx kmalloc_tx pSwitch =
     (case pSwitch of
        None \<Rightarrow> (-1, None)
      | Some sw \<Rightarrow>
          (let sw = sw\<lparr>number_of_ports := NUM_SWITCH_PORTS\<rparr>;
               sw = sw\<lparr>number_of_domains := NUM_OF_DOMAIN\<rparr>;
               (rv, q) = tsn_tsq_init kmalloc_rx (rx_queue sw) (number_of_ports sw) (number_of_domains sw);
               sw = sw\<lparr>rx_queue := q\<rparr>
           in if rv < 0 then (-1, Some (sw\<lparr>rx_queue := tsn_tsq_remove (rx_queue sw)\<rparr>))
              else
                (let (rv, q) = tsn_tsq_init kmalloc_tx (tx_queue sw) (number_of_ports sw) (number_of_domains sw);
                     sw = sw\<lparr>tx_queue := q\<rparr>
                 in if rv < 0 then (-1, Some (sw\<lparr>tx_queue := tsn_tsq_remove (tx_queue sw)\<rparr>))
                    else (0, Some sw))))"

subsection \<open>Helpers\<close>

text \<open>
  \<open>get_index_by_mask\<close>: the loop over \<open>i\<close>. \<open>1 << i\<close> is a 32-bit shift; the callers pass at
  most six indices, so no shift reaches the word length.
\<close>

fun index_by_mask_loop :: "u32 \<Rightarrow> nat \<Rightarrow> nat \<Rightarrow> int" where
  "index_by_mask_loop msk 0 i = -1"
| "index_by_mask_loop msk (Suc n) i =
     (if msk AND push_bit i 1 \<noteq> 0 then int i else index_by_mask_loop msk n (Suc i))"

definition get_index_by_mask :: "u32 \<Rightarrow> u32 \<Rightarrow> int" where
  "get_index_by_mask msk max_index = index_by_mask_loop msk (unat max_index) 0"

text \<open>\<open>div_u64\<close> of the kernel: a zero divisor is a division fault, the value \<open>None\<close>.\<close>

definition div_u64 :: "u64 \<Rightarrow> u32 \<Rightarrow> u64 option" where
  "div_u64 a b = (if b = 0 then None else Some (a div ucast b))"

definition get_cycle_start_time :: "u64 \<Rightarrow> u64 \<Rightarrow> u32 \<Rightarrow> u64 option" where
  "get_cycle_start_time current_time oper_base_time oper_cycle_time =
     (if oper_base_time \<ge> current_time then Some oper_base_time
      else
        (case div_u64 (current_time - oper_base_time) oper_cycle_time of
           None \<Rightarrow> None
         | Some actualstep \<Rightarrow>
             (let nextstep = actualstep + 2
              in Some (oper_base_time + nextstep * ucast oper_cycle_time))))"

text \<open>\<open>_ax_time_to_ull\<close>: the second assignment overwrites the seconds.\<close>

definition ax_time_to_ull :: "u32 \<Rightarrow> u32 \<Rightarrow> u64" where
  "ax_time_to_ull seconds nanoseconds =
     (let time64 = ucast seconds;
          time64 = NS_PER_SEC
      in time64 + ucast nanoseconds)"

text \<open>
  \<open>ax_fast_age\<close> polls until the previous clear operation has finished. Every poll takes one
  unit of fuel; running out is \<open>None\<close>.
\<close>

fun ax_fast_age :: "nat \<Rightarrow> device \<Rightarrow> ax_switch \<Rightarrow> io_log \<Rightarrow> io_log option" where
  "ax_fast_age 0 hw sw l = None"
| "ax_fast_age (Suc fuel) hw sw l =
     (let (v, l) = ioread32 hw (pMemBase sw, FDB_CTRL) l
      in if v AND 0x80 = 0x80 then ax_fast_age fuel hw sw l
         else Some (iowrite32 0x10 (pMemBase sw, FDB_CTRL) l))"

subsection \<open>The initialised switch\<close>

lemma tsn_tsq_init_wf:
  assumes "tsn_tsq_init kmalloc q p d = (rv, q')" and "rv = 0" and "0 \<le> p * d"
    and "\<And>n buf. kmalloc n = Some buf \<Longrightarrow> int (length buf) = n"
  shows "tsq_wf q' \<and> tsq_list q' = [] \<and> max_num_items q' = p * d + 8"
  using assms
  by (auto simp: tsn_tsq_init_def tsn_tsq_flush_def tsq_wf_def tsq_list_def Let_def split: option.splits)

lemma ax_tsn_init_switch_ok:
  assumes ret: "ax_tsn_init_switch krx ktx s = (0, Some sw)"
    and krx: "\<And>n buf. krx n = Some buf \<Longrightarrow> int (length buf) = n"
    and ktx: "\<And>n buf. ktx n = Some buf \<Longrightarrow> int (length buf) = n"
  shows "tsq_wf (rx_queue sw) \<and> tsq_wf (tx_queue sw) \<and> tsq_cap (rx_queue sw) = 18 \<and> tsq_cap (tx_queue sw) = 18 \<and>
     tsq_list (rx_queue sw) = [] \<and> tsq_list (tx_queue sw) = [] \<and>
     number_of_ports sw = 5 \<and> number_of_domains sw = 2"
proof -
  obtain sw0 where s: "s = Some sw0" using ret by (auto simp: ax_tsn_init_switch_def split: option.splits)
  obtain r1 q1 where i1: "tsn_tsq_init krx (rx_queue sw0) 5 2 = (r1, q1)" by fastforce
  obtain r2 q2 where i2: "tsn_tsq_init ktx (tx_queue sw0) 5 2 = (r2, q2)" by fastforce
  have rr: "r1 = 0 \<or> r1 = -1" "r2 = 0 \<or> r2 = -1"
    using i1 i2 by (auto simp: tsn_tsq_init_def Let_def split: option.splits)
  with ret s i1 i2 have r: "r1 = 0" "r2 = 0" and
    sw: "sw = sw0\<lparr>number_of_ports := 5, number_of_domains := 2, rx_queue := q1, tx_queue := q2\<rparr>"
    by (auto simp: ax_tsn_init_switch_def Let_def split: if_splits)
  from tsn_tsq_init_wf [OF i1 r(1) _ krx] tsn_tsq_init_wf [OF i2 r(2) _ ktx] show ?thesis
    by (simp add: sw tsq_cap_def)
qed

subsection \<open>Correctness of the helpers\<close>

lemma and_push_bit_1_iff: "(msk :: u32) AND push_bit i 1 \<noteq> 0 \<longleftrightarrow> bit msk i"
  by (metis bit_iff_and_push_bit_not_eq_0)

lemma index_by_mask_loop_Suc:
  "index_by_mask_loop msk (Suc n) i = (if bit msk i then int i else index_by_mask_loop msk n (Suc i))"
  by (simp only: index_by_mask_loop.simps and_push_bit_1_iff)

lemma index_by_mask_loop_cases:
  "(index_by_mask_loop msk n i = -1 \<and> (\<forall>j. i \<le> j \<and> j < i + n \<longrightarrow> \<not> bit msk j)) \<or>
   (\<exists>k. index_by_mask_loop msk n i = int k \<and> i \<le> k \<and> k < i + n \<and> bit msk k \<and>
      (\<forall>j. i \<le> j \<and> j < k \<longrightarrow> \<not> bit msk j))"
proof (induction n arbitrary: i)
  case 0
  then show ?case by auto
next
  case (Suc n)
  show ?case
  proof (cases "bit msk i")
    case True
    then show ?thesis by (auto simp: index_by_mask_loop_Suc simp del: index_by_mask_loop.simps)
  next
    case False
    then have step: "index_by_mask_loop msk (Suc n) i = index_by_mask_loop msk n (Suc i)"
      by (simp only: index_by_mask_loop_Suc if_False)
    have low: "\<forall>j. i \<le> j \<and> j < k \<longrightarrow> \<not> bit msk j" if "\<forall>j. Suc i \<le> j \<and> j < k \<longrightarrow> \<not> bit msk j" for k
    proof (intro allI impI)
      fix j assume "i \<le> j \<and> j < k"
      with that False show "\<not> bit msk j" by (cases "j = i") auto
    qed
    from Suc.IH [of "Suc i"] show ?thesis
    proof (elim disjE exE conjE)
      assume "index_by_mask_loop msk n (Suc i) = -1" "\<forall>j. Suc i \<le> j \<and> j < Suc i + n \<longrightarrow> \<not> bit msk j"
      with low [of "Suc i + n"] step show ?thesis by simp
    next
      fix k assume "index_by_mask_loop msk n (Suc i) = int k" "Suc i \<le> k" "k < Suc i + n" "bit msk k"
        "\<forall>j. Suc i \<le> j \<and> j < k \<longrightarrow> \<not> bit msk j"
      with low [of k] step show ?thesis by (intro disjI2 exI [of _ k]) simp
    qed
  qed
qed

text \<open>
  \<open>get_index_by_mask\<close> returns the lowest set bit of the mask among the first \<open>max_index\<close>
  bits, and -1 exactly when none of them is set.
\<close>

theorem get_index_by_mask_lowest:
  "(get_index_by_mask msk mx = int k \<longleftrightarrow> k < unat mx \<and> bit msk k \<and> (\<forall>j<k. \<not> bit msk j)) \<and>
   (get_index_by_mask msk mx = -1 \<longleftrightarrow> (\<forall>j<unat mx. \<not> bit msk j))"
  using index_by_mask_loop_cases [of msk "unat mx" 0]
  unfolding get_index_by_mask_def by (auto, metis linorder_neqE_nat)

theorem get_index_by_mask_lowest_witness: "get_index_by_mask 6 5 = int 1 \<and> get_index_by_mask 0 5 = -1"
proof -
  have "bit (6 :: u32) 1" "\<not> bit (6 :: u32) 0" by simp_all
  then show ?thesis
    using get_index_by_mask_lowest [of 6 5 1] get_index_by_mask_lowest [of 0 5 0] by (auto simp: less_Suc_eq)
qed

text \<open>The start of the next cycle: what the computation promises.\<close>

lemma uint_ucast_u32_u64 [simp]: "uint (ucast (x :: u32) :: u64) = uint x"
  using uint_lt2p [of x] by (simp add: unsigned_ucast_eq take_bit_eq_mod)

lemma div_u64_uint: "b \<noteq> 0 \<Longrightarrow> \<exists>r. div_u64 a b = Some r \<and> uint r = uint a div uint b"
  by (auto simp: div_u64_def uint_div)

text \<open>
  The next grid point \<open>base + (q + k) * c\<close>, where \<open>q\<close> full cycles have passed at \<open>cur\<close>: it is
  on the grid and between \<open>k - 1\<close> and \<open>k\<close> cycles ahead.
\<close>

lemma grid_ahead:
  fixes cur base c k :: int
  assumes "0 < c" and "base \<le> cur"
  defines "t \<equiv> base + ((cur - base) div c + k) * c"
  shows "cur + (k - 1) * c < t" and "t \<le> cur + k * c" and "c dvd t - base"
proof -
  have "(cur - base) div c * c = cur - base - (cur - base) mod c"
    by (simp add: minus_mod_eq_div_mult)
  moreover have "0 \<le> (cur - base) mod c" "(cur - base) mod c < c" using assms by auto
  ultimately show "cur + (k - 1) * c < t" "t \<le> cur + k * c"
    unfolding t_def distrib_right left_diff_distrib mult_1 by linarith+
  show "c dvd t - base" by (simp add: t_def)
qed

lemma u64_grid_point:
  assumes c: "c \<noteq> 0" and le: "base \<le> cur" and fits: "uint cur + k * uint c < 2 ^ 64" and k: "0 \<le> k" "k < 2 ^ 32"
  shows "\<exists>q. div_u64 (cur - base) c = Some q \<and>
     uint (base + (q + word_of_int k) * ucast c) = uint base + ((uint cur - uint base) div uint c + k) * uint c"
proof -
  have cpos: "0 < uint c" using c by (simp add: word_neq_0_conv word_less_def [of 0])
  obtain q where q: "div_u64 (cur - base) c = Some q" "uint q = uint (cur - base) div uint c"
    using div_u64_uint [OF c] by blast
  have sub: "uint (cur - base) = uint cur - uint base"
    using le by (simp only: word_le_def uint_sub_lem)
  let ?t = "uint base + ((uint cur - uint base) div uint c + k) * uint c"
  have b: "?t \<le> uint cur + k * uint c"
    using grid_ahead(2) [OF cpos, of "uint base" "uint cur" k] le by (simp add: word_le_def)
  have nn: "0 \<le> (uint cur - uint base) div uint c"
    using le cpos by (simp add: pos_imp_zdiv_nonneg_iff word_le_def)
  have wt: "word_of_int ?t = base + (q + word_of_int k) * ucast c"
    by (simp only: q(2) [unfolded sub, symmetric] of_int_add of_int_mult word_of_int_uint ucast_eq)
  have "uint (word_of_int ?t :: u64) = ?t mod 2 ^ LENGTH(64)"
    by (rule uint_word_of_int)
  then have "uint (base + (q + word_of_int k) * ucast c) = ?t mod 2 ^ 64"
    unfolding wt by simp
  moreover have "0 \<le> ?t" using nn k cpos by simp
  ultimately show ?thesis using b fits q(1) by simp
qed

end
