(* ===== verification/Qbv.thy ===== *)
theory Qbv
  imports Ax_Switch
begin

unbundle bit_operations_syntax

section \<open>802.1Qbv gate scheduling: the three interrupt handlers\<close>

text \<open>
  \<open>ax_irq_timer_value_change\<close>, \<open>ax_irq_config_change\<close> and \<open>ax_irq_timer_change\<close> of
  \<open>switch/ax_switch.c\<close>. Each handler reads which port (or timer) asked for service, selects
  that port, computes a time on the port's cycle grid and writes it to the gate control
  registers. A zero cycle time is a division fault in the kernel: the handler's value is
  then \<open>None\<close>. The product \<open>10*cycle_time\<close> is a 32-bit product in the code, and so it is here.
\<close>

subsection \<open>The handlers\<close>

text \<open>"Apply cycle_start_time commanded by sw".\<close>

definition apply_cycle_start_time :: "int \<Rightarrow> u64 \<Rightarrow> io_log \<Rightarrow> io_log" where
  "apply_cycle_start_time B cycle_start_time l =
     (let l = iowrite32 (hi32 cycle_start_time) (B, QBV_CYCLE_START_TIME_NS_HI) l;
          l = iowrite32 (lo32 cycle_start_time) (B, QBV_CYCLE_START_TIME_NS_LO) l
      in iowrite32 1 (B, QBV_CYCLE_START_TIME_CTRL) l)"

text \<open>"Obtain current time from the timer in use by the port".\<close>

definition read_port_time :: "device \<Rightarrow> int \<Rightarrow> io_log \<Rightarrow> u64 \<times> io_log" where
  "read_port_time hw B l =
     (let (timer_domain_index, l) = ioread32 hw (B, QBV_TIMER_DOMAIN_INDEX) l;
          l = iowrite32 (timer_domain_index + 1) (B, AS_T_SELECTOR) l;
          (timer_H, l) = ioread32 hw (B, AS_T_VAL_O_HI) l;
          (timer_L, l) = ioread32 hw (B, AS_T_VAL_O_LO) l
      in (ucast timer_H * 1000000000 + ucast timer_L, l))"

text \<open>
  The body shared by the two timer handlers, from the safe-state command on; they differ
  only in the registers the base time is read from.
\<close>

definition restart_port_cycle :: "device \<Rightarrow> int \<Rightarrow> int \<Rightarrow> int \<Rightarrow> io_log \<Rightarrow> io_log option" where
  "restart_port_cycle hw B base_hi base_lo l =
     (let l = iowrite32 2 (B, QBV_CYCLE_START_TIME_CTRL) l;
          (oper_cycle_time, l) = ioread32 hw (B, QBV_OPER_CYCLE_TIME) l;
          (bhi, l) = ioread32 hw (B, base_hi) l;
          (blo, l) = ioread32 hw (B, base_lo) l;
          oper_base_time = join64 bhi blo;
          (current_time, l) = read_port_time hw B l;
          (config_change_state, l) = ioread32 hw (B, QBV_CONFIG_CHANGE_STATE) l
      in if config_change_state = 1 then
           (let (chi, l) = ioread32 hw (B, QBV_CONFIG_CHANGE_TIME_NS_HI) l;
                (clo, l) = ioread32 hw (B, QBV_CONFIG_CHANGE_TIME_NS_LO) l;
                config_change_time = join64 chi clo
            in if config_change_time \<le> current_time + ucast (10 * oper_cycle_time)
               then Some (iowrite32 1 (B, QBV_CONFIG_CHANGE_CTRL) l)
               else map_option (\<lambda>t. iowrite32 1 (B, QBV_CONFIG_CHANGE_CTRL) (apply_cycle_start_time B t l))
                      (get_cycle_start_time current_time oper_base_time oper_cycle_time))
         else map_option (\<lambda>t. apply_cycle_start_time B t l)
                (get_cycle_start_time current_time oper_base_time oper_cycle_time))"

text \<open>The port loop of \<open>ax_irq_timer_value_change\<close>: \<open>n\<close> ports are left, the next one is \<open>i\<close>.\<close>

fun timer_value_ports :: "device \<Rightarrow> int \<Rightarrow> u32 \<Rightarrow> nat \<Rightarrow> nat \<Rightarrow> io_log \<Rightarrow> io_log option" where
  "timer_value_ports hw B timer_changed_index 0 i l = Some l"
| "timer_value_ports hw B timer_changed_index (Suc n) i l =
     (let l = iowrite32 (of_nat i) (B, QBV_PORT_SELECTOR) l;
          (gate_enabled, l) = ioread32 hw (B, QBV_GATE_ENABLED) l;
          after =
            (if gate_enabled = 1 then
               (let (timer_domain_index, l) = ioread32 hw (B, QBV_TIMER_DOMAIN_INDEX) l
                in if timer_changed_index = timer_domain_index + 1
                   then restart_port_cycle hw B QBV_OPER_BASE_TIME_NS_HI QBV_OPER_BASE_TIME_NS_LO l
                   else Some l)
             else Some l)
      in Option.bind after (timer_value_ports hw B timer_changed_index n (Suc i)))"

definition ax_irq_timer_value_change :: "device \<Rightarrow> ax_switch \<Rightarrow> io_log \<Rightarrow> io_log option" where
  "ax_irq_timer_value_change hw sw l =
     (let B = pMemBase sw;
          (tmr_interrupt_mask, l) = ioread32 hw (B, AS_T_INT_MASK) l;
          timer_changed_index =
            word_of_int (get_index_by_mask tmr_interrupt_mask (word_of_int (number_of_domains sw + 1)))
      in map_option (iowrite32 0 (B, AS_T_INT_MASK))
           (timer_value_ports hw B timer_changed_index (nat (number_of_ports sw)) 0 l))"

definition ax_irq_config_change :: "device \<Rightarrow> ax_switch \<Rightarrow> io_log \<Rightarrow> io_log option" where
  "ax_irq_config_change hw sw l =
     (let B = pMemBase sw;
          (config_change_req, l) = ioread32 hw (B, QBV_CONFIG_CHANGE_REQ) l;
          port_id = get_index_by_mask config_change_req (word_of_int (number_of_ports sw))
      in map_option (iowrite32 0 (B, QBV_CONFIG_CHANGE_REQ))
        (if port_id \<noteq> -1 then
           (let l = iowrite32 (word_of_int port_id) (B, QBV_PORT_SELECTOR) l;
                (admin_cycle_time, l) = ioread32 hw (B, QBV_ADMIN_CYCLE_TIME) l;
                (bhi, l) = ioread32 hw (B, QBV_ADMIN_BASE_TIME_NS_HI) l;
                (blo, l) = ioread32 hw (B, QBV_ADMIN_BASE_TIME_NS_LO) l;
                admin_base_time = join64 bhi blo;
                (current_time, l) = read_port_time hw B l
            in map_option (\<lambda>config_change_time.
                 (let l = iowrite32 (hi32 config_change_time) (B, QBV_CONFIG_CHANGE_TIME_NS_HI) l;
                      l = iowrite32 (lo32 config_change_time) (B, QBV_CONFIG_CHANGE_TIME_NS_LO) l
                  in iowrite32 1 (B, QBV_CONFIG_CHANGE_CTRL) l))
               (if admin_base_time \<ge> current_time + ucast (10 * admin_cycle_time)
                then Some admin_base_time
                else map_option (\<lambda>actualstep.
                       (let nextstep = actualstep + 10
                        in admin_base_time + nextstep * ucast admin_cycle_time))
                     (div_u64 (current_time - admin_base_time) admin_cycle_time)))
         else Some l))"

definition ax_irq_timer_change :: "device \<Rightarrow> ax_switch \<Rightarrow> io_log \<Rightarrow> io_log option" where
  "ax_irq_timer_change hw sw l =
     (let B = pMemBase sw;
          (timer_change_request, l) = ioread32 hw (B, QBV_TIMER_CHANGE_REQUEST) l;
          port_id = (word_of_int (get_index_by_mask timer_change_request
                       (word_of_int (number_of_ports sw))) :: u32)
      in map_option (iowrite32 0 (B, QBV_TIMER_CHANGE_REQUEST))
        (if port_id \<noteq> -1 then
           (let l = iowrite32 port_id (B, QBV_PORT_SELECTOR) l;
                (gate_enabled, l) = ioread32 hw (B, QBV_GATE_ENABLED) l
            in if gate_enabled = 1
               then restart_port_cycle hw B QBV_ADMIN_BASE_TIME_NS_HI QBV_ADMIN_BASE_TIME_NS_LO l
               else Some l)
         else Some l))"

subsection \<open>Banked registers\<close>

text \<open>
  The hypothesis about the switch hardware: a register of the Qbv block (offset 0x2000 and
  up) answers for the port selected last, a register below it (the 802.1AS timers) for the
  timer selected last. \<open>qv p off\<close> and \<open>tv t off\<close> are the register files.
\<close>

type_synonym bank = "u32 option \<Rightarrow> int \<Rightarrow> u32"

definition banked :: "device \<Rightarrow> int \<Rightarrow> bank \<Rightarrow> bank \<Rightarrow> bool" where
  "banked hw B qv tv \<longleftrightarrow> (\<forall>l off. hw l (B, off) =
     (if off \<ge> QBV_REG_OFFSET then qv (last_write (B, QBV_PORT_SELECTOR) l) off
      else tv (last_write (B, AS_T_SELECTOR) l) off))"

definition timer_now :: "bank \<Rightarrow> u32 \<Rightarrow> u64" where
  "timer_now tv t = ucast (tv (Some t) AS_T_VAL_O_HI) * 1000000000 + ucast (tv (Some t) AS_T_VAL_O_LO)"

text \<open>The writes of one restart of a port's cycle, as a function of the register files.\<close>

definition cycle_start_writes :: "int \<Rightarrow> u64 \<Rightarrow> (mmio_addr \<times> u32) list" where
  "cycle_start_writes B t =
     [((B, QBV_CYCLE_START_TIME_NS_HI), hi32 t), ((B, QBV_CYCLE_START_TIME_NS_LO), lo32 t),
      ((B, QBV_CYCLE_START_TIME_CTRL), 1)]"

definition restart_writes :: "int \<Rightarrow> bank \<Rightarrow> bank \<Rightarrow> int \<Rightarrow> int \<Rightarrow> u32 \<Rightarrow> (mmio_addr \<times> u32) list option" where
  "restart_writes B qv tv base_hi base_lo p =
     (let r = qv (Some p);
          ts = r QBV_TIMER_DOMAIN_INDEX + 1;
          safe = [((B, QBV_CYCLE_START_TIME_CTRL), 2), ((B, AS_T_SELECTOR), ts)];
          start = get_cycle_start_time (timer_now tv ts) (join64 (r base_hi) (r base_lo)) (r QBV_OPER_CYCLE_TIME)
      in if r QBV_CONFIG_CHANGE_STATE = 1 then
           (if join64 (r QBV_CONFIG_CHANGE_TIME_NS_HI) (r QBV_CONFIG_CHANGE_TIME_NS_LO)
                 \<le> timer_now tv ts + ucast (10 * r QBV_OPER_CYCLE_TIME)
            then Some (safe @ [((B, QBV_CONFIG_CHANGE_CTRL), 1)])
            else map_option (\<lambda>t. safe @ cycle_start_writes B t @ [((B, QBV_CONFIG_CHANGE_CTRL), 1)]) start)
         else map_option (\<lambda>t. safe @ cycle_start_writes B t) start)"

text \<open>The ports a changed timer concerns: gating is enabled and the port uses that timer.\<close>

definition uses_timer :: "bank \<Rightarrow> u32 \<Rightarrow> u32 \<Rightarrow> bool" where
  "uses_timer qv idx p \<longleftrightarrow> qv (Some p) QBV_GATE_ENABLED = 1 \<and> idx = qv (Some p) QBV_TIMER_DOMAIN_INDEX + 1"

definition port_writes :: "int \<Rightarrow> bank \<Rightarrow> bank \<Rightarrow> u32 \<Rightarrow> u32 \<Rightarrow> (mmio_addr \<times> u32) list option" where
  "port_writes B qv tv idx p =
     map_option (Cons ((B, QBV_PORT_SELECTOR), p))
       (if uses_timer qv idx p
        then restart_writes B qv tv QBV_OPER_BASE_TIME_NS_HI QBV_OPER_BASE_TIME_NS_LO p else Some [])"

text \<open>A concrete device for the witnesses: one register file for all ports and timers.\<close>

definition flat_device :: "(int \<Rightarrow> u32) \<Rightarrow> device" where
  "flat_device r l a = r (snd a)"

definition sample_regs :: "u32 \<Rightarrow> u32 \<Rightarrow> int \<Rightarrow> u32" where
  "sample_regs base now off =
     (if off = QBV_CONFIG_CHANGE_REQ \<or> off = QBV_TIMER_CHANGE_REQUEST then 2
      else if off = QBV_ADMIN_CYCLE_TIME \<or> off = QBV_OPER_CYCLE_TIME then 1000
      else if off = QBV_ADMIN_BASE_TIME_NS_LO \<or> off = QBV_OPER_BASE_TIME_NS_LO then base
      else if off = QBV_GATE_ENABLED then 1
      else if off = AS_T_INT_MASK then 2
      else if off = AS_T_VAL_O_LO then now else 0)"

definition sample_switch :: ax_switch where
  "sample_switch = \<lparr>pMemBase = 2, rx_queue = sample_queue, tx_queue = sample_queue, ax_ptp_clocks = [],
     number_of_ports = 5, number_of_domains = 2, domain_number_map = [0, 0, 0], phc_id = 0, ptp_mode = 0\<rparr>"

subsection \<open>What the handlers write to banked registers\<close>

lemma bankedD:
  "banked hw B qv tv \<Longrightarrow> hw l (B, off) =
     (if off \<ge> QBV_REG_OFFSET then qv (last_write (B, QBV_PORT_SELECTOR) l) off
      else tv (last_write (B, AS_T_SELECTOR) l) off)"
  by (simp add: banked_def)

lemma flat_device_banked: "banked (flat_device r) B (\<lambda>_. r) (\<lambda>_. r)"
  by (simp add: banked_def flat_device_def)

lemma restart_port_cycle_banked:
  assumes "banked hw B qv tv" and "last_write (B, QBV_PORT_SELECTOR) l = Some p"
    and "base_hi \<ge> QBV_REG_OFFSET" and "base_lo \<ge> QBV_REG_OFFSET"
  shows "map_option io_writes (restart_port_cycle hw B base_hi base_lo l) =
     map_option (\<lambda>ws. io_writes l @ ws) (restart_writes B qv tv base_hi base_lo p)"
  using assms
  by (auto simp: restart_port_cycle_def restart_writes_def read_port_time_def Let_def io_simps
      bankedD [OF assms(1)] apply_cycle_start_time_def cycle_start_writes_def timer_now_def option.map_comp o_def)

lemma timer_value_ports_banked:
  assumes bk: "banked hw B qv tv"
    and ok: "\<And>j. i \<le> j \<Longrightarrow> j < i + n \<Longrightarrow> port_writes B qv tv idx (of_nat j) = Some (ws j)"
  shows "map_option io_writes (timer_value_ports hw B idx n i l) =
     Some (io_writes l @ concat (map ws [i..<i + n]))"
  using ok
proof (induction n arbitrary: i l)
  case 0
  then show ?case by simp
next
  case (Suc n)
  let ?l1 = "RD (B, QBV_GATE_ENABLED) # WR (B, QBV_PORT_SELECTOR) (of_nat i) # l"
  let ?l2 = "RD (B, QBV_TIMER_DOMAIN_INDEX) # ?l1"
  define after where "after = (if uses_timer qv idx (of_nat i)
      then restart_port_cycle hw B QBV_OPER_BASE_TIME_NS_HI QBV_OPER_BASE_TIME_NS_LO ?l2
      else if qv (Some (of_nat i)) QBV_GATE_ENABLED = 1 then Some ?l2 else Some ?l1)"
  have step: "timer_value_ports hw B idx (Suc n) i l = Option.bind after (timer_value_ports hw B idx n (Suc i))"
    by (simp add: after_def uses_timer_def io_simps bankedD [OF bk] Let_def)
  have "map_option io_writes after = Some (io_writes l @ ws i)"
    using Suc.prems [of i] restart_port_cycle_banked [OF bk, of ?l2 "of_nat i" QBV_OPER_BASE_TIME_NS_HI QBV_OPER_BASE_TIME_NS_LO]
    by (auto simp: after_def port_writes_def split: if_splits)
  then obtain la where la: "after = Some la" "io_writes la = io_writes l @ ws i" by auto
  have "map_option io_writes (timer_value_ports hw B idx n (Suc i) la) =
      Some (io_writes la @ concat (map ws [Suc i..<Suc i + n]))"
    by (rule Suc.IH) (use Suc.prems in auto)
  moreover have "[i..<i + Suc n] = i # [Suc i..<Suc i + n]" by (simp add: upt_conv_Cons)
  ultimately show ?case by (simp only: step la bind.simps list.simps concat.simps append_assoc)
qed

subsection \<open>The config change handler over banked registers\<close>

lemma config_change_banked:
  assumes "banked hw (pMemBase sw) qv tv"
    and "get_index_by_mask (qv (last_write (pMemBase sw, QBV_PORT_SELECTOR) l) QBV_CONFIG_CHANGE_REQ)
           (word_of_int (number_of_ports sw)) = int p"
  defines "r \<equiv> qv (Some (of_nat p))"
  defines "ts \<equiv> r QBV_TIMER_DOMAIN_INDEX + 1"
  defines "cur \<equiv> timer_now tv ts"
  defines "base \<equiv> join64 (r QBV_ADMIN_BASE_TIME_NS_HI) (r QBV_ADMIN_BASE_TIME_NS_LO)"
  shows "map_option io_writes (ax_irq_config_change hw sw l) =
     map_option (\<lambda>t. io_writes l @
        [((pMemBase sw, QBV_PORT_SELECTOR), of_nat p), ((pMemBase sw, AS_T_SELECTOR), ts),
         ((pMemBase sw, QBV_CONFIG_CHANGE_TIME_NS_HI), hi32 t), ((pMemBase sw, QBV_CONFIG_CHANGE_TIME_NS_LO), lo32 t),
         ((pMemBase sw, QBV_CONFIG_CHANGE_CTRL), 1), ((pMemBase sw, QBV_CONFIG_CHANGE_REQ), 0)])
       (if base \<ge> cur + ucast (10 * r QBV_ADMIN_CYCLE_TIME) then Some base
        else map_option (\<lambda>step. base + (step + 10) * ucast (r QBV_ADMIN_CYCLE_TIME))
               (div_u64 (cur - base) (r QBV_ADMIN_CYCLE_TIME)))"
  using assms(2)
  by (auto simp: ax_irq_config_change_def read_port_time_def Let_def io_simps bankedD [OF assms(1)]
      timer_now_def option.map_comp o_def assms(3-6))

lemma uint_10_cycles:
  assumes "10 * uint (c :: u32) < 2 ^ 32"
  shows "uint (ucast (10 * c) :: u64) = 10 * uint c"
  using assms by (simp add: uint_word_ariths)

text \<open>
  The next cycle start: with a non-zero cycle time it is the base time itself when that
  is not yet past, and otherwise a point of the grid "base plus whole cycles" that lies
  more than one and at most two cycles ahead of the current time.
\<close>

lemma cycle_start_time_on_grid:
  assumes "c \<noteq> 0" and "uint cur + 2 * uint c < 2 ^ 64"
  shows "\<exists>t. get_cycle_start_time cur base c = Some t \<and>
    (if base \<ge> cur then t = base
     else uint cur + uint c < uint t \<and> uint t \<le> uint cur + 2 * uint c \<and> uint c dvd uint t - uint base)"
proof (cases "base \<ge> cur")
  case True
  then show ?thesis by (simp add: get_cycle_start_time_def)
next
  case False
  then have le: "base \<le> cur" by simp
  have cpos: "0 < uint c" using assms(1) by (simp add: word_neq_0_conv word_less_def [of 0])
  obtain q where q: "div_u64 (cur - base) c = Some q"
    "uint (base + (q + word_of_int 2) * ucast c) = uint base + ((uint cur - uint base) div uint c + 2) * uint c"
    using u64_grid_point [OF assms(1) le assms(2)] by auto
  from grid_ahead [OF cpos, of "uint base" "uint cur" 2] le False q show ?thesis
    by (simp add: get_cycle_start_time_def word_le_def)
qed

lemma of_nat_u32_not_max: "p < 32 \<Longrightarrow> (of_nat p :: u32) \<noteq> -1"
proof
  assume "p < 32" and "(of_nat p :: u32) = -1"
  moreover have "(-1 :: u32) = 0xFFFFFFFF" by simp
  ultimately have "unat (of_nat p :: u32) = unat (0xFFFFFFFF :: u32)" by metis
  with \<open>p < 32\<close> show False by (simp add: unat_of_nat)
qed

subsection \<open>Properties\<close>


lemma index_of_mask_2: "get_index_by_mask 2 5 = int 1"
  by code_simp

lemma index_of_mask_2_of_3: "get_index_by_mask 2 3 = int 1"
  by code_simp



text \<open>
  A timer change request of port \<open>p\<close> whose gates are enabled and that has no pending
  configuration: the port is selected, put into the safe state (control 2) before anything
  else, its timer selected, the new cycle start time written high word then low word, only
  then started (control 1), and the request cleared last. The time is the base time if that
  is not past, otherwise a grid point one to two cycles ahead.
\<close>

theorem timer_change_restarts_cycle:
  assumes bk: "banked hw (pMemBase sw) qv tv"
    and port: "get_index_by_mask (qv (last_write (pMemBase sw, QBV_PORT_SELECTOR) l) QBV_TIMER_CHANGE_REQUEST)
           (word_of_int (number_of_ports sw)) = int p" "p < 32"
    and gate: "qv (Some (of_nat p)) QBV_GATE_ENABLED = 1" "qv (Some (of_nat p)) QBV_CONFIG_CHANGE_STATE \<noteq> 1"
    and c: "qv (Some (of_nat p)) QBV_OPER_CYCLE_TIME = c" "c \<noteq> 0"
    and base: "join64 (qv (Some (of_nat p)) QBV_ADMIN_BASE_TIME_NS_HI)
                 (qv (Some (of_nat p)) QBV_ADMIN_BASE_TIME_NS_LO) = base"
    and ts: "qv (Some (of_nat p)) QBV_TIMER_DOMAIN_INDEX + 1 = ts"
    and cur: "timer_now tv ts = cur" "uint cur + 2 * uint c < 2 ^ 64"
  shows "\<exists>l' t. ax_irq_timer_change hw sw l = Some l' \<and>
     io_writes l' = io_writes l @
        [((pMemBase sw, QBV_PORT_SELECTOR), of_nat p), ((pMemBase sw, QBV_CYCLE_START_TIME_CTRL), 2),
         ((pMemBase sw, AS_T_SELECTOR), ts),
         ((pMemBase sw, QBV_CYCLE_START_TIME_NS_HI), hi32 t), ((pMemBase sw, QBV_CYCLE_START_TIME_NS_LO), lo32 t),
         ((pMemBase sw, QBV_CYCLE_START_TIME_CTRL), 1), ((pMemBase sw, QBV_TIMER_CHANGE_REQUEST), 0)] \<and>
     (if base \<ge> cur then t = base
      else uint cur + uint c < uint t \<and> uint t \<le> uint cur + 2 * uint c \<and> uint c dvd uint t - uint base)"
proof -
  let ?B = "pMemBase sw"
  let ?l1 = "RD (?B, QBV_GATE_ENABLED) # WR (?B, QBV_PORT_SELECTOR) (of_nat p) # RD (?B, QBV_TIMER_CHANGE_REQUEST) # l"
  have np: "(of_nat p :: u32) \<noteq> -1"
    using of_nat_u32_not_max [OF port(2)] .
  obtain t where t: "get_cycle_start_time cur base c = Some t"
    "if base \<ge> cur then t = base
     else uint cur + uint c < uint t \<and> uint t \<le> uint cur + 2 * uint c \<and> uint c dvd uint t - uint base"
    using cycle_start_time_on_grid [OF c(2) cur(2)] by blast
  have run: "ax_irq_timer_change hw sw l = map_option (iowrite32 0 (?B, QBV_TIMER_CHANGE_REQUEST))
      (restart_port_cycle hw ?B QBV_ADMIN_BASE_TIME_NS_HI QBV_ADMIN_BASE_TIME_NS_LO ?l1)"
    using np port(1) gate(1) by (simp add: ax_irq_timer_change_def Let_def io_simps bankedD [OF bk])
  have "map_option io_writes (restart_port_cycle hw ?B QBV_ADMIN_BASE_TIME_NS_HI QBV_ADMIN_BASE_TIME_NS_LO ?l1) =
      Some (io_writes ?l1 @ [((?B, QBV_CYCLE_START_TIME_CTRL), 2), ((?B, AS_T_SELECTOR), ts)] @ cycle_start_writes ?B t)"
    using gate(2) t(1) c(1) base ts cur(1)
    by (subst restart_port_cycle_banked [OF bk, where p = "of_nat p"])
      (simp_all add: restart_writes_def Let_def)
  then obtain l' where "restart_port_cycle hw ?B QBV_ADMIN_BASE_TIME_NS_HI QBV_ADMIN_BASE_TIME_NS_LO ?l1 = Some l'"
    "io_writes l' = io_writes ?l1 @ [((?B, QBV_CYCLE_START_TIME_CTRL), 2), ((?B, AS_T_SELECTOR), ts)] @ cycle_start_writes ?B t"
    by auto
  with t(2) show ?thesis
    by (intro exI [of _ "iowrite32 0 (?B, QBV_TIMER_CHANGE_REQUEST) l'"] exI [of _ t])
      (simp add: run io_simps cycle_start_writes_def)
qed

theorem timer_change_restarts_cycle_witness:
  "\<exists>l' t. ax_irq_timer_change (flat_device (sample_regs 2000 10500)) sample_switch [] = Some l' \<and>
     io_writes l' =
        [((2, QBV_PORT_SELECTOR), 1), ((2, QBV_CYCLE_START_TIME_CTRL), 2), ((2, AS_T_SELECTOR), 1),
         ((2, QBV_CYCLE_START_TIME_NS_HI), hi32 t), ((2, QBV_CYCLE_START_TIME_NS_LO), lo32 t),
         ((2, QBV_CYCLE_START_TIME_CTRL), 1), ((2, QBV_TIMER_CHANGE_REQUEST), 0)] \<and>
     11500 < uint t \<and> uint t \<le> 12500 \<and> (1000 :: int) dvd uint t - 2000"
  using timer_change_restarts_cycle [where hw = "flat_device (sample_regs 2000 10500)" and sw = sample_switch
      and qv = "\<lambda>_. sample_regs 2000 10500" and tv = "\<lambda>_. sample_regs 2000 10500" and l = "[]" and p = 1
      and c = 1000 and base = 2000 and ts = 1 and cur = 10500]
    flat_device_banked index_of_mask_2
  by (simp add: sample_switch_def sample_regs_def timer_now_def join64_def)

text \<open>
  A timer value change: for a timer \<open>k\<close> (the lowest one set in the interrupt mask) the
  handler visits every port in order and, provided no visited port has a zero cycle time,
  its writes are exactly the concatenation of the per-port writes followed by clearing the
  interrupt mask. A port that is not gated by the changed timer is only selected; a port
  that is gets the safe state, its timer, and the start time computed from its own
  operational registers (or, with a configuration change due within ten cycles, only the
  command to change).
\<close>

theorem timer_value_change_writes:
  assumes bk: "banked hw (pMemBase sw) qv tv"
    and k: "get_index_by_mask (tv (last_write (pMemBase sw, AS_T_SELECTOR) l) AS_T_INT_MASK)
           (word_of_int (number_of_domains sw + 1)) = int k"
    and ok: "\<And>j. j < nat (number_of_ports sw) \<Longrightarrow>
           port_writes (pMemBase sw) qv tv (of_nat k) (of_nat j) = Some (ws j)"
  shows "\<exists>l'. ax_irq_timer_value_change hw sw l = Some l' \<and>
     io_writes l' = io_writes l @ concat (map ws [0..<nat (number_of_ports sw)]) @ [((pMemBase sw, AS_T_INT_MASK), 0)] \<and>
     (\<forall>j. j < nat (number_of_ports sw) \<longrightarrow> \<not> uses_timer qv (of_nat k) (of_nat j) \<longrightarrow>
        ws j = [((pMemBase sw, QBV_PORT_SELECTOR), of_nat j)])"
proof -
  let ?l1 = "RD (pMemBase sw, AS_T_INT_MASK) # l"
  have "map_option io_writes (timer_value_ports hw (pMemBase sw) (of_nat k) (nat (number_of_ports sw)) 0 ?l1) =
      Some (io_writes ?l1 @ concat (map ws [0..<0 + nat (number_of_ports sw)]))"
    by (rule timer_value_ports_banked [OF bk]) (simp add: ok)
  moreover have "ax_irq_timer_value_change hw sw l = map_option (iowrite32 0 (pMemBase sw, AS_T_INT_MASK))
      (timer_value_ports hw (pMemBase sw) (of_nat k) (nat (number_of_ports sw)) 0 ?l1)"
    using k by (simp add: ax_irq_timer_value_change_def Let_def io_simps bankedD [OF bk])
  moreover have "ws j = [((pMemBase sw, QBV_PORT_SELECTOR), of_nat j)]"
    if "j < nat (number_of_ports sw)" "\<not> uses_timer qv (of_nat k) (of_nat j)" for j
    using ok [OF that(1)] that(2) by (simp add: port_writes_def)
  ultimately show ?thesis by (auto simp: io_simps)
qed

theorem timer_value_change_writes_witness:
  "\<exists>l'. ax_irq_timer_value_change (flat_device (sample_regs 2000 10500)) sample_switch [] = Some l' \<and>
     io_writes l' = concat (map (\<lambda>j. [((2, QBV_PORT_SELECTOR), of_nat j), ((2, QBV_CYCLE_START_TIME_CTRL), 2),
         ((2, AS_T_SELECTOR), 1), ((2, QBV_CYCLE_START_TIME_NS_HI), 0), ((2, QBV_CYCLE_START_TIME_NS_LO), 12000),
         ((2, QBV_CYCLE_START_TIME_CTRL), 1)]) [0..<5]) @ [((2, AS_T_INT_MASK), 0)]"
  using timer_value_change_writes [where hw = "flat_device (sample_regs 2000 10500)" and sw = sample_switch
      and qv = "\<lambda>_. sample_regs 2000 10500" and tv = "\<lambda>_. sample_regs 2000 10500" and l = "[]" and k = 1
      and ws = "\<lambda>j. [((2, QBV_PORT_SELECTOR), of_nat j), ((2, QBV_CYCLE_START_TIME_CTRL), 2),
         ((2, AS_T_SELECTOR), 1), ((2, QBV_CYCLE_START_TIME_NS_HI), 0), ((2, QBV_CYCLE_START_TIME_NS_LO), 12000),
         ((2, QBV_CYCLE_START_TIME_CTRL), 1)]"]
    flat_device_banked index_of_mask_2_of_3
  by (simp add: sample_switch_def sample_regs_def port_writes_def uses_timer_def restart_writes_def timer_now_def
      join64_def get_cycle_start_time_def div_u64_def cycle_start_writes_def hi32_def lo32_def)

end
