(* ===== verification/Hw_Tstamp.thy ===== *)
theory Hw_Tstamp
  imports Ax_Switch
begin

unbundle bit_operations_syntax

section \<open>Hardware timestamps: draining the FIFOs and stamping frames\<close>

text \<open>
  The receive and transmit timestamp FIFOs of the PTP block, drained by
  \<open>ax_retrieve_rx_hw_timestamps\<close> and \<open>ax_retrieve_hw_timestamps\<close> into the two queues, and the
  lookup of a frame's timestamp by \<open>ax_tsn_rx_hwtstamp\<close> and \<open>ax_tsn_tx_hwtstamp\<close>
  (\<open>switch/ax_switch.c\<close>).

  A drain loop runs as long as the hardware reports a pending entry, so it takes fuel; the
  value \<open>None\<close> stands for running out of it and for an access outside an array. The local
  variable \<open>ts\<close> is not initialised in the code: its first contents are an argument.
\<close>

subsection \<open>Draining\<close>

text \<open>
  The loop over the domain timers: \<open>n\<close> iterations are left, \<open>i\<close> is the index. The pointers are
  \<open>uint32_t *\<close>, so \<open>+ (i * 2)\<close> is \<open>8 * i\<close> bytes.
\<close>

fun read_stamps :: "device \<Rightarrow> int \<Rightarrow> int \<Rightarrow> int \<Rightarrow> nat \<Rightarrow> int \<Rightarrow> capture_data \<Rightarrow> io_log \<Rightarrow>
    (capture_data \<times> io_log) option" where
  "read_stamps hw B lo hi 0 i ts l = Some (ts, l)"
| "read_stamps hw B lo hi (Suc n) i ts l =
     (let (vl, l) = ioread32 hw (B, lo + 8 * i) l;
          (vh, l) = ioread32 hw (B, hi + 8 * i) l
      in case (arr_set (timestamp_l ts) i vl, arr_set (timestamp_h ts) i vh) of
           (Some sl, Some sh) \<Rightarrow>
             read_stamps hw B lo hi n (i + 1) (ts\<lparr>timestamp_l := sl, timestamp_h := sh\<rparr>) l
         | _ \<Rightarrow> None)"

definition decode_msg_info :: "u32 \<Rightarrow> capture_data \<Rightarrow> capture_data" where
  "decode_msg_info msg_info ts =
     ts\<lparr>msg_type := ucast (msg_info AND 0xF),
        sequence_id := ucast (drop_bit 12 msg_info AND 0xFFFF),
        domain_number := ucast (drop_bit 4 msg_info AND 0xFF)\<rparr>"

text \<open>One turn of a drain loop after the status test: read the entry, message info last.\<close>

definition read_entry :: "device \<Rightarrow> int \<Rightarrow> int \<Rightarrow> int \<Rightarrow> int \<Rightarrow> int \<Rightarrow> nat \<Rightarrow> capture_data \<Rightarrow> io_log \<Rightarrow>
    (capture_data \<times> io_log) option" where
  "read_entry hw B port lo hi info n ts l =
     (let (p, l) = ioread32 hw (B, port) l
      in map_option (\<lambda>(ts, l). (let (msg_info, l) = ioread32 hw (B, info) l
                                in (decode_msg_info msg_info ts, l)))
           (read_stamps hw B lo hi n 0 (ts\<lparr>port_id := ucast p\<rparr>) l))"

text \<open>
  The drain loop: \<open>flag\<close> is the pending bit of the FIFO in the control register, \<open>insert_item\<close>
  the insertion routine the caller uses, \<open>c\<close> counts the entries.
\<close>

fun drain_fifo :: "nat \<Rightarrow> device \<Rightarrow> int \<Rightarrow> u32 \<Rightarrow> int \<Rightarrow> int \<Rightarrow> int \<Rightarrow> int \<Rightarrow> nat \<Rightarrow>
    ('q \<Rightarrow> capture_data \<Rightarrow> 'q option) \<Rightarrow>
    'q \<Rightarrow> nat \<Rightarrow> capture_data \<Rightarrow> io_log \<Rightarrow> ('q \<times> nat \<times> capture_data \<times> io_log) option" where
  "drain_fifo 0 hw B flag port lo hi info n insert_item q c ts l = None"
| "drain_fifo (Suc fuel) hw B flag port lo hi info n insert_item q c ts l =
     (let (ctrl, l) = ioread32 hw (B, PTP_TIMESTAMP_CTRL) l
      in if ctrl AND flag \<noteq> 0 then
           (case read_entry hw B port lo hi info n ts l of
              None \<Rightarrow> None
            | Some (ts, l) \<Rightarrow>
                (case insert_item q ts of
                   None \<Rightarrow> None
                 | Some q \<Rightarrow> drain_fifo fuel hw B flag port lo hi info n insert_item q (Suc c) ts l))
         else Some (q, c, ts, l))"

abbreviation (input) drain_rx where
  "drain_rx fuel hw sw \<equiv> drain_fifo fuel hw (pMemBase sw) 1 PTP_RX_PORT PTP_FR_RX_TIMESTAMP_LO
     PTP_FR_RX_TIMESTAMP_HI PTP_RX_MESSAGE_INFO (nat (number_of_domains sw + 1))"

abbreviation (input) drain_tx where
  "drain_tx fuel hw sw \<equiv> drain_fifo fuel hw (pMemBase sw) 2 PTP_TX_PORT PTP_FR_TX_TIMESTAMP_LO
     PTP_FR_TX_TIMESTAMP_HI PTP_TX_MESSAGE_INFO (nat (number_of_domains sw + 1))"

definition ax_retrieve_rx_hw_timestamps ::
    "nat \<Rightarrow> device \<Rightarrow> capture_data \<Rightarrow> ax_switch \<Rightarrow> io_log \<Rightarrow> (ax_switch \<times> io_log) option" where
  "ax_retrieve_rx_hw_timestamps fuel hw ts sw l =
     map_option (\<lambda>(q, c, ts, l). (sw\<lparr>rx_queue := q\<rparr>, l))
       (drain_rx fuel hw sw tsn_tsq_insert_item (rx_queue sw) 0 ts l)"

definition ax_retrieve_hw_timestamps ::
    "nat \<Rightarrow> device \<Rightarrow> capture_data \<Rightarrow> ax_switch \<Rightarrow> io_log \<Rightarrow> (int \<times> ax_switch \<times> io_log) option" where
  "ax_retrieve_hw_timestamps fuel hw ts sw l =
     (case drain_rx fuel hw sw ax_insert_items (rx_queue sw) 0 ts l of
        None \<Rightarrow> None
      | Some (q, c, ts, l) \<Rightarrow>
          (let sw = sw\<lparr>rx_queue := q\<rparr>
           in map_option (\<lambda>(q, tx_count, ts, l). (int tx_count, sw\<lparr>tx_queue := q\<rparr>, l))
                (drain_tx fuel hw sw ax_insert_items (tx_queue sw) 0 ts l)))"

subsection \<open>Looking up a frame's timestamp\<close>

abbreviation (input) PTP_HDR_SIZE :: nat where "PTP_HDR_SIZE \<equiv> 34"
abbreviation (input) PTP_SEQ_ID_OFFSET :: nat where "PTP_SEQ_ID_OFFSET \<equiv> 30"
abbreviation (input) PTP_MSG_TYPE_OFFSET :: nat where "PTP_MSG_TYPE_OFFSET \<equiv> 0"
abbreviation (input) PTP_SUBDOMAIN_OFFSET :: nat where "PTP_SUBDOMAIN_OFFSET \<equiv> 4"
abbreviation (input) TX_TIMESTAMP_RETRIES :: nat where "TX_TIMESTAMP_RETRIES \<equiv> 21"

text \<open>\<open>struct _skb_tstamp_msg\<close>: the frame, where its PTP message starts, and the switch port.\<close>

record skb_tstamp_msg =
  skb_data :: "u8 list"
  ptp_msg_offset :: nat
  port_tag :: u16

definition ntohs_at :: "u8 list \<Rightarrow> nat \<Rightarrow> u16" where
  "ntohs_at bs i = push_bit 8 (ucast (bs ! i)) OR ucast (bs ! (i + 1))"

text \<open>
  The header of the message, and the search key built from it. Copying past the end of the
  linear data is an access outside the buffer.
\<close>

definition copy_ptp_header :: "skb_tstamp_msg \<Rightarrow> u8 list option" where
  "copy_ptp_header m =
     (if ptp_msg_offset m + PTP_HDR_SIZE \<le> length (skb_data m)
      then Some (take PTP_HDR_SIZE (drop (ptp_msg_offset m) (skb_data m))) else None)"

definition header_key :: "u8 list \<Rightarrow> u16 \<Rightarrow> capture_data \<Rightarrow> capture_data" where
  "header_key ptp_header tag ts_d =
     ts_d\<lparr>msg_type := ptp_header ! PTP_MSG_TYPE_OFFSET AND 0x0F,
          sequence_id := ntohs_at ptp_header PTP_SEQ_ID_OFFSET,
          domain_number := ptp_header ! PTP_SUBDOMAIN_OFFSET AND 0xFF,
          port_id := ucast tag\<rparr>"

text \<open>
  The time a captured entry stands for: the free running timer in 802.1AS mode (index 0), the
  first domain timer in 1588 mode (index 1). \<open>Some None\<close> is the error return for another mode.
\<close>

definition stamp_time :: "int \<Rightarrow> capture_data \<Rightarrow> u64 option option" where
  "stamp_time mode ts_d =
     (if mode = 0 \<or> mode = 1 then
        (case (arr_get (timestamp_h ts_d) mode, arr_get (timestamp_l ts_d) mode) of
           (Some sec, Some nsec) \<Rightarrow> Some (Some (ucast sec * NS_PER_SEC + ucast nsec))
         | _ \<Rightarrow> None)
      else Some None)"

text \<open>\<open>ax_tsn_rx_hwtstamp\<close> returns the value it stores as the frame's hardware timestamp, if any.\<close>

definition ax_tsn_rx_hwtstamp :: "capture_data \<Rightarrow> ax_switch \<Rightarrow> skb_tstamp_msg \<Rightarrow> u64 option option" where
  "ax_tsn_rx_hwtstamp ts_d sw m =
     (case copy_ptp_header m of
        None \<Rightarrow> None
      | Some ptp_header \<Rightarrow>
          (case ax_tsq_find_item_1 (rx_queue sw) (header_key ptp_header (port_tag m) ts_d) of
             None \<Rightarrow> None
           | Some (rc, ts_d) \<Rightarrow> if rc < 0 then Some None else stamp_time (ptp_mode sw) ts_d))"

text \<open>
  The retry loop of \<open>ax_tsn_tx_hwtstamp\<close>. The result is the timestamp reported with
  \<open>skb_tstamp_tx\<close> (if any), the number of 500 microsecond delays taken, and the new state.
\<close>

fun tx_retry :: "nat \<Rightarrow> nat \<Rightarrow> device \<Rightarrow> capture_data \<Rightarrow> capture_data \<Rightarrow> nat \<Rightarrow> ax_switch \<Rightarrow> io_log \<Rightarrow>
    (u64 option \<times> nat \<times> ax_switch \<times> io_log) option" where
  "tx_retry 0 fuel hw ts_in ts_d delays sw l = Some (None, delays, sw, l)"
| "tx_retry (Suc tries) fuel hw ts_in ts_d delays sw l =
     (case ax_retrieve_hw_timestamps fuel hw ts_in sw l of
        None \<Rightarrow> None
      | Some (tx_count, sw, l) \<Rightarrow>
          (case ax_tsq_find_item_1 (tx_queue sw) ts_d of
             None \<Rightarrow> None
           | Some (rc, ts_d) \<Rightarrow>
               if rc = 0 then map_option (\<lambda>t. (t, delays, sw, l)) (stamp_time (ptp_mode sw) ts_d)
               else tx_retry tries fuel hw ts_in ts_d (Suc delays) sw l))"

definition ax_tsn_tx_hwtstamp :: "nat \<Rightarrow> device \<Rightarrow> capture_data \<Rightarrow> capture_data \<Rightarrow> ax_switch \<Rightarrow>
    skb_tstamp_msg \<Rightarrow> io_log \<Rightarrow> (u64 option \<times> nat \<times> ax_switch \<times> io_log) option" where
  "ax_tsn_tx_hwtstamp fuel hw ts_in ts_d sw m l =
     (case copy_ptp_header m of
        None \<Rightarrow> None
      | Some ptp_header \<Rightarrow>
          tx_retry TX_TIMESTAMP_RETRIES fuel hw ts_in (header_key ptp_header (port_tag m) ts_d) 0 sw l)"

subsection \<open>The hardware's side: FIFO entries\<close>

text \<open>
  One entry of a timestamp FIFO: the port register, the three register pairs and the message
  info. The entry is popped by reading its message info ("must be read only once and needs to
  be the last register to read"). \<open>rx\<close> and \<open>tx\<close> list all entries the FIFOs deliver before they
  report empty, those that arrive while the driver drains included.
\<close>

record fifo_entry =
  fe_port :: u32
  fe_lo :: "u32 list"
  fe_hi :: "u32 list"
  fe_info :: u32

definition fifo_head :: "device \<Rightarrow> int \<Rightarrow> int \<Rightarrow> int \<Rightarrow> int \<Rightarrow> int \<Rightarrow> fifo_entry list \<Rightarrow> io_log \<Rightarrow> bool" where
  "fifo_head hw B port lo hi info es l \<longleftrightarrow>
     (let k = io_reads (B, info) l
      in k < length es \<longrightarrow>
           hw l (B, port) = fe_port (es ! k) \<and> hw l (B, info) = fe_info (es ! k) \<and>
           (\<forall>i<3. hw l (B, lo + 8 * int i) = fe_lo (es ! k) ! i \<and>
                  hw l (B, hi + 8 * int i) = fe_hi (es ! k) ! i))"

definition fifo_device :: "device \<Rightarrow> int \<Rightarrow> fifo_entry list \<Rightarrow> fifo_entry list \<Rightarrow> bool" where
  "fifo_device hw B rx tx \<longleftrightarrow> (\<forall>l.
     (hw l (B, PTP_TIMESTAMP_CTRL) AND 1 \<noteq> 0 \<longleftrightarrow> io_reads (B, PTP_RX_MESSAGE_INFO) l < length rx) \<and>
     (hw l (B, PTP_TIMESTAMP_CTRL) AND 2 \<noteq> 0 \<longleftrightarrow> io_reads (B, PTP_TX_MESSAGE_INFO) l < length tx) \<and>
     fifo_head hw B PTP_RX_PORT PTP_FR_RX_TIMESTAMP_LO PTP_FR_RX_TIMESTAMP_HI PTP_RX_MESSAGE_INFO rx l \<and>
     fifo_head hw B PTP_TX_PORT PTP_FR_TX_TIMESTAMP_LO PTP_FR_TX_TIMESTAMP_HI PTP_TX_MESSAGE_INFO tx l)"

definition entry_ok :: "fifo_entry \<Rightarrow> bool" where
  "entry_ok e \<longleftrightarrow> length (fe_lo e) = 3 \<and> length (fe_hi e) = 3"

text \<open>What the driver records of an entry.\<close>

definition capture_of :: "fifo_entry \<Rightarrow> capture_data" where
  "capture_of e = \<lparr>port_id = ucast (fe_port e), timestamp_l = fe_lo e, timestamp_h = fe_hi e,
     msg_type = ucast (fe_info e AND 0xF), sequence_id = ucast (drop_bit 12 (fe_info e) AND 0xFFFF),
     domain_number = ucast (drop_bit 4 (fe_info e) AND 0xFF)\<rparr>"

definition capture_ok :: "capture_data \<Rightarrow> bool" where
  "capture_ok d \<longleftrightarrow> length (timestamp_l d) = 3 \<and> length (timestamp_h d) = 3"

text \<open>A concrete FIFO device for the witnesses: nothing received, the given entries transmitted.\<close>

definition tx_fifo_device :: "fifo_entry list \<Rightarrow> device" where
  "tx_fifo_device es l a =
     (let k = io_reads (fst a, PTP_TX_MESSAGE_INFO) l; off = snd a; i = nat ((off - PTP_FR_TX_TIMESTAMP_LO) div 8)
      in if k < length es then
           (if off = PTP_TIMESTAMP_CTRL then 2
            else if off = PTP_TX_PORT then fe_port (es ! k)
            else if off = PTP_TX_MESSAGE_INFO then fe_info (es ! k)
            else if (off - PTP_FR_TX_TIMESTAMP_LO) mod 8 = 0 then fe_lo (es ! k) ! i else fe_hi (es ! k) ! i)
         else 0)"

definition sample_entry :: fifo_entry where
  "sample_entry = \<lparr>fe_port = 1, fe_lo = [500, 600, 700], fe_hi = [3, 4, 5], fe_info = 0x7000\<rparr>"

definition sample_msg :: skb_tstamp_msg where
  "sample_msg = \<lparr>skb_data = (replicate 34 0)[31 := 7], ptp_msg_offset = 0, port_tag = 1\<rparr>"

definition tstamp_switch :: ax_switch where
  "tstamp_switch = \<lparr>pMemBase = 2, rx_queue = sample_queue, tx_queue = sample_queue, ax_ptp_clocks = [],
     number_of_ports = 5, number_of_domains = 2, domain_number_map = [0, 0, 0], phc_id = 0, ptp_mode = 0\<rparr>"

subsection \<open>One entry\<close>

definition entry_log :: "int \<Rightarrow> int \<Rightarrow> int \<Rightarrow> int \<Rightarrow> int \<Rightarrow> io_log \<Rightarrow> io_log" where
  "entry_log B port lo hi info l =
     RD (B, info) # RD (B, hi + 16) # RD (B, lo + 16) # RD (B, hi + 8) # RD (B, lo + 8) # RD (B, hi) # RD (B, lo) #
     RD (B, port) # l"

text \<open>The registers of one FIFO are distinct from its message info and from the control register.\<close>

definition fifo_regs :: "int \<Rightarrow> int \<Rightarrow> int \<Rightarrow> int \<Rightarrow> bool" where
  "fifo_regs port lo hi info \<longleftrightarrow>
     info \<notin> {port, lo, hi, lo + 8, hi + 8, lo + 16, hi + 16, PTP_TIMESTAMP_CTRL}"

lemma length_3_obtain:
  assumes "length xs = 3"
  obtains x y z where "xs = [x, y, z]"
  using assms by (auto simp: numeral_3_eq_3 length_Suc_conv)

lemma read_stamps_3:
  assumes "capture_ok ts"
  shows "read_stamps hw B lo hi 3 0 ts l =
    Some (ts\<lparr>timestamp_l := [hw l (B, lo), hw (RD (B, hi) # RD (B, lo) # l) (B, lo + 8),
                hw (RD (B, hi + 8) # RD (B, lo + 8) # RD (B, hi) # RD (B, lo) # l) (B, lo + 16)],
             timestamp_h := [hw (RD (B, lo) # l) (B, hi), hw (RD (B, lo + 8) # RD (B, hi) # RD (B, lo) # l) (B, hi + 8),
                hw (RD (B, lo + 16) # RD (B, hi + 8) # RD (B, lo + 8) # RD (B, hi) # RD (B, lo) # l) (B, hi + 16)]\<rparr>,
      RD (B, hi + 16) # RD (B, lo + 16) # RD (B, hi + 8) # RD (B, lo + 8) # RD (B, hi) # RD (B, lo) # l)"
proof -
  obtain a b c x y z where ts: "timestamp_l ts = [a, b, c]" "timestamp_h ts = [x, y, z]"
    using assms length_3_obtain unfolding capture_ok_def by metis
  show ?thesis
    by (simp add: numeral_3_eq_3 io_simps arr_set_def ts Let_def)
qed

lemma read_entry_fifo:
  assumes head: "\<And>l. fifo_head hw B port lo hi info es l" and k: "io_reads (B, info) l = k" "k < length es"
    and ok: "entry_ok (es ! k)" "capture_ok ts" and regs: "fifo_regs port lo hi info"
  shows "read_entry hw B port lo hi info 3 ts l = Some (capture_of (es ! k), entry_log B port lo hi info l)"
proof -
  obtain l0 l1 l2 where lo: "fe_lo (es ! k) = [l0, l1, l2]" using ok(1) length_3_obtain unfolding entry_ok_def by blast
  obtain h0 h1 h2 where hi: "fe_hi (es ! k) = [h0, h1, h2]" using ok(1) length_3_obtain unfolding entry_ok_def by blast
  have h: "hw l' (B, port) = fe_port (es ! k)" "hw l' (B, info) = fe_info (es ! k)"
    "hw l' (B, lo) = l0" "hw l' (B, hi) = h0" "hw l' (B, lo + 8) = l1" "hw l' (B, hi + 8) = h1"
    "hw l' (B, lo + 16) = l2" "hw l' (B, hi + 16) = h2"
    if "io_reads (B, info) l' = k" for l'
  proof -
    have "hw l' (B, port) = fe_port (es ! k) \<and> hw l' (B, info) = fe_info (es ! k)"
      and s: "\<And>i. i < 3 \<Longrightarrow> hw l' (B, lo + 8 * int i) = [l0, l1, l2] ! i \<and> hw l' (B, hi + 8 * int i) = [h0, h1, h2] ! i"
      using head [of l'] that k(2) lo hi by (simp_all add: fifo_head_def Let_def)
    then show "hw l' (B, port) = fe_port (es ! k)" "hw l' (B, info) = fe_info (es ! k)"
      "hw l' (B, lo) = l0" "hw l' (B, hi) = h0" "hw l' (B, lo + 8) = l1" "hw l' (B, hi + 8) = h1"
      "hw l' (B, lo + 16) = l2" "hw l' (B, hi + 16) = h2"
      using s [of 0] s [of 1] s [of 2] by simp_all
  qed
  have ts: "capture_ok (ts\<lparr>port_id := p\<rparr>)" for p using ok(2) by (simp add: capture_ok_def)
  have st: "read_stamps hw B lo hi 3 0 (ts\<lparr>port_id := ucast (fe_port (es ! k))\<rparr>) (RD (B, port) # l) =
       Some (ts\<lparr>port_id := ucast (fe_port (es ! k)), timestamp_l := [l0, l1, l2], timestamp_h := [h0, h1, h2]\<rparr>,
        RD (B, hi + 16) # RD (B, lo + 16) # RD (B, hi + 8) # RD (B, lo + 8) # RD (B, hi) # RD (B, lo) # RD (B, port) # l)"
    using k(1) regs by (simp add: read_stamps_3 [OF ts] h fifo_regs_def)
  show ?thesis
    using k(1) regs by (simp add: read_entry_def io_simps h st lo hi fifo_regs_def entry_log_def decode_msg_info_def capture_of_def)
qed

subsection \<open>The drain loop\<close>

text \<open>
  The client of the queue: a store of captured timestamps. Draining a FIFO into it takes one
  unit of fuel per entry and one more, and leaves the entries in the store, newest first.
\<close>

locale capture_store = bounded_history insert_item contents capacity invar
  for insert_item :: "'q \<Rightarrow> capture_data \<Rightarrow> 'q option"
    and contents :: "'q \<Rightarrow> capture_data list"
    and capacity :: "'q \<Rightarrow> nat"
    and invar :: "'q \<Rightarrow> bool"
begin

lemma drain_fifo_ok:
  assumes ctrl: "\<And>l. hw l (B, PTP_TIMESTAMP_CTRL) AND flag \<noteq> 0 \<longleftrightarrow> io_reads (B, info) l < length es"
    and head: "\<And>l. fifo_head hw B port lo hi info es l" and regs: "fifo_regs port lo hi info"
    and ok: "\<And>e. e \<in> set es \<Longrightarrow> entry_ok e"
    and other: "other \<notin> {port, lo, hi, lo + 8, hi + 8, lo + 16, hi + 16, info, PTP_TIMESTAMP_CTRL}"
  shows "invar q \<Longrightarrow> capture_ok ts \<Longrightarrow> fuel > length es - io_reads (B, info) l \<Longrightarrow>
    \<exists>q' ts' l'. drain_fifo fuel hw B flag port lo hi info 3 insert_item q c ts l =
       Some (q', c + (length es - io_reads (B, info) l), ts', l') \<and>
     invar q' \<and> capacity q' = capacity q \<and> capture_ok ts' \<and>
     contents q' = take (capacity q) (rev (map capture_of (drop (io_reads (B, info) l) es)) @ contents q) \<and>
     io_writes l' = io_writes l \<and> length es \<le> io_reads (B, info) l' \<and>
     io_reads (B, other) l' = io_reads (B, other) l"
proof (induction fuel arbitrary: q c ts l)
  case 0
  then show ?case by simp
next
  case (Suc fuel)
  let ?k = "io_reads (B, info) l"
  let ?l1 = "RD (B, PTP_TIMESTAMP_CTRL) # l"
  let ?l2 = "entry_log B port lo hi info ?l1"
  have k1: "io_reads (B, info) ?l1 = ?k" using regs by (simp add: fifo_regs_def)
  show ?case
  proof (cases "?k < length es")
    case False
    then have "drain_fifo (Suc fuel) hw B flag port lo hi info 3 insert_item q c ts l = Some (q, c, ts, ?l1)"
      using ctrl [of l] by (simp add: io_simps)
    with False k1 contents_bounded [OF Suc.prems(1)] Suc.prems other show ?thesis by auto
  next
    case True
    let ?e = "capture_of (es ! ?k)"
    have ek: "entry_ok (es ! ?k)" using ok True by simp
    have e: "read_entry hw B port lo hi info 3 ts ?l1 = Some (?e, ?l2)"
      using read_entry_fifo [OF head k1 True ek Suc.prems(2) regs] .
    obtain q1 where q1: "insert_item q ?e = Some q1" "invar q1" "capacity q1 = capacity q"
      "contents q1 = take (capacity q) (?e # contents q)"
      using insert_ok [OF Suc.prems(1)] by blast
    have k2: "io_reads (B, info) ?l2 = Suc ?k" using regs k1 by (simp add: entry_log_def fifo_regs_def)
    have ce: "capture_ok ?e" using ek by (simp add: capture_ok_def capture_of_def entry_ok_def)
    have step: "drain_fifo (Suc fuel) hw B flag port lo hi info 3 insert_item q c ts l =
        drain_fifo fuel hw B flag port lo hi info 3 insert_item q1 (Suc c) ?e ?l2"
      using ctrl [of l] True by (simp add: io_simps e q1(1))
    have "fuel > length es - io_reads (B, info) ?l2" using Suc.prems(3) True by (simp add: k2)
    from Suc.IH [OF q1(2) ce this, of "Suc c"] obtain q' ts' l' where ih:
      "drain_fifo fuel hw B flag port lo hi info 3 insert_item q1 (Suc c) ?e ?l2 =
         Some (q', Suc c + (length es - Suc ?k), ts', l')"
      "invar q'" "capacity q' = capacity q1" "capture_ok ts'"
      "contents q' = take (capacity q1) (rev (map capture_of (drop (Suc ?k) es)) @ contents q1)"
      "io_writes l' = io_writes ?l2" "length es \<le> io_reads (B, info) l'"
      "io_reads (B, other) l' = io_reads (B, other) ?l2"
      unfolding k2 by blast
    have "rev (map capture_of (drop ?k es)) = rev (map capture_of (drop (Suc ?k) es)) @ [?e]"
      using True by (simp add: Cons_nth_drop_Suc [symmetric])
    then have "contents q' = take (capacity q) (rev (map capture_of (drop ?k es)) @ contents q)"
      using ih(5) q1(3,4) by (simp add: take_append min_def)
    moreover have "Suc c + (length es - Suc ?k) = c + (length es - ?k)" using True by simp
    moreover have "io_writes ?l2 = io_writes l" by (simp add: entry_log_def)
    ultimately show ?thesis using ih q1(3) step other by (auto simp: entry_log_def)
  qed
qed

end

interpretation rx_store: capture_store tsn_tsq_insert_item tsq_list tsq_cap tsq_wf
  by unfold_locales

interpretation tx_store: capture_store ax_insert_items tsq_list tsq_cap tsq_wf
  by unfold_locales

subsection \<open>Draining both FIFOs\<close>

lemma rx_fifo_regs: "fifo_regs PTP_RX_PORT PTP_FR_RX_TIMESTAMP_LO PTP_FR_RX_TIMESTAMP_HI PTP_RX_MESSAGE_INFO"
  and tx_fifo_regs: "fifo_regs PTP_TX_PORT PTP_FR_TX_TIMESTAMP_LO PTP_FR_TX_TIMESTAMP_HI PTP_TX_MESSAGE_INFO"
  by (simp_all add: fifo_regs_def)

lemma fifo_deviceD:
  assumes "fifo_device hw B rx tx"
  shows "\<And>l. hw l (B, PTP_TIMESTAMP_CTRL) AND 1 \<noteq> 0 \<longleftrightarrow> io_reads (B, PTP_RX_MESSAGE_INFO) l < length rx"
    and "\<And>l. hw l (B, PTP_TIMESTAMP_CTRL) AND 2 \<noteq> 0 \<longleftrightarrow> io_reads (B, PTP_TX_MESSAGE_INFO) l < length tx"
    and "\<And>l. fifo_head hw B PTP_RX_PORT PTP_FR_RX_TIMESTAMP_LO PTP_FR_RX_TIMESTAMP_HI PTP_RX_MESSAGE_INFO rx l"
    and "\<And>l. fifo_head hw B PTP_TX_PORT PTP_FR_TX_TIMESTAMP_LO PTP_FR_TX_TIMESTAMP_HI PTP_TX_MESSAGE_INFO tx l"
  using assms by (auto simp: fifo_device_def)

text \<open>What the switch needs for its timestamping: both queues well-formed, two domains.\<close>

definition tstamp_wf :: "ax_switch \<Rightarrow> bool" where
  "tstamp_wf sw \<longleftrightarrow> tsq_wf (rx_queue sw) \<and> tsq_wf (tx_queue sw) \<and> number_of_domains sw = 2"

lemma retrieve_hw_ok:
  assumes dev: "fifo_device hw (pMemBase sw) rx tx" and wf: "tstamp_wf sw" and ts: "capture_ok ts"
    and ok: "\<forall>e \<in> set rx \<union> set tx. entry_ok e" and fuel: "fuel > length rx" "fuel > length tx"
  shows "\<exists>sw' l' rq tq. ax_retrieve_hw_timestamps fuel hw ts sw l =
       Some (int (length tx - io_reads (pMemBase sw, PTP_TX_MESSAGE_INFO) l), sw', l') \<and>
     sw' = sw\<lparr>rx_queue := rq, tx_queue := tq\<rparr> \<and> tstamp_wf sw' \<and>
     tsq_cap rq = tsq_cap (rx_queue sw) \<and> tsq_cap tq = tsq_cap (tx_queue sw) \<and>
     tsq_list rq = take (tsq_cap (rx_queue sw))
       (rev (map capture_of (drop (io_reads (pMemBase sw, PTP_RX_MESSAGE_INFO) l) rx)) @ tsq_list (rx_queue sw)) \<and>
     tsq_list tq = take (tsq_cap (tx_queue sw))
       (rev (map capture_of (drop (io_reads (pMemBase sw, PTP_TX_MESSAGE_INFO) l) tx)) @ tsq_list (tx_queue sw)) \<and>
     io_writes l' = io_writes l \<and>
     length rx \<le> io_reads (pMemBase sw, PTP_RX_MESSAGE_INFO) l' \<and>
     length tx \<le> io_reads (pMemBase sw, PTP_TX_MESSAGE_INFO) l'"
proof -
  let ?B = "pMemBase sw"
  note d = fifo_deviceD [OF dev]
  have wfq: "tsq_wf (rx_queue sw)" "tsq_wf (tx_queue sw)" and nd: "nat (number_of_domains sw + 1) = 3"
    using wf by (auto simp: tstamp_wf_def)
  have okr: "\<And>e. e \<in> set rx \<Longrightarrow> entry_ok e" and okt: "\<And>e. e \<in> set tx \<Longrightarrow> entry_ok e" using ok by auto
  have f: "length es - k < fuel" if "fuel > length es" for es :: "fifo_entry list" and k using that by simp
  from tx_store.drain_fifo_ok [OF d(1,3) rx_fifo_regs okr _ wfq(1) ts f [OF fuel(1)], where other = PTP_TX_MESSAGE_INFO and l = l and c = 0]
  obtain rq t1 l1 where r: "drain_rx fuel hw sw ax_insert_items (rx_queue sw) 0 ts l =
        Some (rq, length rx - io_reads (?B, PTP_RX_MESSAGE_INFO) l, t1, l1)"
      "tsq_wf rq" "tsq_cap rq = tsq_cap (rx_queue sw)" "capture_ok t1" "io_writes l1 = io_writes l"
      "tsq_list rq = take (tsq_cap (rx_queue sw))
         (rev (map capture_of (drop (io_reads (?B, PTP_RX_MESSAGE_INFO) l) rx)) @ tsq_list (rx_queue sw))"
      "length rx \<le> io_reads (?B, PTP_RX_MESSAGE_INFO) l1"
      "io_reads (?B, PTP_TX_MESSAGE_INFO) l1 = io_reads (?B, PTP_TX_MESSAGE_INFO) l"
    unfolding nd by auto
  from tx_store.drain_fifo_ok [OF d(2,4) tx_fifo_regs okt _ wfq(2) r(4) f [OF fuel(2)], where other = PTP_RX_MESSAGE_INFO and l = l1 and c = 0]
  obtain tq t2 l2 where t: "drain_tx fuel hw sw ax_insert_items (tx_queue sw) 0 t1 l1 =
        Some (tq, length tx - io_reads (?B, PTP_TX_MESSAGE_INFO) l1, t2, l2)"
      "tsq_wf tq" "tsq_cap tq = tsq_cap (tx_queue sw)" "io_writes l2 = io_writes l1"
      "tsq_list tq = take (tsq_cap (tx_queue sw))
         (rev (map capture_of (drop (io_reads (?B, PTP_TX_MESSAGE_INFO) l1) tx)) @ tsq_list (tx_queue sw))"
      "length tx \<le> io_reads (?B, PTP_TX_MESSAGE_INFO) l2"
      "io_reads (?B, PTP_RX_MESSAGE_INFO) l2 = io_reads (?B, PTP_RX_MESSAGE_INFO) l1"
    unfolding nd by auto
  have "ax_retrieve_hw_timestamps fuel hw ts sw l =
      Some (int (length tx - io_reads (?B, PTP_TX_MESSAGE_INFO) l), sw\<lparr>rx_queue := rq, tx_queue := tq\<rparr>, l2)"
    using r(1,8) t(1) by (simp add: ax_retrieve_hw_timestamps_def Let_def)
  with r t wf show ?thesis by (auto simp: tstamp_wf_def)
qed

subsection \<open>Matching a frame with its entry\<close>

text \<open>
  The entry the hardware captures for a frame: the port, and the message info word that packs
  the sequence number (bits 12 to 27), the domain (4 to 11) and the message type (0 to 3).
\<close>

definition entry_for :: "skb_tstamp_msg \<Rightarrow> fifo_entry \<Rightarrow> bool" where
  "entry_for m e \<longleftrightarrow> (let h = drop (ptp_msg_offset m) (skb_data m) in
     fe_port e = ucast (port_tag m) \<and>
     fe_info e = push_bit 12 (ucast (ntohs_at h PTP_SEQ_ID_OFFSET)) OR push_bit 4 (ucast (h ! PTP_SUBDOMAIN_OFFSET)) OR
                 ucast (h ! PTP_MSG_TYPE_OFFSET AND 0x0F))"

lemma u_masks: "(0xF :: u32) = mask 4" "(0xFF :: u32) = mask 8" "(0xFFFF :: u32) = mask 16"
    "(0x0F :: u8) = mask 4" "(0xFF :: u8) = mask 8"
  by (simp_all add: mask_eq_exp_minus_1)

lemma msg_info_fields:
  fixes sq :: u16 and dm mt :: u8
  defines "w \<equiv> (push_bit 12 (ucast sq) OR push_bit 4 (ucast dm) OR ucast (mt AND 0x0F)) :: u32"
  shows "ucast (w AND 0xF) = mt AND 0x0F" and "ucast (drop_bit 12 w AND 0xFFFF) = sq"
    and "ucast (drop_bit 4 w AND 0xFF) = dm AND 0xFF"
  unfolding w_def u_masks by (rule bit_word_eqI; auto simp: bit_simps dest: bit_imp_le_length)+

lemma copy_ptp_header_nth:
  assumes "copy_ptp_header m = Some h" and "i < PTP_HDR_SIZE"
  shows "h ! i = drop (ptp_msg_offset m) (skb_data m) ! i"
  using assms by (auto simp: copy_ptp_header_def split: if_splits)

lemma entry_for_matches:
  assumes "entry_for m e" and h: "copy_ptp_header m = Some h"
  shows "ax_tsq_check_item_1 (capture_of e) (header_key h (port_tag m) ts_d)"
proof -
  let ?d = "drop (ptp_msg_offset m) (skb_data m)"
  have "ucast (ucast x :: u32) = (ucast x :: u8)" for x :: u16 by (rule bit_word_eqI) (auto simp: bit_simps)
  moreover have "h ! i = ?d ! i" if "i < PTP_HDR_SIZE" for i
    using copy_ptp_header_nth [OF h that] .
  moreover from assms(1) have p: "fe_port e = ucast (port_tag m)" and w: "fe_info e =
      push_bit 12 (ucast (ntohs_at ?d PTP_SEQ_ID_OFFSET)) OR push_bit 4 (ucast (?d ! PTP_SUBDOMAIN_OFFSET)) OR
      ucast (?d ! PTP_MSG_TYPE_OFFSET AND 0x0F)"
    by (simp_all only: entry_for_def Let_def)
  moreover have "ntohs_at h PTP_SEQ_ID_OFFSET = ntohs_at ?d PTP_SEQ_ID_OFFSET"
    using copy_ptp_header_nth [OF h] by (simp add: ntohs_at_def)
  moreover have "ucast (fe_info e AND 0xF) = ?d ! PTP_MSG_TYPE_OFFSET AND 0x0F"
    "ucast (drop_bit 12 (fe_info e) AND 0xFFFF) = ntohs_at ?d PTP_SEQ_ID_OFFSET"
    "ucast (drop_bit 4 (fe_info e) AND 0xFF) = ?d ! PTP_SUBDOMAIN_OFFSET AND 0xFF"
    unfolding w by (rule msg_info_fields)+
  ultimately show ?thesis
    by (simp add: ax_tsq_check_item_1_def header_key_def capture_of_def)
qed

text \<open>Seconds and nanoseconds never overflow the 64-bit time, and its sign bit stays clear.\<close>

lemma stamp_time_ok:
  assumes "capture_ok d" and "mode = 0 \<or> mode = 1"
  shows "\<exists>t. stamp_time mode d = Some (Some t) \<and>
    uint t = uint (timestamp_h d ! nat mode) * 1000000000 + uint (timestamp_l d ! nat mode) \<and> uint t < 2 ^ 63"
proof -
  let ?s = "timestamp_h d ! nat mode" and ?n = "timestamp_l d ! nat mode"
  have b: "uint ?s < 2 ^ 32" "uint ?n < 2 ^ 32" using uint_lt2p [of ?s] uint_lt2p [of ?n] by simp_all
  have m: "uint (ucast ?s * NS_PER_SEC) = uint ?s * 1000000000"
    using b by (simp add: uint_word_ariths)
  then have "uint (ucast ?s * NS_PER_SEC + ucast ?n) = uint ?s * 1000000000 + uint ?n"
    using b uint_plus_if_size [of "ucast ?s * NS_PER_SEC" "ucast ?n :: u64"] by (simp add: word_size)
  moreover have "stamp_time mode d = Some (Some (ucast ?s * NS_PER_SEC + ucast ?n))"
    using assms by (auto simp: stamp_time_def arr_get_def capture_ok_def)
  ultimately show ?thesis using b by auto
qed

lemma capture_of_ok: "entry_ok e \<Longrightarrow> capture_ok (capture_of e)"
  by (simp add: capture_ok_def capture_of_def entry_ok_def)

subsection \<open>The retry loop\<close>

lemma tx_retry_no_match:
  assumes dev: "fifo_device hw (pMemBase sw) rx tx" and wf: "tstamp_wf sw" and ts: "capture_ok ts"
    and ok: "\<forall>e \<in> set rx \<union> set tx. entry_ok e" and fuel: "fuel > length rx" "fuel > length tx"
    and nomatch: "tsq_lookup (rev (map capture_of (drop (io_reads (pMemBase sw, PTP_TX_MESSAGE_INFO) l) tx))
                    @ tsq_list (tx_queue sw)) key = None"
  shows "\<exists>sw' l'. tx_retry tries fuel hw ts key delays sw l = Some (None, delays + tries, sw', l') \<and>
     tstamp_wf sw' \<and> io_writes l' = io_writes l"
  using dev wf nomatch
proof (induction tries arbitrary: sw l delays)
  case 0
  then show ?case by simp
next
  case (Suc tries)
  from retrieve_hw_ok [OF Suc.prems(1,2) ts ok fuel, of l] obtain sw1 l1 rq tq where
    r: "ax_retrieve_hw_timestamps fuel hw ts sw l =
          Some (int (length tx - io_reads (pMemBase sw, PTP_TX_MESSAGE_INFO) l), sw1, l1)"
      "sw1 = sw\<lparr>rx_queue := rq, tx_queue := tq\<rparr>" "tstamp_wf sw1" "io_writes l1 = io_writes l"
      "tsq_list tq = take (tsq_cap (tx_queue sw))
         (rev (map capture_of (drop (io_reads (pMemBase sw, PTP_TX_MESSAGE_INFO) l) tx)) @ tsq_list (tx_queue sw))"
      "length tx \<le> io_reads (pMemBase sw, PTP_TX_MESSAGE_INFO) l1"
    by blast
  have none: "tsq_lookup (tsq_list tq) key = None"
    using Suc.prems(3) unfolding r(5) tsq_lookup_check find_None_iff by (meson in_set_takeD)
  then have "tsq_lookup (rev (map capture_of (drop (io_reads (pMemBase sw1, PTP_TX_MESSAGE_INFO) l1) tx))
      @ tsq_list (tx_queue sw1)) key = None"
    using r(2,6) by simp
  from Suc.IH [OF _ r(3) this, of "Suc delays"] Suc.prems(1) r(2)
  obtain sw' l' where ih: "tx_retry tries fuel hw ts key (Suc delays) sw1 l1 = Some (None, Suc delays + tries, sw', l')"
    "tstamp_wf sw'" "io_writes l' = io_writes l1"
    by auto
  have wfq: "tsq_wf (tx_queue sw1)" using r(3) by (simp add: tstamp_wf_def)
  have "\<exists>rc. ax_tsq_find_item_1 (tx_queue sw1) key = Some (rc, key) \<and> rc \<noteq> 0"
    using none ax_tsq_find_refines [OF wfq, of key] r(2) by simp
  with ih r(1,4) show ?case by auto
qed

subsection \<open>Concrete facts for the witnesses\<close>

lemma tx_fifo_device_ok:
  assumes "\<forall>e \<in> set es. entry_ok e"
  shows "fifo_device (tx_fifo_device es) B [] es"
  unfolding fifo_device_def fifo_head_def Let_def
  using assms by (auto simp: tx_fifo_device_def entry_ok_def Let_def)

lemma tstamp_switch_wf: "tstamp_wf tstamp_switch" "pMemBase tstamp_switch = 2" "ptp_mode tstamp_switch = 0"
    "tx_queue tstamp_switch = sample_queue" "rx_queue tstamp_switch = sample_queue"
  by (simp_all add: tstamp_wf_def tstamp_switch_def sample_queue_wf)

lemma sample_capture_ok: "capture_ok (sample_capture a)"
  by (simp add: capture_ok_def sample_capture_def)

lemma sample_entry_ok: "entry_ok sample_entry"
  by (simp add: entry_ok_def sample_entry_def)

lemma sample_entry_stamps: "fe_hi sample_entry = [3, 4, 5]" "fe_lo sample_entry = [500, 600, 700]"
  by (simp_all add: sample_entry_def)

lemma sample_header: "copy_ptp_header sample_msg = Some ((replicate 34 0)[31 := 7])"
  by (simp add: copy_ptp_header_def sample_msg_def)

lemma sample_entry_for: "entry_for sample_msg sample_entry"
  by (simp add: entry_for_def sample_msg_def sample_entry_def ntohs_at_def Let_def)

lemma sample_key: "header_key ((replicate 34 0)[31 := 7]) 1 (sample_capture 0) = sample_capture 7"
  by (simp add: header_key_def ntohs_at_def sample_capture_def)

subsection \<open>Properties\<close>



text \<open>
  C4. A transmitted PTP frame gets its own timestamp: if the hardware has captured an entry
  for the frame (same port, message type, sequence number and domain), no later entry
  matches, and the entries captured since fit the queue, then the first try finds it,
  without a delay and without a register write, and the reported time is seconds times 10^9
  plus nanoseconds of that entry's free running timer (mode 0) or first domain timer (mode
  1), exactly, with no overflow of the 64-bit value.
\<close>

theorem tx_stamp_delivered:
  assumes dev: "fifo_device hw (pMemBase sw) rx tx" and wf: "tstamp_wf sw" and ts: "capture_ok ts_in"
    and ok: "\<forall>e \<in> set rx \<union> set tx. entry_ok e" and fuel: "fuel > length rx" "fuel > length tx"
    and hdr: "copy_ptp_header m = Some h"
    and pend: "drop (io_reads (pMemBase sw, PTP_TX_MESSAGE_INFO) l) tx = before @ e # later"
    and e: "entry_for m e"
    and fresh: "\<forall>e' \<in> set later. \<not> ax_tsq_check_item_1 (capture_of e') (header_key h (port_tag m) ts_d)"
    and room: "length later < tsq_cap (tx_queue sw)"
    and mode: "ptp_mode sw = 0 \<or> ptp_mode sw = 1"
  shows "\<exists>t sw' l'. ax_tsn_tx_hwtstamp fuel hw ts_in ts_d sw m l = Some (Some t, 0, sw', l') \<and>
     uint t = uint (fe_hi e ! nat (ptp_mode sw)) * 1000000000 + uint (fe_lo e ! nat (ptp_mode sw)) \<and>
     io_writes l' = io_writes l"
proof -
  let ?key = "header_key h (port_tag m) ts_d"
  from retrieve_hw_ok [OF dev wf ts ok fuel, of l] obtain sw1 l1 rq tq where
    r: "ax_retrieve_hw_timestamps fuel hw ts_in sw l =
          Some (int (length tx - io_reads (pMemBase sw, PTP_TX_MESSAGE_INFO) l), sw1, l1)"
      "sw1 = sw\<lparr>rx_queue := rq, tx_queue := tq\<rparr>" "tstamp_wf sw1" "io_writes l1 = io_writes l"
      "tsq_list tq = take (tsq_cap (tx_queue sw)) (rev (map capture_of (before @ e # later)) @ tsq_list (tx_queue sw))"
    unfolding pend by blast
  then obtain rest where list: "tsq_list tq = rev (map capture_of later) @ capture_of e # rest"
    using room by (auto simp: take_append Suc_diff_Suc take_Cons')
  have "find (\<lambda>item. ax_tsq_check_item_1 item ?key) (rev (map capture_of later)) = None"
    using fresh by (auto simp: find_None_iff)
  then have "tsq_lookup (tsq_list tq) ?key = Some (capture_of e)"
    using entry_for_matches [OF e hdr] by (simp add: tsq_lookup_check list find_append)
  then have fnd: "ax_tsq_find_item_1 tq ?key = Some (0, capture_of e)"
    using r(2,3) ax_tsq_find_refines [of tq ?key] list by (simp add: tstamp_wf_def)
  have "entry_ok e" using ok pend by (metis UnCI in_set_conv_decomp in_set_dropD)
  from stamp_time_ok [OF capture_of_ok [OF this] mode] obtain t where
    t: "stamp_time (ptp_mode sw) (capture_of e) = Some (Some t)"
      "uint t = uint (fe_hi e ! nat (ptp_mode sw)) * 1000000000 + uint (fe_lo e ! nat (ptp_mode sw))"
    by (auto simp: capture_of_def)
  have "tx_retry 21 fuel hw ts_in ?key 0 sw l = Some (Some t, 0, sw1, l1)"
    using r(1,2) fnd t(1) by (simp add: eval_nat_numeral(3) [of "num.Bit0 (num.Bit1 (num.Bit0 num.One))"] numeral_eq_Suc)
  with t(2) r(4) hdr show ?thesis by (simp add: ax_tsn_tx_hwtstamp_def)
qed

theorem tx_stamp_delivered_witness:
  "\<exists>t sw' l'. ax_tsn_tx_hwtstamp 2 (tx_fifo_device [sample_entry]) (sample_capture 0) (sample_capture 0)
      tstamp_switch sample_msg [] = Some (Some t, 0, sw', l') \<and> uint t = 3000000500"
  using tx_stamp_delivered [where hw = "tx_fifo_device [sample_entry]" and sw = tstamp_switch and rx = "[]"
      and tx = "[sample_entry]" and ts_in = "sample_capture 0" and ts_d = "sample_capture 0" and fuel = 2 and l = "[]"
      and m = sample_msg and before = "[]" and later = "[]" and e = sample_entry, OF _ _ _ _ _ _ sample_header]
    tx_fifo_device_ok [of "[sample_entry]"]
  by (auto simp: tstamp_switch_wf sample_capture_ok sample_entry_ok sample_queue_cap sample_entry_for sample_entry_stamps)

text \<open>
  The retry loop always ends: when neither the queue nor the FIFO holds an entry that
  matches the frame, the driver drains 21 times, delays 21 times and reports no timestamp,
  leaving well-formed queues behind.
\<close>

theorem tx_stamp_gives_up:
  assumes dev: "fifo_device hw (pMemBase sw) rx tx" and wf: "tstamp_wf sw" and ts: "capture_ok ts_in"
    and ok: "\<forall>e \<in> set rx \<union> set tx. entry_ok e" and fuel: "fuel > length rx" "fuel > length tx"
    and hdr: "copy_ptp_header m = Some h"
    and nomatch: "tsq_lookup (rev (map capture_of (drop (io_reads (pMemBase sw, PTP_TX_MESSAGE_INFO) l) tx))
                    @ tsq_list (tx_queue sw)) (header_key h (port_tag m) ts_d) = None"
  shows "\<exists>sw' l'. ax_tsn_tx_hwtstamp fuel hw ts_in ts_d sw m l = Some (None, 21, sw', l') \<and> tstamp_wf sw' \<and>
     io_writes l' = io_writes l"
  using tx_retry_no_match [OF dev wf ts ok fuel nomatch, of 21 0] hdr by (simp add: ax_tsn_tx_hwtstamp_def)

theorem tx_stamp_gives_up_witness:
  "\<exists>sw' l'. ax_tsn_tx_hwtstamp 1 (tx_fifo_device []) (sample_capture 0) (sample_capture 0)
      tstamp_switch sample_msg [] = Some (None, 21, sw', l')"
  using tx_stamp_gives_up [where hw = "tx_fifo_device []" and sw = tstamp_switch and rx = "[]" and tx = "[]"
      and ts_in = "sample_capture 0" and ts_d = "sample_capture 0" and fuel = 1 and l = "[]" and m = sample_msg,
      OF _ _ _ _ _ _ sample_header]
    tx_fifo_device_ok [of "[]"]
  by (auto simp: tstamp_switch_wf sample_capture_ok sample_queue_list sample_key tsq_lookup_check sample_msg_def)



end
