(* ===== verification/Ax_Ptp.thy ===== *)
theory Ax_Ptp
  imports Ax_Switch
begin

unbundle bit_operations_syntax

section \<open>The PTP hardware clocks\<close>

text \<open>
  \<open>switch/ax_ptp.c\<close>: one PTP clock per time domain. The hardware timers share one window of
  registers; every operation first writes \<open>domain_index + 1\<close> to the timer selector (index 0
  is the free running timer). The kernel functions \<open>ptp_clock_register\<close>, \<open>ptp_clock_index\<close>,
  \<open>ptp_clock_unregister\<close> and \<open>scaled_ppm_to_ppb\<close> are parameters; the constant table of
  callbacks in \<open>ptp_caps\<close> is not part of the state.
\<close>

subsection \<open>Operations\<close>

abbreviation (input) PTP_MAX_ADJ :: int where "PTP_MAX_ADJ \<equiv> 100000000"

text \<open>\<open>long\<close> and \<open>s64\<close> arguments are integers; their conversion to \<open>u64\<close> wraps.\<close>

record timespec64 =
  tv_sec :: int
  tv_nsec :: int

definition select_timer :: "ax_ptp_clock_data \<Rightarrow> io_log \<Rightarrow> io_log" where
  "select_timer c l = iowrite32 (word_of_int (domain_index c + 1)) (clk_pMemBase c, AS_T_SELECTOR) l"

definition div_u64_rem :: "u64 \<Rightarrow> u64 \<times> u32" where
  "div_u64_rem ns = (ns div NS_PER_SEC, ucast (ns mod NS_PER_SEC))"

definition ax_ptp_adjtime :: "device \<Rightarrow> ax_ptp_clock_data \<Rightarrow> int \<Rightarrow> io_log \<Rightarrow> int \<times> io_log" where
  "ax_ptp_adjtime hw c delta l =
     (let l = select_timer c l;
          (s, l) = ioread32 hw (clk_pMemBase c, AS_T_VAL_O_HI) l;
          ns = (ucast s :: u64);
          ns = ns * NS_PER_SEC;
          (n, l) = ioread32 hw (clk_pMemBase c, AS_T_VAL_O_LO) l;
          ns = ns + ucast n;
          ns = ns + word_of_int delta;
          (q, remainder) = div_u64_rem ns;
          l = iowrite32 (ucast q) (clk_pMemBase c, AS_T_VAL_I_HI) l;
          l = iowrite32 remainder (clk_pMemBase c, AS_T_VAL_I_LO) l
      in (0, l))"

definition adjust_addend :: "u32 \<Rightarrow> int \<Rightarrow> u32" where
  "adjust_addend base_addend ppb =
     (let neg_adj = ppb < 0;
          ppb = (if neg_adj then - ppb else ppb);
          adjust_val = (ucast base_addend :: u64);
          adjust_val = adjust_val * word_of_int ppb;
          adjust_val = adjust_val div NS_PER_SEC
      in if neg_adj then ucast (ucast base_addend - adjust_val) else ucast (ucast base_addend + adjust_val))"

definition ax_ptp_adjfine :: "(int \<Rightarrow> int) \<Rightarrow> ax_ptp_clock_data \<Rightarrow> int \<Rightarrow> io_log \<Rightarrow> int \<times> io_log" where
  "ax_ptp_adjfine scaled_ppm_to_ppb c scaled_ppm l =
     (let new_addend_val = adjust_addend (base_addend_val c) (scaled_ppm_to_ppb scaled_ppm);
          l = select_timer c l;
          l = iowrite32 new_addend_val (clk_pMemBase c, AS_T_ADDEND) l
      in (0, l))"

definition ax_ptp_gettime64 :: "device \<Rightarrow> ax_ptp_clock_data \<Rightarrow> io_log \<Rightarrow> int \<times> timespec64 \<times> io_log" where
  "ax_ptp_gettime64 hw c l =
     (let l = select_timer c l;
          (s, l) = ioread32 hw (clk_pMemBase c, AS_T_VAL_O_HI) l;
          (n, l) = ioread32 hw (clk_pMemBase c, AS_T_VAL_O_LO) l
      in (0, \<lparr>tv_sec = uint s, tv_nsec = uint n\<rparr>, l))"

definition ax_ptp_settime64 :: "ax_ptp_clock_data \<Rightarrow> timespec64 \<Rightarrow> io_log \<Rightarrow> int \<times> io_log" where
  "ax_ptp_settime64 c ts l =
     (let l = select_timer c l;
          l = iowrite32 (word_of_int (tv_sec ts)) (clk_pMemBase c, AS_T_VAL_I_HI) l;
          l = iowrite32 (word_of_int (tv_nsec ts)) (clk_pMemBase c, AS_T_VAL_I_LO) l
      in (0, l))"

definition ax_ptp_enable :: int where
  "ax_ptp_enable = EOPNOTSUPP_NEG"

text \<open>
  The body of the loop of \<open>ax_ptp_init\<close> for domain \<open>i\<close>. \<open>ptp_clock_register\<close> gives a clock
  handle or fails (\<open>None\<close>); \<open>ptp_clock_index\<close> is called on the result in either case, and its
  value \<open>None\<close> is a crash.
\<close>

definition ptp_init_domain :: "(nat \<Rightarrow> int option) \<Rightarrow> (int option \<Rightarrow> int option) \<Rightarrow> device \<Rightarrow>
    ax_switch \<times> io_log \<Rightarrow> nat \<Rightarrow> (ax_switch \<times> io_log) option" where
  "ptp_init_domain ptp_clock_register ptp_clock_idx hw st i =
     (let (sw, l) = st in
      case arr_get (ax_ptp_clocks sw) (int i) of
        None \<Rightarrow> None
      | Some c \<Rightarrow>
          (let c = c\<lparr>domain_index := int i\<rparr>;
               l = iowrite32 (word_of_int (domain_index c + 1)) (pMemBase sw, AS_T_SELECTOR) l;
               (a, l) = ioread32 hw (pMemBase sw, AS_T_ADDEND) l;
               c = c\<lparr>base_addend_val := a\<rparr>;
               c = c\<lparr>clk_pMemBase := pMemBase sw\<rparr>;
               c = c\<lparr>ptp_clock := ptp_clock_register i\<rparr>
           in case (ptp_clock_idx (ptp_clock c), arr_set (domain_number_map sw) (int i) 0) of
                (Some ix, Some m) \<Rightarrow>
                  map_option (\<lambda>cs. (sw\<lparr>ax_ptp_clocks := cs, domain_number_map := m\<rparr>, l))
                    (arr_set (ax_ptp_clocks sw) (int i) (c\<lparr>ptp_clock_index := ix\<rparr>))
              | _ \<Rightarrow> None))"

definition ax_ptp_init :: "(nat \<Rightarrow> int option) \<Rightarrow> (int option \<Rightarrow> int option) \<Rightarrow> device \<Rightarrow>
    ax_switch \<Rightarrow> io_log \<Rightarrow> (ax_switch \<times> io_log) option" where
  "ax_ptp_init ptp_clock_register ptp_clock_idx hw sw l =
     (let sw = sw\<lparr>phc_id := 0\<rparr>;
          sw = sw\<lparr>ptp_mode := 0\<rparr>
      in fold_opt (ptp_init_domain ptp_clock_register ptp_clock_idx hw) (sw, l) [0..<nat PTP_DOMAIN_NUM])"

text \<open>\<open>ax_ptp_remove\<close>: the clocks it unregisters, in order; \<open>None\<close> is an access outside the table.\<close>

definition ax_ptp_remove :: "ax_switch \<Rightarrow> int list option" where
  "ax_ptp_remove sw =
     fold_opt (\<lambda>acc i. map_option (\<lambda>c. case ptp_clock c of None \<Rightarrow> acc | Some h \<Rightarrow> acc @ [h])
        (arr_get (ax_ptp_clocks sw) (int i))) [] [0..<nat PTP_DOMAIN_NUM]"

text \<open>A device whose timers can be set: a timer reads back what was last written while it was selected.\<close>

fun timer_reg :: "int \<Rightarrow> u32 \<Rightarrow> int \<Rightarrow> io_log \<Rightarrow> u32 option" where
  "timer_reg B t off [] = None"
| "timer_reg B t off (RD a # l) = timer_reg B t off l"
| "timer_reg B t off (WR a v # l) =
     (if a = (B, off) \<and> last_write (B, AS_T_SELECTOR) l = Some t then Some v else timer_reg B t off l)"

definition timer_device :: "int \<Rightarrow> device" where
  "timer_device B l a =
     (case last_write (B, AS_T_SELECTOR) l of
        None \<Rightarrow> 0
      | Some t \<Rightarrow>
          (let r = (\<lambda>off. case timer_reg B t off l of None \<Rightarrow> 0 | Some v \<Rightarrow> v)
           in if a = (B, AS_T_VAL_O_HI) then r AS_T_VAL_I_HI
              else if a = (B, AS_T_VAL_O_LO) then r AS_T_VAL_I_LO else r (snd a)))"

definition sample_clock :: ax_ptp_clock_data where
  "sample_clock = \<lparr>ptp_clock = Some 5, ptp_clock_index = 0, domain_index = 1, base_addend_val = 0x80000000,
     clk_pMemBase = 2\<rparr>"

definition ptp_switch :: ax_switch where
  "ptp_switch = \<lparr>pMemBase = 2, rx_queue = sample_queue, tx_queue = sample_queue,
     ax_ptp_clocks = [sample_clock, sample_clock], number_of_ports = 5, number_of_domains = 2,
     domain_number_map = [7, 7, 7], phc_id = 3, ptp_mode = 1\<rparr>"

subsection \<open>Arithmetic of the time registers\<close>

lemma uint_time64:
  "uint (ucast (s :: u32) * NS_PER_SEC + ucast (n :: u32)) = uint s * 1000000000 + uint n"
proof -
  have b: "uint s < 2 ^ 32" "uint n < 2 ^ 32" using uint_lt2p [of s] uint_lt2p [of n] by simp_all
  have "uint (ucast s * NS_PER_SEC) = uint s * 1000000000"
    using b by (simp add: uint_word_ariths)
  then show ?thesis
    using b uint_plus_if_size [of "ucast s * NS_PER_SEC" "ucast n :: u64"] by (simp add: word_size)
qed

lemma div_rem_time:
  assumes "uint ns < 2 ^ 32 * 1000000000"
  shows "uint (ucast (fst (div_u64_rem ns)) :: u32) * 1000000000 + uint (snd (div_u64_rem ns)) = uint ns"
    and "uint (snd (div_u64_rem ns)) < 1000000000"
proof -
  have q: "uint (ucast (ns div NS_PER_SEC) :: u32) = uint ns div 1000000000"
    using assms by (simp add: unsigned_ucast_eq take_bit_eq_mod uint_div div_less_dividend pos_imp_zdiv_nonneg_iff)
  have r: "uint (ucast (ns mod NS_PER_SEC) :: u32) = uint ns mod 1000000000"
    by (simp add: unsigned_ucast_eq take_bit_eq_mod uint_mod)
  show "uint (ucast (fst (div_u64_rem ns)) :: u32) * 1000000000 + uint (snd (div_u64_rem ns)) = uint ns"
    "uint (snd (div_u64_rem ns)) < 1000000000"
    by (simp_all add: div_u64_rem_def q r)
qed

lemma adjust_val_exact:
  assumes "0 \<le> p" and "p \<le> PTP_MAX_ADJ"
  shows "uint ((ucast (b :: u32) * word_of_int p :: u64) div NS_PER_SEC) = uint b * p div 1000000000"
proof -
  have b: "uint b < 2 ^ 32" using uint_lt2p [of b] by simp
  have "uint b * p \<le> 2 ^ 32 * PTP_MAX_ADJ" using b assms by (intro mult_mono) auto
  then have lt: "uint b * p < 2 ^ 64" by simp
  have "uint (ucast b * word_of_int p :: u64) = uint b * p"
    using lt assms by (simp add: uint_word_ariths uint_word_of_int mod_simps)
  then show ?thesis by (simp add: uint_div)
qed

subsection \<open>Timers that hold what was written\<close>

text \<open>
  The hypothesis about the timer block used for the round trip (time standing still): the
  output registers show, for the selected timer, the pair last written while it was selected.
\<close>

definition settable_timers :: "device \<Rightarrow> int \<Rightarrow> bool" where
  "settable_timers hw B \<longleftrightarrow> (\<forall>l t v.
     (last_write (B, AS_T_SELECTOR) l = Some t \<and> timer_reg B t AS_T_VAL_I_HI l = Some v \<longrightarrow> hw l (B, AS_T_VAL_O_HI) = v) \<and>
     (last_write (B, AS_T_SELECTOR) l = Some t \<and> timer_reg B t AS_T_VAL_I_LO l = Some v \<longrightarrow> hw l (B, AS_T_VAL_O_LO) = v))"

lemma timer_device_settable: "settable_timers (timer_device B) B"
  by (simp add: settable_timers_def timer_device_def)

subsection \<open>Properties\<close>

text \<open>
  Adjusting a clock by a signed offset: the handler selects the clock's own timer, and
  the seconds and nanoseconds it writes are exactly the time it read plus \<open>delta\<close>, with
  nanoseconds below 10^9, for every \<open>delta\<close> (negative ones included) that leaves the time
  between 0 and 2^32 seconds.
\<close>

theorem adjtime_adds_delta:
  fixes c :: ax_ptp_clock_data and hw :: device and l :: io_log
  defines "l1 \<equiv> select_timer c l"
  defines "l2 \<equiv> RD (clk_pMemBase c, AS_T_VAL_O_HI) # l1"
  defines "now \<equiv> uint (hw l1 (clk_pMemBase c, AS_T_VAL_O_HI)) * 1000000000 + uint (hw l2 (clk_pMemBase c, AS_T_VAL_O_LO))"
  assumes "0 \<le> now + delta" and "now + delta < 2 ^ 32 * 1000000000"
  shows "\<exists>l' s n. ax_ptp_adjtime hw c delta l = (0, l') \<and>
     io_writes l' = io_writes l @ [((clk_pMemBase c, AS_T_SELECTOR), word_of_int (domain_index c + 1)),
       ((clk_pMemBase c, AS_T_VAL_I_HI), s), ((clk_pMemBase c, AS_T_VAL_I_LO), n)] \<and>
     uint s * 1000000000 + uint n = now + delta \<and> uint n < 1000000000"
proof -
  let ?ns = "ucast (hw l1 (clk_pMemBase c, AS_T_VAL_O_HI)) * NS_PER_SEC +
             ucast (hw l2 (clk_pMemBase c, AS_T_VAL_O_LO)) + word_of_int delta :: u64"
  have "?ns = word_of_int (now + delta)"
    by (simp add: now_def uint_time64 [symmetric])
  moreover have "uint (word_of_int (now + delta) :: u64) = now + delta"
    using assms(4,5) by (subst uint_word_of_int) simp
  ultimately have ns: "uint ?ns = now + delta" by (simp only:)
  have run: "\<exists>l'. ax_ptp_adjtime hw c delta l = (0, l') \<and> io_writes l' = io_writes l @
      [((clk_pMemBase c, AS_T_SELECTOR), word_of_int (domain_index c + 1)),
       ((clk_pMemBase c, AS_T_VAL_I_HI), ucast (fst (div_u64_rem ?ns))), ((clk_pMemBase c, AS_T_VAL_I_LO), snd (div_u64_rem ?ns))]"
    by (simp add: ax_ptp_adjtime_def select_timer_def io_simps Let_def l1_def l2_def split: prod.splits)
  have "uint ?ns < 2 ^ 32 * 1000000000" using assms(5) by (simp only: ns)
  from run div_rem_time [OF this] show ?thesis unfolding ns by blast
qed

theorem adjtime_adds_delta_witness:
  "\<exists>l' s n. ax_ptp_adjtime (\<lambda>l a. 10) sample_clock (- 20) [] = (0, l') \<and>
     io_writes l' = [((2, AS_T_SELECTOR), 2), ((2, AS_T_VAL_I_HI), s), ((2, AS_T_VAL_I_LO), n)] \<and>
     uint s * 1000000000 + uint n = 9999999990 \<and> uint n < 1000000000"
  using adjtime_adds_delta [where hw = "\<lambda>l a. 10" and c = sample_clock and delta = "-20" and l = "[]"]
  by (simp add: sample_clock_def)



text \<open>
  Setting a clock and reading it back returns the time that was set (seconds and
  nanoseconds in 32 bits), and setting it does not disturb the clock of another domain:
  whatever was set there before is still read.
\<close>

theorem settime_gettime_roundtrip:
  assumes hw: "settable_timers hw (clk_pMemBase c)"
    and range: "0 \<le> tv_sec ts" "tv_sec ts < 2 ^ 32" "0 \<le> tv_nsec ts" "tv_nsec ts < 2 ^ 32"
    and other: "clk_pMemBase d = clk_pMemBase c" "word_of_int (domain_index d + 1) \<noteq> (word_of_int (domain_index c + 1) :: u32)"
      "timer_reg (clk_pMemBase c) (word_of_int (domain_index d + 1)) AS_T_VAL_I_HI l = Some s"
      "timer_reg (clk_pMemBase c) (word_of_int (domain_index d + 1)) AS_T_VAL_I_LO l = Some n"
  shows "fst (snd (ax_ptp_gettime64 hw c (snd (ax_ptp_settime64 c ts l)))) = ts \<and>
     fst (snd (ax_ptp_gettime64 hw d (snd (ax_ptp_settime64 c ts l)))) = \<lparr>tv_sec = uint s, tv_nsec = uint n\<rparr>"
proof -
  let ?B = "clk_pMemBase c"
  have rd: "hw l' (?B, AS_T_VAL_O_HI) = v" if "last_write (?B, AS_T_SELECTOR) l' = Some t"
      "timer_reg ?B t AS_T_VAL_I_HI l' = Some v" for l' t v
    using hw that by (auto simp: settable_timers_def)
  have rd': "hw l' (?B, AS_T_VAL_O_LO) = v" if "last_write (?B, AS_T_SELECTOR) l' = Some t"
      "timer_reg ?B t AS_T_VAL_I_LO l' = Some v" for l' t v
    using hw that by (auto simp: settable_timers_def)
  let ?l = "snd (ax_ptp_settime64 c ts l)"
  have 1: "hw (select_timer c ?l) (?B, AS_T_VAL_O_HI) = word_of_int (tv_sec ts)"
    "hw (RD (?B, AS_T_VAL_O_HI) # select_timer c ?l) (?B, AS_T_VAL_O_LO) = word_of_int (tv_nsec ts)"
    by (rule rd [where t = "word_of_int (domain_index c + 1)"] rd' [where t = "word_of_int (domain_index c + 1)"];
        simp add: select_timer_def ax_ptp_settime64_def io_simps Let_def)+
  have 2: "hw (select_timer d ?l) (?B, AS_T_VAL_O_HI) = s"
    "hw (RD (?B, AS_T_VAL_O_HI) # select_timer d ?l) (?B, AS_T_VAL_O_LO) = n"
    using other by (auto intro!: rd [where t = "word_of_int (domain_index d + 1)"] rd' [where t = "word_of_int (domain_index d + 1)"]
        simp: select_timer_def ax_ptp_settime64_def io_simps Let_def)
  from 1 2 range other(1) show ?thesis
    by (simp add: ax_ptp_gettime64_def io_simps Let_def uint_word_of_int)
qed

theorem settime_gettime_roundtrip_witness:
  "fst (snd (ax_ptp_gettime64 (timer_device 2) sample_clock
      (snd (ax_ptp_settime64 sample_clock \<lparr>tv_sec = 17, tv_nsec = 99\<rparr>
        (snd (ax_ptp_settime64 (sample_clock\<lparr>domain_index := 0\<rparr>) \<lparr>tv_sec = 3, tv_nsec = 4\<rparr> []))))))
     = \<lparr>tv_sec = 17, tv_nsec = 99\<rparr>"
  using settime_gettime_roundtrip [where hw = "timer_device 2" and c = sample_clock
      and ts = "\<lparr>tv_sec = 17, tv_nsec = 99\<rparr>" and d = "sample_clock\<lparr>domain_index := 0\<rparr>" and s = 3 and n = 4
      and l = "snd (ax_ptp_settime64 (sample_clock\<lparr>domain_index := 0\<rparr>) \<lparr>tv_sec = 3, tv_nsec = 4\<rparr> [])"]
    timer_device_settable
  by (simp add: sample_clock_def ax_ptp_settime64_def select_timer_def io_simps Let_def)

text \<open>
  After \<open>ax_ptp_init\<close> with both registrations successful, clock \<open>i\<close> has domain index \<open>i\<close>,
  the registered handle and its index, the switch's register window, and as base addend the
  value read from timer \<open>i + 1\<close> (never from the free running timer); the mode is 802.1AS and
  the domain numbers of both clocks are reset.
\<close>

theorem ptp_init_clocks:
  assumes len: "length (ax_ptp_clocks sw) = 2" "length (domain_number_map sw) \<ge> 2"
    and reg: "\<And>i. i < 2 \<Longrightarrow> ptp_clock_idx (ptp_clock_register i) = Some (ix i)"
    and addend: "\<And>l t. last_write (pMemBase sw, AS_T_SELECTOR) l = Some t \<Longrightarrow> hw l (pMemBase sw, AS_T_ADDEND) = addend t"
  shows "\<exists>sw' l'. ax_ptp_init ptp_clock_register ptp_clock_idx hw sw l = Some (sw', l') \<and>
     ax_ptp_clocks sw' = map (\<lambda>i. \<lparr>ptp_clock = ptp_clock_register i, ptp_clock_index = ix i, domain_index = int i,
        base_addend_val = addend (of_nat i + 1), clk_pMemBase = pMemBase sw\<rparr>) [0..<2] \<and>
     take 2 (domain_number_map sw') = [0, 0] \<and> drop 2 (domain_number_map sw') = drop 2 (domain_number_map sw) \<and>
     ptp_mode sw' = 0 \<and> phc_id sw' = 0"
proof -
  obtain c0 c1 where cs: "ax_ptp_clocks sw = [c0, c1]" using len(1) by (auto simp: numeral_2_eq_2 length_Suc_conv)
  obtain m0 m1 ms where ms: "domain_number_map sw = m0 # m1 # ms"
    using len(2) by (cases "domain_number_map sw"; cases "tl (domain_number_map sw)") auto
  have rec: "c\<lparr>domain_index := a, base_addend_val := b, clk_pMemBase := d, ptp_clock := e, ptp_clock_index := f\<rparr> =
      \<lparr>ptp_clock = e, ptp_clock_index = f, domain_index = a, base_addend_val = b, clk_pMemBase = d\<rparr>"
    for c :: ax_ptp_clock_data and a b d e f by simp
  show ?thesis
    using reg [of 0] reg [of 1]
    by (simp add: ax_ptp_init_def ptp_init_domain_def cs ms upt_rec io_simps arr_get_def arr_set_def Let_def addend
        numeral_2_eq_2 split: prod.splits)
qed

theorem ptp_init_clocks_witness:
  "\<exists>sw' l'. ax_ptp_init (\<lambda>i. Some (int i + 10)) (map_option (\<lambda>h. h - 10)) (\<lambda>l a. 77) ptp_switch [] = Some (sw', l') \<and>
     map base_addend_val (ax_ptp_clocks sw') = [77, 77] \<and> map ptp_clock_index (ax_ptp_clocks sw') = [0, 1] \<and>
     ptp_mode sw' = 0"
  using ptp_init_clocks [where sw = ptp_switch and ptp_clock_register = "\<lambda>i. Some (int i + 10)"
      and ptp_clock_idx = "map_option (\<lambda>h. h - 10)" and ix = int and hw = "\<lambda>l a. 77" and addend = "\<lambda>t. 77" and l = "[]"]
  by (auto simp: ptp_switch_def upt_rec)

text \<open>
  If a registration fails, the driver still asks the kernel for the index of the null
  clock: with a \<open>ptp_clock_index\<close> that dereferences its argument the initialisation crashes
  instead of going on without that clock.
\<close>

theorem ptp_init_null_clock_crash:
  assumes "ptp_clock_idx None = None" and "ptp_clock_register 0 = None"
  shows "ax_ptp_init ptp_clock_register ptp_clock_idx hw sw l = None"
  using assms by (simp add: ax_ptp_init_def ptp_init_domain_def upt_rec Let_def io_simps split: option.split prod.splits)

theorem ptp_init_null_clock_crash_witness:
  "ax_ptp_init (\<lambda>i. None) (map_option (\<lambda>h. h)) (\<lambda>l a. 77) ptp_switch [] = None"
  by (rule ptp_init_null_clock_crash) simp_all

end
