(* ===== verification/Sdsa_Tag.thy ===== *)
theory Sdsa_Tag
  imports Hw_Tstamp
begin

unbundle bit_operations_syntax

section \<open>Socket buffers and the SDSA tag\<close>

text \<open>
  The tagger \<open>sdsa_xmit\<close> / \<open>sdsa_rcv\<close> of \<open>DSA/tag_asix.c\<close>, the port lookup of \<open>DSA/tag.h\<close>, and
  from \<open>libxdma.c\<close> the protocol classification \<open>ax_eth_type_trans\<close> and the two routines that
  decide whether a frame is a PTP event message and which port it belongs to
  (\<open>ax_rx_check_timestamp\<close>, \<open>ax_tx_check_timestamp\<close>).

  A socket buffer is its linear memory (from \<open>skb->head\<close> to the end of the data) together with
  the offset of \<open>skb->data\<close> in it. Moving or writing bytes outside that memory is \<open>None\<close>.
  Ethertypes and ports are kept in host byte order.
\<close>

subsection \<open>Linear memory\<close>

definition mem_write :: "u8 list \<Rightarrow> nat \<Rightarrow> u8 list \<Rightarrow> u8 list option" where
  "mem_write buf i bs =
     (if i + length bs \<le> length buf then Some (take i buf @ bs @ drop (i + length bs) buf) else None)"

definition mem_read :: "u8 list \<Rightarrow> nat \<Rightarrow> nat \<Rightarrow> u8 list option" where
  "mem_read buf i n = (if i + n \<le> length buf then Some (take n (drop i buf)) else None)"

definition memmove :: "u8 list \<Rightarrow> nat \<Rightarrow> nat \<Rightarrow> nat \<Rightarrow> u8 list option" where
  "memmove buf dst src n = Option.bind (mem_read buf src n) (mem_write buf dst)"

subsection \<open>Socket buffers\<close>

datatype pkt_type = PACKET_HOST | PACKET_BROADCAST | PACKET_MULTICAST | PACKET_OTHERHOST

record sk_buff =
  skb_buf :: "u8 list"
  skb_off :: nat
  skb_mac :: nat
  protocol :: u16
  skb_dev :: "int option"
  skb_pkt_type :: pkt_type
  csum_complete :: bool
  csum :: u32
  offload_fwd_mark :: bool
  hwtstamp :: "u64 option"

abbreviation (input) ETH_ALEN :: nat where "ETH_ALEN \<equiv> 6"
abbreviation (input) ETH_HLEN :: nat where "ETH_HLEN \<equiv> 14"
abbreviation (input) ETH_P_SDSA :: u16 where "ETH_P_SDSA \<equiv> 0xDCDC"
abbreviation (input) AX_SDSA :: u16 where "AX_SDSA \<equiv> 0xDCDC"
abbreviation (input) ETH_P_8021Q :: u16 where "ETH_P_8021Q \<equiv> 0x8100"
abbreviation (input) ETH_P_XDSA :: u16 where "ETH_P_XDSA \<equiv> 0x00F8"
abbreviation (input) ETH_P_802_3 :: u16 where "ETH_P_802_3 \<equiv> 0x0001"
abbreviation (input) ETH_P_802_2 :: u16 where "ETH_P_802_2 \<equiv> 0x0004"
abbreviation (input) ETH_P_1588 :: u16 where "ETH_P_1588 \<equiv> 0x88F7"
abbreviation (input) ETH_P_IP :: u16 where "ETH_P_IP \<equiv> 0x0800"
abbreviation (input) ETH_P_NET_LATENCY :: u16 where "ETH_P_NET_LATENCY \<equiv> 0x808"
abbreviation (input) IPPROTO_UDP :: u8 where "IPPROTO_UDP \<equiv> 17"
abbreviation (input) DSA_HLEN :: nat where "DSA_HLEN \<equiv> 4"
abbreviation (input) SDSA_HLEN :: nat where "SDSA_HLEN \<equiv> 8"
abbreviation (input) AX_TX_PTPHDR_OFFSET_L3 :: nat where "AX_TX_PTPHDR_OFFSET_L3 \<equiv> 42"
abbreviation (input) AX_RX_PTPHDR_OFFSET_L3 :: nat where "AX_RX_PTPHDR_OFFSET_L3 \<equiv> 28"
abbreviation (input) AX_TX_PTPHDR_OFFSET_L2 :: nat where "AX_TX_PTPHDR_OFFSET_L2 \<equiv> 14"
abbreviation (input) AX_RX_PTPHDR_OFFSET_L2 :: nat where "AX_RX_PTPHDR_OFFSET_L2 \<equiv> 0"
abbreviation (input) AX_ETHTYPE_OFFSET :: nat where "AX_ETHTYPE_OFFSET \<equiv> 12"
abbreviation (input) AX_IP_PROTO_OFFSET :: nat where "AX_IP_PROTO_OFFSET \<equiv> 9"
abbreviation (input) AX_UDP_PORT_OFFSET :: nat where "AX_UDP_PORT_OFFSET \<equiv> 22"
abbreviation (input) AX_PTP_EVENT_PORT_NUM :: u16 where "AX_PTP_EVENT_PORT_NUM \<equiv> 0x13F"
abbreviation (input) AX_SDSA_TAG_LENGTH_TX :: nat where "AX_SDSA_TAG_LENGTH_TX \<equiv> 8"
abbreviation (input) AX_SDSA_TAG_LENGTH_RX :: nat where "AX_SDSA_TAG_LENGTH_RX \<equiv> 6"

text \<open>The bytes from \<open>skb->data\<close> on, and \<open>skb_copy_from_linear_data_offset\<close> on them.\<close>

definition skb_bytes :: "sk_buff \<Rightarrow> u8 list" where
  "skb_bytes skb = drop (skb_off skb) (skb_buf skb)"

definition skb_copy_u16 :: "sk_buff \<Rightarrow> nat \<Rightarrow> u16 option" where
  "skb_copy_u16 skb i = map_option (\<lambda>bs. ntohs_at bs 0) (mem_read (skb_bytes skb) i 2)"

definition skb_copy_u8 :: "sk_buff \<Rightarrow> nat \<Rightarrow> u8 option" where
  "skb_copy_u8 skb i = map_option (\<lambda>bs. bs ! 0) (mem_read (skb_bytes skb) i 1)"

definition skb_push :: "sk_buff \<Rightarrow> nat \<Rightarrow> sk_buff option" where
  "skb_push skb n = (if n \<le> skb_off skb then Some (skb\<lparr>skb_off := skb_off skb - n\<rparr>) else None)"

definition skb_pull :: "sk_buff \<Rightarrow> nat \<Rightarrow> sk_buff option" where
  "skb_pull skb n =
     (if n \<le> length (skb_bytes skb) then Some (skb\<lparr>skb_off := skb_off skb + n\<rparr>) else None)"

subsection \<open>Transmit: inserting the tag\<close>

text \<open>\<open>struct dsa_port\<close>: what the tagger uses of it.\<close>

record dsa_port =
  ds_index :: u32
  dp_index :: u32
  dp_is_user :: bool
  dp_user :: "int option"

definition sdsa_tag :: "u8 \<Rightarrow> dsa_port \<Rightarrow> u8 list" where
  "sdsa_tag cmd dp =
     [0xDC, 0xDC, 0x00, 0x00, cmd OR ucast (drop_bit 5 (ds_index dp AND 0x3e0)), ucast (push_bit 3 (dp_index dp))]"

text \<open>
  \<open>skb_cow_head\<close> is the kernel's: it returns a buffer with the same frame and at least the
  requested headroom, or fails.
\<close>

definition sdsa_xmit :: "(sk_buff \<Rightarrow> nat \<Rightarrow> sk_buff option) \<Rightarrow> dsa_port \<Rightarrow> sk_buff \<Rightarrow> sk_buff option option" where
  "sdsa_xmit skb_cow_head dp skb =
     (if protocol skb = ETH_P_8021Q then
        (case skb_cow_head skb DSA_HLEN of
           None \<Rightarrow> Some None
         | Some skb \<Rightarrow>
             Option.bind (skb_push skb DSA_HLEN) (\<lambda>skb.
             Option.bind (memmove (skb_buf skb) (skb_off skb) (skb_off skb + DSA_HLEN) (2 * ETH_ALEN)) (\<lambda>buf.
             Option.bind (mem_write buf (skb_off skb + 2 * ETH_ALEN) (sdsa_tag 0x60 dp)) (\<lambda>buf.
             Some (Some (skb\<lparr>skb_buf := buf\<rparr>))))))
      else
        (case skb_cow_head skb SDSA_HLEN of
           None \<Rightarrow> Some None
         | Some skb \<Rightarrow>
             Option.bind (skb_push skb SDSA_HLEN) (\<lambda>skb.
             Option.bind (memmove (skb_buf skb) (skb_off skb) (skb_off skb + SDSA_HLEN) (2 * ETH_ALEN)) (\<lambda>buf.
             Option.bind (mem_write buf (skb_off skb + 2 * ETH_ALEN) (sdsa_tag 0x40 dp @ [0x00, 0x00])) (\<lambda>buf.
             Some (Some (skb\<lparr>skb_buf := buf\<rparr>)))))))"

subsection \<open>Receive: removing the tag\<close>

definition dsa_conduit_find_user :: "dsa_port list \<Rightarrow> u32 \<Rightarrow> u32 \<Rightarrow> int option" where
  "dsa_conduit_find_user ports device port =
     (case find (\<lambda>dp. ds_index dp = device \<and> dp_index dp = port \<and> dp_is_user dp) ports of
        None \<Rightarrow> None | Some dp \<Rightarrow> dp_user dp)"

text \<open>
  The kernel's checksum routines; \<open>csum_postpull\<close> is the update \<open>skb_pull_rcsum\<close> makes for the
  bytes it removes.
\<close>

record csum_ops =
  csum_add :: "u32 \<Rightarrow> u32 \<Rightarrow> u32"
  csum_sub :: "u32 \<Rightarrow> u32 \<Rightarrow> u32"
  csum_partial :: "u8 list \<Rightarrow> u32"
  csum_postpull :: "u32 \<Rightarrow> u8 list \<Rightarrow> u32"

definition skb_pull_rcsum :: "csum_ops \<Rightarrow> sk_buff \<Rightarrow> nat \<Rightarrow> sk_buff option" where
  "skb_pull_rcsum K skb n =
     map_option (\<lambda>s. if csum_complete skb
                   then s\<lparr>csum := csum_postpull K (csum skb) (take n (skb_bytes skb))\<rparr> else s)
       (skb_pull skb n)"

text \<open>The result is \<open>Some None\<close> when the frame is dropped (the function returns \<open>NULL\<close>).\<close>

definition sdsa_source_port :: "u8 \<Rightarrow> u8 \<Rightarrow> u32" where
  "sdsa_source_port h0 h1 = push_bit 5 (ucast (h0 AND 0x1f)) + drop_bit 3 (ucast (h1 AND 0xF8))"

definition sdsa_rcv :: "csum_ops \<Rightarrow> dsa_port list \<Rightarrow> sk_buff \<Rightarrow> sk_buff option option" where
  "sdsa_rcv K ports skb =
     (if length (skb_bytes skb) < SDSA_HLEN then Some None
      else
        (let h = (\<lambda>i. skb_bytes skb ! (2 + i)); d = skb_off skb in
         if h 0 AND 0xc0 \<noteq> 0x00 then Some None
         else
           (case dsa_conduit_find_user ports 0 (sdsa_source_port (h 0) (h 1)) of
              None \<Rightarrow> Some None
            | Some dev \<Rightarrow>
                (let skb = skb\<lparr>skb_dev := Some dev\<rparr> in
                 if h 0 AND 0x20 \<noteq> 0 then
                   (let new_header = [0x81, 0x00, h 2, h 3] in
                    Option.bind (skb_pull_rcsum K skb DSA_HLEN) (\<lambda>skb.
                    (let skb = (if csum_complete skb
                                then skb\<lparr>csum := csum_sub K (csum_add K (csum skb) (csum_partial K (drop 2 new_header)))
                                                   (csum_partial K [h 2, h 3])\<rparr>
                                else skb) in
                    Option.bind (mem_write (skb_buf skb) (d + 2) new_header) (\<lambda>buf.
                    if skb_off skb < ETH_HLEN + DSA_HLEN then None else
                    Option.bind (memmove buf (skb_off skb - ETH_HLEN) (skb_off skb - ETH_HLEN - DSA_HLEN) (2 * ETH_ALEN)) (\<lambda>buf.
                    Some (Some (skb\<lparr>skb_buf := buf, offload_fwd_mark := True\<rparr>)))))))
                 else
                   Option.bind (skb_pull_rcsum K skb SDSA_HLEN) (\<lambda>skb.
                   if skb_off skb < ETH_HLEN + SDSA_HLEN then None else
                   Option.bind (memmove (skb_buf skb) (skb_off skb - ETH_HLEN) (skb_off skb - ETH_HLEN - SDSA_HLEN) (2 * ETH_ALEN)) (\<lambda>buf.
                   Some (Some (skb\<lparr>skb_buf := buf, offload_fwd_mark := True\<rparr>))))))))"

subsection \<open>Classification of received frames\<close>

text \<open>
  \<open>ax_eth_type_trans\<close>: the device's address and broadcast address and whether it is a DSA
  conduit are arguments. The frame has to hold an Ethernet header.
\<close>

definition ax_eth_type_trans :: "int \<Rightarrow> u8 list \<Rightarrow> u8 list \<Rightarrow> bool \<Rightarrow> sk_buff \<Rightarrow> (u16 \<times> sk_buff) option" where
  "ax_eth_type_trans dev dev_addr broadcast netdev_uses_dsa skb =
     (let skb = skb\<lparr>skb_dev := Some dev\<rparr>;
          skb = skb\<lparr>skb_mac := skb_off skb\<rparr>;
          eth = skb_bytes skb
      in case skb_pull skb ETH_HLEN of
           None \<Rightarrow> None
         | Some skb \<Rightarrow>
             (let h_dest = take ETH_ALEN eth;
                  h_proto = ntohs_at eth 12;
                  skb = (if h_dest \<noteq> dev_addr then
                           (if h_dest ! 0 AND 1 \<noteq> 0 then
                              (if h_dest = broadcast then skb\<lparr>skb_pkt_type := PACKET_BROADCAST\<rparr>
                               else skb\<lparr>skb_pkt_type := PACKET_MULTICAST\<rparr>)
                            else skb\<lparr>skb_pkt_type := PACKET_OTHERHOST\<rparr>)
                         else skb)
              in if netdev_uses_dsa \<and> h_proto = 0xDCDC then Some (ETH_P_XDSA, skb)
                 else if h_proto \<ge> 1536 then Some (h_proto, skb)
                 else (case skb_copy_u16 skb 0 of
                         Some sap \<Rightarrow> if sap = 0xFFFF then Some (ETH_P_802_3, skb) else Some (ETH_P_802_2, skb)
                       | None \<Rightarrow> Some (ETH_P_802_2, skb))))"

subsection \<open>Timestamping decisions\<close>

text \<open>What \<open>ax_rx_check_timestamp\<close> finds a received frame to be.\<close>

datatype rx_class = Rx_Plain | Rx_Ptp skb_tstamp_msg | Rx_Latency

definition tag_port :: "u16 \<Rightarrow> u16" where
  "tag_port tmp = drop_bit 3 (tmp AND 0x1FF8)"

definition mk_msg :: "sk_buff \<Rightarrow> nat \<Rightarrow> u16 \<Rightarrow> skb_tstamp_msg" where
  "mk_msg skb off port = \<lparr>skb_data = skb_bytes skb, ptp_msg_offset = off, port_tag = port\<rparr>"

definition rx_classify :: "sk_buff \<Rightarrow> rx_class option" where
  "rx_classify skb =
     (if protocol skb = ETH_P_XDSA then
        Option.bind (mem_read (skb_buf skb) (skb_mac skb + 12) 2) (\<lambda>hp.
        if ntohs_at hp 0 = AX_SDSA then
          Option.bind (skb_copy_u16 skb (AX_RX_PTPHDR_OFFSET_L2 + 2)) (\<lambda>tmp.
          let source_port = tag_port tmp in
          Option.bind (skb_copy_u16 skb (AX_RX_PTPHDR_OFFSET_L2 + AX_SDSA_TAG_LENGTH_RX)) (\<lambda>rx_ethertype.
          if rx_ethertype = ETH_P_1588 then
            Option.bind (skb_copy_u8 skb (AX_RX_PTPHDR_OFFSET_L2 + AX_SDSA_TAG_LENGTH_RX + 2)) (\<lambda>mt.
            if mt AND 0xf \<le> 7
            then Some (Rx_Ptp (mk_msg skb (AX_RX_PTPHDR_OFFSET_L2 + AX_SDSA_TAG_LENGTH_RX + 2) source_port))
            else Some Rx_Plain)
          else if rx_ethertype = ETH_P_NET_LATENCY then Some Rx_Latency
          else if rx_ethertype = ETH_P_IP then
            Option.bind (skb_copy_u8 skb (AX_IP_PROTO_OFFSET + AX_SDSA_TAG_LENGTH_RX + 2)) (\<lambda>transport_poto.
            if transport_poto = IPPROTO_UDP then
              Option.bind (skb_copy_u16 skb (AX_UDP_PORT_OFFSET + AX_SDSA_TAG_LENGTH_RX + 2)) (\<lambda>dst_port.
              if dst_port = AX_PTP_EVENT_PORT_NUM
              then Some (Rx_Ptp (mk_msg skb (AX_RX_PTPHDR_OFFSET_L3 + AX_SDSA_TAG_LENGTH_RX + 2) source_port))
              else Some Rx_Plain)
            else Some Rx_Plain)
          else Some Rx_Plain))
        else Some Rx_Plain)
      else Some Rx_Plain)"

text \<open>
  The whole routine: PTP frames drain the receive FIFO and look their timestamp up, both under
  one lock; latency test frames get the current time of registers 0x114 and 0x110.
\<close>

definition ax_rx_check_timestamp :: "nat \<Rightarrow> device \<Rightarrow> capture_data \<Rightarrow> capture_data \<Rightarrow> sk_buff \<Rightarrow> ax_switch \<Rightarrow> io_log \<Rightarrow>
    (sk_buff \<times> ax_switch \<times> io_log) option" where
  "ax_rx_check_timestamp fuel hw ts ts_d skb sw l =
     (case rx_classify skb of
        None \<Rightarrow> None
      | Some Rx_Plain \<Rightarrow> Some (skb, sw, l)
      | Some (Rx_Ptp msg) \<Rightarrow>
          Option.bind (ax_retrieve_rx_hw_timestamps fuel hw ts sw l) (\<lambda>(sw, l).
          Option.bind (ax_tsn_rx_hwtstamp ts_d sw msg) (\<lambda>r.
          case r of None \<Rightarrow> Some (skb, sw, l) | Some t \<Rightarrow> Some (skb\<lparr>hwtstamp := Some t\<rparr>, sw, l)))
      | Some Rx_Latency \<Rightarrow>
          (let (sec, l) = ioread32 hw (2, 0x114) l;
               (nsec, l) = ioread32 hw (2, 0x110) l;
               time64 = ucast sec * 1000000000 + ucast nsec
           in Some (skb\<lparr>hwtstamp := Some time64\<rparr>, sw, l)))"

text \<open>\<open>ax_tx_check_timestamp\<close>: the message to time-stamp, if any, and the routine itself.\<close>

definition tx_classify :: "bool \<Rightarrow> sk_buff \<Rightarrow> skb_tstamp_msg option option" where
  "tx_classify tx_hw_tstamp skb =
     (if tx_hw_tstamp then
        Option.bind (skb_copy_u16 skb AX_ETHTYPE_OFFSET) (\<lambda>tx_ethertype.
        if tx_ethertype = AX_SDSA then
          Option.bind (skb_copy_u16 skb (AX_ETHTYPE_OFFSET + 4)) (\<lambda>tmp.
          Option.bind (skb_copy_u16 skb (AX_ETHTYPE_OFFSET + AX_SDSA_TAG_LENGTH_TX)) (\<lambda>tx_ethertype.
          if tx_ethertype = ETH_P_1588 then
            Option.bind (skb_copy_u8 skb (AX_ETHTYPE_OFFSET + AX_SDSA_TAG_LENGTH_TX + 2)) (\<lambda>mt.
            if mt AND 0xF \<le> 7
            then Some (Some (mk_msg skb (AX_TX_PTPHDR_OFFSET_L2 + AX_SDSA_TAG_LENGTH_TX) (tag_port tmp)))
            else Some None)
          else if tx_ethertype = ETH_P_IP
          then Some (Some (mk_msg skb (AX_TX_PTPHDR_OFFSET_L3 + AX_SDSA_TAG_LENGTH_TX) (tag_port tmp)))
          else Some None))
        else Some None)
      else Some None)"

definition ax_tx_check_timestamp :: "nat \<Rightarrow> device \<Rightarrow> capture_data \<Rightarrow> capture_data \<Rightarrow> bool \<Rightarrow> sk_buff \<Rightarrow> ax_switch \<Rightarrow>
    io_log \<Rightarrow> (u64 option \<times> ax_switch \<times> io_log) option" where
  "ax_tx_check_timestamp fuel hw ts ts_d tx_hw_tstamp skb sw l =
     (case tx_classify tx_hw_tstamp skb of
        None \<Rightarrow> None
      | Some None \<Rightarrow> Some (None, sw, l)
      | Some (Some msg) \<Rightarrow>
          map_option (\<lambda>(t, delays, sw, l). (t, sw, l)) (ax_tsn_tx_hwtstamp fuel hw ts ts_d sw msg l))"

text \<open>
  What happens between transmission and reception when a tagged frame comes back to the CPU
  port: the switch turns the FROM_CPU command into TO_CPU (the two top bits of tag byte 4) and
  keeps the port, so the receiver sees the tag of the port it came from.
\<close>

definition to_cpu :: "u8 list \<Rightarrow> u8 list" where
  "to_cpu bs = bs[16 := bs ! 16 AND 0x3F]"

definition sample_cow :: "sk_buff \<Rightarrow> nat \<Rightarrow> sk_buff option" where
  "sample_cow skb n = Some (skb\<lparr>skb_buf := replicate n 0 @ skb_bytes skb, skb_off := n\<rparr>)"

definition sample_skb :: "u16 \<Rightarrow> u8 list \<Rightarrow> sk_buff" where
  "sample_skb proto bs = \<lparr>skb_buf = bs, skb_off = 0, skb_mac = 0, protocol = proto, skb_dev = None,
     skb_pkt_type = PACKET_HOST, csum_complete = False, csum = 0, offload_fwd_mark = False, hwtstamp = None\<rparr>"

definition sample_port :: dsa_port where
  "sample_port = \<lparr>ds_index = 0, dp_index = 3, dp_is_user = True, dp_user = Some 42\<rparr>"

definition sample_csum :: csum_ops where
  "sample_csum = \<lparr>csum_add = (+), csum_sub = (-), csum_partial = (\<lambda>bs. of_nat (length bs)),
     csum_postpull = (\<lambda>c bs. c)\<rparr>"

subsection \<open>Memory\<close>

lemma mem_write_app:
  "length bs = length ys \<Longrightarrow> mem_write (xs @ ys @ zs) (length xs) bs = Some (xs @ bs @ zs)"
  by (simp add: mem_write_def)

lemma mem_write_at:
  "i = length xs \<Longrightarrow> length bs = length ys \<Longrightarrow> mem_write (xs @ ys @ zs) i bs = Some (xs @ bs @ zs)"
  by (simp add: mem_write_app)

text \<open>Moving the addresses down over a gap of \<open>n\<close> bytes, and up over it.\<close>

lemma memmove_down:
  assumes "length m = 12" and "length g = n" and "i = length pre" and "j = length pre + n"
  shows "memmove (pre @ g @ m @ rest) i j 12 = Some (pre @ m @ drop 12 (g @ m) @ rest)"
  using assms by (simp add: memmove_def mem_read_def mem_write_def)

lemma memmove_up:
  assumes "length m = 12" and "length g = n" and "i = length pre + n" and "j = length pre"
  shows "memmove (pre @ m @ g @ rest) i j 12 = Some (pre @ take n (m @ g) @ m @ rest)"
  using assms by (simp add: memmove_def mem_read_def mem_write_def)

lemma split_at: "n \<le> length xs \<Longrightarrow> \<exists>ys zs. xs = ys @ zs \<and> length ys = n"
  by (metis append_take_drop_id length_take min.absorb2)

subsection \<open>The port number in the tag\<close>

lemma less_32_take_bit: "(x :: u32) < 32 \<Longrightarrow> take_bit 5 x = x"
  by (simp add: word_less_nat_alt word_unat_eq_iff unsigned_take_bit_eq take_bit_nat_eq_self)

lemma mask_3e0: "(0x3e0 :: u32) = push_bit 5 (mask 5)"
  by (simp add: mask_eq_exp_minus_1)

lemma small_index_no_high: "(x :: u32) < 32 \<Longrightarrow> x AND 0x3e0 = 0"
proof -
  assume "x < 32"
  then have b: "bit x n \<Longrightarrow> n < 5" for n by (metis bit_take_bit_iff less_32_take_bit)
  show ?thesis unfolding mask_3e0 by (rule bit_word_eqI) (auto simp: bit_simps dest: b)
qed

lemma tag_u8_masks: "(0xF8 :: u8) = push_bit 3 (mask 5)" "(0x1f :: u8) = mask 5" "(0x1FF8 :: u16) = push_bit 3 (mask 10)"
  by (simp_all add: mask_eq_exp_minus_1)

lemma port_byte:
  assumes "(x :: u32) < 32"
  shows "drop_bit 3 (ucast ((ucast (push_bit 3 x) :: u8) AND 0xF8)) = x"
proof -
  have b: "bit x n \<Longrightarrow> n < 5" for n using assms by (metis bit_take_bit_iff less_32_take_bit)
  show ?thesis unfolding tag_u8_masks by (rule bit_word_eqI) (auto simp: bit_simps dest: b)
qed

lemma port_of_tag:
  assumes "dp_index dp < 32" and "ds_index dp < 32" and "cmd AND 0x1f = 0"
  shows "sdsa_tag cmd dp = [0xDC, 0xDC, 0, 0, cmd, ucast (push_bit 3 (dp_index dp))]"
    and "sdsa_source_port (cmd AND 0x3F) (ucast (push_bit 3 (dp_index dp))) = dp_index dp"
    and "sdsa_source_port cmd (ucast (push_bit 3 (dp_index dp))) = dp_index dp"
proof -
  have "(cmd AND 0x3F) AND 0x1f = 0" using assms(3) by (simp add: and.assoc)
  with assms port_byte [OF assms(1)] small_index_no_high [OF assms(2)] show
    "sdsa_tag cmd dp = [0xDC, 0xDC, 0, 0, cmd, ucast (push_bit 3 (dp_index dp))]"
    "sdsa_source_port (cmd AND 0x3F) (ucast (push_bit 3 (dp_index dp))) = dp_index dp"
    "sdsa_source_port cmd (ucast (push_bit 3 (dp_index dp))) = dp_index dp"
    by (simp_all add: sdsa_tag_def sdsa_source_port_def)
qed

lemma tag_port_of_bytes:
  "tag_port (push_bit 8 (ucast h0) OR ucast h1) = ucast (sdsa_source_port h0 h1)" for h0 h1 :: u8
proof -
  have "sdsa_source_port h0 h1 = push_bit 5 (ucast (h0 AND 0x1f)) OR drop_bit 3 (ucast (h1 AND 0xF8))"
    unfolding sdsa_source_port_def
    by (rule disjunctive_add) (auto simp: bit_simps dest: bit_imp_le_length)
  then show ?thesis unfolding tag_port_def tag_u8_masks
    by (simp only:) (rule bit_word_eqI, auto simp: bit_simps dest: bit_imp_le_length)
qed

subsection \<open>Inserting the tag\<close>

text \<open>What \<open>skb_cow_head\<close> promises.\<close>

definition cow_ok :: "(sk_buff \<Rightarrow> nat \<Rightarrow> sk_buff option) \<Rightarrow> bool" where
  "cow_ok cow \<longleftrightarrow> (\<forall>skb n skb'. cow skb n = Some skb' \<longrightarrow>
     skb_bytes skb' = skb_bytes skb \<and> n \<le> skb_off skb' \<and> skb_off skb' \<le> length (skb_buf skb'))"

lemma sample_cow_ok: "cow_ok sample_cow"
  by (auto simp: cow_ok_def sample_cow_def skb_bytes_def)

text \<open>Opening a gap of \<open>n\<close> bytes after the addresses and writing \<open>hdr\<close> there.\<close>

lemma open_gap:
  assumes off: "n \<le> skb_off skb" "skb_off skb \<le> length (skb_buf skb)"
    and b: "skb_bytes skb = m @ old @ rest" "length m = 12" "length hdr = n + length old"
  shows "\<exists>skb1 buf buf'. skb_push skb n = Some skb1 \<and> skb1 = skb\<lparr>skb_off := skb_off skb - n\<rparr> \<and>
     memmove (skb_buf skb1) (skb_off skb1) (skb_off skb1 + n) 12 = Some buf \<and>
     mem_write buf (skb_off skb1 + 12) hdr = Some buf' \<and> drop (skb_off skb1) buf' = m @ hdr @ rest"
proof -
  let ?pre = "take (skb_off skb - n) (skb_buf skb)"
  let ?g = "take n (drop (skb_off skb - n) (skb_buf skb))"
  have buf: "skb_buf skb = ?pre @ ?g @ m @ old @ rest"
    using b(1) off unfolding skb_bytes_def
    by (metis append_take_drop_id drop_drop add.commute le_add_diff_inverse2)
  have len: "length ?pre = skb_off skb - n" "length ?g = n" using off by auto
  have mv: "memmove (skb_buf skb) (skb_off skb - n) (skb_off skb - n + n) 12 =
      Some (?pre @ m @ drop 12 (?g @ m) @ old @ rest)"
    by (subst buf, rule memmove_down [OF b(2) len(2)]) (simp_all only: len)
  have "mem_write ((?pre @ m) @ (drop 12 (?g @ m) @ old) @ rest) (skb_off skb - n + 12) hdr =
      Some ((?pre @ m) @ hdr @ rest)"
    by (rule mem_write_at) (simp_all only: length_append length_drop len b)
  then have wr: "mem_write (?pre @ m @ drop 12 (?g @ m) @ old @ rest) (skb_off skb - n + 12) hdr =
      Some (?pre @ m @ hdr @ rest)" by simp
  have "drop (skb_off skb - n) (?pre @ m @ hdr @ rest) = m @ hdr @ rest" using len(1) by simp
  with mv wr off show ?thesis by (auto simp: skb_push_def)
qed

lemma sdsa_xmit_frame:
  assumes cow: "cow_ok cow" "cow skb (if protocol skb = ETH_P_8021Q then DSA_HLEN else SDSA_HLEN) = Some skb0"
    and len: "14 \<le> length (skb_bytes skb)"
  shows "\<exists>skb'. sdsa_xmit cow dp skb = Some (Some skb') \<and>
     skb_bytes skb' = (if protocol skb = ETH_P_8021Q
       then take 12 (skb_bytes skb) @ sdsa_tag 0x60 dp @ drop 14 (skb_bytes skb)
       else take 12 (skb_bytes skb) @ sdsa_tag 0x40 dp @ [0, 0] @ drop 12 (skb_bytes skb))"
proof -
  let ?f = "skb_bytes skb"
  let ?n = "if protocol skb = ETH_P_8021Q then DSA_HLEN else SDSA_HLEN"
  have c: "skb_bytes skb0 = ?f" "?n \<le> skb_off skb0" "skb_off skb0 \<le> length (skb_buf skb0)"
    using cow unfolding cow_ok_def by blast+
  show ?thesis
  proof (cases "protocol skb = ETH_P_8021Q")
    case True
    have "skb_bytes skb0 = take 12 ?f @ take 2 (drop 12 ?f) @ drop 14 ?f"
      using c(1) by (metis append_take_drop_id drop_drop numeral_plus_numeral add_num_simps)
    from open_gap [OF _ c(3) this, of 4 "sdsa_tag 0x60 dp"] c(2) True len
    show ?thesis using cow(2) by (auto simp: sdsa_xmit_def skb_bytes_def sdsa_tag_def)
  next
    case False
    have "skb_bytes skb0 = take 12 ?f @ [] @ drop 12 ?f" using c(1) by simp
    from open_gap [OF _ c(3) this, of 8 "sdsa_tag 0x40 dp @ [0, 0]"] c(2) False len
    show ?thesis using cow(2) by (auto simp: sdsa_xmit_def skb_bytes_def sdsa_tag_def)
  qed
qed

lemma skb_copy_u16_at:
  "i + 2 \<le> length (skb_bytes skb) \<Longrightarrow> skb_copy_u16 skb i = Some (ntohs_at (drop i (skb_bytes skb)) 0)"
  by (simp add: skb_copy_u16_def mem_read_def ntohs_at_def)

subsection \<open>Removing the tag\<close>

lemma skb_bytes_app: "skb_buf skb = pre @ xs \<Longrightarrow> skb_off skb = length pre \<Longrightarrow> skb_bytes skb = xs"
  by (simp add: skb_bytes_def)

lemma sdsa_rcv_untagged:
  assumes buf: "skb_buf skb = pre @ m @ [e0, e1, z0, z1, h0, h1, a, b] @ rest" and off: "skb_off skb = length pre + 14"
    and m: "length m = 12" and rest: "2 \<le> length rest" and cmd: "h0 AND 0xc0 = 0" "h0 AND 0x20 = 0"
    and dev: "dsa_conduit_find_user ports 0 (sdsa_source_port h0 h1) = Some dev"
  shows "\<exists>skb'. sdsa_rcv K ports skb = Some (Some skb') \<and> skb_dev skb' = Some dev \<and> offload_fwd_mark skb' \<and>
     drop (skb_off skb' - 14) (skb_buf skb') = m @ rest"
proof -
  have sb: "skb_bytes skb = [z0, z1, h0, h1, a, b] @ rest"
    by (rule skb_bytes_app [of _ "pre @ m @ [e0, e1]"]) (simp_all add: buf off m)
  have sb': "skb_bytes (skb\<lparr>skb_dev := d\<rparr>) = [z0, z1, h0, h1, a, b] @ rest" for d
    using sb by (simp add: skb_bytes_def)
  have mv: "memmove (pre @ m @ [e0, e1, z0, z1, h0, h1, a, b] @ rest) (length pre + 8) (length pre) 12 =
      Some (pre @ take 8 (m @ [e0, e1, z0, z1, h0, h1, a, b]) @ m @ rest)"
    by (rule memmove_up) (simp_all add: m)
  have dr: "drop (length pre + 8) (pre @ take 8 (m @ [e0, e1, z0, z1, h0, h1, a, b]) @ m @ rest) = m @ rest"
    using m by simp
  show ?thesis
    using rest dev cmd mv dr m
    by (simp add: sdsa_rcv_def sb sb' Let_def skb_pull_rcsum_def skb_pull_def off buf add.commute)
qed

lemma sdsa_rcv_tagged:
  assumes buf: "skb_buf skb = pre @ m @ [e0, e1, z0, z1, h0, h1, a, b] @ rest" and off: "skb_off skb = length pre + 14"
    and m: "length m = 12" and rest: "2 \<le> length rest" and cmd: "h0 AND 0xc0 = 0" "h0 AND 0x20 \<noteq> 0"
    and dev: "dsa_conduit_find_user ports 0 (sdsa_source_port h0 h1) = Some dev"
  shows "\<exists>skb'. sdsa_rcv K ports skb = Some (Some skb') \<and> skb_dev skb' = Some dev \<and> offload_fwd_mark skb' \<and>
     drop (skb_off skb' - 14) (skb_buf skb') = m @ [0x81, 0x00, a, b] @ rest"
proof -
  have sb: "skb_bytes skb = [z0, z1, h0, h1, a, b] @ rest"
    by (rule skb_bytes_app [of _ "pre @ m @ [e0, e1]"]) (simp_all add: buf off m)
  have sb': "skb_bytes (skb\<lparr>skb_dev := d\<rparr>) = [z0, z1, h0, h1, a, b] @ rest" for d
    using sb by (simp add: skb_bytes_def)
  have "mem_write ((pre @ m @ [e0, e1, z0, z1]) @ [h0, h1, a, b] @ rest) (length pre + 16) [0x81, 0x00, a, b] =
      Some ((pre @ m @ [e0, e1, z0, z1]) @ [0x81, 0x00, a, b] @ rest)"
    by (rule mem_write_at) (simp_all add: m)
  then have wr: "mem_write (pre @ m @ [e0, e1, z0, z1, h0, h1, a, b] @ rest) (length pre + 16) [0x81, 0x00, a, b] =
      Some (pre @ m @ [e0, e1, z0, z1, 0x81, 0x00, a, b] @ rest)" by simp
  have "memmove (pre @ m @ [e0, e1, z0, z1] @ ([0x81, 0x00, a, b] @ rest)) (length pre + 4) (length pre) 12 =
      Some (pre @ take 4 (m @ [e0, e1, z0, z1]) @ m @ ([0x81, 0x00, a, b] @ rest))"
    by (rule memmove_up) (simp_all add: m)
  then have mv: "memmove (pre @ m @ [e0, e1, z0, z1, 0x81, 0x00, a, b] @ rest) (length pre + 4) (length pre) 12 =
      Some (pre @ take 4 (m @ [e0, e1, z0, z1]) @ m @ [0x81, 0x00, a, b] @ rest)" by simp
  have dr: "drop (length pre + 4) (pre @ take 4 (m @ [e0, e1, z0, z1]) @ m @ [0x81, 0x00, a, b] @ rest) =
      m @ [0x81, 0x00, a, b] @ rest"
    using m by simp
  show ?thesis
    using rest dev cmd wr mv dr
    by (simp add: sdsa_rcv_def sb sb' Let_def skb_pull_rcsum_def skb_pull_def off buf add.commute)
qed

lemma eth_type_trans_sdsa:
  assumes buf: "skb_buf r = pre @ m @ [0xDC, 0xDC] @ rest" and off: "skb_off r = length pre" and m: "length m = 12"
  shows "\<exists>r1. ax_eth_type_trans d addr bc True r = Some (ETH_P_XDSA, r1) \<and> skb_buf r1 = skb_buf r \<and>
     skb_off r1 = length pre + 14 \<and> skb_mac r1 = length pre"
proof -
  have "skb_bytes (r\<lparr>skb_dev := Some d, skb_mac := length pre\<rparr>) = m @ [0xDC, 0xDC] @ rest"
    using buf off by (simp add: skb_bytes_def)
  moreover have "ntohs_at (m @ [0xDC, 0xDC] @ rest) 12 = 0xDCDC" using m by (simp add: ntohs_at_def nth_append)
  ultimately show ?thesis
    using off m by (simp add: ax_eth_type_trans_def Let_def skb_pull_def)
qed

subsection \<open>Properties\<close>

text \<open>
  Transmission inserts the SDSA tag between the addresses and the rest of the frame and
  changes nothing else: an untagged frame gets the eight-byte FROM_CPU tag in front of its
  ethertype; in a VLAN-tagged frame the 802.1Q ethertype is replaced by the six tag bytes and
  the VLAN identifier stays in place. No byte outside the buffer is touched.
\<close>

theorem sdsa_xmit_inserts_tag:
  assumes "cow_ok cow" and "cow skb (if protocol skb = ETH_P_8021Q then DSA_HLEN else SDSA_HLEN) = Some skb0"
    and "14 \<le> length (skb_bytes skb)"
  shows "\<exists>skb'. sdsa_xmit cow dp skb = Some (Some skb') \<and>
     skb_bytes skb' = (if protocol skb = ETH_P_8021Q
       then take 12 (skb_bytes skb) @ sdsa_tag 0x60 dp @ drop 14 (skb_bytes skb)
       else take 12 (skb_bytes skb) @ sdsa_tag 0x40 dp @ [0, 0] @ drop 12 (skb_bytes skb))"
  using assms by (rule sdsa_xmit_frame)

theorem sdsa_xmit_inserts_tag_witness:
  "\<exists>skb'. sdsa_xmit sample_cow sample_port (sample_skb 0x0800 (replicate 12 7 @ [8, 0, 1, 2])) = Some (Some skb') \<and>
     skb_bytes skb' = replicate 12 7 @ [0xDC, 0xDC, 0, 0, 0x40, 24, 0, 0] @ [8, 0, 1, 2]"
  using sdsa_xmit_inserts_tag [OF sample_cow_ok, where skb = "sample_skb 0x0800 (replicate 12 7 @ [8, 0, 1, 2])" and dp = sample_port]
  by (simp add: sample_skb_def sample_cow_def skb_bytes_def sdsa_tag_def sample_port_def)

text \<open>
  C3. Tagging and untagging are inverse: a frame sent through a user port (numbers below 32),
  turned around by the switch (FROM_CPU to TO_CPU, same port) and received again is
  classified as DSA traffic, delivered to the device of the same port and is byte for byte
  the original frame, VLAN tag included. The checksum field and whatever lies in front of the
  frame in the receive buffer play no role.
\<close>

theorem sdsa_roundtrip:
  assumes cow: "cow_ok cow" "cow skb (if protocol skb = ETH_P_8021Q then DSA_HLEN else SDSA_HLEN) = Some skb0"
    and len: "18 \<le> length (skb_bytes skb)"
    and vlan: "protocol skb = ETH_P_8021Q \<Longrightarrow> skb_bytes skb ! 12 = 0x81 \<and> skb_bytes skb ! 13 = 0"
    and idx: "dp_index dp < 32" "ds_index dp < 32" and dev: "dsa_conduit_find_user ports 0 (dp_index dp) = Some dev"
    and sent: "sdsa_xmit cow dp skb = Some (Some skb')"
    and r: "skb_buf r = pre @ to_cpu (skb_bytes skb')" "skb_off r = length pre"
  shows "\<exists>r1 r2. ax_eth_type_trans d addr bc True r = Some (ETH_P_XDSA, r1) \<and> sdsa_rcv K ports r1 = Some (Some r2) \<and>
     skb_dev r2 = Some dev \<and> drop (skb_off r2 - 14) (skb_buf r2) = skb_bytes skb"
proof -
  let ?h1 = "ucast (push_bit 3 (dp_index dp)) :: u8"
  obtain m a0 a1 a2 a3 rest where f: "skb_bytes skb = m @ [a0, a1, a2, a3] @ rest" and m: "length m = 12" "2 \<le> length rest"
  proof -
    obtain m ys where "skb_bytes skb = m @ ys" "length m = 12" using split_at [of 12 "skb_bytes skb"] len by auto
    moreover obtain zs rest where "ys = zs @ rest" "length zs = 4" using split_at [of 4 ys] len calculation by auto
    moreover obtain a0 a1 a2 a3 where "zs = [a0, a1, a2, a3]"
      using \<open>length zs = 4\<close> by (auto simp: numeral_eq_Suc length_Suc_conv)
    ultimately show thesis using that len by auto
  qed
  from sdsa_xmit_frame [OF cow, of dp] sent len
  have out: "skb_bytes skb' = (if protocol skb = ETH_P_8021Q
       then take 12 (skb_bytes skb) @ sdsa_tag 0x60 dp @ drop 14 (skb_bytes skb)
       else take 12 (skb_bytes skb) @ sdsa_tag 0x40 dp @ [0, 0] @ drop 12 (skb_bytes skb))" by auto
  show ?thesis
  proof (cases "protocol skb = ETH_P_8021Q")
    case True
    have buf: "skb_buf r = pre @ m @ [0xDC, 0xDC, 0, 0, 0x20, ?h1, a2, a3] @ rest"
      using True out f m port_of_tag(1) [OF idx, of "0x60"] by (simp add: r(1) to_cpu_def nth_append list_update_append)
    from eth_type_trans_sdsa [of r pre m "[0, 0, 0x20, ?h1, a2, a3] @ rest" d addr bc] buf r(2) m(1) obtain r1 where
      r1: "ax_eth_type_trans d addr bc True r = Some (ETH_P_XDSA, r1)" "skb_buf r1 = skb_buf r" "skb_off r1 = length pre + 14"
      by auto
    have "dsa_conduit_find_user ports 0 (sdsa_source_port 0x20 ?h1) = Some dev"
      using dev port_of_tag(2) [OF idx, of "0x60"] by simp
    from sdsa_rcv_tagged [OF r1(2) [unfolded buf] r1(3) m _ _ this, of K] r1(1) True vlan f m show ?thesis
      by (auto simp: nth_append)
  next
    case False
    have buf: "skb_buf r = pre @ m @ [0xDC, 0xDC, 0, 0, 0, ?h1, 0, 0] @ [a0, a1, a2, a3] @ rest"
      using False out f m port_of_tag(1) [OF idx, of "0x40"] by (simp add: r(1) to_cpu_def nth_append list_update_append)
    from eth_type_trans_sdsa [of r pre m "[0, 0, 0, ?h1, 0, 0] @ [a0, a1, a2, a3] @ rest" d addr bc] buf r(2) m(1) obtain r1 where
      r1: "ax_eth_type_trans d addr bc True r = Some (ETH_P_XDSA, r1)" "skb_buf r1 = skb_buf r" "skb_off r1 = length pre + 14"
      by auto
    have "dsa_conduit_find_user ports 0 (sdsa_source_port 0 ?h1) = Some dev"
      using dev port_of_tag(2) [OF idx, of "0x40"] by simp
    from sdsa_rcv_untagged [OF r1(2) [unfolded buf] r1(3) m(1) _ _ _ this, of K] r1(1) f show ?thesis by auto
  qed
qed

theorem sdsa_roundtrip_witness:
  "\<exists>skb' r1 r2. sdsa_xmit sample_cow sample_port (sample_skb 0x8100 (replicate 12 7 @ [0x81, 0, 0, 5, 8, 0, 1, 2])) = Some (Some skb') \<and>
     ax_eth_type_trans 1 (replicate 6 7) (replicate 6 255) True (sample_skb 0 (to_cpu (skb_bytes skb'))) = Some (ETH_P_XDSA, r1) \<and>
     sdsa_rcv sample_csum [sample_port] r1 = Some (Some r2) \<and> skb_dev r2 = Some 42 \<and>
     drop (skb_off r2 - 14) (skb_buf r2) = replicate 12 7 @ [0x81, 0, 0, 5, 8, 0, 1, 2]"
proof -
  let ?s = "sample_skb 0x8100 (replicate 12 7 @ [0x81, 0, 0, 5, 8, 0, 1, 2])"
  have b: "skb_bytes ?s = replicate 12 7 @ [0x81, 0, 0, 5, 8, 0, 1, 2]" and p: "protocol ?s = 0x8100"
    by (simp_all add: sample_skb_def skb_bytes_def)
  have c: "sample_cow ?s (if protocol ?s = ETH_P_8021Q then DSA_HLEN else SDSA_HLEN) =
      Some (?s\<lparr>skb_buf := replicate 4 0 @ skb_bytes ?s, skb_off := 4\<rparr>)"
    by (simp add: sample_cow_def p)
  from sdsa_xmit_frame [OF sample_cow_ok c, of sample_port] obtain skb' where
    x: "sdsa_xmit sample_cow sample_port ?s = Some (Some skb')" by (auto simp: b)
  have "\<exists>r1 r2. ax_eth_type_trans 1 (replicate 6 7) (replicate 6 255) True (sample_skb 0 (to_cpu (skb_bytes skb'))) = Some (ETH_P_XDSA, r1) \<and>
     sdsa_rcv sample_csum [sample_port] r1 = Some (Some r2) \<and> skb_dev r2 = Some 42 \<and> drop (skb_off r2 - 14) (skb_buf r2) = skb_bytes ?s"
    by (rule sdsa_roundtrip [OF sample_cow_ok c _ _ _ _ _ x, where pre = "[]"])
      (simp_all add: b nth_append sample_port_def dsa_conduit_find_user_def, simp_all add: sample_skb_def)
  then show ?thesis using x b by auto
qed

text \<open>
  A frame from the conduit is dropped exactly when it is shorter than the tag, is not a
  TO_CPU frame, or names a source port (ten bits, five from each tag byte) for which switch
  0 has no user device; every other frame that arrives with its Ethernet header in front is
  delivered to that device, and no byte outside the buffer is read or written.
\<close>

theorem sdsa_rcv_dispatch:
  assumes hdr: "14 \<le> skb_off skb" "skb_off skb \<le> length (skb_buf skb)" and b: "skb_bytes skb = [z0, z1, h0, h1] @ rest"
  shows "(sdsa_rcv K ports skb = Some None \<longleftrightarrow>
       length rest < 4 \<or> h0 AND 0xc0 \<noteq> 0 \<or> dsa_conduit_find_user ports 0 (sdsa_source_port h0 h1) = None) \<and>
     (\<exists>res. sdsa_rcv K ports skb = Some res \<and>
        (\<forall>skb'. res = Some skb' \<longrightarrow> skb_dev skb' = dsa_conduit_find_user ports 0 (sdsa_source_port h0 h1)))"
proof (cases "length rest < 4 \<or> h0 AND 0xc0 \<noteq> 0 \<or> dsa_conduit_find_user ports 0 (sdsa_source_port h0 h1) = None")
  case True
  then show ?thesis by (auto simp: sdsa_rcv_def b Let_def)
next
  case False
  then obtain dev where dev: "dsa_conduit_find_user ports 0 (sdsa_source_port h0 h1) = Some dev" and cmd: "h0 AND 0xc0 = 0"
    and l: "4 \<le> length rest" by auto
  obtain a c e f rest' where rest: "rest = [a, c] @ [e, f] @ rest'"
    using l by (auto simp: numeral_eq_Suc Suc_le_length_iff)
  let ?k = "skb_off skb - 14"
  define hd14 where "hd14 = take 14 (drop ?k (skb_buf skb))"
  have "length hd14 = 14" using hdr by (simp add: hd14_def)
  then obtain m es where h14: "hd14 = m @ es" "length m = 12" "length es = 2" using split_at [of 12 hd14] by auto
  then obtain e0 e1 where es: "es = [e0, e1]" by (auto simp: numeral_2_eq_2 length_Suc_conv)
  have "skb_buf skb = take ?k (skb_buf skb) @ hd14 @ skb_bytes skb"
    using hdr unfolding hd14_def skb_bytes_def
    by (metis append_take_drop_id drop_drop add.commute le_add_diff_inverse2)
  then have buf: "skb_buf skb = take ?k (skb_buf skb) @ m @ [e0, e1, z0, z1, h0, h1, a, c] @ ([e, f] @ rest')"
    using h14(1) es b rest by simp
  have off: "skb_off skb = length (take ?k (skb_buf skb)) + 14" using hdr by simp
  from sdsa_rcv_untagged [OF buf off h14(2) _ cmd _ dev, of K] sdsa_rcv_tagged [OF buf off h14(2) _ cmd _ dev, of K]
  show ?thesis using False dev by (cases "h0 AND 0x20 = 0") auto
qed

theorem sdsa_rcv_dispatch_witness:
  "sdsa_rcv sample_csum [sample_port] ((sample_skb 0 (replicate 14 7 @ [0, 0, 0, 24, 0, 0, 8, 0]))\<lparr>skb_off := 14\<rparr>) \<noteq> Some None \<and>
   sdsa_rcv sample_csum [sample_port] ((sample_skb 0 (replicate 14 7 @ [0, 0, 0, 32, 0, 0, 8, 0]))\<lparr>skb_off := 14\<rparr>) = Some None"
  using sdsa_rcv_dispatch [where skb = "(sample_skb 0 (replicate 14 7 @ [0, 0, 0, 24, 0, 0, 8, 0]))\<lparr>skb_off := 14\<rparr>"
      and rest = "[0, 0, 8, 0]" and K = sample_csum and ports = "[sample_port]"]
    sdsa_rcv_dispatch [where skb = "(sample_skb 0 (replicate 14 7 @ [0, 0, 0, 32, 0, 0, 8, 0]))\<lparr>skb_off := 14\<rparr>"
      and rest = "[0, 0, 8, 0]" and K = sample_csum and ports = "[sample_port]"]
  by (auto simp: sample_skb_def skb_bytes_def sample_port_def dsa_conduit_find_user_def sdsa_source_port_def)

text \<open>
  C18. The port a PTP event frame was sent through is the port its timestamp is looked up for:
  after tagging, the transmit check of a frame that asks for a timestamp recognises the
  ethertype 0x88F7 behind the tag and hands over the PTP header's offset and the index of the
  user port, so that the lookup key has that port and that header.
\<close>

theorem tx_check_finds_port:
  assumes cow: "cow_ok cow" "cow skb SDSA_HLEN = Some skb0" and len: "14 + 34 \<le> length (skb_bytes skb)"
    and ptp: "protocol skb \<noteq> ETH_P_8021Q" "ntohs_at (skb_bytes skb) 12 = ETH_P_1588" "skb_bytes skb ! 14 AND 0xF \<le> 7"
    and idx: "dp_index dp < 32" "ds_index dp < 32" and sent: "sdsa_xmit cow dp skb = Some (Some skb')"
  shows "\<exists>msg. tx_classify True skb' = Some (Some msg) \<and> port_tag msg = ucast (dp_index dp) \<and>
     copy_ptp_header msg = Some (take 34 (drop 14 (skb_bytes skb)))"
proof -
  let ?f = "skb_bytes skb"
  let ?h1 = "ucast (push_bit 3 (dp_index dp)) :: u8"
  have c: "cow skb (if protocol skb = ETH_P_8021Q then DSA_HLEN else SDSA_HLEN) = Some skb0" using cow(2) ptp(1) by simp
  from sdsa_xmit_frame [OF cow(1) c, of dp] sent ptp(1) len
  have out: "skb_bytes skb' = take 12 ?f @ [0xDC, 0xDC, 0, 0, 0x40, ?h1, 0, 0] @ drop 12 ?f"
    using port_of_tag(1) [OF idx, of "0x40"] by auto
  have l': "length (skb_bytes skb') = length ?f + 8" using len by (simp add: out)
  have n: "skb_bytes skb' ! (i + 20) = ?f ! (i + 12)" if "i + 12 < length ?f" for i
    using len that by (simp add: out nth_append add.commute)
  have et: "ntohs_at (drop 20 (skb_bytes skb')) 0 = ETH_P_1588"
    using n [of 0] n [of 1] len ptp(2) by (simp add: ntohs_at_def out)
  have tag: "ntohs_at (drop 12 (skb_bytes skb')) 0 = AX_SDSA" "ntohs_at (drop 16 (skb_bytes skb')) 0 = push_bit 8 (ucast (0x40 :: u8)) OR ucast ?h1"
    using len by (simp_all add: out ntohs_at_def nth_append)
  have mt: "skb_copy_u8 skb' 22 = Some (?f ! 14)"
    using n [of 2] len by (simp add: skb_copy_u8_def mem_read_def out nth_append)
  have "tx_classify True skb' = Some (Some (mk_msg skb' 22 (tag_port (push_bit 8 (ucast (0x40 :: u8)) OR ucast ?h1))))"
    using len ptp(3) by (simp add: tx_classify_def skb_copy_u16_at l' et tag mt)
  moreover have "tag_port (push_bit 8 (ucast (0x40 :: u8)) OR ucast ?h1) = ucast (dp_index dp)"
    using tag_port_of_bytes [of "0x40" ?h1] port_of_tag(3) [OF idx, of "0x40"] by simp
  moreover have "drop 22 (skb_bytes skb') = drop 14 ?f" using len by (simp add: out)
  ultimately show ?thesis using len by (simp add: mk_msg_def copy_ptp_header_def out)
qed

theorem tx_check_finds_port_witness:
  "\<exists>skb' msg. sdsa_xmit sample_cow sample_port (sample_skb 0x88F7 (replicate 12 7 @ 0x88 # 0xF7 # replicate 34 2)) = Some (Some skb') \<and>
     tx_classify True skb' = Some (Some msg) \<and> port_tag msg = 3 \<and> copy_ptp_header msg = Some (replicate 34 2)"
proof -
  let ?s = "sample_skb 0x88F7 (replicate 12 7 @ 0x88 # 0xF7 # replicate 34 2)"
  have b: "skb_bytes ?s = replicate 12 7 @ 0x88 # 0xF7 # replicate 34 2" and p: "protocol ?s = 0x88F7"
    by (simp_all add: sample_skb_def skb_bytes_def)
  have c: "sample_cow ?s SDSA_HLEN = Some (?s\<lparr>skb_buf := replicate 8 0 @ skb_bytes ?s, skb_off := 8\<rparr>)"
    by (simp add: sample_cow_def)
  from sdsa_xmit_frame [OF sample_cow_ok, of ?s _ sample_port] c obtain skb' where
    x: "sdsa_xmit sample_cow sample_port ?s = Some (Some skb')" by (auto simp: b p)
  have "\<exists>msg. tx_classify True skb' = Some (Some msg) \<and> port_tag msg = ucast (dp_index sample_port) \<and>
     copy_ptp_header msg = Some (take 34 (drop 14 (skb_bytes ?s)))"
    by (rule tx_check_finds_port [OF sample_cow_ok c _ _ _ _ _ _ x])
      (simp_all add: b p ntohs_at_def nth_append sample_port_def)
  then show ?thesis using x b by (auto simp: sample_port_def)
qed

end
