(* ===== verification/Xdma_Engine.thy ===== *)
theory Xdma_Engine
  imports Ax_Regs
begin

unbundle bit_operations_syntax

section \<open>SG DMA engines and descriptor lists\<close>

text \<open>
  The scatter-gather DMA engines of \<open>libxdma.c\<close> (structures in \<open>libxdma.h\<close>): descriptor lists
  and their initialisation, starting and stopping an engine, its set-up and tear-down, and the
  probing of the engines of a device.

  \<open>transfer->desc_virt\<close> is the descriptor memory of the engine; after \<open>xdma_desc_setup\<close> it is
  reached only through the transfer. The memory allocator is a parameter. A failed \<open>BUG_ON\<close>
  and an access outside an array are \<open>None\<close>. The model follows the compiled configuration:
  one transmit queue (\<open>AX_MQ\<close> off), NAPI on, copying receive and transmit.
\<close>

subsection \<open>Data\<close>

datatype dma_data_direction = DMA_TO_DEVICE | DMA_FROM_DEVICE

datatype transfer_state = TRANSFER_STATE_NEW | TRANSFER_STATE_SUBMITTED | TRANSFER_STATE_COMPLETED
  | TRANSFER_STATE_FAILED | TRANSFER_STATE_ABORTED

abbreviation (input) ENGINE_SHUTDOWN_NONE :: u32 where "ENGINE_SHUTDOWN_NONE \<equiv> 0"
abbreviation (input) ENGINE_SHUTDOWN_REQUEST :: u32 where "ENGINE_SHUTDOWN_REQUEST \<equiv> 1"
abbreviation (input) ENGINE_SHUTDOWN_IDLE :: u32 where "ENGINE_SHUTDOWN_IDLE \<equiv> 2"

record xdma_desc =
  control :: u32
  bytes :: u32
  src_addr_lo :: u32
  src_addr_hi :: u32
  dst_addr_lo :: u32
  dst_addr_hi :: u32
  next_lo :: u32
  next_hi :: u32

record xdma_result =
  res_status :: u32
  res_length :: u32

record xdma_transfer =
  desc_virt :: "xdma_desc list"
  desc_bus :: u64
  desc_num :: int
  tdir :: dma_data_direction
  tstate :: transfer_state
  cyclic :: bool
  list_desc :: "u64 list"
  current_list :: int

text \<open>\<open>ebar\<close> and \<open>regs\<close> are the BAR and the offset of \<open>engine->regs\<close>; \<open>sgdma_regs\<close> that of the SG registers.\<close>

record xdma_engine =
  magic :: u32
  ebar :: int
  regs :: int
  sgdma_regs :: int
  bypass_offset :: int
  shutdown :: u32
  dir :: dma_data_direction
  running :: bool
  streaming :: bool
  addr_align :: u32
  len_granularity :: u32
  addr_bits :: u32
  channel :: int
  desc_dequeued :: int
  status :: u32
  interrupt_enable_mask_value :: u32
  transfer :: "xdma_transfer option"
  cyclic_result :: "xdma_result list option"
  cyclic_result_bus :: u64
  rx_buff :: "u8 list list option"
  rx_buff_bus :: u64
  tx_buff :: "u8 list list option"
  tx_buff_bus :: u64
  irq_bitmask :: u32
  edesc_bus :: u64
  edesc :: "xdma_desc list option"

text \<open>Register offsets: \<open>struct engine_regs\<close>, \<open>struct engine_sgdma_regs\<close>, \<open>struct interrupt_regs\<close>.\<close>

abbreviation (input) ER_identifier :: int where "ER_identifier \<equiv> 0x00"
abbreviation (input) ER_control :: int where "ER_control \<equiv> 0x04"
abbreviation (input) ER_control_w1c :: int where "ER_control_w1c \<equiv> 0x0C"
abbreviation (input) ER_status :: int where "ER_status \<equiv> 0x40"
abbreviation (input) ER_completed_desc_count :: int where "ER_completed_desc_count \<equiv> 0x48"
abbreviation (input) ER_alignments :: int where "ER_alignments \<equiv> 0x4C"
abbreviation (input) ER_interrupt_enable_mask :: int where "ER_interrupt_enable_mask \<equiv> 0x90"
abbreviation (input) ER_interrupt_enable_mask_w1s :: int where "ER_interrupt_enable_mask_w1s \<equiv> 0x94"
abbreviation (input) ER_interrupt_enable_mask_w1c :: int where "ER_interrupt_enable_mask_w1c \<equiv> 0x98"
abbreviation (input) SG_first_desc_lo :: int where "SG_first_desc_lo \<equiv> 0x80"
abbreviation (input) SG_first_desc_hi :: int where "SG_first_desc_hi \<equiv> 0x84"
abbreviation (input) SG_first_desc_adjacent :: int where "SG_first_desc_adjacent \<equiv> 0x88"
abbreviation (input) IR_user_int_enable_w1s :: int where "IR_user_int_enable_w1s \<equiv> 0x2008"
abbreviation (input) IR_user_int_enable_w1c :: int where "IR_user_int_enable_w1c \<equiv> 0x200C"
abbreviation (input) IR_channel_int_enable_w1s :: int where "IR_channel_int_enable_w1s \<equiv> 0x2014"
abbreviation (input) IR_channel_int_enable_w1c :: int where "IR_channel_int_enable_w1c \<equiv> 0x2018"
abbreviation (input) IR_user_int_request :: int where "IR_user_int_request \<equiv> 0x2040"
abbreviation (input) IR_channel_int_request :: int where "IR_channel_int_request \<equiv> 0x2044"
abbreviation (input) IR_user_int_pending :: int where "IR_user_int_pending \<equiv> 0x2048"
abbreviation (input) IR_channel_int_pending :: int where "IR_channel_int_pending \<equiv> 0x204C"

abbreviation (input) DESC_SIZE :: u64 where "DESC_SIZE \<equiv> 32"

definition PCI_DMA_L :: "u64 \<Rightarrow> u32" where
  "PCI_DMA_L addr = ucast (addr AND 0xffffffff)"

definition PCI_DMA_H :: "u64 \<Rightarrow> u32" where
  "PCI_DMA_H addr = ucast (drop_bit 16 (drop_bit 16 addr))"

subsection \<open>Register access of an engine\<close>

definition engine_status_read :: "device \<Rightarrow> xdma_engine \<Rightarrow> bool \<Rightarrow> io_log \<Rightarrow> u32 \<times> xdma_engine \<times> io_log" where
  "engine_status_read hw e clear l =
     (let (v, l) = ioread32 hw (ebar e, regs e + ER_status) l;
          e = e\<lparr>status := v\<rparr>;
          l = (if clear then iowrite32 v (ebar e, regs e + ER_status) l else l)
      in (v, e, l))"

definition xdma_engine_stop :: "xdma_engine \<Rightarrow> io_log \<Rightarrow> xdma_engine \<times> io_log" where
  "xdma_engine_stop e l =
     (let w = 0;
          w = w OR XDMA_CTRL_IE_DESC_ALIGN_MISMATCH;
          w = w OR XDMA_CTRL_IE_MAGIC_STOPPED;
          w = w OR XDMA_CTRL_IE_READ_ERROR;
          w = w OR XDMA_CTRL_IE_DESC_ERROR;
          w = w OR XDMA_CTRL_IE_DESC_STOPPED;
          w = w OR XDMA_CTRL_IE_DESC_COMPLETED;
          l = iowrite32 w (ebar e, regs e + ER_control) l
      in (e\<lparr>running := False\<rparr>, l))"

definition engine_start_mode_config :: "device \<Rightarrow> xdma_engine \<Rightarrow> io_log \<Rightarrow> io_log" where
  "engine_start_mode_config hw e l =
     (let w = XDMA_CTRL_IE_DESC_STOPPED;
          w = w OR XDMA_CTRL_IE_DESC_COMPLETED;
          w = w OR XDMA_CTRL_IE_DESC_ALIGN_MISMATCH;
          w = w OR XDMA_CTRL_IE_READ_ERROR;
          w = w OR XDMA_CTRL_IE_DESC_ERROR;
          l = iowrite32 w (ebar e, regs e + ER_interrupt_enable_mask) l;
          w = XDMA_CTRL_RUN_STOP;
          w = w OR XDMA_CTRL_IE_READ_ERROR;
          w = w OR XDMA_CTRL_IE_DESC_ERROR;
          w = w OR XDMA_CTRL_IE_DESC_ALIGN_MISMATCH;
          w = w OR XDMA_CTRL_IE_DESC_STOPPED;
          w = w OR XDMA_CTRL_IE_DESC_COMPLETED;
          l = iowrite32 w (ebar e, regs e + ER_control) l;
          (_, l) = ioread32 hw (ebar e, regs e + ER_status) l
      in l)"

definition engine_start :: "device \<Rightarrow> xdma_engine \<Rightarrow> io_log \<Rightarrow> (xdma_engine \<times> io_log) option" where
  "engine_start hw e l =
     (case transfer e of
        None \<Rightarrow> Some (e, l)
      | Some t \<Rightarrow>
          if running e then None
          else
            (let e = e\<lparr>shutdown := ENGINE_SHUTDOWN_NONE, desc_dequeued := 0\<rparr>
             in case arr_get (list_desc t) (current_list t) of
                  None \<Rightarrow> None
                | Some first \<Rightarrow>
                    (let l = iowrite32 (PCI_DMA_L first) (ebar e, sgdma_regs e + SG_first_desc_lo) l;
                         l = iowrite32 (PCI_DMA_H first) (ebar e, sgdma_regs e + SG_first_desc_hi) l;
                         l = iowrite32 0 (ebar e, sgdma_regs e + SG_first_desc_adjacent) l;
                         l = engine_start_mode_config hw e l
                     in Some (e\<lparr>running := True\<rparr>, l))))"

subsection \<open>Descriptor lists\<close>

text \<open>
  The body of the loop of \<open>transfer_desc_init\<close> for descriptor \<open>i\<close>; the state is the descriptor
  memory, \<open>desc_bus\<close>, \<open>list_desc\<close> and \<open>list_count\<close>.
\<close>

type_synonym desc_init_state = "xdma_desc list \<times> u64 \<times> u64 list \<times> int"

definition desc_init_step :: "int \<Rightarrow> desc_init_state \<Rightarrow> nat \<Rightarrow> desc_init_state option" where
  "desc_init_step temp_count s i =
     (let (dv, bus, ld, lc) = s;
          desc_magic = DESC_MAGIC OR XDMA_DESC_COMPLETED OR XDMA_DESC_EOP;
          bus = bus + DESC_SIZE
      in case arr_get dv (int i) of
           None \<Rightarrow> None
         | Some d \<Rightarrow>
             if int i mod temp_count = temp_count - 1 then
               Option.bind (arr_set dv (int i)
                   (d\<lparr>next_lo := 0, next_hi := 0, bytes := 0, control := desc_magic OR XDMA_DESC_STOPPED\<rparr>)) (\<lambda>dv.
                 if lc < DESC_LIST_NUM then map_option (\<lambda>ld. (dv, bus, ld, lc + 1)) (arr_set ld lc bus)
                 else Some (dv, bus, ld, lc))
             else
               map_option (\<lambda>dv. (dv, bus, ld, lc)) (arr_set dv (int i)
                   (d\<lparr>next_lo := PCI_DMA_L bus, next_hi := PCI_DMA_H bus, bytes := 0, control := desc_magic\<rparr>)))"

definition transfer_desc_init :: "xdma_transfer \<Rightarrow> int \<Rightarrow> xdma_transfer option" where
  "transfer_desc_init t count =
     (let temp_count = count div DESC_LIST_NUM in
      if count > XDMA_TRANSFER_MAX_DESC then None
      else
        (let temp_count = (if temp_count = 0 then 1 else temp_count)
         in Option.bind (arr_set (list_desc t) 0 (desc_bus t)) (\<lambda>ld.
              map_option (\<lambda>(dv, bus, ld, lc). t\<lparr>desc_virt := dv, list_desc := ld\<rparr>)
                (fold_opt (desc_init_step temp_count) (desc_virt t, desc_bus t, ld, 1) [0..<nat count]))))"

text \<open>\<open>transfer_queue\<close>: \<open>offline\<close> is the device's offline flag.\<close>

definition transfer_queue :: "bool \<Rightarrow> xdma_engine \<Rightarrow> xdma_transfer \<Rightarrow> (int \<times> xdma_engine) option" where
  "transfer_queue offline e t =
     (if desc_num t = 0 then None
      else if offline then Some (EBUSY_NEG, e)
      else if shutdown e AND ENGINE_SHUTDOWN_REQUEST \<noteq> 0 then Some (EBUSY_NEG, e)
      else Some (0, e\<lparr>transfer := Some (t\<lparr>tstate := TRANSFER_STATE_SUBMITTED\<rparr>)\<rparr>))"

text \<open>
  \<open>xdma_desc_setup\<close>: with flag 0 a zeroed transfer is allocated (\<open>kzalloc\<close>), otherwise the
  engine's own is set up again. \<open>dma_alloc\<close> gives descriptor memory and its bus address.
\<close>

definition zero_transfer :: xdma_transfer where
  "zero_transfer = \<lparr>desc_virt = [], desc_bus = 0, desc_num = 0, tdir = DMA_TO_DEVICE, tstate = TRANSFER_STATE_NEW,
     cyclic = False, list_desc = replicate (nat DESC_LIST_NUM) 0, current_list = 0\<rparr>"

definition xdma_desc_setup :: "xdma_transfer option \<Rightarrow> (int \<Rightarrow> (xdma_desc list \<times> u64) option) \<Rightarrow> bool \<Rightarrow> xdma_engine \<Rightarrow>
    int \<Rightarrow> (int \<times> xdma_engine) option" where
  "xdma_desc_setup kzalloc dma_alloc offline e xdma_desc_flag =
     (case (if xdma_desc_flag = 0 then kzalloc else transfer e) of
        None \<Rightarrow> None
      | Some t \<Rightarrow>
          (let t = t\<lparr>tdir := dir e\<rparr>;
               num_desc_in_a_loop = (if tdir t = DMA_TO_DEVICE then TX_DESC_NUM else RX_DESC_NUM);
               t = t\<lparr>desc_num := num_desc_in_a_loop\<rparr>
           in case (case edesc e of Some d \<Rightarrow> Some (d, edesc_bus e) | None \<Rightarrow> dma_alloc num_desc_in_a_loop) of
                None \<Rightarrow> None
              | Some (d, bus) \<Rightarrow>
                  (let e = e\<lparr>edesc := Some d, edesc_bus := bus\<rparr>;
                       t = t\<lparr>desc_virt := d, desc_bus := bus, current_list := 0\<rparr>
                   in Option.bind (transfer_desc_init t (desc_num t)) (\<lambda>t.
                        map_option (\<lambda>(rv, e). (0, e)) (transfer_queue offline e (t\<lparr>cyclic := True\<rparr>))))))"

subsection \<open>Setting up and removing engines\<close>

definition engine_alignments :: "device \<Rightarrow> xdma_engine \<Rightarrow> io_log \<Rightarrow> xdma_engine \<times> io_log" where
  "engine_alignments hw e l =
     (let (w, l) = ioread32 hw (ebar e, regs e + ER_alignments) l;
          align_bytes = drop_bit 16 (w AND 0x00ff0000);
          granularity_bytes = drop_bit 8 (w AND 0x0000ff00);
          address_bits = w AND 0x000000ff
      in if w \<noteq> 0
         then (e\<lparr>addr_align := align_bytes, len_granularity := granularity_bytes, addr_bits := address_bits\<rparr>, l)
         else (e\<lparr>addr_align := 1, len_granularity := 1, addr_bits := 64\<rparr>, l))"

definition engine_free_resource :: "xdma_engine \<Rightarrow> xdma_engine" where
  "engine_free_resource e = e\<lparr>edesc := None, cyclic_result := None, rx_buff := None, tx_buff := None\<rparr>"

text \<open>The credit mode writes are disabled: \<open>enable_credit_mp\<close> is set to 0 before they are tested.\<close>

definition engine_init_regs :: "device \<Rightarrow> xdma_engine \<Rightarrow> io_log \<Rightarrow> int \<times> xdma_engine \<times> io_log" where
  "engine_init_regs hw e l =
     (let l = iowrite32 XDMA_CTRL_NON_INCR_ADDR (ebar e, regs e + ER_control_w1c) l;
          (e, l) = engine_alignments hw e l;
          reg_value = XDMA_CTRL_IE_DESC_ALIGN_MISMATCH;
          reg_value = reg_value OR XDMA_CTRL_IE_MAGIC_STOPPED;
          reg_value = reg_value OR XDMA_CTRL_IE_READ_ERROR;
          reg_value = reg_value OR XDMA_CTRL_IE_DESC_ERROR;
          reg_value = reg_value OR XDMA_CTRL_IE_DESC_STOPPED;
          reg_value = reg_value OR XDMA_CTRL_IE_DESC_COMPLETED;
          reg_value = (if streaming e \<and> dir e = DMA_FROM_DEVICE then reg_value OR XDMA_CTRL_IE_IDLE_STOPPED else reg_value);
          l = iowrite32 reg_value (ebar e, regs e + ER_interrupt_enable_mask) l
      in (0, e\<lparr>interrupt_enable_mask_value := reg_value\<rparr>, l))"

text \<open>The memory an engine gets: descriptors, result ring, receive and transmit buffers, with their bus addresses.\<close>

record engine_mem =
  m_desc :: "(xdma_desc list \<times> u64) option"
  m_result :: "(xdma_result list \<times> u64) option"
  m_rx :: "(u8 list list \<times> u64) option"
  m_tx :: "(u8 list list \<times> u64) option"

definition engine_alloc_resource :: "engine_mem \<Rightarrow> xdma_engine \<Rightarrow> int \<times> xdma_engine" where
  "engine_alloc_resource M e =
     (case m_desc M of
        None \<Rightarrow> (ENOMEM_NEG, engine_free_resource (e\<lparr>edesc := None\<rparr>))
      | Some (d, dbus) \<Rightarrow>
          (let e = e\<lparr>edesc := Some d, edesc_bus := dbus\<rparr>;
               need = streaming e \<and> dir e = DMA_FROM_DEVICE
           in if need \<and> m_result M = None then (ENOMEM_NEG, engine_free_resource e)
              else
                (let e = (case m_result M of
                            Some (r, rbus) \<Rightarrow> if need then e\<lparr>cyclic_result := Some r, cyclic_result_bus := rbus\<rparr> else e
                          | None \<Rightarrow> e)
                 in case m_rx M of
                      None \<Rightarrow> (ENOMEM_NEG, engine_free_resource e)
                    | Some (rx, rxbus) \<Rightarrow>
                        (let e = e\<lparr>rx_buff := Some rx, rx_buff_bus := rxbus\<rparr>
                         in case m_tx M of
                              None \<Rightarrow> (ENOMEM_NEG, engine_free_resource e)
                            | Some (tx, txbus) \<Rightarrow> (0, e\<lparr>tx_buff := Some tx, tx_buff_bus := txbus\<rparr>)))))"

subsection \<open>What the hardware does with a list\<close>

text \<open>
  The SG engine fetches the descriptor at an address, processes it, and goes on with its
  \<open>next\<close> pointer unless the descriptor has the stop bit. The result lists the indices of the
  descriptors processed; \<open>base\<close> is the bus address of the descriptor memory. Fuel bounds the
  number of fetches.
\<close>

definition desc_next :: "xdma_desc \<Rightarrow> u64" where
  "desc_next d = join64 (next_hi d) (next_lo d)"

definition desc_index :: "u64 \<Rightarrow> u64 \<Rightarrow> nat" where
  "desc_index base addr = unat (addr - base) div 32"

fun hw_chain :: "nat \<Rightarrow> u64 \<Rightarrow> xdma_desc list \<Rightarrow> u64 \<Rightarrow> nat list" where
  "hw_chain 0 base dv addr = []"
| "hw_chain (Suc fuel) base dv addr =
     (let i = desc_index base addr
      in if length dv \<le> i then []
         else i # (if control (dv ! i) AND XDMA_DESC_STOPPED \<noteq> 0 then []
                   else hw_chain fuel base dv (desc_next (dv ! i))))"

text \<open>The address of descriptor \<open>i\<close>, and a list of \<open>h\<close> linked descriptors from \<open>s\<close> on.\<close>

definition desc_addr :: "u64 \<Rightarrow> nat \<Rightarrow> u64" where
  "desc_addr base i = base + of_nat (32 * i)"

definition linked :: "u64 \<Rightarrow> xdma_desc list \<Rightarrow> nat \<Rightarrow> nat \<Rightarrow> bool" where
  "linked base dv s h \<longleftrightarrow> s + h \<le> length dv \<and> (\<forall>i. s \<le> i \<and> i + 1 < s + h \<longrightarrow> desc_next (dv ! i) = desc_addr base (i + 1))"

definition sample_desc :: xdma_desc where
  "sample_desc = \<lparr>control = 0, bytes = 0, src_addr_lo = 0, src_addr_hi = 0, dst_addr_lo = 0, dst_addr_hi = 0, next_lo = 0, next_hi = 0\<rparr>"

definition sample_transfer :: xdma_transfer where
  "sample_transfer = zero_transfer\<lparr>desc_virt := replicate 4 sample_desc, desc_bus := 0x1000, desc_num := 4\<rparr>"

subsection \<open>Bus addresses\<close>

lemma PCI_DMA_join [simp]: "join64 (PCI_DMA_H a) (PCI_DMA_L a) = a"
proof -
  have "PCI_DMA_H a = hi32 a" unfolding PCI_DMA_H_def hi32_def u64_mask_hi
    by (rule bit_word_eqI) (auto simp: bit_simps)
  moreover have "PCI_DMA_L a = lo32 a" by (simp add: PCI_DMA_L_def lo32_def)
  ultimately show ?thesis by simp
qed

lemma desc_index_addr: "i < 4096 \<Longrightarrow> desc_index base (desc_addr base i) = i"
proof -
  assume "i < 4096"
  then have "unat (of_nat (32 * i) :: u64) = 32 * i" by (subst unat_of_nat) simp
  then show ?thesis by (simp add: desc_index_def desc_addr_def)
qed

lemma desc_addr_0 [simp]: "desc_addr base 0 = base"
  by (simp add: desc_addr_def)

lemma desc_addr_Suc: "desc_addr base i + DESC_SIZE = desc_addr base (Suc i)"
  by (simp add: desc_addr_def)

subsection \<open>Running a list\<close>

lemma hw_chain_from:
  assumes lk: "linked base dv s h" and sz: "length dv \<le> 2048"
    and stop: "n < h" "control (dv ! (s + n)) AND XDMA_DESC_STOPPED \<noteq> 0"
    and go: "\<And>i. i < n \<Longrightarrow> control (dv ! (s + i)) AND XDMA_DESC_STOPPED = 0"
    and k: "k \<le> n" "n - k < fuel"
  shows "hw_chain fuel base dv (desc_addr base (s + k)) = [s + k..<s + n + 1]"
  using k
proof (induction "n - k" arbitrary: k fuel)
  case 0
  then obtain f where f: "fuel = Suc f" by (cases fuel) auto
  have len: "s + k < length dv" "s + k < 4096" using lk sz stop(1) 0 by (auto simp: linked_def)
  have "[s + k..<Suc (s + n)] = [s + k]" using 0 by simp
  then show ?case using 0 stop(2) len by (simp add: f desc_index_addr)
next
  case (Suc m)
  then obtain f where f: "fuel = Suc f" by (cases fuel) auto
  have kn: "k < n" using Suc.hyps(2) by simp
  have len: "s + k < length dv" "s + k < 4096" using lk sz stop(1) kn by (auto simp: linked_def)
  have nxt: "desc_next (dv ! (s + k)) = desc_addr base (s + Suc k)"
    using lk kn stop(1) by (auto simp: linked_def)
  have "hw_chain f base dv (desc_addr base (s + Suc k)) = [s + Suc k..<s + n + 1]"
    by (rule Suc.hyps(1)) (use Suc kn f in auto)
  moreover have "[s + k..<s + n + 1] = (s + k) # [s + Suc k..<s + n + 1]" using kn by (simp add: upt_conv_Cons)
  ultimately show ?case using len go [OF kn] nxt by (simp add: f desc_index_addr Let_def del: upt_Suc)
qed

text \<open>A list whose first stop bit is at offset \<open>n\<close> is processed from its head to that descriptor, in order.\<close>

lemma hw_chain_list:
  assumes "linked base dv s h" and "length dv \<le> 2048" and "n < h"
    and "control (dv ! (s + n)) AND XDMA_DESC_STOPPED \<noteq> 0"
    and "\<And>i. i < n \<Longrightarrow> control (dv ! (s + i)) AND XDMA_DESC_STOPPED = 0"
  shows "hw_chain (length dv) base dv (desc_addr base s) = [s..<s + n + 1]"
  using hw_chain_from [OF assms, of 0 "length dv"] assms(1,3) by (simp add: linked_def)

subsection \<open>Initialising the lists\<close>

definition desc_inited :: "u64 \<Rightarrow> nat \<Rightarrow> nat \<Rightarrow> xdma_desc \<Rightarrow> xdma_desc" where
  "desc_inited base h i d =
     (if i mod h = h - 1 then d\<lparr>next_lo := 0, next_hi := 0, bytes := 0, control := 0xAD4B0013\<rparr>
      else d\<lparr>next_lo := PCI_DMA_L (desc_addr base (Suc i)), next_hi := PCI_DMA_H (desc_addr base (Suc i)), bytes := 0,
             control := 0xAD4B0012\<rparr>)"

lemma desc_init_one:
  assumes "0 < h" and "n < length dv" and "length ld = 2" and "0 \<le> lc"
  shows "desc_init_step (int h) (dv, desc_addr base n, ld, lc) n =
     Some (dv[n := desc_inited base h n (dv ! n)], desc_addr base (Suc n),
       if n mod h = h - 1 \<and> lc < 2 then ld[nat lc := desc_addr base (Suc n)] else ld,
       if n mod h = h - 1 \<and> lc < 2 then lc + 1 else lc)"
proof -
  have last: "int n mod int h = int h - 1 \<longleftrightarrow> n mod h = h - 1"
    using assms(1) by (metis of_nat_1 of_nat_diff of_nat_eq_iff of_nat_mod Suc_leI One_nat_def)
  show ?thesis
    unfolding desc_init_step_def
    using assms by (auto simp: arr_get_def arr_set_def last desc_inited_def desc_addr_Suc Let_def)
qed

lemma list_ends:
  assumes "0 < h" and "n < 2 * h"
  shows "n mod h = h - 1 \<longleftrightarrow> Suc n = h \<or> Suc n = 2 * h"
proof (cases "n < h")
  case False
  then have "n mod h = n - h" using assms by (simp add: le_mod_geq)
  with False assms show ?thesis by auto
qed (use assms in auto)

lemma desc_init_loop:
  assumes h: "0 < h" and n: "n \<le> 2 * h" and len: "2 * h \<le> length dv"
  shows "fold_opt (desc_init_step (int h)) (dv, base, [base, x], 1) [0..<n] =
     Some (map (\<lambda>i. if i < n then desc_inited base h i (dv ! i) else dv ! i) [0..<length dv], desc_addr base n,
       if n < h then [base, x] else [base, desc_addr base h], if n < h then 1 else 2)"
  using n
proof (induction n)
  case 0
  then show ?case using h by (simp add: map_nth)
next
  case (Suc n)
  let ?dv = "map (\<lambda>i. if i < n then desc_inited base h i (dv ! i) else dv ! i) [0..<length dv]"
  have n: "n < length dv" "n < 2 * h" using Suc.prems len by simp_all
  have upd: "?dv[n := desc_inited base h n (?dv ! n)] =
      map (\<lambda>i. if i < Suc n then desc_inited base h i (dv ! i) else dv ! i) [0..<length dv]"
    using n by (intro nth_equalityI) (auto simp: nth_list_update less_Suc_eq)
  have "desc_init_step (int h) (?dv, desc_addr base n, if n < h then [base, x] else [base, desc_addr base h], if n < h then 1 else 2) n =
     Some (map (\<lambda>i. if i < Suc n then desc_inited base h i (dv ! i) else dv ! i) [0..<length dv], desc_addr base (Suc n),
       if Suc n < h then [base, x] else [base, desc_addr base h], if Suc n < h then 1 else 2)"
    using desc_init_one [OF h, of n ?dv "if n < h then [base, x] else [base, desc_addr base h]" "if n < h then 1 else 2" base]
      list_ends [OF h n(2)] n h unfolding upd by auto
  with Suc.IH Suc.prems show ?case by (simp add: fold_opt_append)
qed

lemma desc_inited_next:
  "i mod h \<noteq> h - 1 \<Longrightarrow> desc_next (desc_inited base h i d) = desc_addr base (Suc i)"
  "i mod h \<noteq> h - 1 \<Longrightarrow> control (desc_inited base h i d) AND XDMA_DESC_STOPPED = 0"
  "i mod h = h - 1 \<Longrightarrow> control (desc_inited base h i d) AND XDMA_DESC_STOPPED \<noteq> 0"
  by (simp_all add: desc_inited_def desc_next_def)

text \<open>The two lists \<open>transfer_desc_init\<close> builds, and that it does not fail.\<close>

lemma transfer_desc_init_ok:
  assumes h: "0 < h" "2 * h \<le> 2048" and len: "2 * h \<le> length (desc_virt t)" "length (list_desc t) = 2"
  shows "\<exists>t'. transfer_desc_init t (int (2 * h)) = Some t' \<and>
     t' = t\<lparr>desc_virt := map (\<lambda>i. if i < 2 * h then desc_inited (desc_bus t) h i (desc_virt t ! i) else desc_virt t ! i)
                 [0..<length (desc_virt t)], list_desc := [desc_bus t, desc_addr (desc_bus t) h]\<rparr>"
proof -
  obtain a b where ld: "list_desc t = [a, b]" using len(2) by (auto simp: numeral_2_eq_2 length_Suc_conv)
  have "int (2 * h) div 2 = int h" "nat (2 * int h) = 2 * h" by simp_all
  with desc_init_loop [OF h(1) _ len(1), of "2 * h" "desc_bus t" b] h show ?thesis
    by (simp add: transfer_desc_init_def ld arr_set_def Let_def)
qed

lemma inited_linked:
  assumes "0 < h" "k < 2" "2 * h \<le> length dv"
  shows "linked base (map (\<lambda>i. if i < 2 * h then desc_inited base h i (dv ! i) else dv ! i) [0..<length dv]) (k * h) h"
proof -
  have "i mod h \<noteq> h - 1" if "k * h \<le> i" "Suc i < k * h + h" for i
    using list_ends [OF assms(1), of i] that assms(2) by (auto simp: less_2_cases_iff)
  with assms show ?thesis by (auto simp: linked_def desc_inited_next less_2_cases_iff)
qed

subsection \<open>Properties\<close>

text \<open>
  Descriptor initialisation builds exactly two lists: for an even number \<open>2 * h\<close> of
  descriptors (at most 2048) it succeeds, list \<open>k\<close> starts at bus address \<open>base + 32 * k * h\<close>, and
  the hardware started there processes descriptors \<open>k * h\<close> to \<open>k * h + h - 1\<close> in order and stops:
  the lists neither overlap nor run into each other.
\<close>

theorem desc_lists_partition:
  assumes h: "0 < h" "2 * h \<le> 2048" and len: "2 * h \<le> length (desc_virt t)" "length (desc_virt t) \<le> 2048" "length (list_desc t) = 2"
    and k: "k < 2"
  shows "\<exists>t'. transfer_desc_init t (int (2 * h)) = Some t' \<and> length (desc_virt t') = length (desc_virt t) \<and>
     list_desc t' ! k = desc_bus t + of_nat (32 * (k * h)) \<and>
     hw_chain (length (desc_virt t')) (desc_bus t') (desc_virt t') (list_desc t' ! k) = [k * h..<k * h + h]"
proof -
  let ?dv = "map (\<lambda>i. if i < 2 * h then desc_inited (desc_bus t) h i (desc_virt t ! i) else desc_virt t ! i) [0..<length (desc_virt t)]"
  obtain t' where t': "transfer_desc_init t (int (2 * h)) = Some t'"
      "t' = t\<lparr>desc_virt := ?dv, list_desc := [desc_bus t, desc_addr (desc_bus t) h]\<rparr>"
    using transfer_desc_init_ok [OF h len(1,3)] by blast
  have ld: "list_desc t' ! k = desc_addr (desc_bus t) (k * h)"
    using k t'(2) by (auto simp: less_2_cases_iff)
  have e: "(k * h + i) mod h = h - 1 \<longleftrightarrow> i = h - 1" if "i < h" for i
    using that by (simp add: mod_add_left_eq [symmetric])
  have b: "k * h + i < 2 * h" if "i < h" for i using k that by (auto simp: less_2_cases_iff)
  have d: "?dv ! (k * h + i) = desc_inited (desc_bus t) h (k * h + i) (desc_virt t ! (k * h + i))" if "i < h" for i
    using b [OF that] len(1) by (subst nth_map) simp_all
  have "hw_chain (length ?dv) (desc_bus t) ?dv (desc_addr (desc_bus t) (k * h)) = [k * h..<k * h + (h - 1) + 1]"
  proof (rule hw_chain_list [OF inited_linked [OF h(1) k len(1)]])
    show "control (?dv ! (k * h + (h - 1))) AND XDMA_DESC_STOPPED \<noteq> 0"
      using d [of "h - 1"] e [of "h - 1"] desc_inited_next(3) h(1) by simp
    show "control (?dv ! (k * h + i)) AND XDMA_DESC_STOPPED = 0" if "i < h - 1" for i
      using d [of i] e [of i] desc_inited_next(2) that by simp
  qed (use h len in simp_all)
  with ld t' h show ?thesis by (simp add: desc_addr_def)
qed

theorem desc_lists_partition_witness:
  "\<exists>t'. transfer_desc_init sample_transfer 4 = Some t' \<and> list_desc t' ! 1 = 0x1040 \<and>
     hw_chain 4 (desc_bus t') (desc_virt t') (list_desc t' ! 1) = [2..<4]"
  using desc_lists_partition [where h = 2 and t = sample_transfer and k = 1]
  by (auto simp: sample_transfer_def zero_transfer_def)

end
