(* ===== verification/Tx_Path.thy ===== *)
theory Tx_Path
  imports Xdma_Engine
begin

unbundle bit_operations_syntax

section \<open>The transmit path\<close>

text \<open>
  \<open>ax_net_start_xmit\<close> (\<open>xdma_mod.c\<close>) and the completion interrupts of the two H2C channels
  (\<open>xdma_channel_H2C_irq\<close>, \<open>xdma_channel_H2C_PTP_irq\<close> and the H2C part of \<open>xdma_isr\<close> in
  \<open>libxdma.c\<close>). Channel 1 carries the frames that ask for a hardware timestamp, channel 0 all
  others. A channel has two descriptor lists: the hardware runs one while the driver fills the
  other; the completion interrupt starts the filled list and swaps the roles. When a list is
  full the net queue is stopped until the interrupt of that channel wakes it.

  Both routines run under \<open>ax_local->lock\<close>, so each is one atomic step. The network stack
  calls \<open>ax_net_start_xmit\<close> only while the queue is not stopped.
\<close>

subsection \<open>Data\<close>

record ax_tx_list =
  idle :: bool
  cur :: int
  cur_pkt_count :: int

text \<open>The frame, the memory behind it (its tailroom), and whether a hardware timestamp is wanted.\<close>

record tx_skb =
  tx_data :: "u8 list"
  tx_tail :: "u8 list"
  tx_hw_tstamp :: bool

record tx_state =
  tx_list :: "ax_tx_list list"
  engine_h2c :: "xdma_engine list"
  stop_queue_channel :: int
  queue_stopped :: bool
  tx_timestamp :: "tx_skb list"
  tasklet_scheduled :: bool
  cfg_bar :: int
  mask_irq_h2c :: u32

subsection \<open>Sending a frame\<close>

text \<open>\<open>skb_put\<close> beyond the tailroom is a kernel panic; it does not initialise the bytes it adds.\<close>

definition pad_skb :: "tx_skb \<Rightarrow> tx_skb option" where
  "pad_skb skb =
     (let len = length (tx_data skb) in
      if len < 60 \<and> tx_tail skb \<noteq> [] then
        (if 60 - len \<le> length (tx_tail skb)
         then Some (skb\<lparr>tx_data := tx_data skb @ take (60 - len) (tx_tail skb), tx_tail := drop (60 - len) (tx_tail skb)\<rparr>)
         else None)
      else Some skb)"

text \<open>
  The transmit buffer after the header's length field (16 bits, little endian) and the copy of
  the frame behind the eight header bytes; \<open>None\<close> when the frame does not fit the buffer.
\<close>

definition fill_buffer :: "u8 list \<Rightarrow> u8 list \<Rightarrow> u8 list option" where
  "fill_buffer buf frame =
     (let n = length frame in
      if 8 + n \<le> length buf
      then Some ([of_nat n, of_nat (n div 256)] @ take 6 (drop 2 buf) @ frame @ drop (8 + n) buf)
      else None)"

definition ALIGN_8_BYTES :: "int \<Rightarrow> int" where
  "ALIGN_8_BYTES x = (x + 7) AND (NOT 7)"

definition next_list :: "xdma_transfer \<Rightarrow> xdma_transfer" where
  "next_list t = t\<lparr>current_list := (current_list t + 1) mod DESC_LIST_NUM\<rparr>"

text \<open>
  The part of \<open>ax_net_start_xmit\<close> that concerns one channel. The last component of the result
  says whether the list got full, so that the queue has to stop.
\<close>

definition chan_xmit :: "device \<Rightarrow> u8 list \<Rightarrow> ax_tx_list \<Rightarrow> xdma_engine \<Rightarrow> io_log \<Rightarrow>
    (ax_tx_list \<times> xdma_engine \<times> bool \<times> io_log) option" where
  "chan_xmit hw frame lst e l =
     (case (transfer e, tx_buff e) of
        (Some t, Some bufs) \<Rightarrow>
          (let entry = cur lst in
           case (Option.bind (arr_get bufs entry) (\<lambda>b. fill_buffer b frame), arr_get (desc_virt t) entry) of
             (Some buf, Some d) \<Rightarrow>
               (let e = e\<lparr>tx_buff := Some (bufs[nat entry := buf])\<rparr>;
                    trans_length = ALIGN_8_BYTES (int (length frame) + 8);
                    d = d\<lparr>bytes := word_of_int trans_length\<rparr>;
                    lst = lst\<lparr>cur_pkt_count := cur_pkt_count lst + 1\<rparr>
                in if idle lst then
                     (let d = d\<lparr>control := DESC_MAGIC OR XDMA_DESC_EOP OR XDMA_DESC_STOPPED\<rparr>;
                          t = t\<lparr>desc_virt := (desc_virt t)[nat entry := d]\<rparr>
                      in map_option (\<lambda>(e, l).
                           (let t = next_list t
                            in (lst\<lparr>idle := False, cur := current_list t * (TX_DESC_NUM div DESC_LIST_NUM), cur_pkt_count := 0\<rparr>,
                                e\<lparr>transfer := Some t\<rparr>, False, l)))
                         (engine_start hw (e\<lparr>transfer := Some t\<rparr>) l))
                   else
                     (let d = d\<lparr>control := DESC_MAGIC\<rparr>;
                          t = t\<lparr>desc_virt := (desc_virt t)[nat entry := d]\<rparr>;
                          lst = lst\<lparr>cur := (entry + 1) mod TX_DESC_NUM\<rparr>
                      in Some (lst, e\<lparr>transfer := Some t\<rparr>, cur lst = 0 \<or> cur lst = TX_DESC_NUM div DESC_LIST_NUM, l)))
           | _ \<Rightarrow> None)
      | _ \<Rightarrow> None)"

text \<open>
  The queue of frames waiting for their timestamp holds pointers, so the frame in it is the
  padded one.
\<close>

definition ax_net_start_xmit :: "device \<Rightarrow> tx_skb \<Rightarrow> tx_state \<Rightarrow> io_log \<Rightarrow> (int \<times> tx_state \<times> io_log) option" where
  "ax_net_start_xmit hw skb st l =
     (let index = (if tx_hw_tstamp skb then 1 else 0 :: nat)
      in case (arr_get (tx_list st) (int index), arr_get (engine_h2c st) (int index), pad_skb skb) of
           (Some lst, Some e, Some skb) \<Rightarrow>
             map_option (\<lambda>(lst, e, full, l).
               (let st = (if tx_hw_tstamp skb then st\<lparr>tx_timestamp := tx_timestamp st @ [skb]\<rparr> else st);
                    st = st\<lparr>tx_list := (tx_list st)[index := lst], engine_h2c := (engine_h2c st)[index := e]\<rparr>;
                    st = (if full then st\<lparr>queue_stopped := True, stop_queue_channel := int index\<rparr> else st)
                in (0, st, l)))
               (chan_xmit hw (tx_data skb) lst e l)
         | _ \<Rightarrow> None)"

subsection \<open>The completion interrupt\<close>

text \<open>
  What the three handlers do for one channel once its engine is stopped: start the list that
  was filled meanwhile, or become idle.
\<close>

definition h2c_restart :: "device \<Rightarrow> ax_tx_list \<Rightarrow> xdma_engine \<Rightarrow> io_log \<Rightarrow> (ax_tx_list \<times> xdma_engine \<times> io_log) option" where
  "h2c_restart hw lst e l =
     (if cur_pkt_count lst \<noteq> 0 then
        (let stop_desc = (if cur lst = 0 then RX_DESC_NUM - 1 else cur lst - 1) in
         case transfer e of
           None \<Rightarrow> None
         | Some t \<Rightarrow>
             (case arr_get (desc_virt t) stop_desc of
                None \<Rightarrow> None
              | Some d \<Rightarrow>
                  (let d = d\<lparr>control := DESC_MAGIC OR XDMA_DESC_EOP OR XDMA_DESC_STOPPED\<rparr>;
                       t = t\<lparr>desc_virt := (desc_virt t)[nat stop_desc := d]\<rparr>
                   in map_option (\<lambda>(e, l).
                        (let t = next_list t
                         in (lst\<lparr>cur := current_list t * (TX_DESC_NUM div DESC_LIST_NUM), cur_pkt_count := 0, idle := False\<rparr>,
                             e\<lparr>transfer := Some t\<rparr>, l)))
                      (engine_start hw (e\<lparr>transfer := Some t\<rparr>) l))))
      else Some (lst\<lparr>idle := True\<rparr>, e, l))"

definition chan_service :: "device \<Rightarrow> ax_tx_list \<Rightarrow> xdma_engine \<Rightarrow> io_log \<Rightarrow> (ax_tx_list \<times> xdma_engine \<times> io_log) option" where
  "chan_service hw lst e l =
     (let (isr, e, l) = engine_status_read hw e True l;
          (e, l) = xdma_engine_stop e l
      in h2c_restart hw lst e l)"

definition h2c_wake :: "int \<Rightarrow> tx_state \<Rightarrow> tx_state" where
  "h2c_wake ch st =
     (if stop_queue_channel st = ch then st\<lparr>queue_stopped := False, stop_queue_channel := 0xFF\<rparr> else st)"

text \<open>
  The body of the two MSI-X handlers for channel \<open>ch\<close>, whose vector was requested with that
  channel's engine. \<open>serviced\<close> is what a handler does besides.
\<close>

definition h2c_irq :: "device \<Rightarrow> nat \<Rightarrow> (tx_state \<Rightarrow> tx_state) \<Rightarrow> tx_state \<Rightarrow> io_log \<Rightarrow> (tx_state \<times> io_log) option" where
  "h2c_irq hw ch serviced st l =
     (let (ch_irq, l) = ioread32 hw (cfg_bar st, IR_channel_int_request) l;
          msk = ch_irq AND mask_irq_h2c st
      in if msk \<noteq> 0 then
           (case (arr_get (tx_list st) (int ch), arr_get (engine_h2c st) (int ch)) of
              (Some lst, Some e) \<Rightarrow>
                (let l = iowrite32 (interrupt_enable_mask_value e) (ebar e, regs e + ER_interrupt_enable_mask_w1c) l;
                     (_, l) = ioread32 hw (cfg_bar st, IR_channel_int_pending) l;
                     enable = (\<lambda>l. iowrite32 (interrupt_enable_mask_value e) (ebar e, regs e + ER_interrupt_enable_mask_w1s) l)
                 in if irq_bitmask e AND msk \<noteq> 0 \<and> magic e = MAGIC_ENGINE then
                      map_option (\<lambda>(lst, e, l).
                        (h2c_wake (int ch) (serviced
                           (st\<lparr>tx_list := (tx_list st)[ch := lst], engine_h2c := (engine_h2c st)[ch := e]\<rparr>)), enable l))
                        (chan_service hw lst e l)
                    else Some (st, enable l))
            | _ \<Rightarrow> None)
         else Some (st, l))"

definition xdma_channel_H2C_irq :: "device \<Rightarrow> tx_state \<Rightarrow> io_log \<Rightarrow> (tx_state \<times> io_log) option" where
  "xdma_channel_H2C_irq hw st l = h2c_irq hw 0 id st l"

text \<open>The PTP channel's handler also schedules the tasklet that delivers transmit timestamps.\<close>

definition xdma_channel_H2C_PTP_irq :: "device \<Rightarrow> tx_state \<Rightarrow> io_log \<Rightarrow> (tx_state \<times> io_log) option" where
  "xdma_channel_H2C_PTP_irq hw st l = h2c_irq hw 1 (\<lambda>st. st\<lparr>tasklet_scheduled := True\<rparr>) st l"

text \<open>
  The H2C loop of \<open>xdma_isr\<close> (legacy and MSI interrupts): \<open>n\<close> channels are left, \<open>ch\<close> is the next
  one, \<open>msk\<close> the requests not yet served. The enable register is that of the channel block.
\<close>

fun isr_h2c_loop :: "device \<Rightarrow> nat \<Rightarrow> nat \<Rightarrow> u32 \<Rightarrow> tx_state \<Rightarrow> io_log \<Rightarrow> (tx_state \<times> io_log) option" where
  "isr_h2c_loop hw 0 ch msk st l = Some (st, l)"
| "isr_h2c_loop hw (Suc n) ch msk st l =
     (if msk = 0 then Some (st, l)
      else
        (case (arr_get (tx_list st) (int ch), arr_get (engine_h2c st) (int ch)) of
           (Some lst, Some e) \<Rightarrow>
             if irq_bitmask e AND msk \<noteq> 0 \<and> magic e = MAGIC_ENGINE then
               (let msk = msk AND NOT (irq_bitmask e);
                    (isr, e, l) = engine_status_read hw e True l;
                    (e, l) = xdma_engine_stop e l;
                    (complete, l) = ioread32 hw (ebar e, regs e + ER_completed_desc_count) l
                in Option.bind (h2c_restart hw lst e l) (\<lambda>(lst, e, l).
                     (let l = iowrite32 (irq_bitmask e) (cfg_bar st, IR_channel_int_enable_w1s) l;
                          st = h2c_wake (int ch) (st\<lparr>tx_list := (tx_list st)[ch := lst], engine_h2c := (engine_h2c st)[ch := e]\<rparr>)
                      in isr_h2c_loop hw n (Suc ch) msk st l)))
             else isr_h2c_loop hw n (Suc ch) msk st l
         | _ \<Rightarrow> None))"

text \<open>A concrete transmit state for the witnesses: both channels freshly set up and idle.\<close>

definition sample_tx_engine :: "nat \<Rightarrow> xdma_engine" where
  "sample_tx_engine ch = \<lparr>magic = MAGIC_ENGINE, ebar = 1, regs = 0x100 * int ch, sgdma_regs = 0x100 * int ch + 0x4000,
     bypass_offset = 0, shutdown = 0, dir = DMA_TO_DEVICE, running = False, streaming = True, addr_align = 1, len_granularity = 1,
     addr_bits = 64, channel = int ch, desc_dequeued = 0, status = 0, interrupt_enable_mask_value = 0xF83E1E,
     transfer = Some (zero_transfer\<lparr>desc_virt := map (\<lambda>i. desc_inited 0x10000 512 i sample_desc) [0..<1024],
       desc_bus := 0x10000, desc_num := 1024, list_desc := [0x10000, desc_addr 0x10000 512]\<rparr>),
     cyclic_result = None, cyclic_result_bus = 0, rx_buff = None, rx_buff_bus = 0,
     tx_buff = Some (replicate 1024 (replicate 2048 0)), tx_buff_bus = 0x200000, irq_bitmask = push_bit ch 1,
     edesc_bus = 0x10000, edesc = None\<rparr>"

definition sample_tx_state :: tx_state where
  "sample_tx_state = \<lparr>tx_list = replicate 2 \<lparr>idle = True, cur = 0, cur_pkt_count = 0\<rparr>,
     engine_h2c = [sample_tx_engine 0, sample_tx_engine 1], stop_queue_channel = 0, queue_stopped = False, tx_timestamp = [],
     tasklet_scheduled = False, cfg_bar = 1, mask_irq_h2c = 3\<rparr>"

definition sample_tx_skb :: tx_skb where
  "sample_tx_skb = \<lparr>tx_data = replicate 60 7, tx_tail = [], tx_hw_tstamp = False\<rparr>"

subsection \<open>What the hardware sends\<close>

text \<open>The frame in a transmit buffer: the header's length field and that many bytes behind the header.\<close>

definition frame_of_buf :: "u8 list \<Rightarrow> u8 list" where
  "frame_of_buf buf = take (unat (buf ! 0) + 256 * unat (buf ! 1)) (drop 8 buf)"

text \<open>
  The frames the engine sends for the list address in its registers: it follows the chain in
  the descriptor memory and reads the buffer of every descriptor it processes.
\<close>

definition hw_frames :: "xdma_engine \<Rightarrow> io_log \<Rightarrow> u8 list list" where
  "hw_frames e l =
     (case (transfer e, tx_buff e, last_write (ebar e, sgdma_regs e + SG_first_desc_lo) l,
            last_write (ebar e, sgdma_regs e + SG_first_desc_hi) l) of
        (Some t, Some bufs, Some lo, Some hi) \<Rightarrow>
          map (\<lambda>i. frame_of_buf (bufs ! i)) (hw_chain (length (desc_virt t)) (desc_bus t) (desc_virt t) (join64 hi lo))
      | _ \<Rightarrow> [])"

text \<open>The number of times the run bit was written to an engine's control register.\<close>

fun runs :: "xdma_engine \<Rightarrow> io_log \<Rightarrow> nat" where
  "runs e [] = 0"
| "runs e (RD a # l) = runs e l"
| "runs e (WR a v # l) = (if a = (ebar e, regs e + ER_control) \<and> v AND XDMA_CTRL_RUN_STOP \<noteq> 0 then Suc (runs e l) else runs e l)"

text \<open>The frames the driver has accepted but not yet given to the hardware.\<close>

definition list_base :: "xdma_engine \<Rightarrow> nat" where
  "list_base e = (case transfer e of None \<Rightarrow> 0 | Some t \<Rightarrow> nat (current_list t * 512))"

definition pending :: "ax_tx_list \<Rightarrow> xdma_engine \<Rightarrow> u8 list list" where
  "pending lst e =
     (case tx_buff e of None \<Rightarrow> []
      | Some bufs \<Rightarrow> map (\<lambda>i. frame_of_buf (bufs ! i)) [list_base e..<list_base e + nat (cur_pkt_count lst)])"

subsection \<open>The invariant of a channel\<close>

definition lists_ok :: "xdma_transfer \<Rightarrow> bool" where
  "lists_ok t \<longleftrightarrow> 1024 \<le> length (desc_virt t) \<and> length (desc_virt t) \<le> 2048 \<and>
     list_desc t = [desc_bus t, desc_addr (desc_bus t) 512] \<and>
     linked (desc_bus t) (desc_virt t) 0 512 \<and> linked (desc_bus t) (desc_virt t) 512 512 \<and>
     (current_list t = 0 \<or> current_list t = 1)"

definition bufs_ok :: "u8 list list \<Rightarrow> bool" where
  "bufs_ok bufs \<longleftrightarrow> 1024 \<le> length bufs \<and> (\<forall>b \<in> set bufs. length b = 2048)"

definition eng_ok :: "xdma_engine \<Rightarrow> bool" where
  "eng_ok e \<longleftrightarrow> magic e = MAGIC_ENGINE \<and> sgdma_regs e = regs e + SGDMA_OFFSET_FROM_CHANNEL \<and> (\<exists>t bufs. transfer e = Some t \<and> tx_buff e = Some bufs \<and> lists_ok t \<and> bufs_ok bufs)"

definition chan_inv :: "ax_tx_list \<Rightarrow> xdma_engine \<Rightarrow> bool" where
  "chan_inv lst e \<longleftrightarrow> eng_ok e \<and> (running e \<longleftrightarrow> \<not> idle lst) \<and>
     0 \<le> cur_pkt_count lst \<and> cur_pkt_count lst \<le> 512 \<and>
     cur lst = (int (list_base e) + cur_pkt_count lst) mod 1024 \<and>
     (idle lst \<longrightarrow> cur_pkt_count lst = 0) \<and>
     (\<forall>t. transfer e = Some t \<longrightarrow>
        (\<forall>i. list_base e \<le> i \<and> i < list_base e + nat (cur_pkt_count lst) \<longrightarrow> control (desc_virt t ! i) = DESC_MAGIC))"

lemma chan_invD:
  assumes "chan_inv lst e"
  obtains t bufs where "transfer e = Some t" "tx_buff e = Some bufs" "lists_ok t" "bufs_ok bufs"
    "list_base e = 0 \<and> current_list t = 0 \<or> list_base e = 512 \<and> current_list t = 1"
proof -
  from assms obtain t bufs where "transfer e = Some t" "tx_buff e = Some bufs" "lists_ok t" "bufs_ok bufs"
    by (auto simp: chan_inv_def eng_ok_def)
  moreover from this have "list_base e = 0 \<and> current_list t = 0 \<or> list_base e = 512 \<and> current_list t = 1"
    by (auto simp: list_base_def lists_ok_def)
  ultimately show thesis using that by blast
qed

subsection \<open>Buffers\<close>

lemma bufs_ok_nth: "bufs_ok bufs \<Longrightarrow> i < 1024 \<Longrightarrow> i < length bufs \<and> length (bufs ! i) = 2048"
  by (auto simp: bufs_ok_def)

lemma bufs_ok_update: "bufs_ok bufs \<Longrightarrow> length b = 2048 \<Longrightarrow> bufs_ok (bufs[i := b])"
  by (auto simp: bufs_ok_def dest: set_update_subset_insert [THEN subsetD])

lemma fill_buffer_ok:
  assumes "length buf = 2048" and "length frame \<le> 2040"
  shows "\<exists>buf'. fill_buffer buf frame = Some buf' \<and> length buf' = 2048 \<and> frame_of_buf buf' = frame"
proof -
  let ?n = "length frame"
  have "unat (of_nat ?n :: u8) + 256 * unat (of_nat (?n div 256) :: u8) = ?n"
    using assms(2) by (simp add: unat_of_nat)
  then have "frame_of_buf ([of_nat ?n, of_nat (?n div 256)] @ take 6 (drop 2 buf) @ frame @ drop (8 + ?n) buf) = frame"
    using assms by (simp add: frame_of_buf_def)
  then show ?thesis using assms by (simp add: fill_buffer_def Let_def)
qed

lemma linked_control:
  "linked base (dv[i := (dv ! i)\<lparr>bytes := b, control := c\<rparr>]) s h \<longleftrightarrow> linked base dv s h"
  by (cases "i < length dv") (auto simp: linked_def nth_list_update desc_next_def split: if_splits)

lemma linked_control':
  "linked base (dv[i := (dv ! i)\<lparr>control := c\<rparr>]) s h \<longleftrightarrow> linked base dv s h"
  by (cases "i < length dv") (auto simp: linked_def nth_list_update desc_next_def split: if_splits)

lemma lists_ok_update:
  assumes "lists_ok t"
  shows "lists_ok (t\<lparr>desc_virt := (desc_virt t)[i := (desc_virt t ! i)\<lparr>bytes := b, control := c\<rparr>]\<rparr>)"
    and "lists_ok (t\<lparr>desc_virt := (desc_virt t)[i := (desc_virt t ! i)\<lparr>control := c\<rparr>]\<rparr>)"
    and "lists_ok (next_list t)"
  using assms by (auto simp: lists_ok_def linked_control linked_control' next_list_def)

subsection \<open>Starting a list\<close>

definition start_log :: "xdma_engine \<Rightarrow> u64 \<Rightarrow> io_log \<Rightarrow> io_log" where
  "start_log e first l =
     RD (ebar e, regs e + 0x40) # WR (ebar e, regs e + 0x04) 0xF83E0F # WR (ebar e, regs e + 0x90) 0xF83E0E #
     WR (ebar e, sgdma_regs e + 0x88) 0 # WR (ebar e, sgdma_regs e + 0x84) (PCI_DMA_H first) #
     WR (ebar e, sgdma_regs e + 0x80) (PCI_DMA_L first) # l"

text \<open>Starting an idle engine never fails; it programs the current list and then sets the run bit.\<close>

lemma engine_start_ok:
  assumes "transfer e = Some t" and "\<not> running e" and "lists_ok t"
  shows "engine_start hw e l =
     Some (e\<lparr>shutdown := 0, desc_dequeued := 0, running := True\<rparr>,
       start_log e (desc_addr (desc_bus t) (nat (current_list t * 512))) l)"
  using assms
  by (auto simp: engine_start_def engine_start_mode_config_def io_simps Let_def arr_get_def lists_ok_def start_log_def)

text \<open>
  A channel whose list holds \<open>n + 1\<close> frames, the last descriptor marked as the end: the hardware
  sends exactly those frames, in order.
\<close>

lemma hw_frames_start:
  assumes t: "transfer e = Some t" "tx_buff e = Some bufs" "lists_ok t" "sgdma_regs e = regs e + 0x4000"
    and cl: "cl = 0 \<or> cl = 1" and n: "n < 512"
    and stop: "control (desc_virt t ! (512 * cl + n)) AND XDMA_DESC_STOPPED \<noteq> 0"
    and go: "\<And>i. i < n \<Longrightarrow> control (desc_virt t ! (512 * cl + i)) AND XDMA_DESC_STOPPED = 0"
  shows "hw_frames e (start_log e (desc_addr (desc_bus t) (512 * cl)) l) =
     map (\<lambda>i. frame_of_buf (bufs ! i)) [512 * cl..<512 * cl + n + 1]"
proof -
  have lk: "linked (desc_bus t) (desc_virt t) (512 * cl) 512" and len: "length (desc_virt t) \<le> 2048"
    using t(3) cl by (auto simp: lists_ok_def)
  have "hw_chain (length (desc_virt t)) (desc_bus t) (desc_virt t) (desc_addr (desc_bus t) (512 * cl)) = [512 * cl..<512 * cl + n + 1]"
    by (rule hw_chain_list [OF lk len n stop go])
  then show ?thesis using t by (simp add: hw_frames_def start_log_def)
qed

lemma runs_start_log: "sgdma_regs e = regs e + 0x4000 \<Longrightarrow> runs e (start_log e first l) = Suc (runs e l)"
  by (simp add: start_log_def)

subsection \<open>A channel accepts a frame\<close>

text \<open>What never changes of an engine while it is in use.\<close>

definition same_engine :: "xdma_engine \<Rightarrow> xdma_engine \<Rightarrow> bool" where
  "same_engine e e' \<longleftrightarrow> ebar e' = ebar e \<and> regs e' = regs e \<and> sgdma_regs e' = sgdma_regs e \<and> magic e' = magic e \<and>
     irq_bitmask e' = irq_bitmask e \<and> interrupt_enable_mask_value e' = interrupt_enable_mask_value e"

lemma list_base_next:
  "lists_ok t \<Longrightarrow> list_base (e\<lparr>transfer := Some (next_list t)\<rparr>) = (if current_list t = 0 then 512 else 0)"
  by (auto simp: list_base_def next_list_def lists_ok_def)

lemma chan_xmit_idle:
  assumes inv: "chan_inv lst e" and id: "idle lst" and fr: "length frame \<le> 2040"
  shows "\<exists>lst' e' first. chan_xmit hw frame lst e l = Some (lst', e', False, start_log e first l) \<and>
     chan_inv lst' e' \<and> \<not> idle lst' \<and> cur_pkt_count lst' = 0 \<and> same_engine e e' \<and>
     hw_frames e' (start_log e first l) = [frame]"
proof -
  obtain t bufs where t: "transfer e = Some t" "tx_buff e = Some bufs" "lists_ok t" "bufs_ok bufs"
    "list_base e = 0 \<and> current_list t = 0 \<or> list_base e = 512 \<and> current_list t = 1" using inv by (rule chan_invD)
  define k where "k = list_base e"
  have k: "k = 0 \<or> k = 512" "current_list t * 512 = int k" "nat (current_list t * 512) = k"
    using t(5) by (auto simp: k_def)
  have cur: "cur lst = int k" "\<not> running e" "cur_pkt_count lst = 0" "sgdma_regs e = regs e + 0x4000" "magic e = MAGIC_ENGINE"
    using inv id k(1) by (auto simp: chan_inv_def k_def eng_ok_def)
  have len: "k < length bufs" "k < length (desc_virt t)" "length (bufs ! k) = 2048"
    using t(3) bufs_ok_nth [OF t(4), of k] k(1) by (auto simp: lists_ok_def)
  obtain buf where buf: "fill_buffer (bufs ! k) frame = Some buf" "length buf = 2048" "frame_of_buf buf = frame"
    using fill_buffer_ok [OF len(3) fr] by blast
  define d where "d = (desc_virt t ! k)\<lparr>bytes := word_of_int (ALIGN_8_BYTES (int (length frame) + 8)), control := 0xAD4B0011\<rparr>"
  define t1 where "t1 = t\<lparr>desc_virt := (desc_virt t)[k := d]\<rparr>"
  define e1 where "e1 = e\<lparr>tx_buff := Some (bufs[k := buf]), transfer := Some t1\<rparr>"
  define e2 where "e2 = e1\<lparr>shutdown := 0, desc_dequeued := 0, running := True\<rparr>"
  define lst' where "lst' = lst\<lparr>cur_pkt_count := 0, idle := False, cur := current_list (next_list t1) * 512\<rparr>"
  have l1: "lists_ok t1" unfolding t1_def d_def by (rule lists_ok_update(1) [OF t(3)])
  have first: "nat (current_list t1 * 512) = k" "desc_bus t1 = desc_bus t" "current_list t1 = current_list t"
    using k by (simp_all add: t1_def)
  have st: "engine_start hw e1 l = Some (e2, start_log e1 (desc_addr (desc_bus t) k) l)"
    using engine_start_ok [of e1 t1 hw l] l1 cur(2) first by (simp add: e1_def e2_def)
  have sl: "start_log e1 x l = start_log e x l" for x by (simp add: start_log_def e1_def)
  let ?e' = "e2\<lparr>transfer := Some (next_list t1)\<rparr>"
  have "chan_xmit hw frame lst e l = Some (lst', ?e', False, start_log e (desc_addr (desc_bus t) k) l)"
    using t(1,2) cur(1,3) id len buf(1) st [unfolded sl]
    by (simp add: chan_xmit_def arr_get_def Let_def e1_def t1_def d_def lst'_def)
  moreover have "chan_inv lst' ?e'"
  proof -
    have "list_base ?e' = (if current_list t = 0 then 512 else 0)" using list_base_next [OF l1, of e2] by (simp add: first)
    moreover have "bufs_ok (bufs[k := buf])" by (rule bufs_ok_update [OF t(4) buf(2)])
    moreover have "lists_ok (next_list t1)" by (rule lists_ok_update(3) [OF l1])
    ultimately show ?thesis using t(5) cur(4,5)
      by (auto simp: chan_inv_def eng_ok_def lst'_def e2_def e1_def next_list_def first)
  qed
  moreover have "hw_frames ?e' (start_log e (desc_addr (desc_bus t) k) l) = [frame]"
  proof -
    obtain c where c: "k = 512 * c" "c = 0 \<or> c = (1 :: nat)" using k(1) by (metis mult_0_right nat_mult_1_right)
    have dv: "desc_virt (next_list t1) ! k = d" using len(2) by (simp add: next_list_def t1_def)
    have "hw_frames ?e' (start_log ?e' (desc_addr (desc_bus (next_list t1)) (512 * c)) l) =
        map (\<lambda>i. frame_of_buf (bufs[k := buf] ! i)) [512 * c..<512 * c + 0 + 1]"
      by (rule hw_frames_start [OF _ _ lists_ok_update(3) [OF l1] _ c(2)])
        (use dv c(1) cur(4) in \<open>simp_all add: e2_def e1_def d_def\<close>)
    moreover have "start_log ?e' x l = start_log e x l" for x by (simp add: start_log_def e2_def e1_def)
    ultimately show ?thesis using c(1) buf(3) len(1) by (simp add: next_list_def first)
  qed
  moreover have "same_engine e ?e'" by (simp add: same_engine_def e2_def e1_def)
  ultimately show ?thesis by (intro exI [of _ lst'] exI [of _ ?e'] exI [of _ "desc_addr (desc_bus t) k"]) (simp add: lst'_def)
qed

text \<open>The part of a channel's memory the hardware may be using: the list that is not the current one.\<close>

definition running_part :: "xdma_engine \<Rightarrow> xdma_desc list \<times> u8 list list" where
  "running_part e =
     (let s = (if list_base e = 0 then 512 else 0)
      in (case transfer e of None \<Rightarrow> [] | Some t \<Rightarrow> take 512 (drop s (desc_virt t)),
          case tx_buff e of None \<Rightarrow> [] | Some bufs \<Rightarrow> take 512 (drop s bufs)))"

lemma chan_xmit_busy:
  assumes inv: "chan_inv lst e" and id: "\<not> idle lst" and room: "cur_pkt_count lst < 512" and fr: "length frame \<le> 2040"
  shows "\<exists>lst' e'. chan_xmit hw frame lst e l = Some (lst', e', cur_pkt_count lst' = 512, l) \<and>
     chan_inv lst' e' \<and> \<not> idle lst' \<and> cur_pkt_count lst' = cur_pkt_count lst + 1 \<and> same_engine e e' \<and>
     pending lst' e' = pending lst e @ [frame] \<and> running_part e' = running_part e"
proof -
  obtain t bufs where t: "transfer e = Some t" "tx_buff e = Some bufs" "lists_ok t" "bufs_ok bufs"
    "list_base e = 0 \<and> current_list t = 0 \<or> list_base e = 512 \<and> current_list t = 1" using inv by (rule chan_invD)
  define n where "n = nat (cur_pkt_count lst)"
  define k where "k = list_base e + n"
  have n: "n < 512" "cur_pkt_count lst = int n" using inv room by (auto simp: n_def chan_inv_def)
  have kb: "k < 1024" using t(5) n(1) by (auto simp: k_def)
  have cur: "cur lst = int k" "running e" "sgdma_regs e = regs e + 0x4000" "magic e = MAGIC_ENGINE"
    using inv id kb n(2) by (auto simp: chan_inv_def k_def eng_ok_def)
  have ctl: "control (desc_virt t ! i) = DESC_MAGIC" if "list_base e \<le> i" "i < list_base e + n" for i
    using inv t(1) that by (auto simp: chan_inv_def n_def)
  have len: "k < length bufs" "k < length (desc_virt t)" "length (bufs ! k) = 2048"
    using t(3) bufs_ok_nth [OF t(4) kb] kb by (auto simp: lists_ok_def)
  obtain buf where buf: "fill_buffer (bufs ! k) frame = Some buf" "length buf = 2048" "frame_of_buf buf = frame"
    using fill_buffer_ok [OF len(3) fr] by blast
  define d where "d = (desc_virt t ! k)\<lparr>bytes := word_of_int (ALIGN_8_BYTES (int (length frame) + 8)), control := DESC_MAGIC\<rparr>"
  define t1 where "t1 = t\<lparr>desc_virt := (desc_virt t)[k := d]\<rparr>"
  define e1 where "e1 = e\<lparr>tx_buff := Some (bufs[k := buf]), transfer := Some t1\<rparr>"
  define lst' where "lst' = lst\<lparr>cur_pkt_count := int (Suc n), cur := (int k + 1) mod 1024\<rparr>"
  have l1: "lists_ok t1" unfolding t1_def d_def by (rule lists_ok_update(1) [OF t(3)])
  have lb: "list_base e1 = list_base e" using t(1) by (simp add: list_base_def e1_def t1_def)
  have full: "((int k + 1) mod 1024 = 0 \<or> (int k + 1) mod 1024 = 512) \<longleftrightarrow> int (Suc n) = 512"
  proof (cases "k = 1023")
    case True
    then show ?thesis using t(5) n(1) by (auto simp: k_def)
  next
    case False
    then have "(int k + 1) mod 1024 = int k + 1" using kb by (simp add: mod_pos_pos_trivial)
    then show ?thesis using t(5) n(1) False by (auto simp: k_def)
  qed
  have "chan_xmit hw frame lst e l = Some (lst', e1, cur_pkt_count lst' = 512, l)"
    using t(1,2) cur(1) id len buf(1) n(2) full
    by (simp add: chan_xmit_def arr_get_def Let_def e1_def t1_def d_def lst'_def add.commute)
  moreover have "chan_inv lst' e1"
  proof -
    have "control (desc_virt t1 ! i) = DESC_MAGIC" if "list_base e \<le> i" "i < list_base e + Suc n" for i
      using ctl [of i] that len(2) by (cases "i = k") (auto simp: t1_def d_def k_def)
    moreover have "(int k + 1) mod 1024 = (int (list_base e) + int (Suc n)) mod 1024" by (simp add: k_def algebra_simps)
    ultimately show ?thesis
      using id cur(2,3,4) n(1) l1 bufs_ok_update [OF t(4) buf(2), of k] lb
      by (simp add: chan_inv_def eng_ok_def lst'_def) (simp add: e1_def nat_add_distrib)
  qed
  moreover have "pending lst' e1 = pending lst e @ [frame]"
  proof -
    have "map (\<lambda>i. frame_of_buf (bufs[k := buf] ! i)) [list_base e..<list_base e + n] =
        map (\<lambda>i. frame_of_buf (bufs ! i)) [list_base e..<list_base e + n]"
      by (rule map_cong) (auto simp: k_def)
    moreover have "nat (cur_pkt_count lst') = Suc n" by (simp add: lst'_def)
    moreover have "tx_buff e1 = Some (bufs[k := buf])" by (simp add: e1_def)
    ultimately show ?thesis using t(2) n(2) buf(3) len(1) lb by (simp add: pending_def k_def)
  qed
  moreover have "running_part e1 = running_part e"
    using t(1,2,5) n(1) lb by (auto simp: running_part_def e1_def t1_def k_def take_update_cancel drop_update_cancel drop_update_swap Let_def)
  moreover have "same_engine e e1" by (simp add: same_engine_def e1_def)
  ultimately show ?thesis using id n(2) by (intro exI [of _ lst'] exI [of _ e1]) (simp add: lst'_def)
qed

subsection \<open>A channel is served by its interrupt\<close>

definition stop_log :: "xdma_engine \<Rightarrow> u32 \<Rightarrow> io_log \<Rightarrow> io_log" where
  "stop_log e v l = WR (ebar e, regs e + 0x04) 0xF83E1E # WR (ebar e, regs e + 0x40) v # RD (ebar e, regs e + 0x40) # l"

lemma stop_engine:
  "(let (isr, e, l) = engine_status_read hw e True l in xdma_engine_stop e l) =
     (e\<lparr>status := hw l (ebar e, regs e + 0x40), running := False\<rparr>, stop_log e (hw l (ebar e, regs e + 0x40)) l)"
  by (simp add: engine_status_read_def xdma_engine_stop_def io_simps Let_def stop_log_def)

lemma h2c_restart_ok:
  fixes v :: u32 and e :: xdma_engine
  assumes inv: "chan_inv lst e" and n: "cur_pkt_count lst = int (Suc n)"
  defines "e0 \<equiv> e\<lparr>status := v, running := False\<rparr>"
  shows "\<exists>lst' e' first. h2c_restart hw lst e0 l = Some (lst', e', start_log e first l) \<and> chan_inv lst' e' \<and>
     \<not> idle lst' \<and> cur_pkt_count lst' = 0 \<and> same_engine e e' \<and> hw_frames e' (start_log e first l) = pending lst e"
proof -
  obtain t bufs where t: "transfer e = Some t" "tx_buff e = Some bufs" "lists_ok t" "bufs_ok bufs"
    "list_base e = 0 \<and> current_list t = 0 \<or> list_base e = 512 \<and> current_list t = 1" using inv by (rule chan_invD)
  define b where "b = list_base e"
  have nb: "n < 512" using inv n by (auto simp: chan_inv_def)
  have b: "b = 0 \<or> b = 512" "nat (current_list t * 512) = b" using t(5) by (auto simp: b_def)
  have sd: "(if cur lst = 0 then RX_DESC_NUM - 1 else cur lst - 1) = int (b + n)"
  proof (cases "b + Suc n = 1024")
    case True
    then have "int b + int (Suc n) = 1024" by linarith
    moreover have "cur lst = (int b + int (Suc n)) mod 1024" using inv n by (simp add: chan_inv_def flip: b_def)
    ultimately have "cur lst = 0" by (simp only: mod_self)
    then show ?thesis using True by simp
  next
    case False
    then have "int b + int (Suc n) < 1024" using nb b(1) by auto
    then have "cur lst = int b + int (Suc n)" using inv n by (simp add: chan_inv_def flip: b_def)
    then show ?thesis by simp
  qed
  have len: "b + n < length (desc_virt t)" using t(3) nb b(1) by (auto simp: lists_ok_def)
  have ctl: "control (desc_virt t ! i) = DESC_MAGIC" if "b \<le> i" "i < b + Suc n" for i
    using inv t(1) that n by (auto simp: chan_inv_def b_def)
  have sg: "sgdma_regs e = regs e + 0x4000" "magic e = MAGIC_ENGINE" using inv by (auto simp: chan_inv_def eng_ok_def)
  define t1 where "t1 = t\<lparr>desc_virt := (desc_virt t)[b + n := (desc_virt t ! (b + n))\<lparr>control := 0xAD4B0011\<rparr>]\<rparr>"
  define e1 where "e1 = e0\<lparr>transfer := Some t1\<rparr>"
  define e2 where "e2 = e1\<lparr>shutdown := 0, desc_dequeued := 0, running := True, transfer := Some (next_list t1)\<rparr>"
  define lst' where "lst' = lst\<lparr>cur := current_list (next_list t1) * 512, cur_pkt_count := 0, idle := False\<rparr>"
  have l1: "lists_ok t1" unfolding t1_def by (rule lists_ok_update(2) [OF t(3)])
  have first: "nat (current_list t1 * 512) = b" "desc_bus t1 = desc_bus t" "current_list t1 = current_list t"
    using b(2) by (simp_all add: t1_def)
  have sl: "start_log e1 x l = start_log e x l" "start_log e2 x l = start_log e x l" for x
    by (simp_all add: start_log_def e2_def e1_def e0_def)
  have st: "engine_start hw e1 l = Some (e1\<lparr>shutdown := 0, desc_dequeued := 0, running := True\<rparr>, start_log e (desc_addr (desc_bus t) b) l)"
    using engine_start_ok [of e1 t1 hw l] l1 first sl(1) by (simp add: e1_def e0_def)
  have run: "h2c_restart hw lst e0 l = Some (lst', e2, start_log e (desc_addr (desc_bus t) b) l)"
    unfolding h2c_restart_def Let_def sd
    using n t(1) len st by (simp add: arr_get_def e0_def e1_def e2_def t1_def lst'_def del: of_nat_add)
  have "chan_inv lst' e2"
  proof -
    have "list_base e2 = (if current_list t = 0 then 512 else 0)"
      using list_base_next [OF l1, of "e1\<lparr>shutdown := 0, desc_dequeued := 0, running := True\<rparr>"] by (simp add: first e2_def)
    then show ?thesis using t(2,4,5) sg lists_ok_update(3) [OF l1]
      by (auto simp: chan_inv_def eng_ok_def lst'_def e2_def e1_def e0_def next_list_def first)
  qed
  moreover have "hw_frames e2 (start_log e (desc_addr (desc_bus t) b) l) = pending lst e"
  proof -
    obtain c where c: "b = 512 * c" "c = 0 \<or> c = (1 :: nat)" using b(1) by (metis mult_0_right nat_mult_1_right)
    have dv: "desc_virt (next_list t1) ! (b + n) = (desc_virt t ! (b + n))\<lparr>control := 0xAD4B0011\<rparr>"
        "\<And>i. i < n \<Longrightarrow> desc_virt (next_list t1) ! (b + i) = desc_virt t ! (b + i)"
      using len by (simp_all add: next_list_def t1_def)
    have "hw_frames e2 (start_log e2 (desc_addr (desc_bus (next_list t1)) (512 * c)) l) =
        map (\<lambda>i. frame_of_buf (bufs ! i)) [512 * c..<512 * c + n + 1]"
      by (rule hw_frames_start [OF _ _ lists_ok_update(3) [OF l1] _ c(2) nb])
        (use dv ctl c(1) sg(1) t(2) in \<open>simp_all add: e2_def e1_def e0_def\<close>)
    then show ?thesis using c(1) t(2) n sl(2) by (simp add: next_list_def first pending_def nat_add_distrib flip: b_def)
  qed
  moreover have "same_engine e e2" by (simp add: same_engine_def e2_def e1_def e0_def)
  ultimately show ?thesis using run
    by (intro exI [of _ lst'] exI [of _ e2] exI [of _ "desc_addr (desc_bus t) b"]) (simp add: lst'_def)
qed

lemma h2c_restart_none:
  assumes inv: "chan_inv lst e" and n: "cur_pkt_count lst = 0"
  shows "h2c_restart hw lst (e\<lparr>status := v, running := False\<rparr>) l = Some (lst\<lparr>idle := True\<rparr>, e\<lparr>status := v, running := False\<rparr>, l) \<and>
     chan_inv (lst\<lparr>idle := True\<rparr>) (e\<lparr>status := v, running := False\<rparr>) \<and> same_engine e (e\<lparr>status := v, running := False\<rparr>)"
  using assms by (auto simp: h2c_restart_def chan_inv_def eng_ok_def same_engine_def list_base_def)

subsection \<open>The two channels together\<close>

text \<open>
  The invariant of the transmit state: both channels are in order and have their own register
  blocks, a full list means the queue is stopped on account of that channel, and the queue is
  stopped only on account of a full list.
\<close>

definition tx_inv :: "tx_state \<Rightarrow> bool" where
  "tx_inv st \<longleftrightarrow> length (tx_list st) = 2 \<and> length (engine_h2c st) = 2 \<and>
     (\<forall>ch<2. chan_inv (tx_list st ! ch) (engine_h2c st ! ch) \<and> regs (engine_h2c st ! ch) = 0x100 * int ch \<and>
        (cur_pkt_count (tx_list st ! ch) = 512 \<longrightarrow> queue_stopped st \<and> stop_queue_channel st = int ch)) \<and>
     (queue_stopped st \<longrightarrow> (\<exists>ch<2. stop_queue_channel st = int ch \<and> cur_pkt_count (tx_list st ! ch) = 512))"

definition pending_of :: "tx_state \<Rightarrow> nat \<Rightarrow> u8 list list" where
  "pending_of st ch = pending (tx_list st ! ch) (engine_h2c st ! ch)"

text \<open>
  What the hardware sends on channel \<open>ch\<close> because of a step from log \<open>l\<close> to state \<open>st'\<close> with log
  \<open>l'\<close>: if the step has set the run bit, the frames of the list it was started with.
\<close>

definition sent_by :: "tx_state \<Rightarrow> io_log \<Rightarrow> io_log \<Rightarrow> nat \<Rightarrow> u8 list list" where
  "sent_by st' l l' ch =
     (let e = engine_h2c st' ! ch in if runs e l' = runs e l then [] else hw_frames e l')"

text \<open>
  The transitions of the transmit side: the network stack submits a frame while the queue
  runs, or one of the two interrupts is handled. \<open>sub\<close> and \<open>snt\<close> record, per channel, the frames
  submitted (as padded) and the frames the hardware was made to send.
\<close>

type_synonym tx_sys = "tx_state \<times> io_log \<times> (nat \<Rightarrow> u8 list list) \<times> (nat \<Rightarrow> u8 list list)"

inductive tx_step :: "device \<Rightarrow> tx_sys \<Rightarrow> tx_sys \<Rightarrow> bool" for hw where
  xmit: "\<lbrakk>\<not> queue_stopped st; pad_skb skb = Some skb'; length (tx_data skb') \<le> 2040;
          ax_net_start_xmit hw skb st l = Some (rv, st', l'); ch = (if tx_hw_tstamp skb then 1 else 0)\<rbrakk>
     \<Longrightarrow> tx_step hw (st, l, sub, snt)
          (st', l', sub(ch := sub ch @ [tx_data skb']), \<lambda>c. snt c @ sent_by st' l l' c)"
| irq0: "xdma_channel_H2C_irq hw st l = Some (st', l')
     \<Longrightarrow> tx_step hw (st, l, sub, snt) (st', l', sub, \<lambda>c. snt c @ sent_by st' l l' c)"
| irq1: "xdma_channel_H2C_PTP_irq hw st l = Some (st', l')
     \<Longrightarrow> tx_step hw (st, l, sub, snt) (st', l', sub, \<lambda>c. snt c @ sent_by st' l l' c)"

text \<open>Reachable from a state with both channels set up and idle, nothing submitted and nothing sent.\<close>

definition tx_init :: "tx_state \<Rightarrow> bool" where
  "tx_init st \<longleftrightarrow> tx_inv st \<and> \<not> queue_stopped st \<and> (\<forall>ch<2. idle (tx_list st ! ch))"

definition tx_reachable :: "device \<Rightarrow> tx_state \<Rightarrow> io_log \<Rightarrow> tx_sys \<Rightarrow> bool" where
  "tx_reachable hw st l s \<longleftrightarrow> (tx_step hw)\<^sup>*\<^sup>* (st, l, \<lambda>_. [], \<lambda>_. []) s"

subsection \<open>Logs of one channel and the other\<close>

lemma runs_same: "same_engine e e' \<Longrightarrow> runs e' l = runs e l"
  by (induction e l rule: runs.induct) (auto simp: same_engine_def)

text \<open>Register blocks of different channels do not overlap.\<close>

lemma block_apart:
  fixes a b :: int
  assumes "0 \<le> a" "a < 256" "0 \<le> b" "b < 256"
  shows "256 * x + a = 256 * y + b \<longleftrightarrow> x = y \<and> a = b"
proof
  assume eq: "256 * x + a = 256 * y + b"
  then have "x = y" using assms by linarith
  with eq show "x = y \<and> a = b" by simp
qed simp

lemma runs_stop_log: "regs e' = 0x100 * int c' \<Longrightarrow> regs e = 0x100 * int c \<Longrightarrow> runs e' (stop_log e v l) = runs e' l"
  by (auto simp: stop_log_def block_apart)

lemma runs_start_log_other:
  assumes "regs e = 0x100 * int c" "regs e' = 0x100 * int c'" "sgdma_regs e = regs e + 0x4000" "c \<noteq> c'" "c < 2" "c' < 2"
  shows "runs e' (start_log e first l) = runs e' l"
  using assms by (auto simp: start_log_def less_2_cases_iff)

lemma hw_frames_same_writes:
  assumes "\<And>off. off = 0x80 \<or> off = 0x84 \<Longrightarrow> last_write (ebar e, sgdma_regs e + off) l = last_write (ebar e, sgdma_regs e + off) l'"
  shows "hw_frames e l = hw_frames e l'"
  using assms by (simp add: hw_frames_def)

subsection \<open>One step\<close>

lemma tx_invD:
  assumes "tx_inv st" and "ch < 2"
  shows "chan_inv (tx_list st ! ch) (engine_h2c st ! ch)" "regs (engine_h2c st ! ch) = 0x100 * int ch"
    "sgdma_regs (engine_h2c st ! ch) = regs (engine_h2c st ! ch) + 0x4000"
    "cur_pkt_count (tx_list st ! ch) = 512 \<Longrightarrow> queue_stopped st \<and> stop_queue_channel st = int ch"
    "length (tx_list st) = 2" "length (engine_h2c st) = 2" "magic (engine_h2c st ! ch) = MAGIC_ENGINE"
  using assms by (auto simp: tx_inv_def chan_inv_def eng_ok_def)

lemma pending_0: "cur_pkt_count lst = 0 \<Longrightarrow> pending lst e = []"
  by (simp add: pending_def split: option.split)

text \<open>Replacing channel \<open>ch\<close> by one in order keeps the invariant, if the queue's state fits.\<close>

lemma tx_inv_update:
  assumes inv: "tx_inv st" and ch: "ch < 2" and c: "chan_inv lst' e'" "same_engine (engine_h2c st ! ch) e'"
    and st': "tx_list st' = (tx_list st)[ch := lst']" "engine_h2c st' = (engine_h2c st)[ch := e']"
    and q: "queue_stopped st' \<and> stop_queue_channel st' = int ch \<and> cur_pkt_count lst' = 512 \<and>
              (\<forall>c<2. c \<noteq> ch \<longrightarrow> cur_pkt_count (tx_list st ! c) \<noteq> 512) \<or>
            \<not> queue_stopped st' \<and> cur_pkt_count lst' \<noteq> 512 \<and> (\<forall>c<2. c \<noteq> ch \<longrightarrow> cur_pkt_count (tx_list st ! c) \<noteq> 512) \<or>
            queue_stopped st' \<and> queue_stopped st \<and> stop_queue_channel st' = stop_queue_channel st \<and> cur_pkt_count lst' \<noteq> 512 \<and>
              stop_queue_channel st \<noteq> int ch"
  shows "tx_inv st'"
proof -
  note len = tx_invD(5,6) [OF inv ch]
  have ch_inv: "chan_inv (tx_list st' ! c) (engine_h2c st' ! c) \<and> regs (engine_h2c st' ! c) = 0x100 * int c" if "c < 2" for c
    using tx_invD(1,2) [OF inv that] tx_invD(2) [OF inv ch] c that ch len
    by (cases "c = ch") (auto simp: st' same_engine_def)
  have cnt: "cur_pkt_count (tx_list st' ! c) = (if c = ch then cur_pkt_count lst' else cur_pkt_count (tx_list st ! c))" if "c < 2" for c
    using that ch len by (simp add: st'(1))
  from inv have stop: "queue_stopped st \<Longrightarrow> \<exists>c<2. stop_queue_channel st = int c \<and> cur_pkt_count (tx_list st ! c) = 512"
    by (simp add: tx_inv_def)
  have full: "cur_pkt_count (tx_list st ! c) = 512 \<Longrightarrow> queue_stopped st \<and> stop_queue_channel st = int c" if "c < 2" for c
    using tx_invD(4) [OF inv that] .
  have 1: "queue_stopped st' \<and> stop_queue_channel st' = int c" if "c < 2" "cur_pkt_count (tx_list st' ! c) = 512" for c
    using q that full [OF that(1)] cnt [OF that(1)] by (auto split: if_splits)
  have 2: "\<exists>c<2. stop_queue_channel st' = int c \<and> cur_pkt_count (tx_list st' ! c) = 512" if "queue_stopped st'"
    using q that ch stop cnt by (metis (no_types, lifting) of_nat_eq_iff)
  show ?thesis using ch_inv 1 2 len by (auto simp: tx_inv_def st')
qed

lemma sent_pending_update:
  assumes inv: "tx_inv st" and ch: "ch < 2" and c: "same_engine (engine_h2c st ! ch) e'"
    and st': "tx_list st' = (tx_list st)[ch := lst']" "engine_h2c st' = (engine_h2c st)[ch := e']"
    and here: "(if runs e' l' = runs e' l then [] else hw_frames e' l') @ pending lst' e' = pending (tx_list st ! ch) (engine_h2c st ! ch) @ fr"
    and there: "\<And>c. c < 2 \<Longrightarrow> c \<noteq> ch \<Longrightarrow> runs (engine_h2c st ! c) l' = runs (engine_h2c st ! c) l"
    and d: "d < 2"
  shows "sent_by st' l l' d @ pending_of st' d = pending_of st d @ (if d = ch then fr else [])"
  using tx_invD(5,6) [OF inv ch] here there [OF d] d ch
  by (cases "d = ch") (simp_all add: sent_by_def pending_of_def st' Let_def)

lemma xmit_step_ok:
  assumes inv: "tx_inv st" and q: "\<not> queue_stopped st" and pad: "pad_skb skb = Some skb'" and len: "length (tx_data skb') \<le> 2040"
  defines "ch \<equiv> (if tx_hw_tstamp skb then 1 else 0 :: nat)"
  shows "\<exists>st' l'. ax_net_start_xmit hw skb st l = Some (0, st', l') \<and> tx_inv st' \<and>
     (\<forall>d<2. sent_by st' l l' d @ pending_of st' d = pending_of st d @ (if d = ch then [tx_data skb'] else [])) \<and>
     (running (engine_h2c st ! ch) \<longrightarrow> running_part (engine_h2c st' ! ch) = running_part (engine_h2c st ! ch) \<and> l' = l) \<and>
     running (engine_h2c st' ! ch) \<and> (\<not> running (engine_h2c st ! ch) \<longrightarrow> pending_of st' ch = [])"
proof -
  let ?lst = "tx_list st ! ch" and ?e = "engine_h2c st ! ch"
  have ch: "ch < 2" by (simp add: ch_def)
  note I = tx_invD [OF inv ch]
  have none: "\<forall>c<2. cur_pkt_count (tx_list st ! c) \<noteq> 512" using inv q by (auto simp: tx_inv_def)
  have hs: "tx_hw_tstamp skb' = tx_hw_tstamp skb" using pad by (auto simp: pad_skb_def Let_def split: if_splits)
  have get: "arr_get (tx_list st) (int ch) = Some ?lst" "arr_get (engine_h2c st) (int ch) = Some ?e"
    using I(5,6) ch by (simp_all add: arr_get_def)
  define upd where "upd lst e full = (let s0 = (if tx_hw_tstamp skb then st\<lparr>tx_timestamp := tx_timestamp st @ [skb']\<rparr> else st);
      s1 = s0\<lparr>tx_list := (tx_list s0)[ch := lst], engine_h2c := (engine_h2c s0)[ch := e]\<rparr>
      in if full then s1\<lparr>queue_stopped := True, stop_queue_channel := int ch\<rparr> else s1)" for lst e full
  have upd: "tx_list (upd lst e f) = (tx_list st)[ch := lst]" "engine_h2c (upd lst e f) = (engine_h2c st)[ch := e]"
    "queue_stopped (upd lst e f) = f" "f \<Longrightarrow> stop_queue_channel (upd lst e f) = int ch" for lst e f
    using q by (simp_all add: upd_def Let_def)
  have run: "ax_net_start_xmit hw skb st l = map_option (\<lambda>(lst, e, full, l). (0, upd lst e full, l)) (chan_xmit hw (tx_data skb') ?lst ?e l)"
    using get pad hs by (simp add: ax_net_start_xmit_def ch_def upd_def Let_def case_prod_unfold cong: if_cong)
  show ?thesis
  proof (cases "idle ?lst")
    case True
    obtain lst' e' first where x: "chan_xmit hw (tx_data skb') ?lst ?e l = Some (lst', e', False, start_log ?e first l)"
        "chan_inv lst' e'" "\<not> idle lst'" "cur_pkt_count lst' = 0" "same_engine ?e e'" "hw_frames e' (start_log ?e first l) = [tx_data skb']"
      using chan_xmit_idle [OF I(1) True len] by metis
    have nr: "\<not> running ?e" "cur_pkt_count ?lst = 0" using I(1) True by (simp_all add: chan_inv_def)
    let ?l' = "start_log ?e first l" and ?st' = "upd lst' e' False"
    have "tx_inv ?st'" by (rule tx_inv_update [OF inv ch x(2,5) upd(1,2)]) (use none x(4) upd(3) in auto)
    moreover have "sent_by ?st' l ?l' d @ pending_of ?st' d = pending_of st d @ (if d = ch then [tx_data skb'] else [])" if "d < 2" for d
    proof (rule sent_pending_update [OF inv ch x(5) upd(1,2) _ _ that])
      show "(if runs e' ?l' = runs e' l then [] else hw_frames e' ?l') @ pending lst' e' = pending ?lst ?e @ [tx_data skb']"
        using x(4,6) nr(2) runs_same [OF x(5)] runs_start_log [OF I(3)] by (simp add: pending_0)
      show "runs (engine_h2c st ! c) ?l' = runs (engine_h2c st ! c) l" if "c < 2" "c \<noteq> ch" for c
        using runs_start_log_other [OF I(2) tx_invD(2) [OF inv that(1)] I(3)] that ch by simp
    qed
    moreover have "running (engine_h2c ?st' ! ch)" using ch I(6) x(2,3) by (simp add: upd(2) chan_inv_def)
    moreover have "pending_of ?st' ch = []" using ch I(5) x(4) by (simp add: pending_of_def upd(1) pending_0)
    ultimately show ?thesis using run x(1) nr(1) by auto
  next
    case False
    have room: "cur_pkt_count ?lst < 512" using none ch I(1) by (auto simp: chan_inv_def order.strict_iff_order)
    obtain lst' e' where x: "chan_xmit hw (tx_data skb') ?lst ?e l = Some (lst', e', cur_pkt_count lst' = 512, l)"
        "chan_inv lst' e'" "same_engine ?e e'" "pending lst' e' = pending ?lst ?e @ [tx_data skb']" "running_part e' = running_part ?e" "\<not> idle lst'"
      using chan_xmit_busy [OF I(1) False room len] by metis
    let ?st' = "upd lst' e' (cur_pkt_count lst' = 512)"
    have "tx_inv ?st'" by (rule tx_inv_update [OF inv ch x(2,3) upd(1,2)]) (use none upd(3,4) in auto)
    moreover have "sent_by ?st' l l d @ pending_of ?st' d = pending_of st d @ (if d = ch then [tx_data skb'] else [])" if "d < 2" for d
      by (rule sent_pending_update [OF inv ch x(3) upd(1,2) _ _ that]) (use x(4) in simp_all)
    moreover have "engine_h2c ?st' ! ch = e'" using ch I(6) by (simp add: upd(2))
    moreover have "running e'" "running ?e" using x(2,6) I(1) False by (simp_all add: chan_inv_def)
    ultimately show ?thesis using run x(1,5) by auto
  qed
qed

subsection \<open>One interrupt\<close>

definition irq_pre_log :: "tx_state \<Rightarrow> xdma_engine \<Rightarrow> io_log \<Rightarrow> io_log" where
  "irq_pre_log st e l = RD (cfg_bar st, IR_channel_int_pending) # WR (ebar e, regs e + 0x98) (interrupt_enable_mask_value e) #
     RD (cfg_bar st, IR_channel_int_request) # l"

lemma runs_irq_log:
  assumes "regs e = 0x100 * int c" "regs e' = 0x100 * int c'"
  shows "runs e' (irq_pre_log st e l) = runs e' l" "runs e' (WR (ebar e, regs e + 0x94) v # l) = runs e' l"
  using assms by (auto simp: irq_pre_log_def block_apart)

lemma hw_frames_enable:
  "same_engine e e' \<Longrightarrow> sgdma_regs e = regs e + 0x4000 \<Longrightarrow> hw_frames e' (WR (ebar e, regs e + 0x94) v # l) = hw_frames e' l"
  by (rule hw_frames_same_writes) (auto simp: same_engine_def)

text \<open>Serving a channel: the frames pending on it are what the hardware is started with, if there are any.\<close>

lemma chan_service_ok:
  assumes inv: "chan_inv lst e" and r: "regs e = 0x100 * int c" "sgdma_regs e = regs e + 0x4000" and c: "c < 2"
  shows "\<exists>lst' e' l'. chan_service hw lst e l = Some (lst', e', l') \<and> chan_inv lst' e' \<and> same_engine e e' \<and>
     cur_pkt_count lst' = 0 \<and> (if runs e' l' = runs e' l then [] else hw_frames e' l') = pending lst e \<and>
     (\<forall>c' e2. c' < 2 \<longrightarrow> c' \<noteq> c \<longrightarrow> regs e2 = 0x100 * int c' \<longrightarrow> runs e2 l' = runs e2 l)"
proof -
  define v where "v = hw l (ebar e, regs e + 0x40)"
  have run: "chan_service hw lst e l = h2c_restart hw lst (e\<lparr>status := v, running := False\<rparr>) (stop_log e v l)"
    by (simp add: chan_service_def v_def engine_status_read_def xdma_engine_stop_def io_simps Let_def stop_log_def)
  have stop: "runs e2 (stop_log e v l) = runs e2 l" if "regs e2 = 0x100 * int c'" for e2 c'
    using runs_stop_log [OF that r(1)] .
  show ?thesis
  proof (cases "cur_pkt_count lst = 0")
    case True
    then show ?thesis
      using h2c_restart_none [OF inv True, of hw v "stop_log e v l"] run stop runs_same [of e "e\<lparr>status := v, running := False\<rparr>"] r(1)
      by (auto simp: pending_0)
  next
    case False
    then obtain n where "cur_pkt_count lst = int (Suc n)"
      using inv by (metis chan_inv_def gr0_implies_Suc of_nat_0_less_iff order.not_eq_order_implies_strict zero_le_imp_eq_int)
    from h2c_restart_ok [OF inv this, of hw v "stop_log e v l"] obtain lst' e' first where
      x: "h2c_restart hw lst (e\<lparr>status := v, running := False\<rparr>) (stop_log e v l) = Some (lst', e', start_log e first (stop_log e v l))"
        "chan_inv lst' e'" "cur_pkt_count lst' = 0" "same_engine e e'" "hw_frames e' (start_log e first (stop_log e v l)) = pending lst e"
      by blast
    have "runs e' (start_log e first (stop_log e v l)) = Suc (runs e' l)"
      using runs_same [OF x(4)] runs_start_log [OF r(2)] stop [OF r(1)] by simp
    moreover have "runs e2 (start_log e first (stop_log e v l)) = runs e2 l" if "c' < 2" "c' \<noteq> c" "regs e2 = 0x100 * int c'" for c' e2
      using runs_start_log_other [OF r(1) that(3) r(2)] stop [OF that(3)] that c by simp
    ultimately show ?thesis using run x by auto
  qed
qed

lemma irq_step_ok:
  fixes hw :: device and l :: io_log
  assumes inv: "tx_inv st" and ch: "ch < 2"
    and srv: "\<And>s. tx_list (f s) = tx_list s" "\<And>s. engine_h2c (f s) = engine_h2c s" "\<And>s. queue_stopped (f s) = queue_stopped s"
      "\<And>s. stop_queue_channel (f s) = stop_queue_channel s"
  defines "msk \<equiv> hw l (cfg_bar st, IR_channel_int_request) AND mask_irq_h2c st"
  shows "\<exists>st' l'. h2c_irq hw ch f st l = Some (st', l') \<and> tx_inv st' \<and>
     (\<forall>d<2. sent_by st' l l' d @ pending_of st' d = pending_of st d) \<and>
     (irq_bitmask (engine_h2c st ! ch) AND msk \<noteq> 0 \<and> magic (engine_h2c st ! ch) = MAGIC_ENGINE \<and> stop_queue_channel st = int ch \<longrightarrow>
        \<not> queue_stopped st')"
proof -
  let ?lst = "tx_list st ! ch" and ?e = "engine_h2c st ! ch"
  note I = tx_invD [OF inv ch]
  have get: "arr_get (tx_list st) (int ch) = Some ?lst" "arr_get (engine_h2c st) (int ch) = Some ?e"
    using I(5,6) ch by (simp_all add: arr_get_def)
  let ?pre = "irq_pre_log st ?e l"
  let ?en = "\<lambda>l. WR (ebar ?e, regs ?e + 0x94) (interrupt_enable_mask_value ?e) # l"
  have nosend: "sent_by st l l' d @ pending_of st d = pending_of st d"
    if "runs (engine_h2c st ! d) l' = runs (engine_h2c st ! d) l" for d l'
    using that by (simp add: sent_by_def Let_def)
  show ?thesis
  proof (cases "msk \<noteq> 0 \<and> irq_bitmask ?e AND msk \<noteq> 0 \<and> magic ?e = MAGIC_ENGINE")
    case False
    then have "\<exists>l'. h2c_irq hw ch f st l = Some (st, l') \<and> (l' = RD (cfg_bar st, IR_channel_int_request) # l \<or> l' = ?en ?pre)"
      using get by (auto simp: h2c_irq_def io_simps Let_def msk_def irq_pre_log_def)
    then obtain l' where l': "h2c_irq hw ch f st l = Some (st, l')" "l' = RD (cfg_bar st, IR_channel_int_request) # l \<or> l' = ?en ?pre"
      by blast
    have "runs (engine_h2c st ! d) l' = runs (engine_h2c st ! d) l" if "d < 2" for d
      using l'(2) runs_irq_log [OF I(2) tx_invD(2) [OF inv that]] by auto
    then show ?thesis using False l'(1) inv nosend by (auto simp: msk_def)
  next
    case True
    from chan_service_ok [OF I(1,2,3) ch, of hw ?pre] obtain lst' e' l1 where
      x: "chan_service hw ?lst ?e ?pre = Some (lst', e', l1)" "chan_inv lst' e'" "same_engine ?e e'" "cur_pkt_count lst' = 0"
        "(if runs e' l1 = runs e' ?pre then [] else hw_frames e' l1) = pending ?lst ?e"
        "\<And>c' e2. c' < 2 \<Longrightarrow> c' \<noteq> ch \<Longrightarrow> regs e2 = 0x100 * int c' \<Longrightarrow> runs e2 l1 = runs e2 ?pre"
      by blast
    define st' where "st' = h2c_wake (int ch) (f (st\<lparr>tx_list := (tx_list st)[ch := lst'], engine_h2c := (engine_h2c st)[ch := e']\<rparr>))"
    have run: "h2c_irq hw ch f st l = Some (st', ?en l1)"
      using True get x(1) by (simp add: h2c_irq_def io_simps Let_def msk_def irq_pre_log_def st'_def)
    have u: "tx_list st' = (tx_list st)[ch := lst']" "engine_h2c st' = (engine_h2c st)[ch := e']"
      by (simp_all add: st'_def h2c_wake_def srv)
    have qs: "queue_stopped st' \<longleftrightarrow> queue_stopped st \<and> stop_queue_channel st \<noteq> int ch"
      "stop_queue_channel st \<noteq> int ch \<Longrightarrow> stop_queue_channel st' = stop_queue_channel st"
      by (simp_all add: st'_def h2c_wake_def srv)
    have "tx_inv st'"
      by (rule tx_inv_update [OF inv ch x(2,3) u]) (use x(4) qs tx_invD(4) [OF inv] in auto)
    moreover have "sent_by st' l (?en l1) d @ pending_of st' d = pending_of st d @ (if d = ch then [] else [])" if "d < 2" for d
    proof (rule sent_pending_update [OF inv ch x(3) u _ _ that])
      have r': "regs e' = 0x100 * int ch" using x(3) I(2) by (simp add: same_engine_def)
      show "(if runs e' (?en l1) = runs e' l then [] else hw_frames e' (?en l1)) @ pending lst' e' = pending ?lst ?e @ []"
        using x(4,5) runs_irq_log [OF I(2) r'] hw_frames_enable [OF x(3) I(3)] by (simp add: pending_0 split: if_splits)
      show "runs (engine_h2c st ! c) (?en l1) = runs (engine_h2c st ! c) l" if "c < 2" "c \<noteq> ch" for c
        using x(6) [OF that tx_invD(2) [OF inv that(1)]] runs_irq_log [OF I(2) tx_invD(2) [OF inv that(1)]] by simp
    qed
    ultimately show ?thesis using run qs(1) by auto
  qed
qed

text \<open>An interrupt that is requested and for this channel leaves nothing pending on it and wakes the queue it stopped.\<close>

lemma irq_serves:
  fixes hw :: device and l :: io_log and f :: "tx_state \<Rightarrow> tx_state"
  assumes inv: "tx_inv st" and ch: "ch < 2"
    and srv: "\<And>s. tx_list (f s) = tx_list s" "\<And>s. engine_h2c (f s) = engine_h2c s" "\<And>s. queue_stopped (f s) = queue_stopped s"
      "\<And>s. stop_queue_channel (f s) = stop_queue_channel s"
    and req: "stop_queue_channel st = int ch"
      "irq_bitmask (engine_h2c st ! ch) AND hw l (cfg_bar st, IR_channel_int_request) AND mask_irq_h2c st \<noteq> 0"
  shows "\<exists>st' l'. h2c_irq hw ch f st l = Some (st', l') \<and> \<not> queue_stopped st' \<and>
     sent_by st' l l' ch = pending (tx_list st ! ch) (engine_h2c st ! ch)"
proof -
  from irq_step_ok [OF inv ch srv, where hw = hw and l = l] req tx_invD(7) [OF inv ch] obtain st' l' where
    x: "h2c_irq hw ch f st l = Some (st', l')" "\<not> queue_stopped st'" "sent_by st' l l' ch @ pending_of st' ch = pending_of st ch"
    using ch by (auto simp: and.assoc)
  have "pending_of st' ch = []"
  proof -
    note I = tx_invD [OF inv ch]
    let ?pre = "irq_pre_log st (engine_h2c st ! ch) l"
    from chan_service_ok [OF I(1,2,3) ch, of hw ?pre] obtain lst' e' l1 where
      s: "chan_service hw (tx_list st ! ch) (engine_h2c st ! ch) ?pre = Some (lst', e', l1)" "cur_pkt_count lst' = 0" by blast
    have "irq_bitmask (engine_h2c st ! ch) AND (hw l (cfg_bar st, IR_channel_int_request) AND mask_irq_h2c st) \<noteq> 0"
      using req(2) by (simp add: and.assoc)
    moreover from this have "hw l (cfg_bar st, IR_channel_int_request) AND mask_irq_h2c st \<noteq> 0" by auto
    ultimately have "tx_list st' = (tx_list st)[ch := lst']"
      using x(1) s(1) req(1) I(5,6,7) ch
      by (auto simp: h2c_irq_def io_simps Let_def arr_get_def irq_pre_log_def h2c_wake_def srv)
    then show ?thesis using s(2) ch I(5) by (simp add: pending_of_def pending_0)
  qed
  with x show ?thesis by (auto simp: pending_of_def)
qed

subsection \<open>All reachable states\<close>

lemma tx_step_inv:
  assumes "tx_step hw (st, l, sub, snt) (st', l', sub', snt')" and "tx_inv st"
    and "\<forall>ch<2. sub ch = snt ch @ pending_of st ch"
  shows "tx_inv st' \<and> (\<forall>ch<2. sub' ch = snt' ch @ pending_of st' ch)"
  using assms(1)
proof cases
  case (xmit skb skb' rv ch)
  then show ?thesis using xmit_step_ok [OF assms(2), of skb skb' hw l] assms(3) by auto
next
  case irq0
  then show ?thesis
    using irq_step_ok [OF assms(2), of 0 id hw l] assms(3) by (auto simp: xdma_channel_H2C_irq_def)
next
  case irq1
  then show ?thesis
    using irq_step_ok [OF assms(2), of 1 "\<lambda>st. st\<lparr>tasklet_scheduled := True\<rparr>" hw l] assms(3) by (auto simp: xdma_channel_H2C_PTP_irq_def)
qed

lemma tx_reachable_inv:
  assumes "tx_reachable hw st0 l0 s" and "tx_init st0"
  shows "case s of (st, l, sub, snt) \<Rightarrow> tx_inv st \<and> (\<forall>ch<2. sub ch = snt ch @ pending_of st ch)"
  using assms(1) unfolding tx_reachable_def
proof (induction rule: rtranclp_induct)
  case base
  have "pending_of st0 ch = []" if "ch < 2" for ch
    using assms(2) that tx_invD(1) [of st0 ch] by (auto simp: tx_init_def pending_of_def chan_inv_def intro!: pending_0)
  then show ?case using assms(2) by (simp add: tx_init_def)
next
  case (step s s')
  obtain st l sub snt st' l' sub' snt' where "s = (st, l, sub, snt)" "s' = (st', l', sub', snt')" by (metis prod_cases4)
  then show ?case using step tx_step_inv [of hw st l sub snt st' l' sub' snt'] by simp
qed

lemma sample_tx_frame: "tx_data sample_tx_skb = replicate 60 7" "\<not> tx_hw_tstamp sample_tx_skb" "pad_skb sample_tx_skb = Some sample_tx_skb"
  by (simp_all add: pad_skb_def sample_tx_skb_def)

lemma sample_tx_init: "tx_init sample_tx_state"
proof -
  let ?t = "zero_transfer\<lparr>desc_virt := map (\<lambda>i. desc_inited 0x10000 512 i sample_desc) [0..<1024],
       desc_bus := 0x10000, desc_num := 1024, list_desc := [0x10000, desc_addr 0x10000 512]\<rparr>"
  have map: "map (\<lambda>i. if i < 2 * 512 then desc_inited 0x10000 512 i (replicate 1024 sample_desc ! i) else replicate 1024 sample_desc ! i)
      [0..<length (replicate 1024 sample_desc)] = map (\<lambda>i. desc_inited 0x10000 512 i sample_desc) [0..<1024]" by simp
  have "linked 0x10000 (map (\<lambda>i. desc_inited 0x10000 512 i sample_desc) [0..<1024]) (k * 512) 512" if "k < 2" for k
    using inited_linked [of 512 k "replicate 1024 sample_desc" "0x10000"] that unfolding map by simp
  from this [of 0] this [of 1] have "lists_ok ?t" by (simp add: lists_ok_def zero_transfer_def)
  moreover have "bufs_ok (replicate 1024 (replicate 2048 0))" by (simp add: bufs_ok_def)
  ultimately have chan: "chan_inv \<lparr>idle = True, cur = 0, cur_pkt_count = 0\<rparr> (sample_tx_engine ch)" for ch
    by (simp add: chan_inv_def eng_ok_def sample_tx_engine_def list_base_def zero_transfer_def)
  have "regs (sample_tx_engine ch) = 0x100 * int ch" for ch by (simp add: sample_tx_engine_def)
  with chan show ?thesis
    by (auto simp: tx_init_def tx_inv_def sample_tx_state_def less_2_cases_iff)
qed

text \<open>Channel 0 can be filled frame by frame, the first frame starting the engine; the 513th stops the queue.\<close>

lemma pending_count: "tx_inv st \<Longrightarrow> ch < 2 \<Longrightarrow> int (length (pending_of st ch)) = cur_pkt_count (tx_list st ! ch)"
  by (drule (1) tx_invD(1)) (auto simp: pending_of_def pending_def chan_inv_def eng_ok_def)

lemma queue_stopped_iff:
  assumes "tx_inv st"
  shows "queue_stopped st \<longleftrightarrow> length (pending_of st 0) = 512 \<or> length (pending_of st 1) = 512"
proof -
  have "queue_stopped st \<longleftrightarrow> (\<exists>ch<2. cur_pkt_count (tx_list st ! ch) = 512)" using assms by (auto simp: tx_inv_def)
  also have "\<dots> \<longleftrightarrow> cur_pkt_count (tx_list st ! 0) = 512 \<or> cur_pkt_count (tx_list st ! 1) = 512"
    by (metis less_2_cases_iff One_nat_def)
  finally show ?thesis using pending_count [OF assms, of 0] pending_count [OF assms, of 1] by linarith
qed

lemma sample_tx_fill:
  "n \<le> 512 \<Longrightarrow> \<exists>st l sub snt. tx_reachable hw sample_tx_state [] (st, l, sub, snt) \<and> running (engine_h2c st ! 0) \<and>
     (queue_stopped st \<longleftrightarrow> n = 512) \<and> length (pending_of st 0) = n \<and> length (pending_of st 1) = 0"
proof (induction n)
  case 0
  have inv: "tx_inv sample_tx_state" and q: "\<not> queue_stopped sample_tx_state" using sample_tx_init by (simp_all add: tx_init_def)
  have nr: "\<not> running (engine_h2c sample_tx_state ! 0)" by (simp add: sample_tx_state_def sample_tx_engine_def)
  have p0: "pending_of sample_tx_state d = []" if "d < 2" for d
    using that by (auto simp: pending_of_def sample_tx_state_def less_2_cases_iff intro!: pending_0)
  have "length (tx_data sample_tx_skb) \<le> 2040" by (simp add: sample_tx_frame)
  from xmit_step_ok [OF inv q sample_tx_frame(3) this, of hw "[]"] obtain st l where
    x: "ax_net_start_xmit hw sample_tx_skb sample_tx_state [] = Some (0, st, l)" "tx_inv st" "running (engine_h2c st ! 0)" "pending_of st 0 = []"
      "\<forall>d<2. sent_by st [] l d @ pending_of st d = pending_of sample_tx_state d @ (if d = 0 then [tx_data sample_tx_skb] else [])"
    using nr by (auto simp: sample_tx_frame)
  have p1: "pending_of st 1 = []" using x(5) [rule_format, of 1] p0 [of 1] by simp
  have "tx_step hw (sample_tx_state, [], \<lambda>_. [], \<lambda>_. []) (st, l, (\<lambda>_. [])(0 := [] @ [tx_data sample_tx_skb]), \<lambda>c. [] @ sent_by st [] l c)"
    using tx_step.xmit [OF q sample_tx_frame(3) _ x(1), of 0 "\<lambda>_. []" "\<lambda>_. []"] by (simp add: sample_tx_frame)
  then have "tx_reachable hw sample_tx_state [] (st, l, (\<lambda>_. [])(0 := [] @ [tx_data sample_tx_skb]), \<lambda>c. [] @ sent_by st [] l c)"
    by (auto simp: tx_reachable_def)
  moreover have "\<not> queue_stopped st"
    using queue_stopped_iff [OF x(2)] x(4) p1 by simp
  moreover have "length (pending_of st 0) = 0" "length (pending_of st 1) = 0" using x(4) p1 by simp_all
  ultimately show ?case using x(3) by (metis zero_neq_numeral)
next
  case (Suc n)
  then obtain st l sub snt where r: "tx_reachable hw sample_tx_state [] (st, l, sub, snt)" "running (engine_h2c st ! 0)"
    "\<not> queue_stopped st" "length (pending_of st 0) = n" "length (pending_of st 1) = 0" by auto
  have inv: "tx_inv st" using tx_reachable_inv [OF r(1) sample_tx_init] by simp
  have "length (tx_data sample_tx_skb) \<le> 2040" by (simp add: sample_tx_frame)
  from xmit_step_ok [OF inv r(3) sample_tx_frame(3) this, of hw l] obtain st' where
    x: "ax_net_start_xmit hw sample_tx_skb st l = Some (0, st', l)" "tx_inv st'" "running (engine_h2c st' ! 0)"
      "\<forall>d<2. sent_by st' l l d @ pending_of st' d = pending_of st d @ (if d = 0 then [tx_data sample_tx_skb] else [])"
    using r(2) by (auto simp: sample_tx_frame)
  have p: "length (pending_of st' 0) = Suc n" "length (pending_of st' 1) = 0"
    using x(4) [rule_format, of 0] x(4) [rule_format, of 1] r(4,5) by (simp_all add: sent_by_def)
  have "tx_step hw (st, l, sub, snt) (st', l, sub(0 := sub 0 @ [tx_data sample_tx_skb]), \<lambda>c. snt c @ sent_by st' l l c)"
    using tx_step.xmit [OF r(3) sample_tx_frame(3) _ x(1), of 0 sub snt] by (simp add: sample_tx_frame)
  then have "tx_reachable hw sample_tx_state [] (st', l, sub(0 := sub 0 @ [tx_data sample_tx_skb]), \<lambda>c. snt c @ sent_by st' l l c)"
    using r(1) unfolding tx_reachable_def by (rule rtranclp.rtrancl_into_rtrancl [rotated])
  moreover have "queue_stopped st' \<longleftrightarrow> Suc n = 512"
    using queue_stopped_iff [OF x(2)] p by simp
  ultimately show ?case using x(3) p by blast
qed

subsection \<open>Properties\<close>

text \<open>
  C1. Frames are sent exactly once and in order: in every reachable state, for each of the
  two channels, the frames submitted are the frames the hardware was made to send (followed
  through the descriptor memory from the address in its registers) followed by those still
  pending in the list being filled. No frame is lost, duplicated or overtaken, however
  submissions and completion interrupts interleave and whatever the hardware answers.
\<close>

theorem tx_frames_in_order:
  assumes "tx_init st0" and "tx_reachable hw st0 l0 (st, l, sub, snt)" and "ch < 2"
  shows "sub ch = snt ch @ pending (tx_list st ! ch) (engine_h2c st ! ch)"
  using tx_reachable_inv [OF assms(2,1)] assms(3) by (simp add: pending_of_def)

theorem tx_frames_in_order_witness:
  "\<exists>st l snt. tx_reachable (\<lambda>l a. 0) sample_tx_state [] (st, l, (\<lambda>_. [])(0 := [replicate 60 7]), snt) \<and>
     [replicate 60 7] = snt 0 @ pending (tx_list st ! 0) (engine_h2c st ! 0)"
proof -
  have inv: "tx_inv sample_tx_state" and q: "\<not> queue_stopped sample_tx_state"
    using sample_tx_init by (simp_all add: tx_init_def)
  note pad = sample_tx_frame(3)
  obtain st l where x: "ax_net_start_xmit (\<lambda>l a. 0) sample_tx_skb sample_tx_state [] = Some (0, st, l)"
    using xmit_step_ok [OF inv q pad, of "\<lambda>l a. 0" "[]"] by (auto simp: sample_tx_frame)
  have "tx_step (\<lambda>l a. 0) (sample_tx_state, [], \<lambda>_. [], \<lambda>_. []) (st, l, (\<lambda>_. [])(0 := [] @ [tx_data sample_tx_skb]), \<lambda>c. [] @ sent_by st [] l c)"
    using tx_step.xmit [OF q pad _ x, of 0 "\<lambda>_. []" "\<lambda>_. []"] by (simp add: sample_tx_frame)
  then have r: "tx_reachable (\<lambda>l a. 0) sample_tx_state [] (st, l, (\<lambda>_. [])(0 := [replicate 60 7]), sent_by st [] l)"
    by (auto simp: tx_reachable_def sample_tx_frame)
  show ?thesis using tx_frames_in_order [OF sample_tx_init r, of 0] r by auto
qed



text \<open>
  The driver never writes to memory the hardware may be using: submitting a frame while
  the channel's engine runs changes none of the 512 descriptors and buffers of the running
  list, and touches no register.
\<close>

theorem tx_running_list_untouched:
  assumes "tx_init st0" and "tx_reachable hw st0 l0 (st, l, sub, snt)"
    and "\<not> queue_stopped st" and "pad_skb skb = Some skb'" and "length (tx_data skb') \<le> 2040"
    and "ch = (if tx_hw_tstamp skb then 1 else 0)" and "running (engine_h2c st ! ch)"
  shows "\<exists>st'. ax_net_start_xmit hw skb st l = Some (0, st', l) \<and> running_part (engine_h2c st' ! ch) = running_part (engine_h2c st ! ch)"
proof -
  have inv: "tx_inv st" using tx_reachable_inv [OF assms(2,1)] by simp
  from xmit_step_ok [OF inv assms(3,4,5), of hw l] assms(6,7) show ?thesis by auto
qed

theorem tx_running_list_untouched_witness:
  "\<exists>st l st'. running (engine_h2c st ! 0) \<and> ax_net_start_xmit (\<lambda>l a. 3) sample_tx_skb st l = Some (0, st', l) \<and>
     running_part (engine_h2c st' ! 0) = running_part (engine_h2c st ! 0)"
proof -
  obtain st l sub snt where r: "tx_reachable (\<lambda>l a. 3) sample_tx_state [] (st, l, sub, snt)" "running (engine_h2c st ! 0)"
      "\<not> queue_stopped st"
    using sample_tx_fill [of 0 "\<lambda>l a. 3"] by auto
  from tx_running_list_untouched [OF sample_tx_init r(1,3) sample_tx_frame(3), of 0] r(2) show ?thesis
    by (auto simp: sample_tx_frame)
qed

text \<open>
  C12. A stopped queue is always woken: in every reachable state in which the queue is stopped,
  the engine of the channel that filled its list is running, and when its completion interrupt
  arrives (its request bit is set) the handler starts the full list and restarts the queue.
\<close>

theorem tx_queue_wakes:
  assumes "tx_init st0" and "tx_reachable hw st0 l0 (st, l, sub, snt)" and "queue_stopped st"
  shows "\<exists>ch<2. stop_queue_channel st = int ch \<and> running (engine_h2c st ! ch) \<and> length (pending (tx_list st ! ch) (engine_h2c st ! ch)) = 512 \<and>
     (irq_bitmask (engine_h2c st ! ch) AND hw l (cfg_bar st, IR_channel_int_request) AND mask_irq_h2c st \<noteq> 0 \<longrightarrow>
       (\<exists>st' l'. (if ch = 0 then xdma_channel_H2C_irq hw st l else xdma_channel_H2C_PTP_irq hw st l) = Some (st', l') \<and>
          \<not> queue_stopped st' \<and> sent_by st' l l' ch = pending (tx_list st ! ch) (engine_h2c st ! ch)))"
proof -
  have inv: "tx_inv st" using tx_reachable_inv [OF assms(2,1)] by simp
  then obtain ch where ch: "ch < 2" "stop_queue_channel st = int ch" "cur_pkt_count (tx_list st ! ch) = 512"
    using assms(3) by (auto simp: tx_inv_def)
  note I = tx_invD [OF inv ch(1)]
  have run: "running (engine_h2c st ! ch)" using I(1) ch(3) by (auto simp: chan_inv_def)
  obtain bufs where "tx_buff (engine_h2c st ! ch) = Some bufs" using I(1) by (auto simp: chan_inv_def eng_ok_def)
  then have len: "length (pending (tx_list st ! ch) (engine_h2c st ! ch)) = 512" by (simp add: pending_def ch(3))
  define f :: "tx_state \<Rightarrow> tx_state" where "f = (if ch = 0 then id else (\<lambda>st. st\<lparr>tasklet_scheduled := True\<rparr>))"
  have h: "(if ch = 0 then xdma_channel_H2C_irq hw st l else xdma_channel_H2C_PTP_irq hw st l) = h2c_irq hw ch f st l"
    using ch(1) by (auto simp: f_def xdma_channel_H2C_irq_def xdma_channel_H2C_PTP_irq_def less_2_cases_iff)
  have f: "tx_list (f s) = tx_list s" "engine_h2c (f s) = engine_h2c s" "queue_stopped (f s) = queue_stopped s"
    "stop_queue_channel (f s) = stop_queue_channel s" for s by (simp_all add: f_def)
  from irq_serves [OF inv ch(1) f] ch h run len show ?thesis by metis
qed

theorem tx_queue_wakes_witness:
  "\<exists>st :: tx_state. queue_stopped st \<and> (\<exists>ch<2. stop_queue_channel st = int ch \<and> running (engine_h2c st ! ch) \<and>
     length (pending (tx_list st ! ch) (engine_h2c st ! ch)) = 512)"
proof -
  obtain st l sub snt where r: "tx_reachable (\<lambda>l a. 3) sample_tx_state [] (st, l, sub, snt)" "queue_stopped st"
    using sample_tx_fill [of 512 "\<lambda>l a. 3"] by auto
  from tx_queue_wakes [OF sample_tx_init r] r(2) show ?thesis by blast
qed

end
