(* ===== verification/Rx_Path.thy ===== *)
theory Rx_Path
  imports Tx_Path Sdsa_Tag
begin

unbundle bit_operations_syntax

section \<open>The receive path\<close>

text \<open>
  \<open>ax_net_rx\<close>, \<open>ax_net_poll\<close> and \<open>xdma_channel_C2H_irq\<close> of \<open>libxdma.c\<close>. The hardware completes
  frames into a ring of 1024 packet buffers and marks each in the result ring; the poll routine
  copies completed frames into socket buffers, classifies and time-stamps them, hands them to
  the stack, clears their marks and remembers where it stopped. The interrupt restarts the
  engine on the next descriptor list when one is used up, and schedules the poll.

  A poll is one atomic step: it is the only reader of the ring, and the hardware only writes
  entries that carry no mark. The socket buffer allocator is a parameter. A length beyond the
  2048 bytes of a packet buffer makes the copy leave the buffer, which is \<open>None\<close>.
\<close>

subsection \<open>Data\<close>

text \<open>What the routines use of the net device and the call, and do not change.\<close>

record rx_env =
  rx_hw :: device
  rx_fuel :: nat
  rx_ts :: capture_data
  rx_ts_d :: capture_data
  netdev :: int
  netdev_addr :: "u8 list"
  netdev_broadcast :: "u8 list"
  netdev_dsa :: bool
  skb_headroom :: "u8 list"

text \<open>\<open>rx_up\<close> lists the socket buffers handed to the stack, oldest first.\<close>

record rx_state =
  engine_c2h :: xdma_engine
  cur_rx :: int
  cur_rx_pkt_count :: u32
  rx_bytes :: u64
  rx_packets :: u64
  rx_switch :: ax_switch
  rx_up :: "sk_buff list"
  napi_scheduled :: bool
  rx_cfg_bar :: int
  mask_irq_c2h :: u32

subsection \<open>The poll routine\<close>

text \<open>The socket buffer with the copied frame, before it is classified.\<close>

definition rx_skb :: "rx_env \<Rightarrow> u8 list \<Rightarrow> sk_buff" where
  "rx_skb env frame = \<lparr>skb_buf = skb_headroom env @ [0, 0] @ frame, skb_off = length (skb_headroom env) + 2, skb_mac = 0,
     protocol = 0, skb_dev = None, skb_pkt_type = PACKET_HOST, csum_complete = False, csum = 0, offload_fwd_mark = False, hwtstamp = None\<rparr>"

definition rx_classify_skb :: "rx_env \<Rightarrow> u8 list \<Rightarrow> ax_switch \<Rightarrow> io_log \<Rightarrow> (sk_buff \<times> ax_switch \<times> io_log) option" where
  "rx_classify_skb env frame sw l =
     Option.bind (ax_eth_type_trans (netdev env) (netdev_addr env) (netdev_broadcast env) (netdev_dsa env) (rx_skb env frame))
       (\<lambda>(proto, skb). ax_rx_check_timestamp (rx_fuel env) (rx_hw env) (rx_ts env) (rx_ts_d env) (skb\<lparr>protocol := proto\<rparr>) sw l)"

definition rx_deliver :: "rx_env \<Rightarrow> u8 list \<Rightarrow> rx_state \<Rightarrow> io_log \<Rightarrow> (rx_state \<times> io_log) option" where
  "rx_deliver env frame st l =
     map_option (\<lambda>(skb, sw, l).
       (st\<lparr>rx_switch := sw, rx_up := rx_up st @ [skb], rx_bytes := rx_bytes st + of_nat (length frame),
           rx_packets := rx_packets st + 1, cur_rx_pkt_count := cur_rx_pkt_count st + 1\<rparr>, l))
       (rx_classify_skb env frame (rx_switch st) l)"

definition result_ready :: "xdma_result \<Rightarrow> bool" where
  "result_ready r \<longleftrightarrow> res_status r AND 0xFFFF0000 = C2H_WB"

definition clear_result :: "int \<Rightarrow> rx_state \<Rightarrow> rx_state" where
  "clear_result entry st =
     st\<lparr>engine_c2h := (engine_c2h st)\<lparr>cyclic_result :=
          map_option (\<lambda>rs. rs[nat entry := (rs ! nat entry)\<lparr>res_status := 0, res_length := 0\<rparr>]) (cyclic_result (engine_c2h st))\<rparr>\<rparr>"

text \<open>
  The loop of \<open>ax_net_rx\<close>. \<open>alloc n size\<close> says whether the allocation of \<open>size\<close> bytes made after
  \<open>n\<close> delivered frames succeeds.
\<close>

function rx_loop :: "rx_env \<Rightarrow> (nat \<Rightarrow> u32 \<Rightarrow> bool) \<Rightarrow> int \<Rightarrow> int \<Rightarrow> int \<Rightarrow> rx_state \<Rightarrow> io_log \<Rightarrow>
    (int \<times> rx_state \<times> io_log) option" where
  "rx_loop env alloc budget work_done entry st l =
     (case (cyclic_result (engine_c2h st), rx_buff (engine_c2h st)) of
        (Some rs, Some bufs) \<Rightarrow>
          (case arr_get rs entry of
             None \<Rightarrow> None
           | Some r \<Rightarrow>
               if \<not> (result_ready r \<and> budget \<noteq> 0) then Some (work_done, st\<lparr>cur_rx := entry\<rparr>, l)
               else if work_done \<ge> budget then Some (work_done, st\<lparr>cur_rx := entry\<rparr>, l)
               else
                 (let len = res_length r in
                  if \<not> alloc (length (rx_up st)) (len + 2) then Some (work_done, st\<lparr>cur_rx := entry\<rparr>, l)
                  else
                    (case Option.bind (arr_get bufs entry) (\<lambda>b. mem_read b 0 (unat len)) of
                       None \<Rightarrow> None
                     | Some frame \<Rightarrow>
                         (case rx_deliver env frame st l of
                            None \<Rightarrow> None
                          | Some (st, l) \<Rightarrow>
                              rx_loop env alloc budget (work_done + 1) ((entry + 1) mod RX_DESC_NUM) (clear_result entry st) l))))
      | _ \<Rightarrow> None)"
  by auto
termination by (relation "measure (\<lambda>(env, alloc, budget, work_done, entry, st, l). nat (budget - work_done))") auto

definition ax_net_rx :: "rx_env \<Rightarrow> (nat \<Rightarrow> u32 \<Rightarrow> bool) \<Rightarrow> int \<Rightarrow> int \<Rightarrow> rx_state \<Rightarrow> io_log \<Rightarrow> (int \<times> rx_state \<times> io_log) option" where
  "ax_net_rx env alloc work_done budget st l = rx_loop env alloc budget work_done (cur_rx st) st l"

definition ax_net_poll :: "rx_env \<Rightarrow> (nat \<Rightarrow> u32 \<Rightarrow> bool) \<Rightarrow> int \<Rightarrow> rx_state \<Rightarrow> io_log \<Rightarrow> (int \<times> rx_state \<times> io_log) option" where
  "ax_net_poll env alloc budget st l =
     map_option (\<lambda>(work_done, st, l).
       if work_done < budget
       then (work_done, st\<lparr>napi_scheduled := False\<rparr>,
             iowrite32 (irq_bitmask (engine_c2h st)) (rx_cfg_bar st, IR_channel_int_enable_w1s) l)
       else (work_done, st, l))
       (ax_net_rx env alloc 0 budget st l)"

subsection \<open>The completion interrupt\<close>

definition c2h_next_list :: "device \<Rightarrow> xdma_engine \<Rightarrow> io_log \<Rightarrow> (xdma_engine \<times> io_log) option" where
  "c2h_next_list hw e l =
     (let (e, l) = xdma_engine_stop e l in
      case transfer e of
        None \<Rightarrow> None
      | Some t \<Rightarrow> engine_start hw (e\<lparr>transfer := Some (next_list t)\<rparr>) l)"

definition xdma_channel_C2H_irq :: "device \<Rightarrow> rx_state \<Rightarrow> io_log \<Rightarrow> (rx_state \<times> io_log) option" where
  "xdma_channel_C2H_irq hw st l =
     (let e = engine_c2h st;
          (ch_irq, l) = ioread32 hw (rx_cfg_bar st, IR_channel_int_request) l;
          msk = ch_irq AND mask_irq_c2h st
      in if msk \<noteq> 0 then
           (let l = iowrite32 (interrupt_enable_mask_value e) (ebar e, regs e + ER_interrupt_enable_mask_w1c) l;
                (_, l) = ioread32 hw (rx_cfg_bar st, IR_channel_int_pending) l;
                enable = (\<lambda>l. iowrite32 (interrupt_enable_mask_value e) (ebar e, regs e + ER_interrupt_enable_mask_w1s) l)
            in if irq_bitmask e AND msk \<noteq> 0 \<and> magic e = MAGIC_ENGINE then
                 (let (isr, e, l) = engine_status_read hw e True l;
                      (engine_desc, l) = ioread32 hw (ebar e, regs e + ER_completed_desc_count) l
                  in map_option (\<lambda>(e, l). (st\<lparr>engine_c2h := e, napi_scheduled := True\<rparr>, enable l))
                       (if isr AND XDMA_STAT_DESC_STOPPED \<noteq> 0 \<or> engine_desc = 512
                        then c2h_next_list hw e l else Some (e, l)))
               else Some (st, enable l))
         else Some (st, l))"

text \<open>
  The C2H part of \<open>xdma_isr\<close>: one channel. The request stays disabled until the poll has caught
  up (\<open>ax_net_poll\<close> enables it again).
\<close>

definition isr_c2h :: "device \<Rightarrow> u32 \<Rightarrow> rx_state \<Rightarrow> io_log \<Rightarrow> (rx_state \<times> io_log) option" where
  "isr_c2h hw ch_irq st l =
     (let msk = ch_irq AND mask_irq_c2h st; e = engine_c2h st in
      if msk \<noteq> 0 \<and> irq_bitmask e AND msk \<noteq> 0 \<and> magic e = MAGIC_ENGINE then
        (let (isr, e, l) = engine_status_read hw e True l
         in map_option (\<lambda>(e, l). (st\<lparr>engine_c2h := e, napi_scheduled := True\<rparr>, l))
              (if isr AND XDMA_STAT_DESC_STOPPED \<noteq> 0 then c2h_next_list hw e l else Some (e, l)))
      else Some (st, l))"

subsection \<open>The ring as a queue of frames\<close>

definition slot :: "rx_state \<Rightarrow> nat \<Rightarrow> nat" where
  "slot st k = nat ((cur_rx st + int k) mod 1024)"

text \<open>
  The ring holds \<open>n\<close> frames: the \<open>n\<close> entries from \<open>cur_rx\<close> on carry the mark and a length that fits
  a packet buffer, and no other entry carries it.
\<close>

definition rx_inv :: "rx_state \<Rightarrow> nat \<Rightarrow> bool" where
  "rx_inv st n \<longleftrightarrow> 0 \<le> cur_rx st \<and> cur_rx st < 1024 \<and> n \<le> 1024 \<and>
     (\<exists>rs bufs. cyclic_result (engine_c2h st) = Some rs \<and> rx_buff (engine_c2h st) = Some bufs \<and> length rs = 1024 \<and> bufs_ok bufs \<and>
        (\<forall>k<1024. result_ready (rs ! slot st k) \<longleftrightarrow> k < n) \<and> (\<forall>k<n. unat (res_length (rs ! slot st k)) \<le> 2048))"

definition ring_frame :: "rx_state \<Rightarrow> nat \<Rightarrow> u8 list" where
  "ring_frame st k =
     (case (cyclic_result (engine_c2h st), rx_buff (engine_c2h st)) of
        (Some rs, Some bufs) \<Rightarrow> take (unat (res_length (rs ! slot st k))) (bufs ! slot st k)
      | _ \<Rightarrow> [])"

definition ring_frames :: "rx_state \<Rightarrow> nat \<Rightarrow> u8 list list" where
  "ring_frames st n = map (ring_frame st) [0..<n]"

text \<open>The frame in a socket buffer, Ethernet header included.\<close>

definition frame_of_skb :: "sk_buff \<Rightarrow> u8 list" where
  "frame_of_skb skb = drop (skb_mac skb) (skb_buf skb)"

lemma slot_less [simp]: "slot st k < 1024"
  by (simp add: slot_def nat_less_iff)

lemma slot_inj:
  assumes "k < 1024" "j < 1024"
  shows "slot st k = slot st j \<longleftrightarrow> k = j"
proof
  assume "slot st k = slot st j"
  then have "(cur_rx st + int k) mod 1024 = (cur_rx st + int j) mod 1024" by (simp add: slot_def)
  then have "int k mod 1024 = int j mod 1024" by (simp add: mod_eq_dvd_iff)
  then show "k = j" using assms by simp
qed simp

lemma slot_Suc: "cur_rx st' = (cur_rx st + 1) mod 1024 \<Longrightarrow> slot st' k = slot st (Suc k)"
  by (simp add: slot_def mod_simps algebra_simps)

lemma slot_wrap: "slot st 1024 = slot st 0"
  by (simp add: slot_def)

text \<open>Consuming the first frame of the ring leaves the others.\<close>

lemma rx_inv_consume:
  assumes inv: "rx_inv st (Suc n)"
    and e: "engine_c2h st1 = engine_c2h st"
  defines "st2 \<equiv> (clear_result (cur_rx st) st1)\<lparr>cur_rx := (cur_rx st + 1) mod 1024\<rparr>"
  shows "rx_inv st2 n" "ring_frames st (Suc n) = ring_frame st 0 # ring_frames st2 n"
proof -
  from inv obtain rs bufs where i: "0 \<le> cur_rx st" "cur_rx st < 1024" "Suc n \<le> 1024" "cyclic_result (engine_c2h st) = Some rs"
      "rx_buff (engine_c2h st) = Some bufs" "length rs = 1024" "bufs_ok bufs"
      "\<And>k. k < 1024 \<Longrightarrow> result_ready (rs ! slot st k) \<longleftrightarrow> k < Suc n" "\<And>k. k < Suc n \<Longrightarrow> unat (res_length (rs ! slot st k)) \<le> 2048"
    by (auto simp: rx_inv_def)
  have s0: "nat (cur_rx st) = slot st 0" using i(1,2) by (simp add: slot_def)
  define rs2 where "rs2 = rs[slot st 0 := (rs ! slot st 0)\<lparr>res_status := 0, res_length := 0\<rparr>]"
  have e2: "cyclic_result (engine_c2h st2) = Some rs2" "rx_buff (engine_c2h st2) = Some bufs"
    using i(4,5) by (simp_all add: st2_def clear_result_def e rs2_def s0)
  have sl: "slot st2 k = slot st (Suc k)" for k by (rule slot_Suc) (simp add: st2_def)
  have same: "rs2 ! slot st2 k = rs ! slot st (Suc k)" if "k < 1023" for k
    using that slot_inj [of "Suc k" 0 st] by (simp add: sl rs2_def)
  have last: "\<not> result_ready (rs2 ! slot st2 1023)"
    using i(6) by (simp add: sl rs2_def slot_wrap result_ready_def)
  have rdy: "result_ready (rs2 ! slot st2 k) \<longleftrightarrow> k < n" if "k < 1024" for k
  proof (cases "k = 1023")
    case True
    then show ?thesis using last i(3) by simp
  next
    case False
    then have "k < 1023" using that by simp
    then show ?thesis using same [of k] i(8) [of "Suc k"] by simp
  qed
  have len: "unat (res_length (rs2 ! slot st2 k)) \<le> 2048" if "k < n" for k
    using same [of k] i(9) [of "Suc k"] i(3) that by simp
  have cur: "0 \<le> cur_rx st2" "cur_rx st2 < 1024" by (simp_all add: st2_def)
  show "rx_inv st2 n" unfolding rx_inv_def using cur e2 i(3,6,7) rdy len by (simp add: rs2_def)
  have "ring_frame st2 k = ring_frame st (Suc k)" if "k < n" for k
    using same [of k] that i(3) e2 i(4,5) by (simp add: ring_frame_def sl)
  then show "ring_frames st (Suc n) = ring_frame st 0 # ring_frames st2 n"
    by (simp add: ring_frames_def upt_conv_Cons map_Suc_upt [symmetric] del: upt_Suc)
qed

subsection \<open>Delivering a frame\<close>

lemma eth_type_trans_frame:
  "ax_eth_type_trans dev a b dsa skb = Some (p, skb') \<Longrightarrow> skb_buf skb' = skb_buf skb \<and> skb_mac skb' = skb_off skb"
  by (auto simp: ax_eth_type_trans_def skb_pull_def Let_def split: if_splits option.splits)

lemma check_timestamp_frame:
  "ax_rx_check_timestamp fuel hw ts tsd skb sw l = Some (skb', sw', l') \<Longrightarrow> skb_buf skb' = skb_buf skb \<and> skb_mac skb' = skb_mac skb"
  by (auto simp: ax_rx_check_timestamp_def Let_def case_prod_unfold split: if_splits option.splits rx_class.splits bind_splits)

lemma rx_classify_frame:
  assumes "rx_classify_skb env f sw l = Some (skb, sw', l')"
  shows "frame_of_skb skb = f"
proof -
  from assms obtain p s where "ax_eth_type_trans (netdev env) (netdev_addr env) (netdev_broadcast env) (netdev_dsa env) (rx_skb env f) = Some (p, s)"
      "ax_rx_check_timestamp (rx_fuel env) (rx_hw env) (rx_ts env) (rx_ts_d env) (s\<lparr>protocol := p\<rparr>) sw l = Some (skb, sw', l')"
    by (auto simp: rx_classify_skb_def bind_eq_Some_conv)
  with eth_type_trans_frame [OF this(1)] check_timestamp_frame [OF this(2)] show ?thesis
    by (simp add: frame_of_skb_def rx_skb_def)
qed

lemma rx_deliver_ok:
  assumes "rx_deliver env f st l = Some (st1, l1)"
  shows "engine_c2h st1 = engine_c2h st" "map frame_of_skb (rx_up st1) = map frame_of_skb (rx_up st) @ [f]"
    "rx_packets st1 = rx_packets st + 1" "cur_rx_pkt_count st1 = cur_rx_pkt_count st + 1"
    "rx_bytes st1 = rx_bytes st + of_nat (length f)" "napi_scheduled st1 = napi_scheduled st"
  using assms by (auto simp: rx_deliver_def rx_classify_frame)

subsection \<open>The loop consumes a prefix of the ring\<close>

declare rx_loop.simps [simp del]

lemma rx_inv_first:
  assumes "rx_inv st n" and "cyclic_result (engine_c2h st) = Some rs" and "rx_buff (engine_c2h st) = Some bufs"
  shows "arr_get rs (cur_rx st) = Some (rs ! slot st 0)" "result_ready (rs ! slot st 0) \<longleftrightarrow> 0 < n"
    "0 < n \<Longrightarrow> Option.bind (arr_get bufs (cur_rx st)) (\<lambda>b. mem_read b 0 (unat (res_length (rs ! slot st 0)))) = Some (ring_frame st 0)"
proof -
  have c: "0 \<le> cur_rx st" "cur_rx st < 1024" "length rs = 1024" "bufs_ok bufs" "n \<le> 1024"
      "\<And>k. k < 1024 \<Longrightarrow> result_ready (rs ! slot st k) \<longleftrightarrow> k < n" "\<And>k. k < n \<Longrightarrow> unat (res_length (rs ! slot st k)) \<le> 2048"
    using assms by (auto simp: rx_inv_def)
  have s0: "slot st 0 = nat (cur_rx st)" using c(1,2) by (simp add: slot_def)
  show "arr_get rs (cur_rx st) = Some (rs ! slot st 0)" using c(1-3) by (simp add: s0 arr_get_def)
  show "result_ready (rs ! slot st 0) \<longleftrightarrow> 0 < n" using c(6) [of 0] by simp
  have "arr_get bufs (cur_rx st) = Some (bufs ! slot st 0)" "length (bufs ! slot st 0) = 2048"
    using c(1,2) bufs_ok_nth [OF c(4) slot_less, of st 0] by (auto simp: s0 arr_get_def)
  then show "Option.bind (arr_get bufs (cur_rx st)) (\<lambda>b. mem_read b 0 (unat (res_length (rs ! slot st 0)))) = Some (ring_frame st 0)"
    if "0 < n" using c(7) [OF that] assms(2,3) by (simp add: mem_read_def ring_frame_def)
qed

text \<open>One round, seen from a state that carries the loop's position in \<open>cur_rx\<close>.\<close>

lemma rx_loop_unfold:
  assumes "rx_inv st n"
  shows "rx_loop env alloc budget wd (cur_rx st) st l =
     (if n = 0 \<or> budget \<le> wd \<or> budget = 0 \<or>
         \<not> alloc (length (rx_up st)) (res_length (the (cyclic_result (engine_c2h st)) ! slot st 0) + 2)
      then Some (wd, st, l)
      else case rx_deliver env (ring_frame st 0) st l of
             None \<Rightarrow> None
           | Some (st1, l1) \<Rightarrow> rx_loop env alloc budget (wd + 1) ((cur_rx st + 1) mod 1024) (clear_result (cur_rx st) st1) l1)"
proof -
  from assms obtain rs bufs where e: "cyclic_result (engine_c2h st) = Some rs" "rx_buff (engine_c2h st) = Some bufs"
    by (auto simp: rx_inv_def)
  show ?thesis
    by (subst rx_loop.simps) (use e rx_inv_first [OF assms e] in \<open>auto simp: Let_def split: option.split\<close>)
qed

text \<open>The loop does not look at the \<open>cur_rx\<close> field before it returns.\<close>

lemma rx_loop_cur: "rx_loop env alloc budget wd entry (st\<lparr>cur_rx := c\<rparr>) l = rx_loop env alloc budget wd entry st l"
proof (induction env alloc budget wd entry st l arbitrary: c rule: rx_loop.induct)
  case (1 env alloc budget wd entry st l)
  have d: "rx_deliver env f (st\<lparr>cur_rx := c\<rparr>) l = map_option (\<lambda>(st, l). (st\<lparr>cur_rx := c\<rparr>, l)) (rx_deliver env f st l)" for f
    by (cases st) (simp add: rx_deliver_def option.map_comp comp_def case_prod_unfold)
  have cl: "clear_result entry (st1\<lparr>cur_rx := c\<rparr>) = (clear_result entry st1)\<lparr>cur_rx := c\<rparr>" for st1
    by (simp add: clear_result_def)
  show ?case
    by (subst (1 2) rx_loop.simps) (auto simp: d cl Let_def 1 split: option.split)
qed

definition consumed :: "nat \<Rightarrow> rx_state \<Rightarrow> nat \<Rightarrow> rx_state \<Rightarrow> bool" where
  "consumed m st n st' \<longleftrightarrow> m \<le> n \<and> rx_inv st' (n - m) \<and> cur_rx st' = (cur_rx st + int m) mod 1024 \<and>
     ring_frames st' (n - m) = drop m (ring_frames st n) \<and>
     map frame_of_skb (rx_up st') = map frame_of_skb (rx_up st) @ take m (ring_frames st n) \<and>
     rx_packets st' = rx_packets st + of_nat m"

lemma consumed_0: "rx_inv st n \<Longrightarrow> consumed 0 st n st"
  by (simp add: consumed_def rx_inv_def)

lemma consumed_step:
  assumes inv: "rx_inv st (Suc n)" and d: "rx_deliver env (ring_frame st 0) st l = Some (st1, l1)"
    and st2: "st2 = (clear_result (cur_rx st) st1)\<lparr>cur_rx := (cur_rx st + 1) mod 1024\<rparr>"
    and c: "consumed m st2 n st'"
  shows "consumed (Suc m) st (Suc n) st'"
proof -
  note x = rx_deliver_ok(1-5) [OF d] rx_inv_consume [OF inv, of st1]
  have "map frame_of_skb (rx_up st2) = map frame_of_skb (rx_up st) @ [ring_frame st 0]" "rx_packets st2 = rx_packets st + 1"
    using x(2,3) by (simp_all add: st2 clear_result_def)
  moreover have "ring_frames st (Suc n) = ring_frame st 0 # ring_frames st2 n" using x(1,7) by (simp add: st2)
  moreover have "cur_rx st2 = (cur_rx st + 1) mod 1024" by (simp add: st2)
  moreover have "((cur_rx st + 1) mod 1024 + int m) mod 1024 = (cur_rx st + int (Suc m)) mod 1024"
    using mod_add_left_eq [of "cur_rx st + 1" 1024 "int m"] by (simp add: add.assoc)
  ultimately show ?thesis using c unfolding consumed_def by simp
qed

lemma rx_loop_consumes:
  assumes "rx_inv st n" and "rx_loop env alloc budget wd (cur_rx st) st l = Some (wd', st', l')"
  shows "\<exists>m. consumed m st n st' \<and> wd' = wd + int m \<and> (wd \<le> budget \<longrightarrow> wd' \<le> budget) \<and> napi_scheduled st' = napi_scheduled st"
  using assms
proof (induction n arbitrary: wd st l)
  case 0
  then show ?case using rx_loop_unfold [OF 0(1)] consumed_0 [OF 0(1)] by (intro exI [of _ 0]) simp
next
  case (Suc n)
  show ?case
  proof (cases "budget \<le> wd \<or> budget = 0 \<or>
         \<not> alloc (length (rx_up st)) (res_length (the (cyclic_result (engine_c2h st)) ! slot st 0) + 2)")
    case True
    then show ?thesis using Suc.prems(2) rx_loop_unfold [OF Suc.prems(1)] consumed_0 [OF Suc.prems(1)]
      by (intro exI [of _ 0]) auto
  next
    case False
    then obtain st1 l1 where d: "rx_deliver env (ring_frame st 0) st l = Some (st1, l1)"
        "rx_loop env alloc budget (wd + 1) ((cur_rx st + 1) mod 1024) (clear_result (cur_rx st) st1) l1 = Some (wd', st', l')"
      using Suc.prems(2) rx_loop_unfold [OF Suc.prems(1)] by (auto split: option.splits)
    define st2 where "st2 = (clear_result (cur_rx st) st1)\<lparr>cur_rx := (cur_rx st + 1) mod 1024\<rparr>"
    have "rx_loop env alloc budget (wd + 1) (cur_rx st2) st2 l1 = Some (wd', st', l')"
      using d(2) by (simp add: st2_def rx_loop_cur)
    moreover have "rx_inv st2 n" using rx_inv_consume(1) [OF Suc.prems(1) rx_deliver_ok(1) [OF d(1)]] by (simp add: st2_def)
    ultimately obtain m where "consumed m st2 n st'" "wd' = wd + 1 + int m" "wd + 1 \<le> budget \<longrightarrow> wd' \<le> budget"
        "napi_scheduled st' = napi_scheduled st2"
      using Suc.IH by blast
    moreover have "napi_scheduled st2 = napi_scheduled st" using rx_deliver_ok(6) [OF d(1)] by (simp add: st2_def clear_result_def)
    ultimately show ?thesis using consumed_step [OF Suc.prems(1) d(1) st2_def] False by (intro exI [of _ "Suc m"]) auto
  qed
qed

text \<open>With memory available and frames that can be classified, the loop returns and consumes all the budget allows.\<close>

lemma rx_loop_total:
  assumes "rx_inv st n" and "alloc = (\<lambda>_ _. True)" and "\<And>f sw l. f \<in> set (ring_frames st n) \<Longrightarrow> rx_classify_skb env f sw l \<noteq> None"
  shows "\<exists>st' l'. rx_loop env alloc budget wd (cur_rx st) st l = Some (wd + int (min n (nat (budget - wd))), st', l') \<or>
     budget = 0 \<and> rx_loop env alloc budget wd (cur_rx st) st l = Some (wd, st, l)"
  using assms(1,3)
proof (induction n arbitrary: wd st l)
  case 0
  then show ?case using rx_loop_unfold [OF 0(1)] by simp
next
  case (Suc n)
  show ?case
  proof (cases "budget \<le> wd \<or> budget = 0")
    case True
    then show ?thesis using rx_loop_unfold [OF Suc.prems(1)] by auto
  next
    case False
    have "ring_frame st 0 \<in> set (ring_frames st (Suc n))" unfolding ring_frames_def set_map by (rule imageI) auto
    then obtain st1 l1 where d: "rx_deliver env (ring_frame st 0) st l = Some (st1, l1)"
      using Suc.prems(2) [of "ring_frame st 0" "rx_switch st" l] by (auto simp: rx_deliver_def)
    define st2 where "st2 = (clear_result (cur_rx st) st1)\<lparr>cur_rx := (cur_rx st + 1) mod 1024\<rparr>"
    note c = rx_inv_consume [OF Suc.prems(1) rx_deliver_ok(1) [OF d], folded st2_def]
    have "rx_loop env alloc budget wd (cur_rx st) st l = rx_loop env alloc budget (wd + 1) (cur_rx st2) st2 l1"
      using False assms(2) d rx_loop_unfold [OF Suc.prems(1)] by (simp add: st2_def rx_loop_cur)
    moreover from Suc.IH [OF c(1), of "wd + 1" l1] Suc.prems(2) c(2) False obtain st' l' where
      "rx_loop env alloc budget (wd + 1) (cur_rx st2) st2 l1 = Some (wd + 1 + int (min n (nat (budget - (wd + 1)))), st', l')"
      by auto
    moreover have "wd + 1 + int (min n (nat (budget - (wd + 1)))) = wd + int (min (Suc n) (nat (budget - wd)))" using False by linarith
    ultimately show ?thesis by auto
  qed
qed

subsection \<open>The receive side as a system\<close>

text \<open>
  The transitions: the hardware completes a frame into the next ring entry (which must be free;
  the driver has no means to hold the hardware back), the poll runs, or the interrupt is
  handled. \<open>got\<close> records the frames the hardware has completed and \<open>n\<close> the entries in use.
\<close>

type_synonym rx_sys = "rx_state \<times> io_log \<times> nat \<times> u8 list list"

definition dma_complete :: "u8 list \<Rightarrow> u32 \<Rightarrow> nat \<Rightarrow> rx_state \<Rightarrow> rx_state" where
  "dma_complete frame wb i st =
     st\<lparr>engine_c2h := (engine_c2h st)\<lparr>
          cyclic_result := map_option (\<lambda>rs. rs[i := (rs ! i)\<lparr>res_status := wb, res_length := of_nat (length frame)\<rparr>]) (cyclic_result (engine_c2h st)),
          rx_buff := map_option (\<lambda>bufs. bufs[i := frame @ drop (length frame) (bufs ! i)]) (rx_buff (engine_c2h st))\<rparr>\<rparr>"

inductive rx_step :: "rx_env \<Rightarrow> rx_sys \<Rightarrow> rx_sys \<Rightarrow> bool" for env where
  dma: "\<lbrakk>n < 1024; length frame \<le> 2048; wb AND 0xFFFF0000 = C2H_WB\<rbrakk>
     \<Longrightarrow> rx_step env (st, l, n, got) (dma_complete frame wb (slot st n) st, l, Suc n, got @ [frame])"
| poll: "ax_net_poll env alloc budget st l = Some (work_done, st', l')
     \<Longrightarrow> rx_step env (st, l, n, got) (st', l', n - nat work_done, got)"
| irq: "xdma_channel_C2H_irq (rx_hw env) st l = Some (st', l')
     \<Longrightarrow> rx_step env (st, l, n, got) (st', l', n, got)"

definition rx_reachable :: "rx_env \<Rightarrow> rx_state \<Rightarrow> io_log \<Rightarrow> rx_sys \<Rightarrow> bool" where
  "rx_reachable env st l s \<longleftrightarrow> (rx_step env)\<^sup>*\<^sup>* (st, l, 0, []) s"

lemma dma_inv:
  assumes inv: "rx_inv st n" and n: "n < 1024" and f: "length frame \<le> 2048" and wb: "wb AND 0xFFFF0000 = C2H_WB"
  defines "st' \<equiv> dma_complete frame wb (slot st n) st"
  shows "rx_inv st' (Suc n)" "ring_frames st' (Suc n) = ring_frames st n @ [frame]" "rx_up st' = rx_up st"
proof -
  from inv obtain rs bufs where i: "0 \<le> cur_rx st" "cur_rx st < 1024" "cyclic_result (engine_c2h st) = Some rs"
      "rx_buff (engine_c2h st) = Some bufs" "length rs = 1024" "bufs_ok bufs"
      "\<And>k. k < 1024 \<Longrightarrow> result_ready (rs ! slot st k) \<longleftrightarrow> k < n" "\<And>k. k < n \<Longrightarrow> unat (res_length (rs ! slot st k)) \<le> 2048"
    by (auto simp: rx_inv_def)
  define r where "r = (rs ! slot st n)\<lparr>res_status := wb, res_length := of_nat (length frame)\<rparr>"
  define b where "b = frame @ drop (length frame) (bufs ! slot st n)"
  have e: "cyclic_result (engine_c2h st') = Some (rs[slot st n := r])" "rx_buff (engine_c2h st') = Some (bufs[slot st n := b])"
    "cur_rx st' = cur_rx st" "rx_up st' = rx_up st"
    using i(3,4) by (simp_all add: st'_def dma_complete_def r_def b_def)
  have sl: "slot st' k = slot st k" for k by (simp add: slot_def e(3))
  have lr: "unat (res_length r) = length frame" using f by (simp add: r_def unat_of_nat)
  have bl: "slot st n < length bufs" "length b = 2048" using bufs_ok_nth [OF i(6) slot_less, of st n] f by (auto simp: b_def)
  have at: "rs[slot st n := r] ! slot st' k = (if k = n then r else rs ! slot st k)" if "k < 1024" for k
    using that n i(5) slot_inj [OF that n, of st] by (auto simp: sl)
  have at_b: "bufs[slot st n := b] ! slot st' k = (if k = n then b else bufs ! slot st k)" if "k < 1024" for k
    using that n bl(1) slot_inj [OF that n, of st] by (auto simp: sl)
  have "result_ready r" using wb by (simp add: result_ready_def r_def)
  then have "result_ready (rs[slot st n := r] ! slot st' k) \<longleftrightarrow> k < Suc n" if "k < 1024" for k
    using that i(7) [OF that] at [OF that] by auto
  moreover have "unat (res_length (rs[slot st n := r] ! slot st' k)) \<le> 2048" if "k < Suc n" for k
    using that n i(8) [of k] at [of k] lr f by (auto split: if_splits)
  moreover have "bufs_ok (bufs[slot st n := b])" by (rule bufs_ok_update [OF i(6) bl(2)])
  ultimately show "rx_inv st' (Suc n)" unfolding rx_inv_def using e i(1,2,5) n by simp
  have "ring_frame st' k = ring_frame st k" if "k < n" for k
    using that n at [of k] at_b [of k] e(1,2) i(3,4) by (simp add: ring_frame_def sl)
  moreover have "ring_frame st' n = frame" using e(1,2) at [OF n] at_b [OF n] lr f by (simp add: ring_frame_def b_def)
  ultimately show "ring_frames st' (Suc n) = ring_frames st n @ [frame]" by (simp add: ring_frames_def)
  show "rx_up st' = rx_up st" by (rule e(4))
qed

lemma rx_inv_cong:
  assumes "cur_rx st' = cur_rx st" "cyclic_result (engine_c2h st') = cyclic_result (engine_c2h st)" "rx_buff (engine_c2h st') = rx_buff (engine_c2h st)"
  shows "rx_inv st' n = rx_inv st n" "ring_frames st' n = ring_frames st n"
proof -
  have s: "slot st' = slot st" by (simp add: slot_def assms fun_eq_iff)
  show "rx_inv st' n = rx_inv st n" by (simp add: rx_inv_def assms s)
  have "ring_frame st' = ring_frame st" by (rule ext) (simp add: ring_frame_def assms s split: option.split)
  then show "ring_frames st' n = ring_frames st n" by (simp add: ring_frames_def)
qed

lemma poll_consumes:
  assumes inv: "rx_inv st n" and p: "ax_net_poll env alloc budget st l = Some (wd, st', l')"
  shows "\<exists>m. consumed m st n st' \<and> wd = int m \<and> (0 \<le> budget \<longrightarrow> wd \<le> budget)"
proof -
  from p obtain st1 l1 where x: "rx_loop env alloc budget 0 (cur_rx st) st l = Some (wd, st1, l1)" "st' = st1 \<or> st' = st1\<lparr>napi_scheduled := False\<rparr>"
    by (auto simp: ax_net_poll_def ax_net_rx_def split: if_splits)
  from rx_loop_consumes [OF inv x(1)] obtain m where m: "consumed m st n st1" "wd = int m" "0 \<le> budget \<longrightarrow> wd \<le> budget" by auto
  have "consumed m st n (st1\<lparr>napi_scheduled := False\<rparr>) = consumed m st n st1"
    using rx_inv_cong [of "st1\<lparr>napi_scheduled := False\<rparr>" st1] by (simp add: consumed_def)
  with m x(2) show ?thesis by auto
qed

lemma irq_keeps_ring:
  assumes "xdma_channel_C2H_irq hw st l = Some (st', l')"
  shows "cur_rx st' = cur_rx st" "rx_up st' = rx_up st" "rx_packets st' = rx_packets st"
    "cyclic_result (engine_c2h st') = cyclic_result (engine_c2h st)" "rx_buff (engine_c2h st') = rx_buff (engine_c2h st)"
  using assms
  by (auto simp: xdma_channel_C2H_irq_def io_simps Let_def engine_status_read_def xdma_engine_stop_def c2h_next_list_def engine_start_def
      split: if_splits option.splits)

definition rx_sys_inv :: "u8 list list \<Rightarrow> rx_sys \<Rightarrow> bool" where
  "rx_sys_inv up0 s = (case s of (st, l, n, got) \<Rightarrow> rx_inv st n \<and> up0 @ got = map frame_of_skb (rx_up st) @ ring_frames st n)"

lemma rx_step_inv: "rx_step env s s' \<Longrightarrow> rx_sys_inv up0 s \<Longrightarrow> rx_sys_inv up0 s'"
proof (induction rule: rx_step.induct)
  case (dma n frame wb st l got)
  then show ?case using dma_inv [of st n frame wb] by (simp add: rx_sys_inv_def)
next
  case (poll alloc budget st l work_done st' l' n got)
  from poll(2) have "rx_inv st n" by (simp add: rx_sys_inv_def)
  with poll_consumes [OF this poll(1)] obtain m where "consumed m st n st'" "work_done = int m" by blast
  then show ?case using poll(2) by (simp add: rx_sys_inv_def consumed_def)
next
  case (irq st l st' l' n got)
  then show ?case using irq_keeps_ring [OF irq(1)] rx_inv_cong [of st' st n] by (simp add: rx_sys_inv_def)
qed

lemma rx_reachable_inv:
  assumes "rx_reachable env st0 l0 s" and "rx_inv st0 0"
  shows "rx_sys_inv (map frame_of_skb (rx_up st0)) s"
  using assms(1) unfolding rx_reachable_def
proof (induction rule: rtranclp_induct)
  case base
  show ?case using assms(2) by (simp add: rx_sys_inv_def ring_frames_def)
next
  case (step s s')
  then show ?case using rx_step_inv by blast
qed

text \<open>Frames received by a device that is not a DSA conduit can always be classified.\<close>

lemma eth_type_trans_plain:
  assumes "14 \<le> length (skb_bytes skb)"
  shows "case ax_eth_type_trans d a b False skb of None \<Rightarrow> False | Some (p, s) \<Rightarrow> p \<noteq> ETH_P_XDSA"
proof -
  have pick: "case (if 1536 \<le> h then Some (h, s)
      else (case skb_copy_u16 s 0 of Some sap \<Rightarrow> if sap = 0xFFFF then Some (ETH_P_802_3, s) else Some (ETH_P_802_2, s)
            | None \<Rightarrow> Some (ETH_P_802_2, s))) of None \<Rightarrow> False | Some (p, s) \<Rightarrow> p \<noteq> ETH_P_XDSA" for h and s :: sk_buff
    by (auto split: option.split)
  obtain s where "skb_pull (skb\<lparr>skb_dev := Some d, skb_mac := skb_off (skb\<lparr>skb_dev := Some d\<rparr>)\<rparr>) 14 = Some s"
    using assms by (simp add: skb_pull_def skb_bytes_def)
  then show ?thesis
    unfolding ax_eth_type_trans_def Let_def by (simp only: option.case simp_thms if_False pick)
qed

lemma classify_plain:
  assumes "\<not> netdev_dsa env" and "14 \<le> length f"
  shows "rx_classify_skb env f sw l \<noteq> None"
proof -
  have "14 \<le> length (skb_bytes (rx_skb env f))" using assms(2) by (simp add: rx_skb_def skb_bytes_def)
  from eth_type_trans_plain [OF this]
  have "case ax_eth_type_trans d a b False (rx_skb env f) of None \<Rightarrow> False | Some (p, s) \<Rightarrow> p \<noteq> ETH_P_XDSA" for d a b .
  then obtain p s where e: "ax_eth_type_trans (netdev env) (netdev_addr env) (netdev_broadcast env) (netdev_dsa env) (rx_skb env f) = Some (p, s)"
      "p \<noteq> ETH_P_XDSA"
    using assms(1) by (fastforce split: option.splits)
  then have "rx_classify (s\<lparr>protocol := p\<rparr>) = Some Rx_Plain" by (simp add: rx_classify_def)
  then show ?thesis using e by (simp add: rx_classify_skb_def ax_rx_check_timestamp_def)
qed

definition sample_rx_env :: rx_env where
  "sample_rx_env = \<lparr>rx_hw = (\<lambda>l a. 0), rx_fuel = 0, rx_ts = capture_of sample_entry, rx_ts_d = capture_of sample_entry, netdev = 7,
     netdev_addr = [2, 0, 0, 0, 0, 1], netdev_broadcast = replicate 6 0xFF, netdev_dsa = False, skb_headroom = replicate 64 0\<rparr>"

definition sample_rx_state :: rx_state where
  "sample_rx_state = \<lparr>engine_c2h = (sample_tx_engine 0)\<lparr>dir := DMA_FROM_DEVICE,
        cyclic_result := Some (replicate 1024 \<lparr>res_status = 0, res_length = 0\<rparr>), rx_buff := Some (replicate 1024 (replicate 2048 0))\<rparr>,
     cur_rx = 0, cur_rx_pkt_count = 0, rx_bytes = 0, rx_packets = 0, rx_switch = tstamp_switch, rx_up = [], napi_scheduled = True,
     rx_cfg_bar = 1, mask_irq_c2h = 1\<rparr>"

lemma sample_rx_inv: "rx_inv sample_rx_state 0"
  by (simp add: rx_inv_def sample_rx_state_def result_ready_def bufs_ok_def)

definition sample_rx_full :: rx_state where
  "sample_rx_full = dma_complete (replicate 60 9) 0x52B40001 (slot sample_rx_state 0) sample_rx_state"

lemma sample_rx_full: "rx_inv sample_rx_full 1" "ring_frames sample_rx_full 1 = [replicate 60 9]" "rx_up sample_rx_full = []"
  using dma_inv [OF sample_rx_inv, of "replicate 60 9" "0x52B40001"]
  by (simp_all add: sample_rx_full_def ring_frames_def sample_rx_state_def)

subsection \<open>Properties\<close>

text \<open>
  C2. Received frames are delivered once and in order: in every state reachable by frames being
  completed, polls and interrupts in any order, the frames the hardware has completed are those
  handed to the stack (byte for byte, Ethernet header included) followed by those still in the
  ring, whatever the budgets of the polls and however many allocations failed.
\<close>

theorem rx_frames_in_order:
  assumes "rx_inv st0 0" and "rx_up st0 = []" and "rx_reachable env st0 l0 (st, l, n, got)"
  shows "got = map frame_of_skb (rx_up st) @ ring_frames st n \<and> rx_inv st n"
  using rx_reachable_inv [OF assms(3,1)] assms(2) by (simp add: rx_sys_inv_def)

theorem rx_frames_in_order_witness:
  "rx_reachable sample_rx_env sample_rx_state [] (sample_rx_full, [], 1, [replicate 60 9]) \<and>
     [replicate 60 9] = map frame_of_skb (rx_up sample_rx_full) @ ring_frames sample_rx_full 1"
proof -
  have "rx_step sample_rx_env (sample_rx_state, [], 0, []) (sample_rx_full, [], Suc 0, [] @ [replicate 60 9])"
    unfolding sample_rx_full_def by (rule rx_step.dma) simp_all
  then have r: "rx_reachable sample_rx_env sample_rx_state [] (sample_rx_full, [], 1, [replicate 60 9])"
    by (auto simp: rx_reachable_def)
  have "rx_up sample_rx_state = []" by (simp add: sample_rx_state_def)
  from rx_frames_in_order [OF sample_rx_inv this r] r show ?thesis by simp
qed



text \<open>
  The receive interrupt keeps the engine going: when the C2H channel requests service, the
  handler never faults (the engine is stopped before it is started, so its \<open>BUG_ON\<close> cannot fire),
  leaves the ring alone, schedules the poll and enables the channel again as its last access;
  if the status says that the descriptor list has ended, or all its 512 descriptors are complete,
  the engine is running again on the other list, whose address is in its registers, and
  otherwise the engine has not been touched.
\<close>

theorem c2h_irq_restarts:
  assumes t: "transfer (engine_c2h st) = Some t" "lists_ok t" and m: "magic (engine_c2h st) = MAGIC_ENGINE"
    and req: "irq_bitmask (engine_c2h st) AND (hw l (rx_cfg_bar st, IR_channel_int_request) AND mask_irq_c2h st) \<noteq> 0"
    and sg: "sgdma_regs (engine_c2h st) = regs (engine_c2h st) + 0x4000"
    and l1: "l1 = RD (rx_cfg_bar st, IR_channel_int_pending) # WR (ebar (engine_c2h st), regs (engine_c2h st) + ER_interrupt_enable_mask_w1c)
          (interrupt_enable_mask_value (engine_c2h st)) # RD (rx_cfg_bar st, IR_channel_int_request) # l"
    and isr: "isr = hw l1 (ebar (engine_c2h st), regs (engine_c2h st) + ER_status)"
    and l2: "l2 = WR (ebar (engine_c2h st), regs (engine_c2h st) + ER_status) isr # RD (ebar (engine_c2h st), regs (engine_c2h st) + ER_status) # l1"
    and cnt: "cnt = hw l2 (ebar (engine_c2h st), regs (engine_c2h st) + ER_completed_desc_count)"
  shows "\<exists>st' l'. xdma_channel_C2H_irq hw st l = Some (st', l') \<and> napi_scheduled st' \<and> cur_rx st' = cur_rx st \<and>
     cyclic_result (engine_c2h st') = cyclic_result (engine_c2h st) \<and> rx_buff (engine_c2h st') = rx_buff (engine_c2h st) \<and>
     hd l' = WR (ebar (engine_c2h st), regs (engine_c2h st) + ER_interrupt_enable_mask_w1s) (interrupt_enable_mask_value (engine_c2h st)) \<and>
     (if isr AND XDMA_STAT_DESC_STOPPED \<noteq> 0 \<or> cnt = 512
      then running (engine_c2h st') \<and> transfer (engine_c2h st') = Some (next_list t) \<and>
           last_write (ebar (engine_c2h st), sgdma_regs (engine_c2h st) + SG_first_desc_lo) l' =
             Some (PCI_DMA_L (list_desc t ! nat (1 - current_list t))) \<and>
           last_write (ebar (engine_c2h st), sgdma_regs (engine_c2h st) + SG_first_desc_hi) l' =
             Some (PCI_DMA_H (list_desc t ! nat (1 - current_list t)))
      else transfer (engine_c2h st') = Some t \<and> running (engine_c2h st') = running (engine_c2h st))"
proof -
  let ?e = "engine_c2h st" and ?l3 = "RD (ebar (engine_c2h st), regs (engine_c2h st) + ER_completed_desc_count) # l2"
  let ?e0 = "?e\<lparr>status := isr\<rparr>"
  let ?en = "\<lambda>l. WR (ebar ?e, regs ?e + ER_interrupt_enable_mask_w1s) (interrupt_enable_mask_value ?e) # l"
  have msk: "hw l (rx_cfg_bar st, IR_channel_int_request) AND mask_irq_c2h st \<noteq> 0" using req by auto
  have run: "xdma_channel_C2H_irq hw st l = map_option (\<lambda>(e, l). (st\<lparr>engine_c2h := e, napi_scheduled := True\<rparr>, ?en l))
      (if isr AND XDMA_STAT_DESC_STOPPED \<noteq> 0 \<or> cnt = 512 then c2h_next_list hw ?e0 ?l3 else Some (?e0, ?l3))"
    using msk req m by (simp add: xdma_channel_C2H_irq_def io_simps Let_def engine_status_read_def l1 l2 isr cnt)
  show ?thesis
  proof (cases "isr AND XDMA_STAT_DESC_STOPPED \<noteq> 0 \<or> cnt = 512")
    case False
    then show ?thesis using run t(1) by simp
  next
    case True
    define e1 where "e1 = ?e0\<lparr>running := False, transfer := Some (next_list t)\<rparr>"
    define l4 where "l4 = WR (ebar ?e, regs ?e + ER_control) 0xF83E1E # ?l3"
    have nl: "lists_ok (next_list t)" by (rule lists_ok_update(3) [OF t(2)])
    have "c2h_next_list hw ?e0 ?l3 = engine_start hw e1 l4"
      using t(1) by (simp add: c2h_next_list_def xdma_engine_stop_def io_simps Let_def e1_def l4_def)
    also have "\<dots> = Some (e1\<lparr>shutdown := 0, desc_dequeued := 0, running := True\<rparr>,
        start_log e1 (desc_addr (desc_bus (next_list t)) (nat (current_list (next_list t) * 512))) l4)"
      by (rule engine_start_ok [OF _ _ nl]) (simp_all add: e1_def)
    finally have x: "c2h_next_list hw ?e0 ?l3 = \<dots>" .
    have "desc_addr (desc_bus (next_list t)) (nat (current_list (next_list t) * 512)) = list_desc t ! nat (1 - current_list t)"
      using t(2) by (auto simp: lists_ok_def next_list_def desc_addr_def)
    then show ?thesis using run True x sg by (simp add: e1_def start_log_def)
  qed
qed

theorem c2h_irq_restarts_witness:
  "\<exists>st' l'. xdma_channel_C2H_irq (\<lambda>l a. 3) sample_rx_state [] = Some (st', l') \<and> running (engine_c2h st') \<and> napi_scheduled st'"
proof -
  obtain t where t: "transfer (engine_c2h sample_rx_state) = Some t" "lists_ok t" "magic (engine_c2h sample_rx_state) = MAGIC_ENGINE"
      "sgdma_regs (engine_c2h sample_rx_state) = regs (engine_c2h sample_rx_state) + 0x4000"
    using tx_invD(1) [of sample_tx_state 0] sample_tx_init
    by (auto simp: tx_init_def chan_inv_def eng_ok_def sample_tx_state_def sample_rx_state_def)
  have req: "irq_bitmask (engine_c2h sample_rx_state) AND ((\<lambda>l a. 3) [] (rx_cfg_bar sample_rx_state, IR_channel_int_request) AND
      mask_irq_c2h sample_rx_state) \<noteq> 0"
    by (simp add: sample_rx_state_def sample_tx_engine_def)
  from c2h_irq_restarts [where hw = "\<lambda>l a. 3" and l = "[]", OF t(1,2,3) req t(4) refl refl refl refl] show ?thesis by auto
qed

end
