(* ===== verification/Xdma_Dev.thy ===== *)
theory Xdma_Dev
  imports Xdma_Engine
begin

unbundle bit_operations_syntax

section \<open>The XDMA device: registry, flags, BARs and engines\<close>

text \<open>
  The device book-keeping of \<open>libxdma.c\<close>: the list of devices, the flag word and its lock, the
  mapping and identification of the BARs, the discovery, set-up and removal of the engines, and
  the interrupt enable registers. The PCI core is a parameter: what it answers is the record
  \<open>pci_env\<close>. Pointers to a device are its \<open>handle\<close>. \<open>None\<close> is a failed \<open>BUG_ON\<close>, an access outside
  an array, or a misuse of the device lock (taken twice, or released while not held).
\<close>

subsection \<open>Data\<close>

datatype user_handler = Uh_msix_config_change | Uh_msix_timer_change | Uh_msix_timer_value_change
  | Uh_ptp | Uh_config_change | Uh_timer_change

record xdma_user_irq =
  user_idx :: nat
  uhandler :: "user_handler option"
  udev_is_xdev :: bool

text \<open>\<open>bar\<close> says which BARs are mapped; \<open>h2c_irq_line\<close> and \<open>c2h_irq_line\<close> are the engines' \<open>msix_irq_line\<close>.\<close>

record xdma_dev =
  handle :: int
  xmagic :: u32
  pdev :: int
  idx :: int
  flags :: u32
  lock_held :: bool
  bar :: "bool list"
  user_bar_idx :: int
  config_bar_idx :: int
  bypass_bar_idx :: int
  regions_in_use :: bool
  got_regions :: bool
  user_max :: int
  c2h_channel_max :: int
  h2c_channel_max :: int
  irq_line :: int
  msi_enabled :: bool
  msix_enabled :: bool
  user_irq :: "xdma_user_irq list"
  mask_irq_user :: u32
  engines_num :: int
  xmask_irq_h2c :: u32
  xmask_irq_c2h :: u32
  engines_h2c :: "xdma_engine list"
  engines_c2h :: "xdma_engine list"
  h2c_irq_line :: "int list"
  c2h_irq_line :: "int list"

record pci_env =
  bar_len :: "nat \<Rightarrow> int"
  iomap_ok :: "nat \<Rightarrow> bool"
  enable_rv :: int
  regions_rv :: int
  dma64_ok :: bool
  dma32_ok :: bool
  engine_memory :: "dma_data_direction \<Rightarrow> int \<Rightarrow> engine_mem"
  no_msi :: bool
  bus_no_msi :: "bool list"
  pci_caps :: "int list"
  alloc_vectors_rv :: int
  enable_msi_rv :: int
  pci_irq_vector :: "int \<Rightarrow> int"
  request_irq_rv :: "int \<Rightarrow> int"
  pci_irq :: int
  interrupt_pin :: u8
  devctl :: u16
  tasklet_mem :: bool
  interrupt_mode :: int

abbreviation (input) INT_MAX :: int where "INT_MAX \<equiv> 2147483647"

subsection \<open>The device flags\<close>

definition spin_lock :: "xdma_dev \<Rightarrow> xdma_dev option" where
  "spin_lock x = (if lock_held x then None else Some (x\<lparr>lock_held := True\<rparr>))"

definition spin_unlock :: "xdma_dev \<Rightarrow> xdma_dev option" where
  "spin_unlock x = (if lock_held x then Some (x\<lparr>lock_held := False\<rparr>) else None)"

definition xdma_device_flag_check :: "u32 \<Rightarrow> xdma_dev \<Rightarrow> (int \<times> xdma_dev) option" where
  "xdma_device_flag_check f x =
     Option.bind (spin_lock x) (\<lambda>x.
     if flags x AND f \<noteq> 0 then map_option (Pair 1) (spin_unlock x)
     else map_option (Pair 0) (spin_unlock x))"

definition xdma_device_flag_test_n_set :: "u32 \<Rightarrow> xdma_dev \<Rightarrow> (int \<times> xdma_dev) option" where
  "xdma_device_flag_test_n_set f x =
     Option.bind (spin_lock x) (\<lambda>x.
     Option.bind (if flags x AND f \<noteq> 0 then map_option (Pair 1) (spin_unlock x)
                  else Some (0, x\<lparr>flags := flags x OR f\<rparr>)) (\<lambda>(rv, x).
     map_option (Pair rv) (spin_unlock x)))"

definition xdma_device_flag_set :: "u32 \<Rightarrow> xdma_dev \<Rightarrow> xdma_dev option" where
  "xdma_device_flag_set f x = Option.bind (spin_lock x) (\<lambda>x. spin_unlock (x\<lparr>flags := flags x OR f\<rparr>))"

definition xdma_device_flag_clear :: "u32 \<Rightarrow> xdma_dev \<Rightarrow> xdma_dev option" where
  "xdma_device_flag_clear f x = Option.bind (spin_lock x) (\<lambda>x. spin_unlock (x\<lparr>flags := flags x AND NOT f\<rparr>))"

subsection \<open>The list of devices\<close>

definition xdev_list_add :: "xdma_dev \<Rightarrow> xdma_dev list \<Rightarrow> xdma_dev \<times> xdma_dev list" where
  "xdev_list_add x xs =
     (let x = (if xs = [] then x\<lparr>idx := 0\<rparr> else x\<lparr>idx := idx (last xs) + 1\<rparr>) in (x, xs @ [x]))"

definition xdev_list_remove :: "xdma_dev \<Rightarrow> xdma_dev list \<Rightarrow> xdma_dev list" where
  "xdev_list_remove x xs = filter (\<lambda>y. handle y \<noteq> handle x) xs"

definition xdev_find_by_pdev :: "int \<Rightarrow> xdma_dev list \<Rightarrow> xdma_dev option" where
  "xdev_find_by_pdev pd xs = find (\<lambda>x. pdev x = pd) xs"

text \<open>\<open>pd = 0\<close> is the null pointer.\<close>

definition debug_check_dev_hndl :: "int \<Rightarrow> int \<Rightarrow> xdma_dev list \<Rightarrow> int" where
  "debug_check_dev_hndl pd hndl xs =
     (if pd = 0 then EINVAL_NEG
      else case xdev_find_by_pdev pd xs of
             None \<Rightarrow> EINVAL_NEG
           | Some x \<Rightarrow> if handle x \<noteq> hndl then EINVAL_NEG else 0)"

subsection \<open>The BARs\<close>

definition unmap_bars :: "xdma_dev \<Rightarrow> xdma_dev" where
  "unmap_bars x = x\<lparr>bar := map (\<lambda>_. False) (bar x)\<rparr>"

definition map_single_bar :: "pci_env \<Rightarrow> nat \<Rightarrow> xdma_dev \<Rightarrow> int \<times> xdma_dev" where
  "map_single_bar P i x =
     (let x = x\<lparr>bar := (bar x)[i := False]\<rparr>;
          map_len = (if bar_len P i > INT_MAX then INT_MAX else bar_len P i)
      in if bar_len P i = 0 then (0, x)
         else if \<not> iomap_ok P i then (-1, x)
         else (map_len, x\<lparr>bar := (bar x)[i := True]\<rparr>))"

definition is_config_bar :: "device \<Rightarrow> nat \<Rightarrow> io_log \<Rightarrow> bool \<times> io_log" where
  "is_config_bar hw i l =
     (let (irq_id, l) = ioread32 hw (int i, XDMA_OFS_INT_CTRL) l;
          (cfg_id, l) = ioread32 hw (int i, XDMA_OFS_CONFIG) l
      in (irq_id AND 0xffff0000 = IRQ_BLOCK_ID \<and> cfg_id AND 0xffff0000 = CONFIG_BLOCK_ID, l))"

definition identify_bars :: "int list \<Rightarrow> nat \<Rightarrow> xdma_dev \<Rightarrow> xdma_dev option" where
  "identify_bars bar_id_list config_bar_pos x =
     (let num_bars = length bar_id_list in
      if num_bars = 2 then
        (if config_bar_pos = 0 then map_option (\<lambda>b. x\<lparr>bypass_bar_idx := b\<rparr>) (arr_get bar_id_list 1)
         else if config_bar_pos = 1 then map_option (\<lambda>b. x\<lparr>user_bar_idx := b\<rparr>) (arr_get bar_id_list 0)
         else Some x)
      else if num_bars = 3 \<or> num_bars = 4 then
        (if config_bar_pos = 1 \<or> config_bar_pos = 2
         then Option.bind (arr_get bar_id_list 0) (\<lambda>u. map_option (\<lambda>b. x\<lparr>user_bar_idx := u, bypass_bar_idx := b\<rparr>)
                (arr_get bar_id_list (int num_bars - 1)))
         else Some x)
      else Some x)"

text \<open>
  The loop of \<open>map_bars\<close>: \<open>n\<close> BARs are left, \<open>i\<close> is the next one. \<open>bar_id_list\<close> holds the entries
  written so far, \<open>pos\<close> is \<open>config_bar_pos\<close>. The first component says whether a mapping failed.
\<close>

fun map_bars_loop :: "pci_env \<Rightarrow> device \<Rightarrow> nat \<Rightarrow> nat \<Rightarrow> int list \<Rightarrow> nat \<Rightarrow> xdma_dev \<Rightarrow> io_log \<Rightarrow>
    bool \<times> int list \<times> nat \<times> xdma_dev \<times> io_log" where
  "map_bars_loop P hw 0 i ids pos x l = (False, ids, pos, x, l)"
| "map_bars_loop P hw (Suc n) i ids pos x l =
     (let (len, x) = map_single_bar P i x in
      if len = 0 then map_bars_loop P hw n (Suc i) ids pos x l
      else if len < 0 then (True, ids, pos, x, l)
      else
        (let (is_cfg, l) = (if len \<ge> XDMA_BAR_SIZE \<and> config_bar_idx x < 0 then is_config_bar hw i l else (False, l));
             (x, pos) = (if is_cfg then (x\<lparr>config_bar_idx := int i\<rparr>, length ids) else (x, pos))
         in map_bars_loop P hw n (Suc i) (ids @ [int i]) pos x l))"

definition map_bars :: "pci_env \<Rightarrow> device \<Rightarrow> xdma_dev \<Rightarrow> io_log \<Rightarrow> (int \<times> xdma_dev \<times> io_log) option" where
  "map_bars P hw x l =
     (let (failed, ids, pos, x, l) = map_bars_loop P hw (nat XDMA_BAR_NUM) 0 [] 0 x l
      in if failed \<or> config_bar_idx x < 0 then Some (EINVAL_NEG, unmap_bars x, l)
         else map_option (\<lambda>x. (0, x, l)) (identify_bars ids pos x))"

subsection \<open>Interrupt enable registers\<close>

definition channel_interrupts_enable :: "xdma_dev \<Rightarrow> u32 \<Rightarrow> io_log \<Rightarrow> io_log" where
  "channel_interrupts_enable x msk l = iowrite32 msk (config_bar_idx x, IR_channel_int_enable_w1s) l"

definition channel_interrupts_disable :: "xdma_dev \<Rightarrow> u32 \<Rightarrow> io_log \<Rightarrow> io_log" where
  "channel_interrupts_disable x msk l = iowrite32 msk (config_bar_idx x, IR_channel_int_enable_w1c) l"

definition user_interrupts_enable :: "xdma_dev \<Rightarrow> u32 \<Rightarrow> io_log \<Rightarrow> io_log" where
  "user_interrupts_enable x msk l = iowrite32 msk (config_bar_idx x, IR_user_int_enable_w1s) l"

definition user_interrupts_disable :: "xdma_dev \<Rightarrow> u32 \<Rightarrow> io_log \<Rightarrow> io_log" where
  "user_interrupts_disable x msk l = iowrite32 msk (config_bar_idx x, IR_user_int_enable_w1c) l"

definition build_u32 :: "u32 \<Rightarrow> u32 \<Rightarrow> u32" where
  "build_u32 hi lo = push_bit 16 (hi AND 0xFFFF) OR (lo AND 0xFFFF)"

definition build_u64 :: "u64 \<Rightarrow> u64 \<Rightarrow> u64" where
  "build_u64 hi lo = push_bit 32 (hi AND 0xFFFFFFF) OR (lo AND 0xFFFFFFFF)"

definition read_interrupts :: "device \<Rightarrow> xdma_dev \<Rightarrow> io_log \<Rightarrow> u32 \<times> io_log" where
  "read_interrupts hw x l =
     (let (hi, l) = ioread32 hw (config_bar_idx x, IR_user_int_request) l;
          (lo, l) = ioread32 hw (config_bar_idx x, IR_channel_int_request) l
      in (build_u32 hi lo, l))"

text \<open>The routine only reports what it reads.\<close>

definition check_nonzero_interrupt_status :: "device \<Rightarrow> xdma_dev \<Rightarrow> io_log \<Rightarrow> io_log" where
  "check_nonzero_interrupt_status hw x l =
     fold (\<lambda>off l. snd (ioread32 hw (config_bar_idx x, off) l)) [0x2004, 0x2010, 0x2040, 0x2044, 0x2048, 0x204C] l"

definition xdma_user_isr_enable :: "device \<Rightarrow> u32 \<Rightarrow> xdma_dev \<Rightarrow> io_log \<Rightarrow> int \<times> xdma_dev \<times> io_log" where
  "xdma_user_isr_enable hw msk x l =
     (let x = x\<lparr>mask_irq_user := mask_irq_user x OR msk\<rparr>;
          l = user_interrupts_enable x msk l;
          (_, l) = read_interrupts hw x l
      in (0, x, l))"

definition xdma_user_isr_disable :: "device \<Rightarrow> u32 \<Rightarrow> xdma_dev \<Rightarrow> io_log \<Rightarrow> int \<times> xdma_dev \<times> io_log" where
  "xdma_user_isr_disable hw msk x l =
     (let x = x\<lparr>mask_irq_user := mask_irq_user x AND NOT msk\<rparr>;
          l = user_interrupts_disable x msk l;
          (_, l) = read_interrupts hw x l
      in (0, x, l))"

subsection \<open>Engines\<close>

definition zero_engine :: xdma_engine where
  "zero_engine = \<lparr>magic = 0, ebar = 0, regs = 0, sgdma_regs = 0, bypass_offset = 0, shutdown = 0, dir = DMA_TO_DEVICE,
     running = False, streaming = False, addr_align = 0, len_granularity = 0, addr_bits = 0, channel = 0, desc_dequeued = 0,
     status = 0, interrupt_enable_mask_value = 0, transfer = None, cyclic_result = None, cyclic_result_bus = 0, rx_buff = None,
     rx_buff_bus = 0, tx_buff = None, tx_buff_bus = 0, irq_bitmask = 0, edesc_bus = 0, edesc = None\<rparr>"

text \<open>
  \<open>engine_init\<close> in two parts: the fields of the engine up to its direction, and what it changes of
  the device and the engine's resources. The name string is not modelled.
\<close>

definition engine_init_fields :: "device \<Rightarrow> int \<Rightarrow> dma_data_direction \<Rightarrow> int \<Rightarrow> int \<Rightarrow> int \<Rightarrow> xdma_engine \<Rightarrow> io_log \<Rightarrow> xdma_engine \<times> io_log" where
  "engine_init_fields hw offset d ch num cfg e l =
     (let e = e\<lparr>magic := MAGIC_ENGINE, channel := ch\<rparr>;
          e = e\<lparr>irq_bitmask := push_bit (nat (num * XDMA_ENG_IRQ_NUM)) (push_bit (nat XDMA_ENG_IRQ_NUM) 1 - 1),
                bypass_offset := num * BYPASS_MODE_SPACING\<rparr>;
          e = e\<lparr>ebar := cfg, regs := offset, sgdma_regs := offset + SGDMA_OFFSET_FROM_CHANNEL\<rparr>;
          (val, l) = ioread32 hw (ebar e, regs e + ER_identifier) l;
          e = (if val AND 0x8000 \<noteq> 0 then e\<lparr>streaming := True\<rparr> else e)
      in (e\<lparr>dir := d\<rparr>, l))"

definition engine_init :: "pci_env \<Rightarrow> device \<Rightarrow> int \<Rightarrow> dma_data_direction \<Rightarrow> int \<Rightarrow> xdma_engine \<Rightarrow> xdma_dev \<Rightarrow> io_log \<Rightarrow>
    int \<times> xdma_engine \<times> xdma_dev \<times> io_log" where
  "engine_init P hw offset d ch e x l =
     (let (e, l) = engine_init_fields hw offset d ch (engines_num x) (config_bar_idx x) e l;
          x = (if d = DMA_TO_DEVICE then x\<lparr>xmask_irq_h2c := xmask_irq_h2c x OR irq_bitmask e\<rparr>
               else x\<lparr>xmask_irq_c2h := xmask_irq_c2h x OR irq_bitmask e\<rparr>);
          x = x\<lparr>engines_num := engines_num x + 1\<rparr>;
          (rv, e) = engine_alloc_resource (engine_memory P d ch) e
      in if rv \<noteq> 0 then (rv, e, x, l)
         else (let (rv, e, l) = engine_init_regs hw e l in if rv \<noteq> 0 then (rv, e, x, l) else (0, e, x, l)))"

definition get_engine_id :: "device \<Rightarrow> mmio_addr \<Rightarrow> io_log \<Rightarrow> u32 \<times> io_log" where
  "get_engine_id hw a l = (let (v, l) = ioread32 hw a l in (drop_bit 16 (v AND 0xffff0000), l))"

definition get_engine_channel_id :: "device \<Rightarrow> mmio_addr \<Rightarrow> io_log \<Rightarrow> u32 \<times> io_log" where
  "get_engine_channel_id hw a l = (let (v, l) = ioread32 hw a l in (drop_bit 8 (v AND 0x00000f00), l))"

definition engines :: "dma_data_direction \<Rightarrow> xdma_dev \<Rightarrow> xdma_engine list" where
  "engines d x = (if d = DMA_TO_DEVICE then engines_h2c x else engines_c2h x)"

definition set_engine :: "dma_data_direction \<Rightarrow> nat \<Rightarrow> xdma_engine \<Rightarrow> xdma_dev \<Rightarrow> xdma_dev" where
  "set_engine d i e x =
     (if d = DMA_TO_DEVICE then x\<lparr>engines_h2c := (engines_h2c x)[i := e]\<rparr> else x\<lparr>engines_c2h := (engines_c2h x)[i := e]\<rparr>)"

definition probe_for_engine :: "pci_env \<Rightarrow> device \<Rightarrow> dma_data_direction \<Rightarrow> nat \<Rightarrow> xdma_dev \<Rightarrow> io_log \<Rightarrow>
    (int \<times> xdma_dev \<times> io_log) option" where
  "probe_for_engine P hw d ch x l =
     (let offset = int ch * CHANNEL_SPACING + (if d = DMA_TO_DEVICE then 0 else H2C_CHANNEL_OFFSET);
          engine_id_expected = (if d = DMA_TO_DEVICE then XDMA_ID_H2C else XDMA_ID_C2H)
      in case arr_get (engines d x) (int ch) of
           None \<Rightarrow> None
         | Some e \<Rightarrow>
             (let (engine_id, l) = get_engine_id hw (config_bar_idx x, offset) l;
                  (channel_id, l) = get_engine_channel_id hw (config_bar_idx x, offset) l
              in if engine_id \<noteq> engine_id_expected \<or> channel_id \<noteq> of_nat ch then Some (EINVAL_NEG, x, l)
                 else
                   (let (rv, e, x, l) = engine_init P hw offset d (int ch) e x l;
                        x = set_engine d ch e x
                    in if rv \<noteq> 0 then Some (rv, x, l) else Some (0, x, l))))"

text \<open>One of the two loops of \<open>probe_engines\<close>: \<open>n\<close> channels left, \<open>i\<close> the next; it returns where it stopped.\<close>

fun probe_loop :: "pci_env \<Rightarrow> device \<Rightarrow> dma_data_direction \<Rightarrow> nat \<Rightarrow> nat \<Rightarrow> xdma_dev \<Rightarrow> io_log \<Rightarrow> (nat \<times> xdma_dev \<times> io_log) option" where
  "probe_loop P hw d 0 i x l = Some (i, x, l)"
| "probe_loop P hw d (Suc n) i x l =
     Option.bind (probe_for_engine P hw d i x l) (\<lambda>(rv, x, l).
     if rv \<noteq> 0 then Some (i, x, l) else probe_loop P hw d n (Suc i) x l)"

definition probe_engines :: "pci_env \<Rightarrow> device \<Rightarrow> xdma_dev \<Rightarrow> io_log \<Rightarrow> (int \<times> xdma_dev \<times> io_log) option" where
  "probe_engines P hw x l =
     Option.bind (probe_loop P hw DMA_TO_DEVICE (nat (h2c_channel_max x)) 0 x l) (\<lambda>(i, x, l).
     Option.bind (let x = x\<lparr>h2c_channel_max := int i\<rparr> in probe_loop P hw DMA_FROM_DEVICE (nat (c2h_channel_max x)) 0 x l) (\<lambda>(i, x, l).
     Some (0, x\<lparr>c2h_channel_max := int i\<rparr>, l)))"

text \<open>The engine's memory goes back to the allocator, the structure is cleared.\<close>

definition engine_destroy :: "dma_data_direction \<Rightarrow> nat \<Rightarrow> xdma_engine \<Rightarrow> xdma_dev \<Rightarrow> io_log \<Rightarrow> xdma_dev \<times> io_log" where
  "engine_destroy d i e x l =
     (let l = iowrite32 0 (ebar e, regs e + ER_interrupt_enable_mask) l;
          e = engine_free_resource e;
          x = set_engine d i zero_engine x
      in (x\<lparr>engines_num := engines_num x - 1\<rparr>, l))"

fun remove_loop :: "dma_data_direction \<Rightarrow> nat \<Rightarrow> nat \<Rightarrow> xdma_dev \<Rightarrow> io_log \<Rightarrow> (xdma_dev \<times> io_log) option" where
  "remove_loop d 0 i x l = Some (x, l)"
| "remove_loop d (Suc n) i x l =
     (case arr_get (engines d x) (int i) of
        None \<Rightarrow> None
      | Some e \<Rightarrow>
          (let (x, l) = (if magic e = MAGIC_ENGINE then engine_destroy d i e x l else (x, l)) in remove_loop d n (Suc i) x l))"

definition remove_engines :: "xdma_dev \<Rightarrow> io_log \<Rightarrow> (xdma_dev \<times> io_log) option" where
  "remove_engines x l =
     Option.bind (remove_loop DMA_TO_DEVICE (nat (h2c_channel_max x)) 0 x l) (\<lambda>(x, l).
     remove_loop DMA_FROM_DEVICE (nat (c2h_channel_max x)) 0 x l)"

subsection \<open>The device structure\<close>

text \<open>The zeroed structure of \<open>alloc_dev_instance\<close> with its non-zero fields set; \<open>h\<close> is its address.\<close>

definition alloc_dev_instance :: "int \<Rightarrow> int \<Rightarrow> xdma_dev" where
  "alloc_dev_instance h pd = \<lparr>handle = h, xmagic = MAGIC_DEVICE, pdev = pd, idx = 0, flags = 0, lock_held = False,
     bar = replicate 3 False, user_bar_idx = -1, config_bar_idx = -1, bypass_bar_idx = -1, regions_in_use = False, got_regions = False,
     user_max = 0, c2h_channel_max = 0, h2c_channel_max = 0, irq_line = -1, msi_enabled = False, msix_enabled = False,
     user_irq = map (\<lambda>i. \<lparr>user_idx = i, uhandler = None, udev_is_xdev = False\<rparr>) [0..<16], mask_irq_user = 0, engines_num = 0,
     xmask_irq_h2c = 0, xmask_irq_c2h = 0, engines_h2c = replicate 2 zero_engine, engines_c2h = replicate 2 zero_engine,
     h2c_irq_line = replicate 2 0, c2h_irq_line = replicate 2 0\<rparr>"

text \<open>The clipping of the requested maxima in \<open>xdma_device_open\<close>.\<close>

definition clip_max :: "int \<Rightarrow> int \<Rightarrow> int" where
  "clip_max v mx = (if v = 0 \<or> v > mx then mx else v)"

subsection \<open>What the hardware and the allocator promise\<close>

definition engine_regs_at :: "dma_data_direction \<Rightarrow> nat \<Rightarrow> int" where
  "engine_regs_at d ch = int ch * 0x100 + (if d = DMA_TO_DEVICE then 0 else 0x1000)"

text \<open>The identifier register of an engine block names the engine's direction and channel, or it does not.\<close>

definition engine_present :: "device \<Rightarrow> int \<Rightarrow> dma_data_direction \<Rightarrow> nat \<Rightarrow> bool" where
  "engine_present hw cfg d ch \<longleftrightarrow> (\<forall>l. let v = hw l (cfg, engine_regs_at d ch) in
     drop_bit 16 (v AND 0xffff0000) = (if d = DMA_TO_DEVICE then XDMA_ID_H2C else XDMA_ID_C2H) \<and>
     drop_bit 8 (v AND 0x00000f00) = of_nat ch)"

definition engine_absent :: "device \<Rightarrow> int \<Rightarrow> dma_data_direction \<Rightarrow> nat \<Rightarrow> bool" where
  "engine_absent hw cfg d ch \<longleftrightarrow> (\<forall>l. let v = hw l (cfg, engine_regs_at d ch) in
     drop_bit 16 (v AND 0xffff0000) \<noteq> (if d = DMA_TO_DEVICE then XDMA_ID_H2C else XDMA_ID_C2H))"

definition mem_ok :: "engine_mem \<Rightarrow> bool" where
  "mem_ok M \<longleftrightarrow> m_desc M \<noteq> None \<and> m_result M \<noteq> None \<and> m_rx M \<noteq> None \<and> m_tx M \<noteq> None"

definition dir_mask :: "dma_data_direction \<Rightarrow> xdma_dev \<Rightarrow> u32" where
  "dir_mask d x = (if d = DMA_TO_DEVICE then xmask_irq_h2c x else xmask_irq_c2h x)"

definition other_dir :: "dma_data_direction \<Rightarrow> dma_data_direction" where
  "other_dir d = (if d = DMA_TO_DEVICE then DMA_FROM_DEVICE else DMA_TO_DEVICE)"

text \<open>An engine set up as number \<open>k\<close> of the device.\<close>

definition engine_ready :: "int \<Rightarrow> dma_data_direction \<Rightarrow> nat \<Rightarrow> nat \<Rightarrow> xdma_engine \<Rightarrow> bool" where
  "engine_ready cfg d ch k e \<longleftrightarrow> magic e = MAGIC_ENGINE \<and> dir e = d \<and> channel e = int ch \<and> irq_bitmask e = push_bit k 1 \<and>
     ebar e = cfg \<and> regs e = engine_regs_at d ch \<and> sgdma_regs e = regs e + SGDMA_OFFSET_FROM_CHANNEL \<and> edesc e \<noteq> None \<and>
     rx_buff e \<noteq> None \<and> tx_buff e \<noteq> None \<and> (streaming e \<and> d = DMA_FROM_DEVICE \<longrightarrow> cyclic_result e \<noteq> None)"

subsection \<open>Discovery of the engines\<close>

text \<open>After \<open>i\<close> engines of direction \<open>d\<close> were found, on top of \<open>base\<close> earlier ones.\<close>

definition probed :: "dma_data_direction \<Rightarrow> nat \<Rightarrow> nat \<Rightarrow> xdma_dev \<Rightarrow> xdma_dev \<Rightarrow> bool" where
  "probed d base i x0 x \<longleftrightarrow> engines_num x = int (base + i) \<and> length (engines d x) = length (engines d x0) \<and>
     (\<forall>j<i. engine_ready (config_bar_idx x0) d j (base + j) (engines d x ! j)) \<and> (\<forall>j\<ge>i. engines d x ! j = engines d x0 ! j) \<and>
     dir_mask d x = dir_mask d x0 OR push_bit base (mask i) \<and>
     engines (other_dir d) x = engines (other_dir d) x0 \<and> dir_mask (other_dir d) x = dir_mask (other_dir d) x0 \<and>
     config_bar_idx x = config_bar_idx x0 \<and> h2c_channel_max x = h2c_channel_max x0 \<and> c2h_channel_max x = c2h_channel_max x0"

lemma probed_0: "engines_num x = int base \<Longrightarrow> probed d base 0 x x"
  by (simp add: probed_def)

lemma mask_Suc_push: "push_bit b (mask i) OR push_bit (b + i) 1 = push_bit b (mask (Suc i) :: u32)"
  by (rule bit_word_eqI) (auto simp: bit_simps)

lemma engine_alloc_ok:
  assumes "mem_ok M"
  shows "\<exists>e'. engine_alloc_resource M e = (0, e') \<and> magic e' = magic e \<and> dir e' = dir e \<and> channel e' = channel e \<and>
     irq_bitmask e' = irq_bitmask e \<and> ebar e' = ebar e \<and> regs e' = regs e \<and> sgdma_regs e' = sgdma_regs e \<and> streaming e' = streaming e \<and>
     edesc e' \<noteq> None \<and> rx_buff e' \<noteq> None \<and> tx_buff e' \<noteq> None \<and> (streaming e \<and> dir e = DMA_FROM_DEVICE \<longrightarrow> cyclic_result e' \<noteq> None)"
  using assms by (cases "m_result M") (auto simp: mem_ok_def engine_alloc_resource_def Let_def)

lemma engine_init_regs_keeps:
  assumes "engine_init_regs hw e l = (rv, e', l')"
  shows "rv = 0" "magic e' = magic e" "dir e' = dir e" "channel e' = channel e" "irq_bitmask e' = irq_bitmask e" "ebar e' = ebar e"
    "regs e' = regs e" "sgdma_regs e' = sgdma_regs e" "streaming e' = streaming e" "edesc e' = edesc e" "rx_buff e' = rx_buff e"
    "tx_buff e' = tx_buff e" "cyclic_result e' = cyclic_result e"
  using assms by (auto simp: engine_init_regs_def engine_alignments_def io_simps Let_def split: if_splits)

lemma engine_init_ok:
  assumes "mem_ok (engine_memory P d (int ch))" and "engines_num x = int k"
  shows "\<exists>e' l'. engine_init P hw (engine_regs_at d ch) d (int ch) e x l =
     (0, e', (if d = DMA_TO_DEVICE then x\<lparr>xmask_irq_h2c := xmask_irq_h2c x OR push_bit k 1, engines_num := int k + 1\<rparr>
              else x\<lparr>xmask_irq_c2h := xmask_irq_c2h x OR push_bit k 1, engines_num := int k + 1\<rparr>), l') \<and>
     engine_ready (config_bar_idx x) d ch k e'"
proof -
  obtain e2 l2 where f: "engine_init_fields hw (engine_regs_at d ch) d (int ch) (engines_num x) (config_bar_idx x) e l = (e2, l2)"
    by fastforce
  have e2: "magic e2 = MAGIC_ENGINE" "dir e2 = d" "channel e2 = int ch" "irq_bitmask e2 = push_bit k 1" "ebar e2 = config_bar_idx x"
      "regs e2 = engine_regs_at d ch" "sgdma_regs e2 = engine_regs_at d ch + SGDMA_OFFSET_FROM_CHANNEL"
    using f assms(2) by (auto simp: engine_init_fields_def io_simps Let_def)
  obtain e3 where e3: "engine_alloc_resource (engine_memory P d (int ch)) e2 = (0, e3)" "magic e3 = magic e2" "dir e3 = dir e2"
      "channel e3 = channel e2" "irq_bitmask e3 = irq_bitmask e2" "ebar e3 = ebar e2" "regs e3 = regs e2" "sgdma_regs e3 = sgdma_regs e2"
      "streaming e3 = streaming e2" "edesc e3 \<noteq> None" "rx_buff e3 \<noteq> None" "tx_buff e3 \<noteq> None"
      "streaming e2 \<and> dir e2 = DMA_FROM_DEVICE \<longrightarrow> cyclic_result e3 \<noteq> None"
    using engine_alloc_ok [OF assms(1), of e2] by blast
  obtain rv e4 l4 where e4: "engine_init_regs hw e3 l2 = (rv, e4, l4)" by (metis prod_cases3)
  note k4 = engine_init_regs_keeps [OF e4]
  have "engine_init P hw (engine_regs_at d ch) d (int ch) e x l =
      (0, e4, (if d = DMA_TO_DEVICE then x\<lparr>xmask_irq_h2c := xmask_irq_h2c x OR push_bit k 1, engines_num := int k + 1\<rparr>
              else x\<lparr>xmask_irq_c2h := xmask_irq_c2h x OR push_bit k 1, engines_num := int k + 1\<rparr>), l4)"
    using f e3(1) e4 k4(1) assms(2) e2(4) by (simp add: engine_init_def Let_def)
  moreover have "engine_ready (config_bar_idx x) d ch k e4"
    unfolding engine_ready_def k4(2-) using e3(2-) e2 by simp
  ultimately show ?thesis by blast
qed

lemma probe_present:
  assumes "engine_present hw (config_bar_idx x) d ch" "mem_ok (engine_memory P d (int ch))" "engines_num x = int k" "ch < length (engines d x)"
  shows "\<exists>e' l'. probe_for_engine P hw d ch x l =
     Some (0, set_engine d ch e' (if d = DMA_TO_DEVICE then x\<lparr>xmask_irq_h2c := xmask_irq_h2c x OR push_bit k 1, engines_num := int k + 1\<rparr>
              else x\<lparr>xmask_irq_c2h := xmask_irq_c2h x OR push_bit k 1, engines_num := int k + 1\<rparr>), l') \<and>
     engine_ready (config_bar_idx x) d ch k e'"
proof -
  let ?l = "RD (config_bar_idx x, engine_regs_at d ch) # RD (config_bar_idx x, engine_regs_at d ch) # l"
  from engine_init_ok [OF assms(2,3), of hw "engines d x ! ch" ?l] obtain e' l' where
    i: "engine_init P hw (engine_regs_at d ch) d (int ch) (engines d x ! ch) x ?l =
      (0, e', (if d = DMA_TO_DEVICE then x\<lparr>xmask_irq_h2c := xmask_irq_h2c x OR push_bit k 1, engines_num := int k + 1\<rparr>
              else x\<lparr>xmask_irq_c2h := xmask_irq_c2h x OR push_bit k 1, engines_num := int k + 1\<rparr>), l')"
      "engine_ready (config_bar_idx x) d ch k e'" by blast
  have off: "int ch * 0x100 + (if d = DMA_TO_DEVICE then 0 else 0x1000) = engine_regs_at d ch" by (simp add: engine_regs_at_def)
  have get: "arr_get (engines d x) (int ch) = Some (engines d x ! ch)" using assms(4) by (simp add: arr_get_def)
  show ?thesis
    using assms(1) i get unfolding probe_for_engine_def off
    by (auto simp: get_engine_id_def get_engine_channel_id_def io_simps Let_def engine_present_def)
qed

lemma probe_absent:
  assumes "engine_absent hw (config_bar_idx x) d ch" "ch < length (engines d x)"
  shows "\<exists>l'. probe_for_engine P hw d ch x l = Some (EINVAL_NEG, x, l')"
proof -
  have off: "int ch * 0x100 + (if d = DMA_TO_DEVICE then 0 else 0x1000) = engine_regs_at d ch" by (simp add: engine_regs_at_def)
  have get: "arr_get (engines d x) (int ch) = Some (engines d x ! ch)" using assms(2) by (simp add: arr_get_def)
  show ?thesis
    using assms(1) get unfolding probe_for_engine_def off
    by (auto simp: get_engine_id_def get_engine_channel_id_def io_simps Let_def engine_absent_def)
qed

lemma probed_step:
  assumes p: "probed d base i x0 x" and e: "engine_ready (config_bar_idx x0) d i (base + i) e'" and i: "i < length (engines d x)"
    and x': "x' = set_engine d i e' (if d = DMA_TO_DEVICE
        then x\<lparr>xmask_irq_h2c := xmask_irq_h2c x OR push_bit (base + i) 1, engines_num := int (base + i) + 1\<rparr>
        else x\<lparr>xmask_irq_c2h := xmask_irq_c2h x OR push_bit (base + i) 1, engines_num := int (base + i) + 1\<rparr>)"
  shows "probed d base (Suc i) x0 x'"
proof -
  have en: "engines d x' = (engines d x)[i := e']" "engines (other_dir d) x' = engines (other_dir d) x"
    by (simp_all add: x' engines_def set_engine_def other_dir_def)
  have m: "dir_mask d x' = dir_mask d x OR push_bit (base + i) 1" "dir_mask (other_dir d) x' = dir_mask (other_dir d) x"
    by (simp_all add: x' set_engine_def dir_mask_def other_dir_def)
  have r: "config_bar_idx x' = config_bar_idx x" "h2c_channel_max x' = h2c_channel_max x" "c2h_channel_max x' = c2h_channel_max x"
      "engines_num x' = int (base + Suc i)"
    by (simp_all add: x' set_engine_def)
  have "engine_ready (config_bar_idx x0) d j (base + j) ((engines d x)[i := e'] ! j)" if "j < Suc i" for j
    using p e i that by (cases "j = i") (auto simp: probed_def)
  moreover have "dir_mask d x' = dir_mask d x0 OR push_bit base (mask (Suc i))"
    using p m(1) mask_Suc_push [of base i] by (simp add: probed_def or.assoc)
  moreover have "(engines d x)[i := e'] ! j = engines d x0 ! j" if "Suc i \<le> j" for j using p that by (simp add: probed_def)
  ultimately show ?thesis using p en m(2) r by (simp add: probed_def)
qed

lemma probe_loop_ok:
  assumes "\<And>j. j < c \<Longrightarrow> engine_present hw (config_bar_idx x0) d j \<and> mem_ok (engine_memory P d (int j))"
    and "c < lim \<Longrightarrow> engine_absent hw (config_bar_idx x0) d c" and "c \<le> lim" and "lim \<le> length (engines d x0)"
  shows "i + n = lim \<Longrightarrow> i \<le> c \<Longrightarrow> probed d base i x0 x \<Longrightarrow>
     \<exists>x' l'. probe_loop P hw d n i x l = Some (c, x', l') \<and> probed d base c x0 x'"
proof (induction n arbitrary: i x l)
  case 0
  then show ?case using assms(3) by simp
next
  case (Suc n)
  have inv: "config_bar_idx x = config_bar_idx x0" "engines_num x = int (base + i)" "length (engines d x) = length (engines d x0)"
    using Suc.prems(3) by (simp_all add: probed_def)
  have il: "i < length (engines d x)" using Suc.prems(1) assms(4) inv(3) by simp
  show ?case
  proof (cases "i = c")
    case True
    then show ?thesis using probe_absent [of hw x d i P l] assms(2) Suc.prems il inv(1) by auto
  next
    case False
    then have "i < c" using Suc.prems(2) by simp
    with assms(1) [of i] probe_present [of hw x d i P "base + i" l] inv il obtain e' l' x' where
      s: "x' = set_engine d i e' (if d = DMA_TO_DEVICE
        then x\<lparr>xmask_irq_h2c := xmask_irq_h2c x OR push_bit (base + i) 1, engines_num := int (base + i) + 1\<rparr>
        else x\<lparr>xmask_irq_c2h := xmask_irq_c2h x OR push_bit (base + i) 1, engines_num := int (base + i) + 1\<rparr>)"
      "probe_for_engine P hw d i x l = Some (0, x', l')" "engine_ready (config_bar_idx x0) d i (base + i) e'"
      by auto
    have "probed d base (Suc i) x0 x'" by (rule probed_step [OF Suc.prems(3) s(3) il s(1)])
    from Suc.IH [OF _ _ this, of l'] Suc.prems(1) \<open>i < c\<close> s(2) show ?thesis by simp
  qed
qed

lemma probe_engines_ok:
  assumes x: "engines_num x = 0" "length (engines_h2c x) = 2" "length (engines_c2h x) = 2"
    and lim: "int h \<le> h2c_channel_max x" "h2c_channel_max x \<le> 2" "int c \<le> c2h_channel_max x" "c2h_channel_max x \<le> 2"
    and here: "\<And>j. j < h \<Longrightarrow> engine_present hw (config_bar_idx x) DMA_TO_DEVICE j \<and> mem_ok (engine_memory P DMA_TO_DEVICE (int j))"
      "\<And>j. j < c \<Longrightarrow> engine_present hw (config_bar_idx x) DMA_FROM_DEVICE j \<and> mem_ok (engine_memory P DMA_FROM_DEVICE (int j))"
    and gone: "int h < h2c_channel_max x \<Longrightarrow> engine_absent hw (config_bar_idx x) DMA_TO_DEVICE h"
      "int c < c2h_channel_max x \<Longrightarrow> engine_absent hw (config_bar_idx x) DMA_FROM_DEVICE c"
  shows "\<exists>x1 x2 l'. probe_engines P hw x l = Some (0, x2\<lparr>c2h_channel_max := int c\<rparr>, l') \<and> probed DMA_TO_DEVICE 0 h x x1 \<and>
     probed DMA_FROM_DEVICE h c (x1\<lparr>h2c_channel_max := int h\<rparr>) x2"
proof -
  have p0: "probed DMA_TO_DEVICE 0 0 x x" by (rule probed_0) (simp add: x(1))
  have "\<exists>x1 l1. probe_loop P hw DMA_TO_DEVICE (nat (h2c_channel_max x)) 0 x l = Some (h, x1, l1) \<and> probed DMA_TO_DEVICE 0 h x x1"
    by (rule probe_loop_ok [where lim = "nat (h2c_channel_max x)", OF here(1) _ _ _ _ _ p0]) (use gone(1) lim x in \<open>auto simp: engines_def\<close>)
  then obtain x1 l1 where p: "probe_loop P hw DMA_TO_DEVICE (nat (h2c_channel_max x)) 0 x l = Some (h, x1, l1)" "probed DMA_TO_DEVICE 0 h x x1"
    by blast
  let ?x1 = "x1\<lparr>h2c_channel_max := int h\<rparr>"
  have x1: "engines_num ?x1 = int h" "config_bar_idx ?x1 = config_bar_idx x" "c2h_channel_max ?x1 = c2h_channel_max x" "engines_c2h ?x1 = engines_c2h x"
    using p(2) by (simp_all add: probed_def engines_def other_dir_def)
  have q0: "probed DMA_FROM_DEVICE h 0 ?x1 ?x1" by (rule probed_0) (simp only: x1(1))
  have "\<exists>x2 l2. probe_loop P hw DMA_FROM_DEVICE (nat (c2h_channel_max x)) 0 ?x1 l1 = Some (c, x2, l2) \<and> probed DMA_FROM_DEVICE h c ?x1 x2"
    by (rule probe_loop_ok [where lim = "nat (c2h_channel_max x)", OF _ _ _ _ _ _ q0]) (use here(2) gone(2) lim x x1 in \<open>auto simp: engines_def\<close>)
  then obtain x2 l2 where "probe_loop P hw DMA_FROM_DEVICE (nat (c2h_channel_max x)) 0 ?x1 l1 = Some (c, x2, l2)" "probed DMA_FROM_DEVICE h c ?x1 x2"
    by blast
  with p x1(3) show ?thesis by (auto simp: probe_engines_def Let_def)
qed

subsection \<open>Removal of the engines\<close>

lemma remove_loop_ok:
  "\<lbrakk>i + n \<le> length (engines d x); \<And>j. i \<le> j \<Longrightarrow> j < i + n \<Longrightarrow> magic (engines d x ! j) = MAGIC_ENGINE\<rbrakk> \<Longrightarrow>
   \<exists>x' l'. remove_loop d n i x l = Some (x', l') \<and> engines_num x' = engines_num x - int n \<and>
     engines d x' = take i (engines d x) @ replicate n zero_engine @ drop (i + n) (engines d x) \<and>
     engines (other_dir d) x' = engines (other_dir d) x \<and> h2c_channel_max x' = h2c_channel_max x \<and> c2h_channel_max x' = c2h_channel_max x"
proof (induction n arbitrary: i x l)
  case 0
  then show ?case by simp
next
  case (Suc n)
  let ?x1 = "(set_engine d i zero_engine x)\<lparr>engines_num := engines_num x - 1\<rparr>"
  have e1: "engines d ?x1 = (engines d x)[i := zero_engine]" "engines (other_dir d) ?x1 = engines (other_dir d) x"
      "h2c_channel_max ?x1 = h2c_channel_max x" "c2h_channel_max ?x1 = c2h_channel_max x" "engines_num (set_engine d i zero_engine x) = engines_num x"
    by (simp_all add: engines_def set_engine_def other_dir_def)
  have i: "i < length (engines d x)" using Suc.prems(1) by simp
  have "arr_get (engines d x) (int i) = Some (engines d x ! i)" "magic (engines d x ! i) = MAGIC_ENGINE"
    using i Suc.prems(2) [of i] by (simp_all add: arr_get_def)
  then have "remove_loop d (Suc n) i x l = remove_loop d n (Suc i) ?x1 (WR (ebar (engines d x ! i), regs (engines d x ! i) + 0x90) 0 # l)"
    using e1(5) by (simp add: engine_destroy_def io_simps Let_def)
  moreover have "\<exists>x' l'. remove_loop d n (Suc i) ?x1 (WR (ebar (engines d x ! i), regs (engines d x ! i) + 0x90) 0 # l) = Some (x', l') \<and>
     engines_num x' = engines_num ?x1 - int n \<and>
     engines d x' = take (Suc i) (engines d ?x1) @ replicate n zero_engine @ drop (Suc i + n) (engines d ?x1) \<and>
     engines (other_dir d) x' = engines (other_dir d) ?x1 \<and> h2c_channel_max x' = h2c_channel_max ?x1 \<and> c2h_channel_max x' = c2h_channel_max ?x1"
    by (rule Suc.IH) (use Suc.prems e1(1) in auto)
  moreover have "take (Suc i) ((engines d x)[i := zero_engine]) = take i (engines d x) @ [zero_engine]"
    using i by (simp add: take_Suc_conv_app_nth)
  ultimately show ?case unfolding e1 by (auto simp: drop_update_cancel)
qed

subsection \<open>Finding the configuration BAR\<close>

text \<open>BAR \<open>i\<close> is large enough for the DMA registers and its two identifier registers match.\<close>

definition config_candidate :: "pci_env \<Rightarrow> (nat \<Rightarrow> u32) \<Rightarrow> (nat \<Rightarrow> u32) \<Rightarrow> nat \<Rightarrow> bool" where
  "config_candidate P irq_id cfg_id i \<longleftrightarrow> XDMA_BAR_SIZE \<le> bar_len P i \<and>
     irq_id i AND 0xffff0000 = IRQ_BLOCK_ID \<and> cfg_id i AND 0xffff0000 = CONFIG_BLOCK_ID"

abbreviation present_bars :: "pci_env \<Rightarrow> nat \<Rightarrow> int list" where
  "present_bars P i \<equiv> map int (filter (\<lambda>j. bar_len P j \<noteq> 0) [0..<i])"

definition config_found :: "pci_env \<Rightarrow> (nat \<Rightarrow> bool) \<Rightarrow> nat \<Rightarrow> nat \<Rightarrow> xdma_dev \<Rightarrow> bool" where
  "config_found P cand i pos x \<longleftrightarrow>
     (config_bar_idx x < 0 \<and> (\<forall>j<i. \<not> cand j)) \<or>
     (\<exists>k<i. cand k \<and> (\<forall>j<k. \<not> cand j) \<and> config_bar_idx x = int k \<and> pos = length (present_bars P k))"

lemma config_found_skip: "config_found P cand i pos x \<Longrightarrow> \<not> cand i \<or> \<not> config_bar_idx x < 0 \<Longrightarrow> config_found P cand (Suc i) pos x"
  by (auto simp: config_found_def less_Suc_eq)

lemma config_found_here:
  "config_found P cand i pos x \<Longrightarrow> cand i \<Longrightarrow> config_bar_idx x < 0 \<Longrightarrow>
   config_found P cand (Suc i) (length (present_bars P i)) (x\<lparr>config_bar_idx := int i\<rparr>)"
  by (auto simp: config_found_def)

lemma config_found_bar: "config_found P cand i pos (x\<lparr>bar := b\<rparr>) = config_found P cand i pos x"
  by (simp add: config_found_def)

lemma map_bars_loop_ok:
  assumes hw: "\<And>l i. hw l (int i, XDMA_OFS_INT_CTRL) = irq_id i" "\<And>l i. hw l (int i, XDMA_OFS_CONFIG) = cfg_id i"
    and len: "\<And>i. 0 \<le> bar_len P i"
  defines "cand \<equiv> config_candidate P irq_id cfg_id"
  shows "\<lbrakk>i + n = 3; length (bar x) = 3; \<forall>j<i. bar x ! j = (bar_len P j \<noteq> 0); config_found P cand i pos x;
     map_bars_loop P hw n i (present_bars P i) pos x l = (failed, ids, pos', x', l')\<rbrakk> \<Longrightarrow>
     length (bar x') = 3 \<and> failed = (\<exists>j\<ge>i. j < 3 \<and> bar_len P j \<noteq> 0 \<and> \<not> iomap_ok P j) \<and>
     (\<not> failed \<longrightarrow> (\<forall>j<3. bar x' ! j = (bar_len P j \<noteq> 0)) \<and> config_found P cand 3 pos' x' \<and> ids = present_bars P 3)"
proof (induction n arbitrary: i pos x l)
  case 0
  then show ?case by auto
next
  case (Suc n)
  let ?len = "if bar_len P i > INT_MAX then INT_MAX else bar_len P i"
  let ?x0 = "x\<lparr>bar := (bar x)[i := False]\<rparr>" and ?x1 = "x\<lparr>bar := (bar x)[i := True]\<rparr>"
  have i: "i < 3" using Suc.prems(1) by simp
  have split: "(\<exists>j\<ge>i. j < 3 \<and> bar_len P j \<noteq> 0 \<and> \<not> iomap_ok P j) \<longleftrightarrow>
      (bar_len P i \<noteq> 0 \<and> \<not> iomap_ok P i) \<or> (\<exists>j\<ge>Suc i. j < 3 \<and> bar_len P j \<noteq> 0 \<and> \<not> iomap_ok P j)"
    using i by (metis Suc_leD not_less_eq_eq le_antisym)
  consider "bar_len P i = 0" | "bar_len P i \<noteq> 0" "\<not> iomap_ok P i" | "bar_len P i \<noteq> 0" "iomap_ok P i" by blast
  then show ?case
  proof cases
    case 1
    then have "\<not> cand i" by (simp add: cand_def config_candidate_def)
    then have "config_found P cand (Suc i) pos ?x0" using config_found_skip [OF Suc.prems(4)] by (simp add: config_found_bar)
    moreover have "\<forall>j<Suc i. (bar x)[i := False] ! j = (bar_len P j \<noteq> 0)" using Suc.prems(2,3) i 1 by (auto simp: less_Suc_eq)
    ultimately show ?thesis
      using Suc.IH [of "Suc i" ?x0 pos l] Suc.prems(1,2,5) 1 split by (simp add: map_single_bar_def)
  next
    case 2
    then show ?thesis using Suc.prems(2,5) split by (auto simp: map_single_bar_def)
  next
    case 3
    have pos_len: "0 < ?len" "XDMA_BAR_SIZE \<le> ?len \<longleftrightarrow> XDMA_BAR_SIZE \<le> bar_len P i" using 3(1) len [of i] by auto
    define hit where "hit \<longleftrightarrow> cand i \<and> config_bar_idx x < 0"
    define x2 where "x2 = (if hit then ?x1\<lparr>config_bar_idx := int i\<rparr> else ?x1)"
    define pos2 where "pos2 = (if hit then length (present_bars P i) else pos)"
    have bars: "\<forall>j<Suc i. bar x2 ! j = (bar_len P j \<noteq> 0)" "length (bar x2) = 3"
      using Suc.prems(2,3) i 3(1) by (auto simp: x2_def less_Suc_eq)
    have cf: "config_found P cand (Suc i) pos2 x2"
      using config_found_skip [OF Suc.prems(4)] config_found_here [OF Suc.prems(4)]
      by (auto simp: x2_def pos2_def hit_def config_found_bar) (simp add: config_found_def)+
    have "\<exists>l2. map_bars_loop P hw (Suc n) i (present_bars P i) pos x l = map_bars_loop P hw n (Suc i) (present_bars P (Suc i)) pos2 x2 l2"
      using 3 pos_len
      by (auto simp: map_single_bar_def is_config_bar_def io_simps hw x2_def pos2_def hit_def cand_def config_candidate_def Let_def)
    then obtain l2 where "map_bars_loop P hw n (Suc i) (present_bars P (Suc i)) pos2 x2 l2 = (failed, ids, pos', x', l')"
      using Suc.prems(5) by metis
    from Suc.IH [OF _ bars(2,1) cf this] Suc.prems(1) 3 split show ?thesis by simp
  qed
qed

lemma identify_bars_ok: "\<exists>x'. identify_bars ids pos x = Some x' \<and> bar x' = bar x \<and> config_bar_idx x' = config_bar_idx x \<and>
    (length ids = 3 \<and> (pos = 1 \<or> pos = 2) \<longrightarrow> user_bar_idx x' = ids ! 0 \<and> bypass_bar_idx x' = ids ! 2)"
  by (auto simp: identify_bars_def arr_get_def Let_def)

subsection \<open>Flags and registry\<close>

text \<open>
  \<open>xdma_device_flag_test_n_set\<close> on a flag that is already set releases the lock twice; the other
  three routines return with the lock as they found it.
\<close>

lemma flag_ops:
  assumes "\<not> lock_held x"
  shows "xdma_device_flag_check f x = Some (if flags x AND f \<noteq> 0 then 1 else 0, x)"
    "xdma_device_flag_set f x = Some (x\<lparr>flags := flags x OR f\<rparr>)"
    "xdma_device_flag_clear f x = Some (x\<lparr>flags := flags x AND NOT f\<rparr>)"
    "xdma_device_flag_test_n_set f x = (if flags x AND f \<noteq> 0 then None else Some (0, x\<lparr>flags := flags x OR f\<rparr>))"
  using assms
  by (cases x; simp add: xdma_device_flag_check_def xdma_device_flag_set_def xdma_device_flag_clear_def
      xdma_device_flag_test_n_set_def spin_lock_def spin_unlock_def)+

text \<open>Device numbers are strictly increasing along the list, so no two registered devices share one.\<close>

lemma xdev_list_add_idx:
  assumes "sorted_wrt (<) (map idx xs)"
  shows "sorted_wrt (<) (map idx (snd (xdev_list_add x xs)))"
proof (cases xs rule: rev_cases)
  case (snoc ys y)
  then have "idx z < idx y + 1" if "z \<in> set xs" for z using assms that by (auto simp: sorted_wrt_append dest: less_trans)
  then show ?thesis using assms snoc by (auto simp: xdev_list_add_def sorted_wrt_append Let_def)
qed (simp add: xdev_list_add_def Let_def)

lemma xdev_list_remove_idx: "sorted_wrt (<) (map idx xs) \<Longrightarrow> sorted_wrt (<) (map idx (xdev_list_remove x xs))"
  by (induction xs) (auto simp: xdev_list_remove_def)

subsection \<open>Concrete devices\<close>

definition sample_mem :: engine_mem where
  "sample_mem = \<lparr>m_desc = Some ([], 0x10000), m_result = Some ([], 0x20000), m_rx = Some ([], 0x30000), m_tx = Some ([], 0x40000)\<rparr>"

text \<open>The BARs of the chip: switch registers, DMA registers, memory; two H2C engines and one C2H engine.\<close>

definition sample_pci :: pci_env where
  "sample_pci = \<lparr>bar_len = (\<lambda>i. if i < 3 then 0x10000 else 0), iomap_ok = (\<lambda>i. True), enable_rv = 0, regions_rv = 0, dma64_ok = True, dma32_ok = True,
     engine_memory = (\<lambda>d ch. sample_mem), no_msi = False, bus_no_msi = [False], pci_caps = [0x11], alloc_vectors_rv = 19,
     enable_msi_rv = 0, pci_irq_vector = (\<lambda>i. 32 + i), request_irq_rv = (\<lambda>v. 0), pci_irq = 11, interrupt_pin = 1, devctl = 0x100, tasklet_mem = True, interrupt_mode = 0\<rparr>"

definition sample_ids :: device where
  "sample_ids l a = (case a of (b, off) \<Rightarrow>
     if b \<noteq> 1 then 0 else if off = 0x2000 then 0x1fc20006 else if off = 0x3000 then 0x1fc30006
     else if off = 0 then 0x1fc08006 else if off = 0x100 then 0x1fc08106 else if off = 0x1000 then 0x1fc18006 else 0)"

definition sample_xdev :: xdma_dev where
  "sample_xdev = (alloc_dev_instance 0x1000 0x2000)\<lparr>config_bar_idx := 1, h2c_channel_max := 2, c2h_channel_max := 2\<rparr>"

lemma sample_engines:
  "j < 2 \<Longrightarrow> engine_present sample_ids 1 DMA_TO_DEVICE j" "engine_present sample_ids 1 DMA_FROM_DEVICE 0"
  "engine_absent sample_ids 1 DMA_FROM_DEVICE 1" "mem_ok (engine_memory sample_pci d i)"
  by (auto simp: engine_present_def engine_absent_def engine_regs_at_def sample_ids_def less_2_cases_iff mem_ok_def sample_pci_def sample_mem_def)

subsection \<open>Properties\<close>

text \<open>
  Engine discovery gives every engine its own interrupt bit: on a device with \<open>h\<close> host-to-card
  and \<open>c\<close> card-to-host engines (and memory for them), \<open>probe_engines\<close> records those counts, sets
  every engine up at its own register block with its buffers, numbers the interrupt bits
  consecutively (H2C engine \<open>i\<close> has bit \<open>i\<close>, C2H engine \<open>j\<close> has bit \<open>h + j\<close>), and the two masks the
  interrupt handlers test are exactly those bits, so they never overlap.
\<close>

theorem probe_engines_irq_bits:
  assumes x: "engines_num x = 0" "length (engines_h2c x) = 2" "length (engines_c2h x) = 2" "xmask_irq_h2c x = 0" "xmask_irq_c2h x = 0"
    and lim: "int h \<le> h2c_channel_max x" "h2c_channel_max x \<le> 2" "int c \<le> c2h_channel_max x" "c2h_channel_max x \<le> 2"
    and here: "\<And>j. j < h \<Longrightarrow> engine_present hw (config_bar_idx x) DMA_TO_DEVICE j \<and> mem_ok (engine_memory P DMA_TO_DEVICE (int j))"
      "\<And>j. j < c \<Longrightarrow> engine_present hw (config_bar_idx x) DMA_FROM_DEVICE j \<and> mem_ok (engine_memory P DMA_FROM_DEVICE (int j))"
    and gone: "int h < h2c_channel_max x \<Longrightarrow> engine_absent hw (config_bar_idx x) DMA_TO_DEVICE h"
      "int c < c2h_channel_max x \<Longrightarrow> engine_absent hw (config_bar_idx x) DMA_FROM_DEVICE c"
  shows "\<exists>x' l'. probe_engines P hw x l = Some (0, x', l') \<and> h2c_channel_max x' = int h \<and> c2h_channel_max x' = int c \<and>
     engines_num x' = int (h + c) \<and>
     (\<forall>i<h. engine_ready (config_bar_idx x) DMA_TO_DEVICE i i (engines_h2c x' ! i)) \<and>
     (\<forall>j<c. engine_ready (config_bar_idx x) DMA_FROM_DEVICE j (h + j) (engines_c2h x' ! j)) \<and>
     xmask_irq_h2c x' = mask h \<and> xmask_irq_c2h x' = push_bit h (mask c) \<and> xmask_irq_h2c x' AND xmask_irq_c2h x' = 0"
proof -
  from probe_engines_ok [OF x(1-3) lim here gone, where l = l] obtain x1 x2 l' where
    p: "probe_engines P hw x l = Some (0, x2\<lparr>c2h_channel_max := int c\<rparr>, l')" "probed DMA_TO_DEVICE 0 h x x1"
      "probed DMA_FROM_DEVICE h c (x1\<lparr>h2c_channel_max := int h\<rparr>) x2" by blast
  have "mask h AND push_bit h (mask c) = (0 :: u32)" by (rule bit_word_eqI) (auto simp: bit_simps)
  with p x(4,5) show ?thesis by (auto simp: probed_def engines_def other_dir_def dir_mask_def)
qed

theorem probe_engines_irq_bits_witness:
  "\<exists>x' l'. probe_engines sample_pci sample_ids sample_xdev [] = Some (0, x', l') \<and> engines_num x' = 3 \<and>
     xmask_irq_h2c x' = 3 \<and> xmask_irq_c2h x' = 4"
proof -
  have "\<exists>x' l'. probe_engines sample_pci sample_ids sample_xdev [] = Some (0, x', l') \<and> h2c_channel_max x' = int 2 \<and> c2h_channel_max x' = int 1 \<and>
     engines_num x' = int (2 + 1) \<and>
     (\<forall>i<2. engine_ready (config_bar_idx sample_xdev) DMA_TO_DEVICE i i (engines_h2c x' ! i)) \<and>
     (\<forall>j<1. engine_ready (config_bar_idx sample_xdev) DMA_FROM_DEVICE j (2 + j) (engines_c2h x' ! j)) \<and>
     xmask_irq_h2c x' = mask 2 \<and> xmask_irq_c2h x' = push_bit 2 (mask 1) \<and> xmask_irq_h2c x' AND xmask_irq_c2h x' = 0"
    by (rule probe_engines_irq_bits) (use sample_engines in \<open>simp_all add: sample_xdev_def alloc_dev_instance_def\<close>)
  then show ?thesis by (auto simp: mask_eq_exp_minus_1)
qed

text \<open>
  Removing the engines undoes their discovery: after a successful \<open>probe_engines\<close> on a fresh
  device, \<open>remove_engines\<close> returns every engine structure to its cleared state and the engine count
  to zero.
\<close>

theorem probe_remove_roundtrip:
  assumes x: "engines_num x = 0" "engines_h2c x = replicate 2 zero_engine" "engines_c2h x = replicate 2 zero_engine"
    and lim: "int h \<le> h2c_channel_max x" "h2c_channel_max x \<le> 2" "int c \<le> c2h_channel_max x" "c2h_channel_max x \<le> 2"
    and here: "\<And>j. j < h \<Longrightarrow> engine_present hw (config_bar_idx x) DMA_TO_DEVICE j \<and> mem_ok (engine_memory P DMA_TO_DEVICE (int j))"
      "\<And>j. j < c \<Longrightarrow> engine_present hw (config_bar_idx x) DMA_FROM_DEVICE j \<and> mem_ok (engine_memory P DMA_FROM_DEVICE (int j))"
    and gone: "int h < h2c_channel_max x \<Longrightarrow> engine_absent hw (config_bar_idx x) DMA_TO_DEVICE h"
      "int c < c2h_channel_max x \<Longrightarrow> engine_absent hw (config_bar_idx x) DMA_FROM_DEVICE c"
  shows "\<exists>x' l' x'' l''. probe_engines P hw x l = Some (0, x', l') \<and> remove_engines x' l' = Some (x'', l'') \<and> engines_num x'' = 0 \<and>
     engines_h2c x'' = engines_h2c x \<and> engines_c2h x'' = engines_c2h x"
proof -
  have ln: "length (engines_h2c x) = 2" "length (engines_c2h x) = 2" by (simp_all add: x)
  from probe_engines_ok [OF x(1) ln lim here gone, where l = l] obtain x1 x2 l' where
    p: "probe_engines P hw x l = Some (0, x2\<lparr>c2h_channel_max := int c\<rparr>, l')" "probed DMA_TO_DEVICE 0 h x x1"
      "probed DMA_FROM_DEVICE h c (x1\<lparr>h2c_channel_max := int h\<rparr>) x2" by blast
  let ?x' = "x2\<lparr>c2h_channel_max := int c\<rparr>"
  have num: "engines_num ?x' = int (h + c)" "h2c_channel_max ?x' = int h" "c2h_channel_max ?x' = int c"
    using p(3) by (simp_all add: probed_def)
  have H: "length (engines DMA_TO_DEVICE ?x') = 2" "\<And>j. j < h \<Longrightarrow> magic (engines DMA_TO_DEVICE ?x' ! j) = MAGIC_ENGINE"
      "\<And>j. h \<le> j \<Longrightarrow> j < 2 \<Longrightarrow> engines DMA_TO_DEVICE ?x' ! j = zero_engine"
    using p(2,3) x by (simp_all add: probed_def engines_def other_dir_def engine_ready_def)
  have C: "length (engines DMA_FROM_DEVICE ?x') = 2" "\<And>j. j < c \<Longrightarrow> magic (engines DMA_FROM_DEVICE ?x' ! j) = MAGIC_ENGINE"
      "\<And>j. c \<le> j \<Longrightarrow> j < 2 \<Longrightarrow> engines DMA_FROM_DEVICE ?x' ! j = zero_engine"
    using p(2,3) x by (simp_all add: probed_def engines_def other_dir_def engine_ready_def)
  have b: "0 + h \<le> length (engines DMA_TO_DEVICE ?x')" "0 + c \<le> length (engines DMA_FROM_DEVICE ?x')" using lim H(1) C(1) by simp_all
  obtain y l1 where y: "remove_loop DMA_TO_DEVICE h 0 ?x' l' = Some (y, l1)" "engines_num y = engines_num ?x' - int h"
      "engines DMA_TO_DEVICE y = take 0 (engines DMA_TO_DEVICE ?x') @ replicate h zero_engine @ drop (0 + h) (engines DMA_TO_DEVICE ?x')"
      "engines (other_dir DMA_TO_DEVICE) y = engines (other_dir DMA_TO_DEVICE) ?x'" "c2h_channel_max y = c2h_channel_max ?x'"
    using remove_loop_ok [OF b(1), of l'] H(2) by auto
  have yc: "engines DMA_FROM_DEVICE y = engines DMA_FROM_DEVICE ?x'" using y(4) by (simp add: other_dir_def)
  obtain z l2 where z: "remove_loop DMA_FROM_DEVICE c 0 y l1 = Some (z, l2)" "engines_num z = engines_num y - int c"
      "engines DMA_FROM_DEVICE z = take 0 (engines DMA_FROM_DEVICE y) @ replicate c zero_engine @ drop (0 + c) (engines DMA_FROM_DEVICE y)"
      "engines (other_dir DMA_FROM_DEVICE) z = engines (other_dir DMA_FROM_DEVICE) y"
    using remove_loop_ok [of 0 c DMA_FROM_DEVICE y l1] b(2) C(2) yc by auto
  have clear: "replicate n zero_engine @ drop n es = replicate 2 zero_engine"
    if "length es = 2" "n \<le> 2" "\<And>j. n \<le> j \<Longrightarrow> j < 2 \<Longrightarrow> es ! j = zero_engine" for n and es :: "xdma_engine list"
    using that by (intro nth_equalityI) (auto simp: nth_append)
  have "engines_h2c z = replicate 2 zero_engine" using y(3) z(4) clear [OF H(1) _ H(3)] lim by (simp add: engines_def other_dir_def)
  moreover have "engines_c2h z = replicate 2 zero_engine" using z(3) yc clear [OF C(1) _ C(3)] lim by (simp add: engines_def)
  ultimately show ?thesis using p(1) y(1,2,5) z(1,2) num x by (simp add: remove_engines_def)
qed

theorem probe_remove_roundtrip_witness:
  "\<exists>x' l' x'' l''. probe_engines sample_pci sample_ids sample_xdev [] = Some (0, x', l') \<and> remove_engines x' l' = Some (x'', l'') \<and>
     engines_num x'' = 0 \<and> engines_h2c x'' = engines_h2c sample_xdev \<and> engines_c2h x'' = engines_c2h sample_xdev"
  by (rule probe_remove_roundtrip [where h = 2 and c = 1])
    (use sample_engines in \<open>simp_all add: sample_xdev_def alloc_dev_instance_def\<close>)

text \<open>
  The BARs are identified correctly or not kept: \<open>map_bars\<close> never fails an assertion; if every
  BAR that exists can be mapped and one of them carries the DMA identifiers, it succeeds, exactly
  the existing BARs are mapped and the configuration BAR is the first that qualifies (with three
  BARs and the configuration BAR not first, the first is the user BAR and the last the bypass
  BAR); otherwise it returns \<open>-EINVAL\<close> and no BAR is left mapped.
\<close>

theorem map_bars_finds_config:
  assumes hw: "\<And>l i. hw l (int i, XDMA_OFS_INT_CTRL) = irq_id i" "\<And>l i. hw l (int i, XDMA_OFS_CONFIG) = cfg_id i"
    and len: "\<And>i. 0 \<le> bar_len P i" and x: "length (bar x) = 3" "config_bar_idx x < 0"
  shows "\<exists>rv x' l'. map_bars P hw x l = Some (rv, x', l') \<and>
     (if (\<forall>i<3. bar_len P i \<noteq> 0 \<longrightarrow> iomap_ok P i) \<and> (\<exists>i<3. config_candidate P irq_id cfg_id i)
      then rv = 0 \<and> bar x' = map (\<lambda>i. bar_len P i \<noteq> 0) [0..<3] \<and>
        (\<exists>k<3. config_bar_idx x' = int k \<and> config_candidate P irq_id cfg_id k \<and> (\<forall>j<k. \<not> config_candidate P irq_id cfg_id j) \<and>
           ((\<forall>i<3. bar_len P i \<noteq> 0) \<and> k \<noteq> 0 \<longrightarrow> user_bar_idx x' = 0 \<and> bypass_bar_idx x' = 2))
      else rv = EINVAL_NEG \<and> bar x' = replicate 3 False)"
proof -
  let ?cand = "config_candidate P irq_id cfg_id"
  obtain failed ids pos x1 l1 where lp: "map_bars_loop P hw 3 0 [] 0 x l = (failed, ids, pos, x1, l1)" by (metis prod_cases5)
  have cf0: "config_found P ?cand 0 0 x" using x(2) by (simp add: config_found_def)
  from map_bars_loop_ok [OF hw len, where i = 0 and n = 3 and x = x and pos = 0 and l = l and failed = failed and ids = ids and
      pos' = pos and x' = x1 and l' = l1] x(1) cf0 lp
  have r: "length (bar x1) = 3" "failed \<longleftrightarrow> (\<exists>j<3. bar_len P j \<noteq> 0 \<and> \<not> iomap_ok P j)"
      "\<not> failed \<Longrightarrow> (\<forall>j<3. bar x1 ! j = (bar_len P j \<noteq> 0)) \<and> config_found P ?cand 3 pos x1 \<and> ids = present_bars P 3" by auto
  show ?thesis
  proof (cases "failed \<or> config_bar_idx x1 < 0")
    case True
    then have "map_bars P hw x l = Some (EINVAL_NEG, unmap_bars x1, l1)" using lp by (simp add: map_bars_def)
    moreover have "bar (unmap_bars x1) = replicate 3 False" using r(1) by (simp add: unmap_bars_def map_replicate_const)
    moreover have "\<not> ((\<forall>i<3. bar_len P i \<noteq> 0 \<longrightarrow> iomap_ok P i) \<and> (\<exists>i<3. ?cand i))"
      using True r(2,3) by (auto simp: config_found_def)
    ultimately show ?thesis by simp
  next
    case False
    then obtain k where k: "k < 3" "?cand k" "\<forall>j<k. \<not> ?cand j" "config_bar_idx x1 = int k" "pos = length (present_bars P k)"
      using r(3) by (auto simp: config_found_def)
    obtain x' where x': "identify_bars ids pos x1 = Some x'" "bar x' = bar x1" "config_bar_idx x' = config_bar_idx x1"
        "length ids = 3 \<and> (pos = 1 \<or> pos = 2) \<longrightarrow> user_bar_idx x' = ids ! 0 \<and> bypass_bar_idx x' = ids ! 2"
      using identify_bars_ok [of ids pos x1] by blast
    have run: "map_bars P hw x l = Some (0, x', l1)" using False lp x'(1) by (simp add: map_bars_def)
    have "bar x' = map (\<lambda>i. bar_len P i \<noteq> 0) [0..<3]"
      using r(1,3) False x'(2) by (intro nth_equalityI) auto
    moreover have "user_bar_idx x' = 0 \<and> bypass_bar_idx x' = 2" if all: "\<forall>i<3. bar_len P i \<noteq> 0" "k \<noteq> 0"
    proof -
      have f: "filter (\<lambda>j. bar_len P j \<noteq> 0) [0..<n] = [0..<n]" if "n \<le> 3" for n using all(1) that by (auto simp: filter_id_conv)
      have "ids = map int [0..<3]" "pos = k" using r(3) False k(1,5) f by auto
      moreover have "map int [0..<3] = [0, 1, 2]" by (simp add: upt_rec)
      moreover have "k = 1 \<or> k = 2" using k(1) all(2) by auto
      ultimately show ?thesis using x'(4) by simp
    qed
    moreover have "(\<forall>i<3. bar_len P i \<noteq> 0 \<longrightarrow> iomap_ok P i) \<and> (\<exists>i<3. ?cand i)" using False r(2) k(1,2) by blast
    ultimately show ?thesis using run k x'(3) by auto
  qed
qed

theorem map_bars_finds_config_witness:
  "\<exists>x' l'. map_bars sample_pci sample_ids (alloc_dev_instance 0x1000 0x2000) [] = Some (0, x', l') \<and> config_bar_idx x' = 1 \<and>
     user_bar_idx x' = 0 \<and> bypass_bar_idx x' = 2"
proof -
  let ?ii = "\<lambda>i :: nat. if i = 1 then 0x1fc20006 else 0 :: u32" and ?ci = "\<lambda>i :: nat. if i = 1 then 0x1fc30006 else 0 :: u32"
  have c: "config_candidate sample_pci ?ii ?ci i \<longleftrightarrow> i = 1" for i by (auto simp: config_candidate_def sample_pci_def)
  have "\<exists>rv x' l'. map_bars sample_pci sample_ids (alloc_dev_instance 0x1000 0x2000) [] = Some (rv, x', l') \<and>
     (if (\<forall>i<3. bar_len sample_pci i \<noteq> 0 \<longrightarrow> iomap_ok sample_pci i) \<and> (\<exists>i<3. config_candidate sample_pci ?ii ?ci i)
      then rv = 0 \<and> bar x' = map (\<lambda>i. bar_len sample_pci i \<noteq> 0) [0..<3] \<and>
        (\<exists>k<3. config_bar_idx x' = int k \<and> config_candidate sample_pci ?ii ?ci k \<and> (\<forall>j<k. \<not> config_candidate sample_pci ?ii ?ci j) \<and>
           ((\<forall>i<3. bar_len sample_pci i \<noteq> 0) \<and> k \<noteq> 0 \<longrightarrow> user_bar_idx x' = 0 \<and> bypass_bar_idx x' = 2))
      else rv = EINVAL_NEG \<and> bar x' = replicate 3 False)"
    by (rule map_bars_finds_config) (simp_all add: sample_ids_def sample_pci_def alloc_dev_instance_def)
  then show ?thesis unfolding c by (auto simp: sample_pci_def)
qed

end
