(* ===== verification/Xdma_Irq.thy ===== *)
theory Xdma_Irq
  imports Xdma_Dev
begin

unbundle bit_operations_syntax

section \<open>Interrupt vectors, opening and closing the device\<close>

text \<open>
  From \<open>libxdma.c\<close>: the choice between MSI-X, MSI and legacy interrupts, programming the vector
  registers, requesting and freeing the interrupt lines, and the routines that open, close,
  take offline and bring online a device, with the order of their error labels.

  The kernel's side of it is the record \<open>os_state\<close>: whether the PCI device is enabled and its
  regions are held, and the interrupts requested for this device, each with its cookie.
  Freeing an interrupt that is not requested (a kernel warning) is counted in \<open>os_bad_free\<close>; killing
  a tasklet that was never allocated is a null pointer access and therefore \<open>None\<close>. Channel and
  interrupt counts are non-negative.
\<close>

subsection \<open>Data\<close>

datatype irq_cookie = Ck_h2c nat | Ck_c2h nat | Ck_user nat | Ck_dev

datatype irq_handler = Irq_H2C | Irq_H2C_PTP | Irq_C2H | Irq_user | Irq_timer_value_change | Irq_config_change | Irq_timer_change | Irq_isr

record os_state =
  os_enabled :: bool
  os_regions :: bool
  os_master :: bool
  os_msix :: bool
  os_msi :: bool
  os_irqs :: "(int \<times> irq_cookie \<times> irq_handler) list"
  os_bad_free :: nat
  os_tasklet :: bool
  cfg_command :: u16
  cfg_status :: u16
  os_relaxed :: bool
  os_readrq :: int

definition request_irq :: "pci_env \<Rightarrow> int \<Rightarrow> irq_handler \<Rightarrow> irq_cookie \<Rightarrow> os_state \<Rightarrow> int \<times> os_state" where
  "request_irq P v h c os =
     (if request_irq_rv P v = 0 then (0, os\<lparr>os_irqs := os_irqs os @ [(v, c, h)]\<rparr>) else (request_irq_rv P v, os))"

definition free_irq :: "int \<Rightarrow> irq_cookie \<Rightarrow> os_state \<Rightarrow> os_state" where
  "free_irq v c os =
     (if \<exists>q \<in> set (os_irqs os). fst q = v \<and> fst (snd q) = c
      then os\<lparr>os_irqs := filter (\<lambda>q. \<not> (fst q = v \<and> fst (snd q) = c)) (os_irqs os)\<rparr>
      else os\<lparr>os_bad_free := os_bad_free os + 1\<rparr>)"

subsection \<open>The vector registers\<close>

text \<open>The inner loop: up to \<open>k\<close> vector numbers from \<open>i\<close> on, five bits each, one per byte.\<close>

fun pack_vectors :: "nat \<Rightarrow> int \<Rightarrow> int \<Rightarrow> nat \<Rightarrow> u32 \<Rightarrow> u32 \<times> int" where
  "pack_vectors 0 mx i sh val = (val, i)"
| "pack_vectors (Suc k) mx i sh val =
     (if i < mx then pack_vectors k mx (i + 1) (sh + 8) (val OR push_bit sh (word_of_int i AND 0x1f)) else (val, i))"

lemma pack_vectors_mono: "i \<le> snd (pack_vectors k mx i sh val)"
proof (induction k mx i sh val rule: pack_vectors.induct)
  case (2 k mx i sh val)
  then show ?case by (cases "i < mx") (use 2 in fastforce)+
qed simp

lemma pack_vectors_progress: "i < mx \<Longrightarrow> i < snd (pack_vectors (Suc k) mx i sh val)"
  using pack_vectors_mono [of "i + 1" k mx "sh + 8" "val OR push_bit sh (word_of_int i AND 0x1f)"] by simp

text \<open>The outer loop; the two register arrays have eight entries each.\<close>

function prog_vectors :: "bool \<Rightarrow> int \<Rightarrow> int \<Rightarrow> int \<Rightarrow> int \<Rightarrow> int \<Rightarrow> io_log \<Rightarrow> io_log option" where
  "prog_vectors clear cfg reg mx j i l =
     (if i < mx then
        (if j < 8 then
           (let (val, i) = (if clear then (0, i + 4) else pack_vectors (Suc 3) mx i 0 0)
            in prog_vectors clear cfg reg mx (j + 1) i (iowrite32 val (cfg, reg + 4 * j) l))
         else None)
      else Some l)"
  by auto
termination
proof (relation "measure (\<lambda>(clear, cfg, reg, mx, j, i, l). nat (mx - i))", goal_cases)
  case (2 clear cfg reg mx j i l p val i')
  then have "i < i'" using pack_vectors_progress [of i mx 3 0 0] by (cases clear) (auto simp del: pack_vectors.simps dest!: arg_cong [where f = snd])
  then show ?case using 2(1) by simp
qed simp

declare prog_vectors.simps [simp del]

definition prog_irq_msix_channel :: "xdma_dev \<Rightarrow> bool \<Rightarrow> io_log \<Rightarrow> io_log option" where
  "prog_irq_msix_channel x clear l = prog_vectors clear (config_bar_idx x) 0x20A0 (c2h_channel_max x + h2c_channel_max x) 0 0 l"

definition prog_irq_msix_user :: "xdma_dev \<Rightarrow> bool \<Rightarrow> io_log \<Rightarrow> io_log option" where
  "prog_irq_msix_user x clear l =
     (let i = c2h_channel_max x + h2c_channel_max x in prog_vectors clear (config_bar_idx x) 0x2080 (i + user_max x) 0 i l)"

subsection \<open>Choosing the interrupt mode\<close>

abbreviation (input) PCI_CAP_ID_MSI :: int where "PCI_CAP_ID_MSI \<equiv> 0x05"
abbreviation (input) PCI_CAP_ID_MSIX :: int where "PCI_CAP_ID_MSIX \<equiv> 0x11"

definition msi_msix_capable :: "pci_env \<Rightarrow> int \<Rightarrow> bool" where
  "msi_msix_capable P cap =
     (if no_msi P then False else if \<exists>b \<in> set (bus_no_msi P). b then False else cap \<in> set (pci_caps P))"

definition enable_msi_msix :: "pci_env \<Rightarrow> xdma_dev \<Rightarrow> os_state \<Rightarrow> int \<times> xdma_dev \<times> os_state" where
  "enable_msi_msix P x os =
     (if interrupt_mode P = 0 \<and> msi_msix_capable P PCI_CAP_ID_MSIX then
        (alloc_vectors_rv P, x\<lparr>msix_enabled := True\<rparr>, if alloc_vectors_rv P < 0 then os else os\<lparr>os_msix := True\<rparr>)
      else if interrupt_mode P = 1 \<and> msi_msix_capable P PCI_CAP_ID_MSI then
        (enable_msi_rv P, x\<lparr>msi_enabled := True\<rparr>, if enable_msi_rv P < 0 then os else os\<lparr>os_msi := True\<rparr>)
      else (0, x, os))"

definition disable_msi_msix :: "xdma_dev \<Rightarrow> os_state \<Rightarrow> xdma_dev \<times> os_state" where
  "disable_msi_msix x os =
     (if msix_enabled x then (x\<lparr>msix_enabled := False\<rparr>, os\<lparr>os_msix := False\<rparr>)
      else if msi_enabled x then (x\<lparr>msi_enabled := False\<rparr>, os\<lparr>os_msi := False\<rparr>)
      else (x, os))"

abbreviation (input) PCI_STATUS_INTERRUPT :: u16 where "PCI_STATUS_INTERRUPT \<equiv> 0x08"
abbreviation (input) PCI_COMMAND_INTX_DISABLE :: u16 where "PCI_COMMAND_INTX_DISABLE \<equiv> 0x400"

definition pci_check_intr_pend :: "os_state \<Rightarrow> os_state" where
  "pci_check_intr_pend os =
     (if cfg_status os AND PCI_STATUS_INTERRUPT \<noteq> 0 then os\<lparr>cfg_status := PCI_STATUS_INTERRUPT\<rparr> else os)"

definition pci_keep_intx_enabled :: "os_state \<Rightarrow> os_state" where
  "pci_keep_intx_enabled os =
     (let pcmd = cfg_command os; pcmd_new = pcmd AND NOT PCI_COMMAND_INTX_DISABLE
      in if pcmd_new \<noteq> pcmd then os\<lparr>cfg_command := pcmd_new\<rparr> else os)"

abbreviation (input) PCI_EXP_DEVCTL_EXT_TAG :: u16 where "PCI_EXP_DEVCTL_EXT_TAG \<equiv> 0x100"

definition pci_check_extended_tag :: "pci_env \<Rightarrow> device \<Rightarrow> xdma_dev \<Rightarrow> io_log \<Rightarrow> io_log" where
  "pci_check_extended_tag P hw x l =
     (if devctl P AND PCI_EXP_DEVCTL_EXT_TAG \<noteq> 0 then l
      else if config_bar_idx x < 0 then l
      else (let (v, l) = ioread32 hw (config_bar_idx x, XDMA_OFS_CONFIG + 0x4C) l;
                v = (v AND 0xFF) OR push_bit 8 32
            in iowrite32 v (config_bar_idx x, XDMA_OFS_CONFIG + 0x4C) l))"

subsection \<open>Requesting the MSI-X interrupts\<close>

fun h2c_request :: "pci_env \<Rightarrow> nat \<Rightarrow> nat \<Rightarrow> xdma_dev \<Rightarrow> os_state \<Rightarrow> (int \<times> xdma_dev \<times> os_state) option" where
  "h2c_request P 0 i x os = Some (0, x, os)"
| "h2c_request P (Suc n) i x os =
     (let vector = pci_irq_vector P (int i);
          (rv, os) = (if i = 0 then request_irq P vector Irq_H2C (Ck_h2c i) os
                      else if i = 1 then request_irq P vector Irq_H2C_PTP (Ck_h2c i) os
                      else (0, os))
      in if rv \<noteq> 0 then Some (rv, x, os)
         else (case arr_set (h2c_irq_line x) (int i) vector of
                 None \<Rightarrow> None
               | Some ls \<Rightarrow> h2c_request P n (Suc i) (x\<lparr>h2c_irq_line := ls\<rparr>) os))"

fun c2h_request :: "pci_env \<Rightarrow> nat \<Rightarrow> nat \<Rightarrow> int \<Rightarrow> xdma_dev \<Rightarrow> os_state \<Rightarrow> (int \<times> xdma_dev \<times> os_state) option" where
  "c2h_request P 0 i j x os = Some (0, x, os)"
| "c2h_request P (Suc n) i j x os =
     (let vector = pci_irq_vector P j;
          (rv, os) = request_irq P vector Irq_C2H (Ck_c2h i) os
      in if rv \<noteq> 0 then Some (rv, x, os)
         else (case arr_set (c2h_irq_line x) (int i) vector of
                 None \<Rightarrow> None
               | Some ls \<Rightarrow> c2h_request P n (Suc i) (j + 1) (x\<lparr>c2h_irq_line := ls\<rparr>) os))"

definition irq_msix_channel_setup :: "pci_env \<Rightarrow> xdma_dev \<Rightarrow> os_state \<Rightarrow> (int \<times> xdma_dev \<times> os_state) option" where
  "irq_msix_channel_setup P x os =
     (if \<not> msix_enabled x then Some (0, x, os)
      else Option.bind (h2c_request P (nat (h2c_channel_max x)) 0 x os) (\<lambda>(rv, x, os).
           if rv \<noteq> 0 then Some (rv, x, os)
           else Option.bind (c2h_request P (nat (c2h_channel_max x)) 0 (h2c_channel_max x) x os) (\<lambda>(rv, x, os).
                if rv \<noteq> 0 then Some (rv, x, os)
                else if tasklet_mem P then Some (0, x, os\<lparr>os_tasklet := True\<rparr>) else None)))"

text \<open>Which handler a user interrupt gets.\<close>

definition user_irq_handler :: "nat \<Rightarrow> irq_handler option" where
  "user_irq_handler i =
     (if i < 8 \<or> (11 \<le> i \<and> i \<le> 15) then Some Irq_user
      else if i = 10 then Some Irq_timer_value_change
      else if i = 8 then Some Irq_config_change
      else if i = 9 then Some Irq_timer_change
      else None)"

text \<open>The request loop returns the index it stopped at; on an error the interrupts before it are freed, last first.\<close>

fun user_request :: "pci_env \<Rightarrow> nat \<Rightarrow> nat \<Rightarrow> int \<Rightarrow> os_state \<Rightarrow> int \<times> nat \<times> os_state" where
  "user_request P 0 i j os = (0, i, os)"
| "user_request P (Suc n) i j os =
     (let (rv, os) = (case user_irq_handler i of
                        None \<Rightarrow> (0, os)
                      | Some h \<Rightarrow> request_irq P (pci_irq_vector P j) h (Ck_user i) os)
      in if rv \<noteq> 0 then (rv, i, os) else user_request P n (Suc i) (j + 1) os)"

fun user_unwind :: "pci_env \<Rightarrow> int \<Rightarrow> nat \<Rightarrow> os_state \<Rightarrow> os_state" where
  "user_unwind P base 0 os = os"
| "user_unwind P base (Suc i) os = user_unwind P base i (free_irq (pci_irq_vector P (base + int i)) (Ck_user i) os)"

definition irq_msix_user_setup :: "pci_env \<Rightarrow> xdma_dev \<Rightarrow> os_state \<Rightarrow> int \<times> os_state" where
  "irq_msix_user_setup P x os =
     (let j = h2c_channel_max x + c2h_channel_max x;
          (rv, i, os) = user_request P (nat (user_max x)) 0 j os
      in if rv \<noteq> 0 then (rv, user_unwind P j i os) else (rv, os))"

subsection \<open>Freeing the MSI-X interrupts\<close>

fun line_free :: "(nat \<Rightarrow> irq_cookie) \<Rightarrow> int list \<Rightarrow> nat \<Rightarrow> nat \<Rightarrow> os_state \<Rightarrow> os_state option" where
  "line_free ck ls 0 i os = Some os"
| "line_free ck ls (Suc n) i os =
     (case arr_get ls (int i) of
        None \<Rightarrow> None
      | Some v \<Rightarrow> if v = 0 then Some os else line_free ck ls n (Suc i) (free_irq v (ck i) os))"

definition irq_msix_channel_teardown :: "xdma_dev \<Rightarrow> os_state \<Rightarrow> io_log \<Rightarrow> (os_state \<times> io_log) option" where
  "irq_msix_channel_teardown x os l =
     (if \<not> msix_enabled x then Some (os, l)
      else Option.bind (prog_irq_msix_channel x True l) (\<lambda>l.
           Option.bind (line_free Ck_h2c (h2c_irq_line x) (nat (h2c_channel_max x)) 0 os) (\<lambda>os.
           Option.bind (line_free Ck_c2h (c2h_irq_line x) (nat (c2h_channel_max x)) 0 os) (\<lambda>os.
           if os_tasklet os then Some (os, l) else None))))"

fun user_free :: "pci_env \<Rightarrow> nat \<Rightarrow> nat \<Rightarrow> int \<Rightarrow> os_state \<Rightarrow> os_state" where
  "user_free P 0 i j os = os"
| "user_free P (Suc n) i j os = user_free P n (Suc i) (j + 1) (free_irq (pci_irq_vector P j) (Ck_user i) os)"

definition irq_msix_user_teardown :: "pci_env \<Rightarrow> xdma_dev \<Rightarrow> os_state \<Rightarrow> io_log \<Rightarrow> (os_state \<times> io_log) option" where
  "irq_msix_user_teardown P x os l =
     (if \<not> msix_enabled x then Some (os, l)
      else map_option (\<lambda>l. (user_free P (nat (user_max x)) 0 (h2c_channel_max x + c2h_channel_max x) os, l))
             (prog_irq_msix_user x True l))"

subsection \<open>MSI and legacy interrupts\<close>

definition irq_msi_setup :: "pci_env \<Rightarrow> xdma_dev \<Rightarrow> os_state \<Rightarrow> int \<times> xdma_dev \<times> os_state" where
  "irq_msi_setup P x os =
     (let (rv, os) = request_irq P (pci_irq P) Irq_isr Ck_dev os in (rv, x\<lparr>irq_line := pci_irq P\<rparr>, os))"

definition irq_legacy_setup :: "pci_env \<Rightarrow> xdma_dev \<Rightarrow> os_state \<Rightarrow> io_log \<Rightarrow> int \<times> xdma_dev \<times> os_state \<times> io_log" where
  "irq_legacy_setup P x os l =
     (let l = (if interrupt_pin P > 1 then
                 (let v = ucast (interrupt_pin P - 1) :: u32;
                      w = push_bit 24 v OR push_bit 16 v OR push_bit 8 v OR v
                  in fold (\<lambda>off l. iowrite32 w (config_bar_idx x, off) l) [0x2080, 0x2084, 0x2088, 0x208C, 0x20A0, 0x20A4] l)
               else l);
          (rv, os) = request_irq P (pci_irq P) Irq_isr Ck_dev os
      in (rv, x\<lparr>irq_line := pci_irq P\<rparr>, os, l))"

definition irq_teardown :: "pci_env \<Rightarrow> xdma_dev \<Rightarrow> os_state \<Rightarrow> io_log \<Rightarrow> (os_state \<times> io_log) option" where
  "irq_teardown P x os l =
     (if msix_enabled x then
        Option.bind (irq_msix_channel_teardown x os l) (\<lambda>(os, l). irq_msix_user_teardown P x os l)
      else if irq_line x \<noteq> -1 then Some (free_irq (irq_line x) Ck_dev os, l)
      else Some (os, l))"

definition irq_setup :: "pci_env \<Rightarrow> xdma_dev \<Rightarrow> os_state \<Rightarrow> io_log \<Rightarrow> (int \<times> xdma_dev \<times> os_state \<times> io_log) option" where
  "irq_setup P x os l =
     (let os = pci_keep_intx_enabled os in
      if msix_enabled x then
        Option.bind (irq_msix_channel_setup P x os) (\<lambda>(rv, x, os).
        if rv \<noteq> 0 then Some (rv, x, os, l)
        else (let (rv, os) = irq_msix_user_setup P x os in
              if rv \<noteq> 0 then Some (rv, x, os, l)
              else Option.bind (prog_irq_msix_channel x False l) (\<lambda>l.
                   map_option (\<lambda>l. (0, x, os, l)) (prog_irq_msix_user x False l))))
      else if msi_enabled x then (let (rv, x, os) = irq_msi_setup P x os in Some (rv, x, os, l))
      else Some (irq_legacy_setup P x os l))"

subsection \<open>Opening the device\<close>

definition request_regions :: "pci_env \<Rightarrow> xdma_dev \<Rightarrow> os_state \<Rightarrow> int \<times> xdma_dev \<times> os_state" where
  "request_regions P x os =
     (if regions_rv P \<noteq> 0 then (regions_rv P, x\<lparr>regions_in_use := True\<rparr>, os)
      else (0, x\<lparr>got_regions := True\<rparr>, os\<lparr>os_regions := True\<rparr>))"

definition set_dma_mask :: "pci_env \<Rightarrow> int" where
  "set_dma_mask P = (if dma64_ok P then 0 else if dma32_ok P then 0 else EINVAL_NEG)"

text \<open>The error labels of \<open>xdma_device_open\<close>, each falling through to the next; the result \<open>None\<close> inside is \<open>NULL\<close>.\<close>

type_synonym open_result = "xdma_dev option \<times> os_state \<times> xdma_dev list \<times> io_log"

definition err_enable :: "xdma_dev \<Rightarrow> os_state \<Rightarrow> xdma_dev list \<Rightarrow> io_log \<Rightarrow> open_result option" where
  "err_enable x os xs l = Some (None, os, xdev_list_remove x xs, l)"

definition err_regions :: "xdma_dev \<Rightarrow> os_state \<Rightarrow> xdma_dev list \<Rightarrow> io_log \<Rightarrow> open_result option" where
  "err_regions x os xs l = err_enable x (if regions_in_use x then os else os\<lparr>os_enabled := False\<rparr>) xs l"

definition err_map :: "xdma_dev \<Rightarrow> os_state \<Rightarrow> xdma_dev list \<Rightarrow> io_log \<Rightarrow> open_result option" where
  "err_map x os xs l = err_regions x (if got_regions x then os\<lparr>os_regions := False\<rparr> else os) xs l"

definition err_mask :: "xdma_dev \<Rightarrow> os_state \<Rightarrow> xdma_dev list \<Rightarrow> io_log \<Rightarrow> open_result option" where
  "err_mask x os xs l = err_map (unmap_bars x) os xs l"

definition err_engines :: "xdma_dev \<Rightarrow> os_state \<Rightarrow> xdma_dev list \<Rightarrow> io_log \<Rightarrow> open_result option" where
  "err_engines x os xs l = Option.bind (remove_engines x l) (\<lambda>(x, l). err_mask x os xs l)"

definition err_enable_msix :: "xdma_dev \<Rightarrow> os_state \<Rightarrow> xdma_dev list \<Rightarrow> io_log \<Rightarrow> open_result option" where
  "err_enable_msix x os xs l = (let (x, os) = disable_msi_msix x os in err_engines x os xs l)"

definition err_interrupts :: "pci_env \<Rightarrow> xdma_dev \<Rightarrow> os_state \<Rightarrow> xdma_dev list \<Rightarrow> io_log \<Rightarrow> open_result option" where
  "err_interrupts P x os xs l = Option.bind (irq_teardown P x os l) (\<lambda>(os, l). err_enable_msix x os xs l)"

text \<open>The steps of \<open>xdma_device_open\<close>, the last ones first: from the set-up of the interrupts on.\<close>

definition open_irqs :: "pci_env \<Rightarrow> device \<Rightarrow> xdma_dev \<Rightarrow> os_state \<Rightarrow> xdma_dev list \<Rightarrow> io_log \<Rightarrow> open_result option" where
  "open_irqs P hw x os xs l =
     (let (rv, x, os) = enable_msi_msix P x os in
      if rv < 0 then err_enable_msix x os xs l
      else Option.bind (irq_setup P x os l) (\<lambda>(rv, x, os, l).
           if rv < 0 then err_interrupts P x os xs l
           else
             (let l = channel_interrupts_enable x (NOT 0) l;
                  (_, l) = read_interrupts hw x l
              in map_option (\<lambda>x. (Some x, os, xs, l)) (xdma_device_flag_clear XDEV_FLAG_OFFLINE x))))"

text \<open>From the probing of the engines on.\<close>

definition open_engines :: "pci_env \<Rightarrow> device \<Rightarrow> xdma_dev \<Rightarrow> os_state \<Rightarrow> xdma_dev list \<Rightarrow> io_log \<Rightarrow> open_result option" where
  "open_engines P hw x os xs l =
     (let l = check_nonzero_interrupt_status hw x l;
          l = channel_interrupts_disable x (NOT 0) l;
          l = user_interrupts_disable x (NOT 0) l;
          l = snd (read_interrupts hw x l)
      in Option.bind (probe_engines P hw x l) (\<lambda>(rv, x, l).
         if rv \<noteq> 0 then err_engines x os xs l else open_irqs P hw x os xs l))"

text \<open>From the enabling of the PCI device on.\<close>

definition open_pci :: "pci_env \<Rightarrow> device \<Rightarrow> xdma_dev \<Rightarrow> os_state \<Rightarrow> xdma_dev list \<Rightarrow> io_log \<Rightarrow> open_result option" where
  "open_pci P hw x os xs l =
     (if enable_rv P \<noteq> 0 then err_enable x os xs l
      else
        (let os = os\<lparr>os_enabled := True\<rparr>;
             os = pci_check_intr_pend os;
             os = os\<lparr>os_relaxed := True\<rparr>;
             l = pci_check_extended_tag P hw x l;
             os = os\<lparr>os_readrq := 128, os_master := True\<rparr>;
             (rv, x, os) = request_regions P x os
         in if rv \<noteq> 0 then err_regions x os xs l
            else Option.bind (map_bars P hw x l) (\<lambda>(rv, x, l).
                 if rv \<noteq> 0 then err_map x os xs l
                 else if set_dma_mask P \<noteq> 0 then err_mask x os xs l
                 else open_engines P hw x os xs l)))"

text \<open>
  \<open>h\<close> is the address of the new structure (\<open>None\<close> when the allocation fails), \<open>pd\<close> the PCI device;
  the other three numbers are the maxima the caller passes in and reads back from the device.
\<close>

definition xdma_device_open :: "pci_env \<Rightarrow> device \<Rightarrow> int option \<Rightarrow> int \<Rightarrow> int \<Rightarrow> int \<Rightarrow> int \<Rightarrow> os_state \<Rightarrow> xdma_dev list \<Rightarrow> io_log \<Rightarrow>
    open_result option" where
  "xdma_device_open P hw h pd umax hmax cmax os xs l =
     (case h of
        None \<Rightarrow> Some (None, os, xs, l)
      | Some h \<Rightarrow>
          (let x = (alloc_dev_instance h pd)\<lparr>user_max := umax, h2c_channel_max := hmax, c2h_channel_max := cmax\<rparr> in
           Option.bind (xdma_device_flag_set XDEV_FLAG_OFFLINE x) (\<lambda>x.
           let (x, xs) = xdev_list_add x xs;
               x = x\<lparr>user_max := clip_max (user_max x) MAX_USER_IRQ\<rparr>;
               x = x\<lparr>h2c_channel_max := clip_max (h2c_channel_max x) XDMA_CHANNEL_NUM_MAX\<rparr>;
               x = x\<lparr>c2h_channel_max := clip_max (c2h_channel_max x) XDMA_CHANNEL_NUM_MAX\<rparr>
           in open_pci P hw x os xs l)))"

subsection \<open>Closing the device, and taking it offline and online\<close>

definition xdma_device_close :: "pci_env \<Rightarrow> device \<Rightarrow> int \<Rightarrow> xdma_dev option \<Rightarrow> os_state \<Rightarrow> xdma_dev list \<Rightarrow> io_log \<Rightarrow>
    (os_state \<times> xdma_dev list \<times> io_log) option" where
  "xdma_device_close P hw pd dev os xs l =
     (case dev of
        None \<Rightarrow> Some (os, xs, l)
      | Some x \<Rightarrow>
          if debug_check_dev_hndl pd (handle x) xs < 0 then Some (os, xs, l)
          else
            (let l = channel_interrupts_disable x (NOT 0) l;
                 l = user_interrupts_disable x (NOT 0) l;
                 (_, l) = read_interrupts hw x l
             in Option.bind (irq_teardown P x os l) (\<lambda>(os, l).
                let (x, os) = disable_msi_msix x os
                in Option.bind (remove_engines x l) (\<lambda>(x, l).
                   let x = unmap_bars x;
                       os = (if got_regions x then os\<lparr>os_regions := False\<rparr> else os);
                       os = (if \<not> regions_in_use x then os\<lparr>os_enabled := False\<rparr> else os)
                   in Some (os, xdev_list_remove x xs, l)))))"

fun offline_loop :: "dma_data_direction \<Rightarrow> nat \<Rightarrow> nat \<Rightarrow> xdma_dev \<Rightarrow> io_log \<Rightarrow> (xdma_dev \<times> io_log) option" where
  "offline_loop d 0 i x l = Some (x, l)"
| "offline_loop d (Suc n) i x l =
     (case arr_get (engines d x) (int i) of
        None \<Rightarrow> None
      | Some e \<Rightarrow>
          if magic e = MAGIC_ENGINE then
            (let e = e\<lparr>shutdown := shutdown e OR ENGINE_SHUTDOWN_REQUEST\<rparr>;
                 (e, l) = xdma_engine_stop e l;
                 e = e\<lparr>running := False\<rparr>
             in offline_loop d n (Suc i) (set_engine d i e x) l)
          else offline_loop d n (Suc i) x l)"

definition xdma_device_offline :: "pci_env \<Rightarrow> device \<Rightarrow> int \<Rightarrow> xdma_dev \<Rightarrow> os_state \<Rightarrow> xdma_dev list \<Rightarrow> io_log \<Rightarrow>
    (xdma_dev \<times> os_state \<times> io_log) option" where
  "xdma_device_offline P hw pd x os xs l =
     (if debug_check_dev_hndl pd (handle x) xs < 0 then Some (x, os, l)
      else
        Option.bind (xdma_device_flag_set XDEV_FLAG_OFFLINE x) (\<lambda>x.
        Option.bind (offline_loop DMA_TO_DEVICE (nat (h2c_channel_max x)) 0 x l) (\<lambda>(x, l).
        Option.bind (offline_loop DMA_FROM_DEVICE (nat (c2h_channel_max x)) 0 x l) (\<lambda>(x, l).
        let l = channel_interrupts_disable x (NOT 0) l;
            l = user_interrupts_disable x (NOT 0) l;
            (_, l) = read_interrupts hw x l
        in map_option (\<lambda>(os, l). (x, os, l)) (irq_teardown P x os l)))))"

fun online_loop :: "device \<Rightarrow> dma_data_direction \<Rightarrow> nat \<Rightarrow> nat \<Rightarrow> xdma_dev \<Rightarrow> io_log \<Rightarrow> (xdma_dev \<times> io_log) option" where
  "online_loop hw d 0 i x l = Some (x, l)"
| "online_loop hw d (Suc n) i x l =
     (case arr_get (engines d x) (int i) of
        None \<Rightarrow> None
      | Some e \<Rightarrow>
          if magic e = MAGIC_ENGINE then
            (let (rv, e, l) = engine_init_regs hw e l;
                 e = e\<lparr>shutdown := shutdown e AND NOT ENGINE_SHUTDOWN_REQUEST\<rparr>
             in online_loop hw d n (Suc i) (set_engine d i e x) l)
          else online_loop hw d n (Suc i) x l)"

text \<open>The result of \<open>irq_setup\<close> is ignored.\<close>

definition xdma_device_online :: "pci_env \<Rightarrow> device \<Rightarrow> int \<Rightarrow> xdma_dev \<Rightarrow> os_state \<Rightarrow> xdma_dev list \<Rightarrow> io_log \<Rightarrow>
    (xdma_dev \<times> os_state \<times> io_log) option" where
  "xdma_device_online P hw pd x os xs l =
     (if debug_check_dev_hndl pd (handle x) xs < 0 then Some (x, os, l)
      else
        Option.bind (online_loop hw DMA_TO_DEVICE (nat (h2c_channel_max x)) 0 x l) (\<lambda>(x, l).
        Option.bind (online_loop hw DMA_FROM_DEVICE (nat (c2h_channel_max x)) 0 x l) (\<lambda>(x, l).
        Option.bind (irq_setup P x os l) (\<lambda>(rv, x, os, l).
        let l = channel_interrupts_enable x (NOT 0) l;
            l = user_interrupts_enable x (mask_irq_user x) l;
            (_, l) = read_interrupts hw x l
        in map_option (\<lambda>x. (x, os, l)) (xdma_device_flag_clear XDEV_FLAG_OFFLINE x)))))"

subsection \<open>What the vector registers hold\<close>

definition vec :: "int \<Rightarrow> int \<Rightarrow> u32" where
  "vec mx i = fst (pack_vectors (Suc 3) mx i 0 0)"

lemma pack_vectors_next: "i \<le> mx \<Longrightarrow> snd (pack_vectors k mx i sh val) = min mx (i + int k)"
proof (induction k arbitrary: i sh val)
  case (Suc k)
  then show ?case by (cases "i < mx") auto
qed simp

lemma five_bits: "(0x1f :: u32) = mask 5" by (simp add: mask_eq_exp_minus_1)

lemma vec_byte:
  assumes "t < 4" and "i + int t < mx"
  shows "drop_bit (8 * t) (vec mx i) AND 0x1f = word_of_int (i + int t) AND 0x1f"
proof -
  define w where "w k = (word_of_int (i + int k) AND 0x1f :: u32)" for k
  have w: "bit (w k) n \<Longrightarrow> n < 5" for k n by (auto simp: w_def five_bits bit_simps)
  have all: "vec mx i = fst (if i < mx then (if i + 1 < mx then (if i + 2 < mx then (if i + 3 < mx
      then (w 0 OR push_bit 8 (w 1) OR push_bit 16 (w 2) OR push_bit 24 (w 3), i + 4) else (w 0 OR push_bit 8 (w 1) OR push_bit 16 (w 2), i + 3))
      else (w 0 OR push_bit 8 (w 1), i + 2)) else (w 0, i + 1)) else (0, i))"
    by (simp add: vec_def w_def numeral_3_eq_3 ac_simps)
  have "t = 0 \<or> t = 1 \<or> t = 2 \<or> t = 3" using assms(1) by auto
  then show ?thesis
  proof (elim disjE)
    assume "t = 0"
    then show ?thesis using assms(2) unfolding all w_def [symmetric]
      by (intro bit_word_eqI) (auto simp: five_bits bit_simps w_def)
  next
    assume "t = 1"
    then show ?thesis using assms(2) unfolding all w_def [symmetric]
      by (intro bit_word_eqI) (auto simp: five_bits bit_simps w_def)
  next
    assume "t = 2"
    then show ?thesis using assms(2) unfolding all w_def [symmetric]
      by (intro bit_word_eqI) (auto simp: five_bits bit_simps w_def)
  next
    assume "t = 3"
    then show ?thesis using assms(2) unfolding all w_def [symmetric]
      by (intro bit_word_eqI) (auto simp: five_bits bit_simps w_def)
  qed
qed

lemma prog_vectors_last:
  "\<lbrakk>i \<le> mx; 0 \<le> j; mx - i \<le> 4 * (8 - j)\<rbrakk> \<Longrightarrow>
   \<exists>l'. prog_vectors False cfg reg mx j i l = Some l' \<and>
     (\<forall>t. i + 4 * int t < mx \<longrightarrow> last_write (cfg, reg + 4 * (j + int t)) l' = Some (vec mx (i + 4 * int t))) \<and>
     (\<forall>a. (\<forall>t. i + 4 * int t < mx \<longrightarrow> a \<noteq> (cfg, reg + 4 * (j + int t))) \<longrightarrow> last_write a l' = last_write a l)"
proof (induction "nat (mx - i)" arbitrary: i j l rule: less_induct)
  case less
  show ?case
  proof (cases "i < mx")
    case False
    then show ?thesis by (simp add: prog_vectors.simps)
  next
    case True
    let ?i = "min mx (i + 4)" and ?l = "WR (cfg, reg + 4 * j) (vec mx i) # l"
    have "pack_vectors (Suc 3) mx i 0 0 = (vec mx i, ?i)"
      using pack_vectors_next [OF less.prems(1), of "Suc 3" 0 0] by (simp add: vec_def prod_eq_iff del: pack_vectors.simps)
    then have step: "prog_vectors False cfg reg mx j i l = prog_vectors False cfg reg mx (j + 1) ?i ?l"
      using True less.prems by (subst prog_vectors.simps) (simp add: io_simps del: pack_vectors.simps)
    have "\<exists>l'. prog_vectors False cfg reg mx (j + 1) ?i ?l = Some l' \<and>
     (\<forall>t. ?i + 4 * int t < mx \<longrightarrow> last_write (cfg, reg + 4 * (j + 1 + int t)) l' = Some (vec mx (?i + 4 * int t))) \<and>
     (\<forall>a. (\<forall>t. ?i + 4 * int t < mx \<longrightarrow> a \<noteq> (cfg, reg + 4 * (j + 1 + int t))) \<longrightarrow> last_write a l' = last_write a ?l)"
      by (rule less.hyps) (use True less.prems in \<open>auto simp: min_def\<close>)
    then obtain l' where l': "prog_vectors False cfg reg mx (j + 1) ?i ?l = Some l'"
        "\<And>t. ?i + 4 * int t < mx \<Longrightarrow> last_write (cfg, reg + 4 * (j + 1 + int t)) l' = Some (vec mx (?i + 4 * int t))"
        "\<And>a. (\<forall>t. ?i + 4 * int t < mx \<longrightarrow> a \<noteq> (cfg, reg + 4 * (j + 1 + int t))) \<Longrightarrow> last_write a l' = last_write a ?l" by blast
    have "last_write (cfg, reg + 4 * (j + int t)) l' = Some (vec mx (i + 4 * int t))" if "i + 4 * int t < mx" for t
    proof (cases t)
      case 0
      then show ?thesis using l'(3) [of "(cfg, reg + 4 * j)"] by simp
    next
      case (Suc u)
      then have "?i = i + 4" using that by simp
      then show ?thesis using l'(2) [of u] that Suc by (simp add: algebra_simps)
    qed
    moreover have "last_write a l' = last_write a l" if "\<forall>t. i + 4 * int t < mx \<longrightarrow> a \<noteq> (cfg, reg + 4 * (j + int t))" for a
    proof -
      have "a \<noteq> (cfg, reg + 4 * (j + 1 + int t))" if "?i + 4 * int t < mx" for t
        using \<open>\<forall>t. _ t\<close> [rule_format, of "Suc t"] that by (simp add: algebra_simps min_def split: if_splits)
      then have "last_write a l' = last_write a ?l" using l'(3) by blast
      moreover have "a \<noteq> (cfg, reg + 4 * j)" using that [rule_format, of 0] True by simp
      ultimately show ?thesis by simp
    qed
    ultimately show ?thesis using step l'(1) by auto
  qed
qed

subsection \<open>The table of requested interrupts\<close>

definition h2c_irqs :: "pci_env \<Rightarrow> nat \<Rightarrow> (int \<times> irq_cookie \<times> irq_handler) list" where
  "h2c_irqs P n = map (\<lambda>i. (pci_irq_vector P (int i), Ck_h2c i, if i = 0 then Irq_H2C else Irq_H2C_PTP)) [0..<n]"

definition c2h_irqs :: "pci_env \<Rightarrow> nat \<Rightarrow> nat \<Rightarrow> (int \<times> irq_cookie \<times> irq_handler) list" where
  "c2h_irqs P base n = map (\<lambda>i. (pci_irq_vector P (int (base + i)), Ck_c2h i, Irq_C2H)) [0..<n]"

definition user_irqs :: "pci_env \<Rightarrow> nat \<Rightarrow> nat \<Rightarrow> (int \<times> irq_cookie \<times> irq_handler) list" where
  "user_irqs P base n = map (\<lambda>i. (pci_irq_vector P (int (base + i)), Ck_user i, the (user_irq_handler i))) [0..<n]"

definition cookies :: "os_state \<Rightarrow> irq_cookie list" where
  "cookies os = map (fst \<circ> snd) (os_irqs os)"

lemma free_irq_mid:
  assumes "os_irqs os = A @ (v, c, h) # B" and "distinct (cookies os)"
  shows "free_irq v c os = os\<lparr>os_irqs := A @ B\<rparr>"
proof -
  have "fst (snd q) \<noteq> c" if "q \<in> set A \<union> set B" for q
    using assms that by (fastforce simp: cookies_def image_iff)
  then have "filter (\<lambda>q. \<not> (fst q = v \<and> fst (snd q) = c)) (A @ (v, c, h) # B) = A @ B" by (auto simp: filter_id_conv)
  then show ?thesis using assms(1) by (simp add: free_irq_def)
qed

lemma free_irq_bad: "c \<notin> set (cookies os) \<Longrightarrow> free_irq v c os = os\<lparr>os_bad_free := os_bad_free os + 1\<rparr>"
  by (auto simp: free_irq_def cookies_def)

lemma upt_drop_first: "i < n \<Longrightarrow> [i..<n] = i # [Suc i..<n]" by (simp add: upt_conv_Cons)

lemma user_handler_16: "i < 16 \<Longrightarrow> \<exists>h. user_irq_handler i = Some h"
  by (auto simp: user_irq_handler_def)

lemma h2c_request_ok:
  "\<lbrakk>\<And>j. j < i + n \<Longrightarrow> request_irq_rv P (pci_irq_vector P (int j)) = 0; i + n \<le> 2; length (h2c_irq_line x) = 2; os_irqs os = A @ h2c_irqs P i\<rbrakk> \<Longrightarrow>
   h2c_request P n i x os = Some (0, x\<lparr>h2c_irq_line := map (\<lambda>k. if i \<le> k \<and> k < i + n then pci_irq_vector P (int k) else h2c_irq_line x ! k) [0..<2]\<rparr>,
     os\<lparr>os_irqs := A @ h2c_irqs P (i + n)\<rparr>)"
proof (induction n arbitrary: i x os)
  case 0
  have m: "map (\<lambda>k. if i \<le> k \<and> k < i then pci_irq_vector P (int k) else h2c_irq_line x ! k) [0..<2] = h2c_irq_line x"
    using 0(3) by (intro nth_equalityI) auto
  have "os\<lparr>os_irqs := A @ h2c_irqs P i\<rparr> = os" using 0(4) by (cases os) simp
  then show ?case by (simp only: h2c_request.simps add_0_right m) (cases x; simp)
next
  case (Suc n)
  let ?v = "pci_irq_vector P (int i)"
  let ?x = "x\<lparr>h2c_irq_line := (h2c_irq_line x)[i := ?v]\<rparr>" and ?os = "os\<lparr>os_irqs := A @ h2c_irqs P (Suc i)\<rparr>"
  have rv: "request_irq_rv P ?v = 0" using Suc.prems(1) [of i] by simp
  have i: "i = 0 \<or> i = 1" using Suc.prems(2) by auto
  have "h2c_request P (Suc n) i x os = h2c_request P n (Suc i) ?x ?os"
    using i rv Suc.prems(2-4) by (auto simp: request_irq_def arr_set_def h2c_irqs_def Let_def)
  also have "\<dots> = Some (0, ?x\<lparr>h2c_irq_line := map (\<lambda>k. if Suc i \<le> k \<and> k < Suc i + n then pci_irq_vector P (int k) else h2c_irq_line ?x ! k) [0..<2]\<rparr>,
     ?os\<lparr>os_irqs := A @ h2c_irqs P (Suc i + n)\<rparr>)"
    by (rule Suc.IH) (use Suc.prems in auto)
  also have "map (\<lambda>k. if Suc i \<le> k \<and> k < Suc i + n then pci_irq_vector P (int k) else h2c_irq_line ?x ! k) [0..<2] =
      map (\<lambda>k. if i \<le> k \<and> k < i + Suc n then pci_irq_vector P (int k) else h2c_irq_line x ! k) [0..<2]"
    using Suc.prems(3) by (intro map_cong) (auto simp: nth_list_update not_less_eq_eq dest: le_antisym)
  finally show ?case by simp
qed

lemma c2h_request_ok:
  "\<lbrakk>\<And>j. j < i + n \<Longrightarrow> request_irq_rv P (pci_irq_vector P (int (b + j))) = 0; i + n \<le> 2; length (c2h_irq_line x) = 2; os_irqs os = A @ c2h_irqs P b i\<rbrakk> \<Longrightarrow>
   c2h_request P n i (int (b + i)) x os =
     Some (0, x\<lparr>c2h_irq_line := map (\<lambda>k. if i \<le> k \<and> k < i + n then pci_irq_vector P (int (b + k)) else c2h_irq_line x ! k) [0..<2]\<rparr>,
     os\<lparr>os_irqs := A @ c2h_irqs P b (i + n)\<rparr>)"
proof (induction n arbitrary: i x os)
  case 0
  have m: "map (\<lambda>k. if i \<le> k \<and> k < i then pci_irq_vector P (int (b + k)) else c2h_irq_line x ! k) [0..<2] = c2h_irq_line x"
    using 0(3) by (intro nth_equalityI) auto
  have "os\<lparr>os_irqs := A @ c2h_irqs P b i\<rparr> = os" using 0(4) by (cases os) simp
  then show ?case by (simp only: c2h_request.simps add_0_right m) (cases x; simp)
next
  case (Suc n)
  let ?v = "pci_irq_vector P (int (b + i))"
  let ?x = "x\<lparr>c2h_irq_line := (c2h_irq_line x)[i := ?v]\<rparr>" and ?os = "os\<lparr>os_irqs := A @ c2h_irqs P b (Suc i)\<rparr>"
  have rv: "request_irq_rv P ?v = 0" using Suc.prems(1) [of i] by simp
  have j: "int (b + i) + 1 = int (b + Suc i)" by simp
  have "c2h_request P (Suc n) i (int (b + i)) x os = c2h_request P n (Suc i) (int (b + Suc i)) ?x ?os"
    using rv Suc.prems(2-4) by (simp only: c2h_request.simps j) (simp add: request_irq_def arr_set_def c2h_irqs_def Let_def)
  also have "\<dots> = Some (0, ?x\<lparr>c2h_irq_line := map (\<lambda>k. if Suc i \<le> k \<and> k < Suc i + n then pci_irq_vector P (int (b + k)) else c2h_irq_line ?x ! k) [0..<2]\<rparr>,
     ?os\<lparr>os_irqs := A @ c2h_irqs P b (Suc i + n)\<rparr>)"
    by (rule Suc.IH) (use Suc.prems in auto)
  also have "map (\<lambda>k. if Suc i \<le> k \<and> k < Suc i + n then pci_irq_vector P (int (b + k)) else c2h_irq_line ?x ! k) [0..<2] =
      map (\<lambda>k. if i \<le> k \<and> k < i + Suc n then pci_irq_vector P (int (b + k)) else c2h_irq_line x ! k) [0..<2]"
    using Suc.prems(3) by (intro map_cong) (auto simp: nth_list_update not_less_eq_eq dest: le_antisym)
  finally show ?case by simp
qed

text \<open>User interrupts are requested up to the first that fails (\<open>m\<close>), or all of them.\<close>

lemma user_request_ok:
  "\<lbrakk>\<And>j. j < m \<Longrightarrow> request_irq_rv P (pci_irq_vector P (int (b + j))) = 0; i \<le> m; m \<le> i + n; i + n \<le> 16;
    m < i + n \<Longrightarrow> request_irq_rv P (pci_irq_vector P (int (b + m))) \<noteq> 0; os_irqs os = A @ user_irqs P b i\<rbrakk> \<Longrightarrow>
   user_request P n i (int (b + i)) os =
     (if m < i + n then request_irq_rv P (pci_irq_vector P (int (b + m))) else 0, m, os\<lparr>os_irqs := A @ user_irqs P b m\<rparr>)"
proof (induction n arbitrary: i os)
  case 0
  then show ?case by simp
next
  case (Suc n)
  obtain h where h: "user_irq_handler i = Some h" using user_handler_16 [of i] Suc.prems(4) by auto
  have j: "int (b + i) + 1 = int (b + Suc i)" by simp
  show ?case
  proof (cases "i = m")
    case True
    then show ?thesis using Suc.prems h by (simp add: request_irq_def)
  next
    case False
    then have im: "i < m" using Suc.prems(2) by simp
    let ?os = "os\<lparr>os_irqs := A @ user_irqs P b (Suc i)\<rparr>"
    have "user_request P (Suc n) i (int (b + i)) os = user_request P n (Suc i) (int (b + Suc i)) ?os"
      using im h Suc.prems(1) [of i] Suc.prems(6) by (simp only: user_request.simps j) (simp add: request_irq_def user_irqs_def)
    also have "\<dots> = (if m < Suc i + n then request_irq_rv P (pci_irq_vector P (int (b + m))) else 0, m, ?os\<lparr>os_irqs := A @ user_irqs P b m\<rparr>)"
      by (rule Suc.IH) (use Suc.prems im in auto)
    finally show ?thesis by simp
  qed
qed

lemma user_irqs_Suc: "user_irqs P b (Suc i) = user_irqs P b i @ [(pci_irq_vector P (int (b + i)), Ck_user i, the (user_irq_handler i))]"
  by (simp add: user_irqs_def)

lemma user_unwind_ok:
  "\<lbrakk>os_irqs os = A @ user_irqs P b i; distinct (cookies os)\<rbrakk> \<Longrightarrow> user_unwind P (int b) i os = os\<lparr>os_irqs := A\<rparr>"
proof (induction i arbitrary: os)
  case 0
  then show ?case by (cases os) (simp add: user_irqs_def)
next
  case (Suc i)
  let ?os = "os\<lparr>os_irqs := A @ user_irqs P b i\<rparr>"
  have "free_irq (pci_irq_vector P (int b + int i)) (Ck_user i) os = ?os"
    using free_irq_mid [of os "A @ user_irqs P b i" _ "Ck_user i" _ "[]"] Suc.prems by (simp add: user_irqs_Suc)
  moreover have "distinct (cookies ?os)" using Suc.prems by (simp add: cookies_def user_irqs_Suc)
  ultimately show ?case using Suc.IH [of ?os] by simp
qed

text \<open>Freeing in the order of the requests empties the front of the table.\<close>

lemma line_free_ok:
  "\<lbrakk>i + n \<le> length ls; \<And>k. i \<le> k \<Longrightarrow> k < i + n \<Longrightarrow> ls ! k \<noteq> 0;
    os_irqs os = map (\<lambda>k. (ls ! k, ck k, hnd k)) [i..<i + n] @ B; distinct (cookies os)\<rbrakk> \<Longrightarrow>
   line_free ck ls n i os = Some (os\<lparr>os_irqs := B\<rparr>)"
proof (induction n arbitrary: i os)
  case 0
  then show ?case by (cases os) simp
next
  case (Suc n)
  let ?os = "os\<lparr>os_irqs := map (\<lambda>k. (ls ! k, ck k, hnd k)) [Suc i..<Suc i + n] @ B\<rparr>"
  have front: "os_irqs os = [] @ (ls ! i, ck i, hnd i) # (map (\<lambda>k. (ls ! k, ck k, hnd k)) [Suc i..<Suc i + n] @ B)"
    using Suc.prems(3) by (simp add: upt_conv_Cons del: upt_Suc)
  have "free_irq (ls ! i) (ck i) os = ?os" using free_irq_mid [OF front Suc.prems(4)] by simp
  moreover have "arr_get ls (int i) = Some (ls ! i)" "ls ! i \<noteq> 0" using Suc.prems(1,2) by (simp_all add: arr_get_def)
  moreover have "distinct (cookies ?os)" using Suc.prems(4) front by (simp add: cookies_def)
  ultimately show ?case using Suc.IH [of "Suc i" ?os] Suc.prems(1,2) by simp
qed

lemma user_free_ok:
  "\<lbrakk>os_irqs os = map (\<lambda>k. (pci_irq_vector P (int (b + k)), Ck_user k, hnd k)) [i..<i + n]; distinct (cookies os)\<rbrakk> \<Longrightarrow>
   user_free P n i (int (b + i)) os = os\<lparr>os_irqs := []\<rparr>"
proof (induction n arbitrary: i os)
  case 0
  then show ?case by (cases os) simp
next
  case (Suc n)
  let ?os = "os\<lparr>os_irqs := map (\<lambda>k. (pci_irq_vector P (int (b + k)), Ck_user k, hnd k)) [Suc i..<Suc i + n]\<rparr>"
  have front: "os_irqs os = [] @ (pci_irq_vector P (int (b + i)), Ck_user i, hnd i) #
      map (\<lambda>k. (pci_irq_vector P (int (b + k)), Ck_user k, hnd k)) [Suc i..<Suc i + n]"
    using Suc.prems(1) by (simp add: upt_conv_Cons del: upt_Suc)
  have "free_irq (pci_irq_vector P (int (b + i))) (Ck_user i) os = ?os" using free_irq_mid [OF front Suc.prems(2)] by simp
  moreover have "distinct (cookies ?os)" using Suc.prems(2) front by (simp add: cookies_def)
  moreover have "int (b + i) + 1 = int (b + Suc i)" by simp
  ultimately show ?case using Suc.IH [of ?os "Suc i"] by (simp only: user_free.simps) simp
qed

lemma user_free_bad:
  "cookies os = [] \<Longrightarrow> user_free P n i j os = os\<lparr>os_bad_free := os_bad_free os + n\<rparr>"
proof (induction n arbitrary: i j os)
  case 0
  then show ?case by (cases os) simp
next
  case (Suc n)
  then have "free_irq (pci_irq_vector P j) (Ck_user i) os = os\<lparr>os_bad_free := os_bad_free os + 1\<rparr>" by (intro free_irq_bad) simp
  then show ?case using Suc.IH [of "os\<lparr>os_bad_free := os_bad_free os + 1\<rparr>"] Suc.prems by (simp add: cookies_def)
qed

text \<open>A device with \<open>h\<close>, \<open>c\<close> and \<open>u\<close> channels and user interrupts, in MSI-X mode.\<close>

definition msix_dev :: "nat \<Rightarrow> nat \<Rightarrow> nat \<Rightarrow> xdma_dev \<Rightarrow> bool" where
  "msix_dev h c u x \<longleftrightarrow> msix_enabled x \<and> h2c_channel_max x = int h \<and> c2h_channel_max x = int c \<and> user_max x = int u \<and>
     h \<le> 2 \<and> c \<le> 2 \<and> u \<le> 16 \<and> length (h2c_irq_line x) = 2 \<and> length (c2h_irq_line x) = 2"

definition lines_set :: "pci_env \<Rightarrow> nat \<Rightarrow> nat \<Rightarrow> xdma_dev \<Rightarrow> bool" where
  "lines_set P h c x \<longleftrightarrow> (\<forall>k<h. h2c_irq_line x ! k = pci_irq_vector P (int k)) \<and> (\<forall>k<c. c2h_irq_line x ! k = pci_irq_vector P (int (h + k)))"

abbreviation channel_irqs :: "pci_env \<Rightarrow> nat \<Rightarrow> nat \<Rightarrow> (int \<times> irq_cookie \<times> irq_handler) list" where
  "channel_irqs P h c \<equiv> h2c_irqs P h @ c2h_irqs P h c"

lemma channel_setup_ok:
  assumes d: "msix_dev h c u x" and os: "os_irqs os = []" and mem: "tasklet_mem P"
    and req: "\<And>j. j < h + c \<Longrightarrow> request_irq_rv P (pci_irq_vector P (int j)) = 0"
  shows "\<exists>hl cl. let x' = x\<lparr>h2c_irq_line := hl, c2h_irq_line := cl\<rparr> in
     irq_msix_channel_setup P x os = Some (0, x', os\<lparr>os_irqs := channel_irqs P h c, os_tasklet := True\<rparr>) \<and>
     msix_dev h c u x' \<and> lines_set P h c x'"
proof -
  define x1 where "x1 = x\<lparr>h2c_irq_line := map (\<lambda>k. if 0 \<le> k \<and> k < 0 + h then pci_irq_vector P (int k) else h2c_irq_line x ! k) [0..<2]\<rparr>"
  define os1 where "os1 = os\<lparr>os_irqs := [] @ h2c_irqs P (0 + h)\<rparr>"
  define x2 where "x2 = x1\<lparr>c2h_irq_line := map (\<lambda>k. if 0 \<le> k \<and> k < 0 + c then pci_irq_vector P (int (h + k)) else c2h_irq_line x1 ! k) [0..<2]\<rparr>"
  have h: "h2c_request P h 0 x os = Some (0, x1, os1)" unfolding x1_def os1_def
    by (rule h2c_request_ok) (use d os req in \<open>auto simp: msix_dev_def h2c_irqs_def\<close>)
  have req_c: "request_irq_rv P (pci_irq_vector P (int h + int j)) = 0" if "j < c" for j using req [of "h + j"] that by simp
  have c: "c2h_request P c 0 (int (h + 0)) x1 os1 = Some (0, x2, os1\<lparr>os_irqs := h2c_irqs P h @ c2h_irqs P h (0 + c)\<rparr>)" unfolding x2_def
    by (rule c2h_request_ok) (use d req_c in \<open>auto simp: msix_dev_def c2h_irqs_def x1_def os1_def\<close>)
  have "irq_msix_channel_setup P x os = Some (0, x2, os\<lparr>os_irqs := channel_irqs P h c, os_tasklet := True\<rparr>)"
    using d mem h c by (simp add: irq_msix_channel_setup_def msix_dev_def x1_def os1_def)
  moreover have "msix_dev h c u x2" "lines_set P h c x2" "\<exists>hl cl. x2 = x\<lparr>h2c_irq_line := hl, c2h_irq_line := cl\<rparr>"
    using d by (auto simp: msix_dev_def lines_set_def x2_def x1_def)
  ultimately show ?thesis unfolding Let_def by blast
qed

lemma channel_cookies: "distinct (map (fst \<circ> snd) (channel_irqs P h c))"
  by (auto simp: h2c_irqs_def c2h_irqs_def distinct_map inj_on_def)

lemma all_cookies: "distinct (map (fst \<circ> snd) (channel_irqs P h c @ user_irqs P b u))"
  by (auto simp: h2c_irqs_def c2h_irqs_def user_irqs_def distinct_map inj_on_def)

lemma prog_clear_ok: "\<lbrakk>0 \<le> j; mx - i \<le> 4 * (8 - j)\<rbrakk> \<Longrightarrow> \<exists>l'. prog_vectors True cfg reg mx j i l = Some l'"
proof (induction "nat (mx - i)" arbitrary: i j l rule: less_induct)
  case less
  show ?case
  proof (cases "i < mx")
    case False
    then show ?thesis by (simp add: prog_vectors.simps)
  next
    case True
    have "\<exists>l'. prog_vectors True cfg reg mx (j + 1) (i + 4) (iowrite32 0 (cfg, reg + 4 * j) l) = Some l'"
      by (rule less.hyps) (use True less.prems in auto)
    then show ?thesis using True less.prems by (subst prog_vectors.simps) auto
  qed
qed

lemma channel_teardown_ok:
  assumes d: "msix_dev h c u x" "lines_set P h c x" and v: "\<And>j. pci_irq_vector P (int j) \<noteq> 0"
    and os: "os_irqs os = channel_irqs P h c @ B" "distinct (cookies os)" "os_tasklet os"
  shows "\<exists>l'. irq_msix_channel_teardown x os l = Some (os\<lparr>os_irqs := B\<rparr>, l')"
proof -
  note D = d [unfolded msix_dev_def lines_set_def]
  obtain l' where l': "prog_irq_msix_channel x True l = Some l'"
    using prog_clear_ok [of 0 "int c + int h" 0 "config_bar_idx x" "0x20A0" l] D by (auto simp: prog_irq_msix_channel_def)
  let ?os = "os\<lparr>os_irqs := c2h_irqs P h c @ B\<rparr>"
  have "line_free Ck_h2c (h2c_irq_line x) h 0 os = Some ?os"
    by (rule line_free_ok [where hnd = "\<lambda>i. if i = 0 then Irq_H2C else Irq_H2C_PTP"])
      (use D v os(1,2) in \<open>auto simp: h2c_irqs_def\<close>)
  moreover have "line_free Ck_c2h (c2h_irq_line x) c 0 ?os = Some (?os\<lparr>os_irqs := B\<rparr>)"
    by (rule line_free_ok [where hnd = "\<lambda>i. Irq_C2H"])
      (use D v [of "h + _"] os(1,2) in \<open>auto simp: c2h_irqs_def cookies_def\<close>)
  ultimately show ?thesis using l' D os(3) by (simp add: irq_msix_channel_teardown_def)
qed

lemma user_teardown_ok:
  assumes d: "msix_dev h c u x"
  shows "\<exists>l'. irq_msix_user_teardown P x os l = Some (user_free P u 0 (int (h + c)) os, l')"
proof -
  obtain l' where "prog_irq_msix_user x True l = Some l'"
    using prog_clear_ok [of 0 "int c + int h + int u" "int c + int h" "config_bar_idx x" "0x2080" l] d
    by (auto simp: prog_irq_msix_user_def msix_dev_def Let_def)
  then show ?thesis using d by (simp add: irq_msix_user_teardown_def msix_dev_def)
qed

lemma prog_irqs_ok:
  assumes "msix_dev h c u x"
  shows "\<exists>l1 l2. prog_irq_msix_channel x False l = Some l1 \<and> prog_irq_msix_user x False l1 = Some l2 \<and>
     (\<forall>t. 4 * t < h + c \<longrightarrow> last_write (config_bar_idx x, 0x20A0 + 4 * int t) l2 = Some (vec (int (h + c)) (4 * int t))) \<and>
     (\<forall>t. 4 * t < u \<longrightarrow> last_write (config_bar_idx x, 0x2080 + 4 * int t) l2 = Some (vec (int (h + c + u)) (int (h + c) + 4 * int t)))"
proof -
  note D = assms [unfolded msix_dev_def]
  let ?cfg = "config_bar_idx x"
  have mx: "int c + int h = int (h + c)" "int (h + c) + int u = int (h + c + u)" by simp_all
  obtain l1 where l1: "prog_vectors False ?cfg 0x20A0 (int (h + c)) 0 0 l = Some l1"
      "\<And>t. 4 * int t < int (h + c) \<Longrightarrow> last_write (?cfg, 0x20A0 + 4 * int t) l1 = Some (vec (int (h + c)) (4 * int t))"
    using prog_vectors_last [of 0 "int (h + c)" 0 ?cfg "0x20A0" l] D by auto
  obtain l2 where l2: "prog_vectors False ?cfg 0x2080 (int (h + c + u)) 0 (int (h + c)) l1 = Some l2"
      "\<And>t. int (h + c) + 4 * int t < int (h + c + u) \<Longrightarrow>
         last_write (?cfg, 0x2080 + 4 * (0 + int t)) l2 = Some (vec (int (h + c + u)) (int (h + c) + 4 * int t))"
      "\<And>a. (\<forall>t. int (h + c) + 4 * int t < int (h + c + u) \<longrightarrow> a \<noteq> (?cfg, 0x2080 + 4 * (0 + int t))) \<Longrightarrow> last_write a l2 = last_write a l1"
    using prog_vectors_last [of "int (h + c)" "int (h + c + u)" 0 ?cfg "0x2080" l1] D by (auto simp del: of_nat_add)
  have "last_write (?cfg, 0x20A0 + 4 * int t) l2 = Some (vec (int (h + c)) (4 * int t))" if "4 * t < h + c" for t
  proof -
    have "(?cfg, 0x20A0 + 4 * int t) \<noteq> (?cfg, 0x2080 + 4 * (0 + int k))" if "int (h + c) + 4 * int k < int (h + c + u)" for k
      using that D by auto
    then have "last_write (?cfg, 0x20A0 + 4 * int t) l2 = last_write (?cfg, 0x20A0 + 4 * int t) l1" using l2(3) by blast
    also have "\<dots> = Some (vec (int (h + c)) (4 * int t))" by (rule l1(2)) (use that in linarith)
    finally show ?thesis .
  qed
  moreover have "last_write (?cfg, 0x2080 + 4 * int t) l2 = Some (vec (int (h + c + u)) (int (h + c) + 4 * int t))" if "4 * t < u" for t
    using l2(2) [of t] that by simp
  moreover have "prog_irq_msix_channel x False l = Some l1" using l1(1) D by (simp add: prog_irq_msix_channel_def add.commute)
  moreover have "prog_irq_msix_user x False l1 = Some l2" using l2(1) D by (simp add: prog_irq_msix_user_def Let_def add.commute)
  ultimately show ?thesis by blast
qed

subsection \<open>What the interrupt set-up leaves alone\<close>

text \<open>The fields the error labels of \<open>xdma_device_open\<close> decide on, and what they undo outside the interrupts.\<close>

definition xdev_claim :: "xdma_dev \<Rightarrow> int \<times> bool \<times> bool" where
  "xdev_claim x = (handle x, got_regions x, regions_in_use x)"

definition os_claim :: "os_state \<Rightarrow> bool \<times> bool" where
  "os_claim os = (os_enabled os, os_regions os)"

lemma request_irq_claim: "request_irq P v hn ck os = (rv, os') \<Longrightarrow> os_claim os' = os_claim os"
  by (auto simp: request_irq_def os_claim_def split: if_splits)

lemma line_claim [simp]:
  "xdev_claim (x\<lparr>h2c_irq_line := ls\<rparr>) = xdev_claim x" "xdev_claim (x\<lparr>c2h_irq_line := ls\<rparr>) = xdev_claim x"
  by (simp_all add: xdev_claim_def)

lemma h2c_request_claim:
  "h2c_request P n i x os = Some (rv, x', os') \<Longrightarrow> xdev_claim x' = xdev_claim x \<and> os_claim os' = os_claim os"
proof (induction n arbitrary: i x os)
  case (Suc n)
  then show ?case
    by (auto simp: Let_def split: option.splits if_splits prod.splits dest!: request_irq_claim Suc.IH)
qed simp

lemma c2h_request_claim:
  "c2h_request P n i j x os = Some (rv, x', os') \<Longrightarrow> xdev_claim x' = xdev_claim x \<and> os_claim os' = os_claim os"
proof (induction n arbitrary: i j x os)
  case (Suc n)
  then show ?case
    by (auto simp: Let_def split: option.splits if_splits prod.splits dest!: request_irq_claim Suc.IH)
qed simp

lemma channel_setup_claim:
  "irq_msix_channel_setup P x os = Some (rv, x', os') \<Longrightarrow> xdev_claim x' = xdev_claim x \<and> os_claim os' = os_claim os"
proof (cases "msix_enabled x")
  case True
  assume s: "irq_msix_channel_setup P x os = Some (rv, x', os')"
  have t: "os_claim (os\<lparr>os_tasklet := True\<rparr>) = os_claim os" for os :: os_state by (simp add: os_claim_def)
  obtain rv1 x1 os1 where h: "h2c_request P (nat (h2c_channel_max x)) 0 x os = Some (rv1, x1, os1)"
    using s True by (auto simp: irq_msix_channel_setup_def bind_eq_Some_conv)
  show ?thesis
  proof (cases "rv1 = 0")
    case rv1: True
    then obtain rv2 x2 os2 where c: "c2h_request P (nat (c2h_channel_max x1)) 0 (h2c_channel_max x1) x1 os1 = Some (rv2, x2, os2)"
      using s True h by (auto simp: irq_msix_channel_setup_def bind_eq_Some_conv)
    then have "x' = x2 \<and> os_claim os' = os_claim os2" using s True h rv1 t by (auto simp: irq_msix_channel_setup_def split: if_splits)
    then show ?thesis using h2c_request_claim [OF h] c2h_request_claim [OF c] by simp
  next
    case False
    then show ?thesis using s True h h2c_request_claim [OF h] by (simp add: irq_msix_channel_setup_def)
  qed
qed (simp add: irq_msix_channel_setup_def)

lemma free_irq_claim [simp]: "os_claim (free_irq v ck os) = os_claim os"
  by (simp add: free_irq_def os_claim_def)

lemma user_request_claim: "user_request P n i j os = (rv, k, os') \<Longrightarrow> os_claim os' = os_claim os"
proof (induction n arbitrary: i j os)
  case (Suc n)
  then show ?case
    by (auto simp: Let_def split: option.splits if_splits prod.splits dest!: request_irq_claim Suc.IH)
qed simp

lemma user_unwind_claim [simp]: "os_claim (user_unwind P b i os) = os_claim os"
  by (induction P b i os rule: user_unwind.induct) simp_all

lemma user_free_claim [simp]: "os_claim (user_free P n i j os) = os_claim os"
  by (induction P n i j os rule: user_free.induct) simp_all

lemma line_free_claim: "line_free ck ls n i os = Some os' \<Longrightarrow> os_claim os' = os_claim os"
  by (induction ck ls n i os rule: line_free.induct) (auto split: option.splits if_splits)

lemma user_setup_claim: "irq_msix_user_setup P x os = (rv, os') \<Longrightarrow> os_claim os' = os_claim os"
  by (auto simp: irq_msix_user_setup_def Let_def split: prod.splits if_splits dest!: user_request_claim)

lemma irq_setup_claim:
  assumes "irq_setup P x os l = Some (rv, x', os', l')"
  shows "xdev_claim x' = xdev_claim x \<and> os_claim os' = os_claim os"
proof -
  have k: "os_claim (pci_keep_intx_enabled os) = os_claim os" by (simp add: pci_keep_intx_enabled_def os_claim_def Let_def)
  consider (msix) "msix_enabled x" | (msi) "\<not> msix_enabled x" "msi_enabled x" | (intx) "\<not> msix_enabled x" "\<not> msi_enabled x" by blast
  then show ?thesis
  proof cases
    case msix
    then show ?thesis using assms k
      by (auto simp: irq_setup_def Let_def bind_eq_Some_conv split: prod.splits if_splits dest!: channel_setup_claim user_setup_claim)
  next
    case msi
    then show ?thesis using assms k
      by (auto simp: irq_setup_def irq_msi_setup_def request_irq_def xdev_claim_def os_claim_def Let_def split: if_splits)
  next
    case intx
    then show ?thesis using assms k
      by (auto simp: irq_setup_def irq_legacy_setup_def request_irq_def xdev_claim_def os_claim_def Let_def split: if_splits)
  qed
qed

lemma irq_teardown_claim: "irq_teardown P x os l = Some (os', l') \<Longrightarrow> os_claim os' = os_claim os"
  by (auto simp: irq_teardown_def irq_msix_channel_teardown_def irq_msix_user_teardown_def bind_eq_Some_conv
        split: if_splits dest!: line_free_claim)

lemma msi_msix_claim:
  "enable_msi_msix P x os = (rv, x', os') \<Longrightarrow> xdev_claim x' = xdev_claim x \<and> os_claim os' = os_claim os"
  "disable_msi_msix x os = (x', os') \<Longrightarrow> xdev_claim x' = xdev_claim x \<and> os_claim os' = os_claim os"
  by (auto simp: enable_msi_msix_def disable_msi_msix_def xdev_claim_def os_claim_def Let_def split: if_splits)

lemma set_engine_claim [simp]: "xdev_claim (set_engine d i e x) = xdev_claim x"
  by (simp add: set_engine_def xdev_claim_def)

lemma probe_for_engine_claim: "probe_for_engine P hw d i x l = Some (rv, x', l') \<Longrightarrow> xdev_claim x' = xdev_claim x"
  by (auto simp: probe_for_engine_def engine_init_def Let_def xdev_claim_def set_engine_def
        split: option.splits prod.splits if_splits)

lemma probe_loop_claim: "probe_loop P hw d n i x l = Some (k, x', l') \<Longrightarrow> xdev_claim x' = xdev_claim x"
  by (induction P hw d n i x l rule: probe_loop.induct)
    (fastforce simp: bind_eq_Some_conv split: if_splits dest: probe_for_engine_claim)+

lemma probe_engines_claim: "probe_engines P hw x l = Some (rv, x', l') \<Longrightarrow> xdev_claim x' = xdev_claim x \<and> rv = 0"
  by (auto simp: probe_engines_def bind_eq_Some_conv Let_def xdev_claim_def dest!: probe_loop_claim)

lemma remove_loop_claim: "remove_loop d n i x l = Some (x', l') \<Longrightarrow> xdev_claim x' = xdev_claim x"
  by (induction d n i x l rule: remove_loop.induct)
    (auto simp: engine_destroy_def xdev_claim_def set_engine_def Let_def split: option.splits if_splits)

lemma remove_engines_claim: "remove_engines x l = Some (x', l') \<Longrightarrow> xdev_claim x' = xdev_claim x"
  by (auto simp: remove_engines_def bind_eq_Some_conv dest!: remove_loop_claim)

lemma identify_bars_claim: "identify_bars ids pos x = Some x' \<Longrightarrow> xdev_claim x' = xdev_claim x"
  by (auto simp: identify_bars_def xdev_claim_def bind_eq_Some_conv Let_def split: if_splits)

lemma map_bars_loop_claim: "map_bars_loop P hw n i ids pos x l = (f, ids', pos', x', l') \<Longrightarrow> xdev_claim x' = xdev_claim x"
  by (induction P hw n i ids pos x l rule: map_bars_loop.induct)
    (auto simp: map_single_bar_def xdev_claim_def Let_def split: if_splits prod.splits)

lemma unmap_bars_claim [simp]: "xdev_claim (unmap_bars x) = xdev_claim x"
  by (simp add: unmap_bars_def xdev_claim_def)

lemma map_bars_claim: "map_bars P hw x l = Some (rv, x', l') \<Longrightarrow> xdev_claim x' = xdev_claim x"
  by (auto simp: map_bars_def Let_def split: prod.splits if_splits dest!: map_bars_loop_claim identify_bars_claim)

text \<open>From the label \<open>err_map\<close> on, everything the device claimed is given back.\<close>

definition claimed :: "int \<Rightarrow> xdma_dev list \<Rightarrow> xdma_dev list \<Rightarrow> bool" where
  "claimed a xs ys \<longleftrightarrow> (\<forall>y\<in>set xs. handle y \<noteq> a) \<and> (\<exists>y. handle y = a \<and> ys = xs @ [y])"

lemma err_map_undone:
  "\<lbrakk>err_map x os ys l = Some (r, os', xs', l'); xdev_claim x = (a, True, False); claimed a xs ys\<rbrakk> \<Longrightarrow>
   xs' = xs \<and> \<not> os_regions os' \<and> \<not> os_enabled os'"
  by (auto simp: err_map_def err_regions_def err_enable_def xdev_claim_def xdev_list_remove_def claimed_def filter_id_conv)

lemma err_engines_undone:
  "\<lbrakk>err_engines x os ys l = Some (r, os', xs', l'); xdev_claim x = (a, True, False); claimed a xs ys\<rbrakk> \<Longrightarrow>
   xs' = xs \<and> \<not> os_regions os' \<and> \<not> os_enabled os'"
  unfolding err_engines_def err_mask_def bind_eq_Some_conv
  by (auto dest!: remove_engines_claim err_map_undone)

lemma err_enable_msix_undone:
  "\<lbrakk>err_enable_msix x os ys l = Some (r, os', xs', l'); xdev_claim x = (a, True, False); claimed a xs ys\<rbrakk> \<Longrightarrow>
   xs' = xs \<and> \<not> os_regions os' \<and> \<not> os_enabled os'"
  unfolding err_enable_msix_def Let_def
  by (auto split: prod.splits dest!: msi_msix_claim(2) err_engines_undone)

lemma open_irqs_undone:
  assumes o: "open_irqs P hw x os ys l = Some (None, os', xs', l')" and x: "xdev_claim x = (a, True, False)" and ys: "claimed a xs ys"
  shows "xs' = xs \<and> \<not> os_regions os' \<and> \<not> os_enabled os'"
proof -
  obtain rv x2 os2 where e: "enable_msi_msix P x os = (rv, x2, os2)" by (cases "enable_msi_msix P x os")
  have x2: "xdev_claim x2 = (a, True, False)" using msi_msix_claim(1) [OF e] x by simp
  show ?thesis
  proof (cases "rv < 0")
    case True
    then show ?thesis using o e x2 ys by (auto simp: open_irqs_def dest: err_enable_msix_undone)
  next
    case False
    obtain rv3 x3 os3 l3 where i: "irq_setup P x2 os2 l = Some (rv3, x3, os3, l3)"
      using o e False by (auto simp: open_irqs_def bind_eq_Some_conv)
    have x3: "xdev_claim x3 = (a, True, False)" using irq_setup_claim [OF i] x2 by simp
    have "err_interrupts P x3 os3 ys l3 = Some (None, os', xs', l')"
      using o e False i by (auto simp: open_irqs_def Let_def split: if_splits prod.splits)
    then show ?thesis using x3 ys unfolding err_interrupts_def bind_eq_Some_conv by (auto dest!: err_enable_msix_undone)
  qed
qed

lemma open_engines_undone:
  "\<lbrakk>open_engines P hw x os ys l = Some (None, os', xs', l'); xdev_claim x = (a, True, False); claimed a xs ys\<rbrakk> \<Longrightarrow>
   xs' = xs \<and> \<not> os_regions os' \<and> \<not> os_enabled os'"
  unfolding open_engines_def Let_def bind_eq_Some_conv
  by (auto dest!: probe_engines_claim open_irqs_undone)

lemma intr_pend_regions [simp]: "os_regions (pci_check_intr_pend os) = os_regions os"
  by (simp add: pci_check_intr_pend_def)

lemma open_registers:
  "\<exists>x y. xdma_device_open P hw (Some a) pd um hm cm os xs l = open_pci P hw x os (xs @ [y]) l \<and> xdev_claim x = (a, False, False) \<and> handle y = a"
  by (cases "xs = []"; simp add: xdma_device_open_def xdma_device_flag_set_def spin_lock_def spin_unlock_def xdev_list_add_def
        alloc_dev_instance_def Let_def; intro exI conjI; (rule refl)?; simp add: xdev_claim_def)

lemma open_pci_undone:
  assumes o: "open_pci P hw x os ys l = Some (None, os', xs', l')" and x: "xdev_claim x = (a, False, False)" and ys: "claimed a xs ys"
    and os: "\<not> os_enabled os" "\<not> os_regions os"
  shows "xs' = xs \<and> \<not> os_regions os' \<and> (os_enabled os' \<longrightarrow> regions_rv P \<noteq> 0)"
proof -
  have rm: "xdev_list_remove z ys = xs" if "handle z = a" for z
    using ys that by (auto simp: claimed_def xdev_list_remove_def filter_id_conv)
  consider (en) "enable_rv P \<noteq> 0" | (busy) "enable_rv P = 0" "regions_rv P \<noteq> 0" | (ok) "enable_rv P = 0" "regions_rv P = 0" by blast
  then show ?thesis
  proof cases
    case en
    then show ?thesis using o x os rm by (auto simp: open_pci_def err_enable_def xdev_claim_def)
  next
    case busy
    then show ?thesis using o x os rm
      by (auto simp: open_pci_def request_regions_def err_regions_def err_enable_def xdev_claim_def Let_def)
  next
    case ok
    obtain rv x2 l1 l2 os2 where m: "map_bars P hw (x\<lparr>got_regions := True\<rparr>) l1 = Some (rv, x2, l2)" and
      o2: "(if rv \<noteq> 0 then err_map x2 os2 ys l2
            else if set_dma_mask P \<noteq> 0 then err_mask x2 os2 ys l2
            else open_engines P hw x2 os2 ys l2) = Some (None, os', xs', l')"
      using o ok by (auto simp: open_pci_def request_regions_def bind_eq_Some_conv Let_def)
    have "xdev_claim x2 = (a, True, False)" using map_bars_claim [OF m] x by (simp add: xdev_claim_def)
    then show ?thesis using o2 ys
      by (auto simp: err_mask_def split: if_splits dest: err_map_undone open_engines_undone)
  qed
qed

definition sample_os :: os_state where
  "sample_os = \<lparr>os_enabled = False, os_regions = False, os_master = False, os_msix = False, os_msi = False, os_irqs = [], os_bad_free = 0,
     os_tasklet = False, cfg_command = 0, cfg_status = 0, os_relaxed = False, os_readrq = 512\<rparr>"

definition sample_msix :: xdma_dev where
  "sample_msix = sample_xdev\<lparr>msix_enabled := True, c2h_channel_max := 1, user_max := 16\<rparr>"

lemma sample_msix: "msix_dev 2 1 16 sample_msix"
  by (simp add: msix_dev_def sample_msix_def sample_xdev_def alloc_dev_instance_def)

text \<open>Setting up the MSI-X interrupts when every request succeeds, and tearing them down.\<close>

lemma irq_setup_ok:
  assumes d: "msix_dev h c u x" and os: "os_irqs os = []" and mem: "tasklet_mem P"
    and req: "\<And>j. j < h + c + u \<Longrightarrow> request_irq_rv P (pci_irq_vector P (int j)) = 0"
  shows "\<exists>hl cl l'. irq_setup P x os l = Some (0, x\<lparr>h2c_irq_line := hl, c2h_irq_line := cl\<rparr>,
       (pci_keep_intx_enabled os)\<lparr>os_irqs := channel_irqs P h c @ user_irqs P (h + c) u, os_tasklet := True\<rparr>, l') \<and>
     msix_dev h c u (x\<lparr>h2c_irq_line := hl, c2h_irq_line := cl\<rparr>) \<and> lines_set P h c (x\<lparr>h2c_irq_line := hl, c2h_irq_line := cl\<rparr>)"
proof -
  let ?os = "pci_keep_intx_enabled os"
  have ki: "os_irqs ?os = []" using os by (simp add: pci_keep_intx_enabled_def Let_def)
  obtain hl cl where x': "irq_msix_channel_setup P x ?os =
        Some (0, x\<lparr>h2c_irq_line := hl, c2h_irq_line := cl\<rparr>, ?os\<lparr>os_irqs := channel_irqs P h c, os_tasklet := True\<rparr>)"
      "msix_dev h c u (x\<lparr>h2c_irq_line := hl, c2h_irq_line := cl\<rparr>)" "lines_set P h c (x\<lparr>h2c_irq_line := hl, c2h_irq_line := cl\<rparr>)"
    using channel_setup_ok [OF d ki mem] req by (auto simp: Let_def)
  let ?x = "x\<lparr>h2c_irq_line := hl, c2h_irq_line := cl\<rparr>"
  define os1 where "os1 = ?os\<lparr>os_irqs := channel_irqs P h c, os_tasklet := True\<rparr>"
  define os2 where "os2 = os1\<lparr>os_irqs := channel_irqs P h c @ user_irqs P (h + c) u\<rparr>"
  have req_u: "request_irq_rv P (pci_irq_vector P (int (h + c + j))) = 0" if "j < u" for j using req [of "h + c + j"] that by simp
  have "user_request P u 0 (int (h + c + 0)) os1 =
      (if u < 0 + u then request_irq_rv P (pci_irq_vector P (int (h + c + u))) else 0, u, os1\<lparr>os_irqs := channel_irqs P h c @ user_irqs P (h + c) u\<rparr>)"
    by (rule user_request_ok) (use req_u x'(2) in \<open>auto simp: os1_def user_irqs_def msix_dev_def\<close>)
  then have u: "irq_msix_user_setup P ?x os1 = (0, os2)"
    using x'(2) by (simp add: irq_msix_user_setup_def msix_dev_def os2_def Let_def)
  obtain l1 l2 where l: "prog_irq_msix_channel ?x False l = Some l1" "prog_irq_msix_user ?x False l1 = Some l2"
    using prog_irqs_ok [OF x'(2), of l] by blast
  have "irq_setup P x os l = Some (0, ?x, os2, l2)"
    using d x'(1) u l by (simp add: irq_setup_def msix_dev_def Let_def os1_def)
  moreover have "os2 = ?os\<lparr>os_irqs := channel_irqs P h c @ user_irqs P (h + c) u, os_tasklet := True\<rparr>" by (simp add: os2_def os1_def)
  ultimately show ?thesis using x'(2,3) by blast
qed

lemma irq_teardown_ok:
  assumes d: "msix_dev h c u x" "lines_set P h c x" and v: "\<And>j. pci_irq_vector P (int j) \<noteq> 0"
    and os: "os_irqs os = channel_irqs P h c @ user_irqs P (h + c) u" "os_tasklet os"
  shows "\<exists>l'. irq_teardown P x os l = Some (os\<lparr>os_irqs := []\<rparr>, l')"
proof -
  let ?os = "os\<lparr>os_irqs := user_irqs P (h + c) u\<rparr>"
  have ck: "distinct (cookies os)" using all_cookies [of P h c "h + c" u] os(1) by (simp add: cookies_def)
  obtain l1 where "irq_msix_channel_teardown x os l = Some (?os, l1)" using channel_teardown_ok [OF d v os(1) ck os(2)] by blast
  moreover obtain l2 where "irq_msix_user_teardown P x ?os l1 = Some (user_free P u 0 (int (h + c)) ?os, l2)"
    using user_teardown_ok [OF d(1)] by blast
  moreover have "user_free P u 0 (int (h + c + 0)) ?os = ?os\<lparr>os_irqs := []\<rparr>"
    by (rule user_free_ok [where hnd = "\<lambda>i. the (user_irq_handler i)"])
      (use all_cookies [of P h c "h + c" u] in \<open>simp_all add: user_irqs_def cookies_def\<close>)
  ultimately show ?thesis using d(1) by (simp add: irq_teardown_def msix_dev_def)
qed

subsection \<open>Properties\<close>



text \<open>
  Setting up and tearing down MSI-X interrupts is balanced: if every request succeeds,
  \<open>irq_setup\<close> leaves exactly one handler per source requested, in order (the PTP handler on the
  second H2C channel, the three TSN handlers on user interrupts 8, 9 and 10), and \<open>irq_teardown\<close> frees
  each of them once: nothing stays requested and nothing is freed that was not requested.
\<close>

theorem irq_setup_teardown_balanced:
  assumes d: "msix_dev h c u x" and os: "os_irqs os = []" and mem: "tasklet_mem P"
    and req: "\<And>j. j < h + c + u \<Longrightarrow> request_irq_rv P (pci_irq_vector P (int j)) = 0" and v: "\<And>j. pci_irq_vector P (int j) \<noteq> 0"
  shows "\<exists>x' os' l' l''. irq_setup P x os l = Some (0, x', os', l') \<and>
     os_irqs os' = h2c_irqs P h @ c2h_irqs P h c @ user_irqs P (h + c) u \<and>
     irq_teardown P x' os' l' = Some (os'\<lparr>os_irqs := []\<rparr>, l'') \<and> os_bad_free os' = os_bad_free os"
proof -
  let ?os = "(pci_keep_intx_enabled os)\<lparr>os_irqs := channel_irqs P h c @ user_irqs P (h + c) u, os_tasklet := True\<rparr>"
  obtain x' l' where s: "irq_setup P x os l = Some (0, x', ?os, l')" "msix_dev h c u x'" "lines_set P h c x'"
    using irq_setup_ok [OF d os mem req, of l] by blast
  obtain l'' where "irq_teardown P x' ?os l' = Some (?os\<lparr>os_irqs := []\<rparr>, l'')" using irq_teardown_ok [OF s(2,3) v, of ?os l'] by auto
  moreover have "os_bad_free ?os = os_bad_free os" by (simp add: pci_keep_intx_enabled_def Let_def)
  ultimately show ?thesis using s(1) by (intro exI [of _ x'] exI [of _ ?os] exI [of _ l'] exI [of _ l'']) simp
qed

theorem irq_setup_teardown_balanced_witness:
  "\<exists>x' os' l' l''. irq_setup sample_pci sample_msix sample_os [] = Some (0, x', os', l') \<and> length (os_irqs os') = 19 \<and>
     irq_teardown sample_pci x' os' l' = Some (os'\<lparr>os_irqs := []\<rparr>, l'') \<and> os_bad_free os' = 0"
proof -
  have "\<exists>x' os' l' l''. irq_setup sample_pci sample_msix sample_os [] = Some (0, x', os', l') \<and>
     os_irqs os' = h2c_irqs sample_pci 2 @ c2h_irqs sample_pci 2 1 @ user_irqs sample_pci (2 + 1) 16 \<and>
     irq_teardown sample_pci x' os' l' = Some (os'\<lparr>os_irqs := []\<rparr>, l'') \<and> os_bad_free os' = os_bad_free sample_os"
    by (rule irq_setup_teardown_balanced [OF sample_msix]) (simp_all add: sample_os_def sample_pci_def)
  then show ?thesis by (fastforce simp: h2c_irqs_def c2h_irqs_def user_irqs_def sample_os_def)
qed

text \<open>
  C20. A failing request for a user interrupt makes the error path free interrupts that are not
  requested: \<open>irq_msix_user_setup\<close> frees what it requested itself, and the label \<open>err_interrupts\<close> then
  calls \<open>irq_teardown\<close>, which frees all user interrupts once more; none of these is requested.
\<close>

theorem user_irq_failure_double_free:
  assumes d: "msix_dev h c u x" and os: "os_irqs os = []" and mem: "tasklet_mem P" and m: "m < u"
    and req: "\<And>j. j < h + c + m \<Longrightarrow> request_irq_rv P (pci_irq_vector P (int j)) = 0"
    and fail: "request_irq_rv P (pci_irq_vector P (int (h + c + m))) < 0" and v: "\<And>j. pci_irq_vector P (int j) \<noteq> 0"
  shows "\<exists>x' os' os'' l''. irq_setup P x os l = Some (request_irq_rv P (pci_irq_vector P (int (h + c + m))), x', os', l) \<and>
     irq_teardown P x' os' l = Some (os'', l'') \<and> os_irqs os'' = [] \<and> os_bad_free os'' = os_bad_free os + u"
proof -
  let ?os = "pci_keep_intx_enabled os" and ?rv = "request_irq_rv P (pci_irq_vector P (int (h + c + m)))"
  have ki: "os_irqs ?os = []" "os_bad_free ?os = os_bad_free os" using os by (simp_all add: pci_keep_intx_enabled_def Let_def)
  obtain x' where x': "irq_msix_channel_setup P x ?os = Some (0, x', ?os\<lparr>os_irqs := channel_irqs P h c, os_tasklet := True\<rparr>)"
      "msix_dev h c u x'" "lines_set P h c x'"
    using channel_setup_ok [OF d ki(1) mem] req by (auto simp: Let_def)
  define os1 where "os1 = ?os\<lparr>os_irqs := channel_irqs P h c, os_tasklet := True\<rparr>"
  define os2 where "os2 = os1\<lparr>os_irqs := channel_irqs P h c @ user_irqs P (h + c) m\<rparr>"
  have req_u: "request_irq_rv P (pci_irq_vector P (int (h + c + j))) = 0" if "j < m" for j using req [of "h + c + j"] that by simp
  have "user_request P u 0 (int (h + c + 0)) os1 = (if m < 0 + u then ?rv else 0, m, os1\<lparr>os_irqs := channel_irqs P h c @ user_irqs P (h + c) m\<rparr>)"
    by (rule user_request_ok) (use req_u x'(2) m fail in \<open>auto simp: os1_def user_irqs_def msix_dev_def\<close>)
  moreover have "user_unwind P (int (h + c)) m os2 = os2\<lparr>os_irqs := channel_irqs P h c\<rparr>"
    by (rule user_unwind_ok) (use all_cookies [of P h c "h + c" m] in \<open>simp_all add: os2_def cookies_def\<close>)
  ultimately have u: "irq_msix_user_setup P x' os1 = (?rv, os1)"
    using x'(2) m fail by (simp add: irq_msix_user_setup_def msix_dev_def os2_def os1_def Let_def)
  have s: "irq_setup P x os l = Some (?rv, x', os1, l)"
    using d x'(1) u fail by (simp add: irq_setup_def msix_dev_def Let_def os1_def)
  have "\<exists>l'. irq_msix_channel_teardown x' os1 l = Some (os1\<lparr>os_irqs := []\<rparr>, l')"
    by (rule channel_teardown_ok [OF x'(2,3) v]) (use channel_cookies [of P h c] in \<open>simp_all add: os1_def cookies_def\<close>)
  then obtain l3 where t: "irq_msix_channel_teardown x' os1 l = Some (os1\<lparr>os_irqs := []\<rparr>, l3)" ..
  obtain l4 where "irq_msix_user_teardown P x' (os1\<lparr>os_irqs := []\<rparr>) l3 = Some (user_free P u 0 (int (h + c)) (os1\<lparr>os_irqs := []\<rparr>), l4)"
    using user_teardown_ok [OF x'(2)] by blast
  then have "irq_teardown P x' os1 l = Some (user_free P u 0 (int (h + c)) (os1\<lparr>os_irqs := []\<rparr>), l4)"
    using t x'(2) by (simp add: irq_teardown_def msix_dev_def)
  moreover have "user_free P u 0 (int (h + c)) (os1\<lparr>os_irqs := []\<rparr>) = os1\<lparr>os_irqs := [], os_bad_free := os_bad_free os + u\<rparr>"
    by (subst user_free_bad) (use ki(2) in \<open>simp_all add: cookies_def os1_def\<close>)
  ultimately show ?thesis using s by auto
qed

definition failing_pci :: pci_env where
  "failing_pci = sample_pci\<lparr>request_irq_rv := \<lambda>v. if v = pci_irq_vector sample_pci 12 then -16 else 0\<rparr>"

theorem user_irq_failure_double_free_witness:
  "\<exists>x' os' os'' l''. irq_setup failing_pci sample_msix sample_os [] = Some (-16, x', os', []) \<and>
     irq_teardown failing_pci x' os' [] = Some (os'', l'') \<and> os_bad_free os'' = 16"
proof -
  have "\<exists>x' os' os'' l''. irq_setup failing_pci sample_msix sample_os [] =
       Some (request_irq_rv failing_pci (pci_irq_vector failing_pci (int (2 + 1 + 9))), x', os', []) \<and>
     irq_teardown failing_pci x' os' [] = Some (os'', l'') \<and> os_irqs os'' = [] \<and> os_bad_free os'' = os_bad_free sample_os + 16"
    by (rule user_irq_failure_double_free [OF sample_msix]) (simp_all add: sample_os_def failing_pci_def sample_pci_def)
  then show ?thesis by (fastforce simp: failing_pci_def sample_os_def)
qed



end
