(* ===== verification/User_Irq.thy ===== *)
theory User_Irq
  imports Qbv Rx_Path Xdma_Irq
begin

section \<open>User interrupts and the shared interrupt handler\<close>

text \<open>
  The interrupts of the switch core (\<open>libxdma.c\<close>): the callbacks that run the 802.1Qbv handlers,
  their registration, the handlers of the MSI-X user vectors, the tasklet that reports transmit
  timestamps, and \<open>xdma_isr\<close>, the one handler of the legacy and MSI modes, which serves user
  interrupts and all DMA channels. A callback reached with the wrong kind of argument (a net device
  where a DMA device is expected, or the reverse) and a call through a null pointer are \<open>None\<close>.
\<close>

datatype irqreturn = IRQ_NONE | IRQ_HANDLED

abbreviation (input) CONFIG_CHANGE_BIT :: u32 where "CONFIG_CHANGE_BIT \<equiv> 0x100"
abbreviation (input) TIMER_CHANGE_BIT :: u32 where "TIMER_CHANGE_BIT \<equiv> 0x200"
abbreviation (input) TIMER_VALUE_CHANGE_BIT :: u32 where "TIMER_VALUE_CHANGE_BIT \<equiv> 0x400"

type_synonym irq_result = "(irqreturn \<times> io_log) option"

subsection \<open>The callbacks of the MSI-X vectors\<close>

text \<open>\<open>lp\<close> is the DMA device, \<open>None\<close> when null; \<open>sw\<close> is the switch of its net device.\<close>

definition ax_msix_tsn_irq_timer_change :: "device \<Rightarrow> xdma_dev option \<Rightarrow> ax_switch \<Rightarrow> io_log \<Rightarrow> irq_result" where
  "ax_msix_tsn_irq_timer_change hw lp sw l =
     (case lp of
        None \<Rightarrow> Some (IRQ_NONE, l)
      | Some x \<Rightarrow>
          map_option (\<lambda>l. (IRQ_HANDLED, user_interrupts_enable x (mask_irq_user x AND TIMER_CHANGE_BIT) l))
            (ax_irq_timer_change hw sw l))"

definition ax_msix_tsn_irq_config_change :: "device \<Rightarrow> xdma_dev option \<Rightarrow> ax_switch \<Rightarrow> io_log \<Rightarrow> irq_result" where
  "ax_msix_tsn_irq_config_change hw lp sw l =
     (case lp of
        None \<Rightarrow> Some (IRQ_NONE, l)
      | Some x \<Rightarrow>
          map_option (\<lambda>l. (IRQ_HANDLED, user_interrupts_enable x (mask_irq_user x AND CONFIG_CHANGE_BIT) l))
            (ax_irq_config_change hw sw l))"

definition ax_msix_tsn_irq_timer_value_change :: "device \<Rightarrow> xdma_dev option \<Rightarrow> ax_switch \<Rightarrow> io_log \<Rightarrow> irq_result" where
  "ax_msix_tsn_irq_timer_value_change hw lp sw l =
     (case lp of
        None \<Rightarrow> Some (IRQ_NONE, l)
      | Some x \<Rightarrow>
          map_option (\<lambda>l. (IRQ_HANDLED, user_interrupts_enable x (mask_irq_user x AND TIMER_VALUE_CHANGE_BIT) l))
            (ax_irq_timer_value_change hw sw l))"

text \<open>A call through \<open>user_irq->handler\<close> with \<open>user_irq->dev\<close>; the other callbacks expect the net device's private data.\<close>

definition call_with_xdev :: "user_handler \<Rightarrow> device \<Rightarrow> xdma_dev option \<Rightarrow> ax_switch \<Rightarrow> io_log \<Rightarrow> irq_result" where
  "call_with_xdev h =
     (case h of
        Uh_msix_config_change \<Rightarrow> ax_msix_tsn_irq_config_change
      | Uh_msix_timer_change \<Rightarrow> ax_msix_tsn_irq_timer_change
      | Uh_msix_timer_value_change \<Rightarrow> ax_msix_tsn_irq_timer_value_change
      | _ \<Rightarrow> (\<lambda>hw lp sw l. None))"

subsection \<open>Registration\<close>

definition set_handler :: "nat \<Rightarrow> user_handler option \<Rightarrow> xdma_dev \<Rightarrow> xdma_dev" where
  "set_handler i h x = x\<lparr>user_irq := (user_irq x)[i := (user_irq x ! i)\<lparr>uhandler := h\<rparr>]\<rparr>"

definition xdma_user_isr_register :: "pci_env \<Rightarrow> xdma_dev \<Rightarrow> xdma_dev" where
  "xdma_user_isr_register P x =
     (if msi_msix_capable P PCI_CAP_ID_MSIX then
        (let x = x\<lparr>user_irq := map (\<lambda>u. u\<lparr>udev_is_xdev := True\<rparr>) (user_irq x)\<rparr>;
             x = fold (\<lambda>i. set_handler i None) [0..<8] x;
             x = set_handler 8 (Some Uh_msix_config_change) x;
             x = set_handler 9 (Some Uh_msix_timer_change) x;
             x = set_handler 10 (Some Uh_msix_timer_value_change) x
         in fold (\<lambda>i. set_handler i None) [11..<16] x)
      else
        (let x = set_handler 0 (Some Uh_ptp) x;
             x = fold (\<lambda>i. set_handler i None) [1, 2, 3] x;
             x = set_handler 4 (Some Uh_config_change) x;
             x = set_handler 5 None x;
             x = set_handler 6 (Some Uh_timer_change) x
         in set_handler 7 None x))"

subsection \<open>The handlers of the MSI-X user vectors\<close>

text \<open>
  The body the three handlers of the switch interrupts share; \<open>b\<close> is the bit of the enable mask
  each of them clears while the callback runs. The vector was requested with \<open>&xdev->user_irq[i]\<close>.
\<close>

definition tsn_user_irq :: "u32 \<Rightarrow> device \<Rightarrow> nat \<Rightarrow> xdma_dev \<Rightarrow> ax_switch \<Rightarrow> io_log \<Rightarrow> irq_result" where
  "tsn_user_irq b hw i x sw l =
     Option.bind (arr_get (user_irq x) (int i)) (\<lambda>u.
     let (user_IRQ, l) = ioread32 hw (0, SWITCH_ISR) l in
     if user_IRQ AND push_bit (16 + user_idx u) 1 \<noteq> 0 then
       (let irq_mask = mask_irq_user x AND b;
            l = user_interrupts_disable x irq_mask l;
            msk = push_bit (16 + user_idx u) 1;
            l = iowrite32 msk (0, SWITCH_ISR) l
        in case uhandler u of
             None \<Rightarrow> None
           | Some h \<Rightarrow> call_with_xdev h hw (if udev_is_xdev u then Some x else None) sw l)
     else Some (IRQ_NONE, l))"

definition xdma_user_irq_timer_value_change :: "device \<Rightarrow> nat \<Rightarrow> xdma_dev \<Rightarrow> ax_switch \<Rightarrow> io_log \<Rightarrow> irq_result" where
  "xdma_user_irq_timer_value_change = tsn_user_irq TIMER_VALUE_CHANGE_BIT"

definition xdma_user_irq_timer_change :: "device \<Rightarrow> nat \<Rightarrow> xdma_dev \<Rightarrow> ax_switch \<Rightarrow> io_log \<Rightarrow> irq_result" where
  "xdma_user_irq_timer_change = tsn_user_irq TIMER_CHANGE_BIT"

definition xdma_user_irq_config_change :: "device \<Rightarrow> nat \<Rightarrow> xdma_dev \<Rightarrow> ax_switch \<Rightarrow> io_log \<Rightarrow> irq_result" where
  "xdma_user_irq_config_change = tsn_user_irq CONFIG_CHANGE_BIT"

text \<open>The service routine of the other vectors does not call the callback.\<close>

definition msix_user_irq_service :: "xdma_user_irq \<Rightarrow> io_log \<Rightarrow> irq_result" where
  "msix_user_irq_service u l = (case uhandler u of Some h \<Rightarrow> Some (IRQ_HANDLED, l) | None \<Rightarrow> Some (IRQ_HANDLED, l))"

definition xdma_user_irq_isr :: "device \<Rightarrow> nat \<Rightarrow> xdma_dev \<Rightarrow> io_log \<Rightarrow> irq_result" where
  "xdma_user_irq_isr hw i x l =
     Option.bind (arr_get (user_irq x) (int i)) (\<lambda>u.
     let (user_IRQ, l) = ioread32 hw (0, SWITCH_ISR) l in
     if user_IRQ AND push_bit (16 + user_idx u) 1 \<noteq> 0 then
       (let msk = push_bit (16 + user_idx u) 1;
            l = iowrite32 msk (0, SWITCH_ISR) l
        in msix_user_irq_service u l)
     else Some (IRQ_NONE, l))"

text \<open>What the kernel runs when the vector of user interrupt \<open>i\<close> fires: the handler requested for it.\<close>

definition user_vector :: "device \<Rightarrow> nat \<Rightarrow> xdma_dev \<Rightarrow> ax_switch \<Rightarrow> io_log \<Rightarrow> irq_result" where
  "user_vector hw i x sw l =
     (case user_irq_handler i of
        Some Irq_user \<Rightarrow> xdma_user_irq_isr hw i x l
      | Some Irq_timer_value_change \<Rightarrow> xdma_user_irq_timer_value_change hw i x sw l
      | Some Irq_config_change \<Rightarrow> xdma_user_irq_config_change hw i x sw l
      | Some Irq_timer_change \<Rightarrow> xdma_user_irq_timer_change hw i x sw l
      | _ \<Rightarrow> None)"

subsection \<open>Reporting transmit timestamps\<close>

text \<open>
  The device, the fuel of the FIFO loops and the contents of the uninitialised local variables.
\<close>

record irq_env =
  ihw :: device
  ifuel :: nat
  its :: capture_data
  its_d :: capture_data

definition sk_of_tx :: "tx_skb \<Rightarrow> sk_buff" where
  "sk_of_tx skb = \<lparr>skb_buf = tx_data skb, skb_off = 0, skb_mac = 0, protocol = 0, skb_dev = None, skb_pkt_type = PACKET_HOST,
     csum_complete = False, csum = 0, offload_fwd_mark = False, hwtstamp = None\<rparr>"

text \<open>
  The loop of \<open>tasklet_ptp\<close> and of \<open>ax_tsn_irq_ptp\<close> over the queue of frames that wait for their
  timestamp. The result lists what is reported for each frame, in queue order; the queue is empty afterwards.
\<close>

fun report_loop :: "irq_env \<Rightarrow> tx_skb list \<Rightarrow> ax_switch \<Rightarrow> io_log \<Rightarrow> (u64 option list \<times> ax_switch \<times> io_log) option" where
  "report_loop env [] sw l = Some ([], sw, l)"
| "report_loop env (skb # q) sw l =
     Option.bind (ax_tx_check_timestamp (ifuel env) (ihw env) (its env) (its_d env) (tx_hw_tstamp skb) (sk_of_tx skb) sw l)
       (\<lambda>(t, sw, l). map_option (\<lambda>(ts, sw, l). (t # ts, sw, l)) (report_loop env q sw l))"

text \<open>\<open>reports\<close> are the timestamps given to the stack so far.\<close>

record isr_state =
  isr_tx :: tx_state
  isr_rx :: rx_state
  reports :: "u64 option list"

definition tasklet_ptp :: "irq_env \<Rightarrow> isr_state \<Rightarrow> io_log \<Rightarrow> (isr_state \<times> io_log) option" where
  "tasklet_ptp env st l =
     map_option (\<lambda>(ts, sw, l).
       (st\<lparr>isr_tx := (isr_tx st)\<lparr>tx_timestamp := []\<rparr>, isr_rx := (isr_rx st)\<lparr>rx_switch := sw\<rparr>, reports := reports st @ ts\<rparr>, l))
       (report_loop env (tx_timestamp (isr_tx st)) (rx_switch (isr_rx st)) l)"

text \<open>
  The waiting loop of \<open>ax_tsn_irq_ptp\<close>: \<open>n\<close> rounds are left, \<open>i\<close> is the next, \<open>arrive i\<close> the frames the
  transmit path queues during its delay. The flag says that the loop was left for the label \<open>tx\<close>.
\<close>

fun ptp_wait :: "(nat \<Rightarrow> tx_skb list) \<Rightarrow> nat \<Rightarrow> nat \<Rightarrow> tx_skb list \<Rightarrow> bool \<times> tx_skb list" where
  "ptp_wait arrive 0 i q = (False, q)"
| "ptp_wait arrive (Suc n) i q = (if q = [] then ptp_wait arrive n (Suc i) (q @ arrive i) else (True, q))"

definition ax_tsn_irq_ptp :: "irq_env \<Rightarrow> (nat \<Rightarrow> tx_skb list) \<Rightarrow> isr_state \<Rightarrow> io_log \<Rightarrow> (isr_state \<times> io_log) option" where
  "ax_tsn_irq_ptp env arrive st l =
     Option.bind (ax_retrieve_hw_timestamps (ifuel env) (ihw env) (its env) (rx_switch (isr_rx st)) l) (\<lambda>(n, sw, l).
     let st = st\<lparr>isr_rx := (isr_rx st)\<lparr>rx_switch := sw\<rparr>\<rparr> in
     if n = 0 then Some (st, l)
     else
       (let (go, q) = ptp_wait arrive 3 0 (tx_timestamp (isr_tx st));
            st = st\<lparr>isr_tx := (isr_tx st)\<lparr>tx_timestamp := q\<rparr>\<rparr>
        in if go then tasklet_ptp env st l else Some (st, l)))"

subsection \<open>The handler of the legacy and MSI modes\<close>

definition ax_tsn_irq_timer_change :: "irq_env \<Rightarrow> isr_state \<Rightarrow> io_log \<Rightarrow> (isr_state \<times> io_log) option" where
  "ax_tsn_irq_timer_change env st l = map_option (Pair st) (ax_irq_timer_change (ihw env) (rx_switch (isr_rx st)) l)"

definition ax_tsn_irq_config_change :: "irq_env \<Rightarrow> isr_state \<Rightarrow> io_log \<Rightarrow> (isr_state \<times> io_log) option" where
  "ax_tsn_irq_config_change env st l = map_option (Pair st) (ax_irq_config_change (ihw env) (rx_switch (isr_rx st)) l)"

definition user_irq_service :: "irq_env \<Rightarrow> (nat \<Rightarrow> tx_skb list) \<Rightarrow> xdma_user_irq \<Rightarrow> isr_state \<Rightarrow> io_log \<Rightarrow> (isr_state \<times> io_log) option" where
  "user_irq_service env arrive u st l =
     (case uhandler u of
        None \<Rightarrow> Some (st, l)
      | Some Uh_ptp \<Rightarrow> ax_tsn_irq_ptp env arrive st l
      | Some Uh_config_change \<Rightarrow> ax_tsn_irq_config_change env st l
      | Some Uh_timer_change \<Rightarrow> ax_tsn_irq_timer_change env st l
      | Some _ \<Rightarrow> None)"

text \<open>The loop over the sixteen user interrupts; \<open>v\<close> is the local copy of the status register.\<close>

fun isr_user_loop :: "irq_env \<Rightarrow> (nat \<Rightarrow> tx_skb list) \<Rightarrow> xdma_dev \<Rightarrow> nat \<Rightarrow> nat \<Rightarrow> u32 \<Rightarrow> isr_state \<Rightarrow> io_log \<Rightarrow>
    (isr_state \<times> io_log) option" where
  "isr_user_loop env arrive x 0 i v st l = Some (st, l)"
| "isr_user_loop env arrive x (Suc n) i v st l =
     (let msk = push_bit (16 + i) 1 in
      if v AND msk \<noteq> 0 then
        (let l = iowrite32 (v AND msk) (0, SWITCH_ISR) l;
             v = v AND NOT msk
         in Option.bind (arr_get (user_irq x) (int i)) (\<lambda>u.
            Option.bind (user_irq_service env arrive u st l) (\<lambda>(st, l).
            isr_user_loop env arrive x n (Suc i) v st l)))
      else isr_user_loop env arrive x n (Suc i) v st l)"

definition xdma_isr :: "irq_env \<Rightarrow> (nat \<Rightarrow> tx_skb list) \<Rightarrow> xdma_dev option \<Rightarrow> isr_state \<Rightarrow> io_log \<Rightarrow>
    (irqreturn \<times> isr_state \<times> io_log) option" where
  "xdma_isr env arrive dev_id st l =
     (case dev_id of
        None \<Rightarrow> Some (IRQ_NONE, st, l)
      | Some x \<Rightarrow>
          (let (ch_irq, l) = ioread32 (ihw env) (config_bar_idx x, IR_channel_int_request) l;
               l = (if ch_irq \<noteq> 0 then channel_interrupts_disable x ch_irq l else l);
               (v, l) = ioread32 (ihw env) (0, SWITCH_ISR) l
           in Option.bind
                (if v \<noteq> 0 then
                   (let l = user_interrupts_disable x (mask_irq_user x) l
                    in map_option (\<lambda>(st, l). (st, user_interrupts_enable x (mask_irq_user x) l))
                         (isr_user_loop env arrive x 16 0 v st l))
                 else Some (st, l)) (\<lambda>(st, l).
              if ch_irq = 0 \<and> v = 0 then Some (IRQ_NONE, st, l)
              else
                Option.bind (if ch_irq AND mask_irq_h2c (isr_tx st) \<noteq> 0
                             then isr_h2c_loop (ihw env) (nat (h2c_channel_max x)) 0 (ch_irq AND mask_irq_h2c (isr_tx st)) (isr_tx st) l
                             else Some (isr_tx st, l)) (\<lambda>(tx, l).
                map_option (\<lambda>(rx, l). (IRQ_HANDLED, st\<lparr>isr_tx := tx, isr_rx := rx\<rparr>, l))
                  (isr_c2h (ihw env) ch_irq (isr_rx st) l)))))"

subsection \<open>Serving a vector\<close>

text \<open>What a user interrupt of the switch core means: the 802.1Qbv handler that has to run.\<close>

definition tsn_event :: "nat \<Rightarrow> (device \<Rightarrow> ax_switch \<Rightarrow> io_log \<Rightarrow> io_log option) option" where
  "tsn_event i = (if i = 8 then Some ax_irq_config_change else if i = 9 then Some ax_irq_timer_change
     else if i = 10 then Some ax_irq_timer_value_change else None)"

definition user_irq_wf :: "xdma_dev \<Rightarrow> bool" where
  "user_irq_wf x \<longleftrightarrow> length (user_irq x) = 16 \<and> (\<forall>i<16. user_idx (user_irq x ! i) = i)"

lemma alloc_user_irq_wf: "user_irq_wf (alloc_dev_instance h pd)"
  by (simp add: user_irq_wf_def alloc_dev_instance_def)

lemma set_handler_simps [simp]:
  "length (user_irq (set_handler i h x)) = length (user_irq x)" "user_idx (user_irq (set_handler i h x) ! j) = user_idx (user_irq x ! j)"
  "udev_is_xdev (user_irq (set_handler i h x) ! j) = udev_is_xdev (user_irq x ! j)"
  "i < length (user_irq x) \<Longrightarrow> uhandler (user_irq (set_handler i h x) ! j) = (if i = j then h else uhandler (user_irq x ! j))"
  "mask_irq_user (set_handler i h x) = mask_irq_user x" "config_bar_idx (set_handler i h x) = config_bar_idx x"
  by (cases "i < length (user_irq x)"; cases "i = j"; simp add: set_handler_def list_update_beyond)+

lemma clear_handlers:
  "\<forall>i \<in> set is. i < length (user_irq x) \<Longrightarrow>
   length (user_irq (fold (\<lambda>i. set_handler i None) is x)) = length (user_irq x) \<and>
   user_idx (user_irq (fold (\<lambda>i. set_handler i None) is x) ! j) = user_idx (user_irq x ! j) \<and>
   udev_is_xdev (user_irq (fold (\<lambda>i. set_handler i None) is x) ! j) = udev_is_xdev (user_irq x ! j) \<and>
   uhandler (user_irq (fold (\<lambda>i. set_handler i None) is x) ! j) = (if j \<in> set is then None else uhandler (user_irq x ! j)) \<and>
   mask_irq_user (fold (\<lambda>i. set_handler i None) is x) = mask_irq_user x \<and> config_bar_idx (fold (\<lambda>i. set_handler i None) is x) = config_bar_idx x"
  by (induction "is" arbitrary: x) auto

lemma register_ok:
  assumes "user_irq_wf x" "msi_msix_capable P PCI_CAP_ID_MSIX" "i < 16"
  shows "\<exists>u. arr_get (user_irq (xdma_user_isr_register P x)) (int i) = Some u \<and> user_idx u = i \<and> udev_is_xdev u \<and>
     uhandler u = (if i = 8 then Some Uh_msix_config_change else if i = 9 then Some Uh_msix_timer_change
       else if i = 10 then Some Uh_msix_timer_value_change else None)" "mask_irq_user (xdma_user_isr_register P x) = mask_irq_user x"
     "config_bar_idx (xdma_user_isr_register P x) = config_bar_idx x"
  using assms by (auto simp: xdma_user_isr_register_def user_irq_wf_def arr_get_def clear_handlers)

lemma user_irq_handler_cases:
  "user_irq_handler 8 = Some Irq_config_change" "user_irq_handler 9 = Some Irq_timer_change"
  "user_irq_handler 10 = Some Irq_timer_value_change" "i < 16 \<Longrightarrow> tsn_event i = None \<Longrightarrow> user_irq_handler i = Some Irq_user"
  by (auto simp: user_irq_handler_def tsn_event_def split: if_splits)

subsection \<open>Properties\<close>

text \<open>
  C22. The three tables of the user interrupts agree: the vector handlers that
  \<open>irq_msix_user_setup\<close> requests, the callbacks that \<open>xdma_user_isr_register\<close> installs and the bits of
  the enable mask. When the vector of a pending user interrupt fires, a switch event (8, 9 or 10) has
  its own enable bit cleared, is acknowledged, has its 802.1Qbv handler run exactly once, and then has
  the same bit enabled again; any other interrupt is acknowledged and nothing else happens. A vector
  whose interrupt is not pending only reads the status register and reports \<open>IRQ_NONE\<close>.
\<close>

theorem user_vector_served:
  assumes wf: "user_irq_wf x" and cap: "msi_msix_capable P PCI_CAP_ID_MSIX" and i: "i < 16"
  shows "user_vector hw i (xdma_user_isr_register P x) sw l =
     (if hw l (0, SWITCH_ISR) AND push_bit (16 + i) 1 = 0 then Some (IRQ_NONE, RD (0, SWITCH_ISR) # l)
      else case tsn_event i of
             None \<Rightarrow> Some (IRQ_HANDLED, WR (0, SWITCH_ISR) (push_bit (16 + i) 1) # RD (0, SWITCH_ISR) # l)
           | Some handler \<Rightarrow>
               map_option (\<lambda>l. (IRQ_HANDLED, WR (config_bar_idx x, IR_user_int_enable_w1s) (mask_irq_user x AND push_bit i 1) # l))
                 (handler hw sw (WR (0, SWITCH_ISR) (push_bit (16 + i) 1) #
                    WR (config_bar_idx x, IR_user_int_enable_w1c) (mask_irq_user x AND push_bit i 1) # RD (0, SWITCH_ISR) # l)))"
proof -
  obtain u where u: "arr_get (user_irq (xdma_user_isr_register P x)) (int i) = Some u" "user_idx u = i" "udev_is_xdev u"
     "uhandler u = (if i = 8 then Some Uh_msix_config_change else if i = 9 then Some Uh_msix_timer_change
       else if i = 10 then Some Uh_msix_timer_value_change else None)"
    using register_ok(1) [OF wf cap i] by blast
  note ops = user_vector_def Let_def io_simps user_interrupts_enable_def user_interrupts_disable_def register_ok(2,3) [OF wf cap i]
  consider (tsn) "i = 8 \<or> i = 9 \<or> i = 10" | (other) "tsn_event i = None" by (metis tsn_event_def)
  then show ?thesis
  proof cases
    case tsn
    then show ?thesis using u
      by (auto simp: ops user_irq_handler_cases tsn_event_def tsn_user_irq_def xdma_user_irq_config_change_def
            xdma_user_irq_timer_change_def xdma_user_irq_timer_value_change_def call_with_xdev_def
            ax_msix_tsn_irq_config_change_def ax_msix_tsn_irq_timer_change_def ax_msix_tsn_irq_timer_value_change_def)
  next
    case other
    then show ?thesis using u user_irq_handler_cases(4) [OF i other]
      by (auto simp: ops xdma_user_irq_isr_def msix_user_irq_service_def split: option.split)
  qed
qed

theorem user_vector_served_witness:
  "user_vector (\<lambda>l a. if a = (0, SWITCH_ISR) then 0x1000000 else 0) 8 (xdma_user_isr_register sample_pci sample_msix) sample_switch [] \<noteq> None \<and>
   user_vector (\<lambda>l a. 0x8000000) 11 (xdma_user_isr_register sample_pci sample_msix) sample_switch [] =
     Some (IRQ_HANDLED, [WR (0, SWITCH_ISR) 0x8000000, RD (0, SWITCH_ISR)])"
proof -
  have wf: "user_irq_wf sample_msix" using alloc_user_irq_wf by (simp add: user_irq_wf_def sample_msix_def sample_xdev_def)
  have cap: "msi_msix_capable sample_pci PCI_CAP_ID_MSIX" by (simp add: msi_msix_capable_def sample_pci_def)
  have h: "ax_irq_config_change (\<lambda>l a. if a = (0, SWITCH_ISR) then 0x1000000 else 0) sample_switch l \<noteq> None" for l
  proof -
    have "get_index_by_mask 0 5 = -1" by code_simp
    then show ?thesis by (simp add: ax_irq_config_change_def Let_def io_simps sample_switch_def)
  qed
  show ?thesis
    using user_vector_served [OF wf cap, of 8] user_vector_served [OF wf cap, of 11] h
    by (simp add: tsn_event_def)
qed

subsection \<open>Reporting all transmit timestamps\<close>

definition captures_ok :: "ax_switch \<Rightarrow> bool" where
  "captures_ok sw \<longleftrightarrow> tstamp_wf sw \<and> (\<forall>d \<in> set (tsq_list (tx_queue sw)). capture_ok d) \<and> (ptp_mode sw = 0 \<or> ptp_mode sw = 1)"

lemma tx_retry_total:
  assumes dev: "fifo_device hw B rx tx" and ts: "capture_ok ts"
    and ok: "\<forall>e \<in> set rx \<union> set tx. entry_ok e" and fuel: "fuel > length rx" "fuel > length tx"
  shows "\<lbrakk>pMemBase sw = B; captures_ok sw\<rbrakk> \<Longrightarrow> \<exists>t d sw' l'. tx_retry tries fuel hw ts key delays sw l = Some (t, d, sw', l') \<and>
     pMemBase sw' = B \<and> captures_ok sw' \<and> io_writes l' = io_writes l"
proof (induction tries arbitrary: sw l key delays)
  case 0
  then show ?case by simp
next
  case (Suc tries)
  obtain sw1 l1 rq tq where r: "ax_retrieve_hw_timestamps fuel hw ts sw l = Some (int (length tx - io_reads (B, PTP_TX_MESSAGE_INFO) l), sw1, l1)"
      "sw1 = sw\<lparr>rx_queue := rq, tx_queue := tq\<rparr>" "tstamp_wf sw1" "io_writes l1 = io_writes l"
      "tsq_list tq = take (tsq_cap (tx_queue sw))
         (rev (map capture_of (drop (io_reads (B, PTP_TX_MESSAGE_INFO) l) tx)) @ tsq_list (tx_queue sw))"
    using retrieve_hw_ok [of hw sw rx tx ts fuel l] dev ts ok fuel Suc.prems unfolding captures_ok_def by blast
  have c: "capture_ok d" if "d \<in> set (tsq_list tq)" for d
    using that r(5) ok Suc.prems(2) by (fastforce simp: captures_ok_def dest!: in_set_takeD in_set_dropD intro: capture_of_ok)
  have sw1: "pMemBase sw1 = B" "captures_ok sw1" using r(2,3) c Suc.prems by (simp_all add: captures_ok_def)
  have wq: "tsq_wf tq" using r(2,3) by (simp add: tstamp_wf_def)
  show ?case
  proof (cases "tsq_list tq = [] \<or> tsq_lookup (tsq_list tq) key = None")
    case True
    then obtain rc where "ax_tsq_find_item_1 tq key = Some (rc, key)" "rc \<noteq> 0"
      using ax_tsq_find_refines [OF wq, of key] by (cases "tsq_list tq = []") auto
    then show ?thesis using r(1,2,4) Suc.IH [OF sw1, of key "Suc delays" l1] by auto
  next
    case False
    then obtain d where d: "tsq_lookup (tsq_list tq) key = Some d" "ax_tsq_find_item_1 tq key = Some (0, d)"
      using ax_tsq_find_refines [OF wq, of key] by auto
    then have "capture_ok d" using c by (auto simp: tsq_lookup_check find_Some_iff)
    then obtain t where "stamp_time (ptp_mode sw1) d = Some (Some t)" using stamp_time_ok sw1(2) by (force simp: captures_ok_def)
    then show ?thesis using r(1,2,4) d(2) sw1 by auto
  qed
qed

text \<open>A queued frame is long enough for the classification: it has the tag and, if it is to be stamped, a whole PTP header.\<close>

definition stampable :: "tx_skb \<Rightarrow> bool" where
  "stampable skb \<longleftrightarrow> (\<exists>r. tx_classify (tx_hw_tstamp skb) (sk_of_tx skb) = Some r \<and> (\<forall>m. r = Some m \<longrightarrow> copy_ptp_header m \<noteq> None))"

lemma report_loop_total:
  assumes dev: "fifo_device (ihw env) B rx tx" and ts: "capture_ok (its env)"
    and ok: "\<forall>e \<in> set rx \<union> set tx. entry_ok e" and fuel: "ifuel env > length rx" "ifuel env > length tx"
  shows "\<lbrakk>pMemBase sw = B; captures_ok sw; \<forall>skb \<in> set q. stampable skb\<rbrakk> \<Longrightarrow>
    \<exists>r sw' l'. report_loop env q sw l = Some (r, sw', l') \<and> length r = length q \<and> pMemBase sw' = B \<and> captures_ok sw' \<and> io_writes l' = io_writes l"
proof (induction q arbitrary: sw l)
  case Nil
  then show ?case by simp
next
  case (Cons skb q)
  obtain r where c: "tx_classify (tx_hw_tstamp skb) (sk_of_tx skb) = Some r" "\<And>m. r = Some m \<Longrightarrow> copy_ptp_header m \<noteq> None"
    using Cons.prems(3) by (auto simp: stampable_def)
  have "\<exists>t sw' l'. ax_tx_check_timestamp (ifuel env) (ihw env) (its env) (its_d env) (tx_hw_tstamp skb) (sk_of_tx skb) sw l = Some (t, sw', l') \<and>
      pMemBase sw' = B \<and> captures_ok sw' \<and> io_writes l' = io_writes l"
  proof (cases r)
    case None
    then show ?thesis using c(1) Cons.prems(1,2) by (simp add: ax_tx_check_timestamp_def)
  next
    case (Some m)
    then obtain h where h: "copy_ptp_header m = Some h" using c(2) by blast
    show ?thesis
      using tx_retry_total [OF dev ts ok fuel Cons.prems(1,2), of 21 "header_key h (port_tag m) (its_d env)" 0 l] c(1) Some h
      by (auto simp: ax_tx_check_timestamp_def ax_tsn_tx_hwtstamp_def)
  qed
  then show ?case using Cons.IH Cons.prems(3) by fastforce
qed

text \<open>A timestamp the lookup of a frame returns in some state of the switch.\<close>

definition report_of :: "irq_env \<Rightarrow> tx_skb \<Rightarrow> u64 option \<Rightarrow> bool" where
  "report_of env skb t \<longleftrightarrow> (\<exists>sw l sw' l'.
     ax_tx_check_timestamp (ifuel env) (ihw env) (its env) (its_d env) (tx_hw_tstamp skb) (sk_of_tx skb) sw l = Some (t, sw', l'))"

lemma report_loop_each: "report_loop env q sw l = Some (r, sw', l') \<Longrightarrow> k < length r \<Longrightarrow> report_of env (q ! k) (r ! k)"
  by (induction q arbitrary: sw l r k)
    (force simp: bind_eq_Some_conv report_of_def nth_Cons' split: if_splits)+



end
