(* ===== verification/Net_Dev.thy ===== *)
theory Net_Dev
  imports Rx_Path
begin

section \<open>The network device\<close>

text \<open>
  The net device operations of \<open>xdma_mod.c\<close> around the two data paths: opening and closing the
  interface (descriptor set-up, DMA addresses of the rings, start of the receive engine), the
  addresses kept in the chip, the multicast filter, the maximum transfer unit.
\<close>

subsection \<open>Data\<close>

text \<open>
  \<open>net_tx\<close> and \<open>net_rx\<close> are the parts of \<open>ax_private\<close> and its DMA device that the data paths use,
  \<open>net_running\<close> is \<open>__LINK_STATE_START\<close>.
\<close>

record net_state =
  net_tx :: tx_state
  net_rx :: rx_state
  xdma_desc_flag :: int
  net_running :: bool
  dsa_mac :: "u8 list list"
  dev_addr :: "u8 list"

text \<open>What the allocators answer: whether \<open>kzalloc\<close> succeeds for engine \<open>i\<close>, and the coherent descriptor memory.\<close>

record net_alloc =
  kzalloc_ok :: "nat \<Rightarrow> bool"
  dma_coherent :: "nat \<Rightarrow> int \<Rightarrow> (xdma_desc list \<times> u64) option"
  dev_offline :: bool

abbreviation (input) SIZEOF_PACKET_BUFF :: u64 where "SIZEOF_PACKET_BUFF \<equiv> 2048"
abbreviation (input) SIZEOF_XDMA_RESULT :: u64 where "SIZEOF_XDMA_RESULT \<equiv> 32"

subsection \<open>The DMA rings\<close>

definition rx_ring_step :: "xdma_desc list \<times> u64 \<times> u64 \<Rightarrow> nat \<Rightarrow> (xdma_desc list \<times> u64 \<times> u64) option" where
  "rx_ring_step s i =
     (let (dv, result_bus, rx_buff_bus) = s in
      Option.bind (arr_get dv (int i)) (\<lambda>d.
      map_option (\<lambda>dv. (dv, result_bus + SIZEOF_XDMA_RESULT, rx_buff_bus + SIZEOF_PACKET_BUFF))
        (arr_set dv (int i) (d\<lparr>dst_addr_lo := PCI_DMA_L rx_buff_bus, dst_addr_hi := PCI_DMA_H rx_buff_bus,
           src_addr_lo := PCI_DMA_L result_bus, src_addr_hi := PCI_DMA_H result_bus, bytes := word_of_int PKT_BUF_LEN\<rparr>))))"

definition tx_ring_step :: "xdma_desc list \<times> u64 \<Rightarrow> nat \<Rightarrow> (xdma_desc list \<times> u64) option" where
  "tx_ring_step s i =
     (let (dv, tx_buff_bus) = s in
      Option.bind (arr_get dv (int i)) (\<lambda>d.
      map_option (\<lambda>dv. (dv, tx_buff_bus + SIZEOF_PACKET_BUFF))
        (arr_set dv (int i) (d\<lparr>src_addr_lo := PCI_DMA_L tx_buff_bus, src_addr_hi := PCI_DMA_H tx_buff_bus, bytes := word_of_int PKT_BUF_LEN\<rparr>))))"

text \<open>The two loops on one engine; without a transfer the code follows a null pointer.\<close>

definition init_rx_ring :: "xdma_engine \<Rightarrow> xdma_engine option" where
  "init_rx_ring e =
     (case transfer e of
        None \<Rightarrow> None
      | Some t \<Rightarrow>
          map_option (\<lambda>(dv, _, _). e\<lparr>transfer := Some (t\<lparr>desc_virt := dv\<rparr>)\<rparr>)
            (fold_opt rx_ring_step (desc_virt t, cyclic_result_bus e, rx_buff_bus e) [0..<nat RX_DESC_NUM]))"

definition init_tx_ring :: "xdma_engine \<Rightarrow> xdma_engine option" where
  "init_tx_ring e =
     (case transfer e of
        None \<Rightarrow> None
      | Some t \<Rightarrow>
          map_option (\<lambda>(dv, _). e\<lparr>transfer := Some (t\<lparr>desc_virt := dv\<rparr>)\<rparr>)
            (fold_opt tx_ring_step (desc_virt t, tx_buff_bus e) [0..<nat TX_DESC_NUM]))"

text \<open>With copied socket buffers nothing is allocated here, so the error return is never taken.\<close>

definition ax_net_init_ring :: "net_state \<Rightarrow> (int \<times> net_state) option" where
  "ax_net_init_ring st =
     Option.bind (init_rx_ring (engine_c2h (net_rx st))) (\<lambda>e.
     let st = st\<lparr>net_rx := (net_rx st)\<lparr>engine_c2h := e\<rparr>\<rparr>;
         tx_engine = (\<lambda>st j. Option.bind (arr_get (engine_h2c (net_tx st)) (int j)) (\<lambda>e.
            map_option (\<lambda>e. st\<lparr>net_tx := (net_tx st)\<lparr>engine_h2c := (engine_h2c (net_tx st))[j := e]\<rparr>\<rparr>) (init_tx_ring e)))
     in map_option (Pair 0) (fold_opt tx_engine st [0, 1]))"

definition ax_net_clean_ring :: "net_state \<Rightarrow> net_state" where
  "ax_net_clean_ring st = st"

subsection \<open>Addresses\<close>


text \<open>One round of \<open>ax_get_dsa_mac\<close>; the table has four addresses of six bytes.\<close>

definition dsa_mac_step :: "device \<Rightarrow> u8 list list \<times> io_log \<Rightarrow> nat \<Rightarrow> (u8 list list \<times> io_log) option" where
  "dsa_mac_step hw s i =
     (let (macs, l) = s;
          (value, l) = ioread32 hw (2, DSA_OFFSET + int i * 4) l;
          temp = i div 2;
          byte = (\<lambda>n. ucast (drop_bit n value AND 0xFF) :: u8)
      in Option.bind (arr_get macs (int temp)) (\<lambda>m.
         if length m < 6 then None
         else if i mod 2 = 0
         then Some (macs[temp := m[1 := byte 0, 0 := byte 8]], l)
         else Some (macs[temp := m[5 := byte 0, 4 := byte 8, 3 := byte 16, 2 := byte 24]], l)))"

definition ax_get_dsa_mac :: "device \<Rightarrow> net_state \<Rightarrow> io_log \<Rightarrow> (net_state \<times> io_log) option" where
  "ax_get_dsa_mac hw st l = map_option (\<lambda>(m, l). (st\<lparr>dsa_mac := m\<rparr>, l)) (fold_opt (dsa_mac_step hw) (dsa_mac st, l) [0..<8])"

definition ax_set_mac_reg :: "u8 list \<Rightarrow> io_log \<Rightarrow> io_log" where
  "ax_set_mac_reg addr l =
     (let b = (\<lambda>i. ucast (addr ! i) :: u32);
          l = iowrite32 (push_bit 8 (b 0 AND 0xFF) OR (b 1 AND 0xFF)) (0, NODE_ID_1) l
      in iowrite32 (push_bit 24 (b 2 AND 0xFF) OR push_bit 16 (b 3 AND 0xFF) OR push_bit 8 (b 4 AND 0xFF) OR (b 5 AND 0xFF))
           (0, NODE_ID_0) l)"

text \<open>\<open>is_valid_ether_addr\<close> of the kernel: neither a group address nor zero.\<close>

definition is_valid_ether_addr :: "u8 list \<Rightarrow> bool" where
  "is_valid_ether_addr a \<longleftrightarrow> a ! 0 AND 1 = 0 \<and> a \<noteq> replicate 6 0"

definition ax_net_set_mac_addr :: "u8 list \<Rightarrow> net_state \<Rightarrow> io_log \<Rightarrow> int \<times> net_state \<times> io_log" where
  "ax_net_set_mac_addr addr st l =
     (if net_running st then (EBUSY_NEG, st, l)
      else if \<not> is_valid_ether_addr addr then (EADDRNOTAVAIL_NEG, st, l)
      else (0, st\<lparr>dev_addr := addr\<rparr>, ax_set_mac_reg addr l))"

definition ax_net_change_mtu :: "int \<Rightarrow> int" where
  "ax_net_change_mtu new_mtu = (if new_mtu \<le> 0 \<or> new_mtu > 1500 then EINVAL_NEG else 0)"

subsection \<open>The multicast filter\<close>


text \<open>\<open>crc\<close> is the kernel's \<open>ether_crc\<close>. The six top bits choose a byte and a bit of the filter.\<close>

definition filter_add :: "(u8 list \<Rightarrow> u32) \<Rightarrow> u8 list \<Rightarrow> u8 list \<Rightarrow> u8 list option" where
  "filter_add crc multi_filter addr =
     (let crc_bits = drop_bit 26 (crc addr);
          i = unat (drop_bit 3 crc_bits)
      in Option.bind (arr_get multi_filter (int i)) (\<lambda>b.
         arr_set multi_filter (int i) (b OR push_bit (unat (crc_bits AND 7)) 1)))"

definition le32 :: "u8 list \<Rightarrow> u32" where
  "le32 bs = ucast (bs ! 0) OR push_bit 8 (ucast (bs ! 1)) OR push_bit 16 (ucast (bs ! 2)) OR push_bit 24 (ucast (bs ! 3))"

definition ax_net_set_multicast :: "(u8 list \<Rightarrow> u32) \<Rightarrow> bool \<Rightarrow> bool \<Rightarrow> u8 list list \<Rightarrow> io_log \<Rightarrow> io_log option" where
  "ax_net_set_multicast crc promisc allmulti mc l =
     (let rx_ctl = AX_RX_CTL_AB;
          mc_count = int (length mc)
      in map_option (\<lambda>(rx_ctl, l). iowrite32 rx_ctl (0, RX_CTRL) l)
        (if promisc then Some (rx_ctl OR AX_RX_CTL_PRO, l)
         else if allmulti \<or> mc_count > AX_MAX_MCAST then Some (rx_ctl OR AX_RX_CTL_AMALL, l)
         else if mc_count = 0 then Some (rx_ctl, l)
         else
           map_option (\<lambda>multi_filter.
             (let l = iowrite32 (le32 multi_filter) (0, MULTI_FILTER_ARR_0) l;
                  l = iowrite32 (le32 (drop 4 multi_filter)) (0, MULTI_FILTER_ARR_1) l
              in (rx_ctl OR AX_RX_CTL_AM, l)))
           (fold_opt (filter_add crc) (replicate 8 0) mc)))"

subsection \<open>Opening and closing the interface\<close>

definition setup_engine :: "net_alloc \<Rightarrow> nat \<Rightarrow> int \<Rightarrow> xdma_engine \<Rightarrow> xdma_engine option" where
  "setup_engine A i flag e =
     map_option snd (xdma_desc_setup (if kzalloc_ok A i then Some zero_transfer else None) (dma_coherent A i) (dev_offline A) e flag)"


definition ax_net_open :: "net_alloc \<Rightarrow> device \<Rightarrow> net_state \<Rightarrow> io_log \<Rightarrow> (int \<times> net_state \<times> io_log) option" where
  "ax_net_open A hw st l =
     (case engine_h2c (net_tx st) of
        [h0, h1] \<Rightarrow>
          Option.bind (setup_engine A 0 (xdma_desc_flag st) h0) (\<lambda>h0.
          Option.bind (setup_engine A 1 (xdma_desc_flag st) h1) (\<lambda>h1.
          Option.bind (setup_engine A 2 (xdma_desc_flag st) (engine_c2h (net_rx st))) (\<lambda>c.
          let st = st\<lparr>net_tx := (net_tx st)\<lparr>engine_h2c := [h0, h1]\<rparr>, net_rx := (net_rx st)\<lparr>engine_c2h := c\<rparr>,
                xdma_desc_flag := (if xdma_desc_flag st = 0 then 1 else xdma_desc_flag st)\<rparr>
          in Option.bind (ax_net_init_ring st) (\<lambda>(err, st).
             if err \<noteq> 0 then Some (err, st, l)
             else
               Option.bind (ax_get_dsa_mac hw st l) (\<lambda>(st, l).
               let st = st\<lparr>net_tx := (net_tx st)\<lparr>tx_list := replicate 2 \<lparr>idle = True, cur = 0, cur_pkt_count = 0\<rparr>\<rparr>,
                     net_rx := (net_rx st)\<lparr>cur_rx := 0, cur_rx_pkt_count := 0\<rparr>\<rparr>;
                   l = iowrite32 AX_PLINK (0, GLOBAL_MAC_CONFIG) l
               in map_option (\<lambda>(e, l).
                    (0, st\<lparr>net_rx := (net_rx st)\<lparr>engine_c2h := e, napi_scheduled := False\<rparr>,
                           net_tx := (net_tx st)\<lparr>tx_timestamp := [], queue_stopped := False\<rparr>, net_running := True\<rparr>, l))
                  (engine_start hw (engine_c2h (net_rx st)) l))))))
      | _ \<Rightarrow> None)"

definition ax_net_close :: "net_state \<Rightarrow> io_log \<Rightarrow> (int \<times> net_state \<times> io_log) option" where
  "ax_net_close st l =
     (case engine_h2c (net_tx st) of
        [h0, h1] \<Rightarrow>
          (let st = st\<lparr>net_rx := (net_rx st)\<lparr>napi_scheduled := False\<rparr>, net_tx := (net_tx st)\<lparr>queue_stopped := True\<rparr>\<rparr>;
               (c, l) = xdma_engine_stop (engine_c2h (net_rx st)) l;
               (h0, l) = xdma_engine_stop h0 l;
               (h1, l) = xdma_engine_stop h1 l;
               st = st\<lparr>net_tx := (net_tx st)\<lparr>engine_h2c := [h0, h1]\<rparr>, net_rx := (net_rx st)\<lparr>engine_c2h := c\<rparr>\<rparr>;
               st = ax_net_clean_ring st
           in Some (0, st\<lparr>net_running := False\<rparr>, l))
      | _ \<Rightarrow> None)"

subsection \<open>Setting up one engine\<close>

text \<open>What \<open>ax_net_open\<close> needs of an engine: descriptor memory, no shutdown request, and a transfer to reuse or memory for one.\<close>

definition openable :: "net_alloc \<Rightarrow> nat \<Rightarrow> int \<Rightarrow> xdma_engine \<Rightarrow> bool" where
  "openable A i flag e \<longleftrightarrow> \<not> dev_offline A \<and> shutdown e AND ENGINE_SHUTDOWN_REQUEST = 0 \<and>
     (\<exists>d. edesc e = Some d \<and> 1024 \<le> length d \<and> length d \<le> 2048) \<and>
     (if flag = 0 then kzalloc_ok A i else \<exists>t. transfer e = Some t \<and> length (list_desc t) = 2)"

lemma inited_lists_ok:
  assumes t: "t' = t\<lparr>desc_virt := map (\<lambda>i. if i < 1024 then desc_inited (desc_bus t) 512 i (desc_virt t ! i) else desc_virt t ! i)
                 [0..<length (desc_virt t)], list_desc := [desc_bus t, desc_addr (desc_bus t) 512]\<rparr>"
    and len: "1024 \<le> length (desc_virt t)" "length (desc_virt t) \<le> 2048" and cl: "current_list t = 0"
  shows "lists_ok t'"
  using inited_linked [of 512 0 "desc_virt t" "desc_bus t"] inited_linked [of 512 1 "desc_virt t" "desc_bus t"] t len cl
  by (simp add: lists_ok_def)

lemma setup_engine_ok:
  assumes "openable A i flag e"
  shows "\<exists>t. setup_engine A i flag e = Some (e\<lparr>transfer := Some t\<rparr>) \<and> lists_ok t \<and> current_list t = 0 \<and> desc_bus t = edesc_bus e"
proof -
  obtain d where d: "edesc e = Some d" "1024 \<le> length d" "length d \<le> 2048" using assms by (auto simp: openable_def)
  obtain t0 where t0: "(if flag = 0 then (if kzalloc_ok A i then Some zero_transfer else None) else transfer e) = Some t0" "length (list_desc t0) = 2"
    using assms by (auto simp: openable_def zero_transfer_def split: if_splits)
  let ?t = "t0\<lparr>tdir := dir e, desc_num := 1024, desc_virt := d, desc_bus := edesc_bus e, current_list := 0\<rparr>"
  obtain t1 where t1: "transfer_desc_init ?t (int (2 * 512)) = Some t1"
      "t1 = ?t\<lparr>desc_virt := map (\<lambda>i. if i < 1024 then desc_inited (edesc_bus e) 512 i (d ! i) else d ! i) [0..<length d],
         list_desc := [edesc_bus e, desc_addr (edesc_bus e) 512]\<rparr>"
    using transfer_desc_init_ok [of 512 ?t] d t0(2) by auto
  have "lists_ok t1" by (rule inited_lists_ok [of _ ?t]) (use t1(2) d in simp_all)
  moreover have "e\<lparr>edesc := Some d, edesc_bus := edesc_bus e\<rparr> = e" using d(1) by (cases e) simp
  ultimately have "setup_engine A i flag e = Some (e\<lparr>transfer := Some (t1\<lparr>cyclic := True, tstate := TRANSFER_STATE_SUBMITTED\<rparr>)\<rparr>) \<and>
      lists_ok (t1\<lparr>cyclic := True, tstate := TRANSFER_STATE_SUBMITTED\<rparr>)"
    using t0(1) t1 d(1) assms
    by (auto simp: setup_engine_def xdma_desc_setup_def Let_def transfer_queue_def openable_def lists_ok_def split: option.split)
  then show ?thesis using t1(2) by auto
qed

subsection \<open>Filling the rings\<close>

definition rx_desc :: "u64 \<Rightarrow> u64 \<Rightarrow> nat \<Rightarrow> xdma_desc \<Rightarrow> xdma_desc" where
  "rx_desc result_bus buf_bus i d = d\<lparr>dst_addr_lo := PCI_DMA_L (buf_bus + of_nat (2048 * i)), dst_addr_hi := PCI_DMA_H (buf_bus + of_nat (2048 * i)),
     src_addr_lo := PCI_DMA_L (result_bus + of_nat (32 * i)), src_addr_hi := PCI_DMA_H (result_bus + of_nat (32 * i)), bytes := word_of_int PKT_BUF_LEN\<rparr>"

definition tx_desc :: "u64 \<Rightarrow> nat \<Rightarrow> xdma_desc \<Rightarrow> xdma_desc" where
  "tx_desc buf_bus i d = d\<lparr>src_addr_lo := PCI_DMA_L (buf_bus + of_nat (2048 * i)), src_addr_hi := PCI_DMA_H (buf_bus + of_nat (2048 * i)),
     bytes := word_of_int PKT_BUF_LEN\<rparr>"

lemma upd_prefix:
  "n < length dv \<Longrightarrow> (map (\<lambda>i. if i < n then f i (dv ! i) else dv ! i) [0..<length dv])[n := f n (dv ! n)] =
     map (\<lambda>i. if i < Suc n then f i (dv ! i) else dv ! i) [0..<length dv]"
  by (intro nth_equalityI) (auto simp: nth_list_update less_Suc_eq)

lemma rx_ring_loop:
  "n \<le> length dv \<Longrightarrow> fold_opt rx_ring_step (dv, rb, bb) [0..<n] =
     Some (map (\<lambda>i. if i < n then rx_desc rb bb i (dv ! i) else dv ! i) [0..<length dv], rb + of_nat (32 * n), bb + of_nat (2048 * n))"
proof (induction n)
  case 0
  then show ?case by (simp add: map_nth)
next
  case (Suc n)
  then show ?case using upd_prefix [of n dv "rx_desc rb bb"]
    by (simp add: fold_opt_append rx_ring_step_def arr_get_def arr_set_def rx_desc_def algebra_simps)
qed

lemma tx_ring_loop:
  "n \<le> length dv \<Longrightarrow> fold_opt tx_ring_step (dv, bb) [0..<n] =
     Some (map (\<lambda>i. if i < n then tx_desc bb i (dv ! i) else dv ! i) [0..<length dv], bb + of_nat (2048 * n))"
proof (induction n)
  case 0
  then show ?case by (simp add: map_nth)
next
  case (Suc n)
  then show ?case using upd_prefix [of n dv "tx_desc bb"]
    by (simp add: fold_opt_append tx_ring_step_def arr_get_def arr_set_def tx_desc_def algebra_simps)
qed

lemma lists_ok_map:
  assumes "lists_ok t" and f: "\<And>i d. next_lo (f i d) = next_lo d \<and> next_hi (f i d) = next_hi d"
  shows "lists_ok (t\<lparr>desc_virt := map (\<lambda>i. if i < n then f i (desc_virt t ! i) else desc_virt t ! i) [0..<length (desc_virt t)]\<rparr>)"
proof -
  have "linked b (map (\<lambda>i. if i < n then f i (dv ! i) else dv ! i) [0..<length dv]) s h" if "linked b dv s h" for b dv s h
    using that f by (auto simp: linked_def desc_next_def)
  then show ?thesis using assms(1) by (auto simp: lists_ok_def)
qed

lemma init_rx_ring_ok:
  assumes "transfer e = Some t" "lists_ok t" "current_list t = 0"
  shows "\<exists>t'. init_rx_ring e = Some (e\<lparr>transfer := Some t'\<rparr>) \<and> lists_ok t' \<and> current_list t' = 0 \<and> desc_bus t' = desc_bus t \<and>
     (\<forall>i<1024. desc_virt t' ! i = rx_desc (cyclic_result_bus e) (rx_buff_bus e) i (desc_virt t ! i))"
proof -
  have len: "1024 \<le> length (desc_virt t)" using assms(2) by (simp add: lists_ok_def)
  let ?t = "t\<lparr>desc_virt := map (\<lambda>i. if i < 1024 then rx_desc (cyclic_result_bus e) (rx_buff_bus e) i (desc_virt t ! i) else desc_virt t ! i)
              [0..<length (desc_virt t)]\<rparr>"
  have "lists_ok ?t" by (rule lists_ok_map [OF assms(2)]) (simp add: rx_desc_def)
  then show ?thesis using assms(1,3) rx_ring_loop [OF len] len by (auto simp: init_rx_ring_def intro!: exI [of _ ?t])
qed

lemma init_tx_ring_ok:
  assumes "transfer e = Some t" "lists_ok t" "current_list t = 0"
  shows "\<exists>t'. init_tx_ring e = Some (e\<lparr>transfer := Some t'\<rparr>) \<and> lists_ok t' \<and> current_list t' = 0 \<and> desc_bus t' = desc_bus t \<and>
     (\<forall>i<1024. desc_virt t' ! i = tx_desc (tx_buff_bus e) i (desc_virt t ! i))"
proof -
  have len: "1024 \<le> length (desc_virt t)" using assms(2) by (simp add: lists_ok_def)
  let ?t = "t\<lparr>desc_virt := map (\<lambda>i. if i < 1024 then tx_desc (tx_buff_bus e) i (desc_virt t ! i) else desc_virt t ! i) [0..<length (desc_virt t)]\<rparr>"
  have "lists_ok ?t" by (rule lists_ok_map [OF assms(2)]) (simp add: tx_desc_def)
  then show ?thesis using assms(1,3) tx_ring_loop [OF len] len by (auto simp: init_tx_ring_def intro!: exI [of _ ?t])
qed

definition macs_ok :: "u8 list list \<Rightarrow> bool" where
  "macs_ok m \<longleftrightarrow> length m = 4 \<and> (\<forall>k<4. length (m ! k) = 6)"

lemma dsa_mac_total:
  "n \<le> 8 \<Longrightarrow> macs_ok m \<Longrightarrow> \<exists>m' l'. fold_opt (dsa_mac_step hw) (m, l) [0..<n] = Some (m', l') \<and> macs_ok m' \<and> io_writes l' = io_writes l"
proof (induction n)
  case 0
  then show ?case by simp
next
  case (Suc n)
  then obtain m' l' where m: "fold_opt (dsa_mac_step hw) (m, l) [0..<n] = Some (m', l')" "macs_ok m'" "io_writes l' = io_writes l"
    by auto
  have k: "n div 2 < 4" using Suc.prems(1) by simp
  then have "\<exists>m'' l''. dsa_mac_step hw (m', l') n = Some (m'', l'') \<and> macs_ok m'' \<and> io_writes l'' = io_writes l'"
    using m(2) by (auto simp: dsa_mac_step_def macs_ok_def Let_def io_simps arr_get_def nth_list_update)
  then show ?case using m by (auto simp: fold_opt_append)
qed

subsection \<open>Opening\<close>

text \<open>The state in which the interface can be opened: all engines stopped, set up and with their buffers.\<close>

definition net_ready :: "net_alloc \<Rightarrow> net_state \<Rightarrow> bool" where
  "net_ready A st \<longleftrightarrow> macs_ok (dsa_mac st) \<and>
     (\<exists>h0 h1. engine_h2c (net_tx st) = [h0, h1] \<and>
       (\<forall>i<2. let e = [h0, h1] ! i in openable A i (xdma_desc_flag st) e \<and> magic e = MAGIC_ENGINE \<and> \<not> running e \<and>
          regs e = 0x100 * int i \<and> sgdma_regs e = regs e + SGDMA_OFFSET_FROM_CHANNEL \<and> (\<exists>bufs. tx_buff e = Some bufs \<and> bufs_ok bufs))) \<and>
     (let e = engine_c2h (net_rx st) in openable A 2 (xdma_desc_flag st) e \<and> \<not> running e \<and>
        (\<exists>rs bufs. cyclic_result e = Some rs \<and> length rs = 1024 \<and> rx_buff e = Some bufs \<and> bufs_ok bufs))"

definition results_clear :: "net_state \<Rightarrow> bool" where
  "results_clear st \<longleftrightarrow> (\<forall>rs. cyclic_result (engine_c2h (net_rx st)) = Some rs \<longrightarrow> (\<forall>r \<in> set rs. \<not> result_ready r))"

text \<open>The DMA addresses of a descriptor.\<close>

definition desc_src :: "xdma_desc \<Rightarrow> u64" where "desc_src d = join64 (src_addr_hi d) (src_addr_lo d)"
definition desc_dst :: "xdma_desc \<Rightarrow> u64" where "desc_dst d = join64 (dst_addr_hi d) (dst_addr_lo d)"

lemma desc_addrs [simp]:
  "desc_src (rx_desc rb bb i d) = rb + of_nat (32 * i)" "desc_dst (rx_desc rb bb i d) = bb + of_nat (2048 * i)"
  "desc_src (tx_desc bb i d) = bb + of_nat (2048 * i)" "bytes (rx_desc rb bb i d) = 2048" "bytes (tx_desc bb i d) = 2048"
  unfolding desc_src_def desc_dst_def rx_desc_def tx_desc_def by (simp_all del: of_nat_mult)

text \<open>What \<open>ax_net_open\<close> makes of an engine: two fresh lists, starting with the first, on the engine's own buffers.\<close>

definition opened :: "(nat \<Rightarrow> xdma_desc \<Rightarrow> bool) \<Rightarrow> xdma_engine \<Rightarrow> xdma_engine \<Rightarrow> bool" where
  "opened D e e' \<longleftrightarrow> (\<exists>t. e' = e\<lparr>transfer := Some t\<rparr> \<and> lists_ok t \<and> current_list t = 0 \<and> desc_bus t = edesc_bus e \<and> (\<forall>i<1024. D i (desc_virt t ! i)))"

lemma open_tx_engine:
  assumes "openable A i flag e"
  shows "\<exists>e1 e2. setup_engine A i flag e = Some e1 \<and> init_tx_ring e1 = Some e2 \<and>
     opened (\<lambda>i d. desc_src d = tx_buff_bus e + of_nat (2048 * i)) e e2"
proof -
  obtain t where t: "setup_engine A i flag e = Some (e\<lparr>transfer := Some t\<rparr>)" "lists_ok t" "current_list t = 0" "desc_bus t = edesc_bus e"
    using setup_engine_ok [OF assms] by blast
  obtain t' where t': "init_tx_ring (e\<lparr>transfer := Some t\<rparr>) = Some (e\<lparr>transfer := Some t'\<rparr>)" "lists_ok t'" "current_list t' = 0" "desc_bus t' = edesc_bus e"
      "\<forall>i<1024. desc_virt t' ! i = tx_desc (tx_buff_bus e) i (desc_virt t ! i)"
    using init_tx_ring_ok [of "e\<lparr>transfer := Some t\<rparr>" t] t(2-4) by auto
  have "opened (\<lambda>i d. desc_src d = tx_buff_bus e + of_nat (2048 * i)) e (e\<lparr>transfer := Some t'\<rparr>)"
    unfolding opened_def by (intro exI [of _ t'] conjI allI impI refl t'(2-4)) (use t'(5) in \<open>simp only: desc_addrs\<close>)
  with t(1) t'(1) show ?thesis by blast
qed

lemma open_rx_engine:
  assumes "openable A i flag e"
  shows "\<exists>e1 e2. setup_engine A i flag e = Some e1 \<and> init_rx_ring e1 = Some e2 \<and>
     opened (\<lambda>i d. desc_src d = cyclic_result_bus e + of_nat (32 * i) \<and> desc_dst d = rx_buff_bus e + of_nat (2048 * i) \<and> bytes d = 2048) e e2"
proof -
  obtain t where t: "setup_engine A i flag e = Some (e\<lparr>transfer := Some t\<rparr>)" "lists_ok t" "current_list t = 0" "desc_bus t = edesc_bus e"
    using setup_engine_ok [OF assms] by blast
  obtain t' where t': "init_rx_ring (e\<lparr>transfer := Some t\<rparr>) = Some (e\<lparr>transfer := Some t'\<rparr>)" "lists_ok t'" "current_list t' = 0" "desc_bus t' = edesc_bus e"
      "\<forall>i<1024. desc_virt t' ! i = rx_desc (cyclic_result_bus e) (rx_buff_bus e) i (desc_virt t ! i)"
    using init_rx_ring_ok [of "e\<lparr>transfer := Some t\<rparr>" t] t(2-4) by auto
  have "opened (\<lambda>i d. desc_src d = cyclic_result_bus e + of_nat (32 * i) \<and> desc_dst d = rx_buff_bus e + of_nat (2048 * i) \<and> bytes d = 2048) e
      (e\<lparr>transfer := Some t'\<rparr>)"
    unfolding opened_def by (intro exI [of _ t'] conjI allI impI refl t'(2-4)) (use t'(5) in \<open>simp_all only: desc_addrs\<close>)
  with t(1) t'(1) show ?thesis by blast
qed

lemma opened_chan_inv:
  assumes "opened D e e'" "magic e = MAGIC_ENGINE" "\<not> running e" "sgdma_regs e = regs e + SGDMA_OFFSET_FROM_CHANNEL" "tx_buff e = Some bufs" "bufs_ok bufs"
  shows "chan_inv \<lparr>idle = True, cur = 0, cur_pkt_count = 0\<rparr> e'"
  using assms by (auto simp: opened_def chan_inv_def eng_ok_def list_base_def)

lemma opened_start:
  assumes "opened D e e'" "\<not> running e"
  shows "engine_start hw e' l = Some (e'\<lparr>shutdown := 0, desc_dequeued := 0, running := True\<rparr>, start_log e (edesc_bus e) l)"
proof -
  obtain t where t: "e' = e\<lparr>transfer := Some t\<rparr>" "lists_ok t" "current_list t = 0" "desc_bus t = edesc_bus e"
    using assms(1) by (auto simp: opened_def)
  with engine_start_ok [of e' t hw l] assms(2) show ?thesis by (simp add: start_log_def)
qed

lemma ax_net_open_eval:
  assumes h: "engine_h2c (net_tx st) = [h0, h1]"
    and s: "setup_engine A 0 (xdma_desc_flag st) h0 = Some a0" "setup_engine A 1 (xdma_desc_flag st) h1 = Some a1"
      "setup_engine A 2 (xdma_desc_flag st) (engine_c2h (net_rx st)) = Some c0"
    and r: "init_rx_ring c0 = Some c1" "init_tx_ring a0 = Some b0" "init_tx_ring a1 = Some b1"
    and m: "fold_opt (dsa_mac_step hw) (dsa_mac st, l) [0..<8] = Some (macs, l1)"
    and g: "engine_start hw c1 (iowrite32 AX_PLINK (0, GLOBAL_MAC_CONFIG) l1) = Some (c2, l2)"
  shows "ax_net_open A hw st l = Some (0,
     st\<lparr>net_tx := (net_tx st)\<lparr>engine_h2c := [b0, b1], tx_list := replicate 2 \<lparr>idle = True, cur = 0, cur_pkt_count = 0\<rparr>, tx_timestamp := [], queue_stopped := False\<rparr>,
        net_rx := (net_rx st)\<lparr>engine_c2h := c2, cur_rx := 0, cur_rx_pkt_count := 0, napi_scheduled := False\<rparr>,
        xdma_desc_flag := (if xdma_desc_flag st = 0 then 1 else xdma_desc_flag st), net_running := True, dsa_mac := macs\<rparr>, l2)"
  using assms by (simp add: ax_net_open_def ax_net_init_ring_def ax_get_dsa_mac_def Let_def arr_get_def)

lemma open_ok:
  assumes rdy: "net_ready A st"
  shows "\<exists>st' l' c. ax_net_open A hw st l = Some (0, st', l') \<and> tx_init (net_tx st') \<and> (results_clear st \<longrightarrow> rx_inv (net_rx st') 0) \<and>
     (\<forall>ch<2. opened (\<lambda>i d. desc_src d = tx_buff_bus (engine_h2c (net_tx st) ! ch) + of_nat (2048 * i))
        (engine_h2c (net_tx st) ! ch) (engine_h2c (net_tx st') ! ch)) \<and>
     opened (\<lambda>i d. desc_src d = cyclic_result_bus (engine_c2h (net_rx st)) + of_nat (32 * i) \<and>
        desc_dst d = rx_buff_bus (engine_c2h (net_rx st)) + of_nat (2048 * i) \<and> bytes d = 2048) (engine_c2h (net_rx st)) c \<and>
     engine_c2h (net_rx st') = c\<lparr>shutdown := 0, desc_dequeued := 0, running := True\<rparr> \<and>
     (\<exists>l1. l' = start_log (engine_c2h (net_rx st)) (edesc_bus (engine_c2h (net_rx st))) l1) \<and>
     tx_timestamp (net_tx st') = [] \<and> net_running st' \<and> cur_rx (net_rx st') = 0"
proof -
  let ?f = "xdma_desc_flag st" and ?c = "engine_c2h (net_rx st)"
  obtain h0 h1 where h: "engine_h2c (net_tx st) = [h0, h1]" and
    hs: "\<And>i. i < 2 \<Longrightarrow> let e = [h0, h1] ! i in openable A i ?f e \<and> magic e = MAGIC_ENGINE \<and> \<not> running e \<and>
          regs e = 0x100 * int i \<and> sgdma_regs e = regs e + SGDMA_OFFSET_FROM_CHANNEL \<and> (\<exists>bufs. tx_buff e = Some bufs \<and> bufs_ok bufs)"
    using rdy by (auto simp: net_ready_def)
  have c: "openable A 2 ?f ?c" "\<not> running ?c" and macs: "macs_ok (dsa_mac st)"
    and ring: "\<exists>rs bufs. cyclic_result ?c = Some rs \<and> length rs = 1024 \<and> rx_buff ?c = Some bufs \<and> bufs_ok bufs"
    using rdy by (simp_all add: net_ready_def Let_def)
  note h0 = hs [of 0, simplified] and h1 = hs [of 1, simplified]
  obtain a0 b0 where e0: "setup_engine A 0 ?f h0 = Some a0" "init_tx_ring a0 = Some b0" "opened (\<lambda>i d. desc_src d = tx_buff_bus h0 + of_nat (2048 * i)) h0 b0"
    using open_tx_engine [of A 0 ?f h0] h0 by (auto simp: Let_def)
  obtain a1 b1 where e1: "setup_engine A 1 ?f h1 = Some a1" "init_tx_ring a1 = Some b1" "opened (\<lambda>i d. desc_src d = tx_buff_bus h1 + of_nat (2048 * i)) h1 b1"
    using open_tx_engine [of A 1 ?f h1] h1 by (auto simp: Let_def)
  obtain c0 c1 where ec: "setup_engine A 2 ?f ?c = Some c0" "init_rx_ring c0 = Some c1"
      "opened (\<lambda>i d. desc_src d = cyclic_result_bus ?c + of_nat (32 * i) \<and> desc_dst d = rx_buff_bus ?c + of_nat (2048 * i) \<and> bytes d = 2048) ?c c1"
    using open_rx_engine [OF c(1)] by blast
  obtain ms l1 where m: "fold_opt (dsa_mac_step hw) (dsa_mac st, l) [0..<8] = Some (ms, l1)" using dsa_mac_total [OF order_refl macs] by blast
  note ev = ax_net_open_eval [OF h e0(1) e1(1) ec(1,2) e0(2) e1(2) m opened_start [OF ec(3) c(2)]]
  have inv0: "chan_inv \<lparr>idle = True, cur = 0, cur_pkt_count = 0\<rparr> b0" and inv1: "chan_inv \<lparr>idle = True, cur = 0, cur_pkt_count = 0\<rparr> b1"
    using opened_chan_inv [OF e0(3)] opened_chan_inv [OF e1(3)] h0 h1 by (auto simp: Let_def)
  have rg: "regs b0 = 0" "regs b1 = 0x100" using e0(3) e1(3) h0 h1 by (auto simp: opened_def Let_def)
  have same: "cyclic_result c1 = cyclic_result ?c" "rx_buff c1 = rx_buff ?c" using ec(3) by (auto simp: opened_def)
  show ?thesis
    apply (rule exI, rule exI, rule exI [of _ c1], intro conjI, rule ev)
    subgoal using inv0 inv1 rg by (auto simp: tx_init_def tx_inv_def less_2_cases_iff)
    subgoal using ring same by (fastforce simp: results_clear_def rx_inv_def)
    subgoal using e0(3) e1(3) h by (auto simp: less_2_cases_iff simp del: of_nat_mult)
    subgoal by (rule ec(3))
    by auto
qed

text \<open>
  Opening does not clear the result ring: a completion left from before the interface was closed is
  taken for a new frame.
\<close>

lemma reopen_keeps_stale_results:
  assumes rdy: "net_ready A st" and stale: "cyclic_result (engine_c2h (net_rx st)) = Some rs" "result_ready (rs ! 0)"
  shows "\<exists>st' l'. ax_net_open A hw st l = Some (0, st', l') \<and> \<not> rx_inv (net_rx st') 0 \<and> cyclic_result (engine_c2h (net_rx st')) = Some rs"
proof -
  obtain st' l' c where o: "ax_net_open A hw st l = Some (0, st', l')" "cur_rx (net_rx st') = 0"
      "engine_c2h (net_rx st') = c\<lparr>shutdown := 0, desc_dequeued := 0, running := True\<rparr>" "cyclic_result c = cyclic_result (engine_c2h (net_rx st))"
    using open_ok [OF rdy, of hw l] by (auto simp: opened_def)
  then have "cyclic_result (engine_c2h (net_rx st')) = Some rs" using stale by simp
  moreover from this have "\<not> rx_inv (net_rx st') 0" using stale(2) o(2) by (auto simp: rx_inv_def slot_def intro!: exI [of _ 0])
  ultimately show ?thesis using o(1) by blast
qed

subsection \<open>The hash filter\<close>

text \<open>The hash of an address: the six top bits of its CRC.\<close>

definition hash6 :: "(u8 list \<Rightarrow> u32) \<Rightarrow> u8 list \<Rightarrow> nat" where
  "hash6 crc a = unat (drop_bit 26 (crc a))"

lemma hash6_parts:
  "unat (drop_bit 29 (crc a)) = hash6 crc a div 8" "unat (drop_bit 26 (crc a) AND 7) = hash6 crc a mod 8" "hash6 crc a < 64"
proof -
  have "unat (drop_bit 3 x) = unat x div 8" for x :: u32 by (subst unat_drop_bit_eq) (simp add: drop_bit_eq_div)
  from this [of "drop_bit 26 (crc a)"] show "unat (drop_bit 29 (crc a)) = hash6 crc a div 8" by (simp add: hash6_def)
  have "(7 :: u32) = mask 3" by (simp add: mask_eq_exp_minus_1)
  then show "unat (drop_bit 26 (crc a) AND 7) = hash6 crc a mod 8"
    unfolding hash6_def by (simp only: take_bit_eq_mask [symmetric] unsigned_take_bit_eq) (simp add: take_bit_eq_mod)
  have "unat (crc a) < 2 ^ 32" using unsigned_less [of "crc a"] by simp
  then show "hash6 crc a < 64" unfolding hash6_def by (subst unat_drop_bit_eq) (simp add: drop_bit_eq_div less_mult_imp_div_less)
qed

lemma filter_add_ok:
  assumes "length f = 8"
  shows "\<exists>f'. filter_add crc f a = Some f' \<and> length f' = 8 \<and>
     (\<forall>i<8. \<forall>b<8. bit (f' ! i) b \<longleftrightarrow> bit (f ! i) b \<or> hash6 crc a = 8 * i + b)"
proof -
  let ?i = "hash6 crc a div 8" and ?b = "hash6 crc a mod 8"
  have i: "?i < 8" using hash6_parts(3) [of crc a] by simp
  have "filter_add crc f a = Some (f[?i := f ! ?i OR push_bit ?b 1])"
    using i assms by (simp add: filter_add_def Let_def hash6_parts(1,2) arr_get_def arr_set_def)
  moreover have "bit (f[?i := f ! ?i OR push_bit ?b 1] ! i) b \<longleftrightarrow> bit (f ! i) b \<or> hash6 crc a = 8 * i + b" if "i < 8" "b < 8" for i b
  proof -
    have "hash6 crc a = 8 * i + b \<longleftrightarrow> i = ?i \<and> b = ?b" using that(2) by auto
    then show ?thesis using that assms i by (auto simp: nth_list_update bit_simps)
  qed
  ultimately show ?thesis using assms by auto
qed

lemma filter_loop:
  "length f = 8 \<Longrightarrow> \<exists>f'. fold_opt (filter_add crc) f mc = Some f' \<and> length f' = 8 \<and>
     (\<forall>i<8. \<forall>b<8. bit (f' ! i) b \<longleftrightarrow> bit (f ! i) b \<or> (\<exists>a \<in> set mc. hash6 crc a = 8 * i + b))"
proof (induction mc arbitrary: f)
  case (Cons a mc)
  obtain f1 where f1: "filter_add crc f a = Some f1" "length f1 = 8"
     "\<forall>i<8. \<forall>b<8. bit (f1 ! i) b \<longleftrightarrow> bit (f ! i) b \<or> hash6 crc a = 8 * i + b"
    using filter_add_ok [OF Cons.prems] by blast
  with Cons.IH [OF f1(2)] show ?case by auto
qed simp

lemma bit_le32: "k < 32 \<Longrightarrow> bit (le32 bs) k \<longleftrightarrow> bit (bs ! (k div 8)) (k mod 8)"
proof -
  assume k: "k < 32"
  consider "k < 8" | "8 \<le> k" "k < 16" | "16 \<le> k" "k < 24" | "24 \<le> k" by linarith
  then show ?thesis
  proof cases
    case 1
    then show ?thesis by (simp add: le32_def bit_simps)
  next
    case 2
    then have "k div 8 = 1" "k mod 8 = k - 8" by (simp_all add: div_nat_eqI mod_if)
    with 2 k show ?thesis by (auto simp add: le32_def bit_simps dest: bit_imp_le_length)
  next
    case 3
    then have "k div 8 = 2" "k mod 8 = k - 16" by (simp_all add: div_nat_eqI mod_if)
    with 3 k show ?thesis by (auto simp add: le32_def bit_simps dest: bit_imp_le_length)
  next
    case 4
    then have "k div 8 = 3" "k mod 8 = k - 24" using k by (simp_all add: div_nat_eqI mod_if)
    with 4 k show ?thesis by (auto simp add: le32_def bit_simps dest: bit_imp_le_length)
  qed
qed

subsection \<open>Properties\<close>

text \<open>
  Opening the interface puts both data paths into their initial states: on stopped engines with
  their memory, \<open>ax_net_open\<close> succeeds; both transmit channels are idle with two well-formed lists and an
  empty queue; every transmit descriptor points to its own 2048-byte packet buffer; every receive
  descriptor points to its own packet buffer and its own result slot; and the receive engine is
  started on its first list. If the result ring carries no completion mark, the ring is empty.
\<close>

theorem open_initialises_paths:
  assumes rdy: "net_ready A st"
  shows "\<exists>st' l' c. ax_net_open A hw st l = Some (0, st', l') \<and> tx_init (net_tx st') \<and> (results_clear st \<longrightarrow> rx_inv (net_rx st') 0) \<and>
     (\<forall>ch<2. opened (\<lambda>i d. desc_src d = tx_buff_bus (engine_h2c (net_tx st) ! ch) + of_nat (2048 * i))
        (engine_h2c (net_tx st) ! ch) (engine_h2c (net_tx st') ! ch)) \<and>
     opened (\<lambda>i d. desc_src d = cyclic_result_bus (engine_c2h (net_rx st)) + of_nat (32 * i) \<and>
        desc_dst d = rx_buff_bus (engine_c2h (net_rx st)) + of_nat (2048 * i) \<and> bytes d = 2048) (engine_c2h (net_rx st)) c \<and>
     engine_c2h (net_rx st') = c\<lparr>shutdown := 0, desc_dequeued := 0, running := True\<rparr> \<and>
     (\<exists>l1. l' = start_log (engine_c2h (net_rx st)) (edesc_bus (engine_c2h (net_rx st))) l1) \<and>
     tx_timestamp (net_tx st') = [] \<and> net_running st'"
  using open_ok [OF rdy, of hw l] by blast

definition sample_engine_at :: "nat \<Rightarrow> xdma_engine" where
  "sample_engine_at i = (sample_tx_engine i)\<lparr>transfer := None, edesc := Some (replicate 1024 sample_desc),
     cyclic_result := Some (replicate 1024 \<lparr>res_status = 0, res_length = 0\<rparr>), rx_buff := Some (replicate 1024 (replicate 2048 0))\<rparr>"

definition sample_net :: net_state where
  "sample_net = \<lparr>net_tx = sample_tx_state\<lparr>engine_h2c := [sample_engine_at 0, sample_engine_at 1]\<rparr>,
     net_rx = sample_rx_state\<lparr>engine_c2h := (sample_engine_at 0)\<lparr>dir := DMA_FROM_DEVICE, regs := 0x1000, sgdma_regs := 0x5000\<rparr>\<rparr>,
     xdma_desc_flag = 0, net_running = False, dsa_mac = replicate 4 (replicate 6 0), dev_addr = [2, 0, 0, 0, 0, 1]\<rparr>"

definition sample_alloc :: net_alloc where
  "sample_alloc = \<lparr>kzalloc_ok = \<lambda>i. True, dma_coherent = \<lambda>i n. None, dev_offline = False\<rparr>"

lemma sample_net_ready: "net_ready sample_alloc sample_net" "results_clear sample_net"
  by (auto simp: net_ready_def results_clear_def sample_net_def sample_alloc_def sample_engine_at_def sample_tx_engine_def sample_tx_state_def
        sample_rx_state_def openable_def macs_ok_def bufs_ok_def result_ready_def less_2_cases_iff Let_def)

theorem open_initialises_paths_witness:
  "\<exists>st' l'. ax_net_open sample_alloc (\<lambda>l a. 0) sample_net [] = Some (0, st', l') \<and> tx_init (net_tx st') \<and> rx_inv (net_rx st') 0"
  using open_initialises_paths [OF sample_net_ready(1), of "\<lambda>l a. 0" "[]"] sample_net_ready(2) by blast

text \<open>
  C24. The multicast filter is exact: for one to 64 addresses the two filter registers are written
  with bit \<open>k\<close> of the 64-bit array set exactly when the hash of one of the addresses is \<open>k\<close>, no byte
  outside the filter is touched, and only then is filtering enabled, together with broadcasts.
\<close>

theorem multicast_filter_exact:
  assumes mc: "mc \<noteq> []" "length mc \<le> 64"
  shows "\<exists>w0 w1. ax_net_set_multicast crc False False mc l =
       Some (WR (0, RX_CTRL) 6 # WR (0, MULTI_FILTER_ARR_1) w1 # WR (0, MULTI_FILTER_ARR_0) w0 # l) \<and>
     (\<forall>k<64. bit (if k < 32 then w0 else w1) (k mod 32) \<longleftrightarrow> (\<exists>a \<in> set mc. unat (drop_bit 26 (crc a)) = k))"
proof -
  obtain f where f: "fold_opt (filter_add crc) (replicate 8 0) mc = Some f" "length f = 8"
      "\<And>i b. i < 8 \<Longrightarrow> b < 8 \<Longrightarrow> bit (f ! i) b \<longleftrightarrow> (\<exists>a \<in> set mc. hash6 crc a = 8 * i + b)"
    using filter_loop [of "replicate 8 0" crc mc] by auto
  have "bit (if k < 32 then le32 f else le32 (drop 4 f)) (k mod 32) \<longleftrightarrow> (\<exists>a \<in> set mc. hash6 crc a = k)" if "k < 64" for k
  proof (cases "k < 32")
    case True
    have "8 * (k div 8) + k mod 8 = k" by simp
    with True f(3) [of "k div 8" "k mod 8"] show ?thesis by (simp add: bit_le32)
  next
    case False
    then have m: "k mod 32 = k - 32" using that by (simp add: mod_if)
    have q: "4 + (k - 32) div 8 = k div 8" "(k - 32) mod 8 = k mod 8" using False by (simp_all add: mod_if le_div_geq)
    have e: "8 * (k div 8) + k mod 8 = k" by simp
    have "bit (le32 (drop 4 f)) (k - 32) \<longleftrightarrow> bit (f ! (k div 8)) (k mod 8)"
      using that False f(2) by (simp add: bit_le32 q nth_drop)
    with False m that f(3) [of "k div 8" "k mod 8"] e show ?thesis by simp
  qed
  then show ?thesis using f(1) mc by (auto simp: ax_net_set_multicast_def Let_def io_simps hash6_def)
qed

theorem multicast_filter_exact_witness:
  "\<exists>w0 w1. ax_net_set_multicast (\<lambda>a. 0xFC000000) False False [[1, 0, 94, 0, 0, 1]] [] =
       Some [WR (0, RX_CTRL) 6, WR (0, MULTI_FILTER_ARR_1) w1, WR (0, MULTI_FILTER_ARR_0) w0] \<and> bit w1 31 \<and> \<not> bit w0 0"
proof -
  obtain w0 w1 where w: "ax_net_set_multicast (\<lambda>a. 0xFC000000) False False [[1, 0, 94, 0, 0, 1]] [] =
       Some (WR (0, RX_CTRL) 6 # WR (0, MULTI_FILTER_ARR_1) w1 # WR (0, MULTI_FILTER_ARR_0) w0 # [])"
     "\<forall>k<64. bit (if k < 32 then w0 else w1) (k mod 32) \<longleftrightarrow> (\<exists>a \<in> set [[1, 0, 94, 0, 0, 1]]. unat (drop_bit 26 (0xFC000000 :: u32)) = k)"
    using multicast_filter_exact [of "[[1, 0, 94, 0, 0, 1]]" "\<lambda>a. 0xFC000000" "[]"] by auto
  have "unat (drop_bit 26 (0xFC000000 :: u32)) = 63" by code_simp
  with w(2) [rule_format, of 63] w(2) [rule_format, of 0] w(1) show ?thesis by auto
qed

end
