(* ===== verification/Ioctl.thy ===== *)
theory Ioctl
  imports Net_Dev
begin

section \<open>The ioctl interface\<close>

text \<open>
  The private and the timestamping ioctls of the net device (\<open>xdma_mod.c\<close>, \<open>ioctl.h\<close>). A request is
  what \<open>copy_from_user\<close> delivers (\<open>None\<close> when it fails); \<open>ctu\<close> says whether \<open>copy_to_user\<close> succeeds. The
  result is the return value, what was copied back to the user (if anything), and the new state.
  The union of the command data is its 20 bytes. The size of each mapped BAR is a parameter; an
  access outside the window, a read of the function table behind its end and a FIFO that never
  becomes empty (the loop of \<open>ioctl_clean_FIFO\<close> runs out of fuel) are \<open>None\<close>.
\<close>

subsection \<open>Data\<close>

record ioctl_cmd =
  Gid :: "u8 list"
  Opcode :: u64
  Status :: int
  CmdData :: "u8 list"

record io_env =
  io_hw :: device
  io_fuel :: nat
  bar_size :: "int \<Rightarrow> int"
  phy_bar :: "int \<Rightarrow> u64"

abbreviation (input) AX_STATUS_SUCCESS_IOCTL :: int where "AX_STATUS_SUCCESS_IOCTL \<equiv> 0"
abbreviation (input) AX_STATUS_FAILURE :: int where "AX_STATUS_FAILURE \<equiv> -1"
abbreviation (input) AX_STATUS_NOT_SUPPORT :: int where "AX_STATUS_NOT_SUPPORT \<equiv> -2"
abbreviation (input) AX_IOCTL_CLEAN_FIFO :: u64 where "AX_IOCTL_CLEAN_FIFO \<equiv> 5"

definition ASIX_GID :: "u8 list" where
  "ASIX_GID = [65, 83, 73, 88, 88, 73, 83, 65]"

text \<open>Little-endian fields of the command data.\<close>

fun le_get :: "u8 list \<Rightarrow> nat" where
  "le_get [] = 0"
| "le_get (b # bs) = unat b + 256 * le_get bs"

fun le_put :: "nat \<Rightarrow> nat \<Rightarrow> u8 list" where
  "le_put 0 v = []"
| "le_put (Suc n) v = of_nat v # le_put n (v div 256)"

definition field :: "nat \<Rightarrow> nat \<Rightarrow> u8 list \<Rightarrow> nat" where
  "field off n bs = le_get (take n (drop off bs))"

definition set_field :: "nat \<Rightarrow> nat \<Rightarrow> nat \<Rightarrow> u8 list \<Rightarrow> u8 list" where
  "set_field off n v bs = take off bs @ le_put n v @ drop (off + n) bs"

text \<open>\<open>AX_MEM_REG\<close>: offset, value, bar; \<open>AX_BAR_BASE\<close>: address, bar (packed).\<close>

definition mem_offset :: "u8 list \<Rightarrow> nat" where "mem_offset bs = field 0 8 bs"
definition mem_value :: "u8 list \<Rightarrow> nat" where "mem_value bs = field 8 8 bs"
definition mem_bar :: "u8 list \<Rightarrow> nat" where "mem_bar bs = field 16 4 bs"
definition base_bar :: "u8 list \<Rightarrow> nat" where "base_bar bs = field 8 4 bs"

subsection \<open>The command handlers\<close>

definition ioctl_signature :: "ioctl_cmd \<Rightarrow> ioctl_cmd" where
  "ioctl_signature c = c\<lparr>Gid := ASIX_GID, Status := AX_STATUS_SUCCESS_IOCTL\<rparr>"

definition ioctl_read_reg :: "io_env \<Rightarrow> ioctl_cmd \<Rightarrow> io_log \<Rightarrow> (ioctl_cmd \<times> io_log) option" where
  "ioctl_read_reg E c l =
     (let c = c\<lparr>Status := AX_STATUS_SUCCESS_IOCTL\<rparr>; b = int (mem_bar (CmdData c)); off = int (mem_offset (CmdData c)) in
      if b = 0 \<or> b = 1 \<or> b = 2 then
        (if off + 4 \<le> bar_size E b then
           (let (v, l) = ioread32 (io_hw E) (b, off) l in Some (c\<lparr>CmdData := set_field 8 8 (unat v) (CmdData c)\<rparr>, l))
         else None)
      else Some (c\<lparr>Status := AX_STATUS_FAILURE\<rparr>, l))"

definition ioctl_write_reg :: "io_env \<Rightarrow> ioctl_cmd \<Rightarrow> net_state \<Rightarrow> io_log \<Rightarrow> (ioctl_cmd \<times> net_state \<times> io_log) option" where
  "ioctl_write_reg E c st l =
     (let c = c\<lparr>Status := AX_STATUS_SUCCESS_IOCTL\<rparr>; b = int (mem_bar (CmdData c)); off = int (mem_offset (CmdData c)) in
      if b = 0 \<or> b = 1 \<or> b = 2 then
        (if off + 4 \<le> bar_size E b then
           (let l = iowrite32 (of_nat (mem_value (CmdData c))) (b, off) l in
            if b = 2 \<and> (word_of_int off :: u64) AND 0x0F00 = word_of_int DSA_OFFSET
            then map_option (\<lambda>(st, l). (c, st, l)) (ax_get_dsa_mac (io_hw E) st l)
            else Some (c, st, l))
         else None)
      else Some (c\<lparr>Status := AX_STATUS_FAILURE\<rparr>, st, l))"

definition ioctl_get_bar_base_addr :: "io_env \<Rightarrow> ioctl_cmd \<Rightarrow> ioctl_cmd" where
  "ioctl_get_bar_base_addr E c =
     (let c = c\<lparr>Status := AX_STATUS_SUCCESS_IOCTL\<rparr>;
          c = c\<lparr>CmdData := set_field 0 8 0xFFFFFFFF (CmdData c)\<rparr>;
          b = int (base_bar (CmdData c))
      in if b = 0 \<or> b = 1 \<or> b = 2 then c\<lparr>CmdData := set_field 0 8 (unat (phy_bar E b)) (CmdData c)\<rparr>
         else c\<lparr>Status := AX_STATUS_FAILURE\<rparr>)"

fun clean_fifo_loop :: "nat \<Rightarrow> device \<Rightarrow> io_log \<Rightarrow> io_log option" where
  "clean_fifo_loop 0 hw l = None"
| "clean_fifo_loop (Suc fuel) hw l =
     (let (ctrl, l) = ioread32 hw (2, PTP_TIMESTAMP_CTRL) l in
      if ctrl AND 1 \<noteq> 0 then (let (_, l) = ioread32 hw (2, PTP_RX_MESSAGE_INFO) l in clean_fifo_loop fuel hw l)
      else Some l)"

definition ioctl_clean_FIFO :: "io_env \<Rightarrow> ioctl_cmd \<Rightarrow> io_log \<Rightarrow> (ioctl_cmd \<times> io_log) option" where
  "ioctl_clean_FIFO E c l =
     map_option (\<lambda>l. (c\<lparr>Status := AX_STATUS_SUCCESS_IOCTL\<rparr>, l)) (clean_fifo_loop (io_fuel E) (io_hw E) l)"

datatype ioctl_fun = F_signature | F_read_reg | F_write_reg | F_get_bar_base_addr | F_clean_FIFO

definition ioctl_fun_table :: "ioctl_fun list" where
  "ioctl_fun_table = [F_signature, F_read_reg, F_write_reg, F_get_bar_base_addr, F_clean_FIFO]"

definition call_ioctl_fun :: "ioctl_fun \<Rightarrow> io_env \<Rightarrow> ioctl_cmd \<Rightarrow> net_state \<Rightarrow> io_log \<Rightarrow> (ioctl_cmd \<times> net_state \<times> io_log) option" where
  "call_ioctl_fun f E c st l =
     (case f of
        F_signature \<Rightarrow> Some (ioctl_signature c, st, l)
      | F_read_reg \<Rightarrow> map_option (\<lambda>(c, l). (c, st, l)) (ioctl_read_reg E c l)
      | F_write_reg \<Rightarrow> ioctl_write_reg E c st l
      | F_get_bar_base_addr \<Rightarrow> Some (ioctl_get_bar_base_addr E c, st, l)
      | F_clean_FIFO \<Rightarrow> map_option (\<lambda>(c, l). (c, st, l)) (ioctl_clean_FIFO E c l))"

subsection \<open>Timestamps and modes\<close>

record ioctl_timestamp_data =
  it_port_id :: u8
  it_msg_type :: u8
  it_seq_id :: u16
  it_domain_number :: u8
  it_timestamp :: u64

text \<open>\<open>n\<close> domains are left, \<open>i\<close> is the next; the result is \<open>domain_index\<close>, -1 when there is none.\<close>

fun domain_search :: "int list \<Rightarrow> u8 \<Rightarrow> nat \<Rightarrow> nat \<Rightarrow> int option" where
  "domain_search table dn 0 i = Some (-1)"
| "domain_search table dn (Suc n) i =
     (case arr_get table (int i) of
        None \<Rightarrow> None
      | Some d \<Rightarrow> if uint dn = d then Some (int i + 1) else domain_search table dn n (Suc i))"

text \<open>The two ioctls differ in the queue they search. \<open>ts_d\<close> is the uninitialised local variable.\<close>

definition get_sync_timestamp :: "ts_queue \<Rightarrow> ax_switch \<Rightarrow> capture_data \<Rightarrow> ioctl_timestamp_data option \<Rightarrow> bool \<Rightarrow>
    (int \<times> ioctl_timestamp_data option) option" where
  "get_sync_timestamp q sw ts_d cfu ctu =
     (case cfu of
        None \<Rightarrow> Some (-1, None)
      | Some d \<Rightarrow>
          (let ts_d = ts_d\<lparr>port_id := it_port_id d, msg_type := it_msg_type d, sequence_id := it_seq_id d, domain_number := it_domain_number d\<rparr>
           in case ax_tsq_find_item_1 q ts_d of
                None \<Rightarrow> None
              | Some (rc, ts_d) \<Rightarrow>
                  if rc < 0 then Some (-1, None)
                  else
                    (case domain_search (domain_number_map sw) (domain_number ts_d) (nat (number_of_domains sw)) 0 of
                       None \<Rightarrow> None
                     | Some dix \<Rightarrow>
                         if dix = -1 then Some (-1, None)
                         else
                           (case (arr_get (timestamp_h ts_d) dix, arr_get (timestamp_l ts_d) dix) of
                              (Some h, Some lo) \<Rightarrow>
                                (let d = d\<lparr>it_timestamp := ucast h * NS_PER_SEC + ucast lo\<rparr>
                                 in if ctu then Some (0, Some d) else Some (-1, None))
                            | _ \<Rightarrow> None))))"

definition ax_get_sync_tx_timestamp :: "ax_switch \<Rightarrow> capture_data \<Rightarrow> ioctl_timestamp_data option \<Rightarrow> bool \<Rightarrow> (int \<times> ioctl_timestamp_data option) option" where
  "ax_get_sync_tx_timestamp sw = get_sync_timestamp (tx_queue sw) sw"

definition ax_get_sync_rx_timestamp :: "ax_switch \<Rightarrow> capture_data \<Rightarrow> ioctl_timestamp_data option \<Rightarrow> bool \<Rightarrow> (int \<times> ioctl_timestamp_data option) option" where
  "ax_get_sync_rx_timestamp sw = get_sync_timestamp (rx_queue sw) sw"

definition ax_set_domain_number_table :: "int list option \<Rightarrow> ax_switch \<Rightarrow> int \<times> ax_switch" where
  "ax_set_domain_number_table cfu sw = (case cfu of None \<Rightarrow> (-1, sw) | Some t \<Rightarrow> (0, sw\<lparr>domain_number_map := t\<rparr>))"

definition ax_gptp_set_ptp_mode :: "int option \<Rightarrow> ax_switch \<Rightarrow> int \<times> ax_switch" where
  "ax_gptp_set_ptp_mode cfu sw = (case cfu of None \<Rightarrow> (-1, sw) | Some m \<Rightarrow> (0, sw\<lparr>ptp_mode := m\<rparr>))"

record hwtstamp_config =
  hc_flags :: int
  hc_tx_type :: int
  hc_rx_filter :: int

abbreviation (input) HWTSTAMP_TX_OFF :: int where "HWTSTAMP_TX_OFF \<equiv> 0"
abbreviation (input) HWTSTAMP_TX_ON :: int where "HWTSTAMP_TX_ON \<equiv> 1"
abbreviation (input) HWTSTAMP_FILTER_NONE :: int where "HWTSTAMP_FILTER_NONE \<equiv> 0"
abbreviation (input) HWTSTAMP_FILTER_ALL :: int where "HWTSTAMP_FILTER_ALL \<equiv> 1"

text \<open>The filters of the switch statement are \<open>HWTSTAMP_FILTER_ALL\<close> and the PTP filters, numbers 3 to 14 in the kernel's enumeration.\<close>

definition ax_set_hwtstamp_config :: "hwtstamp_config option \<Rightarrow> bool \<Rightarrow> int \<times> hwtstamp_config option" where
  "ax_set_hwtstamp_config cfu ctu =
     (case cfu of
        None \<Rightarrow> (EFAULT_NEG, None)
      | Some c \<Rightarrow>
          if hc_flags c \<noteq> 0 then (EINVAL_NEG, None)
          else if hc_tx_type c \<noteq> HWTSTAMP_TX_OFF \<and> hc_tx_type c \<noteq> HWTSTAMP_TX_ON then (ERANGE_NEG, None)
          else if hc_rx_filter c = HWTSTAMP_FILTER_NONE \<or> hc_rx_filter c = HWTSTAMP_FILTER_ALL \<or> (3 \<le> hc_rx_filter c \<and> hc_rx_filter c \<le> 14) then
            (let c = (if hc_rx_filter c = HWTSTAMP_FILTER_NONE then c else c\<lparr>hc_rx_filter := HWTSTAMP_FILTER_ALL\<rparr>);
                 c = c\<lparr>hc_tx_type := HWTSTAMP_TX_ON\<rparr>
             in if ctu then (0, Some c) else (EFAULT_NEG, None))
          else (ERANGE_NEG, None))"

definition ax_get_hwtstamp_config :: int where
  "ax_get_hwtstamp_config = EOPNOTSUPP_NEG"

abbreviation (input) SIOCSHWTSTAMP :: int where "SIOCSHWTSTAMP \<equiv> 0x89b0"
abbreviation (input) SIOCGHWTSTAMP :: int where "SIOCGHWTSTAMP \<equiv> 0x89b1"

definition ax_net_ioctl :: "hwtstamp_config option \<Rightarrow> bool \<Rightarrow> int \<Rightarrow> int \<times> hwtstamp_config option" where
  "ax_net_ioctl cfu ctu cmd =
     (if cmd = SIOCSHWTSTAMP then ax_set_hwtstamp_config cfu ctu
      else if cmd = SIOCGHWTSTAMP then (ax_get_hwtstamp_config, None)
      else (-1, None))"

subsection \<open>The private ioctl\<close>

abbreviation (input) IOCTL_SEND_CMD :: int where "IOCTL_SEND_CMD \<equiv> 0x89F0"
abbreviation (input) IOCTL_SET_DOMAIN_NUMBER_TABLE :: int where "IOCTL_SET_DOMAIN_NUMBER_TABLE \<equiv> 0x89F1"
abbreviation (input) IOCTL_GET_SYNC_TX_TIMESTAMP :: int where "IOCTL_GET_SYNC_TX_TIMESTAMP \<equiv> 0x89F2"
abbreviation (input) IOCTL_GET_SYNC_RX_TIMESTAMP :: int where "IOCTL_GET_SYNC_RX_TIMESTAMP \<equiv> 0x89F3"
abbreviation (input) IOCTL_GPTP_SET_PTP_MODE :: int where "IOCTL_GPTP_SET_PTP_MODE \<equiv> 0x89F4"

text \<open>The request and the answer, by the kind of data the command copies.\<close>

record user_data =
  u_cmd :: "ioctl_cmd option"
  u_table :: "int list option"
  u_stamp :: "ioctl_timestamp_data option"
  u_mode :: "int option"

datatype answer = No_answer | Answer_cmd ioctl_cmd | Answer_stamp ioctl_timestamp_data

definition stamp_answer :: "int \<times> ioctl_timestamp_data option \<Rightarrow> int \<times> answer" where
  "stamp_answer r = (fst r, case snd r of None \<Rightarrow> No_answer | Some d \<Rightarrow> Answer_stamp d)"

definition send_cmd :: "io_env \<Rightarrow> ioctl_cmd option \<Rightarrow> bool \<Rightarrow> net_state \<Rightarrow> io_log \<Rightarrow> (int \<times> answer \<times> net_state \<times> io_log) option" where
  "send_cmd E cfu ctu st l =
     (case cfu of
        None \<Rightarrow> Some (EFAULT_NEG, No_answer, st, l)
      | Some c \<Rightarrow>
          map_option (\<lambda>(c, st, l). if ctu then (0, Answer_cmd c, st, l) else (EFAULT_NEG, No_answer, st, l))
            (if Opcode c > of_nat (length ioctl_fun_table) then Some (c\<lparr>Status := AX_STATUS_NOT_SUPPORT\<rparr>, st, l)
             else case arr_get ioctl_fun_table (uint (Opcode c)) of
                    None \<Rightarrow> None
                  | Some f \<Rightarrow> call_ioctl_fun f E c st l))"

definition with_switch :: "net_state \<Rightarrow> int \<times> ax_switch \<Rightarrow> io_log \<Rightarrow> int \<times> answer \<times> net_state \<times> io_log" where
  "with_switch st r l = (fst r, No_answer, st\<lparr>net_rx := (net_rx st)\<lparr>rx_switch := snd r\<rparr>\<rparr>, l)"

definition ax_net_privioctl :: "io_env \<Rightarrow> capture_data \<Rightarrow> user_data \<Rightarrow> bool \<Rightarrow> int \<Rightarrow> net_state \<Rightarrow> io_log \<Rightarrow>
    (int \<times> answer \<times> net_state \<times> io_log) option" where
  "ax_net_privioctl E ts_d u ctu cmd st l =
     (let sw = rx_switch (net_rx st) in
      if \<not> net_running st then Some (EINVAL_NEG, No_answer, st, l)
      else if cmd = IOCTL_SEND_CMD then send_cmd E (u_cmd u) ctu st l
      else if cmd = IOCTL_SET_DOMAIN_NUMBER_TABLE then Some (with_switch st (ax_set_domain_number_table (u_table u) sw) l)
      else if cmd = IOCTL_GET_SYNC_TX_TIMESTAMP then
        map_option (\<lambda>r. (fst (stamp_answer r), snd (stamp_answer r), st, l)) (ax_get_sync_tx_timestamp sw ts_d (u_stamp u) ctu)
      else if cmd = IOCTL_GET_SYNC_RX_TIMESTAMP then
        map_option (\<lambda>r. (fst (stamp_answer r), snd (stamp_answer r), st, l)) (ax_get_sync_rx_timestamp sw ts_d (u_stamp u) ctu)
      else if cmd = IOCTL_GPTP_SET_PTP_MODE then Some (with_switch st (ax_gptp_set_ptp_mode (u_mode u) sw) l)
      else Some (-1, No_answer, st, l))"

subsection \<open>Lemmas\<close>

lemma le_put_length [simp]: "length (le_put n v) = n"
  by (induction n v rule: le_put.induct) simp_all

lemma le_get_put: "v < 256 ^ n \<Longrightarrow> le_get (le_put n v) = v"
proof (induction n v rule: le_put.induct)
  case (2 n v)
  then have "le_get (le_put n (v div 256)) = v div 256" by (simp add: less_mult_imp_div_less mult.commute)
  then show ?case by (simp add: unat_of_nat)
qed simp

lemma field_set_field: "off + n \<le> length bs \<Longrightarrow> v < 256 ^ n \<Longrightarrow> field off n (set_field off n v bs) = v"
  by (simp add: field_def set_field_def le_get_put)

lemma clean_fifo_drains:
  assumes dev: "fifo_device hw 2 rx tx"
  shows "length rx - io_reads (2, PTP_RX_MESSAGE_INFO) l < fuel \<Longrightarrow>
    \<exists>l'. clean_fifo_loop fuel hw l = Some l' \<and> length rx \<le> io_reads (2, PTP_RX_MESSAGE_INFO) l' \<and> io_writes l' = io_writes l"
proof (induction fuel arbitrary: l)
  case (Suc fuel)
  have c: "hw k (2, PTP_TIMESTAMP_CTRL) AND 1 \<noteq> 0 \<longleftrightarrow> io_reads (2, PTP_RX_MESSAGE_INFO) k < length rx" for k
    using dev by (simp add: fifo_device_def)
  let ?l = "RD (2, PTP_RX_MESSAGE_INFO) # RD (2, PTP_TIMESTAMP_CTRL) # l"
  show ?case
  proof (cases "io_reads (2, PTP_RX_MESSAGE_INFO) l < length rx")
    case True
    then have "length rx - io_reads (2, PTP_RX_MESSAGE_INFO) ?l < fuel" using Suc.prems by simp
    from Suc.IH [OF this] show ?thesis using True c [of l] by (simp add: io_simps)
  next
    case False
    then show ?thesis using c [of l] by (simp add: io_simps)
  qed
qed simp

lemma domain_search_found:
  "\<lbrakk>i + n \<le> length t; k < n; t ! (i + k) = uint dn; \<forall>j<k. t ! (i + j) \<noteq> uint dn\<rbrakk> \<Longrightarrow> domain_search t dn n i = Some (int (i + k) + 1)"
proof (induction n arbitrary: i k)
  case (Suc n)
  show ?case
  proof (cases k)
    case 0
    then show ?thesis using Suc.prems by (simp add: arr_get_def)
  next
    case (Suc k')
    have "t ! i \<noteq> uint dn" using Suc.prems(4) Suc by (metis add_0_right zero_less_Suc)
    moreover have "domain_search t dn n (Suc i) = Some (int (Suc i + k') + 1)"
      by (rule Suc.IH) (use Suc.prems Suc in \<open>auto dest: spec [of _ "Suc _"]\<close>)
    ultimately show ?thesis using Suc.prems(1) Suc by (simp add: arr_get_def)
  qed
qed simp

lemma domain_search_none:
  "\<lbrakk>i + n \<le> length t; \<forall>j<n. t ! (i + j) \<noteq> uint dn\<rbrakk> \<Longrightarrow> domain_search t dn n i = Some (-1)"
proof (induction n arbitrary: i)
  case (Suc n)
  have "t ! i \<noteq> uint dn" using Suc.prems(2) by (metis add_0_right zero_less_Suc)
  moreover have "domain_search t dn n (Suc i) = Some (-1)"
    by (rule Suc.IH) (use Suc.prems in \<open>auto dest: spec [of _ "Suc _"]\<close>)
  ultimately show ?case using Suc.prems(1) by (simp add: arr_get_def)
qed simp

subsection \<open>Properties\<close>


definition sample_cmd :: "u64 \<Rightarrow> ioctl_cmd" where
  "sample_cmd n = \<lparr>Gid = replicate 8 0, Opcode = n, Status = 0, CmdData = replicate 20 0\<rparr>"

definition sample_io_env :: io_env where
  "sample_io_env = \<lparr>io_hw = \<lambda>l a. 0, io_fuel = 1, bar_size = \<lambda>b. 0x10000, phy_bar = \<lambda>b. 0\<rparr>"

definition sample_user :: "u64 \<Rightarrow> user_data" where
  "sample_user n = \<lparr>u_cmd = Some (sample_cmd n), u_table = None, u_stamp = None, u_mode = None\<rparr>"


text \<open>
  The timestamp ioctls return the time of the newest capture with the requested port, message
  type, sequence number and domain, taken from the timer of the first entry of the domain table that
  names the domain, exactly (seconds times 10^9 plus nanoseconds, no overflow); they fail with -1
  exactly when there is no such capture or the domain is not in the table.
\<close>

theorem sync_timestamp_newest:
  assumes get: "(get, q) \<in> {(ax_get_sync_tx_timestamp sw, tx_queue sw), (ax_get_sync_rx_timestamp sw, rx_queue sw)}"
    and wf: "tsq_wf q" and ok: "\<forall>d \<in> set (tsq_list q). capture_ok d"
    and doms: "number_of_domains sw = 2" "length (domain_number_map sw) = 3"
  defines "key \<equiv> \<lambda>d ts_d. ts_d\<lparr>port_id := it_port_id d, msg_type := it_msg_type d, sequence_id := it_seq_id d, domain_number := it_domain_number d\<rparr>"
  shows "(\<forall>item i. tsq_lookup (tsq_list q) (key d ts_d) = Some item \<and> i < 2 \<and> domain_number_map sw ! i = uint (it_domain_number d) \<and>
       (\<forall>j<i. domain_number_map sw ! j \<noteq> uint (it_domain_number d)) \<longrightarrow>
       (\<exists>t. get ts_d (Some d) True = Some (0, Some (d\<lparr>it_timestamp := t\<rparr>)) \<and>
          uint t = uint (timestamp_h item ! (i + 1)) * 1000000000 + uint (timestamp_l item ! (i + 1)))) \<and>
     (tsq_lookup (tsq_list q) (key d ts_d) = None \<or> (\<forall>i<2. domain_number_map sw ! i \<noteq> uint (it_domain_number d)) \<longrightarrow>
       get ts_d (Some d) True = Some (-1, None))"
proof -
  have g: "get = get_sync_timestamp q sw" using get by (auto simp: ax_get_sync_tx_timestamp_def ax_get_sync_rx_timestamp_def)
  have find: "ax_tsq_find_item_1 q (key d ts_d) = Some (if tsq_list q = [] then (AX_STATUS_Q_NO_ITEM, key d ts_d)
      else case tsq_lookup (tsq_list q) (key d ts_d) of None \<Rightarrow> (AX_STATUS_QITEM_NOT_FOUND, key d ts_d) | Some item \<Rightarrow> (AX_STATUS_SUCCESS, item))"
    by (rule ax_tsq_find_refines [OF wf])
  show ?thesis
  proof (cases "tsq_lookup (tsq_list q) (key d ts_d)")
    case None
    then show ?thesis using find by (auto simp: g get_sync_timestamp_def key_def)
  next
    case (Some item)
    then have it: "item \<in> set (tsq_list q)" "ax_tsq_check_item_1 item (key d ts_d)"
      by (auto simp: tsq_lookup_check find_Some_iff)
    have ne: "tsq_list q \<noteq> []" using it(1) by auto
    have dn: "domain_number item = it_domain_number d" using it(2) by (simp add: ax_tsq_check_item_1_def key_def)
    have len: "length (timestamp_h item) = 3" "length (timestamp_l item) = 3" using ok it(1) by (auto simp: capture_ok_def)
    have st: "uint (ucast h * NS_PER_SEC + ucast lo :: u64) = uint h * 1000000000 + uint lo" for h lo :: u32
      using uint_lt2p [of h] uint_lt2p [of lo] by (simp add: uint_word_ariths)
    have "get ts_d (Some d) True = Some (0, Some (d\<lparr>it_timestamp := ucast (timestamp_h item ! (i + 1)) * NS_PER_SEC + ucast (timestamp_l item ! (i + 1))\<rparr>))"
      if "i < 2" "domain_number_map sw ! i = uint (it_domain_number d)" "\<forall>j<i. domain_number_map sw ! j \<noteq> uint (it_domain_number d)" for i
      using domain_search_found [of 0 2 "domain_number_map sw" i "it_domain_number d"] that doms find Some ne dn len
      by (simp add: g get_sync_timestamp_def key_def arr_get_def nat_add_distrib)
    moreover have "get ts_d (Some d) True = Some (-1, None)" if "\<forall>i<2. domain_number_map sw ! i \<noteq> uint (it_domain_number d)"
      using domain_search_none [of 0 2 "domain_number_map sw" "it_domain_number d"] that doms find Some ne dn
      by (simp add: g get_sync_timestamp_def key_def)
    ultimately show ?thesis using Some st by auto
  qed
qed

theorem sync_timestamp_newest_witness:
  "\<exists>t. ax_get_sync_tx_timestamp (tstamp_switch\<lparr>domain_number_map := [0, 1, 2]\<rparr>) (sample_capture 7)
     (Some \<lparr>it_port_id = 1, it_msg_type = 0, it_seq_id = 0, it_domain_number = 0, it_timestamp = 0\<rparr>) True =
     Some (0, Some \<lparr>it_port_id = 1, it_msg_type = 0, it_seq_id = 0, it_domain_number = 0, it_timestamp = t\<rparr>) \<and> uint t = 2000000020"
proof -
  let ?sw = "tstamp_switch\<lparr>domain_number_map := [0, 1, 2]\<rparr>"
  let ?d = "\<lparr>it_port_id = 1, it_msg_type = 0, it_seq_id = 0, it_domain_number = 0, it_timestamp = 0\<rparr>"
  let ?key = "(sample_capture 7)\<lparr>port_id := 1, msg_type := 0, sequence_id := 0, domain_number := 0\<rparr>"
  have q: "tsq_wf (tx_queue ?sw)" using tstamp_switch_wf by (simp add: tstamp_wf_def)
  have l: "tsq_list (tx_queue ?sw) = [sample_capture 0, sample_capture 0]" using sample_queue_list by (simp add: tstamp_switch_def)
  then have f: "tsq_lookup (tsq_list (tx_queue ?sw)) ?key = Some (sample_capture 0)"
    by (simp add: tsq_lookup_check ax_tsq_check_item_1_def sample_capture_def)
  have "number_of_domains ?sw = 2" by (simp add: tstamp_switch_def)
  with sync_timestamp_newest [of "ax_get_sync_tx_timestamp ?sw" "tx_queue ?sw" ?sw ?d "sample_capture 7"] q l f sample_capture_ok
  show ?thesis by (auto simp: sample_capture_def dest!: spec [of _ "sample_capture 0"] spec [of _ 0])
qed

end
