(* ===== verification/Mdio.thy ===== *)
theory Mdio
  imports Ax_Switch
begin

section \<open>Management bus, PHYs and EEPROM\<close>

text \<open>
  The MDIO and I2C masters of the switch and what the driver does with them (\<open>xdma_mod.c\<close>): register
  access of the PHYs, their set-up, restart of the auto-negotiation, the periodic link poll, and the
  MAC address from the EEPROM. Delays do not appear. The \<open>mdio_lock\<close> makes each access one step.
  The loops over the PHYs count with an 8-bit variable up to the number of ports, which is five.
\<close>

subsection \<open>MDIO access\<close>

record mdio_transfer =
  phy_id :: int
  regnum :: int
  val :: u16
  mdio_bus :: u8

definition mdio_word :: "mdio_transfer \<Rightarrow> u32" where
  "mdio_word d = push_bit 27 (word_of_int (phy_id d)) OR push_bit 22 (word_of_int (regnum d)) OR (ucast (mdio_bus d) AND 0x7F)"

text \<open>The two polling loops, \<open>n\<close> rounds left; the first returns the value read, 0 after a time-out.\<close>

fun poll_read :: "device \<Rightarrow> nat \<Rightarrow> io_log \<Rightarrow> u32 \<times> io_log" where
  "poll_read hw 0 l = (0, l)"
| "poll_read hw (Suc n) l =
     (let (ctrl, l) = ioread32 hw (2, MDIO_CTRL) l in
      if ctrl AND push_bit 20 1 = 0 then ioread32 hw (2, MDIO_READ_DATA) l else poll_read hw n l)"

fun poll_done :: "device \<Rightarrow> nat \<Rightarrow> io_log \<Rightarrow> io_log" where
  "poll_done hw 0 l = l"
| "poll_done hw (Suc n) l =
     (let (ctrl, l) = ioread32 hw (2, MDIO_CTRL) l in if ctrl AND push_bit 20 1 = 0 then l else poll_done hw n l)"

definition ax_mdio_read :: "device \<Rightarrow> mdio_transfer \<Rightarrow> io_log \<Rightarrow> u32 \<times> io_log" where
  "ax_mdio_read hw d l =
     (let ctrl = mdio_word d OR push_bit 21 1;
          l = iowrite32 ctrl (2, MDIO_CTRL) l;
          ctrl = ctrl OR push_bit 20 1;
          l = iowrite32 ctrl (2, MDIO_CTRL) l;
          (value, l) = poll_read hw 10 l
      in (value AND 0xFFFF, l))"

definition ax_mdio_write :: "device \<Rightarrow> mdio_transfer \<Rightarrow> io_log \<Rightarrow> io_log" where
  "ax_mdio_write hw d l =
     (let ctrl = mdio_word d;
          l = iowrite32 (ucast (val d)) (2, MDIO_WRITE_DATA) l;
          l = iowrite32 ctrl (2, MDIO_CTRL) l;
          ctrl = ctrl OR push_bit 20 1;
          l = iowrite32 ctrl (2, MDIO_CTRL) l
      in poll_done hw 10 l)"

abbreviation (input) PHY_ID_SHIFT :: int where "PHY_ID_SHIFT \<equiv> 1"

definition ax_mdio_bus_read :: "device \<Rightarrow> int \<Rightarrow> int \<Rightarrow> io_log \<Rightarrow> u32 \<times> io_log" where
  "ax_mdio_bus_read hw phy reg l = ax_mdio_read hw \<lparr>phy_id = phy + PHY_ID_SHIFT, regnum = reg, val = 0, mdio_bus = 0\<rparr> l"

text \<open>The bus write fills in the transfer and returns without starting it.\<close>

definition ax_mdio_bus_write :: "device \<Rightarrow> int \<Rightarrow> int \<Rightarrow> u16 \<Rightarrow> io_log \<Rightarrow> int \<times> io_log" where
  "ax_mdio_bus_write hw phy reg v l = (let d = \<lparr>phy_id = phy + PHY_ID_SHIFT, regnum = reg, val = v, mdio_bus = 0\<rparr> in (0, l))"

subsection \<open>PHY set-up\<close>

definition phy_read :: "device \<Rightarrow> nat \<Rightarrow> int \<Rightarrow> io_log \<Rightarrow> u32 \<times> io_log" where
  "phy_read hw i reg l = ax_mdio_read hw \<lparr>phy_id = int i, regnum = reg, val = 0, mdio_bus = 0\<rparr> l"

definition phy_write :: "device \<Rightarrow> nat \<Rightarrow> int \<Rightarrow> u16 \<Rightarrow> io_log \<Rightarrow> io_log" where
  "phy_write hw i reg v l = ax_mdio_write hw \<lparr>phy_id = int i, regnum = reg, val = v, mdio_bus = 0\<rparr> l"

abbreviation (input) phys :: "ax_switch \<Rightarrow> nat list" where "phys sw \<equiv> [1..<nat (number_of_ports sw)]"

definition ax_init_phy_led :: "device \<Rightarrow> ax_switch \<Rightarrow> io_log \<Rightarrow> io_log" where
  "ax_init_phy_led hw sw l =
     fold (\<lambda>i l. let l = phy_write hw i 0x1F 0x0D04 l; l = phy_write hw i 0x10 0x36B l in phy_write hw i 0x1F 0 l) (phys sw) l"

definition ax_phy_greeneth :: "device \<Rightarrow> ax_switch \<Rightarrow> bool \<Rightarrow> io_log \<Rightarrow> io_log" where
  "ax_phy_greeneth hw sw enable l =
     (let reg = (if enable then 0xd73f else 0x573f) in
      fold (\<lambda>i l. let l = phy_write hw i 0x1F 0xa43 l; l = phy_write hw i 27 0x8011 l; l = phy_write hw i 28 reg l
                  in phy_write hw i 0x1F 0 l) (phys sw) l)"

text \<open>The read-modify-write of a paged register that \<open>ax_phy_EEE\<close> and \<open>ax_phy_PTP\<close> share.\<close>

definition phy_modify :: "device \<Rightarrow> nat \<Rightarrow> u16 \<Rightarrow> int \<Rightarrow> u16 \<Rightarrow> bool \<Rightarrow> io_log \<Rightarrow> io_log" where
  "phy_modify hw i page r bits enable l =
     (let l = phy_write hw i 0x1F page l;
          (v, l) = phy_read hw i r l;
          reg = (ucast v :: u16);
          l = phy_write hw i r (if enable then reg OR bits else reg AND NOT bits) l
      in phy_write hw i 0x1F 0 l)"

definition ax_phy_EEE :: "device \<Rightarrow> ax_switch \<Rightarrow> bool \<Rightarrow> io_log \<Rightarrow> io_log" where
  "ax_phy_EEE hw sw enable l = fold (\<lambda>i. phy_modify hw i 0xa43 0x19 0x20 enable) (phys sw) l"

definition ax_phy_PTP :: "device \<Rightarrow> ax_switch \<Rightarrow> bool \<Rightarrow> io_log \<Rightarrow> io_log" where
  "ax_phy_PTP hw sw enable l = fold (\<lambda>i. phy_modify hw i 0xe40 0x10 0x3F enable) (phys sw) l"

definition ax_phy_serdes :: "device \<Rightarrow> ax_switch \<Rightarrow> io_log \<Rightarrow> io_log" where
  "ax_phy_serdes hw sw l =
     fold (\<lambda>i l.
       let l = phy_write hw i 0x1F 0 l;
           l = phy_write hw i 0 0x9200 l;
           l = phy_write hw i 0x1F 0xA43 l;
           (v, l) = phy_read hw i 0x19 l;
           reg = (ucast v :: u16);
           l = phy_write hw i 0x19 (reg AND 0xFFFE) l;
           l = phy_write hw i 0x1F 0 l
       in phy_write hw i 0 0x9200 l) (phys sw) l"

abbreviation (input) MII_BMCR :: int where "MII_BMCR \<equiv> 0"
abbreviation (input) MII_BMSR :: int where "MII_BMSR \<equiv> 1"
abbreviation (input) MII_ADVERTISE :: int where "MII_ADVERTISE \<equiv> 4"
abbreviation (input) MII_LPA :: int where "MII_LPA \<equiv> 5"
abbreviation (input) MII_CTRL1000 :: int where "MII_CTRL1000 \<equiv> 9"
abbreviation (input) MII_STAT1000 :: int where "MII_STAT1000 \<equiv> 10"
abbreviation (input) BMCR_ANRESTART :: u16 where "BMCR_ANRESTART \<equiv> 0x200"
abbreviation (input) BMCR_ANENABLE :: u16 where "BMCR_ANENABLE \<equiv> 0x1000"
abbreviation (input) BMSR_LSTATUS :: u16 where "BMSR_LSTATUS \<equiv> 0x4"
abbreviation (input) BMSR_ANEGCOMPLETE :: u16 where "BMSR_ANEGCOMPLETE \<equiv> 0x20"

definition restart_autoneg_port :: "device \<Rightarrow> nat \<Rightarrow> bool \<Rightarrow> io_log \<Rightarrow> io_log" where
  "restart_autoneg_port hw port eth_restart l =
     (if eth_restart then
        (let (v, l) = phy_read hw port MII_BMCR l; reg = (ucast v :: u16)
         in phy_write hw port MII_BMCR (reg OR BMCR_ANRESTART) l)
      else l)"

definition ax_restart_autoneg :: "device \<Rightarrow> ax_switch \<Rightarrow> io_log \<Rightarrow> io_log" where
  "ax_restart_autoneg hw sw l = fold (\<lambda>i. restart_autoneg_port hw i True) (phys sw) l"

subsection \<open>Waiting for the links at start-up\<close>

definition link_complete :: "u32 \<Rightarrow> bool" where
  "link_complete v \<longleftrightarrow> (ucast v :: u16) AND (BMSR_LSTATUS OR BMSR_ANEGCOMPLETE) = BMSR_LSTATUS OR BMSR_ANEGCOMPLETE"

text \<open>
  The inner \<open>while\<close> loop of \<open>ax_init_rgmii\<close> and the three restarts around it. The counters are
  8-bit variables that are not reset from one round, or one port, to the next.
\<close>

fun rgmii_wait :: "nat \<Rightarrow> device \<Rightarrow> nat \<Rightarrow> u8 \<Rightarrow> u8 \<Rightarrow> io_log \<Rightarrow> (u8 \<times> u8 \<times> io_log) option" where
  "rgmii_wait 0 hw i match_num retry_num l = None"
| "rgmii_wait (Suc fuel) hw i match_num retry_num l =
     (let (v, l) = phy_read hw i MII_BMSR l;
          match_num = (if link_complete v then match_num + 1 else match_num);
          retry_num = retry_num + 1
      in if match_num \<ge> 3 \<or> retry_num \<ge> 5 then Some (match_num, retry_num, l)
         else rgmii_wait fuel hw i match_num retry_num l)"

fun rgmii_restarts :: "nat \<Rightarrow> device \<Rightarrow> nat \<Rightarrow> nat \<Rightarrow> u8 \<Rightarrow> u8 \<Rightarrow> io_log \<Rightarrow> (u8 \<times> u8 \<times> io_log) option" where
  "rgmii_restarts fuel hw i 0 match_num retry_num l = Some (match_num, retry_num, l)"
| "rgmii_restarts fuel hw i (Suc j) match_num retry_num l =
     (let l = phy_write hw i MII_BMCR (BMCR_ANRESTART OR BMCR_ANENABLE) l in
      Option.bind (rgmii_wait fuel hw i match_num retry_num l) (\<lambda>(match_num, retry_num, l).
      if match_num = 3 then Some (match_num, retry_num, l) else rgmii_restarts fuel hw i j match_num retry_num l))"

definition rgmii_port :: "nat \<Rightarrow> device \<Rightarrow> u8 \<times> u8 \<times> io_log \<Rightarrow> nat \<Rightarrow> (u8 \<times> u8 \<times> io_log) option" where
  "rgmii_port fuel hw s i =
     (let (match_num, retry_num, l) = s;
          (v, l) = phy_read hw i MII_BMSR l
      in if link_complete v then Some (match_num, retry_num, l) else rgmii_restarts fuel hw i 3 match_num retry_num l)"

definition ax_init_rgmii :: "nat \<Rightarrow> device \<Rightarrow> ax_switch \<Rightarrow> io_log \<Rightarrow> io_log option" where
  "ax_init_rgmii fuel hw sw l = map_option (\<lambda>(m, r, l). l) (fold_opt (rgmii_port fuel hw) (0, 0, l) (phys sw))"

subsection \<open>The link poll\<close>

record ax_ethphy_status =
  speed :: int
  duplex :: int
  pause :: int
  asym_pause :: int
  link :: int

definition zero_phy :: ax_ethphy_status where
  "zero_phy = \<lparr>speed = 0, duplex = 0, pause = 0, asym_pause = 0, link = 0\<rparr>"

abbreviation (input) LPA_1000FULL :: u32 where "LPA_1000FULL \<equiv> 0x0800"
abbreviation (input) LPA_1000HALF :: u32 where "LPA_1000HALF \<equiv> 0x0400"
abbreviation (input) LPA_100FULL :: u32 where "LPA_100FULL \<equiv> 0x0100"
abbreviation (input) LPA_100HALF :: u32 where "LPA_100HALF \<equiv> 0x0080"
abbreviation (input) LPA_10FULL :: u32 where "LPA_10FULL \<equiv> 0x0040"
abbreviation (input) LPA_PAUSE_CAP :: u32 where "LPA_PAUSE_CAP \<equiv> 0x0400"
abbreviation (input) LPA_PAUSE_ASYM :: u32 where "LPA_PAUSE_ASYM \<equiv> 0x0800"

text \<open>What the poll makes of the four ability registers of a port whose link has come up.\<close>

definition resolve_link :: "u32 \<Rightarrow> u32 \<Rightarrow> u32 \<Rightarrow> u32 \<Rightarrow> ax_ethphy_status" where
  "resolve_link lpagb ctrl1000 lpa adv =
     (let common_adv_gb = lpagb AND push_bit 2 ctrl1000;
          common_adv = lpa AND adv;
          s = zero_phy\<lparr>link := 1, speed := 10, duplex := 0, pause := 0, asym_pause := 0\<rparr>;
          s = (if common_adv_gb AND (LPA_1000FULL OR LPA_1000HALF) \<noteq> 0 then
                 (let s = s\<lparr>speed := 1000\<rparr> in if common_adv_gb AND LPA_1000FULL \<noteq> 0 then s\<lparr>duplex := 1\<rparr> else s)
               else if common_adv AND (LPA_100FULL OR LPA_100HALF) \<noteq> 0 then
                 (let s = s\<lparr>speed := 100\<rparr> in if common_adv AND LPA_100FULL \<noteq> 0 then s\<lparr>duplex := 1\<rparr> else s)
               else if common_adv AND LPA_10FULL \<noteq> 0 then s\<lparr>duplex := 1\<rparr> else s)
      in if duplex s = 1
         then s\<lparr>pause := (if lpa AND LPA_PAUSE_CAP \<noteq> 0 then 1 else 0), asym_pause := (if lpa AND LPA_PAUSE_ASYM \<noteq> 0 then 1 else 0)\<rparr>
         else s)"

text \<open>
  The body of the loop of \<open>__ax_phy_timer\<close> for PHY \<open>i\<close>. \<open>ax_mdio_read\<close> masks its result to 16 bits, so
  the tests for a negative value never succeed. The call of \<open>__ax_restart_autoneg\<close> has restart flag 0.
\<close>

definition poll_port :: "device \<Rightarrow> ax_ethphy_status list \<times> io_log \<Rightarrow> nat \<Rightarrow> (ax_ethphy_status list \<times> io_log) option" where
  "poll_port hw s i =
     (let (ps, l) = s; (status, l) = phy_read hw i MII_BMSR l in
      Option.bind (arr_get ps (int i - 1)) (\<lambda>p.
      if status AND 0x4 \<noteq> 0 then
        (if link p = 1 then Some (ps, l)
         else
           (let p = p\<lparr>link := 1\<rparr>;
                (lpagb, l) = phy_read hw i MII_STAT1000 l;
                (ctrl1000, l) = phy_read hw i MII_CTRL1000 l;
                (lpa, l) = phy_read hw i MII_LPA l;
                (adv, l) = phy_read hw i MII_ADVERTISE l;
                q = resolve_link lpagb ctrl1000 lpa adv
            in if q \<noteq> p then Some (ps[i - 1 := q\<lparr>link := 1\<rparr>], restart_autoneg_port hw i False l)
               else Some (ps[i - 1 := p], l)))
      else if link p = 1 then Some (ps[i - 1 := zero_phy], l)
      else Some (ps, l)))"

definition ax_phy_timer_fn :: "device \<Rightarrow> ax_switch \<Rightarrow> ax_ethphy_status list \<Rightarrow> io_log \<Rightarrow> (ax_ethphy_status list \<times> io_log) option" where
  "ax_phy_timer_fn hw sw ps l = fold_opt (poll_port hw) (ps, l) (phys sw)"

subsection \<open>The MAC address in the EEPROM\<close>

record i2c_transfer =
  i_length :: u8
  i2c_bus :: u8
  i_dev_addr :: u8
  buf_addr :: u8

definition le_bytes :: "u32 \<Rightarrow> u8 list" where
  "le_bytes v = [ucast v, ucast (drop_bit 8 v), ucast (drop_bit 16 v), ucast (drop_bit 24 v)]"

definition i2c_read_raw :: "device \<Rightarrow> i2c_transfer \<Rightarrow> io_log \<Rightarrow> u8 list \<times> io_log" where
  "i2c_read_raw hw d l =
     (let l = iowrite32 (ucast (buf_addr d)) (2, I2C_MASTER_CTRL) l;
          bus = push_bit 8 (ucast (i2c_bus d)) OR push_bit 1 (ucast (i_dev_addr d));
          value = push_bit 12 1 OR bus;
          l = iowrite32 value (2, I2C_MASTER_CTRL) l;
          l = iowrite32 (value OR 1) (2, I2C_MASTER_CTRL) l;
          value = push_bit 20 1 OR push_bit 12 (ucast (i_length d)) OR bus;
          l = iowrite32 value (2, I2C_MASTER_CTRL) l;
          l = iowrite32 (value OR 1) (2, I2C_MASTER_CTRL) l;
          (lo, l) = ioread32 hw (2, I2C_READ_DATA_LO) l;
          (hi, l) = ioread32 hw (2, I2C_READ_DATA_HI) l
      in (le_bytes lo @ le_bytes hi, l))"

abbreviation (input) CHECK_MAC_COUNT :: nat where "CHECK_MAC_COUNT \<equiv> 2"

text \<open>
  The loop of \<open>ax_i2c_read\<close>: \<open>n\<close> more rounds follow if this one fails; \<open>rnd\<close> is what \<open>eth_random_addr\<close>
  writes. The result is the buffer and the number of reads made; \<open>None\<close> when more than the eight
  bytes read are asked for.
\<close>

fun i2c_attempts :: "device \<Rightarrow> u8 list \<Rightarrow> nat \<Rightarrow> u8 \<Rightarrow> nat \<Rightarrow> nat \<Rightarrow> io_log \<Rightarrow> (u8 list \<times> nat \<times> io_log) option" where
  "i2c_attempts hw rnd len b_addr n i l =
     (let (buf, l) = i2c_read_raw hw \<lparr>i_length = of_nat len AND 0x1F, i2c_bus = 0, i_dev_addr = 0x50, buf_addr = b_addr AND 0xFF\<rparr> l in
      if buf ! 0 = 0x00 \<and> buf ! 1 = 0x0e \<and> buf ! 2 = 0xc6 then (if len \<le> 8 then Some (take len buf, Suc i, l) else None)
      else if i \<ge> CHECK_MAC_COUNT then Some (rnd[0 := 0x00, 1 := 0x0e, 2 := 0xc6], Suc i, l)
      else (case n of 0 \<Rightarrow> None | Suc n \<Rightarrow> i2c_attempts hw rnd len b_addr n (Suc i) l))"

definition ax_i2c_read :: "device \<Rightarrow> u8 list \<Rightarrow> nat \<Rightarrow> u8 \<Rightarrow> io_log \<Rightarrow> (u8 list \<times> nat \<times> io_log) option" where
  "ax_i2c_read hw rnd len b_addr l = i2c_attempts hw rnd len b_addr 2 0 l"

subsection \<open>The bus protocol\<close>

lemma small_bits: "(n :: nat) < 32 \<Longrightarrow> bit n k \<Longrightarrow> k < 5"
proof -
  assume n: "n < 32" and b: "bit n k"
  have "take_bit 5 n = n" using n by (simp add: take_bit_nat_eq_self_iff)
  then show "k < 5" using b by (metis bit_take_bit_iff)
qed

lemma word_fields:
  fixes w :: u32
  assumes "p < 32" "r < 32" and w: "w = push_bit 27 (of_nat p) OR push_bit 22 (of_nat r) OR c" and c: "\<And>k. bit c k \<Longrightarrow> k < 22"
  shows "drop_bit 27 w = of_nat p" "drop_bit 22 w AND 0x1F = of_nat r"
proof -
  show "drop_bit 27 w = of_nat p"
    by (rule bit_word_eqI) (use assms(1) in \<open>auto simp: w bit_simps dest: small_bits [OF assms(1)] small_bits [OF assms(2)] c\<close>)
  have m: "(0x1F :: u32) = mask 5" by (simp add: mask_eq_exp_minus_1)
  show "drop_bit 22 w AND 0x1F = of_nat r" unfolding m
    by (rule bit_word_eqI) (auto simp: w bit_simps dest: small_bits [OF assms(1)] small_bits [OF assms(2)] c)
qed

text \<open>
  The PHYs behind the bus: a command word selects PHY and register; the master is done at once and
  the data register holds the 16-bit value \<open>R phy reg\<close>.
\<close>

definition mdio_slave :: "device \<Rightarrow> (nat \<Rightarrow> nat \<Rightarrow> u32) \<Rightarrow> bool" where
  "mdio_slave hw R \<longleftrightarrow> (\<forall>l c. last_write (2, MDIO_CTRL) l = Some c \<longrightarrow>
     hw l (2, MDIO_CTRL) AND push_bit 20 1 = 0 \<and>
     hw l (2, MDIO_READ_DATA) AND 0xFFFF = R (unat (drop_bit 27 c)) (unat (drop_bit 22 c AND 0x1F)))"

lemma phy_read_ok:
  assumes hw: "mdio_slave hw R" and p: "p < 32" and r: "r < 32"
  shows "\<exists>l'. phy_read hw p (int r) l = (R p r, l')"
proof -
  define c where "c = mdio_word \<lparr>phy_id = int p, regnum = int r, val = 0, mdio_bus = 0\<rparr> OR push_bit 21 1 OR push_bit 20 1"
  have w: "c = push_bit 27 (of_nat p) OR push_bit 22 (of_nat r) OR (push_bit 21 1 OR push_bit 20 1)"
    by (simp only: c_def mdio_word_def mdio_transfer.simps of_int_of_nat_eq) (simp add: or.assoc)
  have b: "bit (push_bit 21 1 OR push_bit 20 (1 :: u32)) k \<Longrightarrow> k < 22" for k by (auto simp only: bit_or_iff bit_push_bit_iff bit_1_iff)
  have f: "unat (drop_bit 27 c) = p" "unat (drop_bit 22 c AND 0x1F) = r"
    using word_fields [OF p r w b] p r by (simp_all add: unat_of_nat)
  let ?l = "WR (2, MDIO_CTRL) c # WR (2, MDIO_CTRL) (mdio_word \<lparr>phy_id = int p, regnum = int r, val = 0, mdio_bus = 0\<rparr> OR push_bit 21 1) # l"
  have "poll_read hw 10 ?l = (hw (RD (2, MDIO_CTRL) # ?l) (2, MDIO_READ_DATA), RD (2, MDIO_READ_DATA) # RD (2, MDIO_CTRL) # ?l)"
    if "hw ?l (2, MDIO_CTRL) AND push_bit 20 1 = 0"
  proof -
    have "(10 :: nat) = Suc 9" by simp
    then show ?thesis using that by (simp only: poll_read.simps) (simp add: io_simps)
  qed
  moreover have "hw ?l (2, MDIO_CTRL) AND push_bit 20 1 = 0" using hw [unfolded mdio_slave_def, rule_format, of ?l c] by simp
  moreover have "hw (RD (2, MDIO_CTRL) # ?l) (2, MDIO_READ_DATA) AND 0xFFFF = R p r"
    using hw [unfolded mdio_slave_def, rule_format, of "RD (2, MDIO_CTRL) # ?l" c] f by simp
  ultimately show ?thesis by (simp add: phy_read_def ax_mdio_read_def Let_def io_simps c_def or.assoc)
qed

subsection \<open>Bounded waiting\<close>

lemma rgmii_wait_small:
  "unat r \<le> 4 \<Longrightarrow> 5 - unat r \<le> fuel \<Longrightarrow> \<exists>s. rgmii_wait fuel hw i m r l = Some s"
proof (induction fuel arbitrary: m r l)
  case 0
  then show ?case by simp
next
  case (Suc fuel)
  have s: "unat (r + 1) = Suc (unat r)" using Suc.prems(1) by (subst unat_add_lem [THEN iffD1]) simp_all
  show ?case
  proof (cases "r + 1 \<ge> 5")
    case False
    then have "unat (r + 1) \<le> 4" by (simp add: word_le_nat_alt)
    then have "\<exists>s. rgmii_wait fuel hw i m' (r + 1) l' = Some s" for m' l' using Suc.IH s Suc.prems(2) by simp
    then show ?thesis by (simp add: Let_def split: prod.split)
  qed (simp add: Let_def split: prod.split)
qed

text \<open>Six rounds are enough whatever the counters hold: a counter at 255 wraps to 0 and then reaches 5.\<close>

lemma rgmii_wait_total: "\<exists>s. rgmii_wait 6 hw i m r l = Some s"
proof -
  have six: "(6 :: nat) = Suc 5" by simp
  show ?thesis
  proof (cases "r + 1 \<ge> 5")
    case False
    then have "unat (r + 1) \<le> 4" by (simp add: word_le_nat_alt)
    then have "\<exists>s. rgmii_wait 5 hw i m' (r + 1) l' = Some s" for m' l' using rgmii_wait_small by simp
    with False show ?thesis unfolding six by (cases "phy_read hw i MII_BMSR l") (simp only: rgmii_wait.simps Let_def prod.case split: if_split, simp)
  next
    case True
    then show ?thesis unfolding six by (cases "phy_read hw i MII_BMSR l") (simp only: rgmii_wait.simps Let_def prod.case simp_thms if_True, simp)
  qed
qed

lemma rgmii_restarts_total: "\<exists>s. rgmii_restarts 6 hw i j m r l = Some s"
proof (induction j arbitrary: m r l)
  case (Suc j)
  obtain m' r' l' where "rgmii_wait 6 hw i m r (phy_write hw i MII_BMCR (BMCR_ANRESTART OR BMCR_ANENABLE) l) = Some (m', r', l')"
    using rgmii_wait_total by (metis surj_pair)
  then show ?case using Suc by (simp add: Let_def)
qed simp

lemma ax_init_rgmii_total: "\<exists>l'. ax_init_rgmii 6 hw sw l = Some l'"
proof -
  have "\<exists>s'. fold_opt (rgmii_port 6 hw) s is = Some s'" for s "is"
  proof (induction "is" arbitrary: s)
    case (Cons i "is")
    have "\<exists>s'. rgmii_port 6 hw s i = Some s'" using rgmii_restarts_total by (cases s) (auto simp: rgmii_port_def split: prod.split)
    then show ?case using Cons.IH by auto
  next
    case Nil
    show ?case by (simp only: fold_opt.simps) blast
  qed
  then show ?thesis unfolding ax_init_rgmii_def by (metis option.simps(9))
qed

text \<open>The MAC address always carries the vendor's OUI, after at most three reads of the EEPROM.\<close>

lemma i2c_mac_oui:
  assumes "length rnd = 6"
  shows "\<exists>mac n l'. ax_i2c_read hw rnd 6 0 l = Some (mac, n, l') \<and> length mac = 6 \<and> take 3 mac = [0x00, 0x0e, 0xc6] \<and> n \<le> 3"
proof -
  have raw: "\<exists>b0 b1 b2 b3 b4 b5 b6 b7 l'. i2c_read_raw hw d l = ([b0, b1, b2, b3, b4, b5, b6, b7], l')" for d l
    by (simp add: i2c_read_raw_def le_bytes_def Let_def io_simps)
  obtain r0 r1 r2 r3 r4 r5 where r: "rnd = [r0, r1, r2, r3, r4, r5]" using assms by (auto simp: numeral_eq_Suc length_Suc_conv)
  define oui where "oui x \<longleftrightarrow> (\<exists>mac n l'. x = Some (mac, n, l') \<and> length mac = 6 \<and> take 3 mac = [0x00 :: u8, 0x0e, 0xc6] \<and> n \<le> (3 :: nat))"
    for x :: "(u8 list \<times> nat \<times> io_log) option"
  have step: "oui (i2c_attempts hw rnd 6 0 n i l)" if i: "i \<le> 2" and rest: "i < 2 \<Longrightarrow> \<exists>k. n = Suc k \<and> (\<forall>l. oui (i2c_attempts hw rnd 6 0 k (Suc i) l))" for n i l
  proof -
    obtain b0 b1 b2 b3 b4 b5 b6 b7 l' where
      b: "i2c_read_raw hw \<lparr>i_length = 6, i2c_bus = 0, i_dev_addr = 0x50, buf_addr = 0\<rparr> l = ([b0, b1, b2, b3, b4, b5, b6, b7], l')"
      using raw by metis
    consider (ok) "b0 = 0 \<and> b1 = 0x0e \<and> b2 = 0xc6" | (rnd) "\<not> (b0 = 0 \<and> b1 = 0x0e \<and> b2 = 0xc6)" "i = 2" | (again) "\<not> (b0 = 0 \<and> b1 = 0x0e \<and> b2 = 0xc6)" "i < 2"
      using i by linarith
    then show ?thesis
    proof cases
      case ok
      then show ?thesis using i by (subst i2c_attempts.simps) (simp add: b oui_def)
    next
      case rnd
      then show ?thesis by (subst i2c_attempts.simps) (simp add: b oui_def r)
    next
      case again
      then show ?thesis using rest by (subst i2c_attempts.simps) (auto simp: b)
    qed
  qed
  have "oui (i2c_attempts hw rnd 6 0 0 2 l)" for l by (rule step) simp_all
  then have "oui (i2c_attempts hw rnd 6 0 (Suc 0) 1 l)" for l by (intro step) (simp_all add: numeral_2_eq_2)
  then have "oui (i2c_attempts hw rnd 6 0 (Suc (Suc 0)) 0 l)" by (intro step) simp_all
  then show ?thesis by (simp add: ax_i2c_read_def oui_def numeral_2_eq_2)
qed

subsection \<open>Link resolution\<close>

text \<open>
  The specification: the technologies in order of priority, and whether both link partners offer
  one. \<open>R\<close> are the registers of the PHY.
\<close>

definition technologies :: "(int \<times> int) list" where
  "technologies = [(1000, 1), (1000, 0), (100, 1), (100, 0), (10, 1)]"

definition common_ability :: "(nat \<Rightarrow> u32) \<Rightarrow> int \<times> int \<Rightarrow> bool" where
  "common_ability R t =
     (if t = (1000, 1) then bit (R 10) 11 \<and> bit (R 9) 9
      else if t = (1000, 0) then bit (R 10) 10 \<and> bit (R 9) 8
      else if t = (100, 1) then bit (R 5) 8 \<and> bit (R 4) 8
      else if t = (100, 0) then bit (R 5) 7 \<and> bit (R 4) 7
      else bit (R 5) 6 \<and> bit (R 4) 6)"

definition best_link :: "(nat \<Rightarrow> u32) \<Rightarrow> ax_ethphy_status" where
  "best_link R =
     (let (s, d) = (case find (common_ability R) technologies of None \<Rightarrow> (10, 0) | Some t \<Rightarrow> t) in
      \<lparr>speed = s, duplex = d, pause = of_bool (d = 1 \<and> bit (R 5) 10), asym_pause = of_bool (d = 1 \<and> bit (R 5) 11), link = 1\<rparr>)"

lemma and_bits:
  fixes x :: u32
  shows "x AND 0xC00 = 0 \<longleftrightarrow> \<not> bit x 11 \<and> \<not> bit x 10" "x AND 0x180 = 0 \<longleftrightarrow> \<not> bit x 8 \<and> \<not> bit x 7"
    "x AND 0x800 = 0 \<longleftrightarrow> \<not> bit x 11" "x AND 0x400 = 0 \<longleftrightarrow> \<not> bit x 10" "x AND 0x100 = 0 \<longleftrightarrow> \<not> bit x 8" "x AND 0x40 = 0 \<longleftrightarrow> \<not> bit x 6"
    "x AND 4 = 0 \<longleftrightarrow> \<not> bit x 2"
proof -
  have e: "(x AND (2 ^ m OR 2 ^ n) = 0) = (\<not> bit x m \<and> \<not> bit x n)" for m n
    by (simp add: bit.conj_disj_distrib or_eq_0_iff and_exp_eq_0_iff_not_bit)
  show "x AND 0xC00 = 0 \<longleftrightarrow> \<not> bit x 11 \<and> \<not> bit x 10" using e [of 11 10] by simp
  show "x AND 0x180 = 0 \<longleftrightarrow> \<not> bit x 8 \<and> \<not> bit x 7" using e [of 8 7] by simp
  show "x AND 0x800 = 0 \<longleftrightarrow> \<not> bit x 11" using and_exp_eq_0_iff_not_bit [of x 11] by simp
  show "x AND 0x400 = 0 \<longleftrightarrow> \<not> bit x 10" using and_exp_eq_0_iff_not_bit [of x 10] by simp
  show "x AND 0x100 = 0 \<longleftrightarrow> \<not> bit x 8" using and_exp_eq_0_iff_not_bit [of x 8] by simp
  show "x AND 0x40 = 0 \<longleftrightarrow> \<not> bit x 6" using and_exp_eq_0_iff_not_bit [of x 6] by simp
  show "x AND 4 = 0 \<longleftrightarrow> \<not> bit x 2" using and_exp_eq_0_iff_not_bit [of x 2] by simp
qed

lemma resolve_best: "resolve_link (R 10) (R 9) (R 5) (R 4) = best_link R"
proof -
  let ?g = "R 10 AND push_bit 2 (R 9)" and ?m = "R 5 AND R 4"
  define g1 where "g1 \<longleftrightarrow> bit (R 10) 11 \<and> bit (R 9) 9"
  define g0 where "g0 \<longleftrightarrow> bit (R 10) 10 \<and> bit (R 9) 8"
  define h1 where "h1 \<longleftrightarrow> bit (R 5) 8 \<and> bit (R 4) 8"
  define h0 where "h0 \<longleftrightarrow> bit (R 5) 7 \<and> bit (R 4) 7"
  define t1 where "t1 \<longleftrightarrow> bit (R 5) 6 \<and> bit (R 4) 6"
  have b: "bit ?g 11 = g1" "bit ?g 10 = g0" "bit ?m 8 = h1" "bit ?m 7 = h0" "bit ?m 6 = t1"
    by (simp_all add: bit_simps g1_def g0_def h1_def h0_def t1_def)
  have m: "LPA_1000FULL OR LPA_1000HALF = 0xC00" "LPA_100FULL OR LPA_100HALF = 0x180" by simp_all
  have c: "common_ability R (1000, 1) = g1" "common_ability R (1000, 0) = g0" "common_ability R (100, 1) = h1"
    "common_ability R (100, 0) = h0" "common_ability R (10, 1) = t1"
    by (simp_all add: common_ability_def g1_def g0_def h1_def h0_def t1_def)
  show ?thesis
    unfolding resolve_link_def best_link_def technologies_def Let_def m and_bits b
    by (cases g1; cases g0; cases h1; cases h0; cases t1; simp add: c zero_phy_def)
qed

text \<open>What one poll makes of a port's status.\<close>

definition next_status :: "(nat \<Rightarrow> u32) \<Rightarrow> ax_ethphy_status \<Rightarrow> ax_ethphy_status" where
  "next_status R p =
     (if bit (R 1) 2 then (if link p = 1 then p else best_link R)
      else if link p = 1 then zero_phy else p)"

lemma poll_port_ok:
  assumes hw: "mdio_slave hw R" and i: "0 < i" "i < 32" "i \<le> length ps"
  shows "\<exists>l'. poll_port hw (ps, l) i = Some (ps[i - 1 := next_status (R i) (ps ! (i - 1))], l')"
proof -
  let ?p = "ps ! (i - 1)"
  have g: "arr_get ps (int i - 1) = Some ?p" using i by (simp add: arr_get_def nat_diff_distrib)
  obtain l1 where r1: "phy_read hw i 1 l = (R i 1, l1)" using phy_read_ok [OF hw i(2), of 1 l] by auto
  obtain l2 where r2: "phy_read hw i 10 l1 = (R i 10, l2)" using phy_read_ok [OF hw i(2), of 10 l1] by auto
  obtain l3 where r3: "phy_read hw i 9 l2 = (R i 9, l3)" using phy_read_ok [OF hw i(2), of 9 l2] by auto
  obtain l4 where r4: "phy_read hw i 5 l3 = (R i 5, l4)" using phy_read_ok [OF hw i(2), of 5 l3] by auto
  obtain l5 where r5: "phy_read hw i 4 l4 = (R i 4, l5)" using phy_read_ok [OF hw i(2), of 4 l4] by auto
  have lk: "(best_link (R i))\<lparr>link := 1\<rparr> = best_link (R i)" by (simp add: best_link_def Let_def split: prod.split)
  note ev = poll_port_def g r1 r2 r3 r4 r5 and_bits resolve_best next_status_def restart_autoneg_port_def lk Let_def
  show ?thesis by (auto simp: ev)
qed

subsection \<open>Properties\<close>

text \<open>
  C14. The link poll resolves the link correctly: with PHYs that answer on the bus, one run of the
  timer brings the status of every port up to date. A link that has come up gets the best technology
  both partners offer, in the order 1000 full, 1000 half, 100 full, 100 half, 10 full, and else 10
  half, with the partner's pause bits exactly for full duplex; a link that has gone down is cleared,
  and any other status is kept.
\<close>

theorem phy_poll_resolves:
  assumes hw: "mdio_slave hw R" and sw: "number_of_ports sw = 5" and ps: "length ps = 4"
  shows "\<exists>ps' l'. ax_phy_timer_fn hw sw ps l = Some (ps', l') \<and> length ps' = 4 \<and> (\<forall>i<4. ps' ! i = next_status (R (Suc i)) (ps ! i))"
proof -
  have loop: "\<exists>ps' l'. fold_opt (poll_port hw) (ps, l) [1..<Suc n] = Some (ps', l') \<and> length ps' = 4 \<and>
      (\<forall>i<4. ps' ! i = (if i < n then next_status (R (Suc i)) (ps ! i) else ps ! i))" if "n \<le> 4" for n
    using that
  proof (induction n)
    case 0
    then show ?case using ps by simp
  next
    case (Suc n)
    then obtain ps1 l1 where p: "fold_opt (poll_port hw) (ps, l) [1..<Suc n] = Some (ps1, l1)" "length ps1 = 4"
        "\<forall>i<4. ps1 ! i = (if i < n then next_status (R (Suc i)) (ps ! i) else ps ! i)" by auto
    from poll_port_ok [OF hw, of "Suc n" ps1 l1] Suc.prems p obtain l2 where
      "poll_port hw (ps1, l1) (Suc n) = Some (ps1[n := next_status (R (Suc n)) (ps1 ! n)], l2)" by auto
    then have "fold_opt (poll_port hw) (ps, l) [1..<Suc (Suc n)] = Some (ps1[n := next_status (R (Suc n)) (ps1 ! n)], l2)"
      using p(1) by (simp add: fold_opt_append)
    then show ?case using p Suc.prems by (auto simp: nth_list_update less_Suc_eq)
  qed
  from loop [of 4] sw show ?thesis by (auto simp: ax_phy_timer_fn_def numeral_eq_Suc)
qed

definition sample_phy :: device where
  "sample_phy l a = (if a = (2, MDIO_READ_DATA) then
     (case last_write (2, MDIO_CTRL) l of None \<Rightarrow> 0
      | Some c \<Rightarrow> (let r = unat (drop_bit 22 c AND 0x1F) in if r = 1 then 4 else if r = 5 then 0x0DE1 else if r = 4 then 0x0DE1 else 0))
     else 0)"

lemma sample_phy_slave: "mdio_slave sample_phy (\<lambda>p r. if r = 1 then 4 else if r = 5 then 0x0DE1 else if r = 4 then 0x0DE1 else 0)"
  by (simp add: mdio_slave_def sample_phy_def Let_def)

theorem phy_poll_resolves_witness:
  "\<exists>ps' l'. ax_phy_timer_fn sample_phy \<lparr>pMemBase = 2, rx_queue = sample_queue, tx_queue = sample_queue, ax_ptp_clocks = [], number_of_ports = 5,
      number_of_domains = 2, domain_number_map = [0, 0, 0], phc_id = 0, ptp_mode = 0\<rparr> (replicate 4 zero_phy) [] = Some (ps', l') \<and>
     ps' ! 3 = \<lparr>speed = 100, duplex = 1, pause = 1, asym_pause = 1, link = 1\<rparr>"
proof -
  let ?R = "\<lambda>p r. if r = 1 then 4 else if r = 5 then 0x0DE1 else if r = 4 then 0x0DE1 else (0 :: u32)"
  have "next_status (?R 4) zero_phy = \<lparr>speed = 100, duplex = 1, pause = 1, asym_pause = 1, link = 1\<rparr>"
    by (simp add: next_status_def best_link_def technologies_def common_ability_def zero_phy_def bit_numeral_simps)
  then show ?thesis
    using phy_poll_resolves [OF sample_phy_slave, of "\<lparr>pMemBase = 2, rx_queue = sample_queue, tx_queue = sample_queue, ax_ptp_clocks = [], number_of_ports = 5,
      number_of_domains = 2, domain_number_map = [0, 0, 0], phc_id = 0, ptp_mode = 0\<rparr>" "replicate 4 zero_phy" "[]"]
    by (auto dest!: spec [of _ 3] simp: numeral_eq_Suc)
qed

end
