(* ===== verification/Xdma_Life.thy ===== *)
theory Xdma_Life
  imports User_Irq
begin

section \<open>A device from opening to closing\<close>

text \<open>
  Composition of the theories on the DMA device: on hardware that answers, \<open>xdma_device_open\<close>
  succeeds in MSI-X mode and establishes \<open>dev_open\<close>, which the driver's later changes of the
  device keep and from which \<open>xdma_device_close\<close> gives everything back.
\<close>

subsection \<open>What opening does not touch\<close>

definition xdev_core :: "xdma_dev \<Rightarrow> int \<times> int \<times> bool \<times> bool \<times> bool \<times> int \<times> xdma_user_irq list \<times> int list \<times> int list" where
  "xdev_core x = (handle x, pdev x, lock_held x, got_regions x, regions_in_use x, user_max x, user_irq x, h2c_irq_line x, c2h_irq_line x)"

lemma probe_for_engine_core: "probe_for_engine P hw d i x l = Some (rv, x', l') \<Longrightarrow> xdev_core x' = xdev_core x"
  by (auto simp: probe_for_engine_def engine_init_def Let_def xdev_core_def set_engine_def
        split: option.splits prod.splits if_splits)

lemma probe_loop_core: "probe_loop P hw d n i x l = Some (k, x', l') \<Longrightarrow> xdev_core x' = xdev_core x"
  by (induction P hw d n i x l rule: probe_loop.induct)
    (fastforce simp: bind_eq_Some_conv split: if_splits dest: probe_for_engine_core)+

lemma probe_engines_core: "probe_engines P hw x l = Some (rv, x', l') \<Longrightarrow> xdev_core x' = xdev_core x"
  by (auto simp: probe_engines_def bind_eq_Some_conv Let_def xdev_core_def dest!: probe_loop_core)

text \<open>The BARs change nothing but their own fields.\<close>

definition bar_free :: "xdma_dev \<Rightarrow> xdma_dev" where
  "bar_free x = x\<lparr>bar := [], user_bar_idx := 0, config_bar_idx := 0, bypass_bar_idx := 0\<rparr>"

lemma identify_bars_free: "identify_bars ids pos x = Some x' \<Longrightarrow> bar_free x' = bar_free x"
  by (auto simp: identify_bars_def bar_free_def bind_eq_Some_conv Let_def split: if_splits)

lemma map_bars_loop_free: "map_bars_loop P hw n i ids pos x l = (f, ids', pos', x', l') \<Longrightarrow> bar_free x' = bar_free x"
  by (induction P hw n i ids pos x l rule: map_bars_loop.induct)
    (auto simp: map_single_bar_def bar_free_def Let_def split: if_splits prod.splits)

lemma map_bars_free: "map_bars P hw x l = Some (0, x', l') \<Longrightarrow> bar_free x' = bar_free x"
  by (auto simp: map_bars_def Let_def split: prod.splits if_splits dest!: map_bars_loop_free identify_bars_free)

lemma bar_freeE:
  assumes "bar_free x' = bar_free x"
  shows "x' = x\<lparr>bar := bar x', user_bar_idx := user_bar_idx x', config_bar_idx := config_bar_idx x', bypass_bar_idx := bypass_bar_idx x'\<rparr>"
  using assms by (cases x, cases x') (simp add: bar_free_def)

subsection \<open>Working hardware\<close>

text \<open>
  The kernel and the hardware that make the driver work: BAR \<open>k\<close> is the configuration BAR, there are
  \<open>h\<close> and \<open>c\<close> engines, the interrupts are MSI-X and every request is granted.
\<close>

definition pci_grants :: "pci_env \<Rightarrow> bool" where
  "pci_grants P \<longleftrightarrow> enable_rv P = 0 \<and> regions_rv P = 0 \<and> set_dma_mask P = 0 \<and> interrupt_mode P = 0 \<and> msi_msix_capable P PCI_CAP_ID_MSIX \<and>
     0 \<le> alloc_vectors_rv P \<and> tasklet_mem P \<and> (\<forall>v. request_irq_rv P v = 0) \<and> (\<forall>j. pci_irq_vector P (int j) \<noteq> 0) \<and>
     (\<forall>i. 0 \<le> bar_len P i) \<and> (\<forall>i<3. bar_len P i \<noteq> 0 \<longrightarrow> iomap_ok P i)"

definition hw_found :: "pci_env \<Rightarrow> device \<Rightarrow> nat \<Rightarrow> nat \<Rightarrow> nat \<Rightarrow> bool" where
  "hw_found P hw k h c \<longleftrightarrow> h \<le> 2 \<and> c \<le> 1 \<and> k < 3 \<and>
     (\<exists>irq_id cfg_id. (\<forall>l i. hw l (int i, XDMA_OFS_INT_CTRL) = irq_id i) \<and> (\<forall>l i. hw l (int i, XDMA_OFS_CONFIG) = cfg_id i) \<and>
        config_candidate P irq_id cfg_id k \<and> (\<forall>j<k. \<not> config_candidate P irq_id cfg_id j)) \<and>
     (\<forall>j<h. engine_present hw (int k) DMA_TO_DEVICE j \<and> mem_ok (engine_memory P DMA_TO_DEVICE (int j))) \<and>
     (\<forall>j<c. engine_present hw (int k) DMA_FROM_DEVICE j \<and> mem_ok (engine_memory P DMA_FROM_DEVICE (int j))) \<and>
     (h < 2 \<longrightarrow> engine_absent hw (int k) DMA_TO_DEVICE h) \<and> (c < 1 \<longrightarrow> engine_absent hw (int k) DMA_FROM_DEVICE c)"

lemma hw_map_bars:
  assumes P: "pci_grants P" and hw: "hw_found P hw k h c" and x: "length (bar x) = 3" "config_bar_idx x < 0"
  shows "\<exists>x' l'. map_bars P hw x l = Some (0, x', l') \<and> bar_free x' = bar_free x \<and> config_bar_idx x' = int k"
proof -
  obtain ii ci where ids: "\<And>l i. hw l (int i, XDMA_OFS_INT_CTRL) = ii i" "\<And>l i. hw l (int i, XDMA_OFS_CONFIG) = ci i"
      "k < 3" "config_candidate P ii ci k" "\<forall>j<k. \<not> config_candidate P ii ci j" using hw unfolding hw_found_def by blast
  have len: "\<And>i. 0 \<le> bar_len P i" and "\<forall>i<3. bar_len P i \<noteq> 0 \<longrightarrow> iomap_ok P i" using P by (simp_all add: pci_grants_def)
  moreover have "\<exists>i<3. config_candidate P ii ci i" using ids(3,4) by blast
  ultimately obtain x' l' k' where m: "map_bars P hw x l = Some (0, x', l')" "config_bar_idx x' = int k'" "config_candidate P ii ci k'"
      "\<forall>j<k'. \<not> config_candidate P ii ci j"
    using map_bars_finds_config [where hw = hw and l = l, OF ids(1,2) len x] by (auto split: if_splits)
  have "k' = k" using ids(4,5) m(3,4) by (metis nat_neq_iff)
  then show ?thesis using m map_bars_free by blast
qed

lemma hw_probe:
  assumes hw: "hw_found P hw k h c" and x: "config_bar_idx x = int k" "engines_num x = 0" "length (engines_h2c x) = 2" "length (engines_c2h x) = 2"
    "h2c_channel_max x = 2" "c2h_channel_max x = 1"
  shows "\<exists>x' l'. probe_engines P hw x l = Some (0, x', l') \<and> xdev_core x' = xdev_core x \<and> h2c_channel_max x' = int h \<and> c2h_channel_max x' = int c \<and>
     config_bar_idx x' = int k \<and> length (engines_h2c x') = 2 \<and> length (engines_c2h x') = 2"
proof -
  have "\<exists>x1 x2 l'. probe_engines P hw x l = Some (0, x2\<lparr>c2h_channel_max := int c\<rparr>, l') \<and> probed DMA_TO_DEVICE 0 h x x1 \<and>
     probed DMA_FROM_DEVICE h c (x1\<lparr>h2c_channel_max := int h\<rparr>) x2"
    by (rule probe_engines_ok) (use hw x in \<open>auto simp: hw_found_def\<close>)
  then obtain x1 x2 l' where p: "probe_engines P hw x l = Some (0, x2\<lparr>c2h_channel_max := int c\<rparr>, l')" "probed DMA_TO_DEVICE 0 h x x1"
      "probed DMA_FROM_DEVICE h c (x1\<lparr>h2c_channel_max := int h\<rparr>) x2" by blast
  note q = p(2,3) [unfolded probed_def engines_def other_dir_def]
  let ?x = "x2\<lparr>c2h_channel_max := int c\<rparr>"
  have "h2c_channel_max ?x = int h" "config_bar_idx ?x = int k" "length (engines_h2c ?x) = 2" "length (engines_c2h ?x) = 2"
    using q x by simp_all
  with p(1) probe_engines_core [OF p(1)] show ?thesis by (intro exI [of _ ?x] exI [of _ l']) simp
qed

subsection \<open>Opening and closing\<close>

definition dev_open :: "pci_env \<Rightarrow> nat \<Rightarrow> nat \<Rightarrow> xdma_dev \<Rightarrow> os_state \<Rightarrow> bool" where
  "dev_open P h c x os \<longleftrightarrow> msix_dev h c 16 x \<and> lines_set P h c x \<and> length (engines_h2c x) = 2 \<and> length (engines_c2h x) = 2 \<and>
     got_regions x \<and> \<not> regions_in_use x \<and> \<not> lock_held x \<and> os_irqs os = channel_irqs P h c @ user_irqs P (h + c) 16 \<and> os_tasklet os"

lemma open_irqs_ok:
  assumes P: "pci_grants P" and x: "h2c_channel_max x = int h" "c2h_channel_max x = int c" "user_max x = 16" "h \<le> 2" "c \<le> 2"
      "length (h2c_irq_line x) = 2" "length (c2h_irq_line x) = 2" "length (engines_h2c x) = 2" "length (engines_c2h x) = 2"
      "got_regions x" "\<not> regions_in_use x" "\<not> lock_held x" and os: "os_irqs os = []"
  shows "\<exists>x' os' l'. open_irqs P hw x os ys l = Some (Some x', os', ys, l') \<and> dev_open P h c x' os' \<and> os_claim os' = os_claim os \<and>
     os_msix os' \<and> os_bad_free os' = os_bad_free os \<and> handle x' = handle x \<and> pdev x' = pdev x \<and> config_bar_idx x' = config_bar_idx x \<and>
     user_irq x' = user_irq x"
proof -
  let ?x = "x\<lparr>msix_enabled := True\<rparr>" and ?os = "os\<lparr>os_msix := True\<rparr>"
  have en: "enable_msi_msix P x os = (alloc_vectors_rv P, ?x, ?os)" "\<not> alloc_vectors_rv P < 0"
    using P by (simp_all add: enable_msi_msix_def pci_grants_def)
  have d: "msix_dev h c 16 ?x" using x by (simp add: msix_dev_def)
  obtain hl cl l1 where s: "irq_setup P ?x ?os l = Some (0, ?x\<lparr>h2c_irq_line := hl, c2h_irq_line := cl\<rparr>,
       (pci_keep_intx_enabled ?os)\<lparr>os_irqs := channel_irqs P h c @ user_irqs P (h + c) 16, os_tasklet := True\<rparr>, l1)"
     "msix_dev h c 16 (?x\<lparr>h2c_irq_line := hl, c2h_irq_line := cl\<rparr>)" "lines_set P h c (?x\<lparr>h2c_irq_line := hl, c2h_irq_line := cl\<rparr>)"
    using irq_setup_ok [OF d, of ?os P l] os P by (auto simp: pci_grants_def)
  let ?y = "?x\<lparr>h2c_irq_line := hl, c2h_irq_line := cl\<rparr>" and
    ?os' = "(pci_keep_intx_enabled ?os)\<lparr>os_irqs := channel_irqs P h c @ user_irqs P (h + c) 16, os_tasklet := True\<rparr>"
  have "\<exists>l'. open_irqs P hw x os ys l = Some (Some (?y\<lparr>flags := flags ?y AND NOT XDEV_FLAG_OFFLINE\<rparr>), ?os', ys, l')"
    using en s(1) x(12) by (simp add: open_irqs_def flag_ops(3) split_beta Let_def)
  moreover have "dev_open P h c (?y\<lparr>flags := flags ?y AND NOT XDEV_FLAG_OFFLINE\<rparr>) ?os'"
    using s(2,3) x by (simp add: dev_open_def msix_dev_def lines_set_def)
  moreover have "os_claim ?os' = os_claim os \<and> os_msix ?os' \<and> os_bad_free ?os' = os_bad_free os"
    by (simp add: os_claim_def pci_keep_intx_enabled_def Let_def)
  ultimately show ?thesis by fastforce
qed

text \<open>What \<open>dev_open\<close> depends on.\<close>

definition xdev_shape :: "xdma_dev \<Rightarrow> _" where
  "xdev_shape x = (xdev_core x, h2c_channel_max x, c2h_channel_max x, msix_enabled x, length (engines_h2c x), length (engines_c2h x))"

lemma dev_open_shape: "xdev_shape x' = xdev_shape x \<Longrightarrow> dev_open P h c x' os = dev_open P h c x os"
  by (simp add: xdev_shape_def xdev_core_def dev_open_def msix_dev_def lines_set_def)

lemma set_engine_shape [simp]: "xdev_shape (set_engine d i e x) = xdev_shape x"
  by (simp add: xdev_shape_def xdev_core_def set_engine_def)

lemma engines_length: "xdev_shape x' = xdev_shape x \<Longrightarrow> length (engines d x') = length (engines d x)"
  by (simp add: xdev_shape_def engines_def)

lemma offline_loop_total: "i + n \<le> length (engines d x) \<Longrightarrow> \<exists>x' l'. offline_loop d n i x l = Some (x', l') \<and> xdev_shape x' = xdev_shape x"
proof (induction n arbitrary: i x l)
  case (Suc n)
  then have i: "i < length (engines d x)" by simp
  obtain e l1 where step: "offline_loop d (Suc n) i x l = offline_loop d n (Suc i) (set_engine d i e x) l1 \<or> offline_loop d (Suc n) i x l = offline_loop d n (Suc i) x l"
    using i by (cases "magic (engines d x ! i) = MAGIC_ENGINE") (auto simp: arr_get_def Let_def split_beta)
  have len: "length (engines d (set_engine d i e x)) = length (engines d x)" by (rule engines_length) simp
  show ?case using step Suc.IH [of "Suc i" x l] Suc.IH [of "Suc i" "set_engine d i e x" l1] Suc.prems len by auto
qed simp

lemma online_loop_total: "i + n \<le> length (engines d x) \<Longrightarrow> \<exists>x' l'. online_loop hw d n i x l = Some (x', l') \<and> xdev_shape x' = xdev_shape x"
proof (induction n arbitrary: i x l)
  case (Suc n)
  then have i: "i < length (engines d x)" by simp
  obtain e l1 where step: "online_loop hw d (Suc n) i x l = online_loop hw d n (Suc i) (set_engine d i e x) l1 \<or>
      online_loop hw d (Suc n) i x l = online_loop hw d n (Suc i) x l"
    using i by (cases "magic (engines d x ! i) = MAGIC_ENGINE") (auto simp: arr_get_def Let_def split_beta)
  have len: "length (engines d (set_engine d i e x)) = length (engines d x)" by (rule engines_length) simp
  show ?case using step Suc.IH [of "Suc i" x l] Suc.IH [of "Suc i" "set_engine d i e x" l1] Suc.prems len by auto
qed simp

text \<open>The structure \<open>xdma_device_open\<close> starts from, called with the limits of \<open>pcidev_alloc\<close>.\<close>

lemma open_starts:
  "\<exists>x y. xdma_device_open P hw (Some a) pd MAX_USER_IRQ XDMA_CHANNEL_NUM_MAX 1 os xs l = open_pci P hw x os (xs @ [y]) l \<and>
     xdev_core x = xdev_core ((alloc_dev_instance a pd)\<lparr>user_max := MAX_USER_IRQ\<rparr>) \<and> handle y = a \<and> pdev y = pd \<and>
     h2c_channel_max x = 2 \<and> c2h_channel_max x = 1 \<and> bar x = replicate 3 False \<and> config_bar_idx x = -1 \<and> engines_num x = 0 \<and>
     engines_h2c x = replicate 2 zero_engine \<and> engines_c2h x = replicate 2 zero_engine"
proof -
  let ?i = "if xs = [] then 0 else idx (last xs) + 1"
  let ?y = "(alloc_dev_instance a pd)\<lparr>user_max := MAX_USER_IRQ, h2c_channel_max := XDMA_CHANNEL_NUM_MAX, c2h_channel_max := 1,
    flags := XDEV_FLAG_OFFLINE, idx := ?i\<rparr>"
  let ?x = "(alloc_dev_instance a pd)\<lparr>flags := XDEV_FLAG_OFFLINE, idx := ?i, user_max := MAX_USER_IRQ,
    h2c_channel_max := XDMA_CHANNEL_NUM_MAX, c2h_channel_max := 1\<rparr>"
  have "\<not> lock_held (alloc_dev_instance a pd)" "flags (alloc_dev_instance a pd) = 0" by (simp_all add: alloc_dev_instance_def)
  then have "xdma_device_open P hw (Some a) pd MAX_USER_IRQ XDMA_CHANNEL_NUM_MAX 1 os xs l = open_pci P hw ?x os (xs @ [?y]) l"
    by (cases "xs = []") (simp_all add: xdma_device_open_def flag_ops(2) xdev_list_add_def Let_def clip_max_def)
  then show ?thesis by (intro exI [of _ ?x] exI [of _ ?y] conjI) (assumption | simp add: xdev_core_def alloc_dev_instance_def)+
qed

lemma xdma_open_ok:
  assumes P: "pci_grants P" and hw: "hw_found P hw k h c" and os: "os_irqs os = []"
  shows "\<exists>x y os' l'. xdma_device_open P hw (Some a) pd MAX_USER_IRQ XDMA_CHANNEL_NUM_MAX 1 os xs l = Some (Some x, os', xs @ [y], l') \<and>
     dev_open P h c x os' \<and> os_enabled os' \<and> os_regions os' \<and> os_msix os' \<and> os_bad_free os' = os_bad_free os \<and>
     handle x = a \<and> pdev x = pd \<and> handle y = a \<and> pdev y = pd \<and> config_bar_idx x = int k \<and> user_irq x = user_irq (alloc_dev_instance a pd)"
proof -
  obtain x y where o: "xdma_device_open P hw (Some a) pd MAX_USER_IRQ XDMA_CHANNEL_NUM_MAX 1 os xs l = open_pci P hw x os (xs @ [y]) l"
      "xdev_core x = xdev_core ((alloc_dev_instance a pd)\<lparr>user_max := MAX_USER_IRQ\<rparr>)" "handle y = a" "pdev y = pd"
      "h2c_channel_max x = 2" "c2h_channel_max x = 1" "bar x = replicate 3 False" "config_bar_idx x = -1" "engines_num x = 0"
      "engines_h2c x = replicate 2 zero_engine" "engines_c2h x = replicate 2 zero_engine" using open_starts by blast
  have g: "enable_rv P = 0" "regions_rv P = 0" "set_dma_mask P = 0" using P by (simp_all add: pci_grants_def)
  let ?x = "x\<lparr>got_regions := True\<rparr>"
  define os1 where "os1 = (pci_check_intr_pend (os\<lparr>os_enabled := True\<rparr>))\<lparr>os_relaxed := True, os_readrq := 128, os_master := True, os_regions := True\<rparr>"
  let ?l1 = "pci_check_extended_tag P hw x l"
  have p: "open_pci P hw x os (xs @ [y]) l = Option.bind (map_bars P hw ?x ?l1) (\<lambda>(rv, x, l).
        if rv \<noteq> 0 then err_map x os1 (xs @ [y]) l
        else if set_dma_mask P \<noteq> 0 then err_mask x os1 (xs @ [y]) l else open_engines P hw x os1 (xs @ [y]) l)"
    unfolding os1_def using g(1,2) by (simp add: open_pci_def request_regions_def Let_def)
  have os1: "os_irqs os1 = []" "os_claim os1 = (True, True)" "os_bad_free os1 = os_bad_free os"
    using os by (simp_all add: os1_def os_claim_def pci_check_intr_pend_def)
  obtain x1 l2 where m: "map_bars P hw ?x ?l1 = Some (0, x1, l2)" "bar_free x1 = bar_free ?x" "config_bar_idx x1 = int k"
    using hw_map_bars [OF P hw, of ?x ?l1] o(7,8) by auto
  have x1: "xdev_core x1 = xdev_core ?x" "engines_num x1 = 0" "length (engines_h2c x1) = 2" "length (engines_c2h x1) = 2"
      "h2c_channel_max x1 = 2" "c2h_channel_max x1 = 1" using o by (subst bar_freeE [OF m(2)]; simp add: xdev_core_def)+
  obtain l3 where e: "open_engines P hw x1 os1 (xs @ [y]) l2 =
      Option.bind (probe_engines P hw x1 l3) (\<lambda>(rv, x, l). if rv \<noteq> 0 then err_engines x os1 (xs @ [y]) l else open_irqs P hw x os1 (xs @ [y]) l)"
    by (simp add: open_engines_def Let_def)
  obtain x2 l4 where q: "probe_engines P hw x1 l3 = Some (0, x2, l4)" "xdev_core x2 = xdev_core x1" "h2c_channel_max x2 = int h"
      "c2h_channel_max x2 = int c" "config_bar_idx x2 = int k" "length (engines_h2c x2) = 2" "length (engines_c2h x2) = 2"
    using hw_probe [OF hw m(3) x1(2-)] by blast
  have c2: "handle x2 = a" "pdev x2 = pd" "got_regions x2" "\<not> regions_in_use x2" "\<not> lock_held x2" "user_max x2 = 16"
      "length (h2c_irq_line x2) = 2" "length (c2h_irq_line x2) = 2" "user_irq x2 = user_irq (alloc_dev_instance a pd)"
    using q(2) x1(1) o(2) by (simp_all add: xdev_core_def alloc_dev_instance_def)
  have hc: "h \<le> 2" "c \<le> 2" using hw by (simp_all add: hw_found_def)
  from open_irqs_ok [OF P q(3,4) c2(6) hc c2(7,8) q(6,7) c2(3,4,5) os1(1), of hw "xs @ [y]" l4]
  obtain x3 os3 l5 where f: "open_irqs P hw x2 os1 (xs @ [y]) l4 = Some (Some x3, os3, xs @ [y], l5)" "dev_open P h c x3 os3" "os_claim os3 = os_claim os1"
      "os_msix os3" "os_bad_free os3 = os_bad_free os1" "handle x3 = handle x2" "pdev x3 = pdev x2" "config_bar_idx x3 = config_bar_idx x2"
      "user_irq x3 = user_irq x2" by blast
  have "xdma_device_open P hw (Some a) pd MAX_USER_IRQ XDMA_CHANNEL_NUM_MAX 1 os xs l = Some (Some x3, os3, xs @ [y], l5)"
    using o(1) p m(1) g(3) e q(1) f(1) by simp
  then show ?thesis using o(3,4) os1 q(5) c2(1,2,9) f(2-) by (auto simp: os_claim_def)
qed

lemma remove_loop_total:
  "i + n \<le> length (engines d x) \<Longrightarrow> \<exists>x' l'. remove_loop d n i x l = Some (x', l') \<and> length (engines d x') = length (engines d x) \<and>
     engines (other_dir d) x' = engines (other_dir d) x \<and> c2h_channel_max x' = c2h_channel_max x"
proof (induction n arbitrary: i x l)
  case (Suc n)
  then have "i < length (engines d x)" by simp
  moreover have "\<exists>x1 l1. (if magic (engines d x ! i) = MAGIC_ENGINE then engine_destroy d i (engines d x ! i) x l else (x, l)) = (x1, l1) \<and>
      length (engines d x1) = length (engines d x) \<and> engines (other_dir d) x1 = engines (other_dir d) x \<and> c2h_channel_max x1 = c2h_channel_max x"
    by (cases d) (auto simp: engine_destroy_def Let_def set_engine_def engines_def other_dir_def)
  ultimately obtain x1 l1 where "remove_loop d (Suc n) i x l = remove_loop d n (Suc i) x1 l1" "length (engines d x1) = length (engines d x)"
      "engines (other_dir d) x1 = engines (other_dir d) x" "c2h_channel_max x1 = c2h_channel_max x" by (auto simp: arr_get_def)
  then show ?case using Suc.IH [of "Suc i" x1 l1] Suc.prems by simp
qed simp

lemma remove_engines_total:
  assumes "h2c_channel_max x = int h" "c2h_channel_max x = int c" "h \<le> 2" "c \<le> 2" "length (engines_h2c x) = 2" "length (engines_c2h x) = 2"
  shows "\<exists>x' l'. remove_engines x l = Some (x', l')"
proof -
  obtain x1 l1 where r: "remove_loop DMA_TO_DEVICE h 0 x l = Some (x1, l1)" "engines_c2h x1 = engines_c2h x" "c2h_channel_max x1 = c2h_channel_max x"
    using remove_loop_total [of 0 h DMA_TO_DEVICE x l] assms by (auto simp: engines_def other_dir_def)
  obtain x2 l2 where "remove_loop DMA_FROM_DEVICE c 0 x1 l1 = Some (x2, l2)"
    using remove_loop_total [of 0 c DMA_FROM_DEVICE x1 l1] assms r by (auto simp: engines_def)
  then show ?thesis using r assms by (simp add: remove_engines_def)
qed

lemma xdma_close_ok:
  assumes P: "pci_grants P" and o: "dev_open P h c x os" and y: "handle y = handle x" "pdev y = pd" and pd: "pd \<noteq> 0"
    and fresh: "\<And>z. z \<in> set xs \<Longrightarrow> handle z \<noteq> handle x \<and> pdev z \<noteq> pd"
  shows "\<exists>l'. xdma_device_close P hw pd (Some x) os (xs @ [y]) l =
     Some (os\<lparr>os_irqs := [], os_msix := False, os_regions := False, os_enabled := False\<rparr>, xs, l')"
proof -
  have "find (\<lambda>x. pdev x = pd) xs = None" using fresh by (auto simp: find_None_iff)
  then have chk: "debug_check_dev_hndl pd (handle x) (xs @ [y]) = 0"
    using y pd by (induction xs) (auto simp: debug_check_dev_hndl_def xdev_find_by_pdev_def split: if_splits)
  note D = o [unfolded dev_open_def]
  let ?l = "snd (read_interrupts hw x (user_interrupts_disable x (NOT 0) (channel_interrupts_disable x (NOT 0) l)))"
  obtain l1 where t: "irq_teardown P x os ?l = Some (os\<lparr>os_irqs := []\<rparr>, l1)"
    using irq_teardown_ok [of h c 16 x P os ?l] D P by (auto simp: pci_grants_def)
  let ?x = "x\<lparr>msix_enabled := False\<rparr>"
  have m: "disable_msi_msix x (os\<lparr>os_irqs := []\<rparr>) = (?x, os\<lparr>os_irqs := [], os_msix := False\<rparr>)"
    using D by (simp add: disable_msi_msix_def msix_dev_def)
  obtain z l2 where r: "remove_engines ?x l1 = Some (z, l2)"
    using remove_engines_total [of ?x h c l1] D by (auto simp: msix_dev_def)
  have z: "handle z = handle x" "got_regions z" "\<not> regions_in_use z"
    using remove_engines_claim [OF r] D by (simp_all add: xdev_claim_def)
  have "xdev_list_remove (unmap_bars z) (xs @ [y]) = xs"
    using fresh y z(1) by (auto simp: xdev_list_remove_def unmap_bars_def filter_id_conv)
  then show ?thesis using chk t m r z by (simp add: xdma_device_close_def Let_def split_beta unmap_bars_def)
qed

lemma sample_hw: "pci_grants sample_pci" "hw_found sample_pci sample_ids 1 2 1"
proof -
  show "pci_grants sample_pci" by (simp add: pci_grants_def sample_pci_def set_dma_mask_def msi_msix_capable_def)
  let ?ii = "\<lambda>i :: nat. if i = 1 then 0x1fc20006 else 0 :: u32" and ?ci = "\<lambda>i :: nat. if i = 1 then 0x1fc30006 else 0 :: u32"
  have "\<forall>l i. sample_ids l (int i, XDMA_OFS_INT_CTRL) = ?ii i" "\<forall>l i. sample_ids l (int i, XDMA_OFS_CONFIG) = ?ci i"
    by (simp_all add: sample_ids_def)
  moreover have "config_candidate sample_pci ?ii ?ci 1" "\<forall>j<1. \<not> config_candidate sample_pci ?ii ?ci j"
    by (simp_all add: config_candidate_def sample_pci_def)
  ultimately have ids: "\<exists>irq_id cfg_id. (\<forall>l i. sample_ids l (int i, XDMA_OFS_INT_CTRL) = irq_id i) \<and>
      (\<forall>l i. sample_ids l (int i, XDMA_OFS_CONFIG) = cfg_id i) \<and>
      config_candidate sample_pci irq_id cfg_id 1 \<and> (\<forall>j<1. \<not> config_candidate sample_pci irq_id cfg_id j)"
    by (intro exI [of _ ?ii] exI [of _ ?ci] conjI)
  show "hw_found sample_pci sample_ids 1 2 1" unfolding hw_found_def
    by (intro conjI ids allI impI; simp add: sample_engines)
qed

subsection \<open>Taking the device offline and online\<close>

text \<open>A device offline: everything of \<open>dev_open\<close> except that no interrupt is requested.\<close>

lemma device_offline_ok:
  assumes P: "pci_grants P" and o: "dev_open P h c x os" and chk: "debug_check_dev_hndl pd (handle x) xs = 0"
  shows "\<exists>x' l'. xdma_device_offline P hw pd x os xs l = Some (x', os\<lparr>os_irqs := []\<rparr>, l') \<and> xdev_shape x' = xdev_shape x"
proof -
  note D = o [unfolded dev_open_def]
  let ?x = "x\<lparr>flags := flags x OR XDEV_FLAG_OFFLINE\<rparr>"
  have sh: "xdev_shape ?x = xdev_shape x" by (simp add: xdev_shape_def xdev_core_def)
  obtain x1 l1 where 1: "offline_loop DMA_TO_DEVICE h 0 ?x l = Some (x1, l1)" "xdev_shape x1 = xdev_shape x"
    using offline_loop_total [of 0 h DMA_TO_DEVICE ?x l] D sh by (auto simp: engines_def msix_dev_def)
  obtain x2 l2 where 2: "offline_loop DMA_FROM_DEVICE c 0 x1 l1 = Some (x2, l2)" "xdev_shape x2 = xdev_shape x"
    using offline_loop_total [of 0 c DMA_FROM_DEVICE x1 l1] D 1(2) by (auto simp: engines_def msix_dev_def xdev_shape_def)
  let ?l = "snd (read_interrupts hw x2 (user_interrupts_disable x2 (NOT 0) (channel_interrupts_disable x2 (NOT 0) l2)))"
  have o2: "dev_open P h c x2 os" using dev_open_shape [OF 2(2)] o by simp
  obtain l3 where t: "irq_teardown P x2 os ?l = Some (os\<lparr>os_irqs := []\<rparr>, l3)"
    using irq_teardown_ok [of h c 16 x2 P os ?l] o2 P by (auto simp: pci_grants_def dev_open_def)
  have "c2h_channel_max x1 = int c" using 1(2) D by (simp add: xdev_shape_def msix_dev_def)
  then have "xdma_device_offline P hw pd x os xs l = Some (x2, os\<lparr>os_irqs := []\<rparr>, l3)"
    using chk D 1(1) 2(1) t by (simp add: xdma_device_offline_def flag_ops(2) msix_dev_def Let_def split_beta)
  then show ?thesis using 2(2) by blast
qed

lemma device_online_ok:
  assumes P: "pci_grants P" and o: "dev_open P h c x (os\<lparr>os_irqs := channel_irqs P h c @ user_irqs P (h + c) 16\<rparr>)" and os: "os_irqs os = []"
    and chk: "debug_check_dev_hndl pd (handle x) xs = 0"
  shows "\<exists>x' os' l'. xdma_device_online P hw pd x os xs l = Some (x', os', l') \<and> dev_open P h c x' os' \<and> handle x' = handle x \<and>
     flags x' AND XDEV_FLAG_OFFLINE = 0 \<and> os_claim os' = os_claim os \<and> os_bad_free os' = os_bad_free os"
proof -
  note D = o [unfolded dev_open_def]
  obtain x1 l1 where 1: "online_loop hw DMA_TO_DEVICE h 0 x l = Some (x1, l1)" "xdev_shape x1 = xdev_shape x"
    using online_loop_total [of 0 h DMA_TO_DEVICE x hw l] D by (auto simp: engines_def msix_dev_def)
  obtain x2 l2 where 2: "online_loop hw DMA_FROM_DEVICE c 0 x1 l1 = Some (x2, l2)" "xdev_shape x2 = xdev_shape x"
    using online_loop_total [of 0 c DMA_FROM_DEVICE x1 hw l1] D 1(2) by (auto simp: engines_def msix_dev_def xdev_shape_def)
  have o2: "dev_open P h c x2 (os\<lparr>os_irqs := channel_irqs P h c @ user_irqs P (h + c) 16\<rparr>)" using dev_open_shape [OF 2(2)] o by simp
  then have d2: "msix_dev h c 16 x2" by (simp add: dev_open_def)
  let ?os = "(pci_keep_intx_enabled os)\<lparr>os_irqs := channel_irqs P h c @ user_irqs P (h + c) 16, os_tasklet := True\<rparr>"
  obtain hl cl l3 where s: "irq_setup P x2 os l2 = Some (0, x2\<lparr>h2c_irq_line := hl, c2h_irq_line := cl\<rparr>, ?os, l3)"
     "msix_dev h c 16 (x2\<lparr>h2c_irq_line := hl, c2h_irq_line := cl\<rparr>)" "lines_set P h c (x2\<lparr>h2c_irq_line := hl, c2h_irq_line := cl\<rparr>)"
    using irq_setup_ok [OF d2 os, of P l2] P by (auto simp: pci_grants_def)
  let ?x = "x2\<lparr>h2c_irq_line := hl, c2h_irq_line := cl\<rparr>"
  let ?y = "?x\<lparr>flags := flags ?x AND NOT XDEV_FLAG_OFFLINE\<rparr>"
  have "c2h_channel_max x1 = int c" using 1(2) D by (simp add: xdev_shape_def msix_dev_def)
  then have "\<exists>l'. xdma_device_online P hw pd x os xs l = Some (?y, ?os, l')"
    using chk D 1(1) 2(1) s(1) o2 by (simp add: xdma_device_online_def flag_ops(3) msix_dev_def dev_open_def Let_def split_beta)
  moreover have "dev_open P h c ?y ?os" using o2 s(2,3) by (simp add: dev_open_def msix_dev_def lines_set_def)
  moreover have "handle ?y = handle x" using 2(2) by (simp add: xdev_shape_def xdev_core_def)
  moreover have "flags ?y AND XDEV_FLAG_OFFLINE = 0" by (simp add: and.assoc)
  moreover have "os_claim ?os = os_claim os" "os_bad_free ?os = os_bad_free os" by (simp_all add: os_claim_def pci_keep_intx_enabled_def Let_def)
  ultimately show ?thesis by blast
qed

subsection \<open>Properties\<close>

text \<open>
  C10. Opening a device and closing it is balanced: on working hardware \<open>xdma_device_open\<close> succeeds,
  appends the device to the list, enables it, takes its regions and requests one handler per channel
  and user interrupt; \<open>xdma_device_close\<close> then frees every interrupt exactly once, releases the
  regions, disables the device, leaves MSI-X mode and takes the device off the list, which is again
  the list before.
\<close>

theorem xdma_open_close_balanced:
  assumes P: "pci_grants P" and hw: "hw_found P hw k h c" and os: "os_irqs os = []" and pd: "pd \<noteq> 0"
    and fresh: "\<And>z. z \<in> set xs \<Longrightarrow> handle z \<noteq> a \<and> pdev z \<noteq> pd"
  shows "\<exists>x y os1 os2 l1 l2. xdma_device_open P hw (Some a) pd MAX_USER_IRQ XDMA_CHANNEL_NUM_MAX 1 os xs l = Some (Some x, os1, xs @ [y], l1) \<and>
     os_enabled os1 \<and> os_regions os1 \<and> map (fst \<circ> snd) (os_irqs os1) = map Ck_h2c [0..<h] @ map Ck_c2h [0..<c] @ map Ck_user [0..<16] \<and>
     xdma_device_close P hw pd (Some x) os1 (xs @ [y]) l1 = Some (os2, xs, l2) \<and>
     os_irqs os2 = [] \<and> \<not> os_enabled os2 \<and> \<not> os_regions os2 \<and> \<not> os_msix os2 \<and> os_bad_free os2 = os_bad_free os"
proof -
  obtain x y os1 l1 where o: "xdma_device_open P hw (Some a) pd MAX_USER_IRQ XDMA_CHANNEL_NUM_MAX 1 os xs l = Some (Some x, os1, xs @ [y], l1)"
      "dev_open P h c x os1" "os_enabled os1" "os_regions os1" "os_bad_free os1 = os_bad_free os" "handle x = a" "handle y = a" "pdev y = pd"
    using xdma_open_ok [OF P hw os] by blast
  have "map (fst \<circ> snd) (os_irqs os1) = map Ck_h2c [0..<h] @ map Ck_c2h [0..<c] @ map Ck_user [0..<16]"
    using o(2) by (simp add: dev_open_def h2c_irqs_def c2h_irqs_def user_irqs_def comp_def)
  moreover obtain l2 where "xdma_device_close P hw pd (Some x) os1 (xs @ [y]) l1 =
      Some (os1\<lparr>os_irqs := [], os_msix := False, os_regions := False, os_enabled := False\<rparr>, xs, l2)"
    using xdma_close_ok [OF P o(2), where hw = hw and l = l1 and y = y and pd = pd and xs = xs] o(6-8) pd fresh by auto
  ultimately show ?thesis using o(1,3-5) by auto
qed

theorem xdma_open_close_balanced_witness:
  "\<exists>x y os1 os2 l1 l2. xdma_device_open sample_pci sample_ids (Some 0x1000) 0x2000 MAX_USER_IRQ XDMA_CHANNEL_NUM_MAX 1 sample_os [] [] =
       Some (Some x, os1, [y], l1) \<and> length (os_irqs os1) = 19 \<and>
     xdma_device_close sample_pci sample_ids 0x2000 (Some x) os1 [y] l1 = Some (os2, [], l2) \<and> os_irqs os2 = [] \<and> os_bad_free os2 = 0"
proof -
  have os: "os_irqs sample_os = []" "os_bad_free sample_os = 0" by (simp_all add: sample_os_def)
  obtain x y os1 os2 l1 l2 where o: "xdma_device_open sample_pci sample_ids (Some 0x1000) 0x2000 MAX_USER_IRQ XDMA_CHANNEL_NUM_MAX 1 sample_os [] [] =
       Some (Some x, os1, [] @ [y], l1)" "map (fst \<circ> snd) (os_irqs os1) = map Ck_h2c [0..<2] @ map Ck_c2h [0..<1] @ map Ck_user [0..<16]"
     "xdma_device_close sample_pci sample_ids 0x2000 (Some x) os1 ([] @ [y]) l1 = Some (os2, [], l2)" "os_irqs os2 = []"
     "os_bad_free os2 = os_bad_free sample_os"
    using xdma_open_close_balanced [OF sample_hw os(1), where pd = "0x2000" and xs = "[]" and a = "0x1000" and l = "[]"] by (auto simp del: append_Nil)
  have "length (os_irqs os1) = 19" using arg_cong [OF o(2), of length] by simp
  with o os show ?thesis by auto
qed

end
