(* ===== verification/Probe.thy ===== *)
theory Probe
  imports Xdma_Life Ax_Ptp Ioctl Mdio
begin

section \<open>Attaching and detaching the driver\<close>

text \<open>
  \<open>axm57104_probe\<close> and \<open>axm57104_remove\<close> (\<open>xdma_mod.c\<close>) with the routines only they call: the composition
  of all other components. What the kernel hands out and takes back is the list \<open>held\<close>: memory, the
  registered network device, its NAPI context, the armed PHY timer, the MDIO bus, device and driver,
  clocks and proc entries. Reading through a pointer that is null, not yet set, or whose memory was
  given back is \<open>None\<close>, as is a kernel assertion that fails. Names and log messages are left out, and
  so are the network device's own settings that the other theories do not use. \<open>AX_CONFIG_PM\<close> is not
  defined, so suspend and resume are not part of the driver.
\<close>

subsection \<open>State\<close>

datatype proc_entry = Proc_dir | Proc_old | Proc_new | Proc_core

datatype resource = Res_pcidev | Res_netdev | Res_registered | Res_napi | Res_timer | Res_mdio_bus | Res_mdio_dev | Res_mdio_driver
  | Res_clock int | Res_proc proc_entry | Res_rx_queue | Res_tx_queue

text \<open>The private part of the network device; pointers are represented by whether they are set.\<close>

record ax_private =
  l_dev :: bool
  l_sw :: ax_switch
  l_mdio :: bool
  l_mdiodev :: bool
  l_proc :: "proc_entry list"

text \<open>
  \<open>p_xdev\<close> is the DMA device behind \<open>pcidev->xdev\<close>, \<open>None\<close> while that member is not set. \<open>drvdata\<close> says
  whether the driver data of the PCI device points to \<open>pcidev\<close>.
\<close>

record drv_state =
  drv_os :: os_state
  xdev_list :: "xdma_dev list"
  drv_log :: io_log
  held :: "resource list"
  p_xdev :: "xdma_dev option"
  drvdata :: bool
  drv_desc_flag :: int
  ax_local :: ax_private

text \<open>The answers of the kernel and the hardware.\<close>

record drv_env =
  env_pci :: pci_env
  env_hw :: device
  pdev_addr :: int
  pcidev_mem :: bool
  xdev_addr :: "int option"
  etherdev_mem :: bool
  rx_mem :: "int \<Rightarrow> capture_data list option"
  tx_mem :: "int \<Rightarrow> capture_data list option"
  rand_mac :: "u8 list"
  register_netdev_rv :: int
  mdiobus_mem :: bool
  mdiobus_rv :: int
  mdiodev_mem :: bool
  mdiodev_rv :: int
  clock_register :: "nat \<Rightarrow> int option"
  clock_idx :: "int option \<Rightarrow> int option"
  mdio_driver_rv :: int
  proc_mem :: "proc_entry \<Rightarrow> bool"
  enable_mem_rv :: int

definition acquire :: "resource \<Rightarrow> drv_state \<Rightarrow> drv_state" where
  "acquire r st = st\<lparr>held := r # held st\<rparr>"

definition release :: "resource \<Rightarrow> drv_state \<Rightarrow> drv_state option" where
  "release r st = (if r \<in> set (held st) then Some (st\<lparr>held := remove1 r (held st)\<rparr>) else None)"

text \<open>What the kernel takes back without complaint if it is not there: an inactive timer, a NAPI context, an unregistered driver.\<close>

definition withdraw :: "resource \<Rightarrow> drv_state \<Rightarrow> drv_state" where
  "withdraw r st = st\<lparr>held := remove1 r (held st)\<rparr>"

text \<open>\<open>free_netdev\<close> asserts that the device is not registered, and drops its NAPI contexts.\<close>

definition free_netdev :: "drv_state \<Rightarrow> drv_state option" where
  "free_netdev st = (if Res_registered \<in> set (held st) then None else release Res_netdev (withdraw Res_napi st))"

text \<open>A private part fresh from \<open>alloc_etherdev\<close>, all zero.\<close>

definition zero_queue :: ts_queue where
  "zero_queue = \<lparr>ts_items = [], write_ptr = 0, num_items = 0, max_num_items = 0\<rparr>"

definition zero_private :: ax_private where
  "zero_private = \<lparr>l_dev = False, l_sw = \<lparr>pMemBase = 0, rx_queue = zero_queue, tx_queue = zero_queue,
     ax_ptp_clocks = replicate 2 \<lparr>ptp_clock = None, ptp_clock_index = 0, domain_index = 0, base_addend_val = 0, clk_pMemBase = 0\<rparr>,
     number_of_ports = 0, number_of_domains = 0, domain_number_map = replicate 3 0, phc_id = 0, ptp_mode = 0\<rparr>,
     l_mdio = False, l_mdiodev = False, l_proc = []\<rparr>"

subsection \<open>The MDIO bus and its device\<close>

definition ax_init_mdio :: "drv_env \<Rightarrow> drv_state \<Rightarrow> int \<times> drv_state" where
  "ax_init_mdio E st =
     (if \<not> mdiobus_mem E then (ENOMEM_NEG, st)
      else
        (let st = st\<lparr>ax_local := (ax_local st)\<lparr>l_mdio := True\<rparr>\<rparr> in
         if mdiobus_rv E \<noteq> 0 then (mdiobus_rv E, st\<lparr>ax_local := (ax_local st)\<lparr>l_mdio := False\<rparr>\<rparr>)
         else (0, acquire Res_mdio_bus st)))"

definition ax_remove_mdio :: "drv_state \<Rightarrow> drv_state option" where
  "ax_remove_mdio st = (if \<not> l_mdio (ax_local st) then None else release Res_mdio_bus st)"

text \<open>The device is created on the bus \<open>ax_local->mdio\<close>; its name is an array, so the test for it always succeeds.\<close>

definition ax_create_mdio_dev :: "drv_env \<Rightarrow> drv_state \<Rightarrow> (int \<times> drv_state) option" where
  "ax_create_mdio_dev E st =
     (if \<not> l_mdio (ax_local st) then None
      else if \<not> mdiodev_mem E then Some (ENOMEM_NEG, st)
      else if mdiodev_rv E \<noteq> 0 then Some (mdiodev_rv E, st)
      else Some (0, acquire Res_mdio_dev (st\<lparr>ax_local := (ax_local st)\<lparr>l_mdiodev := True\<rparr>\<rparr>)))"

subsection \<open>Releasing the device\<close>

definition xpdev_free :: "drv_env \<Rightarrow> drv_state \<Rightarrow> drv_state option" where
  "xpdev_free E st =
     Option.bind (xdma_device_close (env_pci E) (env_hw E) (pdev_addr E) (p_xdev st) (drv_os st) (xdev_list st) (drv_log st)) (\<lambda>(os, xs, l).
     release Res_pcidev (st\<lparr>drv_os := os, xdev_list := xs, drv_log := l, p_xdev := None\<rparr>))"

definition proc_remove :: "proc_entry \<Rightarrow> drv_state \<Rightarrow> drv_state option" where
  "proc_remove p st = (if p \<in> set (l_proc (ax_local st)) then release (Res_proc p) st else Some st)"

text \<open>
  The label \<open>err_out\<close>: \<open>loc\<close> says whether \<open>ax_local\<close> is set. It is still read after the network device it
  lives in was freed.
\<close>

definition err_out :: "drv_env \<Rightarrow> int \<Rightarrow> bool \<Rightarrow> drv_state \<Rightarrow> (int \<times> drv_state) option" where
  "err_out E rv loc st =
     (case p_xdev st of
        None \<Rightarrow> None
      | Some x \<Rightarrow>
          (let os = (if got_regions x then (drv_os st)\<lparr>os_regions := False\<rparr> else drv_os st);
               os = (if \<not> regions_in_use x then os\<lparr>os_enabled := False\<rparr> else os)
           in Option.bind (xpdev_free E (st\<lparr>drv_os := os\<rparr>)) (\<lambda>st.
              if \<not> loc then None
              else Option.bind (if l_dev (ax_local st) then free_netdev st else Some st) (\<lambda>st.
                   if Res_netdev \<notin> set (held st) then None
                   else map_option (Pair rv) (fold_opt (\<lambda>st p. proc_remove p st) st [Proc_dir, Proc_new, Proc_old, Proc_core])))))"

definition err_out1 :: "drv_env \<Rightarrow> int \<Rightarrow> drv_state \<Rightarrow> (int \<times> drv_state) option" where
  "err_out1 E rv st = err_out E rv True (withdraw Res_napi st)"

subsection \<open>Probing, the last steps first\<close>

definition proc_create :: "proc_entry \<Rightarrow> drv_state \<Rightarrow> drv_state" where
  "proc_create p st = acquire (Res_proc p) (st\<lparr>ax_local := (ax_local st)\<lparr>l_proc := p # l_proc (ax_local st)\<rparr>\<rparr>)"

text \<open>From the proc directory to the end; the two version registers are read for the log only.\<close>

definition probe_proc :: "drv_env \<Rightarrow> drv_state \<Rightarrow> (int \<times> drv_state) option" where
  "probe_proc E st =
     (if \<not> proc_mem E Proc_dir then err_out1 E ENODEV_NEG st
      else let st = proc_create Proc_dir st in
        if \<not> proc_mem E Proc_old then err_out1 E EINVAL_NEG st
        else let st = proc_create Proc_old st in
          if \<not> proc_mem E Proc_new then err_out1 E EINVAL_NEG st
          else let st = proc_create Proc_new st in
            if \<not> proc_mem E Proc_core then err_out1 E EINVAL_NEG st
            else let st = proc_create Proc_core st;
                     (switch_ver, l) = ioread32 (env_hw E) (0, DRIVER_VERSION) (drv_log st);
                     (core_ver, l) = ioread32 (env_hw E) (2, CORE_VERSION) l
                 in Some (0, st\<lparr>drv_log := l\<rparr>))"

text \<open>The PHYs are reached through \<open>ax_local->mdio\<close>. \<open>ax_init_rgmii\<close> needs no more than six rounds of its inner loop.\<close>

definition phy_setup :: "device \<Rightarrow> ax_private \<Rightarrow> io_log \<Rightarrow> io_log option" where
  "phy_setup hw loc l =
     (if \<not> l_mdio loc then None
      else
        Option.bind (ax_init_rgmii 6 hw (l_sw loc) l) (\<lambda>l.
        let l = ax_init_phy_led hw (l_sw loc) l;
            l = ax_phy_greeneth hw (l_sw loc) False l;
            l = ax_phy_EEE hw (l_sw loc) False l;
            l = ax_phy_PTP hw (l_sw loc) False l;
            l = ax_phy_serdes hw (l_sw loc) l
        in Some (ax_restart_autoneg hw (l_sw loc) l)))"

definition acquire_clocks :: "drv_env \<Rightarrow> drv_state \<Rightarrow> drv_state" where
  "acquire_clocks E st = fold (\<lambda>i st. case clock_register E i of None \<Rightarrow> st | Some c \<Rightarrow> acquire (Res_clock c) st) [0..<nat PTP_DOMAIN_NUM] st"

text \<open>From the registered network device on.\<close>

definition probe_late :: "drv_env \<Rightarrow> xdma_dev \<Rightarrow> drv_state \<Rightarrow> (int \<times> drv_state) option" where
  "probe_late E x st =
     (let (_, st) = ax_init_mdio E st in
      Option.bind (ax_create_mdio_dev E st) (\<lambda>(_, st).
      Option.bind (ax_ptp_init (clock_register E) (clock_idx E) (env_hw E) (l_sw (ax_local st)) (drv_log st)) (\<lambda>(sw, l).
      let st = acquire_clocks E (st\<lparr>ax_local := (ax_local st)\<lparr>l_sw := sw\<rparr>\<rparr>);
          x = xdma_user_isr_register (env_pci E) x;
          (_, x, l) = xdma_user_isr_enable (env_hw E) 0xFE x l
      in Option.bind (phy_setup (env_hw E) (ax_local st) l) (\<lambda>l.
         let st = acquire Res_timer (st\<lparr>p_xdev := Some x, drv_log := l\<rparr>);
             st = (if mdio_driver_rv E = 0 then acquire Res_mdio_driver st else st)
         in probe_proc E st))))"

text \<open>The queues that hold memory after \<open>ax_tsn_init_switch\<close>.\<close>

definition queue_memory :: "ax_switch \<Rightarrow> resource list" where
  "queue_memory sw = (if max_num_items (tx_queue sw) \<noteq> 0 then [Res_tx_queue] else []) @ (if max_num_items (rx_queue sw) \<noteq> 0 then [Res_rx_queue] else [])"

text \<open>From the allocation of the network device on. \<open>rv\<close> is 0 throughout: the one assignment stands behind the \<open>goto\<close>.\<close>

definition probe_net :: "drv_env \<Rightarrow> xdma_dev \<Rightarrow> drv_state \<Rightarrow> (int \<times> drv_state) option" where
  "probe_net E x st =
     (if \<not> etherdev_mem E then err_out E 0 False st
      else
        (let st = acquire Res_netdev (st\<lparr>ax_local := zero_private, drvdata := True\<rparr>);
             (rv_sw, sw) = ax_tsn_init_switch (rx_mem E) (tx_mem E) (Some (l_sw (ax_local st)))
         in case sw of
              None \<Rightarrow> None
            | Some sw \<Rightarrow>
                (let st = st\<lparr>ax_local := (ax_local st)\<lparr>l_sw := sw\<rparr>, held := queue_memory sw @ held st\<rparr> in
                 if rv_sw \<noteq> 0 then err_out E 0 True st
                 else
                   (let st = st\<lparr>ax_local := (ax_local st)\<lparr>l_dev := True\<rparr>\<rparr> in
                    Option.bind (ax_i2c_read (env_hw E) (rand_mac E) 6 0 (drv_log st)) (\<lambda>(addr, _, l).
                    let st = st\<lparr>drv_log := l, ax_local := (ax_local st)\<lparr>l_sw := (l_sw (ax_local st))\<lparr>pMemBase := 2\<rparr>\<rparr>\<rparr>;
                        st = acquire Res_napi st
                    in if \<not> is_valid_ether_addr addr then err_out E 0 True st
                       else
                         (let st = st\<lparr>drv_log := ax_set_mac_reg addr (drv_log st)\<rparr> in
                          if register_netdev_rv E \<noteq> 0 then err_out1 E 0 st
                          else probe_late E x (acquire Res_registered st)))))))"

definition axm57104_probe :: "drv_env \<Rightarrow> drv_state \<Rightarrow> (int \<times> drv_state) option" where
  "axm57104_probe E st =
     (if \<not> pcidev_mem E then Some (ENOMEM_NEG, st)
      else
        (let st = acquire Res_pcidev (st\<lparr>p_xdev := None\<rparr>) in
         Option.bind (xdma_device_open (env_pci E) (env_hw E) (xdev_addr E) (pdev_addr E) MAX_USER_IRQ XDMA_CHANNEL_NUM_MAX 1
             (drv_os st) (xdev_list st) (drv_log st)) (\<lambda>(hndl, os, xs, l).
         let st = st\<lparr>drv_os := os, xdev_list := xs, drv_log := l\<rparr> in
         case hndl of
           None \<Rightarrow> Some (EINVAL_NEG, st)
         | Some x \<Rightarrow>
             if h2c_channel_max x = 0 \<and> c2h_channel_max x = 0 then Some (EINVAL_NEG, st)
             else
               (let (rv, x, l) = (if user_max x \<noteq> 0
                                  then xdma_user_isr_enable (env_hw E) ((push_bit (nat (user_max x + 1)) 1 - 1) AND 0xFFFE) x l else (0, x, l));
                    st = st\<lparr>drv_log := l\<rparr>
                in if rv \<noteq> 0 then err_out E rv False st
                   else (case xdev_find_by_pdev (pdev_addr E) xs of
                           None \<Rightarrow> Some (EINVAL_NEG, st)
                         | Some y \<Rightarrow>
                             if handle y \<noteq> handle x then None
                             else probe_net E x (st\<lparr>p_xdev := Some x, drv_desc_flag := 0\<rparr>))))))"

subsection \<open>Removing\<close>

definition axm57104_remove :: "drv_env \<Rightarrow> drv_state \<Rightarrow> drv_state option" where
  "axm57104_remove E st =
     (if \<not> drvdata st then Some st
      else if Res_pcidev \<notin> set (held st) then None
      else if Res_netdev \<notin> set (held st) then None
      else
        Option.bind (fold_opt (\<lambda>st p. proc_remove p st) (withdraw Res_timer st) [Proc_new, Proc_old, Proc_core, Proc_dir]) (\<lambda>st.
        let st = withdraw Res_napi st in
        case p_xdev st of
          None \<Rightarrow> None
        | Some x \<Rightarrow>
            (let (_, x, l) = xdma_user_isr_disable (env_hw E) 0xFE x (drv_log st);
                 st = st\<lparr>p_xdev := Some x, drv_log := l\<rparr>
             in Option.bind (ax_ptp_remove (l_sw (ax_local st))) (\<lambda>cs.
                Option.bind (fold_opt (\<lambda>st c. release (Res_clock c) st) st cs) (\<lambda>st.
                Option.bind (ax_remove_mdio (withdraw Res_mdio_driver st)) (\<lambda>st.
                Option.bind (release Res_registered st) (\<lambda>st.
                Option.bind (free_netdev st) (\<lambda>st.
                map_option (\<lambda>st. st\<lparr>drvdata := False\<rparr>) (xpdev_free E st)))))))))"

subsection \<open>Errors on the PCI bus\<close>

datatype pci_channel_state = Io_normal | Io_frozen | Io_perm_failure

datatype ers_result = Can_recover | Need_reset | Disconnect | Recovered

text \<open>The handlers find the device through the driver data, which \<open>axm57104_probe\<close> sets.\<close>

definition on_xdev :: "(xdma_dev \<Rightarrow> os_state \<Rightarrow> xdma_dev list \<Rightarrow> io_log \<Rightarrow> (xdma_dev \<times> os_state \<times> io_log) option) \<Rightarrow> drv_state \<Rightarrow> drv_state option" where
  "on_xdev f st =
     (if \<not> drvdata st \<or> Res_pcidev \<notin> set (held st) then None
      else Option.bind (p_xdev st) (\<lambda>x.
           map_option (\<lambda>(x, os, l). st\<lparr>p_xdev := Some x, drv_os := os, drv_log := l\<rparr>) (f x (drv_os st) (xdev_list st) (drv_log st))))"

definition axpci_error_detected :: "drv_env \<Rightarrow> pci_channel_state \<Rightarrow> drv_state \<Rightarrow> (ers_result \<times> drv_state) option" where
  "axpci_error_detected E s st =
     (case s of
        Io_normal \<Rightarrow> Some (Can_recover, st)
      | Io_frozen \<Rightarrow>
          map_option (\<lambda>st. (Need_reset, st\<lparr>drv_os := (drv_os st)\<lparr>os_enabled := False\<rparr>\<rparr>))
            (on_xdev (xdma_device_offline (env_pci E) (env_hw E) (pdev_addr E)) st)
      | Io_perm_failure \<Rightarrow> Some (Disconnect, st))"

definition axpci_slot_reset :: "drv_env \<Rightarrow> drv_state \<Rightarrow> (ers_result \<times> drv_state) option" where
  "axpci_slot_reset E st =
     (if enable_mem_rv E \<noteq> 0 then Some (Disconnect, st)
      else map_option (Pair Recovered)
        (on_xdev (xdma_device_online (env_pci E) (env_hw E) (pdev_addr E))
          (st\<lparr>drv_os := (drv_os st)\<lparr>os_enabled := True, os_master := True\<rparr>\<rparr>)))"

definition axpci_reset_prepare :: "drv_env \<Rightarrow> drv_state \<Rightarrow> drv_state option" where
  "axpci_reset_prepare E st = on_xdev (xdma_device_offline (env_pci E) (env_hw E) (pdev_addr E)) st"

definition axpci_reset_done :: "drv_env \<Rightarrow> drv_state \<Rightarrow> drv_state option" where
  "axpci_reset_done E st = on_xdev (xdma_device_online (env_pci E) (env_hw E) (pdev_addr E)) st"

subsection \<open>The DMA device between probe and remove\<close>

text \<open>The kernel and the hardware let the DMA device be opened, and no other device has its identity.\<close>

definition attachable :: "drv_env \<Rightarrow> drv_state \<Rightarrow> bool" where
  "attachable E st \<longleftrightarrow> pci_grants (env_pci E) \<and> (\<exists>k h c. hw_found (env_pci E) (env_hw E) k h c \<and> 0 < h + c) \<and> pcidev_mem E \<and> pdev_addr E \<noteq> 0 \<and>
     (\<exists>a. xdev_addr E = Some a \<and> (\<forall>z \<in> set (xdev_list st). handle z \<noteq> a \<and> pdev z \<noteq> pdev_addr E)) \<and> os_irqs (drv_os st) = [] \<and>
     length (rand_mac E) = 6"

text \<open>The opened device \<open>x\<close> behind \<open>pcidev\<close>; \<open>xs\<close> are the other devices and \<open>n\<close> the interrupts wrongly freed so far.\<close>

definition xdev_attached :: "drv_env \<Rightarrow> xdma_dev list \<Rightarrow> nat \<Rightarrow> xdma_dev \<Rightarrow> drv_state \<Rightarrow> bool" where
  "xdev_attached E xs n x st \<longleftrightarrow> p_xdev st = Some x \<and> (\<exists>h c. dev_open (env_pci E) h c x (drv_os st)) \<and> os_bad_free (drv_os st) = n \<and>
     (\<exists>y. xdev_list st = xs @ [y] \<and> handle y = handle x \<and> pdev y = pdev_addr E) \<and>
     (\<forall>z \<in> set xs. handle z \<noteq> handle x \<and> pdev z \<noteq> pdev_addr E)"

definition os_released :: "nat \<Rightarrow> os_state \<Rightarrow> bool" where
  "os_released n os \<longleftrightarrow> os_irqs os = [] \<and> \<not> os_enabled os \<and> \<not> os_regions os \<and> os_bad_free os = n"

lemma isr_enable_keeps:
  "\<exists>x' l'. xdma_user_isr_enable hw m x l = (0, x', l') \<and> xdev_core x' = xdev_core x \<and> dev_open P h c x' os = dev_open P h c x os \<and>
     h2c_channel_max x' = h2c_channel_max x \<and> c2h_channel_max x' = c2h_channel_max x"
  "\<exists>x' l'. xdma_user_isr_disable hw m x l = (0, x', l') \<and> xdev_core x' = xdev_core x \<and> dev_open P h c x' os = dev_open P h c x os"
  by (simp_all add: xdma_user_isr_enable_def xdma_user_isr_disable_def split_beta Let_def xdev_core_def dev_open_def msix_dev_def lines_set_def)

lemma set_handler_open [simp]:
  "dev_open P h c (set_handler i uh x) os = dev_open P h c x os" "handle (set_handler i uh x) = handle x"
  by (simp_all add: set_handler_def dev_open_def msix_dev_def lines_set_def)

lemma fold_set_handler_open [simp]:
  "dev_open P h c (fold (\<lambda>i. set_handler i uh) is x) os = dev_open P h c x os" "handle (fold (\<lambda>i. set_handler i uh) is x) = handle x"
  by (induction "is" arbitrary: x) simp_all

lemma isr_register_open:
  "dev_open P h c (xdma_user_isr_register P' x) os = dev_open P h c x os" "handle (xdma_user_isr_register P' x) = handle x"
proof -
  have "dev_open P h c (x\<lparr>user_irq := us\<rparr>) os = dev_open P h c x os" for us by (simp add: dev_open_def msix_dev_def lines_set_def)
  then show "dev_open P h c (xdma_user_isr_register P' x) os = dev_open P h c x os" "handle (xdma_user_isr_register P' x) = handle x"
    by (simp_all add: xdma_user_isr_register_def Let_def del: fold_simps)
qed

lemma xpdev_free_ok:
  assumes "xdev_attached E xs n x st" "pci_grants (env_pci E)" "pdev_addr E \<noteq> 0" "Res_pcidev \<in> set (held st)"
  shows "\<exists>os l. xpdev_free E st = Some (st\<lparr>drv_os := os, xdev_list := xs, drv_log := l, p_xdev := None, held := remove1 Res_pcidev (held st)\<rparr>) \<and>
     os_released n os"
proof -
  obtain h c y where a: "p_xdev st = Some x" "dev_open (env_pci E) h c x (drv_os st)" "xdev_list st = xs @ [y]" "handle y = handle x"
      "pdev y = pdev_addr E" "\<And>z. z \<in> set xs \<Longrightarrow> handle z \<noteq> handle x \<and> pdev z \<noteq> pdev_addr E" "os_bad_free (drv_os st) = n"
    using assms(1) unfolding xdev_attached_def by blast
  obtain l where "xdma_device_close (env_pci E) (env_hw E) (pdev_addr E) (Some x) (drv_os st) (xs @ [y]) (drv_log st) =
      Some ((drv_os st)\<lparr>os_irqs := [], os_msix := False, os_regions := False, os_enabled := False\<rparr>, xs, l)"
    using xdma_close_ok [OF assms(2) a(2,4,5) assms(3) a(6), where hw = "env_hw E" and l = "drv_log st" and xs = xs] by blast
  moreover have "os_released n ((drv_os st)\<lparr>os_irqs := [], os_msix := False, os_regions := False, os_enabled := False\<rparr>)"
    using a(7) by (simp add: os_released_def)
  ultimately show ?thesis using a(1,3) assms(4) by (intro exI conjI) (simp add: xpdev_free_def release_def)
qed

lemma probe_opens:
  assumes "attachable E st"
  shows "\<exists>x st'. axm57104_probe E st = probe_net E x st' \<and> xdev_attached E (xdev_list st) (os_bad_free (drv_os st)) x st' \<and>
     held st' = Res_pcidev # held st"
proof -
  obtain k h c a where A: "pci_grants (env_pci E)" "hw_found (env_pci E) (env_hw E) k h c" "0 < h + c" "xdev_addr E = Some a" "pcidev_mem E"
      "\<And>z. z \<in> set (xdev_list st) \<Longrightarrow> handle z \<noteq> a \<and> pdev z \<noteq> pdev_addr E" "os_irqs (drv_os st) = []"
    using assms unfolding attachable_def by blast
  obtain x y os l where o: "xdma_device_open (env_pci E) (env_hw E) (Some a) (pdev_addr E) MAX_USER_IRQ XDMA_CHANNEL_NUM_MAX 1 (drv_os st)
        (xdev_list st) (drv_log st) = Some (Some x, os, xdev_list st @ [y], l)" "dev_open (env_pci E) h c x os" "os_bad_free os = os_bad_free (drv_os st)"
      "handle x = a" "handle y = a" "pdev y = pdev_addr E"
    using xdma_open_ok [OF A(1,2,7)] by blast
  have d: "user_max x = 16" "h2c_channel_max x = int h" "c2h_channel_max x = int c" using o(2) by (simp_all add: dev_open_def msix_dev_def)
  let ?m = "(push_bit (nat (user_max x + 1)) 1 - 1) AND 0xFFFE :: u32"
  obtain x' l' where e: "xdma_user_isr_enable (env_hw E) ?m x l = (0, x', l')" "xdev_core x' = xdev_core x" "dev_open (env_pci E) h c x' os"
    using isr_enable_keeps(1) [of "env_hw E" ?m x l "env_pci E" h c os] o(2) by blast
  have f: "xdev_find_by_pdev (pdev_addr E) (xdev_list st @ [y]) = Some y"
  proof -
    have "find (\<lambda>x. pdev x = pdev_addr E) xs = None" if "set xs \<subseteq> set (xdev_list st)" for xs using A(6) that by (auto simp: find_None_iff)
    then have "find (\<lambda>x. pdev x = pdev_addr E) (xs @ [y]) = Some y" if "set xs \<subseteq> set (xdev_list st)" for xs
      using that o(6) A(6) by (induction xs) auto
    then show ?thesis by (simp add: xdev_find_by_pdev_def)
  qed
  define st' where "st' = (acquire Res_pcidev (st\<lparr>p_xdev := None\<rparr>))\<lparr>drv_os := os, xdev_list := xdev_list st @ [y], drv_log := l,
      drv_log := l', p_xdev := Some x', drv_desc_flag := 0\<rparr>"
  have hx: "handle x' = a" using e(2) o(4) by (simp add: xdev_core_def)
  have "axm57104_probe E st = probe_net E x' st'"
    using A(3-5) o(1,5) d e(1) f hx by (auto simp: axm57104_probe_def acquire_def st'_def Let_def)
  moreover have "xdev_attached E (xdev_list st) (os_bad_free (drv_os st)) x' st'"
    using e(3) o(3,5,6) hx A(6) by (auto simp: xdev_attached_def st'_def acquire_def)
  ultimately show ?thesis by (intro exI [of _ x'] exI [of _ st']) (simp add: st'_def acquire_def)
qed

subsection \<open>The steps on a working system\<close>

definition kernel_ok :: "drv_env \<Rightarrow> bool" where
  "kernel_ok E \<longleftrightarrow> etherdev_mem E \<and> rx_mem E 18 \<noteq> None \<and> tx_mem E 18 \<noteq> None \<and> register_netdev_rv E = 0 \<and> mdiobus_mem E \<and> mdiobus_rv E = 0 \<and>
     mdiodev_mem E \<and> mdiodev_rv E = 0 \<and> (\<forall>i<2. clock_register E i \<noteq> None \<and> clock_idx E (clock_register E i) \<noteq> None) \<and> mdio_driver_rv E = 0"

lemma switch_init:
  "\<exists>sw. ax_tsn_init_switch rx tx (Some (l_sw zero_private)) = (if rx 18 = None \<or> tx 18 = None then -1 else 0, Some sw) \<and>
     queue_memory sw = (if rx 18 \<noteq> None \<and> tx 18 \<noteq> None then [Res_tx_queue] else []) @ (if rx 18 \<noteq> None then [Res_rx_queue] else []) \<and>
     length (ax_ptp_clocks sw) = 2 \<and> length (domain_number_map sw) = 3"
  by (cases "rx 18"; cases "tx 18")
    (simp_all add: ax_tsn_init_switch_def zero_private_def zero_queue_def tsn_tsq_init_def tsn_tsq_flush_def tsn_tsq_remove_def queue_memory_def Let_def)

lemma mac_valid:
  assumes "length (mac :: u8 list) = 6" "take 3 mac = [0x00, 0x0e, 0xc6]"
  shows "is_valid_ether_addr mac"
proof -
  have "mac ! 0 = take 3 mac ! 0" "mac ! 1 = take 3 mac ! 1" by simp_all
  then have "mac ! 0 = 0" "mac ! 1 = 0x0e" by (simp_all only: assms(2)) simp_all
  moreover have "replicate 6 (0 :: u8) ! 1 = 0" by simp
  ultimately show ?thesis by (auto simp: is_valid_ether_addr_def simp del: nth_replicate)
qed

lemma ptp_init_handles:
  assumes len: "length (ax_ptp_clocks sw) = 2" "length (domain_number_map sw) = 3"
    and reg: "clk 0 = Some c0" "clk 1 = Some c1" "ci (Some c0) = Some i0" "ci (Some c1) = Some i1"
  shows "\<exists>sw' l'. ax_ptp_init clk ci hw sw l = Some (sw', l') \<and> ax_ptp_remove sw' = Some [c0, c1]"
proof -
  obtain k0 k1 where cs: "ax_ptp_clocks sw = [k0, k1]" using len(1) by (auto simp: numeral_2_eq_2 length_Suc_conv)
  obtain m0 m1 m2 where ms: "domain_number_map sw = [m0, m1, m2]" using len(2) by (auto simp: numeral_3_eq_3 length_Suc_conv)
  have "[0..<2] = [0, Suc 0]" by (simp add: upt_rec)
  then show ?thesis using cs ms reg
    by (simp add: ax_ptp_init_def ptp_init_domain_def ax_ptp_remove_def arr_get_def arr_set_def Let_def split_beta)
qed

lemma phy_setup_ok: "l_mdio loc \<Longrightarrow> \<exists>l'. phy_setup hw loc l = Some l'"
  using ax_init_rgmii_total [of hw "l_sw loc" l] by (auto simp: phy_setup_def Let_def)

lemmas resource_simps = acquire_def release_def withdraw_def

lemma probe_net_registers:
  assumes mem: "etherdev_mem E" "rx_mem E 18 \<noteq> None" "tx_mem E 18 \<noteq> None" and rnd: "length (rand_mac E) = 6"
  shows "\<exists>loc l. l_dev loc \<and> l_proc loc = [] \<and> length (ax_ptp_clocks (l_sw loc)) = 2 \<and> length (domain_number_map (l_sw loc)) = 3 \<and>
     probe_net E x st = (let st = st\<lparr>drvdata := True, ax_local := loc, held := [Res_napi, Res_tx_queue, Res_rx_queue, Res_netdev] @ held st, drv_log := l\<rparr>
       in if register_netdev_rv E \<noteq> 0 then err_out1 E 0 st else probe_late E x (acquire Res_registered st))"
proof -
  obtain sw where sw: "ax_tsn_init_switch (rx_mem E) (tx_mem E) (Some (l_sw zero_private)) = (0, Some sw)"
      "queue_memory sw = [Res_tx_queue, Res_rx_queue]" "length (ax_ptp_clocks sw) = 2" "length (domain_number_map sw) = 3"
    using switch_init [of "rx_mem E" "tx_mem E"] mem(2,3) by auto
  obtain mac n l where m: "ax_i2c_read (env_hw E) (rand_mac E) 6 0 (drv_log st) = Some (mac, n, l)" "is_valid_ether_addr mac"
    using i2c_mac_oui [OF rnd, of "env_hw E" "drv_log st"] mac_valid by blast
  let ?loc = "zero_private\<lparr>l_dev := True, l_sw := sw\<lparr>pMemBase := 2\<rparr>\<rparr>"
  have "probe_net E x st = (let st = st\<lparr>drvdata := True, ax_local := ?loc, held := [Res_napi, Res_tx_queue, Res_rx_queue, Res_netdev] @ held st,
       drv_log := ax_set_mac_reg mac l\<rparr>
     in if register_netdev_rv E \<noteq> 0 then err_out1 E 0 st else probe_late E x (acquire Res_registered st))"
    using mem(1) sw(1,2) m by (simp add: probe_net_def acquire_def Let_def)
  then show ?thesis using sw(3,4) by (intro exI [of _ ?loc] exI [of _ "ax_set_mac_reg mac l"]) (simp add: zero_private_def)
qed

lemma probe_late_proc:
  assumes k: "kernel_ok E" and len: "length (ax_ptp_clocks (l_sw (ax_local st))) = 2" "length (domain_number_map (l_sw (ax_local st))) = 3"
    and reg: "clock_register E 0 = Some c0" "clock_register E 1 = Some c1"
  shows "\<exists>loc x' l. l_mdio loc \<and> l_dev loc = l_dev (ax_local st) \<and> l_proc loc = l_proc (ax_local st) \<and> ax_ptp_remove (l_sw loc) = Some [c0, c1] \<and>
     handle x' = handle x \<and> (\<forall>h c os. dev_open (env_pci E) h c x' os = dev_open (env_pci E) h c x os) \<and>
     probe_late E x st = probe_proc E (st\<lparr>ax_local := loc, p_xdev := Some x', drv_log := l,
       held := [Res_mdio_driver, Res_timer, Res_clock c1, Res_clock c0, Res_mdio_dev, Res_mdio_bus] @ held st\<rparr>)"
proof -
  let ?loc = "(ax_local st)\<lparr>l_mdio := True, l_mdiodev := True\<rparr>"
  have ck: "\<And>i. i < 2 \<Longrightarrow> clock_idx E (clock_register E i) \<noteq> None" using k by (simp add: kernel_ok_def)
  obtain i0 i1 where ix: "clock_idx E (Some c0) = Some i0" "clock_idx E (Some c1) = Some i1"
    using ck [of 0] ck [of 1] reg by auto
  obtain sw l1 where sw: "ax_ptp_init (clock_register E) (clock_idx E) (env_hw E) (l_sw ?loc) (drv_log st) = Some (sw, l1)"
      "ax_ptp_remove sw = Some [c0, c1]"
    using ptp_init_handles [of "l_sw ?loc" "clock_register E" c0 c1 "clock_idx E" i0 i1 "env_hw E" "drv_log st"] len reg ix by auto
  let ?x = "xdma_user_isr_register (env_pci E) x"
  obtain rv x' l2 where e0: "xdma_user_isr_enable (env_hw E) 0xFE ?x l1 = (rv, x', l2)" by (metis prod_cases3)
  have e: "xdma_user_isr_enable (env_hw E) 0xFE ?x l1 = (0, x', l2)" "handle x' = handle x"
      "\<forall>h c os. dev_open (env_pci E) h c x' os = dev_open (env_pci E) h c x os"
    using isr_enable_keeps(1) [of "env_hw E" "0xFE" ?x l1 "env_pci E"] e0 by (auto simp: xdev_core_def isr_register_open)
  let ?loc' = "?loc\<lparr>l_sw := sw\<rparr>"
  obtain l3 where ph: "phy_setup (env_hw E) ?loc' l2 = Some l3" using phy_setup_ok [of ?loc' "env_hw E" l2] by auto
  have "[0..<2] = [0, 1 :: nat]" by (simp add: upt_rec)
  then have "probe_late E x st = probe_proc E (st\<lparr>ax_local := ?loc', p_xdev := Some x', drv_log := l3,
       held := [Res_mdio_driver, Res_timer, Res_clock c1, Res_clock c0, Res_mdio_dev, Res_mdio_bus] @ held st\<rparr>)"
    using k reg sw(1) e(1) ph
    by (simp add: probe_late_def kernel_ok_def ax_init_mdio_def ax_create_mdio_dev_def acquire_clocks_def acquire_def Let_def)
  then show ?thesis using sw(2) e(2,3) by (intro exI [of _ ?loc'] exI [of _ x'] exI [of _ l3]) simp
qed

lemma probe_all_ok:
  assumes att: "attachable E st" and k: "kernel_ok E"
  shows "\<exists>x st' c0 c1. axm57104_probe E st = probe_proc E st' \<and> xdev_attached E (xdev_list st) (os_bad_free (drv_os st)) x st' \<and> drvdata st' \<and>
     l_dev (ax_local st') \<and> l_mdio (ax_local st') \<and> l_proc (ax_local st') = [] \<and> ax_ptp_remove (l_sw (ax_local st')) = Some [c0, c1] \<and>
     held st' = [Res_mdio_driver, Res_timer, Res_clock c1, Res_clock c0, Res_mdio_dev, Res_mdio_bus, Res_registered, Res_napi, Res_tx_queue,
       Res_rx_queue, Res_netdev, Res_pcidev] @ held st"
proof -
  obtain x st1 where p1: "axm57104_probe E st = probe_net E x st1" "xdev_attached E (xdev_list st) (os_bad_free (drv_os st)) x st1"
      "held st1 = Res_pcidev # held st" using probe_opens [OF att] by blast
  have mem: "etherdev_mem E" "rx_mem E 18 \<noteq> None" "tx_mem E 18 \<noteq> None" "length (rand_mac E) = 6" "register_netdev_rv E = 0"
    using att k by (simp_all add: attachable_def kernel_ok_def)
  have ck: "\<And>i. i < 2 \<Longrightarrow> clock_register E i \<noteq> None" using k by (simp add: kernel_ok_def)
  obtain c0 c1 where c: "clock_register E 0 = Some c0" "clock_register E 1 = Some c1" using ck [of 0] ck [of 1] by auto
  obtain loc l st2 where p2: "l_dev loc" "l_proc loc = []" "length (ax_ptp_clocks (l_sw loc)) = 2" "length (domain_number_map (l_sw loc)) = 3"
      "st2 = acquire Res_registered (st1\<lparr>drvdata := True, ax_local := loc, held := [Res_napi, Res_tx_queue, Res_rx_queue, Res_netdev] @ held st1, drv_log := l\<rparr>)"
      "probe_net E x st1 = probe_late E x st2"
    using probe_net_registers [OF mem(1-4), of x st1] mem(5) by (auto simp: Let_def)
  obtain loc' x' l' st3 where p3: "l_mdio loc'" "l_dev loc' = l_dev loc" "l_proc loc' = l_proc loc" "ax_ptp_remove (l_sw loc') = Some [c0, c1]"
      "handle x' = handle x" "\<And>h c os. dev_open (env_pci E) h c x' os = dev_open (env_pci E) h c x os"
      "st3 = st2\<lparr>ax_local := loc', p_xdev := Some x', drv_log := l',
         held := [Res_mdio_driver, Res_timer, Res_clock c1, Res_clock c0, Res_mdio_dev, Res_mdio_bus] @ held st2\<rparr>"
      "probe_late E x st2 = probe_proc E st3"
    using probe_late_proc [OF k, of st2 c0 c1 x] c p2(3,4,5) by (auto simp: acquire_def)
  have "xdev_attached E (xdev_list st) (os_bad_free (drv_os st)) x' st3"
    using p1(2) p3(5,6) by (auto simp: xdev_attached_def p3(7) p2(5) acquire_def)
  moreover have "drvdata st3" "ax_local st3 = loc'" by (simp_all add: p3(7) p2(5) acquire_def)
  moreover have "held st3 = [Res_mdio_driver, Res_timer, Res_clock c1, Res_clock c0, Res_mdio_dev, Res_mdio_bus, Res_registered, Res_napi,
      Res_tx_queue, Res_rx_queue, Res_netdev, Res_pcidev] @ held st" by (simp add: p3(7) p2(5) p1(3) acquire_def)
  ultimately show ?thesis using p1(1) p2(1,2,6) p3(1-4,8) by (intro exI [of _ x'] exI [of _ st3] exI [of _ c0] exI [of _ c1]) simp
qed

lemma err_out_ok:
  assumes a: "xdev_attached E xs n x st" "pci_grants (env_pci E)" "pdev_addr E \<noteq> 0" "Res_pcidev \<in> set (held st)"
  shows "\<exists>os l. os_released n os \<and> (let st' = st\<lparr>drv_os := os, xdev_list := xs, drv_log := l, p_xdev := None, held := remove1 Res_pcidev (held st)\<rparr> in
     err_out E rv loc st = (if \<not> loc then None
       else Option.bind (if l_dev (ax_local st') then free_netdev st' else Some st') (\<lambda>st.
         if Res_netdev \<notin> set (held st) then None
         else map_option (Pair rv) (fold_opt (\<lambda>st p. proc_remove p st) st [Proc_dir, Proc_new, Proc_old, Proc_core]))))"
proof -
  have x: "p_xdev st = Some x" "got_regions x" "\<not> regions_in_use x" using a(1) by (auto simp: xdev_attached_def dev_open_def)
  let ?st = "st\<lparr>drv_os := (drv_os st)\<lparr>os_regions := False, os_enabled := False\<rparr>\<rparr>"
  have "xdev_attached E xs n x ?st" using a(1) by (auto simp: xdev_attached_def dev_open_def)
  then obtain os l where "xpdev_free E ?st = Some (?st\<lparr>drv_os := os, xdev_list := xs, drv_log := l, p_xdev := None, held := remove1 Res_pcidev (held ?st)\<rparr>)"
      "os_released n os" using xpdev_free_ok [of E xs n x ?st] a(2-4) by auto
  then show ?thesis using x by (intro exI [of _ os] exI [of _ l]) (simp add: err_out_def Let_def)
qed

lemma remove_ok:
  assumes a: "xdev_attached E xs n x st" "pci_grants (env_pci E)" "pdev_addr E \<noteq> 0" and d: "drvdata st" "l_mdio (ax_local st)"
    and p: "set (l_proc (ax_local st)) = {Proc_dir, Proc_old, Proc_new, Proc_core}" and ck: "ax_ptp_remove (l_sw (ax_local st)) = Some [ca, cb]"
    and h: "held st = map Res_proc [Proc_core, Proc_new, Proc_old, Proc_dir] @ [Res_mdio_driver, Res_timer, Res_clock cb, Res_clock ca, Res_mdio_dev,
      Res_mdio_bus, Res_registered, Res_napi, Res_tx_queue, Res_rx_queue, Res_netdev, Res_pcidev] @ R"
    and fresh: "Res_registered \<notin> set R" "Res_napi \<notin> set R"
  shows "\<exists>st'. axm57104_remove E st = Some st' \<and> os_released n (drv_os st') \<and> xdev_list st' = xs \<and> \<not> drvdata st' \<and>
     held st' = [Res_mdio_dev, Res_tx_queue, Res_rx_queue] @ R"
proof -
  obtain h' c' where x: "p_xdev st = Some x" "dev_open (env_pci E) h' c' x (drv_os st)" using a(1) by (auto simp: xdev_attached_def)
  obtain x' l' where e: "xdma_user_isr_disable (env_hw E) 0xFE x (drv_log st) = (0, x', l')" "xdev_core x' = xdev_core x" "dev_open (env_pci E) h' c' x' (drv_os st)"
    using isr_enable_keeps(2) [of "env_hw E" "0xFE" x "drv_log st" "env_pci E" h' c' "drv_os st"] x(2) by blast
  let ?st = "st\<lparr>p_xdev := Some x', drv_log := l', held := [Res_mdio_dev, Res_tx_queue, Res_rx_queue, Res_pcidev] @ R\<rparr>"
  have "xdev_attached E xs n x' ?st" using a(1) e(2,3) by (auto simp: xdev_attached_def xdev_core_def)
  then obtain os l where f: "xpdev_free E ?st = Some (?st\<lparr>drv_os := os, xdev_list := xs, drv_log := l, p_xdev := None, held := remove1 Res_pcidev (held ?st)\<rparr>)"
      "os_released n os" using xpdev_free_ok [of E xs n x' ?st] a(2,3) by auto
  have "axm57104_remove E st = map_option (\<lambda>st. st\<lparr>drvdata := False\<rparr>) (xpdev_free E ?st)"
    using x(1) e(1) d p ck h fresh
    by (cases "ca = cb") (simp_all add: axm57104_remove_def proc_remove_def free_netdev_def ax_remove_mdio_def resource_simps remove1_idem)
  then show ?thesis using f by simp
qed

subsection \<open>Properties\<close>


definition sample_env :: drv_env where
  "sample_env = \<lparr>env_pci = sample_pci, env_hw = sample_ids, pdev_addr = 0x2000, pcidev_mem = True, xdev_addr = Some 0x1000, etherdev_mem = True,
     rx_mem = (\<lambda>n. Some (replicate (nat n) (sample_capture 0))), tx_mem = (\<lambda>n. Some (replicate (nat n) (sample_capture 0))), rand_mac = replicate 6 2,
     register_netdev_rv = 0, mdiobus_mem = True, mdiobus_rv = 0, mdiodev_mem = True, mdiodev_rv = 0, clock_register = (\<lambda>i. Some (int i + 10)),
     clock_idx = map_option (\<lambda>c. c - 10), mdio_driver_rv = 0, proc_mem = (\<lambda>p. True), enable_mem_rv = 0\<rparr>"

definition sample_drv :: drv_state where
  "sample_drv = \<lparr>drv_os = sample_os, xdev_list = [], drv_log = [], held = [], p_xdev = None, drvdata = False, drv_desc_flag = 0, ax_local = zero_private\<rparr>"

lemma sample_attachable:
  assumes "env_pci E = sample_pci" "env_hw E = sample_ids" "pdev_addr E = 0x2000" "pcidev_mem E" "xdev_addr E = Some 0x1000" "length (rand_mac E) = 6"
  shows "attachable E sample_drv"
proof -
  have "\<exists>k h c. hw_found sample_pci sample_ids k h c \<and> 0 < h + c" using sample_hw(2) by (intro exI [of _ 1] exI [of _ 2] exI) simp
  then show ?thesis using assms sample_hw(1) by (simp add: attachable_def sample_drv_def sample_os_def)
qed


lemma err_out1_None:
  assumes a: "xdev_attached E xs n x st" "pci_grants (env_pci E)" "pdev_addr E \<noteq> 0" "Res_pcidev \<in> set (held st)" and d: "l_dev (ax_local st)"
    and r: "Res_registered \<in> set (held st) \<or> Res_netdev \<notin> set (remove1 Res_netdev (held st))"
  shows "err_out1 E rv st = None"
proof -
  let ?st = "withdraw Res_napi st"
  have "xdev_attached E xs n x ?st" "Res_pcidev \<in> set (held ?st)" using a(1,4) by (auto simp: xdev_attached_def withdraw_def)
  moreover have "Res_netdev \<notin> set (remove1 Res_netdev (held st)) \<Longrightarrow> Res_netdev \<notin> set (remove1 Res_netdev (remove1 Res_pcidev (held st)))"
    by (metis remove1_commute notin_set_remove1)
  ultimately show ?thesis using err_out_ok [of E xs n x ?st, OF _ a(2,3), of rv True] d r
    by (auto simp: err_out1_def withdraw_def free_netdev_def release_def Let_def remove1_commute)
qed

lemma attached_check: "xdev_attached E xs n x st \<Longrightarrow> pdev_addr E \<noteq> 0 \<Longrightarrow> debug_check_dev_hndl (pdev_addr E) (handle x) (xdev_list st) = 0"
proof -
  assume a: "xdev_attached E xs n x st" and pd: "pdev_addr E \<noteq> 0"
  obtain y where y: "xdev_list st = xs @ [y]" "handle y = handle x" "pdev y = pdev_addr E" "\<forall>z\<in>set xs. pdev z \<noteq> pdev_addr E"
    using a by (auto simp: xdev_attached_def)
  have "find (\<lambda>x. pdev x = pdev_addr E) (xs @ [y]) = Some y" using y(3,4) by (induction xs) auto
  then show ?thesis using y pd by (simp add: debug_check_dev_hndl_def xdev_find_by_pdev_def)
qed

lemma reset_cycle:
  assumes a: "xdev_attached E xs n x st" "pci_grants (env_pci E)" "pdev_addr E \<noteq> 0" "drvdata st" "Res_pcidev \<in> set (held st)"
  shows "\<exists>st1. on_xdev (xdma_device_offline (env_pci E) (env_hw E) (pdev_addr E)) st = Some st1 \<and> os_irqs (drv_os st1) = [] \<and>
     held st1 = held st \<and> (\<forall>b m. \<exists>st2 x2. on_xdev (xdma_device_online (env_pci E) (env_hw E) (pdev_addr E))
          (st1\<lparr>drv_os := (drv_os st1)\<lparr>os_enabled := b, os_master := m\<rparr>\<rparr>) = Some st2 \<and> xdev_attached E xs n x2 st2 \<and>
        os_irqs (drv_os st2) = os_irqs (drv_os st) \<and> flags x2 AND XDEV_FLAG_OFFLINE = 0 \<and> os_enabled (drv_os st2) = b \<and> held st2 = held st)"
proof -
  let ?P = "env_pci E"
  obtain h c where o: "dev_open ?P h c x (drv_os st)" "p_xdev st = Some x" "os_bad_free (drv_os st) = n" using a(1) by (auto simp: xdev_attached_def)
  note chk = attached_check [OF a(1,3)]
  obtain x1 l1 where f: "xdma_device_offline ?P (env_hw E) (pdev_addr E) x (drv_os st) (xdev_list st) (drv_log st) =
      Some (x1, (drv_os st)\<lparr>os_irqs := []\<rparr>, l1)" "xdev_shape x1 = xdev_shape x" using device_offline_ok [OF a(2) o(1) chk] by blast
  define st1 where "st1 = st\<lparr>p_xdev := Some x1, drv_os := (drv_os st)\<lparr>os_irqs := []\<rparr>, drv_log := l1\<rparr>"
  have off: "on_xdev (xdma_device_offline ?P (env_hw E) (pdev_addr E)) st = Some st1" using a(4,5) o(2) f(1) by (simp add: on_xdev_def st1_def)
  have hx: "handle x1 = handle x" using f(2) by (simp add: xdev_shape_def xdev_core_def)
  have "\<exists>st2 x2. on_xdev (xdma_device_online ?P (env_hw E) (pdev_addr E)) (st1\<lparr>drv_os := (drv_os st1)\<lparr>os_enabled := b, os_master := m\<rparr>\<rparr>) = Some st2 \<and>
      xdev_attached E xs n x2 st2 \<and> os_irqs (drv_os st2) = os_irqs (drv_os st) \<and> flags x2 AND XDEV_FLAG_OFFLINE = 0 \<and>
      os_enabled (drv_os st2) = b \<and> held st2 = held st" for b m
  proof -
    let ?os = "(drv_os st1)\<lparr>os_enabled := b, os_master := m\<rparr>"
    have "dev_open ?P h c x1 (?os\<lparr>os_irqs := channel_irqs ?P h c @ user_irqs ?P (h + c) 16\<rparr>)"
      using o(1) dev_open_shape [OF f(2)] by (simp add: st1_def) (simp add: dev_open_def)
    moreover have "os_irqs ?os = []" by (simp add: st1_def)
    ultimately obtain x2 os2 l2 where n: "xdma_device_online ?P (env_hw E) (pdev_addr E) x1 ?os (xdev_list st) l1 = Some (x2, os2, l2)"
        "dev_open ?P h c x2 os2" "handle x2 = handle x1" "flags x2 AND XDEV_FLAG_OFFLINE = 0" "os_claim os2 = os_claim ?os" "os_bad_free os2 = os_bad_free ?os"
      using device_online_ok [OF a(2), of h c x1 ?os "pdev_addr E" "xdev_list st" "env_hw E" l1] chk hx by auto
    let ?st2 = "st1\<lparr>drv_os := ?os, p_xdev := Some x2, drv_os := os2, drv_log := l2\<rparr>"
    have "on_xdev (xdma_device_online ?P (env_hw E) (pdev_addr E)) (st1\<lparr>drv_os := ?os\<rparr>) = Some ?st2"
      using a(4,5) n(1) by (simp add: on_xdev_def st1_def)
    moreover have "xdev_attached E xs n x2 ?st2" using a(1) n(2,3,6) hx o(3) by (auto simp: xdev_attached_def st1_def)
    moreover have "os_irqs os2 = os_irqs (drv_os st)" "os_enabled os2 = b" using n(2,5) o(1) by (simp_all add: dev_open_def os_claim_def)
    ultimately show ?thesis using n(4) by (intro exI [of _ ?st2] exI [of _ x2]) (simp add: st1_def)
  qed
  then show ?thesis using off by (intro exI [of _ st1]) (auto simp: st1_def)
qed

text \<open>
  C26. A reset of the slot is survived: from a state in which the driver is attached, the report of a
  frozen bus takes the device offline with all its interrupts freed and asks for a reset; the slot
  reset handler then brings it online again with exactly the interrupts it had, marked online, and
  the driver is attached as before.
\<close>

theorem slot_reset_recovers:
  assumes a: "xdev_attached E xs n x st" "pci_grants (env_pci E)" "pdev_addr E \<noteq> 0" "drvdata st" "Res_pcidev \<in> set (held st)" "enable_mem_rv E = 0"
  shows "\<exists>st1 st2 x2. axpci_error_detected E Io_frozen st = Some (Need_reset, st1) \<and> os_irqs (drv_os st1) = [] \<and> \<not> os_enabled (drv_os st1) \<and>
     axpci_slot_reset E st1 = Some (Recovered, st2) \<and> xdev_attached E xs n x2 st2 \<and> os_irqs (drv_os st2) = os_irqs (drv_os st) \<and>
     flags x2 AND XDEV_FLAG_OFFLINE = 0 \<and> os_enabled (drv_os st2) \<and> held st2 = held st"
proof -
  obtain st1 where s: "on_xdev (xdma_device_offline (env_pci E) (env_hw E) (pdev_addr E)) st = Some st1" "os_irqs (drv_os st1) = []" "held st1 = held st"
      "\<forall>b m. \<exists>st2 x2. on_xdev (xdma_device_online (env_pci E) (env_hw E) (pdev_addr E)) (st1\<lparr>drv_os := (drv_os st1)\<lparr>os_enabled := b, os_master := m\<rparr>\<rparr>) = Some st2 \<and>
        xdev_attached E xs n x2 st2 \<and> os_irqs (drv_os st2) = os_irqs (drv_os st) \<and> flags x2 AND XDEV_FLAG_OFFLINE = 0 \<and> os_enabled (drv_os st2) = b \<and>
        held st2 = held st"
    using reset_cycle [OF a(1-5)] by blast
  let ?st1 = "st1\<lparr>drv_os := (drv_os st1)\<lparr>os_enabled := False\<rparr>\<rparr>"
  obtain st2 x2 where t: "on_xdev (xdma_device_online (env_pci E) (env_hw E) (pdev_addr E)) (st1\<lparr>drv_os := (drv_os st1)\<lparr>os_enabled := True, os_master := True\<rparr>\<rparr>) = Some st2"
      "xdev_attached E xs n x2 st2" "os_irqs (drv_os st2) = os_irqs (drv_os st)" "flags x2 AND XDEV_FLAG_OFFLINE = 0" "os_enabled (drv_os st2)"
      "held st2 = held st" using s(4) by blast
  have "axpci_error_detected E Io_frozen st = Some (Need_reset, ?st1)" using s(1) by (simp add: axpci_error_detected_def)
  moreover have "axpci_slot_reset E ?st1 = Some (Recovered, st2)" using t(1) a(6) by (simp add: axpci_slot_reset_def)
  ultimately show ?thesis using s(2) t by (intro exI [of _ ?st1] exI [of _ st2] exI [of _ x2]) simp
qed

theorem slot_reset_recovers_witness:
  "\<exists>st st1 st2. axm57104_probe sample_env sample_drv = Some (0, st) \<and> axpci_error_detected sample_env Io_frozen st = Some (Need_reset, st1) \<and>
     axpci_slot_reset sample_env st1 = Some (Recovered, st2) \<and> os_irqs (drv_os st2) = os_irqs (drv_os st)"
proof -
  have att: "attachable sample_env sample_drv" by (rule sample_attachable) (simp_all add: sample_env_def)
  have k: "kernel_ok sample_env" "\<forall>p. proc_mem sample_env p" by (simp_all add: kernel_ok_def sample_env_def)
  obtain x st' c0 c1 where s: "axm57104_probe sample_env sample_drv = probe_proc sample_env st'"
      "xdev_attached sample_env (xdev_list sample_drv) (os_bad_free (drv_os sample_drv)) x st'" "drvdata st'"
      "held st' = [Res_mdio_driver, Res_timer, Res_clock c1, Res_clock c0, Res_mdio_dev, Res_mdio_bus, Res_registered, Res_napi, Res_tx_queue,
       Res_rx_queue, Res_netdev, Res_pcidev] @ held sample_drv" using probe_all_ok [OF att k(1)] by blast
  define st where "st = fold proc_create [Proc_dir, Proc_old, Proc_new, Proc_core] st'"
  obtain l where pr: "probe_proc sample_env st' = Some (0, st\<lparr>drv_log := l\<rparr>)" using k(2) by (simp add: probe_proc_def st_def Let_def split_beta)
  have "xdev_attached sample_env (xdev_list sample_drv) (os_bad_free (drv_os sample_drv)) x (st\<lparr>drv_log := l\<rparr>)" "drvdata (st\<lparr>drv_log := l\<rparr>)"
      "Res_pcidev \<in> set (held (st\<lparr>drv_log := l\<rparr>))"
    using s(2-4) by (auto simp: st_def proc_create_def acquire_def xdev_attached_def)
  from slot_reset_recovers [OF this(1) _ _ this(2,3)] att show ?thesis using s(1) pr by (fastforce simp: attachable_def sample_env_def)
qed

text \<open>
  C27. Failures after the DMA device was opened are not handled: when the network device cannot be
  allocated, cannot be registered, or a proc entry cannot be created, the error path follows a null
  pointer, reads freed memory or trips the kernel's assertion on a registered device; when the memory
  for a timestamp queue is missing, everything is released but \<open>axm57104_probe\<close> reports success, the
  network device stays allocated, and the \<open>axm57104_remove\<close> that the kernel will call reads the freed
  \<open>pcidev\<close>.
\<close>

theorem probe_failures_fault:
  assumes att: "attachable E st" and h: "held st = []"
  shows "(\<not> etherdev_mem E \<longrightarrow> axm57104_probe E st = None) \<and>
     (etherdev_mem E \<and> (rx_mem E 18 = None \<or> tx_mem E 18 = None) \<longrightarrow>
        (\<exists>st'. axm57104_probe E st = Some (0, st') \<and> os_released (os_bad_free (drv_os st)) (drv_os st') \<and> Res_netdev \<in> set (held st') \<and>
           axm57104_remove E st' = None)) \<and>
     (etherdev_mem E \<and> rx_mem E 18 \<noteq> None \<and> tx_mem E 18 \<noteq> None \<and> register_netdev_rv E \<noteq> 0 \<longrightarrow> axm57104_probe E st = None) \<and>
     (kernel_ok E \<and> \<not> proc_mem E p \<longrightarrow> axm57104_probe E st = None)"
proof -
  let ?xs = "xdev_list st" and ?n = "os_bad_free (drv_os st)"
  have P: "pci_grants (env_pci E)" "pdev_addr E \<noteq> 0" "length (rand_mac E) = 6" using att by (simp_all add: attachable_def)
  obtain x st1 where p1: "axm57104_probe E st = probe_net E x st1" "xdev_attached E ?xs ?n x st1" "held st1 = [Res_pcidev]"
    using probe_opens [OF att] h by auto
  have eth: "axm57104_probe E st = None" if "\<not> etherdev_mem E"
    using err_out_ok [OF p1(2) P(1,2), of 0 False] p1(1,3) that by (auto simp: probe_net_def)
  have queue: "\<exists>st'. axm57104_probe E st = Some (0, st') \<and> os_released ?n (drv_os st') \<and> Res_netdev \<in> set (held st') \<and> axm57104_remove E st' = None"
    if q: "etherdev_mem E" "rx_mem E 18 = None \<or> tx_mem E 18 = None"
  proof -
    obtain sw where sw: "ax_tsn_init_switch (rx_mem E) (tx_mem E) (Some (l_sw zero_private)) = (-1, Some sw)" "Res_pcidev \<notin> set (queue_memory sw)"
      using switch_init [of "rx_mem E" "tx_mem E"] q(2) by fastforce
    let ?st = "st1\<lparr>drvdata := True, ax_local := zero_private\<lparr>l_sw := sw\<rparr>, held := queue_memory sw @ [Res_netdev, Res_pcidev]\<rparr>"
    have pn: "probe_net E x st1 = err_out E 0 True ?st" using q(1) sw(1) p1(3) by (simp add: probe_net_def acquire_def Let_def)
    have "xdev_attached E ?xs ?n x ?st" using p1(2) by (auto simp: xdev_attached_def)
    from err_out_ok [OF this P(1,2), of 0 True] obtain os l where e: "os_released ?n os"
        "err_out E 0 True ?st = Some (0, ?st\<lparr>drv_os := os, xdev_list := ?xs, drv_log := l, p_xdev := None, held := remove1 Res_pcidev (held ?st)\<rparr>)"
      by (auto simp: zero_private_def proc_remove_def Let_def)
    have "axm57104_remove E (?st\<lparr>drv_os := os, xdev_list := ?xs, drv_log := l, p_xdev := None, held := remove1 Res_pcidev (held ?st)\<rparr>) = None"
      using sw(2) by (simp add: axm57104_remove_def remove1_append)
    then show ?thesis using p1(1) pn e sw(2) by (auto simp: remove1_append)
  qed
  have reg: "axm57104_probe E st = None" if r: "etherdev_mem E" "rx_mem E 18 \<noteq> None" "tx_mem E 18 \<noteq> None" "register_netdev_rv E \<noteq> 0"
  proof -
    obtain loc l where "l_dev loc" "probe_net E x st1 = err_out1 E 0 (st1\<lparr>drvdata := True, ax_local := loc,
        held := [Res_napi, Res_tx_queue, Res_rx_queue, Res_netdev] @ held st1, drv_log := l\<rparr>)"
      using probe_net_registers [OF r(1-3) P(3), of x st1] r(4) by (auto simp: Let_def)
    moreover have "err_out1 E 0 (st1\<lparr>drvdata := True, ax_local := loc, held := [Res_napi, Res_tx_queue, Res_rx_queue, Res_netdev] @ held st1, drv_log := l\<rparr>) = None"
      if "l_dev loc" for loc l
      by (rule err_out1_None [of E ?xs ?n x]) (use p1(2,3) P that in \<open>auto simp: xdev_attached_def\<close>)
    ultimately show ?thesis using p1(1) by simp
  qed
  have proc: "axm57104_probe E st = None" if k: "kernel_ok E" "\<not> proc_mem E p"
  proof -
    obtain x' st2 where p2: "axm57104_probe E st = probe_proc E st2" "xdev_attached E ?xs ?n x' st2" "l_dev (ax_local st2)"
        "Res_registered \<in> set (held st2)" "Res_pcidev \<in> set (held st2)" using probe_all_ok [OF att k(1)] by fastforce
    have "err_out1 E rv (fold proc_create ps st2) = None" for rv ps
    proof -
      have "xdev_attached E ?xs ?n x' (fold proc_create ps s) \<and> l_dev (ax_local (fold proc_create ps s)) \<and>
          {Res_registered, Res_pcidev} \<subseteq> set (held (fold proc_create ps s))"
        if "xdev_attached E ?xs ?n x' s" "l_dev (ax_local s)" "{Res_registered, Res_pcidev} \<subseteq> set (held s)" for s
        using that by (induction ps arbitrary: s) (auto simp: proc_create_def acquire_def xdev_attached_def)
      from this [OF p2(2,3)] p2(4,5) show ?thesis by (intro err_out1_None [of E ?xs ?n x', OF _ P(1,2)]) auto
    qed
    note none = this [of _ "[]", simplified] this [of _ "[Proc_dir]", simplified] this [of _ "[Proc_dir, Proc_old]", simplified]
      this [of _ "[Proc_dir, Proc_old, Proc_new]", simplified]
    from k(2) show ?thesis using p2(1) none by (cases p) (auto simp: probe_proc_def Let_def)
  qed
  show ?thesis using eth queue reg proc by blast
qed

theorem probe_failures_fault_witness:
  "axm57104_probe (sample_env\<lparr>etherdev_mem := False\<rparr>) sample_drv = None \<and> axm57104_probe (sample_env\<lparr>register_netdev_rv := -17\<rparr>) sample_drv = None \<and>
   (\<exists>st'. axm57104_probe (sample_env\<lparr>tx_mem := \<lambda>n. None\<rparr>) sample_drv = Some (0, st') \<and> axm57104_remove (sample_env\<lparr>tx_mem := \<lambda>n. None\<rparr>) st' = None)"
proof -
  have att: "attachable (sample_env\<lparr>etherdev_mem := False\<rparr>) sample_drv" "attachable (sample_env\<lparr>register_netdev_rv := -17\<rparr>) sample_drv"
      "attachable (sample_env\<lparr>tx_mem := \<lambda>n. None\<rparr>) sample_drv" by (rule sample_attachable; simp add: sample_env_def)+
  have h: "held sample_drv = []" by (simp add: sample_drv_def)
  show ?thesis using probe_failures_fault [OF att(1) h] probe_failures_fault [OF att(2) h] probe_failures_fault [OF att(3) h]
    by (auto simp: sample_env_def)
qed

end
