(* ===== verification/Dsa_Tree.thy ===== *)
theory Dsa_Tree
  imports Ax_Prelude "HOL-Library.Monad_Syntax"
begin

section \<open>The DSA switch tree\<close>

text \<open>
  The object graph of the distributed switch architecture core under \<open>src/DSA\<close>: ports,
  switches, link aggregation groups (LAGs) and bridges hang off a \<open>dsa_switch_tree\<close>, and
  point to each other. The four kinds of objects live in a store each, indexed by their
  address; a NULL pointer is \<open>None\<close>, and dereferencing it is the outcome \<open>None\<close> of an
  operation. The tree keeps its ports as a list in the order of the kernel list.

  What the core asks of a switch driver (\<open>ds->ops\<close>) is not determined by the core. Every
  such call, and every allocation, is an event; a \<open>driver\<close> answers it from the history of the
  events so far, which covers any deterministic driver with state of its own. The events are
  logged with their answers, newest first. Calling an operation that the driver does not
  provide (a NULL function pointer) is again \<open>None\<close>.

  The theory holds the data (\<open>dsa.h\<close>), the helpers that navigate the tree (\<open>dsa.h\<close>), the
  numbering of LAGs and bridges and the set-up of the routing table and of the CPU ports
  (\<open>dsa2.c\<close>). The theorems: LAG numbers are one-to-one and the mapping and its inverse agree;
  a bridge number is fresh and in range; every user port and every link gets the CPU port
  the comments of the code promise.
\<close>

subsection \<open>Objects\<close>

type_synonym dp_ptr = nat
type_synonym ds_ptr = nat
type_synonym lag_ptr = nat
type_synonym br_ptr = nat
type_synonym netdev = nat
type_synonym dev_node = nat

datatype dsa_port_type =
    DSA_PORT_TYPE_UNUSED
  | DSA_PORT_TYPE_CPU
  | DSA_PORT_TYPE_DSA
  | DSA_PORT_TYPE_USER

text \<open>
  \<open>struct dsa_db\<close> holds a copy of the LAG or of the bridge it names; the constructors carry
  the members of the copies that the core reads.
\<close>

datatype dsa_db =
    DSA_DB_PORT dp_ptr
  | DSA_DB_LAG (db_lag_dev: netdev) (db_lag_id: nat)
  | DSA_DB_BRIDGE (db_br_dev: netdev) (db_br_num: nat)

record dsa_mac_addr =
  a_addr :: "u8 list"
  a_vid :: u16
  a_refcount :: nat
  a_db :: dsa_db

record dsa_vlan =
  v_vid :: u16
  v_refcount :: nat

record dsa_lag =
  lag_dev :: netdev
  lag_id :: nat
  lag_fdbs :: "dsa_mac_addr list"
  lag_refcount :: nat

record dsa_bridge =
  br_dev :: netdev
  br_num :: nat
  br_tx_fwd_offload :: bool
  br_refcount :: nat

text \<open>
  \<open>port_netdev\<close> is the union of the conduit (of CPU ports) and the user device, \<open>port_vlans\<close> the
  union of the lists \<open>vlans\<close> (of CPU ports and links) and \<open>user_vlans\<close>, \<open>port_pl\<close> tells whether the
  port has a phylink instance. Locks, list heads, the MAC address, the name, the tagger and the
  devlink and ethtool glue are not represented.
\<close>

record dsa_port_obj =
  port_netdev :: "netdev option"
  port_ds :: ds_ptr
  port_index :: nat
  port_type :: dsa_port_type
  port_cpu_dp :: "dp_ptr option"
  port_stp_state :: u8
  port_vlan_filtering :: bool
  port_learning :: bool
  port_lag_tx_enabled :: bool
  port_conduit_admin_up :: bool
  port_conduit_oper_up :: bool
  port_cpu_in_lag :: bool
  port_setup :: bool
  port_dn :: "dev_node option"
  port_ageing_time :: nat
  port_bridge :: "br_ptr option"
  port_pl :: bool
  port_lag :: "lag_ptr option"
  port_hsr_dev :: "netdev option"
  port_fdbs :: "dsa_mac_addr list"
  port_mdbs :: "dsa_mac_addr list"
  port_vlans :: "dsa_vlan list"

text \<open>The operations of \<open>struct dsa_switch_ops\<close> that the modelled code calls or tests.\<close>

datatype dsa_op =
    Op_preferred_default_local_cpu_port | Op_set_ageing_time | Op_port_change_mtu
  | Op_port_bridge_join | Op_crosschip_bridge_join | Op_port_bridge_leave
  | Op_crosschip_bridge_leave | Op_port_fdb_add | Op_port_fdb_del | Op_lag_fdb_add
  | Op_lag_fdb_del | Op_port_lag_change | Op_crosschip_lag_change | Op_port_lag_join
  | Op_crosschip_lag_join | Op_port_lag_leave | Op_crosschip_lag_leave | Op_port_mdb_add
  | Op_port_mdb_del | Op_port_vlan_add | Op_port_vlan_del | Op_connect_tag_protocol
  | Op_conduit_state_change | Op_tag_8021q_vlan_add | Op_tag_8021q_vlan_del
  | Op_port_fast_age | Op_port_vlan_fast_age | Op_port_bridge_flags | Op_port_pre_bridge_flags
  | Op_port_hwtstamp_get | Op_port_hwtstamp_set | Op_port_stp_state_set | Op_port_mst_state_set
  | Op_port_enable | Op_port_disable | Op_port_vlan_filtering | Op_vlan_msti_set
  | Op_port_set_host_flood | Op_port_change_conduit | Op_port_fdb_dump | Op_port_mrp_add
  | Op_port_mrp_del | Op_port_mrp_add_ring_role | Op_port_mrp_del_ring_role | Op_port_hsr_join
  | Op_port_hsr_leave | Op_adjust_link | Op_phylink_get_caps | Op_phylink_mac_link_down

record dsa_tag_8021q_vlan =
  tv_port :: nat
  tv_vid :: u16
  tv_refcount :: nat

record dsa_switch =
  sw_index :: nat
  sw_num_ports :: nat
  sw_vlan_filtering_is_global :: bool
  sw_needs_standalone_vlan_filtering :: bool
  sw_configure_vlan_while_not_filtering :: bool
  sw_vlan_filtering :: bool
  sw_mtu_enforcement_ingress :: bool
  sw_fdb_isolation :: bool
  sw_ageing_time_min :: nat
  sw_ageing_time_max :: nat
  sw_num_lag_ids :: nat
  sw_max_num_bridges :: nat
  sw_tagger_data :: bool
  sw_tag_8021q_ctx :: "dsa_tag_8021q_vlan list option"
  sw_ops :: "dsa_op set"

record switchdev_obj_port_vlan =
  obj_flags :: u16
  obj_vid :: u16
  obj_changed :: bool

record switchdev_obj_port_mdb =
  mdb_addr :: "u8 list"
  mdb_vid :: u16

subsection \<open>Events and the driver behind them\<close>

text \<open>
  Calls to the driver that concern one port, and calls to the network stack. A call carries the
  arguments the callee gets, so that the log shows what was asked of whom, in which order.
\<close>

datatype dsa_port_call =
    Port_fast_age
  | Port_vlan_fast_age u16
  | Port_pre_bridge_flags u32 u32
  | Port_bridge_flags u32 u32
  | Port_hwtstamp_get
  | Port_stp_state_set u8
  | Port_mst_state_set u16 u8
  | Port_enable
  | Port_disable
  | Port_vlan_filtering bool
  | Vlan_msti_set netdev u16 u16
  | Port_set_host_flood bool bool
  | Port_change_conduit netdev
  | Port_fdb_dump
  | Port_mrp_add nat
  | Port_mrp_del nat
  | Port_mrp_add_ring_role nat
  | Port_mrp_del_ring_role nat
  | Port_hsr_join netdev
  | Port_hsr_leave netdev
  | Adjust_link
  | Phylink_get_caps
  | Phylink_mac_link_down

datatype kernel_call =
    Fdb_flush_to_bridge netdev u16
  | Phylink_create dp_ptr
  | Phylink_destroy dp_ptr
  | Phylink_start dp_ptr
  | Phylink_stop dp_ptr
  | Phylink_of_phy_connect dp_ptr
  | Phylink_disconnect_phy dp_ptr
  | Of_phy_register_fixed_link dp_ptr
  | Of_phy_deregister_fixed_link dp_ptr
  | Genphy_resume dp_ptr
  | Genphy_read_status dp_ptr
  | Genphy_suspend dp_ptr
  | Get_phy_device dp_ptr
  | Put_phy_device dp_ptr
  | Dev_uc_add netdev "u8 list"
  | Dev_uc_del netdev "u8 list"
  | Dev_mc_add netdev "u8 list"
  | Dev_mc_del netdev "u8 list"
  | Vlan_vid_add netdev u16
  | Vlan_vid_del netdev u16
  | Dev_set_mtu netdev int

datatype dsa_call =
    Kzalloc
  | Port_call ds_ptr nat dsa_port_call
  | Kernel_call kernel_call
  | Set_ageing_time ds_ptr nat
  | Port_change_mtu ds_ptr nat int
  | Port_bridge_join ds_ptr nat netdev nat
  | Crosschip_bridge_join ds_ptr nat nat nat netdev nat
  | Port_bridge_leave ds_ptr nat netdev nat
  | Crosschip_bridge_leave ds_ptr nat nat nat netdev nat
  | Port_fdb_add ds_ptr nat "u8 list" u16 dsa_db
  | Port_fdb_del ds_ptr nat "u8 list" u16 dsa_db
  | Lag_fdb_add ds_ptr netdev "u8 list" u16 dsa_db
  | Lag_fdb_del ds_ptr netdev "u8 list" u16 dsa_db
  | Port_lag_change ds_ptr nat
  | Crosschip_lag_change ds_ptr nat nat
  | Port_lag_join ds_ptr nat netdev
  | Crosschip_lag_join ds_ptr nat nat netdev
  | Port_lag_leave ds_ptr nat netdev
  | Crosschip_lag_leave ds_ptr nat nat netdev
  | Port_mdb_add ds_ptr nat switchdev_obj_port_mdb dsa_db
  | Port_mdb_del ds_ptr nat switchdev_obj_port_mdb dsa_db
  | Port_vlan_add ds_ptr nat switchdev_obj_port_vlan
  | Port_vlan_del ds_ptr nat switchdev_obj_port_vlan
  | Tagger_connect nat ds_ptr
  | Tagger_disconnect nat ds_ptr
  | Connect_tag_protocol ds_ptr nat
  | Conduit_state_change ds_ptr netdev bool
  | Tag_8021q_vlan_add ds_ptr nat u16 u16
  | Tag_8021q_vlan_del ds_ptr nat u16

type_synonym dsa_log = "(dsa_call \<times> int) list"
type_synonym driver = "dsa_call \<Rightarrow> dsa_log \<Rightarrow> int"

definition dsa_event :: "driver \<Rightarrow> dsa_call \<Rightarrow> dsa_log \<Rightarrow> int \<times> dsa_log" where
  "dsa_event drv c l = (drv c l, (c, drv c l) # l)"

definition dsa_kzalloc :: "driver \<Rightarrow> dsa_log \<Rightarrow> bool \<times> dsa_log" where
  "dsa_kzalloc drv l = (let (r, l) = dsa_event drv Kzalloc l in (r = 0, l))"

definition call_op :: "driver \<Rightarrow> dsa_switch \<Rightarrow> dsa_op \<Rightarrow> dsa_call \<Rightarrow> dsa_log \<Rightarrow> (int \<times> dsa_log) option" where
  "call_op drv sw f c l = (if f \<in> sw_ops sw then Some (dsa_event drv c l) else None)"

text \<open>Requests for standalone host addresses wait in an ordered work queue (\<open>user.c\<close>).\<close>

datatype dsa_standalone_event = DSA_UC_ADD | DSA_UC_DEL | DSA_MC_ADD | DSA_MC_DEL

record dsa_standalone_event_work =
  wk_event :: dsa_standalone_event
  wk_dp :: dp_ptr
  wk_addr :: "u8 list"
  wk_vid :: u16

text \<open>The members of network devices that the core reads and writes.\<close>

record dsa_netdev =
  nd_mtu :: int
  nd_max_mtu :: int
  nd_hw_vlan_ctag_filter :: bool

text \<open>
  The tree with its stores. \<open>t_bridges\<close> is the global \<open>dsa_fwd_offloading_bridges\<close> and \<open>t_work\<close> the
  global work queue; switches described by platform data are all in tree 0
  (\<open>dsa_switch_parse\<close>), so there is one tree and its record holds the globals.
\<close>

record dsa_tree =
  t_index :: nat
  t_ports :: "dp_ptr list"
  t_rtable :: "(dp_ptr \<times> dp_ptr) list"
  t_lags :: "lag_ptr option list"
  t_nh :: "ds_ptr list"
  t_dp :: "dp_ptr \<Rightarrow> dsa_port_obj"
  t_ds :: "ds_ptr \<Rightarrow> dsa_switch"
  t_lag :: "lag_ptr \<Rightarrow> dsa_lag"
  t_br :: "br_ptr \<Rightarrow> dsa_bridge"
  t_net :: "netdev \<Rightarrow> dsa_netdev"
  t_bridges :: u64
  t_work :: "dsa_standalone_event_work list"
  t_log :: dsa_log

definition upd_port :: "dp_ptr \<Rightarrow> (dsa_port_obj \<Rightarrow> dsa_port_obj) \<Rightarrow> dsa_tree \<Rightarrow> dsa_tree" where
  "upd_port p f t = t\<lparr>t_dp := (t_dp t)(p := f (t_dp t p))\<rparr>"

definition upd_lag :: "lag_ptr \<Rightarrow> (dsa_lag \<Rightarrow> dsa_lag) \<Rightarrow> dsa_tree \<Rightarrow> dsa_tree" where
  "upd_lag p f t = t\<lparr>t_lag := (t_lag t)(p := f (t_lag t p))\<rparr>"

definition upd_ds :: "ds_ptr \<Rightarrow> (dsa_switch \<Rightarrow> dsa_switch) \<Rightarrow> dsa_tree \<Rightarrow> dsa_tree" where
  "upd_ds p f t = t\<lparr>t_ds := (t_ds t)(p := f (t_ds t p))\<rparr>"

subsection \<open>Navigation\<close>

definition dsa_to_port :: "dsa_tree \<Rightarrow> ds_ptr \<Rightarrow> nat \<Rightarrow> dp_ptr option" where
  "dsa_to_port t ds p =
     find (\<lambda>dp. port_ds (t_dp t dp) = ds \<and> port_index (t_dp t dp) = p) (t_ports t)"

definition dsa_port_is_dsa :: "dsa_port_obj \<Rightarrow> bool" where
  "dsa_port_is_dsa dp = (port_type dp = DSA_PORT_TYPE_DSA)"

definition dsa_port_is_cpu :: "dsa_port_obj \<Rightarrow> bool" where
  "dsa_port_is_cpu dp = (port_type dp = DSA_PORT_TYPE_CPU)"

definition dsa_port_is_user :: "dsa_port_obj \<Rightarrow> bool" where
  "dsa_port_is_user dp = (port_type dp = DSA_PORT_TYPE_USER)"

definition dsa_port_is_unused :: "dsa_port_obj \<Rightarrow> bool" where
  "dsa_port_is_unused dp = (port_type dp = DSA_PORT_TYPE_UNUSED)"

definition dsa_switch_ports :: "dsa_tree \<Rightarrow> ds_ptr \<Rightarrow> dp_ptr list" where
  "dsa_switch_ports t ds = filter (\<lambda>dp. port_ds (t_dp t dp) = ds) (t_ports t)"

definition dsa_user_ports :: "dsa_tree \<Rightarrow> ds_ptr \<Rightarrow> u32" where
  "dsa_user_ports t ds =
     foldl (\<lambda>m dp. if dsa_port_is_user (t_dp t dp) then m OR push_bit (port_index (t_dp t dp)) 1 else m)
       0 (dsa_switch_ports t ds)"

definition dsa_cpu_ports :: "dsa_tree \<Rightarrow> ds_ptr \<Rightarrow> u32" where
  "dsa_cpu_ports t ds =
     foldl (\<lambda>m dp. if dsa_port_is_cpu (t_dp t dp) then m OR push_bit (port_index (t_dp t dp)) 1 else m)
       0 (dsa_switch_ports t ds)"

definition dsa_routing_port :: "dsa_tree \<Rightarrow> ds_ptr \<Rightarrow> nat \<Rightarrow> nat" where
  "dsa_routing_port t ds device =
     (case find (\<lambda>(dp, link_dp). port_ds (t_dp t dp) = ds \<and>
                    sw_index (t_ds t (port_ds (t_dp t link_dp))) = device) (t_rtable t) of
        Some (dp, _) \<Rightarrow> port_index (t_dp t dp)
      | None \<Rightarrow> sw_num_ports (t_ds t ds))"

definition dsa_towards_port :: "dsa_tree \<Rightarrow> ds_ptr \<Rightarrow> nat \<Rightarrow> nat \<Rightarrow> nat" where
  "dsa_towards_port t ds device port =
     (if device = sw_index (t_ds t ds) then port else dsa_routing_port t ds device)"

definition dsa_is_unused_port :: "dsa_tree \<Rightarrow> ds_ptr \<Rightarrow> nat \<Rightarrow> bool option" where
  "dsa_is_unused_port t ds p = do {dp \<leftarrow> dsa_to_port t ds p; Some (dsa_port_is_unused (t_dp t dp))}"

definition dsa_is_dsa_port :: "dsa_tree \<Rightarrow> ds_ptr \<Rightarrow> nat \<Rightarrow> bool option" where
  "dsa_is_dsa_port t ds p = do {dp \<leftarrow> dsa_to_port t ds p; Some (dsa_port_is_dsa (t_dp t dp))}"

definition dsa_upstream_port :: "dsa_tree \<Rightarrow> ds_ptr \<Rightarrow> nat \<Rightarrow> nat option" where
  "dsa_upstream_port t ds port = do {
     dp \<leftarrow> dsa_to_port t ds port;
     Some (case port_cpu_dp (t_dp t dp) of
             None \<Rightarrow> port
           | Some cpu_dp \<Rightarrow> dsa_towards_port t ds (sw_index (t_ds t (port_ds (t_dp t cpu_dp))))
                              (port_index (t_dp t cpu_dp)))}"

definition dsa_is_upstream_port :: "dsa_tree \<Rightarrow> ds_ptr \<Rightarrow> nat \<Rightarrow> bool option" where
  "dsa_is_upstream_port t ds port = do {
     unused \<leftarrow> dsa_is_unused_port t ds port;
     if unused then Some False
     else do {up \<leftarrow> dsa_upstream_port t ds port; Some (port = up)}}"

definition dsa_is_downstream_port :: "dsa_tree \<Rightarrow> ds_ptr \<Rightarrow> nat \<Rightarrow> bool option" where
  "dsa_is_downstream_port t ds port = do {
     is_dsa \<leftarrow> dsa_is_dsa_port t ds port;
     if \<not> is_dsa then Some False
     else do {up \<leftarrow> dsa_is_upstream_port t ds port; Some (\<not> up)}}"

definition dsa_switch_upstream_port :: "dsa_tree \<Rightarrow> ds_ptr \<Rightarrow> nat option" where
  "dsa_switch_upstream_port t ds =
     (case find (\<lambda>dp. \<not> dsa_port_is_unused (t_dp t dp)) (dsa_switch_ports t ds) of
        Some dp \<Rightarrow> dsa_upstream_port t ds (port_index (t_dp t dp))
      | None \<Rightarrow> Some (sw_num_ports (t_ds t ds)))"

definition dsa_switch_is_upstream_of :: "dsa_tree \<Rightarrow> ds_ptr \<Rightarrow> ds_ptr \<Rightarrow> bool option" where
  "dsa_switch_is_upstream_of t upstream_ds downstream_ds =
     (if upstream_ds = downstream_ds then Some True
      else dsa_is_upstream_port t downstream_ds
             (dsa_routing_port t downstream_ds (sw_index (t_ds t upstream_ds))))"

definition dsa_port_is_vlan_filtering :: "dsa_tree \<Rightarrow> dsa_port_obj \<Rightarrow> bool" where
  "dsa_port_is_vlan_filtering t dp =
     (let ds = t_ds t (port_ds dp) in
      if sw_vlan_filtering_is_global ds then sw_vlan_filtering ds else port_vlan_filtering dp)"

definition dsa_port_lag_id_get :: "dsa_tree \<Rightarrow> dsa_port_obj \<Rightarrow> nat" where
  "dsa_port_lag_id_get t dp = (case port_lag dp of Some l \<Rightarrow> lag_id (t_lag t l) | None \<Rightarrow> 0)"

definition dsa_port_lag_dev_get :: "dsa_tree \<Rightarrow> dsa_port_obj \<Rightarrow> netdev option" where
  "dsa_port_lag_dev_get t dp = (case port_lag dp of Some l \<Rightarrow> Some (lag_dev (t_lag t l)) | None \<Rightarrow> None)"

definition dsa_port_offloads_lag :: "dsa_tree \<Rightarrow> dsa_port_obj \<Rightarrow> lag_ptr \<Rightarrow> bool" where
  "dsa_port_offloads_lag t dp lag = (dsa_port_lag_dev_get t dp = Some (lag_dev (t_lag t lag)))"

definition dsa_port_bridge_dev_get :: "dsa_tree \<Rightarrow> dsa_port_obj \<Rightarrow> netdev option" where
  "dsa_port_bridge_dev_get t dp =
     (case port_bridge dp of Some b \<Rightarrow> Some (br_dev (t_br t b)) | None \<Rightarrow> None)"

definition dsa_port_bridge_num_get :: "dsa_tree \<Rightarrow> dsa_port_obj \<Rightarrow> nat" where
  "dsa_port_bridge_num_get t dp =
     (case port_bridge dp of Some b \<Rightarrow> br_num (t_br t b) | None \<Rightarrow> 0)"

definition dsa_port_bridge_same :: "dsa_tree \<Rightarrow> dsa_port_obj \<Rightarrow> dsa_port_obj \<Rightarrow> bool" where
  "dsa_port_bridge_same t a b =
     (let br_a = dsa_port_bridge_dev_get t a; br_b = dsa_port_bridge_dev_get t b in
      if br_a = None \<or> br_b = None then False else br_a = br_b)"

subsection \<open>Numbers of LAGs\<close>

text \<open>LAG numbers are one-based, the array of the tree is zero-based.\<close>

definition dsa_lag_by_id :: "dsa_tree \<Rightarrow> nat \<Rightarrow> lag_ptr option" where
  "dsa_lag_by_id t n = t_lags t ! (n - 1)"

definition dsa_lag_id :: "dsa_tree \<Rightarrow> netdev \<Rightarrow> int" where
  "dsa_lag_id t dev =
     (case find (\<lambda>n. case dsa_lag_by_id t n of Some l \<Rightarrow> lag_dev (t_lag t l) = dev | None \<Rightarrow> False)
             [1..<Suc (length (t_lags t))] of
        Some n \<Rightarrow> (case dsa_lag_by_id t n of Some l \<Rightarrow> int (lag_id (t_lag t l)) | None \<Rightarrow> ENODEV_NEG)
      | None \<Rightarrow> ENODEV_NEG)"

definition dsa_lag_map :: "lag_ptr \<Rightarrow> dsa_tree \<Rightarrow> dsa_tree" where
  "dsa_lag_map lag t =
     (case find (\<lambda>n. dsa_lag_by_id t n = None) [1..<Suc (length (t_lags t))] of
        Some n \<Rightarrow> upd_lag lag (\<lambda>l. l\<lparr>lag_id := n\<rparr>) (t\<lparr>t_lags := (t_lags t)[n - 1 := Some lag]\<rparr>)
      | None \<Rightarrow> t)"

definition dsa_lag_unmap :: "lag_ptr \<Rightarrow> dsa_tree \<Rightarrow> dsa_tree" where
  "dsa_lag_unmap lag t =
     (case find (\<lambda>n. dsa_lag_by_id t n = Some lag) [1..<Suc (length (t_lags t))] of
        Some n \<Rightarrow> upd_lag lag (\<lambda>l. l\<lparr>lag_id := 0\<rparr>) (t\<lparr>t_lags := (t_lags t)[n - 1 := None]\<rparr>)
      | None \<Rightarrow> t)"

definition dsa_tree_lag_find :: "dsa_tree \<Rightarrow> netdev \<Rightarrow> lag_ptr option" where
  "dsa_tree_lag_find t dev =
     do {dp \<leftarrow> find (\<lambda>dp. dsa_port_lag_dev_get t (t_dp t dp) = Some dev) (t_ports t);
         port_lag (t_dp t dp)}"

definition dsa_tree_bridge_find :: "dsa_tree \<Rightarrow> netdev \<Rightarrow> br_ptr option" where
  "dsa_tree_bridge_find t br =
     do {dp \<leftarrow> find (\<lambda>dp. dsa_port_bridge_dev_get t (t_dp t dp) = Some br) (t_ports t);
         port_bridge (t_dp t dp)}"

subsection \<open>Numbers of bridges\<close>

text \<open>
  The bit mask \<open>dsa_fwd_offloading_bridges\<close> is global; \<open>find_next_zero_bit\<close> returns the size of
  the mask, 64, when no bit from the offset on is clear. Setting a bit outside the mask writes
  behind it: \<open>None\<close>.
\<close>

definition find_next_zero_bit :: "u64 \<Rightarrow> nat \<Rightarrow> nat \<Rightarrow> nat" where
  "find_next_zero_bit w nbits offset =
     (case find (\<lambda>n. \<not> bit w n) [offset..<nbits] of Some n \<Rightarrow> n | None \<Rightarrow> nbits)"

definition dsa_bridge_num_find :: "dsa_tree list \<Rightarrow> netdev \<Rightarrow> nat" where
  "dsa_bridge_num_find trees br =
     (case find (\<lambda>t. dsa_tree_bridge_find t br \<noteq> None) trees of
        Some t \<Rightarrow> (case dsa_tree_bridge_find t br of Some b \<Rightarrow> br_num (t_br t b) | None \<Rightarrow> 0)
      | None \<Rightarrow> 0)"

definition dsa_bridge_num_get :: "dsa_tree list \<Rightarrow> netdev \<Rightarrow> nat \<Rightarrow> u64 \<Rightarrow> (nat \<times> u64) option" where
  "dsa_bridge_num_get trees br mx w =
     (let bridge_num = dsa_bridge_num_find trees br in
      if mx = 0 then Some (0, w)
      else if bridge_num = 0 then
        (let n = find_next_zero_bit w 64 1 in
         if n \<ge> mx then Some (0, w)
         else if n < 64 then Some (n, set_bit n w) else None)
      else Some (bridge_num, w))"

definition dsa_bridge_num_put :: "nat \<Rightarrow> u64 \<Rightarrow> u64" where
  "dsa_bridge_num_put bridge_num w = unset_bit bridge_num w"

subsection \<open>Routing table and CPU ports\<close>

definition dsa_tree_find_port_by_node :: "dsa_tree \<Rightarrow> dev_node \<Rightarrow> dp_ptr option" where
  "dsa_tree_find_port_by_node t dn = find (\<lambda>dp. port_dn (t_dp t dp) = Some dn) (t_ports t)"

definition dsa_link_touch :: "driver \<Rightarrow> dp_ptr \<Rightarrow> dp_ptr \<Rightarrow> dsa_tree \<Rightarrow> bool \<times> dsa_tree" where
  "dsa_link_touch drv dp link_dp t =
     (if (dp, link_dp) \<in> set (t_rtable t) then (True, t)
      else
        (let (got, l) = dsa_kzalloc drv (t_log t); t = t\<lparr>t_log := l\<rparr> in
         if \<not> got then (False, t)
         else (True, t\<lparr>t_rtable := t_rtable t @ [(dp, link_dp)]\<rparr>)))"

text \<open>The phandles of the \<open>link\<close> property of a node come from the device tree.\<close>

fun setup_links :: "driver \<Rightarrow> dp_ptr \<Rightarrow> dev_node list \<Rightarrow> dsa_tree \<Rightarrow> bool \<times> dsa_tree" where
  "setup_links drv dp [] t = (True, t)"
| "setup_links drv dp (n # ns) t =
     (case dsa_tree_find_port_by_node t n of
        None \<Rightarrow> (False, t)
      | Some link_dp \<Rightarrow>
          (let (ok, t) = dsa_link_touch drv dp link_dp t in
           if \<not> ok then (False, t) else setup_links drv dp ns t))"

definition dsa_port_setup_routing_table ::
  "driver \<Rightarrow> (dev_node option \<Rightarrow> dev_node list) \<Rightarrow> dp_ptr \<Rightarrow> dsa_tree \<Rightarrow> bool \<times> dsa_tree" where
  "dsa_port_setup_routing_table drv links dp t = setup_links drv dp (links (port_dn (t_dp t dp))) t"

fun setup_routing ::
  "driver \<Rightarrow> (dev_node option \<Rightarrow> dev_node list) \<Rightarrow> dp_ptr list \<Rightarrow> dsa_tree \<Rightarrow> bool \<times> dsa_tree" where
  "setup_routing drv links [] t = (True, t)"
| "setup_routing drv links (dp # dps) t =
     (if dsa_port_is_dsa (t_dp t dp) then
        (let (complete, t) = dsa_port_setup_routing_table drv links dp t in
         if \<not> complete then (False, t) else setup_routing drv links dps t)
      else setup_routing drv links dps t)"

definition dsa_tree_setup_routing_table ::
  "driver \<Rightarrow> (dev_node option \<Rightarrow> dev_node list) \<Rightarrow> dsa_tree \<Rightarrow> bool \<times> dsa_tree" where
  "dsa_tree_setup_routing_table drv links t = setup_routing drv links (t_ports t) t"

definition dsa_tree_find_first_cpu :: "dsa_tree \<Rightarrow> dp_ptr option" where
  "dsa_tree_find_first_cpu t = find (\<lambda>dp. dsa_port_is_cpu (t_dp t dp)) (t_ports t)"

text \<open>The assignment both loops make: a port that has no CPU port yet gets this one.\<close>

definition assign_cpu :: "dp_ptr \<Rightarrow> dsa_port_obj \<Rightarrow> dsa_port_obj" where
  "assign_cpu cpu_dp dp =
     (if port_cpu_dp dp \<noteq> None then dp
      else if dsa_port_is_user dp \<or> dsa_port_is_dsa dp then dp\<lparr>port_cpu_dp := Some cpu_dp\<rparr>
      else dp)"

definition dsa_tree_setup_default_cpu :: "dsa_tree \<Rightarrow> int \<times> dsa_tree" where
  "dsa_tree_setup_default_cpu t =
     (case dsa_tree_find_first_cpu t of
        None \<Rightarrow> (EINVAL_NEG, t)
      | Some cpu_dp \<Rightarrow> (0, foldl (\<lambda>t dp. upd_port dp (assign_cpu cpu_dp) t) t (t_ports t)))"

text \<open>\<open>preferred\<close> is the answer of the operation of the same name of each switch's driver.\<close>

definition dsa_switch_preferred_default_local_cpu_port ::
  "(ds_ptr \<Rightarrow> dp_ptr option) \<Rightarrow> dsa_tree \<Rightarrow> ds_ptr \<Rightarrow> dp_ptr option" where
  "dsa_switch_preferred_default_local_cpu_port preferred t ds =
     (if Op_preferred_default_local_cpu_port \<notin> sw_ops (t_ds t ds) then None
      else
        (case preferred ds of
           None \<Rightarrow> None
         | Some cpu_dp \<Rightarrow>
             if \<not> dsa_port_is_cpu (t_dp t cpu_dp) \<or> port_ds (t_dp t cpu_dp) \<noteq> ds then None
             else Some cpu_dp))"

definition setup_local_cpu :: "(ds_ptr \<Rightarrow> dp_ptr option) \<Rightarrow> dsa_tree \<Rightarrow> dp_ptr \<Rightarrow> dsa_tree" where
  "setup_local_cpu preferred t cpu_dp =
     (if \<not> dsa_port_is_cpu (t_dp t cpu_dp) then t
      else
        (let pref = dsa_switch_preferred_default_local_cpu_port preferred t (port_ds (t_dp t cpu_dp)) in
         if pref \<noteq> None \<and> pref \<noteq> Some cpu_dp then t
         else foldl (\<lambda>t dp. upd_port dp (assign_cpu cpu_dp) t) t
                (dsa_switch_ports t (port_ds (t_dp t cpu_dp)))))"

definition dsa_tree_setup_cpu_ports :: "(ds_ptr \<Rightarrow> dp_ptr option) \<Rightarrow> dsa_tree \<Rightarrow> int \<times> dsa_tree" where
  "dsa_tree_setup_cpu_ports preferred t =
     dsa_tree_setup_default_cpu (foldl (setup_local_cpu preferred) t (t_ports t))"

definition dsa_tree_teardown_cpu_ports :: "dsa_tree \<Rightarrow> dsa_tree" where
  "dsa_tree_teardown_cpu_ports t =
     foldl (\<lambda>t dp. upd_port dp (\<lambda>p. if dsa_port_is_user p \<or> dsa_port_is_dsa p
                                     then p\<lparr>port_cpu_dp := None\<rparr> else p) t) t (t_ports t)"

definition dsa_tree_setup_lags :: "driver \<Rightarrow> dsa_tree \<Rightarrow> int \<times> dsa_tree" where
  "dsa_tree_setup_lags drv t =
     (let len = foldl (\<lambda>len dp. let n = sw_num_lag_ids (t_ds t (port_ds (t_dp t dp))) in
                                 if n > len then n else len) 0 (t_ports t) in
      if len = 0 then (0, t)
      else
        (let (got, l) = dsa_kzalloc drv (t_log t); t = t\<lparr>t_log := l\<rparr> in
         if \<not> got then (ENOMEM_NEG, t)
         else (0, t\<lparr>t_lags := replicate len None\<rparr>)))"

definition dsa_switch_find :: "dsa_tree list \<Rightarrow> nat \<Rightarrow> nat \<Rightarrow> ds_ptr option" where
  "dsa_switch_find trees tree_index swi =
     (case find (\<lambda>t. t_index t = tree_index \<and>
                    (\<exists>dp\<in>set (t_ports t). sw_index (t_ds t (port_ds (t_dp t dp))) = swi)) trees of
        None \<Rightarrow> None
      | Some t \<Rightarrow>
          do {dp \<leftarrow> find (\<lambda>dp. sw_index (t_ds t (port_ds (t_dp t dp))) = swi) (t_ports t);
              Some (port_ds (t_dp t dp))})"


subsection \<open>The tree of the board\<close>

text \<open>
  The tree the AXM57104A forms: one switch with the user ports 0 to 3 and the CPU port 4
  (\<open>dsa_loop.h\<close>), before its CPU ports are assigned. The theorems are applied to it.
\<close>

definition board_port :: "nat \<Rightarrow> dsa_port_obj" where
  "board_port i = \<lparr>port_netdev = Some i, port_ds = 0, port_index = i,
     port_type = (if i < 4 then DSA_PORT_TYPE_USER else DSA_PORT_TYPE_CPU), port_cpu_dp = None,
     port_stp_state = 0, port_vlan_filtering = False, port_learning = False, port_lag_tx_enabled = False,
     port_conduit_admin_up = False, port_conduit_oper_up = False, port_cpu_in_lag = False,
     port_setup = False, port_dn = None, port_ageing_time = 0, port_bridge = None, port_pl = False,
     port_lag = None, port_hsr_dev = None, port_fdbs = [], port_mdbs = [], port_vlans = []\<rparr>"

definition board_switch :: dsa_switch where
  "board_switch = \<lparr>sw_index = 0, sw_num_ports = 5, sw_vlan_filtering_is_global = False,
     sw_needs_standalone_vlan_filtering = False, sw_configure_vlan_while_not_filtering = True,
     sw_vlan_filtering = False, sw_mtu_enforcement_ingress = False, sw_fdb_isolation = False, sw_ageing_time_min = 0,
     sw_ageing_time_max = 0, sw_num_lag_ids = 0, sw_max_num_bridges = 0, sw_tagger_data = False,
     sw_tag_8021q_ctx = None,
     sw_ops = {Op_preferred_default_local_cpu_port, Op_port_bridge_join, Op_port_bridge_leave,
       Op_port_stp_state_set, Op_port_vlan_filtering, Op_port_vlan_add, Op_port_vlan_del,
       Op_port_enable, Op_port_disable, Op_phylink_get_caps}\<rparr>"

definition board_tree :: dsa_tree where
  "board_tree = \<lparr>t_index = 0, t_ports = [0, 1, 2, 3, 4], t_rtable = [], t_lags = [], t_nh = [0],
     t_dp = board_port, t_ds = (\<lambda>_. board_switch),
     t_lag = (\<lambda>_. \<lparr>lag_dev = 0, lag_id = 0, lag_fdbs = [], lag_refcount = 0\<rparr>),
     t_br = (\<lambda>_. \<lparr>br_dev = 0, br_num = 0, br_tx_fwd_offload = False, br_refcount = 0\<rparr>),
     t_net = (\<lambda>_. \<lparr>nd_mtu = 1500, nd_max_mtu = 1500, nd_hw_vlan_ctag_filter = False\<rparr>),
     t_bridges = 0, t_work = [], t_log = []\<rparr>"

subsection \<open>Laws of the store\<close>

named_theorems dsa_store \<open>reading the stores of the tree after an update\<close>

lemma upd_port_sel [dsa_store]:
  "t_dp (upd_port p f t) q = (if q = p then f (t_dp t p) else t_dp t q)"
  "t_ports (upd_port p f t) = t_ports t" "t_ds (upd_port p f t) = t_ds t"
  "t_lag (upd_port p f t) = t_lag t" "t_lags (upd_port p f t) = t_lags t"
  "t_rtable (upd_port p f t) = t_rtable t" "t_log (upd_port p f t) = t_log t"
  "t_br (upd_port p f t) = t_br t" "t_nh (upd_port p f t) = t_nh t"
  "t_net (upd_port p f t) = t_net t" "t_bridges (upd_port p f t) = t_bridges t"
  "t_work (upd_port p f t) = t_work t" "t_index (upd_port p f t) = t_index t"
  by (simp_all add: upd_port_def)

lemma upd_lag_sel [dsa_store]:
  "t_lag (upd_lag p f t) q = (if q = p then f (t_lag t p) else t_lag t q)"
  "t_dp (upd_lag p f t) = t_dp t" "t_ports (upd_lag p f t) = t_ports t"
  "t_lags (upd_lag p f t) = t_lags t" "t_ds (upd_lag p f t) = t_ds t"
  "t_rtable (upd_lag p f t) = t_rtable t" "t_log (upd_lag p f t) = t_log t"
  by (simp_all add: upd_lag_def)

lemma upd_ds_sel [dsa_store]:
  "t_ds (upd_ds p f t) q = (if q = p then f (t_ds t p) else t_ds t q)"
  "t_dp (upd_ds p f t) = t_dp t" "t_ports (upd_ds p f t) = t_ports t"
  "t_lag (upd_ds p f t) = t_lag t" "t_rtable (upd_ds p f t) = t_rtable t"
  "t_log (upd_ds p f t) = t_log t"
  by (simp_all add: upd_ds_def)

lemma find_upt_least:
  "find P [a..<b] = Some n \<longleftrightarrow> a \<le> n \<and> n < b \<and> P n \<and> (\<forall>m. a \<le> m \<and> m < n \<longrightarrow> \<not> P m)"
proof
  assume "find P [a..<b] = Some n"
  then obtain i where i: "i < b - a" "P (a + i)" "n = a + i" "\<forall>j<i. \<not> P (a + j)"
    by (auto simp: find_Some_iff)
  have "\<not> P m" if "a \<le> m" "m < n" for m
    using i(4) [rule_format, of "m - a"] i(3) that by auto
  then show "a \<le> n \<and> n < b \<and> P n \<and> (\<forall>m. a \<le> m \<and> m < n \<longrightarrow> \<not> P m)"
    using i by auto
next
  assume *: "a \<le> n \<and> n < b \<and> P n \<and> (\<forall>m. a \<le> m \<and> m < n \<longrightarrow> \<not> P m)"
  then show "find P [a..<b] = Some n"
    by (auto simp: find_Some_iff intro!: exI [of _ "n - a"])
qed

lemma find_upt_none: "find P [a..<b] = None \<longleftrightarrow> (\<forall>m. a \<le> m \<and> m < b \<longrightarrow> \<not> P m)"
  by (auto simp: find_None_iff)

subsection \<open>LAG numbers\<close>

text \<open>
  The invariant of the LAG array: a mapped LAG carries the number of its slot, and two slots
  hold LAGs of different network devices.
\<close>

definition lags_ok :: "dsa_tree \<Rightarrow> bool" where
  "lags_ok t \<longleftrightarrow>
     (\<forall>n\<in>{1..length (t_lags t)}. \<forall>l. dsa_lag_by_id t n = Some l \<longrightarrow>
        lag_id (t_lag t l) = n \<and>
        (\<forall>m\<in>{1..length (t_lags t)}. \<forall>k. dsa_lag_by_id t m = Some k \<longrightarrow> m \<noteq> n \<longrightarrow>
           lag_dev (t_lag t k) \<noteq> lag_dev (t_lag t l)))"

definition dev_unmapped :: "dsa_tree \<Rightarrow> netdev \<Rightarrow> bool" where
  "dev_unmapped t dev \<longleftrightarrow>
     (\<forall>n\<in>{1..length (t_lags t)}. \<forall>l. dsa_lag_by_id t n = Some l \<longrightarrow> lag_dev (t_lag t l) \<noteq> dev)"

lemma lags_okD:
  assumes "lags_ok t" "1 \<le> n" "n \<le> length (t_lags t)" "dsa_lag_by_id t n = Some l"
  shows "lag_id (t_lag t l) = n"
    and "\<lbrakk>1 \<le> m; m \<le> length (t_lags t); dsa_lag_by_id t m = Some k; m \<noteq> n\<rbrakk> \<Longrightarrow>
           lag_dev (t_lag t k) \<noteq> lag_dev (t_lag t l)"
  using assms unfolding lags_ok_def by (meson atLeastAtMost_iff)+

lemma dsa_lag_id_mapped:
  assumes "lags_ok t" "1 \<le> n" "n \<le> length (t_lags t)" "dsa_lag_by_id t n = Some l"
  shows "dsa_lag_id t (lag_dev (t_lag t l)) = int n"
proof -
  have "find (\<lambda>n. case dsa_lag_by_id t n of Some k \<Rightarrow> lag_dev (t_lag t k) = lag_dev (t_lag t l) | None \<Rightarrow> False)
          [1..<Suc (length (t_lags t))] = Some n"
    using assms lags_okD(2) [OF assms]
    by (auto simp: find_upt_least simp del: upt_Suc split: option.splits)
  then show ?thesis
    using assms lags_okD(1) [OF assms] by (simp add: dsa_lag_id_def del: upt_Suc)
qed

lemma dsa_lag_id_unmapped: "dev_unmapped t dev \<Longrightarrow> dsa_lag_id t dev = ENODEV_NEG"
proof -
  assume "dev_unmapped t dev"
  then have "find (\<lambda>n. case dsa_lag_by_id t n of Some l \<Rightarrow> lag_dev (t_lag t l) = dev | None \<Rightarrow> False)
          [1..<Suc (length (t_lags t))] = None"
    by (auto simp: find_upt_none dev_unmapped_def simp del: upt_Suc split: option.splits)
  then show ?thesis by (simp add: dsa_lag_id_def del: upt_Suc)
qed

lemma dsa_lag_map_free:
  assumes "1 \<le> n" "n \<le> length (t_lags t)" "dsa_lag_by_id t n = None"
    "\<And>m. 1 \<le> m \<Longrightarrow> m < n \<Longrightarrow> dsa_lag_by_id t m \<noteq> None"
  shows "dsa_lag_map lag t =
           upd_lag lag (\<lambda>l. l\<lparr>lag_id := n\<rparr>) (t\<lparr>t_lags := (t_lags t)[n - 1 := Some lag]\<rparr>)"
proof -
  have "find (\<lambda>n. dsa_lag_by_id t n = None) [1..<Suc (length (t_lags t))] = Some n"
    using assms by (auto simp: find_upt_least simp del: upt_Suc)
  then show ?thesis by (simp add: dsa_lag_map_def del: upt_Suc)
qed

lemma dsa_lag_by_id_upd:
  "1 \<le> n \<Longrightarrow> n \<le> length (t_lags t) \<Longrightarrow> 1 \<le> m \<Longrightarrow> t_lags t' = (t_lags t)[n - 1 := x] \<Longrightarrow>
   dsa_lag_by_id t' m = (if m = n then x else dsa_lag_by_id t m)"
  by (auto simp: dsa_lag_by_id_def nth_list_update)

lemma lags_ok_map:
  assumes "lags_ok t" "dev_unmapped t (lag_dev (t_lag t lag))"
  shows "lags_ok (dsa_lag_map lag t)"
proof (cases "find (\<lambda>n. dsa_lag_by_id t n = None) [1..<Suc (length (t_lags t))]")
  case None
  then show ?thesis using assms by (simp add: dsa_lag_map_def del: upt_Suc)
next
  case (Some n)
  then have n: "1 \<le> n" "n \<le> length (t_lags t)" by (auto simp: find_upt_least simp del: upt_Suc)
  define t' where "t' = dsa_lag_map lag t"
  have t': "t' = upd_lag lag (\<lambda>l. l\<lparr>lag_id := n\<rparr>) (t\<lparr>t_lags := (t_lags t)[n - 1 := Some lag]\<rparr>)"
    using Some by (simp add: t'_def dsa_lag_map_def del: upt_Suc)
  have look: "dsa_lag_by_id t' m = (if m = n then Some lag else dsa_lag_by_id t m)" if "1 \<le> m" for m
    using dsa_lag_by_id_upd [OF n that] by (simp add: t' dsa_store)
  have un: "lag_dev (t_lag t k) \<noteq> lag_dev (t_lag t lag)"
    if "1 \<le> m" "m \<le> length (t_lags t)" "dsa_lag_by_id t m = Some k" for m k
    using assms(2) that by (auto simp: dev_unmapped_def)
  have len: "length (t_lags t') = length (t_lags t)" by (simp add: t' dsa_store)
  have dev: "lag_dev (t_lag t' k) = lag_dev (t_lag t k)" for k by (simp add: t' dsa_store)
  have lid: "lag_id (t_lag t' k) = (if k = lag then n else lag_id (t_lag t k))" for k
    by (simp add: t' dsa_store)
  show ?thesis
    unfolding lags_ok_def t'_def [symmetric] len dev
  proof (intro ballI allI impI conjI)
    fix m l assume "m \<in> {1..length (t_lags t)}" "dsa_lag_by_id t' m = Some l"
    then show "lag_id (t_lag t' l) = m"
      using lags_okD(1) [OF assms(1), of m l] un [of m l] by (auto simp: look lid split: if_splits)
  next
    fix m l j k assume *: "m \<in> {1..length (t_lags t)}" "dsa_lag_by_id t' m = Some l"
      "j \<in> {1..length (t_lags t)}" "dsa_lag_by_id t' j = Some k" "j \<noteq> m"
    then show "lag_dev (t_lag t k) \<noteq> lag_dev (t_lag t l)"
      using lags_okD(2) [OF assms(1), of m l j k] un [of m l] un [of j k]
      by (auto simp: look split: if_splits)
  qed
qed

lemma dsa_lag_unmap_map:
  assumes "dev_unmapped t (lag_dev (t_lag t lag))" "1 \<le> n" "n \<le> length (t_lags t)"
    "dsa_lag_by_id t n = None" "\<And>m. 1 \<le> m \<Longrightarrow> m < n \<Longrightarrow> dsa_lag_by_id t m \<noteq> None"
  shows "dsa_lag_unmap lag (dsa_lag_map lag t) = upd_lag lag (\<lambda>l. l\<lparr>lag_id := 0\<rparr>) t"
proof -
  define t' where "t' = dsa_lag_map lag t"
  have t': "t' = upd_lag lag (\<lambda>l. l\<lparr>lag_id := n\<rparr>) (t\<lparr>t_lags := (t_lags t)[n - 1 := Some lag]\<rparr>)"
    using dsa_lag_map_free [OF assms(2-5)] by (simp add: t'_def)
  have look: "dsa_lag_by_id t' m = (if m = n then Some lag else dsa_lag_by_id t m)" if "1 \<le> m" for m
    using dsa_lag_by_id_upd [OF assms(2,3) that] by (simp add: t' dsa_store)
  have len: "length (t_lags t') = length (t_lags t)" by (simp add: t' dsa_store)
  have "find (\<lambda>n. dsa_lag_by_id t' n = Some lag) [1..<Suc (length (t_lags t'))] = Some n"
    using assms by (auto simp: find_upt_least look len dev_unmapped_def simp del: upt_Suc)
  moreover have "(t_lags t)[n - 1 := None] = t_lags t"
    using assms(2-4) by (simp add: dsa_lag_by_id_def list_update_same_conv)
  ultimately show ?thesis
    unfolding t'_def [symmetric]
    by (simp add: dsa_lag_unmap_def del: upt_Suc) (simp add: t' upd_lag_def)
qed

subsection \<open>Properties\<close>

text \<open>
  A LAG whose device is not mapped yet gets the smallest free number: the number and the
  LAG determine each other through \<open>dsa_lag_id\<close> and \<open>dsa_lag_by_id\<close>, the slots of the other LAGs
  keep their contents, the array stays one-to-one, and unmapping the LAG again restores the
  array and leaves the LAG without a number.
\<close>

theorem lag_map_roundtrip:
  assumes "lags_ok t" "dev_unmapped t (lag_dev (t_lag t lag))"
    and "1 \<le> n" "n \<le> length (t_lags t)" "dsa_lag_by_id t n = None"
    and "\<And>m. 1 \<le> m \<Longrightarrow> m < n \<Longrightarrow> dsa_lag_by_id t m \<noteq> None"
  shows "dsa_lag_by_id (dsa_lag_map lag t) n = Some lag \<and>
     dsa_lag_id (dsa_lag_map lag t) (lag_dev (t_lag t lag)) = int n \<and>
     (\<forall>m. 1 \<le> m \<and> m \<noteq> n \<longrightarrow> dsa_lag_by_id (dsa_lag_map lag t) m = dsa_lag_by_id t m) \<and>
     lags_ok (dsa_lag_map lag t) \<and>
     dsa_lag_unmap lag (dsa_lag_map lag t) = upd_lag lag (\<lambda>l. l\<lparr>lag_id := 0\<rparr>) t"
proof (intro conjI)
  note map = dsa_lag_map_free [OF assms(3-6)]
  have look: "dsa_lag_by_id (dsa_lag_map lag t) m = (if m = n then Some lag else dsa_lag_by_id t m)"
    if "1 \<le> m" for m
    using dsa_lag_by_id_upd [OF assms(3,4) that] by (simp add: map dsa_store)
  show "dsa_lag_by_id (dsa_lag_map lag t) n = Some lag"
    and "\<forall>m. 1 \<le> m \<and> m \<noteq> n \<longrightarrow> dsa_lag_by_id (dsa_lag_map lag t) m = dsa_lag_by_id t m"
    using assms(3) by (simp_all add: look)
  show ok: "lags_ok (dsa_lag_map lag t)" using assms(1,2) by (rule lags_ok_map)
  show "dsa_lag_id (dsa_lag_map lag t) (lag_dev (t_lag t lag)) = int n"
    using dsa_lag_id_mapped [OF ok assms(3) _ look [OF assms(3), simplified]] assms(4)
    by (simp add: map dsa_store)
  show "dsa_lag_unmap lag (dsa_lag_map lag t) = upd_lag lag (\<lambda>l. l\<lparr>lag_id := 0\<rparr>) t"
    using assms(2-6) by (rule dsa_lag_unmap_map)
qed

theorem lag_map_roundtrip_witness:
  "let t = board_tree\<lparr>t_lags := [None, None]\<rparr> in
   dsa_lag_by_id (dsa_lag_map 3 t) 1 = Some 3 \<and> dsa_lag_id (dsa_lag_map 3 t) 0 = 1 \<and>
   lags_ok (dsa_lag_map 3 t)"
proof -
  define t where "t = board_tree\<lparr>t_lags := [None, None]\<rparr>"
  have slot: "dsa_lag_by_id t n = None" if "n \<in> {1..length (t_lags t)}" for n
    using that by (auto simp: t_def dsa_lag_by_id_def nth_Cons split: nat.splits)
  have "lags_ok t" "dev_unmapped t (lag_dev (t_lag t 3))"
    by (simp_all add: lags_ok_def dev_unmapped_def slot)
  moreover have "lag_dev (t_lag t 3) = 0" "length (t_lags t) = 2"
    by (simp_all add: t_def board_tree_def)
  ultimately show ?thesis
    using lag_map_roundtrip [of t 3 1] slot [of 1] by (simp add: Let_def t_def [symmetric])
qed

subsection \<open>Bridge numbers\<close>

lemma find_next_zero_bit_spec:
  "find_next_zero_bit w nbits k = n \<Longrightarrow> k \<le> nbits \<Longrightarrow>
     k \<le> n \<and> n \<le> nbits \<and> (n < nbits \<longrightarrow> \<not> bit w n) \<and> (\<forall>m. k \<le> m \<and> m < n \<longrightarrow> bit w m)"
  by (auto simp: find_next_zero_bit_def find_upt_least find_upt_none split: option.splits)

lemma unset_set_bit_id: "\<not> bit w n \<Longrightarrow> unset_bit n (set_bit n w) = (w :: 'a::len word)"
  by (rule bit_word_eqI) (auto simp: bit_simps)

text \<open>
  A bridge that no tree offloads yet, on a switch that supports at most 64 bridge numbers,
  gets the smallest number that is free: the number is in range, it was not in use, all
  smaller numbers are in use, it is in use afterwards, and putting it back restores the mask.
  With no number left the result is 0 and the mask is unchanged.
\<close>

theorem bridge_num_fresh:
  assumes "dsa_bridge_num_find trees br = 0" "0 < mx" "mx \<le> 64"
  shows "\<exists>n w'. dsa_bridge_num_get trees br mx w = Some (n, w') \<and> n < mx \<and>
           (if n = 0 then w' = w \<and> (\<forall>m. 1 \<le> m \<and> m < mx \<longrightarrow> bit w m)
            else \<not> bit w n \<and> (\<forall>m. 1 \<le> m \<and> m < n \<longrightarrow> bit w m) \<and> bit w' n \<and>
                 dsa_bridge_num_put n w' = w)"
proof -
  define n where "n = find_next_zero_bit w 64 1"
  have n: "1 \<le> n" "n \<le> 64" "n < 64 \<Longrightarrow> \<not> bit w n" "\<And>m. 1 \<le> m \<Longrightarrow> m < n \<Longrightarrow> bit w m"
    using find_next_zero_bit_spec [OF n_def [symmetric]] by auto
  have get: "dsa_bridge_num_get trees br mx w =
      (if mx \<le> n then Some (0, w) else if n < 64 then Some (n, set_bit n w) else None)"
    using assms by (simp add: dsa_bridge_num_get_def n_def Let_def)
  show ?thesis
  proof (cases "mx \<le> n")
    case True
    then show ?thesis using assms n(4) by (intro exI [of _ 0] exI [of _ w]) (simp add: get)
  next
    case False
    then show ?thesis using assms n
      by (intro exI [of _ n] exI [of _ "set_bit n w"])
        (simp add: get dsa_bridge_num_put_def unset_set_bit_id bit_set_bit_iff)
  qed
qed

theorem bridge_num_fresh_witness:
  "\<exists>n w'. dsa_bridge_num_get [board_tree] 7 4 0b1010 = Some (n, w') \<and> n < 4 \<and>
     (if n = 0 then w' = 0b1010 \<and> (\<forall>m. 1 \<le> m \<and> m < 4 \<longrightarrow> bit (0b1010 :: u64) m)
      else \<not> bit (0b1010 :: u64) n \<and> (\<forall>m. 1 \<le> m \<and> m < n \<longrightarrow> bit (0b1010 :: u64) m) \<and> bit w' n \<and>
           dsa_bridge_num_put n w' = 0b1010)"
  by (rule bridge_num_fresh)
    (simp_all add: dsa_bridge_num_find_def dsa_tree_bridge_find_def board_tree_def board_port_def
      dsa_port_bridge_dev_get_def)

subsection \<open>Assignment of CPU ports\<close>

text \<open>What the assignment does not touch: the ports, their types and switches.\<close>

definition same_fabric :: "dsa_tree \<Rightarrow> dsa_tree \<Rightarrow> bool" where
  "same_fabric t t' \<longleftrightarrow> t_ports t' = t_ports t \<and> t_ds t' = t_ds t \<and>
     (\<forall>p. port_type (t_dp t' p) = port_type (t_dp t p) \<and> port_ds (t_dp t' p) = port_ds (t_dp t p))"

lemma assign_cpu_sel [simp]:
  "port_type (assign_cpu c p) = port_type p" "port_ds (assign_cpu c p) = port_ds p"
  "assign_cpu c (assign_cpu c' p) = assign_cpu c' p"
  by (simp_all add: assign_cpu_def dsa_port_is_user_def dsa_port_is_dsa_def)

lemma foldl_assign_sel:
  fixes f defines "f \<equiv> (\<lambda>c t dp. upd_port dp (assign_cpu c) t)"
  shows "t_dp (foldl (f c) t ps) q = (if q \<in> set ps then assign_cpu c (t_dp t q) else t_dp t q)"
    and "t_ports (foldl (f c) t ps) = t_ports t" and "t_ds (foldl (f c) t ps) = t_ds t"
  by (induction ps arbitrary: t) (auto simp: f_def dsa_store)

lemma same_fabric_foldl: "same_fabric t (foldl (\<lambda>t dp. upd_port dp (assign_cpu c) t) t ps)"
  by (simp add: same_fabric_def foldl_assign_sel)

lemma same_fabric_trans: "same_fabric a b \<Longrightarrow> same_fabric b c \<Longrightarrow> same_fabric a c"
  by (simp add: same_fabric_def)

lemma same_fabric_local: "same_fabric t (setup_local_cpu preferred t c)"
  unfolding setup_local_cpu_def Let_def
  by (simp add: same_fabric_foldl) (simp add: same_fabric_def)

lemma same_fabric_simps:
  assumes "same_fabric t t'"
  shows "dsa_port_is_cpu (t_dp t' p) = dsa_port_is_cpu (t_dp t p)"
    and "dsa_switch_ports t' ds = dsa_switch_ports t ds"
    and "port_ds (t_dp t' p) = port_ds (t_dp t p)"
    and "t_ports t' = t_ports t"
    and "dsa_tree_find_first_cpu t' = dsa_tree_find_first_cpu t"
    and "dsa_switch_preferred_default_local_cpu_port preferred t' ds =
         dsa_switch_preferred_default_local_cpu_port preferred t ds"
  using assms
  by (simp_all add: same_fabric_def dsa_port_is_cpu_def dsa_switch_ports_def
      dsa_tree_find_first_cpu_def dsa_switch_preferred_default_local_cpu_port_def
      split: option.split)

text \<open>A CPU port that serves the ports of its switch: the preferred one, or any if none is.\<close>

definition serves :: "(ds_ptr \<Rightarrow> dp_ptr option) \<Rightarrow> dsa_tree \<Rightarrow> dp_ptr \<Rightarrow> dp_ptr \<Rightarrow> bool" where
  "serves preferred t p c \<longleftrightarrow>
     dsa_port_is_cpu (t_dp t c) \<and> port_ds (t_dp t c) = port_ds (t_dp t p) \<and>
     dsa_switch_preferred_default_local_cpu_port preferred t (port_ds (t_dp t p)) \<in> {None, Some c}"

text \<open>The CPU port a port should have: its own, else a local one, else the first of the tree.\<close>

definition cpu_choice :: "(ds_ptr \<Rightarrow> dp_ptr option) \<Rightarrow> dsa_tree \<Rightarrow> dp_ptr \<Rightarrow> dp_ptr option" where
  "cpu_choice preferred t p =
     (let dp = t_dp t p in
      if port_cpu_dp dp \<noteq> None \<or> \<not> (dsa_port_is_user dp \<or> dsa_port_is_dsa dp) then port_cpu_dp dp
      else (case find (serves preferred t p) (t_ports t) of
              Some c \<Rightarrow> Some c
            | None \<Rightarrow> dsa_tree_find_first_cpu t))"

lemma setup_local_cpu_dp:
  assumes "p \<in> set (t_ports t)"
  shows "t_dp (setup_local_cpu preferred t c) p =
           (if serves preferred t p c then assign_cpu c (t_dp t p) else t_dp t p)"
  using assms unfolding setup_local_cpu_def Let_def serves_def
  by (auto simp: foldl_assign_sel dsa_switch_ports_def)

lemma serves_same_fabric: "same_fabric t t' \<Longrightarrow> serves preferred t' p c = serves preferred t p c"
  by (simp add: serves_def same_fabric_simps)

lemma foldl_local_cpu:
  assumes "p \<in> set (t_ports t)"
  shows "same_fabric t (foldl (setup_local_cpu preferred) t cs) \<and>
         t_dp (foldl (setup_local_cpu preferred) t cs) p =
           (case find (serves preferred t p) cs of
              Some c \<Rightarrow> assign_cpu c (t_dp t p) | None \<Rightarrow> t_dp t p)"
  using assms
proof (induction cs arbitrary: t)
  case Nil
  then show ?case by (simp add: same_fabric_def)
next
  case (Cons c cs)
  note fab = same_fabric_local [of t preferred c]
  have "p \<in> set (t_ports (setup_local_cpu preferred t c))"
    using Cons.prems fab by (simp add: same_fabric_simps)
  note IH = Cons.IH [OF this]
  have "serves preferred (setup_local_cpu preferred t c) p = serves preferred t p"
    by (rule ext) (rule serves_same_fabric [OF fab])
  then show ?case
    using IH same_fabric_trans [OF fab] Cons.prems
    by (auto simp: setup_local_cpu_dp split: option.splits)
qed

lemma setup_cpu_choice:
  assumes "p \<in> set (t_ports t)"
  shows "fst (dsa_tree_setup_cpu_ports preferred t) =
           (if \<exists>c\<in>set (t_ports t). dsa_port_is_cpu (t_dp t c) then 0 else EINVAL_NEG) \<and>
         (fst (dsa_tree_setup_cpu_ports preferred t) = 0 \<longrightarrow>
            t_dp (snd (dsa_tree_setup_cpu_ports preferred t)) p =
              (t_dp t p)\<lparr>port_cpu_dp := cpu_choice preferred t p\<rparr>)"
proof -
  define u where "u = foldl (setup_local_cpu preferred) t (t_ports t)"
  have fab: "same_fabric t u"
    and dp: "t_dp u p = (case find (serves preferred t p) (t_ports t) of
              Some c \<Rightarrow> assign_cpu c (t_dp t p) | None \<Rightarrow> t_dp t p)"
    using foldl_local_cpu [OF assms, of preferred "t_ports t"] by (simp_all add: u_def)
  have first: "dsa_tree_find_first_cpu t = None \<longleftrightarrow> \<not> (\<exists>c\<in>set (t_ports t). dsa_port_is_cpu (t_dp t c))"
    by (auto simp: dsa_tree_find_first_cpu_def find_None_iff)
  show ?thesis
  proof (cases "dsa_tree_find_first_cpu t")
    case None
    then show ?thesis
      using first fab
      by (simp add: dsa_tree_setup_cpu_ports_def u_def [symmetric] dsa_tree_setup_default_cpu_def
        same_fabric_simps)
  next
    case (Some c)
    then have "t_dp (snd (dsa_tree_setup_cpu_ports preferred t)) p = assign_cpu c (t_dp u p)"
      using fab assms
      by (simp add: dsa_tree_setup_cpu_ports_def u_def [symmetric] dsa_tree_setup_default_cpu_def
        same_fabric_simps foldl_assign_sel)
    moreover have "fst (dsa_tree_setup_cpu_ports preferred t) = 0"
      using Some fab
      by (simp add: dsa_tree_setup_cpu_ports_def u_def [symmetric] dsa_tree_setup_default_cpu_def
        same_fabric_simps)
    ultimately show ?thesis
      using Some first by (auto simp: dp cpu_choice_def assign_cpu_def Let_def split: option.splits)
  qed
qed

text \<open>
  A tree without a CPU port is refused with \<open>-EINVAL\<close>. In any other tree every port keeps
  everything but its CPU port, and gets the CPU port the comments of the code promise: the
  one it has, else the CPU port of its own switch that the driver prefers or, with no
  preference, the first one of its switch, else the first CPU port of the tree; ports that
  are neither user ports nor links are left alone.
\<close>

theorem setup_cpu_ports_choice:
  assumes "p \<in> set (t_ports t)"
  shows "fst (dsa_tree_setup_cpu_ports preferred t) =
           (if \<exists>c\<in>set (t_ports t). dsa_port_is_cpu (t_dp t c) then 0 else EINVAL_NEG) \<and>
         (fst (dsa_tree_setup_cpu_ports preferred t) = 0 \<longrightarrow>
            t_dp (snd (dsa_tree_setup_cpu_ports preferred t)) p =
              (t_dp t p)\<lparr>port_cpu_dp := cpu_choice preferred t p\<rparr>)"
  using assms by (rule setup_cpu_choice)

theorem setup_cpu_ports_choice_witness:
  "fst (dsa_tree_setup_cpu_ports (\<lambda>_. Some 4) board_tree) = 0 \<and>
   t_dp (snd (dsa_tree_setup_cpu_ports (\<lambda>_. Some 4) board_tree)) 2 =
     (board_port 2)\<lparr>port_cpu_dp := Some 4\<rparr>"
proof -
  have "cpu_choice (\<lambda>_. Some 4) board_tree 2 = Some 4"
    by (simp add: cpu_choice_def serves_def board_tree_def board_port_def board_switch_def
        dsa_port_is_user_def dsa_port_is_cpu_def dsa_switch_preferred_default_local_cpu_port_def)
  then show ?thesis
    using setup_cpu_ports_choice [of 2 board_tree "\<lambda>_. Some 4"]
    by (simp add: board_tree_def board_port_def dsa_port_is_cpu_def)
qed

end
