(* ===== verification/Dsa_Db.thy ===== *)
theory Dsa_Db
  imports Dsa_Tree
begin

section \<open>Reference-counted address and VLAN databases\<close>

text \<open>
  The lists of forwarding database (FDB), multicast database (MDB) and VLAN entries that the
  core keeps on CPU ports, DSA links and LAGs (\<open>switch.c\<close>). Several users may ask for the same
  entry: the hardware is asked to install it at the first request and to remove it when the
  last user is gone, and the entry counts its users in between.

  Each of the eight operations is translated on its own. What they have in common is stated
  once: the locale \<open>counted_entry\<close> is the contract of an entry (its key and its counter), and
  inside it the two list algorithms are shown correct; the locale \<open>refcounted_db\<close> is the contract
  of a database (every operation returns, keeps the invariant and moves the number of users
  by one when it succeeds), and inside it the statements on whole histories of operations are
  proved. It is interpreted on the FDB and the MDB of a port, the FDB of a LAG and the VLANs of
  a port.
\<close>

subsection \<open>Reference counters\<close>

text \<open>
  \<open>refcount_t\<close> of the kernel: a counter that leaves the range from 1 to \<open>INT_MAX\<close> is pinned at
  \<open>REFCOUNT_SATURATED\<close>, far away from both ends, and stays there.
\<close>

definition REFCOUNT_MAX :: nat where "REFCOUNT_MAX = 0x7fffffff"
definition REFCOUNT_SATURATED :: nat where "REFCOUNT_SATURATED = 0xc0000000"

definition refcount_inc :: "nat \<Rightarrow> nat" where
  "refcount_inc n = (if n = 0 \<or> n \<ge> REFCOUNT_MAX then REFCOUNT_SATURATED else n + 1)"

definition refcount_dec_and_test :: "nat \<Rightarrow> nat \<times> bool" where
  "refcount_dec_and_test n =
     (if n = 1 then (0, True)
      else if n = 0 \<or> n > REFCOUNT_MAX then (REFCOUNT_SATURATED, False)
      else (n - 1, False))"

subsection \<open>Lookup\<close>

fun first_pos :: "('e \<Rightarrow> bool) \<Rightarrow> 'e list \<Rightarrow> nat option" where
  "first_pos P [] = None"
| "first_pos P (e # es) = (if P e then Some 0 else map_option Suc (first_pos P es))"

fun dsa_db_equal :: "dsa_db \<Rightarrow> dsa_db \<Rightarrow> bool" where
  "dsa_db_equal (DSA_DB_PORT a) (DSA_DB_PORT b) = (a = b)"
| "dsa_db_equal (DSA_DB_LAG a _) (DSA_DB_LAG b _) = (a = b)"
| "dsa_db_equal (DSA_DB_BRIDGE _ a) (DSA_DB_BRIDGE _ b) = (a = b)"
| "dsa_db_equal _ _ = False"

fun dsa_db_type_eq :: "dsa_db \<Rightarrow> dsa_db \<Rightarrow> bool" where
  "dsa_db_type_eq (DSA_DB_PORT _) (DSA_DB_PORT _) = True"
| "dsa_db_type_eq (DSA_DB_LAG _ _) (DSA_DB_LAG _ _) = True"
| "dsa_db_type_eq (DSA_DB_BRIDGE _ _) (DSA_DB_BRIDGE _ _) = True"
| "dsa_db_type_eq _ _ = False"

definition dsa_mac_addr_find :: "dsa_mac_addr list \<Rightarrow> u8 list \<Rightarrow> u16 \<Rightarrow> dsa_db \<Rightarrow> nat option" where
  "dsa_mac_addr_find addr_list addr vid db =
     first_pos (\<lambda>a. a_addr a = addr \<and> a_vid a = vid \<and> dsa_db_equal (a_db a) db) addr_list"

definition dsa_vlan_find :: "dsa_vlan list \<Rightarrow> switchdev_obj_port_vlan \<Rightarrow> nat option" where
  "dsa_vlan_find vlan_list vlan = first_pos (\<lambda>v. v_vid v = obj_vid vlan) vlan_list"

definition dsa_fdb_present_in_other_db ::
  "dsa_tree \<Rightarrow> ds_ptr \<Rightarrow> nat \<Rightarrow> u8 list \<Rightarrow> u16 \<Rightarrow> dsa_db \<Rightarrow> bool option" where
  "dsa_fdb_present_in_other_db t ds port addr vid db = do {
     dp \<leftarrow> dsa_to_port t ds port;
     Some (\<exists>a\<in>set (port_fdbs (t_dp t dp)). a_addr a = addr \<and> a_vid a = vid \<and>
             dsa_db_type_eq (a_db a) db \<and> \<not> dsa_db_equal (a_db a) db)}"

definition dsa_mdb_present_in_other_db ::
  "dsa_tree \<Rightarrow> ds_ptr \<Rightarrow> nat \<Rightarrow> switchdev_obj_port_mdb \<Rightarrow> dsa_db \<Rightarrow> bool option" where
  "dsa_mdb_present_in_other_db t ds port mdb db = do {
     dp \<leftarrow> dsa_to_port t ds port;
     Some (\<exists>a\<in>set (port_mdbs (t_dp t dp)). a_addr a = mdb_addr mdb \<and> a_vid a = mdb_vid mdb \<and>
             dsa_db_type_eq (a_db a) db \<and> \<not> dsa_db_equal (a_db a) db)}"

subsection \<open>Operations\<close>

abbreviation (input) ENOENT_NEG :: int where "ENOENT_NEG \<equiv> -2"

definition list_del_at :: "nat \<Rightarrow> 'e list \<Rightarrow> 'e list" where
  "list_del_at i xs = take i xs @ drop (Suc i) xs"

text \<open>Ports that count their users: no need to bother on user ports.\<close>

definition shared_port :: "dsa_port_obj \<Rightarrow> bool" where
  "shared_port dp \<longleftrightarrow> dsa_port_is_cpu dp \<or> dsa_port_is_dsa dp"

definition dsa_port_do_mdb_add ::
  "driver \<Rightarrow> dsa_switch \<Rightarrow> dsa_port_obj \<Rightarrow> switchdev_obj_port_mdb \<Rightarrow> dsa_db \<Rightarrow> dsa_log \<Rightarrow>
   (int \<times> dsa_port_obj \<times> dsa_log) option" where
  "dsa_port_do_mdb_add drv ds dp mdb db l =
     (let port_mdb_add = call_op drv ds Op_port_mdb_add (Port_mdb_add (port_ds dp) (port_index dp) mdb db) in
      if \<not> shared_port dp then do {(err, l) \<leftarrow> port_mdb_add l; Some (err, dp, l)}
      else
        (case dsa_mac_addr_find (port_mdbs dp) (mdb_addr mdb) (mdb_vid mdb) db of
           Some i \<Rightarrow>
             (let a = port_mdbs dp ! i in
              Some (0, dp\<lparr>port_mdbs := (port_mdbs dp)[i := a\<lparr>a_refcount := refcount_inc (a_refcount a)\<rparr>]\<rparr>, l))
         | None \<Rightarrow>
             (let (got, l) = dsa_kzalloc drv l in
              if \<not> got then Some (ENOMEM_NEG, dp, l)
              else do {
                (err, l) \<leftarrow> port_mdb_add l;
                if err \<noteq> 0 then Some (err, dp, l)
                else Some (0, dp\<lparr>port_mdbs := port_mdbs dp @
                  [\<lparr>a_addr = mdb_addr mdb, a_vid = mdb_vid mdb, a_refcount = 1, a_db = db\<rparr>]\<rparr>, l)})))"

definition dsa_port_do_mdb_del ::
  "driver \<Rightarrow> dsa_switch \<Rightarrow> dsa_port_obj \<Rightarrow> switchdev_obj_port_mdb \<Rightarrow> dsa_db \<Rightarrow> dsa_log \<Rightarrow>
   (int \<times> dsa_port_obj \<times> dsa_log) option" where
  "dsa_port_do_mdb_del drv ds dp mdb db l =
     (let port_mdb_del = call_op drv ds Op_port_mdb_del (Port_mdb_del (port_ds dp) (port_index dp) mdb db) in
      if \<not> shared_port dp then do {(err, l) \<leftarrow> port_mdb_del l; Some (err, dp, l)}
      else
        (case dsa_mac_addr_find (port_mdbs dp) (mdb_addr mdb) (mdb_vid mdb) db of
           None \<Rightarrow> Some (ENOENT_NEG, dp, l)
         | Some i \<Rightarrow>
             (let a = port_mdbs dp ! i; (n, zero) = refcount_dec_and_test (a_refcount a) in
              if \<not> zero then Some (0, dp\<lparr>port_mdbs := (port_mdbs dp)[i := a\<lparr>a_refcount := n\<rparr>]\<rparr>, l)
              else do {
                (err, l) \<leftarrow> port_mdb_del l;
                if err \<noteq> 0 then Some (err, dp\<lparr>port_mdbs := (port_mdbs dp)[i := a\<lparr>a_refcount := 1\<rparr>]\<rparr>, l)
                else Some (0, dp\<lparr>port_mdbs := list_del_at i (port_mdbs dp)\<rparr>, l)})))"

definition dsa_port_do_fdb_add ::
  "driver \<Rightarrow> dsa_switch \<Rightarrow> dsa_port_obj \<Rightarrow> u8 list \<Rightarrow> u16 \<Rightarrow> dsa_db \<Rightarrow> dsa_log \<Rightarrow>
   (int \<times> dsa_port_obj \<times> dsa_log) option" where
  "dsa_port_do_fdb_add drv ds dp addr vid db l =
     (let port_fdb_add = call_op drv ds Op_port_fdb_add (Port_fdb_add (port_ds dp) (port_index dp) addr vid db) in
      if \<not> shared_port dp then do {(err, l) \<leftarrow> port_fdb_add l; Some (err, dp, l)}
      else
        (case dsa_mac_addr_find (port_fdbs dp) addr vid db of
           Some i \<Rightarrow>
             (let a = port_fdbs dp ! i in
              Some (0, dp\<lparr>port_fdbs := (port_fdbs dp)[i := a\<lparr>a_refcount := refcount_inc (a_refcount a)\<rparr>]\<rparr>, l))
         | None \<Rightarrow>
             (let (got, l) = dsa_kzalloc drv l in
              if \<not> got then Some (ENOMEM_NEG, dp, l)
              else do {
                (err, l) \<leftarrow> port_fdb_add l;
                if err \<noteq> 0 then Some (err, dp, l)
                else Some (0, dp\<lparr>port_fdbs := port_fdbs dp @
                  [\<lparr>a_addr = addr, a_vid = vid, a_refcount = 1, a_db = db\<rparr>]\<rparr>, l)})))"

definition dsa_port_do_fdb_del ::
  "driver \<Rightarrow> dsa_switch \<Rightarrow> dsa_port_obj \<Rightarrow> u8 list \<Rightarrow> u16 \<Rightarrow> dsa_db \<Rightarrow> dsa_log \<Rightarrow>
   (int \<times> dsa_port_obj \<times> dsa_log) option" where
  "dsa_port_do_fdb_del drv ds dp addr vid db l =
     (let port_fdb_del = call_op drv ds Op_port_fdb_del (Port_fdb_del (port_ds dp) (port_index dp) addr vid db) in
      if \<not> shared_port dp then do {(err, l) \<leftarrow> port_fdb_del l; Some (err, dp, l)}
      else
        (case dsa_mac_addr_find (port_fdbs dp) addr vid db of
           None \<Rightarrow> Some (ENOENT_NEG, dp, l)
         | Some i \<Rightarrow>
             (let a = port_fdbs dp ! i; (n, zero) = refcount_dec_and_test (a_refcount a) in
              if \<not> zero then Some (0, dp\<lparr>port_fdbs := (port_fdbs dp)[i := a\<lparr>a_refcount := n\<rparr>]\<rparr>, l)
              else do {
                (err, l) \<leftarrow> port_fdb_del l;
                if err \<noteq> 0 then Some (err, dp\<lparr>port_fdbs := (port_fdbs dp)[i := a\<lparr>a_refcount := 1\<rparr>]\<rparr>, l)
                else Some (0, dp\<lparr>port_fdbs := list_del_at i (port_fdbs dp)\<rparr>, l)})))"

definition dsa_switch_do_lag_fdb_add ::
  "driver \<Rightarrow> dsa_switch \<Rightarrow> ds_ptr \<Rightarrow> dsa_lag \<Rightarrow> u8 list \<Rightarrow> u16 \<Rightarrow> dsa_db \<Rightarrow> dsa_log \<Rightarrow>
   (int \<times> dsa_lag \<times> dsa_log) option" where
  "dsa_switch_do_lag_fdb_add drv ds dsp lag addr vid db l =
     (case dsa_mac_addr_find (lag_fdbs lag) addr vid db of
        Some i \<Rightarrow>
          (let a = lag_fdbs lag ! i in
           Some (0, lag\<lparr>lag_fdbs := (lag_fdbs lag)[i := a\<lparr>a_refcount := refcount_inc (a_refcount a)\<rparr>]\<rparr>, l))
      | None \<Rightarrow>
          (let (got, l) = dsa_kzalloc drv l in
           if \<not> got then Some (ENOMEM_NEG, lag, l)
           else do {
             (err, l) \<leftarrow> call_op drv ds Op_lag_fdb_add (Lag_fdb_add dsp (lag_dev lag) addr vid db) l;
             if err \<noteq> 0 then Some (err, lag, l)
             else Some (0, lag\<lparr>lag_fdbs := lag_fdbs lag @
               [\<lparr>a_addr = addr, a_vid = vid, a_refcount = 1, a_db = db\<rparr>]\<rparr>, l)}))"

definition dsa_switch_do_lag_fdb_del ::
  "driver \<Rightarrow> dsa_switch \<Rightarrow> ds_ptr \<Rightarrow> dsa_lag \<Rightarrow> u8 list \<Rightarrow> u16 \<Rightarrow> dsa_db \<Rightarrow> dsa_log \<Rightarrow>
   (int \<times> dsa_lag \<times> dsa_log) option" where
  "dsa_switch_do_lag_fdb_del drv ds dsp lag addr vid db l =
     (case dsa_mac_addr_find (lag_fdbs lag) addr vid db of
        None \<Rightarrow> Some (ENOENT_NEG, lag, l)
      | Some i \<Rightarrow>
          (let a = lag_fdbs lag ! i; (n, zero) = refcount_dec_and_test (a_refcount a) in
           if \<not> zero then Some (0, lag\<lparr>lag_fdbs := (lag_fdbs lag)[i := a\<lparr>a_refcount := n\<rparr>]\<rparr>, l)
           else do {
             (err, l) \<leftarrow> call_op drv ds Op_lag_fdb_del (Lag_fdb_del dsp (lag_dev lag) addr vid db) l;
             if err \<noteq> 0 then Some (err, lag\<lparr>lag_fdbs := (lag_fdbs lag)[i := a\<lparr>a_refcount := 1\<rparr>]\<rparr>, l)
             else Some (0, lag\<lparr>lag_fdbs := list_del_at i (lag_fdbs lag)\<rparr>, l)}))"

definition dsa_port_do_vlan_add ::
  "driver \<Rightarrow> dsa_switch \<Rightarrow> dsa_port_obj \<Rightarrow> switchdev_obj_port_vlan \<Rightarrow> dsa_log \<Rightarrow>
   (int \<times> dsa_port_obj \<times> dsa_log) option" where
  "dsa_port_do_vlan_add drv ds dp vlan l =
     (let port_vlan_add = call_op drv ds Op_port_vlan_add (Port_vlan_add (port_ds dp) (port_index dp) vlan) in
      if \<not> shared_port dp then do {(err, l) \<leftarrow> port_vlan_add l; Some (err, dp, l)}
      else if obj_changed vlan then Some (0, dp, l)
      else
        (case dsa_vlan_find (port_vlans dp) vlan of
           Some i \<Rightarrow>
             (let v = port_vlans dp ! i in
              Some (0, dp\<lparr>port_vlans := (port_vlans dp)[i := v\<lparr>v_refcount := refcount_inc (v_refcount v)\<rparr>]\<rparr>, l))
         | None \<Rightarrow>
             (let (got, l) = dsa_kzalloc drv l in
              if \<not> got then Some (ENOMEM_NEG, dp, l)
              else do {
                (err, l) \<leftarrow> port_vlan_add l;
                if err \<noteq> 0 then Some (err, dp, l)
                else Some (0, dp\<lparr>port_vlans := port_vlans dp @
                  [\<lparr>v_vid = obj_vid vlan, v_refcount = 1\<rparr>]\<rparr>, l)})))"

definition dsa_port_do_vlan_del ::
  "driver \<Rightarrow> dsa_switch \<Rightarrow> dsa_port_obj \<Rightarrow> switchdev_obj_port_vlan \<Rightarrow> dsa_log \<Rightarrow>
   (int \<times> dsa_port_obj \<times> dsa_log) option" where
  "dsa_port_do_vlan_del drv ds dp vlan l =
     (let port_vlan_del = call_op drv ds Op_port_vlan_del (Port_vlan_del (port_ds dp) (port_index dp) vlan) in
      if \<not> shared_port dp then do {(err, l) \<leftarrow> port_vlan_del l; Some (err, dp, l)}
      else
        (case dsa_vlan_find (port_vlans dp) vlan of
           None \<Rightarrow> Some (ENOENT_NEG, dp, l)
         | Some i \<Rightarrow>
             (let v = port_vlans dp ! i; (n, zero) = refcount_dec_and_test (v_refcount v) in
              if \<not> zero then Some (0, dp\<lparr>port_vlans := (port_vlans dp)[i := v\<lparr>v_refcount := n\<rparr>]\<rparr>, l)
              else do {
                (err, l) \<leftarrow> port_vlan_del l;
                if err \<noteq> 0 then Some (err, dp\<lparr>port_vlans := (port_vlans dp)[i := v\<lparr>v_refcount := 1\<rparr>]\<rparr>, l)
                else Some (0, dp\<lparr>port_vlans := list_del_at i (port_vlans dp)\<rparr>, l)})))"

subsection \<open>The two list algorithms\<close>

text \<open>
  What the operations on shared ports and LAGs have in common, with the entry, the way to
  recognise it and the call to the driver as parameters. The equations below show that each
  operation is an instance.
\<close>

definition ref_add ::
  "driver \<Rightarrow> ('e \<Rightarrow> bool) \<Rightarrow> ('e \<Rightarrow> nat) \<Rightarrow> (nat \<Rightarrow> 'e \<Rightarrow> 'e) \<Rightarrow> 'e \<Rightarrow>
   (dsa_log \<Rightarrow> (int \<times> dsa_log) option) \<Rightarrow> 'e list \<Rightarrow> dsa_log \<Rightarrow> (int \<times> 'e list \<times> dsa_log) option" where
  "ref_add drv P cnt setc new call es l =
     (case first_pos P es of
        Some i \<Rightarrow> Some (0, es[i := setc (refcount_inc (cnt (es ! i))) (es ! i)], l)
      | None \<Rightarrow>
          (let (got, l) = dsa_kzalloc drv l in
           if \<not> got then Some (ENOMEM_NEG, es, l)
           else do {(err, l) \<leftarrow> call l;
                    if err \<noteq> 0 then Some (err, es, l) else Some (0, es @ [new], l)}))"

definition ref_del ::
  "('e \<Rightarrow> bool) \<Rightarrow> ('e \<Rightarrow> nat) \<Rightarrow> (nat \<Rightarrow> 'e \<Rightarrow> 'e) \<Rightarrow>
   (dsa_log \<Rightarrow> (int \<times> dsa_log) option) \<Rightarrow> 'e list \<Rightarrow> dsa_log \<Rightarrow> (int \<times> 'e list \<times> dsa_log) option" where
  "ref_del P cnt setc call es l =
     (case first_pos P es of
        None \<Rightarrow> Some (ENOENT_NEG, es, l)
      | Some i \<Rightarrow>
          (let (n, zero) = refcount_dec_and_test (cnt (es ! i)) in
           if \<not> zero then Some (0, es[i := setc n (es ! i)], l)
           else do {(err, l) \<leftarrow> call l;
                    if err \<noteq> 0 then Some (err, es[i := setc 1 (es ! i)], l)
                    else Some (0, list_del_at i es, l)}))"

subsection \<open>What the hardware holds\<close>

text \<open>
  \<open>cl\<close> classifies the calls to the driver: which entry they install or remove. The history of
  an entry are the calls for it that succeeded, newest first; it is well paired when the
  driver was asked to install and to remove in turn, starting with an installation.
\<close>

fun hw_trace :: "(dsa_call \<Rightarrow> ('k \<times> bool) option) \<Rightarrow> 'k \<Rightarrow> dsa_log \<Rightarrow> bool list" where
  "hw_trace cl k [] = []"
| "hw_trace cl k ((c, r) # l) =
     (case cl c of
        Some (k', b) \<Rightarrow> if r = 0 \<and> k' = k then b # hw_trace cl k l else hw_trace cl k l
      | None \<Rightarrow> hw_trace cl k l)"

fun well_paired :: "bool list \<Rightarrow> bool" where
  "well_paired [] = True"
| "well_paired [b] = b"
| "well_paired (b # c # bs) = (b \<noteq> c \<and> well_paired (c # bs))"

definition installed :: "(dsa_call \<Rightarrow> ('k \<times> bool) option) \<Rightarrow> dsa_log \<Rightarrow> 'k \<Rightarrow> bool" where
  "installed cl l k = (case hw_trace cl k l of [] \<Rightarrow> False | b # _ \<Rightarrow> b)"

definition entry_refs :: "('e \<Rightarrow> 'k) \<Rightarrow> ('e \<Rightarrow> nat) \<Rightarrow> 'e list \<Rightarrow> 'k \<Rightarrow> nat" where
  "entry_refs key cnt es k =
     (case map_of (map (\<lambda>e. (key e, cnt e)) es) k of Some n \<Rightarrow> n | None \<Rightarrow> 0)"

text \<open>
  The invariant of a database: one entry per key, every entry has a user, and the hardware
  holds exactly the entries of the list.
\<close>

definition db_list_ok :: "('e \<Rightarrow> 'k) \<Rightarrow> ('e \<Rightarrow> nat) \<Rightarrow> 'e list \<Rightarrow> bool" where
  "db_list_ok key cnt es \<longleftrightarrow> distinct (map key es) \<and> (\<forall>e\<in>set es. 0 < cnt e)"

definition db_hw_ok ::
  "('e \<Rightarrow> 'k) \<Rightarrow> ('e \<Rightarrow> nat) \<Rightarrow> (dsa_call \<Rightarrow> ('k \<times> bool) option) \<Rightarrow> 'e list \<Rightarrow> dsa_log \<Rightarrow> bool" where
  "db_hw_ok key cnt cl es l \<longleftrightarrow>
     (\<forall>k. well_paired (hw_trace cl k l) \<and> installed cl l k = (0 < entry_refs key cnt es k))"

text \<open>How a successful request moves the number of users.\<close>

definition ref_up :: "nat \<Rightarrow> nat" where
  "ref_up n = (if n = 0 then 1 else refcount_inc n)"

definition ref_down :: "nat \<Rightarrow> nat" where
  "ref_down n = fst (refcount_dec_and_test n)"

lemma ref_up_pos [simp]: "0 < ref_up n"
  by (simp add: ref_up_def refcount_inc_def REFCOUNT_SATURATED_def)

lemma ref_down_one [simp]: "ref_down (Suc 0) = 0"
  by (simp add: ref_down_def refcount_dec_and_test_def)

lemma ref_up_down_exact:
  "n < REFCOUNT_MAX \<Longrightarrow> ref_up n = n + 1"
  "0 < n \<Longrightarrow> n \<le> REFCOUNT_MAX \<Longrightarrow> ref_down n = n - 1"
  by (auto simp: ref_up_def ref_down_def refcount_inc_def refcount_dec_and_test_def)

lemma refcount_dec_pos:
  "refcount_dec_and_test n = (m, z) \<Longrightarrow> m = ref_down n \<and> z = (n = 1) \<and> (0 < m \<longleftrightarrow> \<not> z)"
  by (auto simp: ref_down_def refcount_dec_and_test_def REFCOUNT_SATURATED_def split: if_splits)

subsection \<open>List lemmas\<close>

lemma first_pos_Some:
  "first_pos P es = Some i \<Longrightarrow> i < length es \<and> P (es ! i)"
  by (induction es arbitrary: i) (auto split: if_splits)

lemma first_pos_None: "first_pos P es = None \<longleftrightarrow> (\<forall>e\<in>set es. \<not> P e)"
  by (induction es) auto

lemma first_pos_cong: "(\<And>e. P e = Q e) \<Longrightarrow> first_pos P es = first_pos Q es"
  by (induction es) auto

lemma key_nth_neq: "a \<notin> fst ` set al \<Longrightarrow> i < length al \<Longrightarrow> a \<noteq> fst (al ! i)"
  using nth_mem by blast

lemma map_of_update_nth:
  "distinct (map fst al) \<Longrightarrow> i < length al \<Longrightarrow> fst (al ! i) = k \<Longrightarrow>
   map_of (al[i := (k, v)]) = (map_of al)(k \<mapsto> v)"
  by (induction al arbitrary: i) (auto split: nat.splits simp: nth_Cons fun_eq_iff key_nth_neq)

lemma map_of_delete_nth:
  "distinct (map fst al) \<Longrightarrow> i < length al \<Longrightarrow> fst (al ! i) = k \<Longrightarrow>
   map_of (take i al @ drop (Suc i) al) = (map_of al)(k := None)"
proof (induction al arbitrary: i)
  case (Cons a al)
  show ?case
  proof (cases i)
    case 0
    with Cons.prems have "map_of al k = None" by (auto simp: map_of_eq_None_iff)
    with 0 Cons.prems show ?thesis by (cases a) (auto simp: fun_eq_iff)
  next
    case (Suc j)
    with Cons show ?thesis by (cases a) (auto simp: fun_eq_iff key_nth_neq)
  qed
qed simp

lemma list_del_at_set: "e \<in> set (list_del_at i es) \<Longrightarrow> e \<in> set es"
  by (auto simp: list_del_at_def dest: in_set_takeD in_set_dropD)

lemma distinct_list_del_at: "distinct (map f es) \<Longrightarrow> distinct (map f (list_del_at i es))"
proof -
  assume d: "distinct (map f es)"
  have "set (take i (map f es)) \<inter> set (drop (Suc i) (map f es)) = {}"
    using d by (intro set_take_disj_set_drop_if_distinct) auto
  moreover have "distinct (take i (map f es))" "distinct (drop (Suc i) (map f es))"
    using d by (rule distinct_take, rule distinct_drop)
  ultimately show ?thesis by (simp add: list_del_at_def take_map drop_map)
qed

subsection \<open>Entries with a key and a counter\<close>

locale counted_entry =
  fixes key :: "'e \<Rightarrow> 'k"
    and cnt :: "'e \<Rightarrow> nat"
    and setc :: "nat \<Rightarrow> 'e \<Rightarrow> 'e"
  assumes cnt_setc [simp]: "cnt (setc n e) = n"
    and key_setc [simp]: "key (setc n e) = key e"
begin

lemma refs_pos_iff: "db_list_ok key cnt es \<Longrightarrow> 0 < entry_refs key cnt es k \<longleftrightarrow> (\<exists>e\<in>set es. key e = k)"
  by (force simp: entry_refs_def db_list_ok_def split: option.splits
      dest: map_of_SomeD simp: map_of_eq_None_iff)

lemma refs_nth:
  "db_list_ok key cnt es \<Longrightarrow> i < length es \<Longrightarrow> entry_refs key cnt es (key (es ! i)) = cnt (es ! i)"
proof -
  assume ok: "db_list_ok key cnt es" and i: "i < length es"
  then have "(key (es ! i), cnt (es ! i)) \<in> set (map (\<lambda>e. (key e, cnt e)) es)" by auto
  moreover have "distinct (map fst (map (\<lambda>e. (key e, cnt e)) es))"
    using ok by (simp add: db_list_ok_def o_def)
  ultimately show ?thesis by (simp add: entry_refs_def map_of_is_SomeI)
qed

lemma refs_update:
  assumes "db_list_ok key cnt es" "i < length es"
  shows "entry_refs key cnt (es[i := setc n (es ! i)]) = (entry_refs key cnt es)(key (es ! i) := n)"
  using assms map_of_update_nth [of "map (\<lambda>e. (key e, cnt e)) es" i "key (es ! i)" n]
  by (auto simp: entry_refs_def fun_eq_iff map_update db_list_ok_def o_def)

lemma refs_delete:
  assumes "db_list_ok key cnt es" "i < length es"
  shows "entry_refs key cnt (list_del_at i es) = (entry_refs key cnt es)(key (es ! i) := 0)"
  using assms map_of_delete_nth [of "map (\<lambda>e. (key e, cnt e)) es" i "key (es ! i)"]
  by (auto simp: entry_refs_def fun_eq_iff db_list_ok_def o_def list_del_at_def take_map drop_map)

lemma refs_append:
  "(\<forall>e\<in>set es. key e \<noteq> key new) \<Longrightarrow>
   entry_refs key cnt (es @ [new]) = (entry_refs key cnt es)(key new := cnt new)"
  by (force simp: entry_refs_def fun_eq_iff map_add_def map_of_eq_None_iff
      split: option.splits dest: map_of_SomeD)

lemma list_ok_update:
  assumes "db_list_ok key cnt es" "0 < n"
  shows "db_list_ok key cnt (es[i := setc n (es ! i)])"
proof -
  have "map key (es[i := setc n (es ! i)]) = map key es"
    by (cases "i < length es") (auto intro!: nth_equalityI simp: nth_list_update list_update_beyond not_less)
  moreover have "0 < cnt e" if "e \<in> set (es[i := setc n (es ! i)])" for e
    using that assms set_update_subset_insert [of es i "setc n (es ! i)"]
    by (auto simp: db_list_ok_def)
  ultimately show ?thesis using assms by (simp add: db_list_ok_def)
qed

lemma list_ok_append:
  "db_list_ok key cnt es \<Longrightarrow> (\<forall>e\<in>set es. key e \<noteq> key new) \<Longrightarrow> 0 < cnt new \<Longrightarrow>
   db_list_ok key cnt (es @ [new])"
  by (auto simp: db_list_ok_def)

lemma list_ok_delete: "db_list_ok key cnt es \<Longrightarrow> db_list_ok key cnt (list_del_at i es)"
  by (auto simp: db_list_ok_def dest: list_del_at_set intro: distinct_list_del_at)

lemma ref_add_ok:
  assumes ok: "db_list_ok key cnt es" "db_hw_ok key cnt cl es l"
    and match: "\<And>e. P e = (key e = k)" and new: "key new = k" "cnt new = 1"
    and call: "\<And>l. call l = Some (dsa_event drv c l)" and cl: "cl c = Some (k, True)" "cl Kzalloc = None"
  shows "\<exists>r es' l'. ref_add drv P cnt setc new call es l = Some (r, es', l') \<and>
           db_list_ok key cnt es' \<and> db_hw_ok key cnt cl es' l' \<and>
           entry_refs key cnt es' = (if r = 0 then (entry_refs key cnt es)(k := ref_up (entry_refs key cnt es k))
                                     else entry_refs key cnt es)"
proof (cases "first_pos P es")
  case (Some i)
  then have i: "i < length es" "key (es ! i) = k" using first_pos_Some [of P es i] match by auto
  then have refs: "entry_refs key cnt es k = cnt (es ! i)" using refs_nth [OF ok(1)] by auto
  moreover have "0 < cnt (es ! i)" using ok(1) i by (auto simp: db_list_ok_def)
  ultimately have up: "refcount_inc (cnt (es ! i)) = ref_up (entry_refs key cnt es k)"
    by (simp add: ref_up_def)
  show ?thesis
    using Some i ok refs \<open>0 < cnt (es ! i)\<close>
    by (simp add: ref_add_def up list_ok_update refs_update db_hw_ok_def)
next
  case None
  then have fresh: "\<forall>e\<in>set es. key e \<noteq> key new" using match new by (simp add: first_pos_None)
  then have zero: "entry_refs key cnt es k = 0" using refs_pos_iff [OF ok(1), of k] new by auto
  then have "well_paired (hw_trace cl k l)" "\<not> installed cl l k"
    using ok(2) by (auto simp: db_hw_ok_def)
  then have pair: "well_paired (True # hw_trace cl k l)"
    by (cases "hw_trace cl k l") (auto simp: installed_def)
  show ?thesis
    using None ok fresh zero new cl pair
    by (simp add: ref_add_def dsa_kzalloc_def dsa_event_def call list_ok_append refs_append
        db_hw_ok_def installed_def ref_up_def)
qed

lemma ref_del_ok:
  assumes ok: "db_list_ok key cnt es" "db_hw_ok key cnt cl es l"
    and match: "\<And>e. P e = (key e = k)"
    and call: "\<And>l. call l = Some (dsa_event drv c l)" and cl: "cl c = Some (k, False)"
  shows "\<exists>r es' l'. ref_del P cnt setc call es l = Some (r, es', l') \<and>
           db_list_ok key cnt es' \<and> db_hw_ok key cnt cl es' l' \<and>
           entry_refs key cnt es' = (if r = 0 then (entry_refs key cnt es)(k := ref_down (entry_refs key cnt es k))
                                     else entry_refs key cnt es) \<and>
           (entry_refs key cnt es k = 0 \<longrightarrow> r = ENOENT_NEG)"
proof (cases "first_pos P es")
  case None
  then have "entry_refs key cnt es k = 0"
    using refs_pos_iff [OF ok(1), of k] match by (auto simp: first_pos_None)
  then show ?thesis using None ok by (simp add: ref_del_def)
next
  case (Some i)
  then have i: "i < length es" "key (es ! i) = k" using first_pos_Some [of P es i] match by auto
  then have refs: "entry_refs key cnt es k = cnt (es ! i)" using refs_nth [OF ok(1)] by auto
  have pos: "0 < cnt (es ! i)" using ok(1) i by (auto simp: db_list_ok_def)
  obtain n z where dec: "refcount_dec_and_test (cnt (es ! i)) = (n, z)" by fastforce
  note n = refcount_dec_pos [OF dec]
  have "well_paired (hw_trace cl k l)" "installed cl l k"
    using ok(2) refs pos by (auto simp: db_hw_ok_def)
  then have pair: "well_paired (False # hw_trace cl k l)"
    by (cases "hw_trace cl k l") (auto simp: installed_def)
  have eq: "ref_del P cnt setc call es l =
      (if \<not> z then Some (0, es[i := setc n (es ! i)], l)
       else if drv c l \<noteq> 0 then Some (drv c l, es[i := setc 1 (es ! i)], (c, drv c l) # l)
       else Some (0, list_del_at i es, (c, 0) # l))"
    by (simp add: ref_del_def Some dec call dsa_event_def)
  note step = eq list_ok_update list_ok_delete refs_update refs_delete db_hw_ok_def installed_def
  consider "\<not> z" | "z" "drv c l \<noteq> 0" | "z" "drv c l = 0" by blast
  then show ?thesis
  proof cases
    case 1
    moreover from this have "0 < ref_down (cnt (es ! i))" using n by auto
    ultimately show ?thesis using i ok refs pos n by (simp add: step)
  next
    case 2
    then show ?thesis using i ok refs pos n cl by (simp add: step fun_upd_idem)
  next
    case 3
    then show ?thesis using i ok refs pos n cl pair by (simp add: step)
  qed
qed

end

subsection \<open>The contract of a reference-counted database\<close>

datatype 'a db_op = Db_add 'a | Db_del 'a

text \<open>A history of requests and the results it produces.\<close>

fun db_run ::
  "('a \<Rightarrow> 's \<Rightarrow> (int \<times> 's) option) \<Rightarrow> ('a \<Rightarrow> 's \<Rightarrow> (int \<times> 's) option) \<Rightarrow> 'a db_op list \<Rightarrow> 's \<Rightarrow>
   (int list \<times> 's) option" where
  "db_run add del [] s = Some ([], s)"
| "db_run add del (Db_add a # ops) s =
     do {(r, s) \<leftarrow> add a s; (rs, s) \<leftarrow> db_run add del ops s; Some (r # rs, s)}"
| "db_run add del (Db_del a # ops) s =
     do {(r, s) \<leftarrow> del a s; (rs, s) \<leftarrow> db_run add del ops s; Some (r # rs, s)}"

text \<open>The requests for an entry that were granted, and those for its removal.\<close>

fun db_granted :: "('a \<Rightarrow> bool) \<Rightarrow> 'a db_op list \<Rightarrow> int list \<Rightarrow> nat" where
  "db_granted Q (Db_add a # ops) (r # rs) = (if Q a \<and> r = 0 then 1 else 0) + db_granted Q ops rs"
| "db_granted Q (Db_del a # ops) (r # rs) = db_granted Q ops rs"
| "db_granted Q _ _ = 0"

fun db_dropped :: "('a \<Rightarrow> bool) \<Rightarrow> 'a db_op list \<Rightarrow> int list \<Rightarrow> nat" where
  "db_dropped Q (Db_add a # ops) (r # rs) = db_dropped Q ops rs"
| "db_dropped Q (Db_del a # ops) (r # rs) = (if Q a \<and> r = 0 then 1 else 0) + db_dropped Q ops rs"
| "db_dropped Q _ _ = 0"

locale refcounted_db =
  fixes add del :: "'a \<Rightarrow> 's \<Rightarrow> (int \<times> 's) option"
    and key :: "'a \<Rightarrow> 'k"
    and ignored :: "'a \<Rightarrow> bool"
    and refs :: "'s \<Rightarrow> 'k \<Rightarrow> nat"
    and held :: "'s \<Rightarrow> 'k \<Rightarrow> bool"
    and inv :: "'s \<Rightarrow> bool"
  assumes add_step: "inv s \<Longrightarrow> \<exists>r s'. add a s = Some (r, s') \<and> inv s' \<and>
      refs s' = (if r = 0 \<and> \<not> ignored a then (refs s)(key a := ref_up (refs s (key a))) else refs s)"
    and del_step: "inv s \<Longrightarrow> \<exists>r s'. del a s = Some (r, s') \<and> inv s' \<and>
      refs s' = (if r = 0 then (refs s)(key a := ref_down (refs s (key a))) else refs s) \<and>
      (refs s (key a) = 0 \<longrightarrow> r = ENOENT_NEG)"
    and held_iff: "inv s \<Longrightarrow> held s k \<longleftrightarrow> 0 < refs s k"
begin

lemma run_total: "inv s \<Longrightarrow> \<exists>rs s'. db_run add del ops s = Some (rs, s') \<and> inv s'"
proof (induction ops arbitrary: s)
  case (Cons x ops)
  show ?case
  proof (cases x)
    case (Db_add a)
    obtain r u where u: "add a s = Some (r, u)" "inv u" using add_step [OF Cons.prems] by blast
    obtain rs v where "db_run add del ops u = Some (rs, v)" "inv v" using Cons.IH [OF u(2)] by blast
    then show ?thesis using Db_add u by simp
  next
    case (Db_del a)
    obtain r u where u: "del a s = Some (r, u)" "inv u" using del_step [OF Cons.prems] by blast
    obtain rs v where "db_run add del ops u = Some (rs, v)" "inv v" using Cons.IH [OF u(2)] by blast
    then show ?thesis using Db_del u by simp
  qed
qed simp

lemma run_balance:
  assumes "inv s" "refs s k + length ops \<le> REFCOUNT_MAX" "db_run add del ops s = Some (rs, s')"
  shows "refs s' k + db_dropped (\<lambda>a. key a = k) ops rs =
         refs s k + db_granted (\<lambda>a. key a = k \<and> \<not> ignored a) ops rs"
  using assms
proof (induction ops arbitrary: s rs)
  case (Cons x ops)
  show ?case
  proof (cases x)
    case (Db_add a)
    obtain r u where u: "add a s = Some (r, u)" "inv u"
      and refs: "refs u = (if r = 0 \<and> \<not> ignored a then (refs s)(key a := ref_up (refs s (key a))) else refs s)"
      using add_step [OF Cons.prems(1)] by blast
    from Cons.prems(3) Db_add u obtain rs' where
      run: "db_run add del ops u = Some (rs', s')" and rs: "rs = r # rs'"
      by (auto simp: bind_eq_Some_conv)
    have "ref_up (refs s k) = refs s k + 1" using Cons.prems(2) by (intro ref_up_down_exact) simp
    then have step: "refs u k = refs s k + (if key a = k \<and> r = 0 \<and> \<not> ignored a then 1 else 0)"
      using refs by auto
    then have "refs u k + length ops \<le> REFCOUNT_MAX" using Cons.prems(2) by simp
    from Cons.IH [OF u(2) this run] step show ?thesis by (simp add: Db_add rs)
  next
    case (Db_del a)
    obtain r u where u: "del a s = Some (r, u)" "inv u"
      and refs: "refs u = (if r = 0 then (refs s)(key a := ref_down (refs s (key a))) else refs s)"
      and absent: "refs s (key a) = 0 \<longrightarrow> r = ENOENT_NEG"
      using del_step [OF Cons.prems(1)] by blast
    from Cons.prems(3) Db_del u obtain rs' where
      run: "db_run add del ops u = Some (rs', s')" and rs: "rs = r # rs'"
      by (auto simp: bind_eq_Some_conv)
    have "ref_down (refs s k) = refs s k - 1" if "0 < refs s k"
      using Cons.prems(2) that by (intro ref_up_down_exact) simp_all
    then have step: "refs u k + (if key a = k \<and> r = 0 then 1 else 0) = refs s k"
      using refs absent by (cases "key a = k") auto
    then have "refs u k + length ops \<le> REFCOUNT_MAX" using Cons.prems(2) by simp
    from Cons.IH [OF u(2) this run] step show ?thesis by (simp add: Db_del rs)
  qed
qed simp

text \<open>The hardware holds an entry exactly while more requests for it were granted than dropped.\<close>

lemma run_held:
  assumes "inv s" "refs s k = 0" "length ops \<le> REFCOUNT_MAX" "db_run add del ops s = Some (rs, s')"
  shows "held s' k \<longleftrightarrow> db_dropped (\<lambda>a. key a = k) ops rs < db_granted (\<lambda>a. key a = k \<and> \<not> ignored a) ops rs"
proof -
  have "inv s'" using run_total [OF assms(1), of ops] assms(4) by simp
  moreover have "refs s' k + db_dropped (\<lambda>a. key a = k) ops rs =
      db_granted (\<lambda>a. key a = k \<and> \<not> ignored a) ops rs"
    using run_balance [OF assms(1) _ assms(4), of k] assms(2,3) by simp
  ultimately show ?thesis using held_iff by fastforce
qed

end

subsection \<open>Keys of the entries\<close>

datatype db_id = Id_port dp_ptr | Id_lag netdev | Id_bridge nat

fun db_key :: "dsa_db \<Rightarrow> db_id" where
  "db_key (DSA_DB_PORT p) = Id_port p"
| "db_key (DSA_DB_LAG dev _) = Id_lag dev"
| "db_key (DSA_DB_BRIDGE _ num) = Id_bridge num"

type_synonym mac_key = "u8 list \<times> u16 \<times> db_id"

definition addr_key :: "u8 list \<times> u16 \<times> dsa_db \<Rightarrow> mac_key" where
  "addr_key x = (case x of (addr, vid, db) \<Rightarrow> (addr, vid, db_key db))"

definition mdb_key :: "switchdev_obj_port_mdb \<times> dsa_db \<Rightarrow> mac_key" where
  "mdb_key x = (case x of (mdb, db) \<Rightarrow> (mdb_addr mdb, mdb_vid mdb, db_key db))"

definition mac_key :: "dsa_mac_addr \<Rightarrow> mac_key" where
  "mac_key a = (a_addr a, a_vid a, db_key (a_db a))"

lemma dsa_db_equal_key: "dsa_db_equal a b \<longleftrightarrow> db_key a = db_key b"
  by (cases a; cases b) auto

interpretation mac: counted_entry mac_key a_refcount "\<lambda>n. a_refcount_update (\<lambda>_. n)"
  by unfold_locales (simp_all add: mac_key_def)

interpretation vlan: counted_entry v_vid v_refcount "\<lambda>n. v_refcount_update (\<lambda>_. n)"
  by unfold_locales simp_all

text \<open>The calls that install and remove the entries of a port or of a LAG.\<close>

definition fdb_calls :: "ds_ptr \<Rightarrow> nat \<Rightarrow> dsa_call \<Rightarrow> (mac_key \<times> bool) option" where
  "fdb_calls ds port c =
     (case c of
        Port_fdb_add d p addr vid db \<Rightarrow> if d = ds \<and> p = port then Some (addr_key (addr, vid, db), True) else None
      | Port_fdb_del d p addr vid db \<Rightarrow> if d = ds \<and> p = port then Some (addr_key (addr, vid, db), False) else None
      | _ \<Rightarrow> None)"

definition mdb_calls :: "ds_ptr \<Rightarrow> nat \<Rightarrow> dsa_call \<Rightarrow> (mac_key \<times> bool) option" where
  "mdb_calls ds port c =
     (case c of
        Port_mdb_add d p mdb db \<Rightarrow> if d = ds \<and> p = port then Some (mdb_key (mdb, db), True) else None
      | Port_mdb_del d p mdb db \<Rightarrow> if d = ds \<and> p = port then Some (mdb_key (mdb, db), False) else None
      | _ \<Rightarrow> None)"

definition lag_fdb_calls :: "ds_ptr \<Rightarrow> netdev \<Rightarrow> dsa_call \<Rightarrow> (mac_key \<times> bool) option" where
  "lag_fdb_calls ds dev c =
     (case c of
        Lag_fdb_add d n addr vid db \<Rightarrow> if d = ds \<and> n = dev then Some (addr_key (addr, vid, db), True) else None
      | Lag_fdb_del d n addr vid db \<Rightarrow> if d = ds \<and> n = dev then Some (addr_key (addr, vid, db), False) else None
      | _ \<Rightarrow> None)"

definition vlan_calls :: "ds_ptr \<Rightarrow> nat \<Rightarrow> dsa_call \<Rightarrow> (u16 \<times> bool) option" where
  "vlan_calls ds port c =
     (case c of
        Port_vlan_add d p vlan \<Rightarrow> if d = ds \<and> p = port then Some (obj_vid vlan, True) else None
      | Port_vlan_del d p vlan \<Rightarrow> if d = ds \<and> p = port then Some (obj_vid vlan, False) else None
      | _ \<Rightarrow> None)"

subsection \<open>The operations are instances of the list algorithms\<close>

named_theorems db_instances \<open>the operations of the databases as the generic list algorithms\<close>

lemmas db_unfold = ref_add_def ref_del_def call_op_def dsa_event_def dsa_kzalloc_def Let_def

lemma mac_find_key:
  "dsa_mac_addr_find es addr vid db = first_pos (\<lambda>a. mac_key a = addr_key (addr, vid, db)) es"
  unfolding dsa_mac_addr_find_def
  by (rule first_pos_cong) (auto simp: mac_key_def addr_key_def dsa_db_equal_key)

lemma addr_key_mdb: "addr_key (mdb_addr mdb, mdb_vid mdb, db) = mdb_key (mdb, db)"
  by (simp add: addr_key_def mdb_key_def)

lemma fdb_add_ref [db_instances]:
  assumes "shared_port dp"
  shows "dsa_port_do_fdb_add drv ds dp addr vid db l =
    map_option (\<lambda>(r, es, l). (r, dp\<lparr>port_fdbs := es\<rparr>, l))
      (ref_add drv (\<lambda>a. mac_key a = addr_key (addr, vid, db)) a_refcount (\<lambda>n. a_refcount_update (\<lambda>_. n))
        \<lparr>a_addr = addr, a_vid = vid, a_refcount = 1, a_db = db\<rparr>
        (call_op drv ds Op_port_fdb_add (Port_fdb_add (port_ds dp) (port_index dp) addr vid db)) (port_fdbs dp) l)"
  using assms
  by (simp add: dsa_port_do_fdb_add_def mac_find_key db_unfold split: option.split prod.split)

lemma fdb_del_ref [db_instances]:
  assumes "shared_port dp"
  shows "dsa_port_do_fdb_del drv ds dp addr vid db l =
    map_option (\<lambda>(r, es, l). (r, dp\<lparr>port_fdbs := es\<rparr>, l))
      (ref_del (\<lambda>a. mac_key a = addr_key (addr, vid, db)) a_refcount (\<lambda>n. a_refcount_update (\<lambda>_. n))
        (call_op drv ds Op_port_fdb_del (Port_fdb_del (port_ds dp) (port_index dp) addr vid db)) (port_fdbs dp) l)"
  using assms
  by (simp add: dsa_port_do_fdb_del_def mac_find_key db_unfold split: option.split prod.split)

lemma mdb_add_ref [db_instances]:
  assumes "shared_port dp"
  shows "dsa_port_do_mdb_add drv ds dp mdb db l =
    map_option (\<lambda>(r, es, l). (r, dp\<lparr>port_mdbs := es\<rparr>, l))
      (ref_add drv (\<lambda>a. mac_key a = mdb_key (mdb, db)) a_refcount (\<lambda>n. a_refcount_update (\<lambda>_. n))
        \<lparr>a_addr = mdb_addr mdb, a_vid = mdb_vid mdb, a_refcount = 1, a_db = db\<rparr>
        (call_op drv ds Op_port_mdb_add (Port_mdb_add (port_ds dp) (port_index dp) mdb db)) (port_mdbs dp) l)"
  using assms
  by (simp add: dsa_port_do_mdb_add_def mac_find_key addr_key_mdb db_unfold split: option.split prod.split)

lemma mdb_del_ref [db_instances]:
  assumes "shared_port dp"
  shows "dsa_port_do_mdb_del drv ds dp mdb db l =
    map_option (\<lambda>(r, es, l). (r, dp\<lparr>port_mdbs := es\<rparr>, l))
      (ref_del (\<lambda>a. mac_key a = mdb_key (mdb, db)) a_refcount (\<lambda>n. a_refcount_update (\<lambda>_. n))
        (call_op drv ds Op_port_mdb_del (Port_mdb_del (port_ds dp) (port_index dp) mdb db)) (port_mdbs dp) l)"
  using assms
  by (simp add: dsa_port_do_mdb_del_def mac_find_key addr_key_mdb db_unfold split: option.split prod.split)

lemma vlan_add_ref [db_instances]:
  assumes "shared_port dp" "\<not> obj_changed vlan"
  shows "dsa_port_do_vlan_add drv ds dp vlan l =
    map_option (\<lambda>(r, es, l). (r, dp\<lparr>port_vlans := es\<rparr>, l))
      (ref_add drv (\<lambda>v. v_vid v = obj_vid vlan) v_refcount (\<lambda>n. v_refcount_update (\<lambda>_. n))
        \<lparr>v_vid = obj_vid vlan, v_refcount = 1\<rparr>
        (call_op drv ds Op_port_vlan_add (Port_vlan_add (port_ds dp) (port_index dp) vlan)) (port_vlans dp) l)"
  using assms
  by (simp add: dsa_port_do_vlan_add_def dsa_vlan_find_def db_unfold split: option.split prod.split)

lemma vlan_del_ref [db_instances]:
  assumes "shared_port dp"
  shows "dsa_port_do_vlan_del drv ds dp vlan l =
    map_option (\<lambda>(r, es, l). (r, dp\<lparr>port_vlans := es\<rparr>, l))
      (ref_del (\<lambda>v. v_vid v = obj_vid vlan) v_refcount (\<lambda>n. v_refcount_update (\<lambda>_. n))
        (call_op drv ds Op_port_vlan_del (Port_vlan_del (port_ds dp) (port_index dp) vlan)) (port_vlans dp) l)"
  using assms
  by (simp add: dsa_port_do_vlan_del_def dsa_vlan_find_def db_unfold split: option.split prod.split)

lemma lag_fdb_add_ref [db_instances]:
  "dsa_switch_do_lag_fdb_add drv ds dsp lag addr vid db l =
    map_option (\<lambda>(r, es, l). (r, lag\<lparr>lag_fdbs := es\<rparr>, l))
      (ref_add drv (\<lambda>a. mac_key a = addr_key (addr, vid, db)) a_refcount (\<lambda>n. a_refcount_update (\<lambda>_. n))
        \<lparr>a_addr = addr, a_vid = vid, a_refcount = 1, a_db = db\<rparr>
        (call_op drv ds Op_lag_fdb_add (Lag_fdb_add dsp (lag_dev lag) addr vid db)) (lag_fdbs lag) l)"
  by (simp add: dsa_switch_do_lag_fdb_add_def mac_find_key db_unfold split: option.split prod.split)

lemma lag_fdb_del_ref [db_instances]:
  "dsa_switch_do_lag_fdb_del drv ds dsp lag addr vid db l =
    map_option (\<lambda>(r, es, l). (r, lag\<lparr>lag_fdbs := es\<rparr>, l))
      (ref_del (\<lambda>a. mac_key a = addr_key (addr, vid, db)) a_refcount (\<lambda>n. a_refcount_update (\<lambda>_. n))
        (call_op drv ds Op_lag_fdb_del (Lag_fdb_del dsp (lag_dev lag) addr vid db)) (lag_fdbs lag) l)"
  by (simp add: dsa_switch_do_lag_fdb_del_def mac_find_key db_unfold split: option.split prod.split)

subsection \<open>The databases meet the contract\<close>

lemma shared_port_upd [simp]:
  "shared_port (dp\<lparr>port_fdbs := x\<rparr>) = shared_port dp"
  "shared_port (dp\<lparr>port_mdbs := x\<rparr>) = shared_port dp"
  "shared_port (dp\<lparr>port_vlans := y\<rparr>) = shared_port dp"
  by (simp_all add: shared_port_def dsa_port_is_cpu_def dsa_port_is_dsa_def)

definition fdb_db_ok :: "dsa_switch \<Rightarrow> dsa_port_obj \<times> dsa_log \<Rightarrow> bool" where
  "fdb_db_ok ds s \<longleftrightarrow> (case s of (dp, l) \<Rightarrow>
     shared_port dp \<and> {Op_port_fdb_add, Op_port_fdb_del} \<subseteq> sw_ops ds \<and>
     db_list_ok mac_key a_refcount (port_fdbs dp) \<and>
     db_hw_ok mac_key a_refcount (fdb_calls (port_ds dp) (port_index dp)) (port_fdbs dp) l)"

definition fdb_refs :: "dsa_port_obj \<times> dsa_log \<Rightarrow> mac_key \<Rightarrow> nat" where
  "fdb_refs s = (case s of (dp, l) \<Rightarrow> entry_refs mac_key a_refcount (port_fdbs dp))"

definition fdb_held :: "dsa_port_obj \<times> dsa_log \<Rightarrow> mac_key \<Rightarrow> bool" where
  "fdb_held s = (case s of (dp, l) \<Rightarrow> installed (fdb_calls (port_ds dp) (port_index dp)) l)"

definition fdb_add_op ::
  "driver \<Rightarrow> dsa_switch \<Rightarrow> u8 list \<times> u16 \<times> dsa_db \<Rightarrow> dsa_port_obj \<times> dsa_log \<Rightarrow>
   (int \<times> dsa_port_obj \<times> dsa_log) option" where
  "fdb_add_op drv ds x s =
     (case (x, s) of ((addr, vid, db), dp, l) \<Rightarrow> dsa_port_do_fdb_add drv ds dp addr vid db l)"

definition fdb_del_op ::
  "driver \<Rightarrow> dsa_switch \<Rightarrow> u8 list \<times> u16 \<times> dsa_db \<Rightarrow> dsa_port_obj \<times> dsa_log \<Rightarrow>
   (int \<times> dsa_port_obj \<times> dsa_log) option" where
  "fdb_del_op drv ds x s =
     (case (x, s) of ((addr, vid, db), dp, l) \<Rightarrow> dsa_port_do_fdb_del drv ds dp addr vid db l)"

lemma fdb_add_step:
  assumes "fdb_db_ok ds s"
  shows "\<exists>r s'. fdb_add_op drv ds x s = Some (r, s') \<and> fdb_db_ok ds s' \<and>
      fdb_refs s' = (if r = 0 then (fdb_refs s)(addr_key x := ref_up (fdb_refs s (addr_key x))) else fdb_refs s)"
proof -
  obtain dp l where s: "s = (dp, l)" by (cases s)
  obtain addr vid db where x: "x = (addr, vid, db)" by (cases x)
  show ?thesis
    unfolding s x fdb_refs_def prod.case
    using assms mac.ref_add_ok [of "port_fdbs dp" "fdb_calls (port_ds dp) (port_index dp)" l
      "\<lambda>a. mac_key a = addr_key (addr, vid, db)" "addr_key (addr, vid, db)"
      "\<lparr>a_addr = addr, a_vid = vid, a_refcount = 1, a_db = db\<rparr>"
      "call_op drv ds Op_port_fdb_add (Port_fdb_add (port_ds dp) (port_index dp) addr vid db)" drv
      "Port_fdb_add (port_ds dp) (port_index dp) addr vid db"]
    by (auto simp: s x fdb_db_ok_def fdb_refs_def fdb_add_op_def fdb_add_ref fdb_calls_def call_op_def mac_key_def addr_key_def
        split del: if_split)
qed

lemma fdb_del_step:
  assumes "fdb_db_ok ds s"
  shows "\<exists>r s'. fdb_del_op drv ds x s = Some (r, s') \<and> fdb_db_ok ds s' \<and>
      fdb_refs s' = (if r = 0 then (fdb_refs s)(addr_key x := ref_down (fdb_refs s (addr_key x))) else fdb_refs s) \<and>
      (fdb_refs s (addr_key x) = 0 \<longrightarrow> r = ENOENT_NEG)"
proof -
  obtain dp l where s: "s = (dp, l)" by (cases s)
  obtain addr vid db where x: "x = (addr, vid, db)" by (cases x)
  show ?thesis
    unfolding s x fdb_refs_def prod.case
    using assms mac.ref_del_ok [of "port_fdbs dp" "fdb_calls (port_ds dp) (port_index dp)" l
      "\<lambda>a. mac_key a = addr_key (addr, vid, db)" "addr_key (addr, vid, db)"
      "call_op drv ds Op_port_fdb_del (Port_fdb_del (port_ds dp) (port_index dp) addr vid db)" drv
      "Port_fdb_del (port_ds dp) (port_index dp) addr vid db"]
    by (auto simp: s x fdb_db_ok_def fdb_refs_def fdb_del_op_def fdb_del_ref fdb_calls_def call_op_def mac_key_def addr_key_def
        split del: if_split)
qed

interpretation fdb_db: refcounted_db "fdb_add_op drv ds" "fdb_del_op drv ds" addr_key "(\<lambda>_. False)"
  fdb_refs fdb_held "fdb_db_ok ds" for drv ds
  using fdb_add_step [of ds] fdb_del_step [of ds]
  by unfold_locales (auto simp: fdb_db_ok_def fdb_refs_def fdb_held_def db_hw_ok_def)

definition mdb_db_ok :: "dsa_switch \<Rightarrow> dsa_port_obj \<times> dsa_log \<Rightarrow> bool" where
  "mdb_db_ok ds s \<longleftrightarrow> (case s of (dp, l) \<Rightarrow>
     shared_port dp \<and> {Op_port_mdb_add, Op_port_mdb_del} \<subseteq> sw_ops ds \<and>
     db_list_ok mac_key a_refcount (port_mdbs dp) \<and>
     db_hw_ok mac_key a_refcount (mdb_calls (port_ds dp) (port_index dp)) (port_mdbs dp) l)"

definition mdb_refs :: "dsa_port_obj \<times> dsa_log \<Rightarrow> mac_key \<Rightarrow> nat" where
  "mdb_refs s = (case s of (dp, l) \<Rightarrow> entry_refs mac_key a_refcount (port_mdbs dp))"

definition mdb_held :: "dsa_port_obj \<times> dsa_log \<Rightarrow> mac_key \<Rightarrow> bool" where
  "mdb_held s = (case s of (dp, l) \<Rightarrow> installed (mdb_calls (port_ds dp) (port_index dp)) l)"

definition mdb_add_op ::
  "driver \<Rightarrow> dsa_switch \<Rightarrow> switchdev_obj_port_mdb \<times> dsa_db \<Rightarrow> dsa_port_obj \<times> dsa_log \<Rightarrow>
   (int \<times> dsa_port_obj \<times> dsa_log) option" where
  "mdb_add_op drv ds x s =
     (case (x, s) of ((mdb, db), dp, l) \<Rightarrow> dsa_port_do_mdb_add drv ds dp mdb db l)"

definition mdb_del_op ::
  "driver \<Rightarrow> dsa_switch \<Rightarrow> switchdev_obj_port_mdb \<times> dsa_db \<Rightarrow> dsa_port_obj \<times> dsa_log \<Rightarrow>
   (int \<times> dsa_port_obj \<times> dsa_log) option" where
  "mdb_del_op drv ds x s =
     (case (x, s) of ((mdb, db), dp, l) \<Rightarrow> dsa_port_do_mdb_del drv ds dp mdb db l)"

lemma mdb_add_step:
  assumes "mdb_db_ok ds s"
  shows "\<exists>r s'. mdb_add_op drv ds x s = Some (r, s') \<and> mdb_db_ok ds s' \<and>
      mdb_refs s' = (if r = 0 then (mdb_refs s)(mdb_key x := ref_up (mdb_refs s (mdb_key x))) else mdb_refs s)"
proof -
  obtain dp l where s: "s = (dp, l)" by (cases s)
  obtain mdb db where x: "x = (mdb, db)" by (cases x)
  show ?thesis
    unfolding s x mdb_refs_def prod.case
    using assms mac.ref_add_ok [of "port_mdbs dp" "mdb_calls (port_ds dp) (port_index dp)" l
      "\<lambda>a. mac_key a = mdb_key (mdb, db)" "mdb_key (mdb, db)"
      "\<lparr>a_addr = mdb_addr mdb, a_vid = mdb_vid mdb, a_refcount = 1, a_db = db\<rparr>"
      "call_op drv ds Op_port_mdb_add (Port_mdb_add (port_ds dp) (port_index dp) mdb db)" drv
      "Port_mdb_add (port_ds dp) (port_index dp) mdb db"]
    by (auto simp: s x mdb_db_ok_def mdb_refs_def mdb_add_op_def mdb_add_ref mdb_calls_def call_op_def mac_key_def mdb_key_def
        split del: if_split)
qed

lemma mdb_del_step:
  assumes "mdb_db_ok ds s"
  shows "\<exists>r s'. mdb_del_op drv ds x s = Some (r, s') \<and> mdb_db_ok ds s' \<and>
      mdb_refs s' = (if r = 0 then (mdb_refs s)(mdb_key x := ref_down (mdb_refs s (mdb_key x))) else mdb_refs s) \<and>
      (mdb_refs s (mdb_key x) = 0 \<longrightarrow> r = ENOENT_NEG)"
proof -
  obtain dp l where s: "s = (dp, l)" by (cases s)
  obtain mdb db where x: "x = (mdb, db)" by (cases x)
  show ?thesis
    unfolding s x mdb_refs_def prod.case
    using assms mac.ref_del_ok [of "port_mdbs dp" "mdb_calls (port_ds dp) (port_index dp)" l
      "\<lambda>a. mac_key a = mdb_key (mdb, db)" "mdb_key (mdb, db)"
      "call_op drv ds Op_port_mdb_del (Port_mdb_del (port_ds dp) (port_index dp) mdb db)" drv
      "Port_mdb_del (port_ds dp) (port_index dp) mdb db"]
    by (auto simp: s x mdb_db_ok_def mdb_refs_def mdb_del_op_def mdb_del_ref mdb_calls_def call_op_def mac_key_def mdb_key_def
        split del: if_split)
qed

interpretation mdb_db: refcounted_db "mdb_add_op drv ds" "mdb_del_op drv ds" mdb_key "(\<lambda>_. False)"
  mdb_refs mdb_held "mdb_db_ok ds" for drv ds
  using mdb_add_step [of ds] mdb_del_step [of ds]
  by unfold_locales (auto simp: mdb_db_ok_def mdb_refs_def mdb_held_def db_hw_ok_def)

definition lag_fdb_db_ok :: "dsa_switch \<Rightarrow> ds_ptr \<Rightarrow> dsa_lag \<times> dsa_log \<Rightarrow> bool" where
  "lag_fdb_db_ok ds dsp s \<longleftrightarrow> (case s of (lag, l) \<Rightarrow>
     {Op_lag_fdb_add, Op_lag_fdb_del} \<subseteq> sw_ops ds \<and>
     db_list_ok mac_key a_refcount (lag_fdbs lag) \<and>
     db_hw_ok mac_key a_refcount (lag_fdb_calls dsp (lag_dev lag)) (lag_fdbs lag) l)"

definition lag_fdb_refs :: "dsa_lag \<times> dsa_log \<Rightarrow> mac_key \<Rightarrow> nat" where
  "lag_fdb_refs s = (case s of (lag, l) \<Rightarrow> entry_refs mac_key a_refcount (lag_fdbs lag))"

definition lag_fdb_held :: "ds_ptr \<Rightarrow> dsa_lag \<times> dsa_log \<Rightarrow> mac_key \<Rightarrow> bool" where
  "lag_fdb_held dsp s = (case s of (lag, l) \<Rightarrow> installed (lag_fdb_calls dsp (lag_dev lag)) l)"

definition lag_fdb_add_op ::
  "driver \<Rightarrow> dsa_switch \<Rightarrow> ds_ptr \<Rightarrow> u8 list \<times> u16 \<times> dsa_db \<Rightarrow> dsa_lag \<times> dsa_log \<Rightarrow>
   (int \<times> dsa_lag \<times> dsa_log) option" where
  "lag_fdb_add_op drv ds dsp x s =
     (case (x, s) of ((addr, vid, db), lag, l) \<Rightarrow> dsa_switch_do_lag_fdb_add drv ds dsp lag addr vid db l)"

definition lag_fdb_del_op ::
  "driver \<Rightarrow> dsa_switch \<Rightarrow> ds_ptr \<Rightarrow> u8 list \<times> u16 \<times> dsa_db \<Rightarrow> dsa_lag \<times> dsa_log \<Rightarrow>
   (int \<times> dsa_lag \<times> dsa_log) option" where
  "lag_fdb_del_op drv ds dsp x s =
     (case (x, s) of ((addr, vid, db), lag, l) \<Rightarrow> dsa_switch_do_lag_fdb_del drv ds dsp lag addr vid db l)"

lemma lag_fdb_add_step:
  assumes "lag_fdb_db_ok ds dsp s"
  shows "\<exists>r s'. lag_fdb_add_op drv ds dsp x s = Some (r, s') \<and> lag_fdb_db_ok ds dsp s' \<and>
      lag_fdb_refs s' = (if r = 0 then (lag_fdb_refs s)(addr_key x := ref_up (lag_fdb_refs s (addr_key x))) else lag_fdb_refs s)"
proof -
  obtain lag l where s: "s = (lag, l)" by (cases s)
  obtain addr vid db where x: "x = (addr, vid, db)" by (cases x)
  show ?thesis
    unfolding s x lag_fdb_refs_def prod.case
    using assms mac.ref_add_ok [of "lag_fdbs lag" "lag_fdb_calls dsp (lag_dev lag)" l
      "\<lambda>a. mac_key a = addr_key (addr, vid, db)" "addr_key (addr, vid, db)"
      "\<lparr>a_addr = addr, a_vid = vid, a_refcount = 1, a_db = db\<rparr>"
      "call_op drv ds Op_lag_fdb_add (Lag_fdb_add dsp (lag_dev lag) addr vid db)" drv
      "Lag_fdb_add dsp (lag_dev lag) addr vid db"]
    by (auto simp: s x lag_fdb_db_ok_def lag_fdb_refs_def lag_fdb_add_op_def lag_fdb_add_ref lag_fdb_calls_def call_op_def mac_key_def addr_key_def
        split del: if_split)
qed

lemma lag_fdb_del_step:
  assumes "lag_fdb_db_ok ds dsp s"
  shows "\<exists>r s'. lag_fdb_del_op drv ds dsp x s = Some (r, s') \<and> lag_fdb_db_ok ds dsp s' \<and>
      lag_fdb_refs s' = (if r = 0 then (lag_fdb_refs s)(addr_key x := ref_down (lag_fdb_refs s (addr_key x))) else lag_fdb_refs s) \<and>
      (lag_fdb_refs s (addr_key x) = 0 \<longrightarrow> r = ENOENT_NEG)"
proof -
  obtain lag l where s: "s = (lag, l)" by (cases s)
  obtain addr vid db where x: "x = (addr, vid, db)" by (cases x)
  show ?thesis
    unfolding s x lag_fdb_refs_def prod.case
    using assms mac.ref_del_ok [of "lag_fdbs lag" "lag_fdb_calls dsp (lag_dev lag)" l
      "\<lambda>a. mac_key a = addr_key (addr, vid, db)" "addr_key (addr, vid, db)"
      "call_op drv ds Op_lag_fdb_del (Lag_fdb_del dsp (lag_dev lag) addr vid db)" drv
      "Lag_fdb_del dsp (lag_dev lag) addr vid db"]
    by (auto simp: s x lag_fdb_db_ok_def lag_fdb_refs_def lag_fdb_del_op_def lag_fdb_del_ref lag_fdb_calls_def call_op_def mac_key_def addr_key_def
        split del: if_split)
qed

interpretation lag_fdb_db: refcounted_db "lag_fdb_add_op drv ds dsp" "lag_fdb_del_op drv ds dsp" addr_key "(\<lambda>_. False)"
  lag_fdb_refs "lag_fdb_held dsp" "lag_fdb_db_ok ds dsp" for drv ds dsp
  using lag_fdb_add_step [of ds dsp] lag_fdb_del_step [of ds dsp]
  by unfold_locales (auto simp: lag_fdb_db_ok_def lag_fdb_refs_def lag_fdb_held_def db_hw_ok_def)

definition vlan_db_ok :: "dsa_switch \<Rightarrow> dsa_port_obj \<times> dsa_log \<Rightarrow> bool" where
  "vlan_db_ok ds s \<longleftrightarrow> (case s of (dp, l) \<Rightarrow>
     shared_port dp \<and> {Op_port_vlan_add, Op_port_vlan_del} \<subseteq> sw_ops ds \<and>
     db_list_ok v_vid v_refcount (port_vlans dp) \<and>
     db_hw_ok v_vid v_refcount (vlan_calls (port_ds dp) (port_index dp)) (port_vlans dp) l)"

definition vlan_refs :: "dsa_port_obj \<times> dsa_log \<Rightarrow> u16 \<Rightarrow> nat" where
  "vlan_refs s = (case s of (dp, l) \<Rightarrow> entry_refs v_vid v_refcount (port_vlans dp))"

definition vlan_held :: "dsa_port_obj \<times> dsa_log \<Rightarrow> u16 \<Rightarrow> bool" where
  "vlan_held s = (case s of (dp, l) \<Rightarrow> installed (vlan_calls (port_ds dp) (port_index dp)) l)"

definition vlan_add_op ::
  "driver \<Rightarrow> dsa_switch \<Rightarrow> switchdev_obj_port_vlan \<Rightarrow> dsa_port_obj \<times> dsa_log \<Rightarrow>
   (int \<times> dsa_port_obj \<times> dsa_log) option" where
  "vlan_add_op drv ds x s =
     (case (x, s) of (vlan, dp, l) \<Rightarrow> dsa_port_do_vlan_add drv ds dp vlan l)"

definition vlan_del_op ::
  "driver \<Rightarrow> dsa_switch \<Rightarrow> switchdev_obj_port_vlan \<Rightarrow> dsa_port_obj \<times> dsa_log \<Rightarrow>
   (int \<times> dsa_port_obj \<times> dsa_log) option" where
  "vlan_del_op drv ds x s =
     (case (x, s) of (vlan, dp, l) \<Rightarrow> dsa_port_do_vlan_del drv ds dp vlan l)"

lemma vlan_add_step:
  assumes "vlan_db_ok ds s"
  shows "\<exists>r s'. vlan_add_op drv ds x s = Some (r, s') \<and> vlan_db_ok ds s' \<and>
      vlan_refs s' = (if r = 0 \<and> \<not> obj_changed x then (vlan_refs s)(obj_vid x := ref_up (vlan_refs s (obj_vid x))) else vlan_refs s)"
proof -
  obtain dp l where s: "s = (dp, l)" by (cases s)
  obtain vlan where x: "x = vlan" by simp
  show ?thesis
  proof (cases "obj_changed vlan")
    case True
    then show ?thesis using assms
      by (simp add: s x vlan_db_ok_def vlan_refs_def vlan_add_op_def dsa_port_do_vlan_add_def)
  next
    case False
    then show ?thesis
      unfolding s x vlan_refs_def prod.case
      using assms vlan.ref_add_ok [of "port_vlans dp" "vlan_calls (port_ds dp) (port_index dp)" l
      "\<lambda>a. v_vid a = obj_vid vlan" "obj_vid vlan"
      "\<lparr>v_vid = obj_vid vlan, v_refcount = 1\<rparr>"
      "call_op drv ds Op_port_vlan_add (Port_vlan_add (port_ds dp) (port_index dp) vlan)" drv
      "Port_vlan_add (port_ds dp) (port_index dp) vlan"]
      by (auto simp: s x vlan_db_ok_def vlan_refs_def vlan_add_op_def vlan_add_ref vlan_calls_def call_op_def 
        split del: if_split)
  qed
qed

lemma vlan_del_step:
  assumes "vlan_db_ok ds s"
  shows "\<exists>r s'. vlan_del_op drv ds x s = Some (r, s') \<and> vlan_db_ok ds s' \<and>
      vlan_refs s' = (if r = 0 then (vlan_refs s)(obj_vid x := ref_down (vlan_refs s (obj_vid x))) else vlan_refs s) \<and>
      (vlan_refs s (obj_vid x) = 0 \<longrightarrow> r = ENOENT_NEG)"
proof -
  obtain dp l where s: "s = (dp, l)" by (cases s)
  obtain vlan where x: "x = vlan" by simp
  show ?thesis
    unfolding s x vlan_refs_def prod.case
    using assms vlan.ref_del_ok [of "port_vlans dp" "vlan_calls (port_ds dp) (port_index dp)" l
      "\<lambda>a. v_vid a = obj_vid vlan" "obj_vid vlan"
      "call_op drv ds Op_port_vlan_del (Port_vlan_del (port_ds dp) (port_index dp) vlan)" drv
      "Port_vlan_del (port_ds dp) (port_index dp) vlan"]
    by (auto simp: s x vlan_db_ok_def vlan_refs_def vlan_del_op_def vlan_del_ref vlan_calls_def call_op_def 
        split del: if_split)
qed

interpretation vlan_db: refcounted_db "vlan_add_op drv ds" "vlan_del_op drv ds" obj_vid "obj_changed"
  vlan_refs vlan_held "vlan_db_ok ds" for drv ds
  using vlan_add_step [of ds] vlan_del_step [of ds]
  by unfold_locales (auto simp: vlan_db_ok_def vlan_refs_def vlan_held_def db_hw_ok_def)

subsection \<open>Properties\<close>

lemma db_ok_empty:
  "db_list_ok key cnt []" "db_hw_ok key cnt cl [] []"
  by (simp_all add: db_list_ok_def db_hw_ok_def installed_def entry_refs_def)

text \<open>
  C28. The databases are well formed whatever is asked of them: every history of additions and
  removals, whatever the driver and the allocator answer, returns a result for each request
  and leaves each of the four databases with at most one entry per key, no entry without a
  user, and exactly the entries of the list in the hardware, installed and removed in turn.
\<close>

theorem databases_well_formed:
  "(fdb_db_ok ds s \<longrightarrow>
      (\<exists>rs s'. db_run (fdb_add_op drv ds) (fdb_del_op drv ds) fops s = Some (rs, s') \<and> fdb_db_ok ds s')) \<and>
   (mdb_db_ok ds s \<longrightarrow>
      (\<exists>rs s'. db_run (mdb_add_op drv ds) (mdb_del_op drv ds) mops s = Some (rs, s') \<and> mdb_db_ok ds s')) \<and>
   (lag_fdb_db_ok ds dsp ls \<longrightarrow>
      (\<exists>rs s'. db_run (lag_fdb_add_op drv ds dsp) (lag_fdb_del_op drv ds dsp) fops ls = Some (rs, s') \<and>
               lag_fdb_db_ok ds dsp s')) \<and>
   (vlan_db_ok ds s \<longrightarrow>
      (\<exists>rs s'. db_run (vlan_add_op drv ds) (vlan_del_op drv ds) vops s = Some (rs, s') \<and> vlan_db_ok ds s'))"
  by (intro conjI impI fdb_db.run_total mdb_db.run_total lag_fdb_db.run_total vlan_db.run_total)

theorem databases_well_formed_witness:
  "let ds = board_switch\<lparr>sw_ops := {Op_port_fdb_add, Op_port_fdb_del, Op_port_mdb_add, Op_port_mdb_del,
        Op_lag_fdb_add, Op_lag_fdb_del, Op_port_vlan_add, Op_port_vlan_del}\<rparr>;
       s = (board_port 4, []); x = ([1, 2, 3, 4, 5, 6], 7, DSA_DB_PORT 0) in
   (\<exists>rs s'. db_run (fdb_add_op (\<lambda>_ _. 0) ds) (fdb_del_op (\<lambda>_ _. 0) ds) [Db_add x, Db_del x] s = Some (rs, s') \<and>
            fdb_db_ok ds s') \<and>
   (\<exists>rs s'. db_run (vlan_add_op (\<lambda>_ _. 0) ds) (vlan_del_op (\<lambda>_ _. 0) ds) [] s = Some (rs, s') \<and> vlan_db_ok ds s')"
proof -
  define ds where "ds = board_switch\<lparr>sw_ops := {Op_port_fdb_add, Op_port_fdb_del, Op_port_mdb_add,
    Op_port_mdb_del, Op_lag_fdb_add, Op_lag_fdb_del, Op_port_vlan_add, Op_port_vlan_del}\<rparr>"
  have "fdb_db_ok ds (board_port 4, [])" "vlan_db_ok ds (board_port 4, [])"
    by (simp_all add: fdb_db_ok_def vlan_db_ok_def board_port_def ds_def shared_port_def dsa_port_is_cpu_def
        db_ok_empty)
  then show ?thesis
    using databases_well_formed [of ds "(board_port 4, [])" "\<lambda>_ _. 0"
      "[Db_add ([1, 2, 3, 4, 5, 6], 7, DSA_DB_PORT 0), Db_del ([1, 2, 3, 4, 5, 6], 7, DSA_DB_PORT 0)]"
      undefined undefined undefined "[]"]
    by (simp add: Let_def ds_def [symmetric] del: db_run.simps)
qed

text \<open>
  C29. The forwarding database of a shared port counts its users exactly: after any history of
  up to \<open>INT_MAX\<close> requests on a port that starts empty, the hardware holds an address exactly
  when more additions of it were granted than removals, and the counter of its entry is the
  difference. Requests that failed, in the allocator or in the hardware, do not count.
\<close>

theorem fdb_history_counts:
  assumes "shared_port dp" "{Op_port_fdb_add, Op_port_fdb_del} \<subseteq> sw_ops ds" "port_fdbs dp = []"
    and "length ops \<le> REFCOUNT_MAX"
  shows "\<exists>rs s'. db_run (fdb_add_op drv ds) (fdb_del_op drv ds) ops (dp, []) = Some (rs, s') \<and>
    (\<forall>k. fdb_refs s' k + db_dropped (\<lambda>a. addr_key a = k) ops rs = db_granted (\<lambda>a. addr_key a = k) ops rs \<and>
         (fdb_held s' k \<longleftrightarrow> db_dropped (\<lambda>a. addr_key a = k) ops rs < db_granted (\<lambda>a. addr_key a = k) ops rs))"
proof -
  have ok: "fdb_db_ok ds (dp, [])" using assms by (simp add: fdb_db_ok_def db_ok_empty)
  have none: "fdb_refs (dp, []) k = 0" for k using assms(3) by (simp add: fdb_refs_def entry_refs_def)
  obtain rs s' where run: "db_run (fdb_add_op drv ds) (fdb_del_op drv ds) ops (dp, []) = Some (rs, s')"
    using fdb_db.run_total [OF ok] by blast
  show ?thesis
    using fdb_db.run_balance [OF ok _ run] fdb_db.run_held [OF ok none assms(4) run] assms(4)
    by (intro exI [of _ rs] exI [of _ s']) (simp add: run none)
qed

theorem fdb_history_counts_witness:
  "let ds = board_switch\<lparr>sw_ops := {Op_port_fdb_add, Op_port_fdb_del}\<rparr>;
       x = ([1, 2, 3, 4, 5, 6], 7, DSA_DB_PORT 0); ops = [Db_add x, Db_add x, Db_del x] in
   \<exists>rs s'. db_run (fdb_add_op (\<lambda>_ _. 0) ds) (fdb_del_op (\<lambda>_ _. 0) ds) ops (board_port 4, []) = Some (rs, s') \<and>
    (\<forall>k. fdb_refs s' k + db_dropped (\<lambda>a. addr_key a = k) ops rs = db_granted (\<lambda>a. addr_key a = k) ops rs \<and>
         (fdb_held s' k \<longleftrightarrow> db_dropped (\<lambda>a. addr_key a = k) ops rs < db_granted (\<lambda>a. addr_key a = k) ops rs))"
  unfolding Let_def
  by (rule fdb_history_counts)
    (simp_all add: board_port_def shared_port_def dsa_port_is_cpu_def REFCOUNT_MAX_def)

text \<open>
  The VLANs of a shared port: re-notifications of a VLAN whose flags have changed are not
  requests, so after any history of up to \<open>INT_MAX\<close> requests the hardware holds a VLAN exactly
  when more first-time additions of it were granted than removals.
\<close>

theorem vlan_history_counts:
  assumes "shared_port dp" "{Op_port_vlan_add, Op_port_vlan_del} \<subseteq> sw_ops ds" "port_vlans dp = []"
    and "length ops \<le> REFCOUNT_MAX"
  shows "\<exists>rs s'. db_run (vlan_add_op drv ds) (vlan_del_op drv ds) ops (dp, []) = Some (rs, s') \<and>
    (\<forall>vid. vlan_held s' vid \<longleftrightarrow>
       db_dropped (\<lambda>v. obj_vid v = vid) ops rs < db_granted (\<lambda>v. obj_vid v = vid \<and> \<not> obj_changed v) ops rs)"
proof -
  have ok: "vlan_db_ok ds (dp, [])" using assms by (simp add: vlan_db_ok_def db_ok_empty)
  have none: "vlan_refs (dp, []) k = 0" for k using assms(3) by (simp add: vlan_refs_def entry_refs_def)
  obtain rs s' where run: "db_run (vlan_add_op drv ds) (vlan_del_op drv ds) ops (dp, []) = Some (rs, s')"
    using vlan_db.run_total [OF ok] by blast
  show ?thesis
    using vlan_db.run_held [OF ok none assms(4) run]
    by (intro exI [of _ rs] exI [of _ s']) (simp add: run)
qed

theorem vlan_history_counts_witness:
  "let ds = board_switch; v = \<lparr>obj_flags = 6, obj_vid = 3, obj_changed = False\<rparr>;
       ops = [Db_add v, Db_add (v\<lparr>obj_changed := True\<rparr>), Db_del v] in
   \<exists>rs s'. db_run (vlan_add_op (\<lambda>_ _. 0) ds) (vlan_del_op (\<lambda>_ _. 0) ds) ops (board_port 4, []) = Some (rs, s') \<and>
    (\<forall>vid. vlan_held s' vid \<longleftrightarrow>
       db_dropped (\<lambda>v. obj_vid v = vid) ops rs < db_granted (\<lambda>v. obj_vid v = vid \<and> \<not> obj_changed v) ops rs)"
  unfolding Let_def
  by (rule vlan_history_counts)
    (simp_all add: board_port_def board_switch_def shared_port_def dsa_port_is_cpu_def REFCOUNT_MAX_def)

end
