(* ===== verification/Dsa_Switch.thy ===== *)
theory Dsa_Switch
  imports Dsa_Db
begin

section \<open>Cross-chip notifications\<close>

text \<open>
  How an event travels through a tree of switches (\<open>switch.c\<close>): \<open>dsa_tree_notify\<close> calls every
  switch of the chain in the order of their registration and stops at the first error, each
  switch runs the handler of the event, and the handlers visit the ports of the switch that
  the event concerns. Handlers are translated one by one; a notification is a value of the
  datatype \<open>dsa_notifier\<close>, whose constructors carry the fields of the \<open>info\<close> structures that
  the handlers read. The change of the tag protocol (\<open>DSA_NOTIFIER_TAG_PROTO\<close>) rebuilds the
  user interfaces and is not part of the model; the events of the 802.1Q tagger are modelled
  in \<open>Dsa_8021q\<close>.

  The theorems: no sequence of notifications damages the databases of a port; a host address
  reaches exactly the CPU port of a one-switch tree, and removing it restores the port; the
  ageing time programmed is the smallest one requested; a LAG that spans two switches gets its
  addresses on the first one only.
\<close>

subsection \<open>Running operations on the objects of the tree\<close>

definition on_port ::
  "(dsa_port_obj \<Rightarrow> dsa_log \<Rightarrow> (int \<times> dsa_port_obj \<times> dsa_log) option) \<Rightarrow> dp_ptr \<Rightarrow> dsa_tree \<Rightarrow>
   (int \<times> dsa_tree) option" where
  "on_port f p t = do {
     (err, dp, l) \<leftarrow> f (t_dp t p) (t_log t);
     Some (err, (upd_port p (\<lambda>_. dp) t)\<lparr>t_log := l\<rparr>)}"

definition on_lag ::
  "(dsa_lag \<Rightarrow> dsa_log \<Rightarrow> (int \<times> dsa_lag \<times> dsa_log) option) \<Rightarrow> lag_ptr \<Rightarrow> dsa_tree \<Rightarrow>
   (int \<times> dsa_tree) option" where
  "on_lag f p t = do {
     (err, lag, l) \<leftarrow> f (t_lag t p) (t_log t);
     Some (err, (upd_lag p (\<lambda>_. lag) t)\<lparr>t_log := l\<rparr>)}"

definition tree_call :: "driver \<Rightarrow> ds_ptr \<Rightarrow> dsa_op \<Rightarrow> dsa_call \<Rightarrow> dsa_tree \<Rightarrow> (int \<times> dsa_tree) option" where
  "tree_call drv ds f c t = do {(r, l) \<leftarrow> call_op drv (t_ds t ds) f c (t_log t); Some (r, t\<lparr>t_log := l\<rparr>)}"

text \<open>A loop over a list that ends at the first error.\<close>

fun until_err :: "('p \<Rightarrow> dsa_tree \<Rightarrow> (int \<times> dsa_tree) option) \<Rightarrow> 'p list \<Rightarrow> dsa_tree \<Rightarrow> (int \<times> dsa_tree) option" where
  "until_err f [] t = Some (0, t)"
| "until_err f (p # ps) t = do {
     (err, t) \<leftarrow> f p t;
     if err \<noteq> 0 then Some (err, t) else until_err f ps t}"

definition has_op :: "dsa_tree \<Rightarrow> ds_ptr \<Rightarrow> dsa_op \<Rightarrow> bool" where
  "has_op t ds f \<longleftrightarrow> f \<in> sw_ops (t_ds t ds)"

subsection \<open>Ageing time and MTU\<close>

definition dsa_switch_fastest_ageing_time :: "dsa_tree \<Rightarrow> ds_ptr \<Rightarrow> nat \<Rightarrow> nat" where
  "dsa_switch_fastest_ageing_time t ds ageing_time =
     foldl (\<lambda>a dp. let d = port_ageing_time (t_dp t dp) in if d \<noteq> 0 \<and> d < a then d else a)
       ageing_time (dsa_switch_ports t ds)"

definition dsa_switch_ageing_time :: "driver \<Rightarrow> ds_ptr \<Rightarrow> nat \<Rightarrow> dsa_tree \<Rightarrow> (int \<times> dsa_tree) option" where
  "dsa_switch_ageing_time drv ds ageing_time t =
     (let sw = t_ds t ds in
      if sw_ageing_time_min sw \<noteq> 0 \<and> ageing_time < sw_ageing_time_min sw then Some (ERANGE_NEG, t)
      else if sw_ageing_time_max sw \<noteq> 0 \<and> ageing_time > sw_ageing_time_max sw then Some (ERANGE_NEG, t)
      else
        (let a = dsa_switch_fastest_ageing_time t ds ageing_time in
         if has_op t ds Op_set_ageing_time then tree_call drv ds Op_set_ageing_time (Set_ageing_time ds a) t
         else Some (0, t)))"

definition dsa_port_mtu_match :: "dsa_tree \<Rightarrow> dp_ptr \<Rightarrow> dp_ptr \<Rightarrow> bool" where
  "dsa_port_mtu_match t dp target \<longleftrightarrow>
     dp = target \<or> dsa_port_is_dsa (t_dp t dp) \<or> dsa_port_is_cpu (t_dp t dp)"

definition dsa_switch_mtu :: "driver \<Rightarrow> ds_ptr \<Rightarrow> dp_ptr \<Rightarrow> int \<Rightarrow> dsa_tree \<Rightarrow> (int \<times> dsa_tree) option" where
  "dsa_switch_mtu drv ds target mtu t =
     (if \<not> has_op t ds Op_port_change_mtu then Some (EOPNOTSUPP_NEG, t)
      else until_err (\<lambda>dp t. if dsa_port_mtu_match t dp target
               then tree_call drv ds Op_port_change_mtu (Port_change_mtu ds (port_index (t_dp t dp)) mtu) t
               else Some (0, t)) (dsa_switch_ports t ds) t)"

subsection \<open>Bridges\<close>

definition dsa_switch_bridge_join ::
  "driver \<Rightarrow> ds_ptr \<Rightarrow> dp_ptr \<Rightarrow> netdev \<Rightarrow> nat \<Rightarrow> dsa_tree \<Rightarrow> (int \<times> dsa_tree) option" where
  "dsa_switch_bridge_join drv ds dp dev num t =
     (let p = t_dp t dp in
      if port_ds p = ds then
        (if \<not> has_op t ds Op_port_bridge_join then Some (EOPNOTSUPP_NEG, t)
         else tree_call drv ds Op_port_bridge_join (Port_bridge_join ds (port_index p) dev num) t)
      else if has_op t ds Op_crosschip_bridge_join then
        tree_call drv ds Op_crosschip_bridge_join
          (Crosschip_bridge_join ds (t_index t) (sw_index (t_ds t (port_ds p))) (port_index p) dev num) t
      else Some (0, t))"

text \<open>Leaving returns nothing: the answer of the driver is dropped.\<close>

definition dsa_switch_bridge_leave ::
  "driver \<Rightarrow> ds_ptr \<Rightarrow> dp_ptr \<Rightarrow> netdev \<Rightarrow> nat \<Rightarrow> dsa_tree \<Rightarrow> (int \<times> dsa_tree) option" where
  "dsa_switch_bridge_leave drv ds dp dev num t =
     (let p = t_dp t dp in
      if port_ds p = ds \<and> has_op t ds Op_port_bridge_leave then do {
        (_, t) \<leftarrow> tree_call drv ds Op_port_bridge_leave (Port_bridge_leave ds (port_index p) dev num) t;
        Some (0, t)}
      else if port_ds p \<noteq> ds \<and> has_op t ds Op_crosschip_bridge_leave then do {
        (_, t) \<leftarrow> tree_call drv ds Op_crosschip_bridge_leave
          (Crosschip_bridge_leave ds (t_index t) (sw_index (t_ds t (port_ds p))) (port_index p) dev num) t;
        Some (0, t)}
      else Some (0, t))"

subsection \<open>Forwarding database\<close>

definition dsa_port_host_address_match :: "dsa_tree \<Rightarrow> dp_ptr \<Rightarrow> dp_ptr \<Rightarrow> bool option" where
  "dsa_port_host_address_match t dp targeted_dp = do {
     up \<leftarrow> dsa_switch_is_upstream_of t (port_ds (t_dp t dp)) (port_ds (t_dp t targeted_dp));
     if up then do {
       cpu_dp \<leftarrow> port_cpu_dp (t_dp t targeted_dp);
       Some (port_index (t_dp t dp) =
         dsa_towards_port t (port_ds (t_dp t dp)) (sw_index (t_ds t (port_ds (t_dp t cpu_dp))))
           (port_index (t_dp t cpu_dp)))}
     else Some False}"

definition host_fdb_port ::
  "(dsa_port_obj \<Rightarrow> dsa_log \<Rightarrow> (int \<times> dsa_port_obj \<times> dsa_log) option) \<Rightarrow>
   (dsa_lag \<Rightarrow> dsa_log \<Rightarrow> (int \<times> dsa_lag \<times> dsa_log) option) \<Rightarrow> dp_ptr \<Rightarrow> dp_ptr \<Rightarrow> dsa_tree \<Rightarrow>
   (int \<times> dsa_tree) option" where
  "host_fdb_port port_op lag_op target dp t = do {
     m \<leftarrow> dsa_port_host_address_match t dp target;
     if \<not> m then Some (0, t)
     else if dsa_port_is_cpu (t_dp t dp) \<and> port_cpu_in_lag (t_dp t target) then do {
       lag \<leftarrow> port_lag (t_dp t dp);
       on_lag lag_op lag t}
     else on_port port_op dp t}"

definition dsa_switch_host_fdb_add ::
  "driver \<Rightarrow> ds_ptr \<Rightarrow> dp_ptr \<Rightarrow> u8 list \<Rightarrow> u16 \<Rightarrow> dsa_db \<Rightarrow> dsa_tree \<Rightarrow> (int \<times> dsa_tree) option" where
  "dsa_switch_host_fdb_add drv ds target addr vid db t =
     (if \<not> has_op t ds Op_port_fdb_add then Some (EOPNOTSUPP_NEG, t)
      else until_err
        (host_fdb_port (\<lambda>dp. dsa_port_do_fdb_add drv (t_ds t ds) dp addr vid db)
           (\<lambda>lag. dsa_switch_do_lag_fdb_add drv (t_ds t ds) ds lag addr vid db) target)
        (dsa_switch_ports t ds) t)"

definition dsa_switch_host_fdb_del ::
  "driver \<Rightarrow> ds_ptr \<Rightarrow> dp_ptr \<Rightarrow> u8 list \<Rightarrow> u16 \<Rightarrow> dsa_db \<Rightarrow> dsa_tree \<Rightarrow> (int \<times> dsa_tree) option" where
  "dsa_switch_host_fdb_del drv ds target addr vid db t =
     (if \<not> has_op t ds Op_port_fdb_del then Some (EOPNOTSUPP_NEG, t)
      else until_err
        (host_fdb_port (\<lambda>dp. dsa_port_do_fdb_del drv (t_ds t ds) dp addr vid db)
           (\<lambda>lag. dsa_switch_do_lag_fdb_del drv (t_ds t ds) ds lag addr vid db) target)
        (dsa_switch_ports t ds) t)"

text \<open>The local port of a switch that leads to the port an event is about.\<close>

definition towards :: "dsa_tree \<Rightarrow> ds_ptr \<Rightarrow> dp_ptr \<Rightarrow> dp_ptr option" where
  "towards t ds dp =
     dsa_to_port t ds (dsa_towards_port t ds (sw_index (t_ds t (port_ds (t_dp t dp)))) (port_index (t_dp t dp)))"

definition dsa_switch_fdb_add ::
  "driver \<Rightarrow> ds_ptr \<Rightarrow> dp_ptr \<Rightarrow> u8 list \<Rightarrow> u16 \<Rightarrow> dsa_db \<Rightarrow> dsa_tree \<Rightarrow> (int \<times> dsa_tree) option" where
  "dsa_switch_fdb_add drv ds target addr vid db t =
     (if \<not> has_op t ds Op_port_fdb_add then Some (EOPNOTSUPP_NEG, t)
      else do {
        dp \<leftarrow> towards t ds target;
        on_port (\<lambda>p. dsa_port_do_fdb_add drv (t_ds t ds) p addr vid db) dp t})"

definition dsa_switch_fdb_del ::
  "driver \<Rightarrow> ds_ptr \<Rightarrow> dp_ptr \<Rightarrow> u8 list \<Rightarrow> u16 \<Rightarrow> dsa_db \<Rightarrow> dsa_tree \<Rightarrow> (int \<times> dsa_tree) option" where
  "dsa_switch_fdb_del drv ds target addr vid db t =
     (if \<not> has_op t ds Op_port_fdb_del then Some (EOPNOTSUPP_NEG, t)
      else do {
        dp \<leftarrow> towards t ds target;
        on_port (\<lambda>p. dsa_port_do_fdb_del drv (t_ds t ds) p addr vid db) dp t})"

subsection \<open>LAGs\<close>

definition dsa_switch_lag_fdb_add ::
  "driver \<Rightarrow> ds_ptr \<Rightarrow> lag_ptr \<Rightarrow> u8 list \<Rightarrow> u16 \<Rightarrow> dsa_db \<Rightarrow> dsa_tree \<Rightarrow> (int \<times> dsa_tree) option" where
  "dsa_switch_lag_fdb_add drv ds lag addr vid db t =
     (if \<not> has_op t ds Op_lag_fdb_add then Some (EOPNOTSUPP_NEG, t)
      else if \<exists>dp\<in>set (dsa_switch_ports t ds). dsa_port_offloads_lag t (t_dp t dp) lag
      then on_lag (\<lambda>x. dsa_switch_do_lag_fdb_add drv (t_ds t ds) ds x addr vid db) lag t
      else Some (0, t))"

definition dsa_switch_lag_fdb_del ::
  "driver \<Rightarrow> ds_ptr \<Rightarrow> lag_ptr \<Rightarrow> u8 list \<Rightarrow> u16 \<Rightarrow> dsa_db \<Rightarrow> dsa_tree \<Rightarrow> (int \<times> dsa_tree) option" where
  "dsa_switch_lag_fdb_del drv ds lag addr vid db t =
     (if \<not> has_op t ds Op_lag_fdb_del then Some (EOPNOTSUPP_NEG, t)
      else if \<exists>dp\<in>set (dsa_switch_ports t ds). dsa_port_offloads_lag t (t_dp t dp) lag
      then on_lag (\<lambda>x. dsa_switch_do_lag_fdb_del drv (t_ds t ds) ds x addr vid db) lag t
      else Some (0, t))"

definition dsa_switch_lag_change :: "driver \<Rightarrow> ds_ptr \<Rightarrow> dp_ptr \<Rightarrow> dsa_tree \<Rightarrow> (int \<times> dsa_tree) option" where
  "dsa_switch_lag_change drv ds dp t =
     (let p = t_dp t dp in
      if port_ds p = ds \<and> has_op t ds Op_port_lag_change
      then tree_call drv ds Op_port_lag_change (Port_lag_change ds (port_index p)) t
      else if port_ds p \<noteq> ds \<and> has_op t ds Op_crosschip_lag_change
      then tree_call drv ds Op_crosschip_lag_change
             (Crosschip_lag_change ds (sw_index (t_ds t (port_ds p))) (port_index p)) t
      else Some (0, t))"

definition dsa_switch_lag_join ::
  "driver \<Rightarrow> ds_ptr \<Rightarrow> dp_ptr \<Rightarrow> netdev \<Rightarrow> dsa_tree \<Rightarrow> (int \<times> dsa_tree) option" where
  "dsa_switch_lag_join drv ds dp dev t =
     (let p = t_dp t dp in
      if port_ds p = ds \<and> has_op t ds Op_port_lag_join
      then tree_call drv ds Op_port_lag_join (Port_lag_join ds (port_index p) dev) t
      else if port_ds p \<noteq> ds \<and> has_op t ds Op_crosschip_lag_join
      then tree_call drv ds Op_crosschip_lag_join
             (Crosschip_lag_join ds (sw_index (t_ds t (port_ds p))) (port_index p) dev) t
      else Some (EOPNOTSUPP_NEG, t))"

definition dsa_switch_lag_leave ::
  "driver \<Rightarrow> ds_ptr \<Rightarrow> dp_ptr \<Rightarrow> netdev \<Rightarrow> dsa_tree \<Rightarrow> (int \<times> dsa_tree) option" where
  "dsa_switch_lag_leave drv ds dp dev t =
     (let p = t_dp t dp in
      if port_ds p = ds \<and> has_op t ds Op_port_lag_leave
      then tree_call drv ds Op_port_lag_leave (Port_lag_leave ds (port_index p) dev) t
      else if port_ds p \<noteq> ds \<and> has_op t ds Op_crosschip_lag_leave
      then tree_call drv ds Op_crosschip_lag_leave
             (Crosschip_lag_leave ds (sw_index (t_ds t (port_ds p))) (port_index p) dev) t
      else Some (EOPNOTSUPP_NEG, t))"

subsection \<open>Multicast database\<close>

definition dsa_switch_mdb_add ::
  "driver \<Rightarrow> ds_ptr \<Rightarrow> dp_ptr \<Rightarrow> switchdev_obj_port_mdb \<Rightarrow> dsa_db \<Rightarrow> dsa_tree \<Rightarrow> (int \<times> dsa_tree) option" where
  "dsa_switch_mdb_add drv ds target mdb db t =
     (if \<not> has_op t ds Op_port_mdb_add then Some (EOPNOTSUPP_NEG, t)
      else do {
        dp \<leftarrow> towards t ds target;
        on_port (\<lambda>p. dsa_port_do_mdb_add drv (t_ds t ds) p mdb db) dp t})"

definition dsa_switch_mdb_del ::
  "driver \<Rightarrow> ds_ptr \<Rightarrow> dp_ptr \<Rightarrow> switchdev_obj_port_mdb \<Rightarrow> dsa_db \<Rightarrow> dsa_tree \<Rightarrow> (int \<times> dsa_tree) option" where
  "dsa_switch_mdb_del drv ds target mdb db t =
     (if \<not> has_op t ds Op_port_mdb_del then Some (EOPNOTSUPP_NEG, t)
      else do {
        dp \<leftarrow> towards t ds target;
        on_port (\<lambda>p. dsa_port_do_mdb_del drv (t_ds t ds) p mdb db) dp t})"

definition host_port ::
  "(dsa_tree \<Rightarrow> dp_ptr \<Rightarrow> bool option) \<Rightarrow>
   (dsa_port_obj \<Rightarrow> dsa_log \<Rightarrow> (int \<times> dsa_port_obj \<times> dsa_log) option) \<Rightarrow> dp_ptr \<Rightarrow> dsa_tree \<Rightarrow>
   (int \<times> dsa_tree) option" where
  "host_port sel port_op dp t = do {
     m \<leftarrow> sel t dp;
     if m then on_port port_op dp t else Some (0, t)}"

definition dsa_switch_host_mdb_add ::
  "driver \<Rightarrow> ds_ptr \<Rightarrow> dp_ptr \<Rightarrow> switchdev_obj_port_mdb \<Rightarrow> dsa_db \<Rightarrow> dsa_tree \<Rightarrow> (int \<times> dsa_tree) option" where
  "dsa_switch_host_mdb_add drv ds target mdb db t =
     (if \<not> has_op t ds Op_port_mdb_add then Some (EOPNOTSUPP_NEG, t)
      else until_err
        (host_port (\<lambda>t dp. dsa_port_host_address_match t dp target)
           (\<lambda>p. dsa_port_do_mdb_add drv (t_ds t ds) p mdb db)) (dsa_switch_ports t ds) t)"

definition dsa_switch_host_mdb_del ::
  "driver \<Rightarrow> ds_ptr \<Rightarrow> dp_ptr \<Rightarrow> switchdev_obj_port_mdb \<Rightarrow> dsa_db \<Rightarrow> dsa_tree \<Rightarrow> (int \<times> dsa_tree) option" where
  "dsa_switch_host_mdb_del drv ds target mdb db t =
     (if \<not> has_op t ds Op_port_mdb_del then Some (EOPNOTSUPP_NEG, t)
      else until_err
        (host_port (\<lambda>t dp. dsa_port_host_address_match t dp target)
           (\<lambda>p. dsa_port_do_mdb_del drv (t_ds t ds) p mdb db)) (dsa_switch_ports t ds) t)"

subsection \<open>VLANs\<close>

definition dsa_port_vlan_match :: "dsa_tree \<Rightarrow> dp_ptr \<Rightarrow> dp_ptr \<Rightarrow> bool" where
  "dsa_port_vlan_match t dp target \<longleftrightarrow> dsa_port_is_dsa (t_dp t dp) \<or> dp = target"

definition dsa_port_host_vlan_match :: "dsa_tree \<Rightarrow> dp_ptr \<Rightarrow> dp_ptr \<Rightarrow> bool option" where
  "dsa_port_host_vlan_match t dp targeted_dp = do {
     up \<leftarrow> dsa_switch_is_upstream_of t (port_ds (t_dp t dp)) (port_ds (t_dp t targeted_dp));
     Some (up \<and> (dsa_port_is_dsa (t_dp t dp) \<or> port_cpu_dp (t_dp t targeted_dp) = Some dp))}"

definition dsa_switch_vlan_add ::
  "driver \<Rightarrow> ds_ptr \<Rightarrow> dp_ptr \<Rightarrow> switchdev_obj_port_vlan \<Rightarrow> dsa_tree \<Rightarrow> (int \<times> dsa_tree) option" where
  "dsa_switch_vlan_add drv ds target vlan t =
     (if \<not> has_op t ds Op_port_vlan_add then Some (EOPNOTSUPP_NEG, t)
      else until_err
        (host_port (\<lambda>t dp. Some (dsa_port_vlan_match t dp target))
           (\<lambda>p. dsa_port_do_vlan_add drv (t_ds t ds) p vlan)) (dsa_switch_ports t ds) t)"

definition dsa_switch_vlan_del ::
  "driver \<Rightarrow> ds_ptr \<Rightarrow> dp_ptr \<Rightarrow> switchdev_obj_port_vlan \<Rightarrow> dsa_tree \<Rightarrow> (int \<times> dsa_tree) option" where
  "dsa_switch_vlan_del drv ds target vlan t =
     (if \<not> has_op t ds Op_port_vlan_del then Some (EOPNOTSUPP_NEG, t)
      else until_err
        (host_port (\<lambda>t dp. Some (dsa_port_vlan_match t dp target))
           (\<lambda>p. dsa_port_do_vlan_del drv (t_ds t ds) p vlan)) (dsa_switch_ports t ds) t)"

definition dsa_switch_host_vlan_add ::
  "driver \<Rightarrow> ds_ptr \<Rightarrow> dp_ptr \<Rightarrow> switchdev_obj_port_vlan \<Rightarrow> dsa_tree \<Rightarrow> (int \<times> dsa_tree) option" where
  "dsa_switch_host_vlan_add drv ds target vlan t =
     (if \<not> has_op t ds Op_port_vlan_add then Some (EOPNOTSUPP_NEG, t)
      else until_err
        (host_port (\<lambda>t dp. dsa_port_host_vlan_match t dp target)
           (\<lambda>p. dsa_port_do_vlan_add drv (t_ds t ds) p vlan)) (dsa_switch_ports t ds) t)"

definition dsa_switch_host_vlan_del ::
  "driver \<Rightarrow> ds_ptr \<Rightarrow> dp_ptr \<Rightarrow> switchdev_obj_port_vlan \<Rightarrow> dsa_tree \<Rightarrow> (int \<times> dsa_tree) option" where
  "dsa_switch_host_vlan_del drv ds target vlan t =
     (if \<not> has_op t ds Op_port_vlan_del then Some (EOPNOTSUPP_NEG, t)
      else until_err
        (host_port (\<lambda>t dp. dsa_port_host_vlan_match t dp target)
           (\<lambda>p. dsa_port_do_vlan_del drv (t_ds t ds) p vlan)) (dsa_switch_ports t ds) t)"

subsection \<open>Tag protocol and conduit\<close>

text \<open>
  A tagger is named by its protocol number; \<open>connect\<close> and \<open>disconnect\<close> tell whether it has the
  optional operations.
\<close>

record tag_ops =
  tag_proto :: nat
  tag_connect :: bool
  tag_disconnect :: bool

definition tagger_event :: "driver \<Rightarrow> dsa_call \<Rightarrow> dsa_tree \<Rightarrow> int \<times> dsa_tree" where
  "tagger_event drv c t = (let (r, l) = dsa_event drv c (t_log t) in (r, t\<lparr>t_log := l\<rparr>))"

definition dsa_switch_connect_tag_proto ::
  "driver \<Rightarrow> ds_ptr \<Rightarrow> tag_ops \<Rightarrow> dsa_tree \<Rightarrow> (int \<times> dsa_tree) option" where
  "dsa_switch_connect_tag_proto drv ds ops t =
     (let (err, t) = (if tag_connect ops then tagger_event drv (Tagger_connect (tag_proto ops) ds) t else (0, t)) in
      if err \<noteq> 0 then Some (err, t)
      else if \<not> has_op t ds Op_connect_tag_protocol then Some (EOPNOTSUPP_NEG, t)
      else do {
        (err, t) \<leftarrow> tree_call drv ds Op_connect_tag_protocol (Connect_tag_protocol ds (tag_proto ops)) t;
        if err \<noteq> 0 then
          (let t = (if tag_disconnect ops then snd (tagger_event drv (Tagger_disconnect (tag_proto ops) ds) t) else t) in
           Some (err, t))
        else Some (0, t)})"

definition dsa_switch_disconnect_tag_proto ::
  "driver \<Rightarrow> ds_ptr \<Rightarrow> tag_ops \<Rightarrow> dsa_tree \<Rightarrow> (int \<times> dsa_tree) option" where
  "dsa_switch_disconnect_tag_proto drv ds ops t =
     Some (0, if tag_disconnect ops \<and> sw_tagger_data (t_ds t ds)
              then snd (tagger_event drv (Tagger_disconnect (tag_proto ops) ds) t) else t)"

definition dsa_switch_conduit_state_change ::
  "driver \<Rightarrow> ds_ptr \<Rightarrow> netdev \<Rightarrow> bool \<Rightarrow> dsa_tree \<Rightarrow> (int \<times> dsa_tree) option" where
  "dsa_switch_conduit_state_change drv ds conduit operational t =
     (if \<not> has_op t ds Op_conduit_state_change then Some (0, t)
      else do {
        (_, t) \<leftarrow> tree_call drv ds Op_conduit_state_change (Conduit_state_change ds conduit operational) t;
        Some (0, t)})"

subsection \<open>Dispatch\<close>

datatype dsa_notifier =
    DSA_NOTIFIER_AGEING_TIME nat
  | DSA_NOTIFIER_BRIDGE_JOIN dp_ptr netdev nat
  | DSA_NOTIFIER_BRIDGE_LEAVE dp_ptr netdev nat
  | DSA_NOTIFIER_FDB_ADD dp_ptr "u8 list" u16 dsa_db
  | DSA_NOTIFIER_FDB_DEL dp_ptr "u8 list" u16 dsa_db
  | DSA_NOTIFIER_HOST_FDB_ADD dp_ptr "u8 list" u16 dsa_db
  | DSA_NOTIFIER_HOST_FDB_DEL dp_ptr "u8 list" u16 dsa_db
  | DSA_NOTIFIER_LAG_FDB_ADD lag_ptr "u8 list" u16 dsa_db
  | DSA_NOTIFIER_LAG_FDB_DEL lag_ptr "u8 list" u16 dsa_db
  | DSA_NOTIFIER_LAG_CHANGE dp_ptr
  | DSA_NOTIFIER_LAG_JOIN dp_ptr netdev
  | DSA_NOTIFIER_LAG_LEAVE dp_ptr netdev
  | DSA_NOTIFIER_MDB_ADD dp_ptr switchdev_obj_port_mdb dsa_db
  | DSA_NOTIFIER_MDB_DEL dp_ptr switchdev_obj_port_mdb dsa_db
  | DSA_NOTIFIER_HOST_MDB_ADD dp_ptr switchdev_obj_port_mdb dsa_db
  | DSA_NOTIFIER_HOST_MDB_DEL dp_ptr switchdev_obj_port_mdb dsa_db
  | DSA_NOTIFIER_VLAN_ADD dp_ptr switchdev_obj_port_vlan
  | DSA_NOTIFIER_VLAN_DEL dp_ptr switchdev_obj_port_vlan
  | DSA_NOTIFIER_HOST_VLAN_ADD dp_ptr switchdev_obj_port_vlan
  | DSA_NOTIFIER_HOST_VLAN_DEL dp_ptr switchdev_obj_port_vlan
  | DSA_NOTIFIER_MTU dp_ptr int
  | DSA_NOTIFIER_TAG_PROTO_CONNECT tag_ops
  | DSA_NOTIFIER_TAG_PROTO_DISCONNECT tag_ops
  | DSA_NOTIFIER_CONDUIT_STATE_CHANGE netdev bool

definition dsa_switch_event :: "driver \<Rightarrow> dsa_notifier \<Rightarrow> ds_ptr \<Rightarrow> dsa_tree \<Rightarrow> (int \<times> dsa_tree) option" where
  "dsa_switch_event drv e ds =
     (case e of
        DSA_NOTIFIER_AGEING_TIME a \<Rightarrow> dsa_switch_ageing_time drv ds a
      | DSA_NOTIFIER_BRIDGE_JOIN dp dev num \<Rightarrow> dsa_switch_bridge_join drv ds dp dev num
      | DSA_NOTIFIER_BRIDGE_LEAVE dp dev num \<Rightarrow> dsa_switch_bridge_leave drv ds dp dev num
      | DSA_NOTIFIER_FDB_ADD dp addr vid db \<Rightarrow> dsa_switch_fdb_add drv ds dp addr vid db
      | DSA_NOTIFIER_FDB_DEL dp addr vid db \<Rightarrow> dsa_switch_fdb_del drv ds dp addr vid db
      | DSA_NOTIFIER_HOST_FDB_ADD dp addr vid db \<Rightarrow> dsa_switch_host_fdb_add drv ds dp addr vid db
      | DSA_NOTIFIER_HOST_FDB_DEL dp addr vid db \<Rightarrow> dsa_switch_host_fdb_del drv ds dp addr vid db
      | DSA_NOTIFIER_LAG_FDB_ADD lag addr vid db \<Rightarrow> dsa_switch_lag_fdb_add drv ds lag addr vid db
      | DSA_NOTIFIER_LAG_FDB_DEL lag addr vid db \<Rightarrow> dsa_switch_lag_fdb_del drv ds lag addr vid db
      | DSA_NOTIFIER_LAG_CHANGE dp \<Rightarrow> dsa_switch_lag_change drv ds dp
      | DSA_NOTIFIER_LAG_JOIN dp dev \<Rightarrow> dsa_switch_lag_join drv ds dp dev
      | DSA_NOTIFIER_LAG_LEAVE dp dev \<Rightarrow> dsa_switch_lag_leave drv ds dp dev
      | DSA_NOTIFIER_MDB_ADD dp mdb db \<Rightarrow> dsa_switch_mdb_add drv ds dp mdb db
      | DSA_NOTIFIER_MDB_DEL dp mdb db \<Rightarrow> dsa_switch_mdb_del drv ds dp mdb db
      | DSA_NOTIFIER_HOST_MDB_ADD dp mdb db \<Rightarrow> dsa_switch_host_mdb_add drv ds dp mdb db
      | DSA_NOTIFIER_HOST_MDB_DEL dp mdb db \<Rightarrow> dsa_switch_host_mdb_del drv ds dp mdb db
      | DSA_NOTIFIER_VLAN_ADD dp vlan \<Rightarrow> dsa_switch_vlan_add drv ds dp vlan
      | DSA_NOTIFIER_VLAN_DEL dp vlan \<Rightarrow> dsa_switch_vlan_del drv ds dp vlan
      | DSA_NOTIFIER_HOST_VLAN_ADD dp vlan \<Rightarrow> dsa_switch_host_vlan_add drv ds dp vlan
      | DSA_NOTIFIER_HOST_VLAN_DEL dp vlan \<Rightarrow> dsa_switch_host_vlan_del drv ds dp vlan
      | DSA_NOTIFIER_MTU dp mtu \<Rightarrow> dsa_switch_mtu drv ds dp mtu
      | DSA_NOTIFIER_TAG_PROTO_CONNECT ops \<Rightarrow> dsa_switch_connect_tag_proto drv ds ops
      | DSA_NOTIFIER_TAG_PROTO_DISCONNECT ops \<Rightarrow> dsa_switch_disconnect_tag_proto drv ds ops
      | DSA_NOTIFIER_CONDUIT_STATE_CHANGE c up \<Rightarrow> dsa_switch_conduit_state_change drv ds c up)"

definition dsa_tree_notify :: "driver \<Rightarrow> dsa_notifier \<Rightarrow> dsa_tree \<Rightarrow> (int \<times> dsa_tree) option" where
  "dsa_tree_notify drv e t = until_err (dsa_switch_event drv e) (t_nh t) t"

fun dsa_broadcast ::
  "driver \<Rightarrow> dsa_notifier \<Rightarrow> dsa_tree list \<Rightarrow> (int \<times> dsa_tree list) option" where
  "dsa_broadcast drv e [] = Some (0, [])"
| "dsa_broadcast drv e (t # ts) = do {
     (err, t) \<leftarrow> dsa_tree_notify drv e t;
     if err \<noteq> 0 then Some (err, t # ts)
     else do {(err, ts) \<leftarrow> dsa_broadcast drv e ts; Some (err, t # ts)}}"

definition dsa_switch_register_notifier :: "ds_ptr \<Rightarrow> dsa_tree \<Rightarrow> int \<times> dsa_tree" where
  "dsa_switch_register_notifier ds t =
     (if ds \<in> set (t_nh t) then (-17, t) else (0, t\<lparr>t_nh := t_nh t @ [ds]\<rparr>))"

definition dsa_switch_unregister_notifier :: "ds_ptr \<Rightarrow> dsa_tree \<Rightarrow> dsa_tree" where
  "dsa_switch_unregister_notifier ds t = t\<lparr>t_nh := remove1 ds (t_nh t)\<rparr>"

subsection \<open>Laws of the loops\<close>

lemma until_err_inv:
  assumes "\<And>p t r t'. p \<in> set ps \<Longrightarrow> J t \<Longrightarrow> f p t = Some (r, t') \<Longrightarrow> J t'"
    and "J t" "until_err f ps t = Some (r, t')"
  shows "J t'"
  using assms
proof (induction ps arbitrary: t)
  case (Cons p ps)
  from Cons.prems(3) obtain e u where u: "f p t = Some (e, u)"
    and rest: "(if e \<noteq> 0 then Some (e, u) else until_err f ps u) = Some (r, t')"
    by (auto simp: bind_eq_Some_conv)
  have "J u" using Cons.prems(1) [OF _ Cons.prems(2) u] by simp
  moreover have "J t'" if "e = 0"
    using rest that Cons.prems(1) by (intro Cons.IH [OF _ \<open>J u\<close>]) auto
  ultimately show ?case using rest by (cases "e = 0") auto
qed simp

lemma until_err_skip:
  "(\<And>p. p \<in> set ps \<Longrightarrow> f p t = Some (0, t)) \<Longrightarrow> until_err f (ps @ qs) t = until_err f qs t"
  by (induction ps) auto

lemma until_err_one: "until_err f [p] t = f p t"
  by (cases "f p t") auto

subsection \<open>The databases of the ports under notifications\<close>

text \<open>What the databases of a port say, for CPU ports and links.\<close>

definition fdb_part :: "dsa_port_obj \<Rightarrow> dsa_mac_addr list \<Rightarrow> dsa_log \<Rightarrow> bool" where
  "fdb_part dp es l \<longleftrightarrow> db_list_ok mac_key a_refcount es \<and>
     db_hw_ok mac_key a_refcount (fdb_calls (port_ds dp) (port_index dp)) es l"

definition mdb_part :: "dsa_port_obj \<Rightarrow> dsa_mac_addr list \<Rightarrow> dsa_log \<Rightarrow> bool" where
  "mdb_part dp es l \<longleftrightarrow> db_list_ok mac_key a_refcount es \<and>
     db_hw_ok mac_key a_refcount (mdb_calls (port_ds dp) (port_index dp)) es l"

definition vlan_part :: "dsa_port_obj \<Rightarrow> dsa_vlan list \<Rightarrow> dsa_log \<Rightarrow> bool" where
  "vlan_part dp es l \<longleftrightarrow> db_list_ok v_vid v_refcount es \<and>
     db_hw_ok v_vid v_refcount (vlan_calls (port_ds dp) (port_index dp)) es l"

definition port_dbs_ok :: "dsa_port_obj \<Rightarrow> dsa_log \<Rightarrow> bool" where
  "port_dbs_ok dp l \<longleftrightarrow> (shared_port dp \<longrightarrow>
     fdb_part dp (port_fdbs dp) l \<and> mdb_part dp (port_mdbs dp) l \<and> vlan_part dp (port_vlans dp) l)"

definition tree_dbs_ok :: "dsa_tree \<Rightarrow> bool" where
  "tree_dbs_ok t \<longleftrightarrow>
     (\<forall>p\<in>set (t_ports t). port_dbs_ok (t_dp t p) (t_log t)) \<and>
     inj_on (\<lambda>p. (port_ds (t_dp t p), port_index (t_dp t p))) (set (t_ports t))"

text \<open>A call is silent for a port when it is not about the databases of that port.\<close>

definition silent_for :: "dsa_port_obj \<Rightarrow> dsa_call \<Rightarrow> bool" where
  "silent_for dp c \<longleftrightarrow> fdb_calls (port_ds dp) (port_index dp) c = None \<and>
     mdb_calls (port_ds dp) (port_index dp) c = None \<and> vlan_calls (port_ds dp) (port_index dp) c = None"

lemma hw_trace_silent:
  "(\<And>c. c \<in> fst ` set new \<Longrightarrow> cl c = None) \<Longrightarrow> hw_trace cl k (new @ l) = hw_trace cl k l"
proof (induction new)
  case (Cons x new)
  then show ?case by (cases x) (force split: option.splits)
qed simp

lemma db_hw_ok_silent:
  "(\<And>c. c \<in> fst ` set new \<Longrightarrow> cl c = None) \<Longrightarrow> db_hw_ok key cnt cl es (new @ l) = db_hw_ok key cnt cl es l"
  by (simp add: db_hw_ok_def installed_def hw_trace_silent)

lemma port_dbs_silent:
  "(\<And>c. c \<in> fst ` set new \<Longrightarrow> silent_for dp c) \<Longrightarrow> port_dbs_ok dp (new @ l) = port_dbs_ok dp l"
  by (simp add: port_dbs_ok_def fdb_part_def mdb_part_def vlan_part_def silent_for_def db_hw_ok_silent)

lemma silent_Kzalloc [simp]: "silent_for dp Kzalloc"
  by (simp add: silent_for_def fdb_calls_def mdb_calls_def vlan_calls_def)

subsection \<open>The contract of an operation on a port\<close>

text \<open>
  An operation on a port keeps the identity and the type of the port, keeps the databases of the
  port well formed, and its calls are silent for every other port. Whatever a notification
  handler does with such an operation leaves the databases of the whole tree well formed.
\<close>

locale port_operation =
  fixes f :: "dsa_port_obj \<Rightarrow> dsa_log \<Rightarrow> (int \<times> dsa_port_obj \<times> dsa_log) option"
  assumes keeps: "f dp l = Some (r, dp', l') \<Longrightarrow>
      port_ds dp' = port_ds dp \<and> port_index dp' = port_index dp \<and> port_type dp' = port_type dp"
    and dbs: "f dp l = Some (r, dp', l') \<Longrightarrow> port_dbs_ok dp l \<Longrightarrow> port_dbs_ok dp' l'"
    and others: "f dp l = Some (r, dp', l') \<Longrightarrow>
      \<exists>new. l' = new @ l \<and> (\<forall>c\<in>fst ` set new. \<forall>q.
        (port_ds q, port_index q) \<noteq> (port_ds dp, port_index dp) \<longrightarrow> silent_for q c)"
begin

lemma on_port_tree:
  assumes "tree_dbs_ok t" "p \<in> set (t_ports t)" "on_port f p t = Some (r, t')"
  shows "tree_dbs_ok t' \<and> t_ports t' = t_ports t"
proof -
  from assms(3) obtain dp l where run: "f (t_dp t p) (t_log t) = Some (r, dp, l)"
    and t': "t' = (upd_port p (\<lambda>_. dp) t)\<lparr>t_log := l\<rparr>"
    by (auto simp: on_port_def bind_eq_Some_conv)
  note k = keeps [OF run]
  have ident: "(port_ds (t_dp t' q), port_index (t_dp t' q)) = (port_ds (t_dp t q), port_index (t_dp t q))" for q
    using k by (simp add: t' dsa_store)
  obtain new where new: "l = new @ t_log t" "\<And>c q. c \<in> fst ` set new \<Longrightarrow>
      (port_ds q, port_index q) \<noteq> (port_ds (t_dp t p), port_index (t_dp t p)) \<Longrightarrow> silent_for q c"
    using others [OF run] by blast
  have "port_dbs_ok (t_dp t' q) (t_log t')" if q: "q \<in> set (t_ports t)" for q
  proof (cases "q = p")
    case True
    then show ?thesis using dbs [OF run] assms(1,2) by (simp add: t' dsa_store tree_dbs_ok_def)
  next
    case False
    then have "(port_ds (t_dp t q), port_index (t_dp t q)) \<noteq> (port_ds (t_dp t p), port_index (t_dp t p))"
      using assms(1,2) q by (auto simp: tree_dbs_ok_def inj_on_def)
    then have "port_dbs_ok (t_dp t q) l = port_dbs_ok (t_dp t q) (t_log t)"
      unfolding new(1) by (intro port_dbs_silent new(2))
    then show ?thesis using assms(1) q False by (simp add: t' dsa_store tree_dbs_ok_def)
  qed
  moreover have "t_ports t' = t_ports t" by (simp add: t' dsa_store)
  ultimately show ?thesis
    using assms(1) unfolding tree_dbs_ok_def ident by simp
qed

lemma host_port_tree:
  assumes "tree_dbs_ok t" "p \<in> set (t_ports t)" "host_port sel f p t = Some (r, t')"
  shows "tree_dbs_ok t' \<and> t_ports t' = t_ports t"
  using assms on_port_tree [of t p r t']
  by (auto simp: host_port_def bind_eq_Some_conv split: if_splits)

lemma ports_loop_tree:
  assumes "tree_dbs_ok t" "until_err (host_port sel f) (dsa_switch_ports t ds) t = Some (r, t')"
  shows "tree_dbs_ok t' \<and> t_ports t' = t_ports t"
proof (rule until_err_inv [where J = "\<lambda>u. tree_dbs_ok u \<and> t_ports u = t_ports t", OF _ _ assms(2)])
  fix p u e u' assume "p \<in> set (dsa_switch_ports t ds)" "tree_dbs_ok u \<and> t_ports u = t_ports t"
    "host_port sel f p u = Some (e, u')"
  then show "tree_dbs_ok u' \<and> t_ports u' = t_ports t"
    using host_port_tree [of u p sel e u'] by (simp add: dsa_switch_ports_def)
qed (use assms in simp)

end

subsection \<open>The operations of the databases meet the contract\<close>

lemma ref_add_log:
  "ref_add drv P cnt setc x (call_op drv ds f c) es l = Some (r, es', l') \<Longrightarrow>
   \<exists>new. l' = new @ l \<and> fst ` set new \<subseteq> {Kzalloc, c}"
  by (auto simp: db_unfold split: option.splits if_splits)

lemma ref_del_log:
  "ref_del P cnt setc (call_op drv ds f c) es l = Some (r, es', l') \<Longrightarrow>
   \<exists>new. l' = new @ l \<and> fst ` set new \<subseteq> {Kzalloc, c}"
  by (auto simp: db_unfold split: option.splits if_splits prod.splits)

lemma ref_add_avail:
  "ref_add drv P cnt setc x (call_op drv ds f c) es l = Some y \<Longrightarrow>
   ref_add drv P cnt setc x (\<lambda>l. Some (dsa_event drv c l)) es l = Some y"
  by (auto simp: db_unfold split: option.splits if_splits)

lemma ref_del_avail:
  "ref_del P cnt setc (call_op drv ds f c) es l = Some y \<Longrightarrow>
   ref_del P cnt setc (\<lambda>l. Some (dsa_event drv c l)) es l = Some y"
  by (auto simp: db_unfold split: option.splits if_splits prod.splits)

context counted_entry
begin

lemma ref_add_keeps:
  assumes "ref_add drv (\<lambda>e. key e = k) cnt setc new (call_op drv ds f c) es l = Some (r, es', l')"
    and "db_list_ok key cnt es" "db_hw_ok key cnt cl es l"
    and "key new = k" "cnt new = 1" "cl c = Some (k, True)" "cl Kzalloc = None"
  shows "db_list_ok key cnt es' \<and> db_hw_ok key cnt cl es' l'"
  using ref_add_ok [OF assms(2,3) _ assms(4,5) _ assms(6,7), of "\<lambda>e. key e = k" "\<lambda>l. Some (dsa_event drv c l)" drv]
    ref_add_avail [OF assms(1)]
  by auto

lemma ref_del_keeps:
  assumes "ref_del (\<lambda>e. key e = k) cnt setc (call_op drv ds f c) es l = Some (r, es', l')"
    and "db_list_ok key cnt es" "db_hw_ok key cnt cl es l" "cl c = Some (k, False)"
  shows "db_list_ok key cnt es' \<and> db_hw_ok key cnt cl es' l'"
  using ref_del_ok [OF assms(2,3) _ _ assms(4), of "\<lambda>e. key e = k" "\<lambda>l. Some (dsa_event drv c l)" drv]
    ref_del_avail [OF assms(1)]
  by auto

end

lemma fdb_calls_simps [simp]:
  "fdb_calls d p (Port_fdb_add d' p' addr vid db) = (if d' = d \<and> p' = p then Some (addr_key (addr, vid, db), True) else None)"
  "fdb_calls d p (Port_fdb_del d' p' addr vid db) = (if d' = d \<and> p' = p then Some (addr_key (addr, vid, db), False) else None)"
  "fdb_calls d p (Port_mdb_add d' p' mdb db) = None" "fdb_calls d p (Port_mdb_del d' p' mdb db) = None"
  "fdb_calls d p (Port_vlan_add d' p' v) = None" "fdb_calls d p (Port_vlan_del d' p' v) = None"
  "fdb_calls d p Kzalloc = None"
  by (simp_all add: fdb_calls_def)

lemma mdb_calls_simps [simp]:
  "mdb_calls d p (Port_mdb_add d' p' mdb db) = (if d' = d \<and> p' = p then Some (mdb_key (mdb, db), True) else None)"
  "mdb_calls d p (Port_mdb_del d' p' mdb db) = (if d' = d \<and> p' = p then Some (mdb_key (mdb, db), False) else None)"
  "mdb_calls d p (Port_fdb_add d' p' addr vid db) = None" "mdb_calls d p (Port_fdb_del d' p' addr vid db) = None"
  "mdb_calls d p (Port_vlan_add d' p' v) = None" "mdb_calls d p (Port_vlan_del d' p' v) = None"
  "mdb_calls d p Kzalloc = None"
  by (simp_all add: mdb_calls_def)

lemma vlan_calls_simps [simp]:
  "vlan_calls d p (Port_vlan_add d' p' v) = (if d' = d \<and> p' = p then Some (obj_vid v, True) else None)"
  "vlan_calls d p (Port_vlan_del d' p' v) = (if d' = d \<and> p' = p then Some (obj_vid v, False) else None)"
  "vlan_calls d p (Port_fdb_add d' p' addr vid db) = None" "vlan_calls d p (Port_fdb_del d' p' addr vid db) = None"
  "vlan_calls d p (Port_mdb_add d' p' mdb db) = None" "vlan_calls d p (Port_mdb_del d' p' mdb db) = None"
  "vlan_calls d p Kzalloc = None"
  by (simp_all add: vlan_calls_def)

lemma silent_elsewhere [simp]:
  assumes "(port_ds q, port_index q) \<noteq> (d, p)"
  shows "silent_for q (Port_fdb_add d p addr vid db)" "silent_for q (Port_fdb_del d p addr vid db)"
    "silent_for q (Port_mdb_add d p mdb db)" "silent_for q (Port_mdb_del d p mdb db)"
    "silent_for q (Port_vlan_add d p v)" "silent_for q (Port_vlan_del d p v)"
  using assms by (auto simp: silent_for_def)

lemma silent_quiet:
  "cl Kzalloc = None \<Longrightarrow> cl c = None \<Longrightarrow> fst ` set new \<subseteq> {Kzalloc, c} \<Longrightarrow>
   db_hw_ok key cnt cl es (new @ l) = db_hw_ok key cnt cl es l"
  by (rule db_hw_ok_silent) auto

lemma part_upd [simp]:
  "fdb_part (dp\<lparr>port_fdbs := x\<rparr>) = fdb_part dp" "fdb_part (dp\<lparr>port_mdbs := x\<rparr>) = fdb_part dp"
  "fdb_part (dp\<lparr>port_vlans := y\<rparr>) = fdb_part dp" "mdb_part (dp\<lparr>port_fdbs := x\<rparr>) = mdb_part dp"
  "mdb_part (dp\<lparr>port_mdbs := x\<rparr>) = mdb_part dp" "mdb_part (dp\<lparr>port_vlans := y\<rparr>) = mdb_part dp"
  "vlan_part (dp\<lparr>port_fdbs := x\<rparr>) = vlan_part dp" "vlan_part (dp\<lparr>port_mdbs := x\<rparr>) = vlan_part dp"
  "vlan_part (dp\<lparr>port_vlans := y\<rparr>) = vlan_part dp"
  by (simp_all add: fun_eq_iff fdb_part_def mdb_part_def vlan_part_def)

text \<open>
  An operation that runs a list algorithm \<open>g\<close> on one of the lists of the port, or calls the
  driver directly on a user port.
\<close>

locale list_operation =
  fixes f :: "dsa_port_obj \<Rightarrow> dsa_log \<Rightarrow> (int \<times> dsa_port_obj \<times> dsa_log) option"
    and g :: "dsa_port_obj \<Rightarrow> 'e list \<Rightarrow> dsa_log \<Rightarrow> (int \<times> 'e list \<times> dsa_log) option"
    and c :: "dsa_port_obj \<Rightarrow> dsa_call"
    and get :: "dsa_port_obj \<Rightarrow> 'e list"
    and put :: "'e list \<Rightarrow> dsa_port_obj \<Rightarrow> dsa_port_obj"
    and ok :: "dsa_port_obj \<Rightarrow> 'e list \<Rightarrow> dsa_log \<Rightarrow> bool"
    and rest :: "dsa_port_obj \<Rightarrow> dsa_log \<Rightarrow> bool"
  assumes user: "\<not> shared_port dp \<Longrightarrow> f dp l = Some (r, dp', l') \<Longrightarrow>
      dp' = dp \<and> (\<exists>new. l' = new @ l \<and> fst ` set new \<subseteq> {Kzalloc, c dp})"
    and shared: "shared_port dp \<Longrightarrow> f dp l = map_option (\<lambda>(r, es, l). (r, put es dp, l)) (g dp (get dp) l)"
    and algo_log: "g dp es l = Some (r, es', l') \<Longrightarrow> \<exists>new. l' = new @ l \<and> fst ` set new \<subseteq> {Kzalloc, c dp}"
    and algo_ok: "g dp es l = Some (r, es', l') \<Longrightarrow> ok dp es l \<Longrightarrow> ok dp es' l'"
    and put_keeps: "port_ds (put es dp) = port_ds dp \<and> port_index (put es dp) = port_index dp \<and>
      port_type (put es dp) = port_type dp"
    and split_put: "shared_port dp \<Longrightarrow> port_dbs_ok (put es dp) l \<longleftrightarrow> ok dp es l \<and> rest dp l"
    and split_get: "shared_port dp \<Longrightarrow> port_dbs_ok dp l \<longleftrightarrow> ok dp (get dp) l \<and> rest dp l"
    and rest_quiet: "fst ` set new \<subseteq> {Kzalloc, c dp} \<Longrightarrow> rest dp (new @ l) = rest dp l"
    and call_elsewhere: "(port_ds q, port_index q) \<noteq> (port_ds dp, port_index dp) \<Longrightarrow> silent_for q (c dp)"
begin

lemma result:
  assumes "f dp l = Some (r, dp', l')"
  shows "(dp' = dp \<or> (\<exists>es. dp' = put es dp)) \<and>
    (\<exists>new. l' = new @ l \<and> fst ` set new \<subseteq> {Kzalloc, c dp}) \<and> (port_dbs_ok dp l \<longrightarrow> port_dbs_ok dp' l')"
proof (cases "shared_port dp")
  case False
  then show ?thesis using user [OF False assms] by (simp add: port_dbs_ok_def)
next
  case True
  then obtain es where es: "g dp (get dp) l = Some (r, es, l')" "dp' = put es dp"
    using assms shared by auto
  then show ?thesis
    using algo_log [OF es(1)] algo_ok [OF es(1)] split_put [OF True] split_get [OF True] rest_quiet
    by blast
qed

end

sublocale list_operation \<subseteq> port_operation f
proof
  fix dp l r dp' l' assume run: "f dp l = Some (r, dp', l')"
  show "port_ds dp' = port_ds dp \<and> port_index dp' = port_index dp \<and> port_type dp' = port_type dp"
    using result [OF run] put_keeps by auto
  show "port_dbs_ok dp l \<Longrightarrow> port_dbs_ok dp' l'" using result [OF run] by simp
  obtain new where new: "l' = new @ l" "fst ` set new \<subseteq> {Kzalloc, c dp}" using result [OF run] by blast
  have "silent_for q e" if "e \<in> fst ` set new" "(port_ds q, port_index q) \<noteq> (port_ds dp, port_index dp)" for e q
  proof -
    have "e = Kzalloc \<or> e = c dp" using that(1) new(2) by blast
    then show ?thesis using call_elsewhere [OF that(2)] by auto
  qed
  then show "\<exists>new. l' = new @ l \<and> (\<forall>e\<in>fst ` set new. \<forall>q.
      (port_ds q, port_index q) \<noteq> (port_ds dp, port_index dp) \<longrightarrow> silent_for q e)"
    using new(1) by blast
qed

text \<open>On user ports the operations call the driver and keep no entry.\<close>

lemma user_port_ops:
  assumes "\<not> shared_port dp"
  shows
    "dsa_port_do_fdb_add drv ds dp addr vid db l = map_option (\<lambda>(r, l). (r, dp, l))
       (call_op drv ds Op_port_fdb_add (Port_fdb_add (port_ds dp) (port_index dp) addr vid db) l)"
    and
    "dsa_port_do_fdb_del drv ds dp addr vid db l = map_option (\<lambda>(r, l). (r, dp, l))
       (call_op drv ds Op_port_fdb_del (Port_fdb_del (port_ds dp) (port_index dp) addr vid db) l)"
    and
    "dsa_port_do_mdb_add drv ds dp mdb db l = map_option (\<lambda>(r, l). (r, dp, l))
       (call_op drv ds Op_port_mdb_add (Port_mdb_add (port_ds dp) (port_index dp) mdb db) l)"
    and
    "dsa_port_do_mdb_del drv ds dp mdb db l = map_option (\<lambda>(r, l). (r, dp, l))
       (call_op drv ds Op_port_mdb_del (Port_mdb_del (port_ds dp) (port_index dp) mdb db) l)"
    and
    "dsa_port_do_vlan_add drv ds dp vlan l = map_option (\<lambda>(r, l). (r, dp, l))
       (call_op drv ds Op_port_vlan_add (Port_vlan_add (port_ds dp) (port_index dp) vlan) l)"
    and
    "dsa_port_do_vlan_del drv ds dp vlan l = map_option (\<lambda>(r, l). (r, dp, l))
       (call_op drv ds Op_port_vlan_del (Port_vlan_del (port_ds dp) (port_index dp) vlan) l)"
  using assms
  by (simp_all add: dsa_port_do_fdb_add_def dsa_port_do_fdb_del_def dsa_port_do_mdb_add_def
      dsa_port_do_mdb_del_def dsa_port_do_vlan_add_def dsa_port_do_vlan_del_def call_op_def dsa_event_def)

lemma call_op_log: "call_op drv ds f c l = Some (r, l') \<Longrightarrow> \<exists>new. l' = new @ l \<and> fst ` set new \<subseteq> {Kzalloc, c}"
  by (auto simp: call_op_def dsa_event_def split: if_splits)

lemma vlan_add_changed:
  "shared_port dp \<Longrightarrow> obj_changed vlan \<Longrightarrow> dsa_port_do_vlan_add drv ds dp vlan l = Some (0, dp, l)"
  by (simp add: dsa_port_do_vlan_add_def)

interpretation fdb_add: list_operation
  "\<lambda>dp. dsa_port_do_fdb_add drv ds dp addr vid db"
  "\<lambda>dp. ref_add drv (\<lambda>a. mac_key a = addr_key (addr, vid, db)) a_refcount (\<lambda>n. a_refcount_update (\<lambda>_. n))
     \<lparr>a_addr = addr, a_vid = vid, a_refcount = 1, a_db = db\<rparr>
     (call_op drv ds Op_port_fdb_add (Port_fdb_add (port_ds dp) (port_index dp) addr vid db))"
  "\<lambda>dp. Port_fdb_add (port_ds dp) (port_index dp) addr vid db"
  port_fdbs "\<lambda>es. port_fdbs_update (\<lambda>_. es)" fdb_part
  "\<lambda>dp l. mdb_part dp (port_mdbs dp) l \<and> vlan_part dp (port_vlans dp) l" for drv ds addr vid db
proof (unfold_locales, goal_cases)
  case 1
  then show ?case by (auto simp: user_port_ops dest: call_op_log)
next
  case 2
  then show ?case by (rule fdb_add_ref)
next
  case 3
  then show ?case by (rule ref_add_log)
next
  case (4 dp es l r es' l')
  then show ?case
    using mac.ref_add_keeps [OF 4(1), of "fdb_calls (port_ds dp) (port_index dp)"]
    by (simp add: fdb_part_def mac_key_def addr_key_def mdb_key_def)
next
  case (8 new dp l)
  then show ?case by (simp add: mdb_part_def vlan_part_def silent_quiet [OF _ _ 8])
qed (auto simp: port_dbs_ok_def)

interpretation fdb_del: list_operation
  "\<lambda>dp. dsa_port_do_fdb_del drv ds dp addr vid db"
  "\<lambda>dp. ref_del (\<lambda>a. mac_key a = addr_key (addr, vid, db)) a_refcount (\<lambda>n. a_refcount_update (\<lambda>_. n))
     (call_op drv ds Op_port_fdb_del (Port_fdb_del (port_ds dp) (port_index dp) addr vid db))"
  "\<lambda>dp. Port_fdb_del (port_ds dp) (port_index dp) addr vid db"
  port_fdbs "\<lambda>es. port_fdbs_update (\<lambda>_. es)" fdb_part
  "\<lambda>dp l. mdb_part dp (port_mdbs dp) l \<and> vlan_part dp (port_vlans dp) l" for drv ds addr vid db
proof (unfold_locales, goal_cases)
  case 1
  then show ?case by (auto simp: user_port_ops dest: call_op_log)
next
  case 2
  then show ?case by (rule fdb_del_ref)
next
  case 3
  then show ?case by (rule ref_del_log)
next
  case (4 dp es l r es' l')
  then show ?case
    using mac.ref_del_keeps [OF 4(1), of "fdb_calls (port_ds dp) (port_index dp)"]
    by (simp add: fdb_part_def mac_key_def addr_key_def mdb_key_def)
next
  case (8 new dp l)
  then show ?case by (simp add: mdb_part_def vlan_part_def silent_quiet [OF _ _ 8])
qed (auto simp: port_dbs_ok_def)

interpretation mdb_add: list_operation
  "\<lambda>dp. dsa_port_do_mdb_add drv ds dp mdb db"
  "\<lambda>dp. ref_add drv (\<lambda>a. mac_key a = mdb_key (mdb, db)) a_refcount (\<lambda>n. a_refcount_update (\<lambda>_. n))
     \<lparr>a_addr = mdb_addr mdb, a_vid = mdb_vid mdb, a_refcount = 1, a_db = db\<rparr>
     (call_op drv ds Op_port_mdb_add (Port_mdb_add (port_ds dp) (port_index dp) mdb db))"
  "\<lambda>dp. Port_mdb_add (port_ds dp) (port_index dp) mdb db"
  port_mdbs "\<lambda>es. port_mdbs_update (\<lambda>_. es)" mdb_part
  "\<lambda>dp l. fdb_part dp (port_fdbs dp) l \<and> vlan_part dp (port_vlans dp) l" for drv ds mdb db
proof (unfold_locales, goal_cases)
  case 1
  then show ?case by (auto simp: user_port_ops dest: call_op_log)
next
  case 2
  then show ?case by (rule mdb_add_ref)
next
  case 3
  then show ?case by (rule ref_add_log)
next
  case (4 dp es l r es' l')
  then show ?case
    using mac.ref_add_keeps [OF 4(1), of "mdb_calls (port_ds dp) (port_index dp)"]
    by (simp add: mdb_part_def mac_key_def addr_key_def mdb_key_def)
next
  case (8 new dp l)
  then show ?case by (simp add: fdb_part_def vlan_part_def silent_quiet [OF _ _ 8])
qed (auto simp: port_dbs_ok_def)

interpretation mdb_del: list_operation
  "\<lambda>dp. dsa_port_do_mdb_del drv ds dp mdb db"
  "\<lambda>dp. ref_del (\<lambda>a. mac_key a = mdb_key (mdb, db)) a_refcount (\<lambda>n. a_refcount_update (\<lambda>_. n))
     (call_op drv ds Op_port_mdb_del (Port_mdb_del (port_ds dp) (port_index dp) mdb db))"
  "\<lambda>dp. Port_mdb_del (port_ds dp) (port_index dp) mdb db"
  port_mdbs "\<lambda>es. port_mdbs_update (\<lambda>_. es)" mdb_part
  "\<lambda>dp l. fdb_part dp (port_fdbs dp) l \<and> vlan_part dp (port_vlans dp) l" for drv ds mdb db
proof (unfold_locales, goal_cases)
  case 1
  then show ?case by (auto simp: user_port_ops dest: call_op_log)
next
  case 2
  then show ?case by (rule mdb_del_ref)
next
  case 3
  then show ?case by (rule ref_del_log)
next
  case (4 dp es l r es' l')
  then show ?case
    using mac.ref_del_keeps [OF 4(1), of "mdb_calls (port_ds dp) (port_index dp)"]
    by (simp add: mdb_part_def mac_key_def addr_key_def mdb_key_def)
next
  case (8 new dp l)
  then show ?case by (simp add: fdb_part_def vlan_part_def silent_quiet [OF _ _ 8])
qed (auto simp: port_dbs_ok_def)

interpretation vlan_add: list_operation
  "\<lambda>dp. dsa_port_do_vlan_add drv ds dp vlan"
  "\<lambda>dp. if obj_changed vlan then (\<lambda>es l. Some (0, es, l)) else ref_add drv (\<lambda>a. v_vid a = obj_vid vlan) v_refcount (\<lambda>n. v_refcount_update (\<lambda>_. n))
     \<lparr>v_vid = obj_vid vlan, v_refcount = 1\<rparr>
     (call_op drv ds Op_port_vlan_add (Port_vlan_add (port_ds dp) (port_index dp) vlan))"
  "\<lambda>dp. Port_vlan_add (port_ds dp) (port_index dp) vlan"
  port_vlans "\<lambda>es. port_vlans_update (\<lambda>_. es)" vlan_part
  "\<lambda>dp l. fdb_part dp (port_fdbs dp) l \<and> mdb_part dp (port_mdbs dp) l" for drv ds vlan
proof (unfold_locales, goal_cases)
  case 1
  then show ?case by (auto simp: user_port_ops dest: call_op_log)
next
  case 2
  then show ?case by (cases "obj_changed vlan") (simp_all add: vlan_add_ref vlan_add_changed)
next
  case 3
  then show ?case by (auto split: if_splits dest: ref_add_log)
next
  case (4 dp es l r es' l')
  then show ?case
    using vlan.ref_add_keeps [of drv "obj_vid vlan" "\<lparr>v_vid = obj_vid vlan, v_refcount = 1\<rparr>" ds Op_port_vlan_add _ es l r es' l'
        "vlan_calls (port_ds dp) (port_index dp)"]
    by (auto simp: vlan_part_def split: if_splits)
next
  case (8 new dp l)
  then show ?case by (simp add: fdb_part_def mdb_part_def silent_quiet [OF _ _ 8])
qed (auto simp: port_dbs_ok_def)

interpretation vlan_del: list_operation
  "\<lambda>dp. dsa_port_do_vlan_del drv ds dp vlan"
  "\<lambda>dp. ref_del (\<lambda>a. v_vid a = obj_vid vlan) v_refcount (\<lambda>n. v_refcount_update (\<lambda>_. n))
     (call_op drv ds Op_port_vlan_del (Port_vlan_del (port_ds dp) (port_index dp) vlan))"
  "\<lambda>dp. Port_vlan_del (port_ds dp) (port_index dp) vlan"
  port_vlans "\<lambda>es. port_vlans_update (\<lambda>_. es)" vlan_part
  "\<lambda>dp l. fdb_part dp (port_fdbs dp) l \<and> mdb_part dp (port_mdbs dp) l" for drv ds vlan
proof (unfold_locales, goal_cases)
  case 1
  then show ?case by (auto simp: user_port_ops dest: call_op_log)
next
  case 2
  then show ?case by (rule vlan_del_ref)
next
  case 3
  then show ?case by (rule ref_del_log)
next
  case (4 dp es l r es' l')
  then show ?case
    using vlan.ref_del_keeps [OF 4(1), of "vlan_calls (port_ds dp) (port_index dp)"]
    by (simp add: vlan_part_def )
next
  case (8 new dp l)
  then show ?case by (simp add: fdb_part_def mdb_part_def silent_quiet [OF _ _ 8])
qed (auto simp: port_dbs_ok_def)

subsection \<open>Every notification keeps the databases of the tree\<close>

definition keeps_dbs :: "(dsa_tree \<Rightarrow> (int \<times> dsa_tree) option) \<Rightarrow> bool" where
  "keeps_dbs g \<longleftrightarrow> (\<forall>t r t'. tree_dbs_ok t \<longrightarrow> g t = Some (r, t') \<longrightarrow> tree_dbs_ok t' \<and> t_ports t' = t_ports t)"

lemma keeps_dbsI:
  "(\<And>t r t'. tree_dbs_ok t \<Longrightarrow> g t = Some (r, t') \<Longrightarrow> tree_dbs_ok t' \<and> t_ports t' = t_ports t) \<Longrightarrow> keeps_dbs g"
  unfolding keeps_dbs_def by blast

lemma keeps_dbsD:
  "keeps_dbs g \<Longrightarrow> tree_dbs_ok t \<Longrightarrow> g t = Some (r, t') \<Longrightarrow> tree_dbs_ok t' \<and> t_ports t' = t_ports t"
  unfolding keeps_dbs_def by blast

lemma tree_silent:
  assumes "tree_dbs_ok t" "t_dp t' = t_dp t" "t_ports t' = t_ports t" "t_log t' = new @ t_log t"
    and "fst ` set new \<subseteq> {Kzalloc, c}" "\<forall>q. silent_for q c"
  shows "tree_dbs_ok t'"
proof -
  have "silent_for q e" if "e \<in> fst ` set new" for q e
  proof -
    have "e = Kzalloc \<or> e = c" using that assms(5) by blast
    then show ?thesis using assms(6) by auto
  qed
  then show ?thesis using assms(1-4) by (simp add: tree_dbs_ok_def port_dbs_silent)
qed

lemma silent_calls [simp]:
  "silent_for q (Set_ageing_time d a)" "silent_for q (Port_change_mtu d p m)"
  "silent_for q (Port_bridge_join d p n b)" "silent_for q (Crosschip_bridge_join d i j p n b)"
  "silent_for q (Port_bridge_leave d p n b)" "silent_for q (Crosschip_bridge_leave d i j p n b)"
  "silent_for q (Lag_fdb_add d n addr vid db)" "silent_for q (Lag_fdb_del d n addr vid db)"
  "silent_for q (Port_lag_change d p)" "silent_for q (Crosschip_lag_change d j p)"
  "silent_for q (Port_lag_join d p n)" "silent_for q (Crosschip_lag_join d j p n)"
  "silent_for q (Port_lag_leave d p n)" "silent_for q (Crosschip_lag_leave d j p n)"
  "silent_for q (Tagger_connect i d)" "silent_for q (Tagger_disconnect i d)"
  "silent_for q (Connect_tag_protocol d i)" "silent_for q (Conduit_state_change d n u)"
  by (simp_all add: silent_for_def fdb_calls_def mdb_calls_def vlan_calls_def)

lemma tree_call_keeps:
  assumes "\<And>q. silent_for q c" "tree_dbs_ok t" "tree_call drv ds f c t = Some (r, t')"
  shows "tree_dbs_ok t' \<and> t_ports t' = t_ports t"
proof -
  obtain l where l: "call_op drv (t_ds t ds) f c (t_log t) = Some (r, l)" "t' = t\<lparr>t_log := l\<rparr>"
    using assms(3) by (auto simp: tree_call_def bind_eq_Some_conv)
  obtain new where "l = new @ t_log t" "fst ` set new \<subseteq> {Kzalloc, c}" using call_op_log [OF l(1)] by blast
  then show ?thesis using assms(1) tree_silent [OF assms(2), of t' new c] by (simp add: l(2))
qed

lemma tagger_event_keeps:
  "tree_dbs_ok t \<Longrightarrow> \<forall>q. silent_for q c \<Longrightarrow>
   tree_dbs_ok (snd (tagger_event drv c t)) \<and> t_ports (snd (tagger_event drv c t)) = t_ports t \<and>
   t_ds (snd (tagger_event drv c t)) = t_ds t"
  by (auto simp: tagger_event_def dsa_event_def
      intro!: tree_silent [of t "t\<lparr>t_log := (c, drv c (t_log t)) # t_log t\<rparr>" "[(c, drv c (t_log t))]" c])

lemma on_lag_keeps:
  assumes "\<And>lag l r lag' l'. f lag l = Some (r, lag', l') \<Longrightarrow> \<exists>new c. l' = new @ l \<and>
      fst ` set new \<subseteq> {Kzalloc, c} \<and> (\<forall>q. silent_for q c)"
    and "tree_dbs_ok t" "on_lag f p t = Some (r, t')"
  shows "tree_dbs_ok t' \<and> t_ports t' = t_ports t"
proof -
  obtain lag l where l: "f (t_lag t p) (t_log t) = Some (r, lag, l)"
    "t' = (upd_lag p (\<lambda>_. lag) t)\<lparr>t_log := l\<rparr>"
    using assms(3) by (auto simp: on_lag_def bind_eq_Some_conv)
  obtain new c where "l = new @ t_log t" "fst ` set new \<subseteq> {Kzalloc, c}" "\<forall>q. silent_for q c"
    using assms(1) [OF l(1)] by blast
  then show ?thesis using tree_silent [OF assms(2), of t' new c] by (simp add: l(2) dsa_store)
qed

lemma lag_ops_log:
  "dsa_switch_do_lag_fdb_add drv ds dsp lag addr vid db l = Some (r, lag', l') \<Longrightarrow>
     \<exists>new c. l' = new @ l \<and> fst ` set new \<subseteq> {Kzalloc, c} \<and> (\<forall>q. silent_for q c)"
  "dsa_switch_do_lag_fdb_del drv ds dsp lag addr vid db l = Some (r, lag', l') \<Longrightarrow>
     \<exists>new c. l' = new @ l \<and> fst ` set new \<subseteq> {Kzalloc, c} \<and> (\<forall>q. silent_for q c)"
  by (auto simp: lag_fdb_add_ref lag_fdb_del_ref dest!: ref_add_log ref_del_log) (metis silent_calls)+

lemmas lag_keeps = on_lag_keeps [OF lag_ops_log(1)] on_lag_keeps [OF lag_ops_log(2)]

lemma towards_mem: "towards t ds dp = Some p \<Longrightarrow> p \<in> set (t_ports t)"
  by (auto simp: towards_def dsa_to_port_def find_Some_iff)

named_theorems handler_keeps \<open>the handlers keep the databases\<close>

lemma single_call_keeps [handler_keeps]:
  "keeps_dbs (dsa_switch_ageing_time drv ds a)"
  "keeps_dbs (dsa_switch_bridge_join drv ds dp dev num)"
  "keeps_dbs (dsa_switch_bridge_leave drv ds dp dev num)"
  "keeps_dbs (dsa_switch_lag_change drv ds dp)"
  "keeps_dbs (dsa_switch_lag_join drv ds dp dev)"
  "keeps_dbs (dsa_switch_lag_leave drv ds dp dev)"
  "keeps_dbs (dsa_switch_conduit_state_change drv ds dev up)"
  by (rule keeps_dbsI;
      auto simp: dsa_switch_ageing_time_def dsa_switch_bridge_join_def dsa_switch_bridge_leave_def
        dsa_switch_lag_change_def dsa_switch_lag_join_def dsa_switch_lag_leave_def
        dsa_switch_conduit_state_change_def Let_def bind_eq_Some_conv
        dest: tree_call_keeps [rotated] split: if_splits)+

lemma mtu_keeps [handler_keeps]: "keeps_dbs (dsa_switch_mtu drv ds dp mtu)"
proof (rule keeps_dbsI)
  fix t r t' assume ok: "tree_dbs_ok t" and run: "dsa_switch_mtu drv ds dp mtu t = Some (r, t')"
  show "tree_dbs_ok t' \<and> t_ports t' = t_ports t"
  proof (cases "has_op t ds Op_port_change_mtu")
    case True
    show ?thesis
      by (rule until_err_inv [where J = "\<lambda>u. tree_dbs_ok u \<and> t_ports u = t_ports t",
            OF _ _ run [unfolded dsa_switch_mtu_def, simplified True, simplified]])
        (use ok tree_call_keeps in \<open>auto split: if_splits dest: tree_call_keeps [rotated]\<close>)
  qed (use ok run in \<open>auto simp: dsa_switch_mtu_def\<close>)
qed

lemma towards_keeps [handler_keeps]:
  "keeps_dbs (dsa_switch_fdb_add drv ds dp addr vid db)" "keeps_dbs (dsa_switch_fdb_del drv ds dp addr vid db)"
  "keeps_dbs (dsa_switch_mdb_add drv ds dp mdb db)" "keeps_dbs (dsa_switch_mdb_del drv ds dp mdb db)"
  by (rule keeps_dbsI;
      auto simp: dsa_switch_fdb_add_def dsa_switch_fdb_del_def dsa_switch_mdb_add_def dsa_switch_mdb_del_def
        bind_eq_Some_conv dest: towards_mem fdb_add.on_port_tree [rotated 2] fdb_del.on_port_tree [rotated 2]
        mdb_add.on_port_tree [rotated 2] mdb_del.on_port_tree [rotated 2] split: if_splits)+

lemma lag_fdb_keeps [handler_keeps]:
  "keeps_dbs (dsa_switch_lag_fdb_add drv ds lag addr vid db)"
  "keeps_dbs (dsa_switch_lag_fdb_del drv ds lag addr vid db)"
  by (rule keeps_dbsI; auto simp: dsa_switch_lag_fdb_add_def dsa_switch_lag_fdb_del_def
      dest: lag_keeps [rotated] split: if_splits)+

lemma ports_loop_keeps [handler_keeps]:
  "keeps_dbs (dsa_switch_host_mdb_add drv ds dp mdb db)" "keeps_dbs (dsa_switch_host_mdb_del drv ds dp mdb db)"
  "keeps_dbs (dsa_switch_vlan_add drv ds dp vlan)" "keeps_dbs (dsa_switch_vlan_del drv ds dp vlan)"
  "keeps_dbs (dsa_switch_host_vlan_add drv ds dp vlan)" "keeps_dbs (dsa_switch_host_vlan_del drv ds dp vlan)"
  by (rule keeps_dbsI;
      auto simp: dsa_switch_host_mdb_add_def dsa_switch_host_mdb_del_def dsa_switch_vlan_add_def
        dsa_switch_vlan_del_def dsa_switch_host_vlan_add_def dsa_switch_host_vlan_del_def
        dest: mdb_add.ports_loop_tree [rotated] mdb_del.ports_loop_tree [rotated]
        vlan_add.ports_loop_tree [rotated] vlan_del.ports_loop_tree [rotated] split: if_splits)+

lemma host_fdb_port_keeps:
  assumes "\<And>t r t'. tree_dbs_ok t \<Longrightarrow> p \<in> set (t_ports t) \<Longrightarrow> on_port f p t = Some (r, t') \<Longrightarrow>
      tree_dbs_ok t' \<and> t_ports t' = t_ports t"
    and "\<And>t r t' q. tree_dbs_ok t \<Longrightarrow> on_lag g q t = Some (r, t') \<Longrightarrow> tree_dbs_ok t' \<and> t_ports t' = t_ports t"
    and "tree_dbs_ok t" "p \<in> set (t_ports t)" "host_fdb_port f g target p t = Some (r, t')"
  shows "tree_dbs_ok t' \<and> t_ports t' = t_ports t"
  using assms(3-5) assms(1) [of t r t'] assms(2) [of t _ r t']
  by (auto simp: host_fdb_port_def bind_eq_Some_conv split: if_splits)

lemma host_fdb_loop_keeps:
  assumes "\<And>p t r t'. tree_dbs_ok t \<Longrightarrow> p \<in> set (t_ports t) \<Longrightarrow> on_port f p t = Some (r, t') \<Longrightarrow>
      tree_dbs_ok t' \<and> t_ports t' = t_ports t"
    and "\<And>t r t' q. tree_dbs_ok t \<Longrightarrow> on_lag g q t = Some (r, t') \<Longrightarrow> tree_dbs_ok t' \<and> t_ports t' = t_ports t"
    and ok: "tree_dbs_ok t" and run: "until_err (host_fdb_port f g target) (dsa_switch_ports t ds) t = Some (r, t')"
  shows "tree_dbs_ok t' \<and> t_ports t' = t_ports t"
proof (rule until_err_inv [where J = "\<lambda>u. tree_dbs_ok u \<and> t_ports u = t_ports t", OF _ _ run])
  fix p u e u' assume p: "p \<in> set (dsa_switch_ports t ds)" and u: "tree_dbs_ok u \<and> t_ports u = t_ports t"
    and step: "host_fdb_port f g target p u = Some (e, u')"
  have "tree_dbs_ok u" "p \<in> set (t_ports u)" using p u by (auto simp: dsa_switch_ports_def)
  from host_fdb_port_keeps [OF assms(1,2) this step] u
  show "tree_dbs_ok u' \<and> t_ports u' = t_ports t" by simp
qed (use ok in simp)

lemma host_fdb_keeps [handler_keeps]:
  "keeps_dbs (dsa_switch_host_fdb_add drv ds dp addr vid db)"
  "keeps_dbs (dsa_switch_host_fdb_del drv ds dp addr vid db)"
proof -
  show "keeps_dbs (dsa_switch_host_fdb_add drv ds dp addr vid db)"
  proof (rule keeps_dbsI)
    fix t r t' assume ok: "tree_dbs_ok t" and run: "dsa_switch_host_fdb_add drv ds dp addr vid db t = Some (r, t')"
    show "tree_dbs_ok t' \<and> t_ports t' = t_ports t"
    proof (cases "has_op t ds Op_port_fdb_add")
      case True
      from host_fdb_loop_keeps [OF fdb_add.on_port_tree lag_keeps(1) ok
        run [unfolded dsa_switch_host_fdb_add_def, simplified True, simplified]]
      show ?thesis by simp
    qed (use ok run in \<open>auto simp: dsa_switch_host_fdb_add_def\<close>)
  qed
  show "keeps_dbs (dsa_switch_host_fdb_del drv ds dp addr vid db)"
  proof (rule keeps_dbsI)
    fix t r t' assume ok: "tree_dbs_ok t" and run: "dsa_switch_host_fdb_del drv ds dp addr vid db t = Some (r, t')"
    show "tree_dbs_ok t' \<and> t_ports t' = t_ports t"
    proof (cases "has_op t ds Op_port_fdb_del")
      case True
      from host_fdb_loop_keeps [OF fdb_del.on_port_tree lag_keeps(2) ok
        run [unfolded dsa_switch_host_fdb_del_def, simplified True, simplified]]
      show ?thesis by simp
    qed (use ok run in \<open>auto simp: dsa_switch_host_fdb_del_def\<close>)
  qed
qed

lemma tagger_keeps [handler_keeps]:
  "keeps_dbs (dsa_switch_connect_tag_proto drv ds ops)"
  "keeps_dbs (dsa_switch_disconnect_tag_proto drv ds ops)"
proof -
  show "keeps_dbs (dsa_switch_disconnect_tag_proto drv ds ops)"
    by (rule keeps_dbsI)
      (use tagger_event_keeps in \<open>auto simp: dsa_switch_disconnect_tag_proto_def split: if_splits\<close>)
  show "keeps_dbs (dsa_switch_connect_tag_proto drv ds ops)"
  proof (rule keeps_dbsI)
    fix t r t' assume ok: "tree_dbs_ok t" and run: "dsa_switch_connect_tag_proto drv ds ops t = Some (r, t')"
    define u where "u = (if tag_connect ops then snd (tagger_event drv (Tagger_connect (tag_proto ops) ds) t) else t)"
    have u: "tree_dbs_ok u" "t_ports u = t_ports t"
      using ok tagger_event_keeps [OF ok, of "Tagger_connect (tag_proto ops) ds" drv] by (simp_all add: u_def)
    have "t' = u \<or> (\<exists>e v. tree_call drv ds Op_connect_tag_protocol (Connect_tag_protocol ds (tag_proto ops)) u = Some (e, v) \<and>
        (t' = v \<or> t' = snd (tagger_event drv (Tagger_disconnect (tag_proto ops) ds) v)))"
      using run
      by (auto simp: dsa_switch_connect_tag_proto_def u_def Let_def bind_eq_Some_conv
          split: if_splits prod.splits)
    then show "tree_dbs_ok t' \<and> t_ports t' = t_ports t"
      using u tree_call_keeps [of "Connect_tag_protocol ds (tag_proto ops)" u drv ds]
        tagger_event_keeps [of _ "Tagger_disconnect (tag_proto ops) ds" drv] by fastforce
  qed
qed

lemma event_keeps: "keeps_dbs (dsa_switch_event drv e ds)"
  by (cases e) (simp_all add: dsa_switch_event_def handler_keeps)

lemma notify_keeps: "keeps_dbs (dsa_tree_notify drv e)"
proof (rule keeps_dbsI)
  fix t r t' assume ok: "tree_dbs_ok t" and run: "dsa_tree_notify drv e t = Some (r, t')"
  show "tree_dbs_ok t' \<and> t_ports t' = t_ports t"
    by (rule until_err_inv [where J = "\<lambda>u. tree_dbs_ok u \<and> t_ports u = t_ports t",
          OF _ _ run [unfolded dsa_tree_notify_def]])
      (use ok keeps_dbsD [OF event_keeps] in auto)
qed

subsection \<open>Properties\<close>

text \<open>The trees that a sequence of notifications can lead to, whatever the outcome of each.\<close>

inductive dsa_reach :: "driver \<Rightarrow> dsa_tree \<Rightarrow> dsa_tree \<Rightarrow> bool" for drv t where
  reach_refl: "dsa_reach drv t t"
| reach_step: "dsa_reach drv t u \<Longrightarrow> dsa_tree_notify drv e u = Some (r, v) \<Longrightarrow> dsa_reach drv t v"

lemma reach_keeps: "dsa_reach drv t t' \<Longrightarrow> tree_dbs_ok t \<Longrightarrow> tree_dbs_ok t' \<and> t_ports t' = t_ports t"
  by (induction rule: dsa_reach.induct) (use keeps_dbsD [OF notify_keeps] in auto)

lemma fdb_part_installed:
  "fdb_part dp es l \<Longrightarrow> installed (fdb_calls (port_ds dp) (port_index dp)) l k \<longleftrightarrow> (\<exists>a\<in>set es. mac_key a = k)"
  unfolding fdb_part_def db_hw_ok_def by (cases k) (simp add: mac.refs_pos_iff)

lemma vlan_part_installed:
  "vlan_part dp es l \<Longrightarrow> installed (vlan_calls (port_ds dp) (port_index dp)) l k \<longleftrightarrow> (\<exists>v\<in>set es. v_vid v = k)"
  unfolding vlan_part_def db_hw_ok_def by (elim conjE) (simp add: vlan.refs_pos_iff)

text \<open>
  No sequence of notifications, successful or not and with any driver, damages the
  databases: in every tree reached from a tree with consistent databases they are consistent,
  and on every CPU port and link the hardware holds an address or a VLAN exactly when the
  list of the port has an entry for it.
\<close>

theorem notifications_keep_databases:
  assumes "dsa_reach drv t t'" "tree_dbs_ok t"
  shows "tree_dbs_ok t' \<and>
    (\<forall>p\<in>set (t_ports t). let dp = t_dp t' p in shared_port dp \<longrightarrow>
       (\<forall>k. installed (fdb_calls (port_ds dp) (port_index dp)) (t_log t') k \<longleftrightarrow>
            (\<exists>a\<in>set (port_fdbs dp). mac_key a = k)) \<and>
       (\<forall>vid. installed (vlan_calls (port_ds dp) (port_index dp)) (t_log t') vid \<longleftrightarrow>
            (\<exists>v\<in>set (port_vlans dp). v_vid v = vid)))"
proof -
  have ok: "tree_dbs_ok t'" "t_ports t' = t_ports t" using reach_keeps [OF assms] by auto
  have "(\<forall>k. installed (fdb_calls (port_ds dp) (port_index dp)) (t_log t') k \<longleftrightarrow> (\<exists>a\<in>set (port_fdbs dp). mac_key a = k)) \<and>
      (\<forall>vid. installed (vlan_calls (port_ds dp) (port_index dp)) (t_log t') vid \<longleftrightarrow> (\<exists>v\<in>set (port_vlans dp). v_vid v = vid))"
    if "p \<in> set (t_ports t)" "shared_port dp" "dp = t_dp t' p" for p dp
  proof -
    have "port_dbs_ok dp (t_log t')" using ok that by (simp add: tree_dbs_ok_def)
    then have "fdb_part dp (port_fdbs dp) (t_log t')" "vlan_part dp (port_vlans dp) (t_log t')"
      using that by (simp_all add: port_dbs_ok_def)
    then show ?thesis by (auto simp: fdb_part_installed vlan_part_installed)
  qed
  then show ?thesis using ok by (auto simp: Let_def)
qed

text \<open>The board, with a switch driver that implements the forwarding database.\<close>

definition fdb_board :: dsa_tree where
  "fdb_board = board_tree\<lparr>t_ds := (\<lambda>_. board_switch\<lparr>sw_ops := {Op_port_fdb_add, Op_port_fdb_del}\<rparr>),
     t_dp := (\<lambda>p. (board_port p)\<lparr>port_cpu_dp := if p < 4 then Some 4 else None\<rparr>)\<rparr>"

lemma fdb_board_sel [simp]:
  "t_ports fdb_board = [0, 1, 2, 3, 4]" "t_nh fdb_board = [0]" "t_log fdb_board = []"
  "port_ds (t_dp fdb_board p) = 0" "port_index (t_dp fdb_board p) = p"
  "port_cpu_dp (t_dp fdb_board p) = (if p < 4 then Some 4 else None)"
  "port_fdbs (t_dp fdb_board p) = []" "port_mdbs (t_dp fdb_board p) = []" "port_vlans (t_dp fdb_board p) = []"
  "port_cpu_in_lag (t_dp fdb_board p) = False" "sw_ops (t_ds fdb_board d) = {Op_port_fdb_add, Op_port_fdb_del}"
  "sw_ageing_time_min (t_ds fdb_board d) = 0" "sw_ageing_time_max (t_ds fdb_board d) = 0"
  by (simp_all add: fdb_board_def board_tree_def board_port_def board_switch_def)

lemma fdb_board_types [simp]: "shared_port (t_dp fdb_board p) = (\<not> p < 4)"
  by (simp add: fdb_board_def board_port_def shared_port_def dsa_port_is_cpu_def dsa_port_is_dsa_def)

lemma fdb_board_ok: "tree_dbs_ok fdb_board"
  by (simp add: tree_dbs_ok_def port_dbs_ok_def fdb_part_def mdb_part_def vlan_part_def db_ok_empty inj_on_def)

theorem notifications_keep_databases_witness:
  "\<exists>t'. dsa_tree_notify (\<lambda>_ _. 0) (DSA_NOTIFIER_AGEING_TIME 7) fdb_board = Some (0, t') \<and> tree_dbs_ok t'"
proof -
  have run: "dsa_tree_notify (\<lambda>_ _. 0) (DSA_NOTIFIER_AGEING_TIME 7) fdb_board = Some (0, fdb_board)"
    by (simp add: dsa_tree_notify_def dsa_switch_event_def dsa_switch_ageing_time_def has_op_def Let_def)
  have "dsa_reach (\<lambda>_ _. 0) fdb_board fdb_board" using run by (intro reach_step [OF reach_refl])
  from notifications_keep_databases [OF this fdb_board_ok] run show ?thesis by auto
qed

lemma foldl_min_nonzero:
  fixes f :: "'p \<Rightarrow> nat"
  defines "g \<equiv> (\<lambda>a p. let d = f p in if d \<noteq> 0 \<and> d < a then d else a)"
  shows "foldl g a ps = Min (insert a {d \<in> f ` set ps. d \<noteq> 0})"
proof (induction ps arbitrary: a)
  case (Cons p ps)
  define S where "S = {d \<in> f ` set ps. d \<noteq> 0}"
  have g: "g a p = (if f p = 0 then a else min a (f p))" by (auto simp: g_def Let_def)
  have sets: "{d \<in> f ` set (p # ps). d \<noteq> 0} = (if f p = 0 then S else insert (f p) S)"
    by (auto simp: S_def)
  have fin: "finite S" by (simp add: S_def)
  have "foldl g a (p # ps) = Min (insert (g a p) S)" by (simp add: Cons.IH S_def)
  also have "\<dots> = Min (insert a (if f p = 0 then S else insert (f p) S))"
    using fin by (cases "S = {}") (auto simp: g min.assoc)
  finally show ?case by (simp only: sets)
qed simp

lemma fastest_ageing_min:
  "dsa_switch_fastest_ageing_time t ds a =
     Min (insert a {d \<in> (\<lambda>p. port_ageing_time (t_dp t p)) ` set (dsa_switch_ports t ds). d \<noteq> 0})"
  unfolding dsa_switch_fastest_ageing_time_def by (rule foldl_min_nonzero)

text \<open>
  The ageing time the driver is told is the smallest of the requested one and of those of
  the ports of the switch that have one; a request outside the limits of the switch is
  refused with \<open>-ERANGE\<close> before the driver hears of it.
\<close>

theorem ageing_time_programmed:
  fixes t drv ds a
  defines "sw \<equiv> t_ds t ds"
    and "m \<equiv> Min (insert a {d \<in> (\<lambda>p. port_ageing_time (t_dp t p)) ` set (dsa_switch_ports t ds). d \<noteq> 0})"
  shows "dsa_switch_ageing_time drv ds a t =
    (if (sw_ageing_time_min sw \<noteq> 0 \<and> a < sw_ageing_time_min sw) \<or> (sw_ageing_time_max sw \<noteq> 0 \<and> sw_ageing_time_max sw < a)
     then Some (ERANGE_NEG, t)
     else if Op_set_ageing_time \<in> sw_ops sw
     then Some (drv (Set_ageing_time ds m) (t_log t),
                t\<lparr>t_log := (Set_ageing_time ds m, drv (Set_ageing_time ds m) (t_log t)) # t_log t\<rparr>)
     else Some (0, t))"
  unfolding sw_def m_def fastest_ageing_min [symmetric]
  by (simp add: dsa_switch_ageing_time_def has_op_def tree_call_def call_op_def dsa_event_def Let_def)

text \<open>A tree of one switch, a port of it and the CPU port that serves the port.\<close>

definition local_cpu :: "dsa_tree \<Rightarrow> ds_ptr \<Rightarrow> dp_ptr \<Rightarrow> dp_ptr \<Rightarrow> bool" where
  "local_cpu t ds p c \<longleftrightarrow>
     t_nh t = [ds] \<and> distinct (t_ports t) \<and> c \<in> set (t_ports t) \<and> p \<noteq> c \<and>
     port_ds (t_dp t c) = ds \<and> port_ds (t_dp t p) = ds \<and> port_cpu_dp (t_dp t p) = Some c \<and>
     \<not> port_cpu_in_lag (t_dp t p) \<and>
     inj_on (\<lambda>p. (port_ds (t_dp t p), port_index (t_dp t p))) (set (t_ports t))"

lemma first_pos_append:
  "first_pos P es = None \<Longrightarrow> P e \<Longrightarrow> first_pos P (es @ [e]) = Some (length es)"
  by (induction es) (auto split: if_splits)

lemma host_match_local:
  "local_cpu t ds p c \<Longrightarrow> port_ds (t_dp t q) = ds \<Longrightarrow>
   dsa_port_host_address_match t q p = Some (port_index (t_dp t q) = port_index (t_dp t c))"
  by (simp add: local_cpu_def dsa_port_host_address_match_def dsa_switch_is_upstream_of_def
      dsa_towards_port_def)

lemma local_cpu_on_port:
  assumes "local_cpu t ds p c" "on_port f c t = Some (r, t')"
    and "\<And>dp l r dp' l'. f dp l = Some (r, dp', l') \<Longrightarrow>
      port_ds dp' = port_ds dp \<and> port_index dp' = port_index dp"
  shows "local_cpu t' ds p c \<and> t_ports t' = t_ports t \<and>
    (\<forall>q. port_ds (t_dp t' q) = port_ds (t_dp t q) \<and> port_index (t_dp t' q) = port_index (t_dp t q))"
proof -
  obtain dp l where run: "f (t_dp t c) (t_log t) = Some (r, dp, l)"
    and t': "t' = (upd_port c (\<lambda>_. dp) t)\<lparr>t_log := l\<rparr>"
    using assms(2) by (auto simp: on_port_def bind_eq_Some_conv)
  note k = assms(3) [OF run]
  have same: "port_ds (t_dp t' q) = port_ds (t_dp t q) \<and> port_index (t_dp t' q) = port_index (t_dp t q)" for q
    using k by (simp add: t' dsa_store)
  have "p \<noteq> c" using assms(1) by (simp add: local_cpu_def)
  then have "t_nh t' = t_nh t" "t_ports t' = t_ports t" "t_dp t' p = t_dp t p"
    by (simp_all add: t' dsa_store)
  then show ?thesis using assms(1) same by (simp add: local_cpu_def)
qed

lemma host_fdb_loop_local:
  assumes loc: "local_cpu t ds p c"
    and keeps: "\<And>dp l r dp' l'. f dp l = Some (r, dp', l') \<Longrightarrow>
      port_ds dp' = port_ds dp \<and> port_index dp' = port_index dp"
  shows "until_err (host_fdb_port f g p) (dsa_switch_ports t ds) t = on_port f c t"
proof -
  have "c \<in> set (dsa_switch_ports t ds)" using loc by (simp add: local_cpu_def dsa_switch_ports_def)
  then obtain xs ys where split: "dsa_switch_ports t ds = xs @ c # ys" by (meson split_list)
  have "distinct (dsa_switch_ports t ds)" using loc by (simp add: local_cpu_def dsa_switch_ports_def)
  then have cs: "c \<notin> set xs" "c \<notin> set ys" using split by auto
  have other: "host_fdb_port f g p q u = Some (0, u)"
    if "q \<in> set (dsa_switch_ports t ds)" "q \<noteq> c" "local_cpu u ds p c" "t_ports u = t_ports t"
      "\<forall>q. port_ds (t_dp u q) = port_ds (t_dp t q) \<and> port_index (t_dp u q) = port_index (t_dp t q)" for q u
  proof -
    have "port_ds (t_dp u q) = ds" "q \<in> set (t_ports t)" using that(1,5) by (auto simp: dsa_switch_ports_def)
    moreover have "port_index (t_dp t q) \<noteq> port_index (t_dp t c)"
      using loc that(1,2) by (auto simp: local_cpu_def dsa_switch_ports_def inj_on_def)
    ultimately show ?thesis using that(3,5) by (simp add: host_fdb_port_def host_match_local)
  qed
  have here: "host_fdb_port f g p c t = on_port f c t"
    using loc host_match_local [OF loc, of c] by (simp add: host_fdb_port_def local_cpu_def)
  have "until_err (host_fdb_port f g p) (xs @ c # ys) t = until_err (host_fdb_port f g p) (c # ys) t"
    using cs split loc by (intro until_err_skip other) auto
  also have "\<dots> = on_port f c t"
  proof (cases "on_port f c t")
    case None
    then show ?thesis by (simp add: here)
  next
    case (Some x)
    obtain r u where x: "x = (r, u)" by (cases x)
    have "until_err (host_fdb_port f g p) (ys @ []) u = Some (0, u)"
      using local_cpu_on_port [OF loc Some [unfolded x] keeps] cs split
      by (subst until_err_skip) (auto intro!: other)
    then show ?thesis using Some x by (simp add: here)
  qed
  finally show ?thesis by (simp add: split)
qed

lemma notify_host_fdb:
  assumes "local_cpu t ds p c"
  shows "has_op t ds Op_port_fdb_add \<Longrightarrow> dsa_tree_notify drv (DSA_NOTIFIER_HOST_FDB_ADD p addr vid db) t =
      on_port (\<lambda>dp. dsa_port_do_fdb_add drv (t_ds t ds) dp addr vid db) c t"
    and "has_op t ds Op_port_fdb_del \<Longrightarrow> dsa_tree_notify drv (DSA_NOTIFIER_HOST_FDB_DEL p addr vid db) t =
      on_port (\<lambda>dp. dsa_port_do_fdb_del drv (t_ds t ds) dp addr vid db) c t"
proof -
  have nh: "t_nh t = [ds]" using assms by (simp add: local_cpu_def)
  show "has_op t ds Op_port_fdb_add \<Longrightarrow> dsa_tree_notify drv (DSA_NOTIFIER_HOST_FDB_ADD p addr vid db) t =
      on_port (\<lambda>dp. dsa_port_do_fdb_add drv (t_ds t ds) dp addr vid db) c t"
    unfolding dsa_tree_notify_def nh until_err_one dsa_switch_event_def
    using host_fdb_loop_local [OF assms] fdb_add.keeps by (simp add: dsa_switch_host_fdb_add_def)
  show "has_op t ds Op_port_fdb_del \<Longrightarrow> dsa_tree_notify drv (DSA_NOTIFIER_HOST_FDB_DEL p addr vid db) t =
      on_port (\<lambda>dp. dsa_port_do_fdb_del drv (t_ds t ds) dp addr vid db) c t"
    unfolding dsa_tree_notify_def nh until_err_one dsa_switch_event_def
    using host_fdb_loop_local [OF assms] fdb_del.keeps by (simp add: dsa_switch_host_fdb_del_def)
qed

text \<open>
  A host address travels to the CPU port and back: on a one-switch tree, adding an address
  on behalf of a user port makes exactly one entry, with one user, on the CPU port that serves
  it, after one allocation and one call to the driver; removing it makes one more call and
  leaves the tree as it was, up to the record of the three events. No other port is asked.
\<close>

theorem host_fdb_roundtrip:
  fixes t drv ds p c addr vid db
  defines "A \<equiv> Port_fdb_add ds (port_index (t_dp t c)) addr vid db"
    and "D \<equiv> Port_fdb_del ds (port_index (t_dp t c)) addr vid db"
    and "e \<equiv> \<lparr>a_addr = addr, a_vid = vid, a_refcount = 1, a_db = db\<rparr>"
  assumes loc: "local_cpu t ds p c" and cpu: "dsa_port_is_cpu (t_dp t c)"
    and ops: "{Op_port_fdb_add, Op_port_fdb_del} \<subseteq> sw_ops (t_ds t ds)"
    and new: "dsa_mac_addr_find (port_fdbs (t_dp t c)) addr vid db = None"
    and drv: "drv Kzalloc (t_log t) = 0" "drv A ((Kzalloc, 0) # t_log t) = 0"
      "drv D ((A, 0) # (Kzalloc, 0) # t_log t) = 0"
  shows "\<exists>t1. dsa_tree_notify drv (DSA_NOTIFIER_HOST_FDB_ADD p addr vid db) t = Some (0, t1) \<and>
    port_fdbs (t_dp t1 c) = port_fdbs (t_dp t c) @ [e] \<and> (\<forall>q. q \<noteq> c \<longrightarrow> t_dp t1 q = t_dp t q) \<and>
    dsa_tree_notify drv (DSA_NOTIFIER_HOST_FDB_DEL p addr vid db) t1 =
      Some (0, t\<lparr>t_log := [(D, 0), (A, 0), (Kzalloc, 0)] @ t_log t\<rparr>)"
proof -
  define dp where "dp = t_dp t c"
  define dp1 where "dp1 = dp\<lparr>port_fdbs := port_fdbs dp @ [e]\<rparr>"
  define t1 where "t1 = (upd_port c (\<lambda>_. dp1) t)\<lparr>t_log := [(A, 0), (Kzalloc, 0)] @ t_log t\<rparr>"
  have sh: "shared_port dp" using cpu by (simp add: dp_def shared_port_def)
  have ds: "port_ds dp = ds" using loc by (simp add: local_cpu_def dp_def)
  have add: "dsa_port_do_fdb_add drv (t_ds t ds) dp addr vid db (t_log t) =
      Some (0, dp1, [(A, 0), (Kzalloc, 0)] @ t_log t)"
    using sh new ops drv
    by (simp add: dsa_port_do_fdb_add_def dp_def [symmetric] db_unfold ds A_def dp1_def e_def)
  have run1: "dsa_tree_notify drv (DSA_NOTIFIER_HOST_FDB_ADD p addr vid db) t = Some (0, t1)"
    using notify_host_fdb(1) [OF loc] ops add
    by (simp add: has_op_def on_port_def dp_def [symmetric] t1_def)
  have none: "first_pos (\<lambda>a. a_addr a = addr \<and> a_vid a = vid \<and> dsa_db_equal (a_db a) db) (port_fdbs dp) = None"
    using new by (simp add: dsa_mac_addr_find_def dp_def)
  have pos: "dsa_mac_addr_find (port_fdbs dp @ [e]) addr vid db = Some (length (port_fdbs dp))"
    unfolding dsa_mac_addr_find_def
    by (rule first_pos_append) (use none in \<open>simp_all add: e_def dsa_db_equal_key\<close>)
  have del: "dsa_port_do_fdb_del drv (t_ds t ds) dp1 addr vid db ([(A, 0), (Kzalloc, 0)] @ t_log t) =
      Some (0, dp, [(D, 0), (A, 0), (Kzalloc, 0)] @ t_log t)"
    using sh pos ops drv
    by (simp add: dsa_port_do_fdb_del_def dp1_def db_unfold ds D_def dp_def [symmetric] list_del_at_def e_def
        refcount_dec_and_test_def)
  have loc1: "local_cpu t1 ds p c"
    using local_cpu_on_port [OF loc, of "\<lambda>dp. dsa_port_do_fdb_add drv (t_ds t ds) dp addr vid db" 0 t1]
      fdb_add.keeps notify_host_fdb(1) [OF loc] ops run1 by (simp add: has_op_def)
  have "dsa_tree_notify drv (DSA_NOTIFIER_HOST_FDB_DEL p addr vid db) t1 =
      Some (0, t\<lparr>t_log := [(D, 0), (A, 0), (Kzalloc, 0)] @ t_log t\<rparr>)"
    using notify_host_fdb(2) [OF loc1] ops del
    by (simp add: has_op_def on_port_def t1_def dsa_store) (simp add: upd_port_def dp_def)
  then show ?thesis using run1 by (auto simp: t1_def dsa_store dp1_def dp_def)
qed

theorem host_fdb_roundtrip_witness:
  "\<exists>t1. dsa_tree_notify (\<lambda>_ _. 0) (DSA_NOTIFIER_HOST_FDB_ADD 2 [1, 2, 3, 4, 5, 6] 7 (DSA_DB_PORT 2)) fdb_board = Some (0, t1) \<and>
     port_fdbs (t_dp t1 4) = [\<lparr>a_addr = [1, 2, 3, 4, 5, 6], a_vid = 7, a_refcount = 1, a_db = DSA_DB_PORT 2\<rparr>]"
proof -
  have "local_cpu fdb_board 0 2 4" by (simp add: local_cpu_def inj_on_def)
  moreover have "dsa_port_is_cpu (t_dp fdb_board 4)"
    by (simp add: fdb_board_def board_port_def dsa_port_is_cpu_def)
  ultimately show ?thesis
    using host_fdb_roundtrip [of fdb_board 0 2 4 "[1, 2, 3, 4, 5, 6]" 7 "DSA_DB_PORT 2" "\<lambda>_ _. 0"]
    by (auto simp: dsa_mac_addr_find_def)
qed

text \<open>
  The addresses of a LAG whose ports are on two switches are counted in one list for the
  whole tree, but installed per switch: when the address is added, the second switch finds the
  entry of the first and is never asked to install it; when it is removed, the first switch
  only counts down and the second one is asked to remove what it does not have. The first
  switch keeps the address.
\<close>

theorem lag_fdb_two_switches:
  fixes t d0 d1 lag addr vid db
  defines "dev \<equiv> lag_dev (t_lag t lag)"
  assumes nh: "t_nh t = [d0, d1]" "d0 \<noteq> d1"
    and ops: "{Op_lag_fdb_add, Op_lag_fdb_del} \<subseteq> sw_ops (t_ds t d0)" "{Op_lag_fdb_add, Op_lag_fdb_del} \<subseteq> sw_ops (t_ds t d1)"
    and ports: "\<exists>q\<in>set (dsa_switch_ports t d0). dsa_port_offloads_lag t (t_dp t q) lag"
      "\<exists>q\<in>set (dsa_switch_ports t d1). dsa_port_offloads_lag t (t_dp t q) lag"
    and new: "lag_fdbs (t_lag t lag) = []"
  shows "\<exists>t1 t2. dsa_tree_notify (\<lambda>_ _. 0) (DSA_NOTIFIER_LAG_FDB_ADD lag addr vid db) t = Some (0, t1) \<and>
    t_log t1 = [(Lag_fdb_add d0 dev addr vid db, 0), (Kzalloc, 0)] @ t_log t \<and>
    dsa_tree_notify (\<lambda>_ _. 0) (DSA_NOTIFIER_LAG_FDB_DEL lag addr vid db) t1 = Some (0, t2) \<and>
    t_log t2 = (Lag_fdb_del d1 dev addr vid db, 0) # t_log t1 \<and> lag_fdbs (t_lag t2 lag) = [] \<and>
    installed (lag_fdb_calls d0 dev) (t_log t2) (addr_key (addr, vid, db)) \<and>
    (\<not> installed (lag_fdb_calls d1 dev) (t_log t) (addr_key (addr, vid, db)) \<longrightarrow>
     \<not> installed (lag_fdb_calls d1 dev) (t_log t1) (addr_key (addr, vid, db)))"
proof -
  define x where "x n = \<lparr>a_addr = addr, a_vid = vid, a_refcount = n, a_db = db\<rparr>" for n
  define u where "u es l = (upd_lag lag (lag_fdbs_update (\<lambda>_. es)) t)\<lparr>t_log := l\<rparr>" for es l
  have sel: "t_lag (u es l) lag = (t_lag t lag)\<lparr>lag_fdbs := es\<rparr>" "t_log (u es l) = l"
    "t_ds (u es l) = t_ds t" "t_nh (u es l) = [d0, d1]" for es l
    using nh by (simp_all add: u_def dsa_store) (simp_all add: upd_lag_def)
  have ports': "\<exists>q\<in>set (dsa_switch_ports (u es l) d). dsa_port_offloads_lag (u es l) (t_dp (u es l) q) lag"
    if "d \<in> {d0, d1}" for es l d
    using ports that
    by (auto simp: u_def dsa_store dsa_switch_ports_def dsa_port_offloads_lag_def dsa_port_lag_dev_get_def
        split: option.splits)
  have upd: "(upd_lag lag (\<lambda>_. (t_lag t lag)\<lparr>lag_fdbs := es'\<rparr>) (u es l))\<lparr>t_log := l'\<rparr> = u es' l'" for es l es' l'
    by (simp add: u_def upd_lag_def)
  have "(t_lag t lag)\<lparr>lag_fdbs := []\<rparr> = t_lag t lag" using new by (cases "t_lag t lag") simp
  then have t: "t = u [] (t_log t)" by (simp add: u_def upd_lag_def)
  have find: "dsa_mac_addr_find [x n] addr vid db = Some 0" "dsa_mac_addr_find [] addr vid db = None" for n
    by (simp_all add: dsa_mac_addr_find_def x_def dsa_db_equal_key)
  define A where "A = (Lag_fdb_add d0 dev addr vid db, 0 :: int)"
  define D where "D = (Lag_fdb_del d1 dev addr vid db, 0 :: int)"
  note step = dsa_switch_event_def dsa_switch_lag_fdb_add_def dsa_switch_lag_fdb_del_def has_op_def sel ports'
    on_lag_def dsa_switch_do_lag_fdb_add_def dsa_switch_do_lag_fdb_del_def find db_unfold upd
  have one: "dsa_switch_event (\<lambda>_ _. 0) (DSA_NOTIFIER_LAG_FDB_ADD lag addr vid db) d0 (u [] l) =
      Some (0, u [x 1] (A # (Kzalloc, 0) # l))" for l
    using ops by (simp add: step A_def dev_def) (simp add: x_def)
  have two: "dsa_switch_event (\<lambda>_ _. 0) (DSA_NOTIFIER_LAG_FDB_ADD lag addr vid db) d1 (u [x 1] l) =
      Some (0, u [x 2] l)" for l
    using ops by (simp add: step) (simp add: x_def refcount_inc_def REFCOUNT_MAX_def numeral_2_eq_2)
  have three: "dsa_switch_event (\<lambda>_ _. 0) (DSA_NOTIFIER_LAG_FDB_DEL lag addr vid db) d0 (u [x 2] l) =
      Some (0, u [x 1] l)" for l
    using ops by (simp add: step) (simp add: x_def refcount_dec_and_test_def REFCOUNT_MAX_def upd)
  have four: "dsa_switch_event (\<lambda>_ _. 0) (DSA_NOTIFIER_LAG_FDB_DEL lag addr vid db) d1 (u [x 1] l) =
      Some (0, u [] (D # l))" for l
    using ops by (simp add: step D_def dev_def)
      (simp add: x_def refcount_dec_and_test_def list_del_at_def upd call_op_def dsa_event_def)
  have add: "dsa_tree_notify (\<lambda>_ _. 0) (DSA_NOTIFIER_LAG_FDB_ADD lag addr vid db) t =
      Some (0, u [x 2] (A # (Kzalloc, 0) # t_log t))"
    by (subst t) (simp add: dsa_tree_notify_def sel one two [unfolded One_nat_def])
  have del: "dsa_tree_notify (\<lambda>_ _. 0) (DSA_NOTIFIER_LAG_FDB_DEL lag addr vid db) (u [x 2] l) =
      Some (0, u [] (D # l))" for l
    by (simp add: dsa_tree_notify_def sel three four [unfolded One_nat_def])
  show ?thesis
    using add del nh(2)
    by (auto simp: sel A_def D_def installed_def lag_fdb_calls_def)
qed

definition two_switches :: dsa_tree where
  "two_switches = board_tree\<lparr>t_ports := [0, 1], t_nh := [0, 1],
     t_dp := (\<lambda>p. (board_port 0)\<lparr>port_ds := p, port_lag := Some 9\<rparr>),
     t_ds := (\<lambda>d. board_switch\<lparr>sw_index := d, sw_ops := {Op_lag_fdb_add, Op_lag_fdb_del}\<rparr>)\<rparr>"

theorem lag_fdb_two_switches_witness:
  "\<exists>t1 t2. dsa_tree_notify (\<lambda>_ _. 0) (DSA_NOTIFIER_LAG_FDB_ADD 9 [1, 2, 3, 4, 5, 6] 7 (DSA_DB_LAG 0 1)) two_switches = Some (0, t1) \<and>
     dsa_tree_notify (\<lambda>_ _. 0) (DSA_NOTIFIER_LAG_FDB_DEL 9 [1, 2, 3, 4, 5, 6] 7 (DSA_DB_LAG 0 1)) t1 = Some (0, t2) \<and>
     installed (lag_fdb_calls 0 0) (t_log t2) (addr_key ([1, 2, 3, 4, 5, 6], 7, DSA_DB_LAG 0 1))"
  using lag_fdb_two_switches [of two_switches 0 1 9 "[1, 2, 3, 4, 5, 6]" 7 "DSA_DB_LAG 0 1"]
  by (auto simp: two_switches_def board_tree_def board_switch_def board_port_def dsa_switch_ports_def
      dsa_port_offloads_lag_def dsa_port_lag_dev_get_def)

end
