(* ===== verification/Dsa_Port.thy ===== *)
theory Dsa_Port
  imports Dsa_Switch
begin

section \<open>The port layer\<close>

text \<open>
  What the user interfaces ask of a port (\<open>DSA/port.c\<close>): addresses, VLANs, bridge flags, the
  spanning tree state, ageing time, MTU, ring protocols. Most requests become a notification of
  the tree (\<open>Dsa_Switch\<close>), the others a call of the driver of the port's switch. Membership in
  bridges and LAGs, which needs the VLAN lists of the user interfaces, follows in \<open>Dsa_Bridge\<close>.

  The bridge layer and the network devices of the kernel are the record \<open>stack_env\<close>: the settings
  of bridges and devices that the code asks for, constant while a request runs. Calls that change
  something in the kernel are events of the log (\<open>kernel_call\<close>) with an answer, like the calls
  of the driver. Messages to the user are left out.

  The theorems: a port that stops forwarding forgets what it has learned, exactly when it has to;
  flags that are refused leave the port as it was; requests of the port layer change
  nothing in the tree but the databases they are about.
\<close>

subsection \<open>The kernel around the port\<close>

record stack_env =
  br_vlan_enabled :: "netdev \<Rightarrow> bool"
  br_mst_enabled :: "netdev \<Rightarrow> bool"
  br_mst_get_info :: "netdev option \<Rightarrow> u16 \<Rightarrow> int \<times> u16 list"
  br_mst_get_state :: "netdev option \<Rightarrow> u16 \<Rightarrow> int \<times> u8"
  br_port_flag_is_set :: "netdev \<Rightarrow> nat \<Rightarrow> bool"
  br_port_get_stp_state :: "netdev \<Rightarrow> u8"
  br_get_ageing_time :: "netdev \<Rightarrow> nat"
  clock_t_to_msecs :: "nat \<Rightarrow> nat"
  br_vlan_get_info :: "netdev option \<Rightarrow> u16 \<Rightarrow> int"
  vlan_uppers :: "netdev \<Rightarrow> u16 list"
  vlan_filter :: "netdev \<Rightarrow> u16 list"
  synced_uc :: "netdev \<Rightarrow> u8 list list"
  synced_mc :: "netdev \<Rightarrow> u8 list list"
  unicast_flt :: "netdev \<Rightarrow> bool"
  master_bridge :: "netdev \<Rightarrow> netdev option"
  dsa_ptr :: "netdev \<Rightarrow> dp_ptr option"
  netif_is_lag_master :: "netdev \<Rightarrow> bool"

abbreviation (input) BR_LEARNING_BIT :: nat where "BR_LEARNING_BIT \<equiv> 5"
abbreviation (input) BR_FLOOD_BIT :: nat where "BR_FLOOD_BIT \<equiv> 6"
abbreviation (input) BR_MCAST_FLOOD_BIT :: nat where "BR_MCAST_FLOOD_BIT \<equiv> 11"
abbreviation (input) BR_BCAST_FLOOD_BIT :: nat where "BR_BCAST_FLOOD_BIT \<equiv> 14"
abbreviation (input) BR_PORT_LOCKED_BIT :: nat where "BR_PORT_LOCKED_BIT \<equiv> 21"

abbreviation (input) BR_STATE_DISABLED :: u8 where "BR_STATE_DISABLED \<equiv> 0"
abbreviation (input) BR_STATE_LISTENING :: u8 where "BR_STATE_LISTENING \<equiv> 1"
abbreviation (input) BR_STATE_LEARNING :: u8 where "BR_STATE_LEARNING \<equiv> 2"
abbreviation (input) BR_STATE_FORWARDING :: u8 where "BR_STATE_FORWARDING \<equiv> 3"
abbreviation (input) BR_STATE_BLOCKING :: u8 where "BR_STATE_BLOCKING \<equiv> 4"

definition BIT32 :: "nat \<Rightarrow> u32" where
  "BIT32 n = push_bit n 1"

definition port_op ::
  "driver \<Rightarrow> dsa_op \<Rightarrow> dsa_port_call \<Rightarrow> dp_ptr \<Rightarrow> dsa_tree \<Rightarrow> (int \<times> dsa_tree) option" where
  "port_op drv f c dp t =
     (let p = t_dp t dp in tree_call drv (port_ds p) f (Port_call (port_ds p) (port_index p) c) t)"

definition port_has_op :: "dsa_tree \<Rightarrow> dp_ptr \<Rightarrow> dsa_op \<Rightarrow> bool" where
  "port_has_op t dp f \<longleftrightarrow> has_op t (port_ds (t_dp t dp)) f"

definition kernel_event :: "driver \<Rightarrow> kernel_call \<Rightarrow> dsa_tree \<Rightarrow> int \<times> dsa_tree" where
  "kernel_event drv c t = (let (r, l) = dsa_event drv (Kernel_call c) (t_log t) in (r, t\<lparr>t_log := l\<rparr>))"

text \<open>An optional operation of the driver: without it the request is not supported.\<close>

definition port_op_or ::
  "driver \<Rightarrow> dsa_op \<Rightarrow> dsa_port_call \<Rightarrow> dp_ptr \<Rightarrow> dsa_tree \<Rightarrow> (int \<times> dsa_tree) option" where
  "port_op_or drv f c dp t =
     (if \<not> port_has_op t dp f then Some (EOPNOTSUPP_NEG, t) else port_op drv f c dp t)"

lemma bind_pairE:
  assumes "Option.bind m (\<lambda>(a, b). f a b) = Some y"
  obtains a b where "m = Some (a, b)" "f a b = Some y"
  using assms by (auto simp: bind_eq_Some_conv)

subsection \<open>Devices of a port\<close>

definition dsa_port_to_conduit :: "dsa_tree \<Rightarrow> dp_ptr \<Rightarrow> netdev option" where
  "dsa_port_to_conduit t dp = do {
     cpu_dp \<leftarrow> port_cpu_dp (t_dp t dp);
     if port_cpu_in_lag (t_dp t dp) then dsa_port_lag_dev_get t (t_dp t cpu_dp)
     else port_netdev (t_dp t cpu_dp)}"

definition dsa_port_to_bridge_port :: "dsa_tree \<Rightarrow> dp_ptr \<Rightarrow> netdev option" where
  "dsa_port_to_bridge_port t dp =
     (let p = t_dp t dp in
      if port_bridge p = None then None
      else (case port_lag p of
              Some lag \<Rightarrow> Some (lag_dev (t_lag t lag))
            | None \<Rightarrow> (case port_hsr_dev p of Some hsr \<Rightarrow> Some hsr | None \<Rightarrow> port_netdev p)))"

definition dsa_port_notify ::
  "driver \<Rightarrow> dp_ptr \<Rightarrow> dsa_notifier \<Rightarrow> dsa_tree \<Rightarrow> (int \<times> dsa_tree) option" where
  "dsa_port_notify drv dp e t = dsa_tree_notify drv e t"

subsection \<open>Ageing and spanning tree\<close>

definition dsa_port_notify_bridge_fdb_flush :: "driver \<Rightarrow> dp_ptr \<Rightarrow> u16 \<Rightarrow> dsa_tree \<Rightarrow> dsa_tree" where
  "dsa_port_notify_bridge_fdb_flush drv dp vid t =
     (case dsa_port_to_bridge_port t dp of
        None \<Rightarrow> t
      | Some brport_dev \<Rightarrow> snd (kernel_event drv (Fdb_flush_to_bridge brport_dev vid) t))"

definition dsa_port_fast_age :: "driver \<Rightarrow> dp_ptr \<Rightarrow> dsa_tree \<Rightarrow> dsa_tree option" where
  "dsa_port_fast_age drv dp t =
     (if \<not> port_has_op t dp Op_port_fast_age then Some t
      else do {
        (_, t) \<leftarrow> port_op drv Op_port_fast_age Port_fast_age dp t;
        Some (dsa_port_notify_bridge_fdb_flush drv dp 0 t)})"

definition dsa_port_vlan_fast_age :: "driver \<Rightarrow> dp_ptr \<Rightarrow> u16 \<Rightarrow> dsa_tree \<Rightarrow> (int \<times> dsa_tree) option" where
  "dsa_port_vlan_fast_age drv dp vid t =
     (if \<not> port_has_op t dp Op_port_vlan_fast_age then Some (EOPNOTSUPP_NEG, t)
      else do {
        (err, t) \<leftarrow> port_op drv Op_port_vlan_fast_age (Port_vlan_fast_age vid) dp t;
        Some (err, if err = 0 then dsa_port_notify_bridge_fdb_flush drv dp vid t else t)})"

definition dsa_port_msti_fast_age ::
  "stack_env \<Rightarrow> driver \<Rightarrow> dp_ptr \<Rightarrow> u16 \<Rightarrow> dsa_tree \<Rightarrow> (int \<times> dsa_tree) option" where
  "dsa_port_msti_fast_age env drv dp msti t =
     (let (err, vids) = br_mst_get_info env (dsa_port_bridge_dev_get t (t_dp t dp)) msti in
      if err \<noteq> 0 then Some (err, t) else until_err (dsa_port_vlan_fast_age drv dp) vids t)"

definition dsa_port_can_configure_learning :: "driver \<Rightarrow> dp_ptr \<Rightarrow> dsa_tree \<Rightarrow> (bool \<times> dsa_tree) option" where
  "dsa_port_can_configure_learning drv dp t =
     (if \<not> port_has_op t dp Op_port_bridge_flags \<or> \<not> port_has_op t dp Op_port_pre_bridge_flags
      then Some (False, t)
      else do {
        (err, t) \<leftarrow> port_op drv Op_port_pre_bridge_flags
          (Port_pre_bridge_flags (BIT32 BR_LEARNING_BIT) 0) dp t;
        Some (err = 0, t)})"

definition dsa_port_supports_hwtstamp :: "driver \<Rightarrow> dp_ptr \<Rightarrow> dsa_tree \<Rightarrow> (bool \<times> dsa_tree) option" where
  "dsa_port_supports_hwtstamp drv dp t =
     (if \<not> port_has_op t dp Op_port_hwtstamp_get \<or> \<not> port_has_op t dp Op_port_hwtstamp_set
      then Some (False, t)
      else do {
        (err, t) \<leftarrow> port_op drv Op_port_hwtstamp_get Port_hwtstamp_get dp t;
        Some (err \<noteq> EOPNOTSUPP_NEG, t)})"

text \<open>The test of both state changes: from a state that learns to one that does not.\<close>

definition stops_learning :: "u8 \<Rightarrow> u8 \<Rightarrow> bool" where
  "stops_learning old new \<longleftrightarrow>
     (old = BR_STATE_LEARNING \<or> old = BR_STATE_FORWARDING) \<and>
     (new = BR_STATE_DISABLED \<or> new = BR_STATE_BLOCKING \<or> new = BR_STATE_LISTENING)"

definition dsa_port_set_state ::
  "driver \<Rightarrow> dp_ptr \<Rightarrow> u8 \<Rightarrow> bool \<Rightarrow> dsa_tree \<Rightarrow> (int \<times> dsa_tree) option" where
  "dsa_port_set_state drv dp state do_fast_age t =
     (if \<not> port_has_op t dp Op_port_stp_state_set then Some (EOPNOTSUPP_NEG, t)
      else do {
        (_, t) \<leftarrow> port_op drv Op_port_stp_state_set (Port_stp_state_set state) dp t;
        (can, t) \<leftarrow> dsa_port_can_configure_learning drv dp t;
        t \<leftarrow> (if (\<not> can \<or> (do_fast_age \<and> port_learning (t_dp t dp))) \<and>
                  stops_learning (port_stp_state (t_dp t dp)) state
              then dsa_port_fast_age drv dp t else Some t);
        Some (0, upd_port dp (\<lambda>p. p\<lparr>port_stp_state := state\<rparr>) t)})"

definition dsa_port_set_state_now ::
  "driver \<Rightarrow> dp_ptr \<Rightarrow> u8 \<Rightarrow> bool \<Rightarrow> dsa_tree \<Rightarrow> dsa_tree option" where
  "dsa_port_set_state_now drv dp state do_fast_age t = do {
     (err, t) \<leftarrow> dsa_port_set_state drv dp state do_fast_age t;
     Some t}"

definition dsa_port_set_mst_state ::
  "stack_env \<Rightarrow> driver \<Rightarrow> dp_ptr \<Rightarrow> u16 \<Rightarrow> u8 \<Rightarrow> dsa_tree \<Rightarrow> (int \<times> dsa_tree) option" where
  "dsa_port_set_mst_state env drv dp msti state t =
     (if \<not> port_has_op t dp Op_port_mst_state_set then Some (EOPNOTSUPP_NEG, t)
      else
        (let (err, prev_state) = br_mst_get_state env (dsa_port_to_bridge_port t dp) msti in
         if err \<noteq> 0 then Some (err, t)
         else do {
           (err, t) \<leftarrow> port_op drv Op_port_mst_state_set (Port_mst_state_set msti state) dp t;
           if err \<noteq> 0 then Some (err, t)
           else if \<not> (port_learning (t_dp t dp) \<and> stops_learning prev_state state) then Some (0, t)
           else do {
             (err, t) \<leftarrow> dsa_port_msti_fast_age env drv dp msti t;
             Some (0, t)}}))"

subsection \<open>Enabling a port\<close>

definition dsa_port_enable_rt :: "driver \<Rightarrow> dp_ptr \<Rightarrow> dsa_tree \<Rightarrow> (int \<times> dsa_tree) option" where
  "dsa_port_enable_rt drv dp t = do {
     (err, t) \<leftarrow> (if port_has_op t dp Op_port_enable then port_op drv Op_port_enable Port_enable dp t
                  else Some (0, t));
     if err \<noteq> 0 then Some (err, t)
     else do {
       t \<leftarrow> (if port_bridge (t_dp t dp) = None then dsa_port_set_state_now drv dp BR_STATE_FORWARDING False t
             else Some t);
       Some (0, if port_pl (t_dp t dp) then snd (kernel_event drv (Phylink_start dp) t) else t)}}"

definition dsa_port_disable_rt :: "driver \<Rightarrow> dp_ptr \<Rightarrow> dsa_tree \<Rightarrow> dsa_tree option" where
  "dsa_port_disable_rt drv dp t =
     (let t = (if port_pl (t_dp t dp) then snd (kernel_event drv (Phylink_stop dp) t) else t) in do {
        t \<leftarrow> (if port_bridge (t_dp t dp) = None then dsa_port_set_state_now drv dp BR_STATE_DISABLED False t
              else Some t);
        if port_has_op t dp Op_port_disable then do {
          (_, t) \<leftarrow> port_op drv Op_port_disable Port_disable dp t;
          Some t}
        else Some t})"

text \<open>\<open>dsa_port_enable\<close> and \<open>dsa_port_disable\<close> wrap these in the network lock.\<close>

definition dsa_port_enable :: "driver \<Rightarrow> dp_ptr \<Rightarrow> dsa_tree \<Rightarrow> (int \<times> dsa_tree) option" where
  "dsa_port_enable drv dp t = dsa_port_enable_rt drv dp t"

definition dsa_port_disable :: "driver \<Rightarrow> dp_ptr \<Rightarrow> dsa_tree \<Rightarrow> dsa_tree option" where
  "dsa_port_disable drv dp t = dsa_port_disable_rt drv dp t"

subsection \<open>Bridge flags, ageing time and multiple spanning trees\<close>

definition dsa_port_skip_vlan_configuration :: "stack_env \<Rightarrow> dsa_tree \<Rightarrow> dp_ptr \<Rightarrow> bool" where
  "dsa_port_skip_vlan_configuration env t dp =
     (case dsa_port_bridge_dev_get t (t_dp t dp) of
        None \<Rightarrow> False
      | Some br \<Rightarrow> \<not> sw_configure_vlan_while_not_filtering (t_ds t (port_ds (t_dp t dp))) \<and> \<not> br_vlan_enabled env br)"

definition dsa_port_ageing_time :: "stack_env \<Rightarrow> driver \<Rightarrow> dp_ptr \<Rightarrow> nat \<Rightarrow> dsa_tree \<Rightarrow> (int \<times> dsa_tree) option" where
  "dsa_port_ageing_time env drv dp ageing_clock t =
     (let ageing_time = clock_t_to_msecs env ageing_clock in do {
        (err, t) \<leftarrow> dsa_port_notify drv dp (DSA_NOTIFIER_AGEING_TIME ageing_time) t;
        if err \<noteq> 0 then Some (err, t)
        else Some (0, upd_port dp (\<lambda>p. p\<lparr>port_ageing_time := ageing_time\<rparr>) t)})"

definition dsa_port_supports_mst :: "driver \<Rightarrow> dp_ptr \<Rightarrow> dsa_tree \<Rightarrow> (bool \<times> dsa_tree) option" where
  "dsa_port_supports_mst drv dp t =
     (if port_has_op t dp Op_vlan_msti_set \<and> port_has_op t dp Op_port_mst_state_set \<and>
         port_has_op t dp Op_port_vlan_fast_age
      then dsa_port_can_configure_learning drv dp t else Some (False, t))"

definition dsa_port_mst_enable :: "driver \<Rightarrow> dp_ptr \<Rightarrow> bool \<Rightarrow> dsa_tree \<Rightarrow> (int \<times> dsa_tree) option" where
  "dsa_port_mst_enable drv dp on t =
     (if \<not> on then Some (0, t)
      else do {
        (sup, t) \<leftarrow> dsa_port_supports_mst drv dp t;
        Some (if sup then 0 else EINVAL_NEG, t)})"

definition dsa_port_pre_bridge_flags ::
  "driver \<Rightarrow> dp_ptr \<Rightarrow> u32 \<Rightarrow> u32 \<Rightarrow> dsa_tree \<Rightarrow> (int \<times> dsa_tree) option" where
  "dsa_port_pre_bridge_flags drv dp msk val t =
     (if \<not> port_has_op t dp Op_port_pre_bridge_flags then Some (EINVAL_NEG, t)
      else port_op drv Op_port_pre_bridge_flags (Port_pre_bridge_flags msk val) dp t)"

definition dsa_port_bridge_flags ::
  "driver \<Rightarrow> dp_ptr \<Rightarrow> u32 \<Rightarrow> u32 \<Rightarrow> dsa_tree \<Rightarrow> (int \<times> dsa_tree) option" where
  "dsa_port_bridge_flags drv dp msk val t =
     (if \<not> port_has_op t dp Op_port_bridge_flags then Some (EOPNOTSUPP_NEG, t)
      else do {
        (err, t) \<leftarrow> port_op drv Op_port_bridge_flags (Port_bridge_flags msk val) dp t;
        if err \<noteq> 0 then Some (err, t)
        else if msk AND BIT32 BR_LEARNING_BIT \<noteq> 0 then
          (let learning = (val AND BIT32 BR_LEARNING_BIT \<noteq> 0); p = t_dp t dp in
           if learning = port_learning p then Some (0, t)
           else do {
             t \<leftarrow> (if (port_learning p \<and> \<not> learning) \<and>
                       (port_stp_state p = BR_STATE_LEARNING \<or> port_stp_state p = BR_STATE_FORWARDING)
                   then dsa_port_fast_age drv dp t else Some t);
             Some (0, upd_port dp (\<lambda>p. p\<lparr>port_learning := learning\<rparr>) t)})
        else Some (0, t)})"

definition dsa_port_set_host_flood :: "driver \<Rightarrow> dp_ptr \<Rightarrow> bool \<Rightarrow> bool \<Rightarrow> dsa_tree \<Rightarrow> dsa_tree option" where
  "dsa_port_set_host_flood drv dp uc mc t =
     (if port_has_op t dp Op_port_set_host_flood
      then map_option snd (port_op drv Op_port_set_host_flood (Port_set_host_flood uc mc) dp t)
      else Some t)"

definition dsa_port_vlan_msti ::
  "driver \<Rightarrow> dp_ptr \<Rightarrow> u16 \<Rightarrow> u16 \<Rightarrow> dsa_tree \<Rightarrow> (int \<times> dsa_tree) option" where
  "dsa_port_vlan_msti drv dp vid msti t =
     (if \<not> port_has_op t dp Op_vlan_msti_set then Some (EOPNOTSUPP_NEG, t)
      else do {
        br \<leftarrow> dsa_port_bridge_dev_get t (t_dp t dp);
        port_op drv Op_vlan_msti_set (Vlan_msti_set br vid msti) dp t})"

text \<open>The five flags a port takes over from the bridge, in the order of their bits.\<close>

definition brport_flags :: "nat list" where
  "brport_flags = [BR_LEARNING_BIT, BR_FLOOD_BIT, BR_MCAST_FLOOD_BIT, BR_BCAST_FLOOD_BIT, BR_PORT_LOCKED_BIT]"

definition dsa_port_inherit_brport_flags ::
  "stack_env \<Rightarrow> driver \<Rightarrow> dp_ptr \<Rightarrow> dsa_tree \<Rightarrow> (int \<times> dsa_tree) option" where
  "dsa_port_inherit_brport_flags env drv dp t = do {
     brport_dev \<leftarrow> dsa_port_to_bridge_port t dp;
     until_err (\<lambda>flag t. do {
         (err, t) \<leftarrow> dsa_port_bridge_flags drv dp (BIT32 flag)
           (if br_port_flag_is_set env brport_dev flag then BIT32 flag else 0) t;
         Some (if err = EOPNOTSUPP_NEG then 0 else err, t)}) brport_flags t}"

definition dsa_port_clear_brport_flags :: "driver \<Rightarrow> dp_ptr \<Rightarrow> dsa_tree \<Rightarrow> dsa_tree option" where
  "dsa_port_clear_brport_flags drv dp t =
     (let val = BIT32 BR_FLOOD_BIT OR BIT32 BR_MCAST_FLOOD_BIT OR BIT32 BR_BCAST_FLOOD_BIT in
      fold_opt (\<lambda>t flag. map_option snd (dsa_port_bridge_flags drv dp (BIT32 flag) (val AND BIT32 flag) t))
        t brport_flags)"

subsection \<open>Addresses\<close>

text \<open>
  The database of a bridged port. Without isolation of forwarding databases all bridges share
  number 0.
\<close>

definition bridge_db :: "dsa_tree \<Rightarrow> dp_ptr \<Rightarrow> dsa_db option" where
  "bridge_db t dp = do {
     b \<leftarrow> port_bridge (t_dp t dp);
     Some (DSA_DB_BRIDGE (br_dev (t_br t b))
       (if sw_fdb_isolation (t_ds t (port_ds (t_dp t dp))) then br_num (t_br t b) else 0))}"

definition dsa_port_mtu_change :: "driver \<Rightarrow> dp_ptr \<Rightarrow> int \<Rightarrow> dsa_tree \<Rightarrow> (int \<times> dsa_tree) option" where
  "dsa_port_mtu_change drv dp new_mtu t = dsa_port_notify drv dp (DSA_NOTIFIER_MTU dp new_mtu) t"

definition dsa_port_fdb_add :: "driver \<Rightarrow> dp_ptr \<Rightarrow> u8 list \<Rightarrow> u16 \<Rightarrow> dsa_tree \<Rightarrow> (int \<times> dsa_tree) option" where
  "dsa_port_fdb_add drv dp addr vid t = do {
     db \<leftarrow> bridge_db t dp;
     dsa_port_notify drv dp (DSA_NOTIFIER_FDB_ADD dp addr vid db) t}"

definition dsa_port_fdb_del :: "driver \<Rightarrow> dp_ptr \<Rightarrow> u8 list \<Rightarrow> u16 \<Rightarrow> dsa_tree \<Rightarrow> (int \<times> dsa_tree) option" where
  "dsa_port_fdb_del drv dp addr vid t = do {
     db \<leftarrow> bridge_db t dp;
     dsa_port_notify drv dp (DSA_NOTIFIER_FDB_DEL dp addr vid db) t}"

definition dsa_port_host_fdb_add ::
  "driver \<Rightarrow> dp_ptr \<Rightarrow> u8 list \<Rightarrow> u16 \<Rightarrow> dsa_db \<Rightarrow> dsa_tree \<Rightarrow> (int \<times> dsa_tree) option" where
  "dsa_port_host_fdb_add drv dp addr vid db t = dsa_port_notify drv dp (DSA_NOTIFIER_HOST_FDB_ADD dp addr vid db) t"

definition dsa_port_standalone_host_fdb_add ::
  "driver \<Rightarrow> dp_ptr \<Rightarrow> u8 list \<Rightarrow> u16 \<Rightarrow> dsa_tree \<Rightarrow> (int \<times> dsa_tree) option" where
  "dsa_port_standalone_host_fdb_add drv dp addr vid t = dsa_port_host_fdb_add drv dp addr vid (DSA_DB_PORT dp) t"

definition dsa_port_bridge_host_fdb_add ::
  "stack_env \<Rightarrow> driver \<Rightarrow> dp_ptr \<Rightarrow> u8 list \<Rightarrow> u16 \<Rightarrow> dsa_tree \<Rightarrow> (int \<times> dsa_tree) option" where
  "dsa_port_bridge_host_fdb_add env drv dp addr vid t = do {
     conduit \<leftarrow> dsa_port_to_conduit t dp;
     db \<leftarrow> bridge_db t dp;
     let (err, t) = (if unicast_flt env conduit then kernel_event drv (Dev_uc_add conduit addr) t else (0, t));
     if err \<noteq> 0 then Some (err, t) else dsa_port_host_fdb_add drv dp addr vid db t}"

definition dsa_port_host_fdb_del ::
  "driver \<Rightarrow> dp_ptr \<Rightarrow> u8 list \<Rightarrow> u16 \<Rightarrow> dsa_db \<Rightarrow> dsa_tree \<Rightarrow> (int \<times> dsa_tree) option" where
  "dsa_port_host_fdb_del drv dp addr vid db t = dsa_port_notify drv dp (DSA_NOTIFIER_HOST_FDB_DEL dp addr vid db) t"

definition dsa_port_standalone_host_fdb_del ::
  "driver \<Rightarrow> dp_ptr \<Rightarrow> u8 list \<Rightarrow> u16 \<Rightarrow> dsa_tree \<Rightarrow> (int \<times> dsa_tree) option" where
  "dsa_port_standalone_host_fdb_del drv dp addr vid t = dsa_port_host_fdb_del drv dp addr vid (DSA_DB_PORT dp) t"

definition dsa_port_bridge_host_fdb_del ::
  "stack_env \<Rightarrow> driver \<Rightarrow> dp_ptr \<Rightarrow> u8 list \<Rightarrow> u16 \<Rightarrow> dsa_tree \<Rightarrow> (int \<times> dsa_tree) option" where
  "dsa_port_bridge_host_fdb_del env drv dp addr vid t = do {
     conduit \<leftarrow> dsa_port_to_conduit t dp;
     db \<leftarrow> bridge_db t dp;
     let (err, t) = (if unicast_flt env conduit then kernel_event drv (Dev_uc_del conduit addr) t else (0, t));
     if err \<noteq> 0 then Some (err, t) else dsa_port_host_fdb_del drv dp addr vid db t}"

definition dsa_port_lag_fdb_add :: "driver \<Rightarrow> dp_ptr \<Rightarrow> u8 list \<Rightarrow> u16 \<Rightarrow> dsa_tree \<Rightarrow> (int \<times> dsa_tree) option" where
  "dsa_port_lag_fdb_add drv dp addr vid t = do {
     db \<leftarrow> bridge_db t dp;
     lag \<leftarrow> port_lag (t_dp t dp);
     dsa_port_notify drv dp (DSA_NOTIFIER_LAG_FDB_ADD lag addr vid db) t}"

definition dsa_port_lag_fdb_del :: "driver \<Rightarrow> dp_ptr \<Rightarrow> u8 list \<Rightarrow> u16 \<Rightarrow> dsa_tree \<Rightarrow> (int \<times> dsa_tree) option" where
  "dsa_port_lag_fdb_del drv dp addr vid t = do {
     db \<leftarrow> bridge_db t dp;
     lag \<leftarrow> port_lag (t_dp t dp);
     dsa_port_notify drv dp (DSA_NOTIFIER_LAG_FDB_DEL lag addr vid db) t}"

definition dsa_port_fdb_dump :: "driver \<Rightarrow> dp_ptr \<Rightarrow> dsa_tree \<Rightarrow> (int \<times> dsa_tree) option" where
  "dsa_port_fdb_dump drv dp t = port_op_or drv Op_port_fdb_dump Port_fdb_dump dp t"

subsection \<open>Multicast groups and VLANs\<close>

definition dsa_port_mdb_add ::
  "driver \<Rightarrow> dp_ptr \<Rightarrow> switchdev_obj_port_mdb \<Rightarrow> dsa_tree \<Rightarrow> (int \<times> dsa_tree) option" where
  "dsa_port_mdb_add drv dp mdb t = do {
     db \<leftarrow> bridge_db t dp;
     dsa_port_notify drv dp (DSA_NOTIFIER_MDB_ADD dp mdb db) t}"

definition dsa_port_mdb_del ::
  "driver \<Rightarrow> dp_ptr \<Rightarrow> switchdev_obj_port_mdb \<Rightarrow> dsa_tree \<Rightarrow> (int \<times> dsa_tree) option" where
  "dsa_port_mdb_del drv dp mdb t = do {
     db \<leftarrow> bridge_db t dp;
     dsa_port_notify drv dp (DSA_NOTIFIER_MDB_DEL dp mdb db) t}"

definition dsa_port_host_mdb_add ::
  "driver \<Rightarrow> dp_ptr \<Rightarrow> switchdev_obj_port_mdb \<Rightarrow> dsa_db \<Rightarrow> dsa_tree \<Rightarrow> (int \<times> dsa_tree) option" where
  "dsa_port_host_mdb_add drv dp mdb db t = dsa_port_notify drv dp (DSA_NOTIFIER_HOST_MDB_ADD dp mdb db) t"

definition dsa_port_standalone_host_mdb_add ::
  "driver \<Rightarrow> dp_ptr \<Rightarrow> switchdev_obj_port_mdb \<Rightarrow> dsa_tree \<Rightarrow> (int \<times> dsa_tree) option" where
  "dsa_port_standalone_host_mdb_add drv dp mdb t = dsa_port_host_mdb_add drv dp mdb (DSA_DB_PORT dp) t"

definition dsa_port_bridge_host_mdb_add ::
  "driver \<Rightarrow> dp_ptr \<Rightarrow> switchdev_obj_port_mdb \<Rightarrow> dsa_tree \<Rightarrow> (int \<times> dsa_tree) option" where
  "dsa_port_bridge_host_mdb_add drv dp mdb t = do {
     conduit \<leftarrow> dsa_port_to_conduit t dp;
     db \<leftarrow> bridge_db t dp;
     let (err, t) = kernel_event drv (Dev_mc_add conduit (mdb_addr mdb)) t;
     if err \<noteq> 0 then Some (err, t) else dsa_port_host_mdb_add drv dp mdb db t}"

definition dsa_port_host_mdb_del ::
  "driver \<Rightarrow> dp_ptr \<Rightarrow> switchdev_obj_port_mdb \<Rightarrow> dsa_db \<Rightarrow> dsa_tree \<Rightarrow> (int \<times> dsa_tree) option" where
  "dsa_port_host_mdb_del drv dp mdb db t = dsa_port_notify drv dp (DSA_NOTIFIER_HOST_MDB_DEL dp mdb db) t"

definition dsa_port_standalone_host_mdb_del ::
  "driver \<Rightarrow> dp_ptr \<Rightarrow> switchdev_obj_port_mdb \<Rightarrow> dsa_tree \<Rightarrow> (int \<times> dsa_tree) option" where
  "dsa_port_standalone_host_mdb_del drv dp mdb t = dsa_port_host_mdb_del drv dp mdb (DSA_DB_PORT dp) t"

definition dsa_port_bridge_host_mdb_del ::
  "driver \<Rightarrow> dp_ptr \<Rightarrow> switchdev_obj_port_mdb \<Rightarrow> dsa_tree \<Rightarrow> (int \<times> dsa_tree) option" where
  "dsa_port_bridge_host_mdb_del drv dp mdb t = do {
     conduit \<leftarrow> dsa_port_to_conduit t dp;
     db \<leftarrow> bridge_db t dp;
     let (err, t) = kernel_event drv (Dev_mc_del conduit (mdb_addr mdb)) t;
     if err \<noteq> 0 then Some (err, t) else dsa_port_host_mdb_del drv dp mdb db t}"

definition dsa_port_vlan_add ::
  "driver \<Rightarrow> dp_ptr \<Rightarrow> switchdev_obj_port_vlan \<Rightarrow> dsa_tree \<Rightarrow> (int \<times> dsa_tree) option" where
  "dsa_port_vlan_add drv dp vlan t = dsa_port_notify drv dp (DSA_NOTIFIER_VLAN_ADD dp vlan) t"

definition dsa_port_vlan_del ::
  "driver \<Rightarrow> dp_ptr \<Rightarrow> switchdev_obj_port_vlan \<Rightarrow> dsa_tree \<Rightarrow> (int \<times> dsa_tree) option" where
  "dsa_port_vlan_del drv dp vlan t = dsa_port_notify drv dp (DSA_NOTIFIER_VLAN_DEL dp vlan) t"

definition dsa_port_host_vlan_add ::
  "driver \<Rightarrow> dp_ptr \<Rightarrow> switchdev_obj_port_vlan \<Rightarrow> dsa_tree \<Rightarrow> (int \<times> dsa_tree) option" where
  "dsa_port_host_vlan_add drv dp vlan t = do {
     conduit \<leftarrow> dsa_port_to_conduit t dp;
     (err, t) \<leftarrow> dsa_port_notify drv dp (DSA_NOTIFIER_HOST_VLAN_ADD dp vlan) t;
     if err \<noteq> 0 \<and> err \<noteq> EOPNOTSUPP_NEG then Some (err, t)
     else Some (err, snd (kernel_event drv (Vlan_vid_add conduit (obj_vid vlan)) t))}"

definition dsa_port_host_vlan_del ::
  "driver \<Rightarrow> dp_ptr \<Rightarrow> switchdev_obj_port_vlan \<Rightarrow> dsa_tree \<Rightarrow> (int \<times> dsa_tree) option" where
  "dsa_port_host_vlan_del drv dp vlan t = do {
     conduit \<leftarrow> dsa_port_to_conduit t dp;
     (err, t) \<leftarrow> dsa_port_notify drv dp (DSA_NOTIFIER_HOST_VLAN_DEL dp vlan) t;
     if err \<noteq> 0 \<and> err \<noteq> EOPNOTSUPP_NEG then Some (err, t)
     else Some (err, snd (kernel_event drv (Vlan_vid_del conduit (obj_vid vlan)) t))}"

subsection \<open>Ring protocols\<close>

definition dsa_port_mrp_add :: "driver \<Rightarrow> dp_ptr \<Rightarrow> nat \<Rightarrow> dsa_tree \<Rightarrow> (int \<times> dsa_tree) option" where
  "dsa_port_mrp_add drv dp mrp t = port_op_or drv Op_port_mrp_add (Port_mrp_add mrp) dp t"

definition dsa_port_mrp_del :: "driver \<Rightarrow> dp_ptr \<Rightarrow> nat \<Rightarrow> dsa_tree \<Rightarrow> (int \<times> dsa_tree) option" where
  "dsa_port_mrp_del drv dp mrp t = port_op_or drv Op_port_mrp_del (Port_mrp_del mrp) dp t"

definition dsa_port_mrp_add_ring_role :: "driver \<Rightarrow> dp_ptr \<Rightarrow> nat \<Rightarrow> dsa_tree \<Rightarrow> (int \<times> dsa_tree) option" where
  "dsa_port_mrp_add_ring_role drv dp mrp t =
     port_op_or drv Op_port_mrp_add_ring_role (Port_mrp_add_ring_role mrp) dp t"

definition dsa_port_mrp_del_ring_role :: "driver \<Rightarrow> dp_ptr \<Rightarrow> nat \<Rightarrow> dsa_tree \<Rightarrow> (int \<times> dsa_tree) option" where
  "dsa_port_mrp_del_ring_role drv dp mrp t =
     port_op_or drv Op_port_mrp_del_ring_role (Port_mrp_del_ring_role mrp) dp t"

definition dsa_port_hsr_join :: "driver \<Rightarrow> dp_ptr \<Rightarrow> netdev \<Rightarrow> dsa_tree \<Rightarrow> (int \<times> dsa_tree) option" where
  "dsa_port_hsr_join drv dp hsr t =
     (if \<not> port_has_op t dp Op_port_hsr_join then Some (EOPNOTSUPP_NEG, t)
      else do {
        (err, t) \<leftarrow> port_op drv Op_port_hsr_join (Port_hsr_join hsr) dp
          (upd_port dp (\<lambda>p. p\<lparr>port_hsr_dev := Some hsr\<rparr>) t);
        Some (err, if err \<noteq> 0 then upd_port dp (\<lambda>p. p\<lparr>port_hsr_dev := None\<rparr>) t else t)})"

definition dsa_port_hsr_leave :: "driver \<Rightarrow> dp_ptr \<Rightarrow> netdev \<Rightarrow> dsa_tree \<Rightarrow> dsa_tree option" where
  "dsa_port_hsr_leave drv dp hsr t =
     (let t = upd_port dp (\<lambda>p. p\<lparr>port_hsr_dev := None\<rparr>) t in
      if port_has_op t dp Op_port_hsr_leave
      then map_option snd (port_op drv Op_port_hsr_leave (Port_hsr_leave hsr) dp t)
      else Some t)"

subsection \<open>What a notification cannot change\<close>

text \<open>
  The tree without the databases of its shared ports and LAGs and without the log. A notification,
  and every operation of the port layer built from notifications and calls, keeps it.
\<close>

definition bare_port :: "dsa_port_obj \<Rightarrow> dsa_port_obj" where
  "bare_port p = (if shared_port p then p\<lparr>port_fdbs := [], port_mdbs := [], port_vlans := []\<rparr> else p)"

definition bare_lag :: "dsa_lag \<Rightarrow> dsa_lag" where
  "bare_lag g = g\<lparr>lag_fdbs := []\<rparr>"

definition bare :: "dsa_tree \<Rightarrow> dsa_tree" where
  "bare t = t\<lparr>t_dp := (\<lambda>p. bare_port (t_dp t p)), t_lag := (\<lambda>g. bare_lag (t_lag t g)), t_log := []\<rparr>"

definition keeps_bare :: "(dsa_tree \<Rightarrow> ('r \<times> dsa_tree) option) \<Rightarrow> bool" where
  "keeps_bare g \<longleftrightarrow> (\<forall>t r t'. g t = Some (r, t') \<longrightarrow> bare t' = bare t)"

named_theorems bare_rules \<open>operations that keep the tree without its databases\<close>

lemma keeps_bareI: "(\<And>t r t'. g t = Some (r, t') \<Longrightarrow> bare t' = bare t) \<Longrightarrow> keeps_bare g"
  unfolding keeps_bare_def by blast

lemma keeps_bareD: "keeps_bare g \<Longrightarrow> g t = Some (r, t') \<Longrightarrow> bare t' = bare t"
  unfolding keeps_bare_def by blast

lemma bare_log [simp]: "bare (t\<lparr>t_log := l\<rparr>) = bare t"
  by (simp add: bare_def)

lemma bare_sel:
  "t_ports (bare t) = t_ports t" "t_ds (bare t) = t_ds t" "t_br (bare t) = t_br t" "t_lags (bare t) = t_lags t"
  "t_bridges (bare t) = t_bridges t" "t_nh (bare t) = t_nh t" "t_net (bare t) = t_net t"
  "t_work (bare t) = t_work t" "t_dp (bare t) p = bare_port (t_dp t p)" "t_lag (bare t) g = bare_lag (t_lag t g)"
  by (simp_all add: bare_def)

lemma bare_port_sel [simp]:
  "port_netdev (bare_port p) = port_netdev p" "port_ds (bare_port p) = port_ds p"
  "port_index (bare_port p) = port_index p" "port_type (bare_port p) = port_type p"
  "port_cpu_dp (bare_port p) = port_cpu_dp p" "port_stp_state (bare_port p) = port_stp_state p"
  "port_vlan_filtering (bare_port p) = port_vlan_filtering p" "port_learning (bare_port p) = port_learning p"
  "port_cpu_in_lag (bare_port p) = port_cpu_in_lag p" "port_bridge (bare_port p) = port_bridge p"
  "port_lag (bare_port p) = port_lag p" "port_hsr_dev (bare_port p) = port_hsr_dev p"
  "port_pl (bare_port p) = port_pl p" "port_lag_tx_enabled (bare_port p) = port_lag_tx_enabled p"
  by (simp_all add: bare_port_def)

lemma bare_lag_sel [simp]:
  "lag_dev (bare_lag g) = lag_dev g" "lag_id (bare_lag g) = lag_id g" "lag_refcount (bare_lag g) = lag_refcount g"
  by (simp_all add: bare_lag_def)

lemma bare_upd_port_gen:
  "(\<And>x. bare_port (f x) = f (bare_port x)) \<Longrightarrow> bare (upd_port p f t) = upd_port p f (bare t)"
  by (simp add: bare_def upd_port_def fun_eq_iff)

lemma bare_upd_port:
  "bare (upd_port p (\<lambda>x. x\<lparr>port_stp_state := a\<rparr>) t) = upd_port p (\<lambda>x. x\<lparr>port_stp_state := a\<rparr>) (bare t)"
  "bare (upd_port p (\<lambda>x. x\<lparr>port_learning := b\<rparr>) t) = upd_port p (\<lambda>x. x\<lparr>port_learning := b\<rparr>) (bare t)"
  "bare (upd_port p (\<lambda>x. x\<lparr>port_vlan_filtering := b\<rparr>) t) = upd_port p (\<lambda>x. x\<lparr>port_vlan_filtering := b\<rparr>) (bare t)"
  "bare (upd_port p (\<lambda>x. x\<lparr>port_ageing_time := n\<rparr>) t) = upd_port p (\<lambda>x. x\<lparr>port_ageing_time := n\<rparr>) (bare t)"
  by (rule bare_upd_port_gen, simp add: bare_port_def shared_port_def dsa_port_is_cpu_def dsa_port_is_dsa_def)+

lemma keeps_bare_call [bare_rules]: "keeps_bare (tree_call drv ds f c)"
  by (rule keeps_bareI) (auto simp: tree_call_def bind_eq_Some_conv)

lemma keeps_bare_until [bare_rules]: "(\<And>p. keeps_bare (f p)) \<Longrightarrow> keeps_bare (until_err f ps)"
proof (rule keeps_bareI)
  fix t r t' assume f: "\<And>p. keeps_bare (f p)" and run: "until_err f ps t = Some (r, t')"
  show "bare t' = bare t"
    by (rule until_err_inv [where J = "\<lambda>u. bare u = bare t", OF _ _ run]) (use keeps_bareD [OF f] in auto)
qed

lemma on_port_bare:
  assumes "\<And>dp l r dp' l'. f dp l = Some (r, dp', l') \<Longrightarrow> bare_port dp' = bare_port dp"
  shows "keeps_bare (on_port f p)"
proof (rule keeps_bareI)
  fix t r t' assume "on_port f p t = Some (r, t')"
  then obtain dp l where f: "f (t_dp t p) (t_log t) = Some (r, dp, l)"
    and t': "t' = (upd_port p (\<lambda>_. dp) t)\<lparr>t_log := l\<rparr>"
    by (auto simp: on_port_def bind_eq_Some_conv)
  from assms [OF f] have "(\<lambda>q. bare_port (if q = p then dp else t_dp t q)) = (\<lambda>q. bare_port (t_dp t q))"
    by (auto simp: fun_eq_iff)
  then show "bare t' = bare t" by (simp add: t' bare_def upd_port_def fun_upd_def)
qed

lemma on_lag_bare:
  assumes "\<And>g l r g' l'. f g l = Some (r, g', l') \<Longrightarrow> bare_lag g' = bare_lag g"
  shows "keeps_bare (on_lag f p)"
proof (rule keeps_bareI)
  fix t r t' assume "on_lag f p t = Some (r, t')"
  then obtain g l where f: "f (t_lag t p) (t_log t) = Some (r, g, l)"
    and t': "t' = (upd_lag p (\<lambda>_. g) t)\<lparr>t_log := l\<rparr>"
    by (auto simp: on_lag_def bind_eq_Some_conv)
  from assms [OF f] have "(\<lambda>q. bare_lag (if q = p then g else t_lag t q)) = (\<lambda>q. bare_lag (t_lag t q))"
    by (auto simp: fun_eq_iff)
  then show "bare t' = bare t" by (simp add: t' bare_def upd_lag_def fun_upd_def)
qed

lemma shared_port_bare [simp]: "shared_port (bare_port p) = shared_port p"
  by (simp add: bare_port_def shared_port_def dsa_port_is_cpu_def dsa_port_is_dsa_def)

lemma bare_port_lists [simp]:
  "shared_port p \<Longrightarrow> bare_port (p\<lparr>port_fdbs := x\<rparr>) = bare_port p"
  "shared_port p \<Longrightarrow> bare_port (p\<lparr>port_mdbs := x\<rparr>) = bare_port p"
  "shared_port p \<Longrightarrow> bare_port (p\<lparr>port_vlans := y\<rparr>) = bare_port p" "bare_lag (g\<lparr>lag_fdbs := x\<rparr>) = bare_lag g"
  by (simp_all add: bare_port_def bare_lag_def)

lemma do_add_bare:
  "dsa_port_do_fdb_add drv ds dp addr vid db l = Some (r, dp', l') \<Longrightarrow> bare_port dp' = bare_port dp"
  "dsa_port_do_mdb_add drv ds dp mdb db l = Some (r, dp', l') \<Longrightarrow> bare_port dp' = bare_port dp"
  "dsa_port_do_vlan_add drv ds dp vlan l = Some (r, dp', l') \<Longrightarrow> bare_port dp' = bare_port dp"
proof -
  show "dsa_port_do_fdb_add drv ds dp addr vid db l = Some (r, dp', l') \<Longrightarrow> bare_port dp' = bare_port dp"
    by (cases "shared_port dp") (auto simp: fdb_add_ref, auto simp: dsa_port_do_fdb_add_def Let_def bind_eq_Some_conv)
  show "dsa_port_do_mdb_add drv ds dp mdb db l = Some (r, dp', l') \<Longrightarrow> bare_port dp' = bare_port dp"
    by (cases "shared_port dp") (auto simp: mdb_add_ref, auto simp: dsa_port_do_mdb_add_def Let_def bind_eq_Some_conv)
  show "dsa_port_do_vlan_add drv ds dp vlan l = Some (r, dp', l') \<Longrightarrow> bare_port dp' = bare_port dp"
    by (cases "shared_port dp \<and> \<not> obj_changed vlan")
      (auto simp: vlan_add_ref, auto simp: dsa_port_do_vlan_add_def Let_def bind_eq_Some_conv split: if_splits)
qed

lemma do_del_bare:
  "dsa_port_do_fdb_del drv ds dp addr vid db l = Some (r, dp', l') \<Longrightarrow> bare_port dp' = bare_port dp"
  "dsa_port_do_mdb_del drv ds dp mdb db l = Some (r, dp', l') \<Longrightarrow> bare_port dp' = bare_port dp"
  "dsa_port_do_vlan_del drv ds dp vlan l = Some (r, dp', l') \<Longrightarrow> bare_port dp' = bare_port dp"
proof -
  show "dsa_port_do_fdb_del drv ds dp addr vid db l = Some (r, dp', l') \<Longrightarrow> bare_port dp' = bare_port dp"
    by (cases "shared_port dp") (auto simp: fdb_del_ref, auto simp: dsa_port_do_fdb_del_def Let_def bind_eq_Some_conv)
  show "dsa_port_do_mdb_del drv ds dp mdb db l = Some (r, dp', l') \<Longrightarrow> bare_port dp' = bare_port dp"
    by (cases "shared_port dp") (auto simp: mdb_del_ref, auto simp: dsa_port_do_mdb_del_def Let_def bind_eq_Some_conv)
  show "dsa_port_do_vlan_del drv ds dp vlan l = Some (r, dp', l') \<Longrightarrow> bare_port dp' = bare_port dp"
    by (cases "shared_port dp") (auto simp: vlan_del_ref, auto simp: dsa_port_do_vlan_del_def Let_def bind_eq_Some_conv)
qed

lemma do_lag_ops_bare:
  "dsa_switch_do_lag_fdb_add drv ds dsp g addr vid db l = Some (r, g', l') \<Longrightarrow> bare_lag g' = bare_lag g"
  "dsa_switch_do_lag_fdb_del drv ds dsp g addr vid db l = Some (r, g', l') \<Longrightarrow> bare_lag g' = bare_lag g"
  by (auto simp: lag_fdb_add_ref lag_fdb_del_ref)

lemma on_port_ops_bare [bare_rules]:
  "keeps_bare (on_port (\<lambda>p. dsa_port_do_fdb_add drv sw p addr vid db) q)"
  "keeps_bare (on_port (\<lambda>p. dsa_port_do_mdb_add drv sw p mdb db) q)"
  "keeps_bare (on_port (\<lambda>p. dsa_port_do_vlan_add drv sw p vlan) q)"
  "keeps_bare (on_port (\<lambda>p. dsa_port_do_fdb_del drv sw p addr vid db) q)"
  "keeps_bare (on_port (\<lambda>p. dsa_port_do_mdb_del drv sw p mdb db) q)"
  "keeps_bare (on_port (\<lambda>p. dsa_port_do_vlan_del drv sw p vlan) q)"
  by (rule on_port_bare, erule do_add_bare do_del_bare)+

lemma on_lag_ops_bare [bare_rules]:
  "keeps_bare (on_lag (\<lambda>g. dsa_switch_do_lag_fdb_add drv sw ds g addr vid db) q)"
  "keeps_bare (on_lag (\<lambda>g. dsa_switch_do_lag_fdb_del drv sw ds g addr vid db) q)"
  by (rule on_lag_bare, erule do_lag_ops_bare)+

lemma keeps_bare_if [bare_rules]:
  "keeps_bare f \<Longrightarrow> keeps_bare g \<Longrightarrow> keeps_bare (\<lambda>t. if c t then f t else g t)"
  "keeps_bare (\<lambda>t. Some (r, t))"
  by (auto simp: keeps_bare_def)

lemma keeps_bare_host [bare_rules]: "keeps_bare (on_port f p) \<Longrightarrow> keeps_bare (host_port sel f p)"
  by (rule keeps_bareI) (auto simp: host_port_def bind_eq_Some_conv dest: keeps_bareD split: if_splits)

lemma keeps_bare_host_fdb [bare_rules]:
  assumes "keeps_bare (on_port f p)" "\<And>q. keeps_bare (on_lag g q)"
  shows "keeps_bare (host_fdb_port f g target p)"
  by (rule keeps_bareI)
    (auto simp: host_fdb_port_def bind_eq_Some_conv split: if_splits
      dest: keeps_bareD [OF assms(1)] keeps_bareD [OF assms(2)])

lemmas call_bare = keeps_bareD [OF keeps_bare_call]

lemma single_call_bare [bare_rules]:
  "keeps_bare (dsa_switch_ageing_time drv ds a)"
  "keeps_bare (dsa_switch_bridge_join drv ds dp dev num)"
  "keeps_bare (dsa_switch_bridge_leave drv ds dp dev num)"
  "keeps_bare (dsa_switch_lag_change drv ds dp)"
  "keeps_bare (dsa_switch_lag_join drv ds dp dev)"
  "keeps_bare (dsa_switch_lag_leave drv ds dp dev)"
  "keeps_bare (dsa_switch_conduit_state_change drv ds dev up)"
  by (rule keeps_bareI;
      auto simp: dsa_switch_ageing_time_def dsa_switch_bridge_join_def dsa_switch_bridge_leave_def
        dsa_switch_lag_change_def dsa_switch_lag_join_def dsa_switch_lag_leave_def
        dsa_switch_conduit_state_change_def Let_def bind_eq_Some_conv
        dest: call_bare split: if_splits)+

lemma mtu_bare [bare_rules]: "keeps_bare (dsa_switch_mtu drv ds dp mtu)"
proof -
  have "keeps_bare (\<lambda>t. if dsa_port_mtu_match t q dp
      then tree_call drv ds Op_port_change_mtu (Port_change_mtu ds (port_index (t_dp t q)) mtu) t else Some (0, t))" for q
    by (rule keeps_bareI) (auto dest: call_bare split: if_splits)
  note keeps_bareD [OF keeps_bare_until [OF this]]
  then show ?thesis by (intro keeps_bareI) (auto simp: dsa_switch_mtu_def split: if_splits)
qed

lemma towards_bare [bare_rules]:
  "keeps_bare (dsa_switch_fdb_add drv ds dp addr vid db)" "keeps_bare (dsa_switch_fdb_del drv ds dp addr vid db)"
  "keeps_bare (dsa_switch_mdb_add drv ds dp mdb db)" "keeps_bare (dsa_switch_mdb_del drv ds dp mdb db)"
  by (rule keeps_bareI;
      auto simp: dsa_switch_fdb_add_def dsa_switch_fdb_del_def dsa_switch_mdb_add_def dsa_switch_mdb_del_def
        bind_eq_Some_conv dest: on_port_ops_bare [THEN keeps_bareD] split: if_splits)+

lemma lag_fdb_bare [bare_rules]:
  "keeps_bare (dsa_switch_lag_fdb_add drv ds g addr vid db)" "keeps_bare (dsa_switch_lag_fdb_del drv ds g addr vid db)"
  by (rule keeps_bareI; auto simp: dsa_switch_lag_fdb_add_def dsa_switch_lag_fdb_del_def
      dest: on_lag_ops_bare [THEN keeps_bareD] split: if_splits)+

lemma ports_loop_bare [bare_rules]:
  "keeps_bare (dsa_switch_host_mdb_add drv ds dp mdb db)" "keeps_bare (dsa_switch_host_mdb_del drv ds dp mdb db)"
  "keeps_bare (dsa_switch_vlan_add drv ds dp vlan)" "keeps_bare (dsa_switch_vlan_del drv ds dp vlan)"
  "keeps_bare (dsa_switch_host_vlan_add drv ds dp vlan)" "keeps_bare (dsa_switch_host_vlan_del drv ds dp vlan)"
  by (rule keeps_bareI;
      auto simp: dsa_switch_host_mdb_add_def dsa_switch_host_mdb_del_def dsa_switch_vlan_add_def
        dsa_switch_vlan_del_def dsa_switch_host_vlan_add_def dsa_switch_host_vlan_del_def
        dest!: keeps_bareD [OF keeps_bare_until [OF keeps_bare_host [OF on_port_ops_bare(2)]]]
          keeps_bareD [OF keeps_bare_until [OF keeps_bare_host [OF on_port_ops_bare(5)]]]
          keeps_bareD [OF keeps_bare_until [OF keeps_bare_host [OF on_port_ops_bare(3)]]]
          keeps_bareD [OF keeps_bare_until [OF keeps_bare_host [OF on_port_ops_bare(6)]]]
        split: if_splits)+

lemma host_fdb_bare [bare_rules]:
  "keeps_bare (dsa_switch_host_fdb_add drv ds dp addr vid db)" "keeps_bare (dsa_switch_host_fdb_del drv ds dp addr vid db)"
  by (rule keeps_bareI;
      auto simp: dsa_switch_host_fdb_add_def dsa_switch_host_fdb_del_def
        dest!: keeps_bareD [OF keeps_bare_until [OF keeps_bare_host_fdb [OF on_port_ops_bare(1) on_lag_ops_bare(1)]]]
          keeps_bareD [OF keeps_bare_until [OF keeps_bare_host_fdb [OF on_port_ops_bare(4) on_lag_ops_bare(2)]]]
        split: if_splits)+

lemma tagger_event_bare [simp]: "bare (snd (tagger_event drv c t)) = bare t"
  by (simp add: tagger_event_def dsa_event_def)

text \<open>The state after connecting is one of these three.\<close>

lemma connect_cases:
  assumes "dsa_switch_connect_tag_proto drv ds ops t = Some (r, t')"
  defines "u \<equiv> (if tag_connect ops then snd (tagger_event drv (Tagger_connect (tag_proto ops) ds) t) else t)"
  shows "t' = u \<or> (\<exists>e v. tree_call drv ds Op_connect_tag_protocol (Connect_tag_protocol ds (tag_proto ops)) u = Some (e, v) \<and>
      (t' = v \<or> t' = snd (tagger_event drv (Tagger_disconnect (tag_proto ops) ds) v)))"
  using assms(1)
  by (auto simp: dsa_switch_connect_tag_proto_def u_def Let_def bind_eq_Some_conv split: if_splits prod.splits)

lemma tagger_bare [bare_rules]:
  "keeps_bare (dsa_switch_connect_tag_proto drv ds ops)" "keeps_bare (dsa_switch_disconnect_tag_proto drv ds ops)"
proof -
  have "bare t' = bare t" if "dsa_switch_connect_tag_proto drv ds ops t = Some (r, t')" for t r t'
    using connect_cases [OF that] by (elim disjE exE conjE) (simp_all add: call_bare)
  then show "keeps_bare (dsa_switch_connect_tag_proto drv ds ops)" by (rule keeps_bareI)
  show "keeps_bare (dsa_switch_disconnect_tag_proto drv ds ops)"
    by (rule keeps_bareI) (auto simp: dsa_switch_disconnect_tag_proto_def split: if_splits)
qed

lemma event_bare: "keeps_bare (dsa_switch_event drv e ds)"
  by (cases e) (simp_all add: dsa_switch_event_def bare_rules)

lemma notify_bare [bare_rules]: "keeps_bare (dsa_tree_notify drv e)"
  by (rule keeps_bareI) (auto simp: dsa_tree_notify_def dest: keeps_bareD [OF keeps_bare_until [OF event_bare]])

lemma port_notify_bare: "dsa_port_notify drv dp e t = Some (r, t') \<Longrightarrow> bare t' = bare t"
  unfolding dsa_port_notify_def by (rule keeps_bareD [OF notify_bare])

lemma port_op_bare: "port_op drv f c dp t = Some (r, t') \<Longrightarrow> bare t' = bare t"
  unfolding port_op_def Let_def by (rule call_bare)

lemma kernel_event_bare [simp]: "bare (snd (kernel_event drv c t)) = bare t"
  by (simp add: kernel_event_def dsa_event_def)

subsection \<open>Requests for objects\<close>

lemma silent_port_calls [simp]: "silent_for q (Port_call d i c)" "silent_for q (Kernel_call k)"
  by (simp_all add: silent_for_def fdb_calls_def mdb_calls_def vlan_calls_def)

lemma kernel_event_dbs: "tree_dbs_ok t \<Longrightarrow> tree_dbs_ok (snd (kernel_event drv c t))"
  using tagger_event_keeps [of t "Kernel_call c" drv] by (simp add: kernel_event_def tagger_event_def)

lemma port_notify_dbs: "dsa_port_notify drv dp e t = Some (r, t') \<Longrightarrow> tree_dbs_ok t \<Longrightarrow> tree_dbs_ok t'"
  using keeps_dbsD [OF notify_keeps] unfolding dsa_port_notify_def by blast

text \<open>The requests of the user interfaces for addresses, groups and VLANs of a port and of the host.\<close>

inductive port_request :: "stack_env \<Rightarrow> driver \<Rightarrow> dsa_tree \<Rightarrow> int \<Rightarrow> dsa_tree \<Rightarrow> bool" for env drv t r t' where
  "dsa_port_fdb_add drv dp addr vid t = Some (r, t') \<Longrightarrow> port_request env drv t r t'"
| "dsa_port_fdb_del drv dp addr vid t = Some (r, t') \<Longrightarrow> port_request env drv t r t'"
| "dsa_port_standalone_host_fdb_add drv dp addr vid t = Some (r, t') \<Longrightarrow> port_request env drv t r t'"
| "dsa_port_standalone_host_fdb_del drv dp addr vid t = Some (r, t') \<Longrightarrow> port_request env drv t r t'"
| "dsa_port_bridge_host_fdb_add env drv dp addr vid t = Some (r, t') \<Longrightarrow> port_request env drv t r t'"
| "dsa_port_bridge_host_fdb_del env drv dp addr vid t = Some (r, t') \<Longrightarrow> port_request env drv t r t'"
| "dsa_port_lag_fdb_add drv dp addr vid t = Some (r, t') \<Longrightarrow> port_request env drv t r t'"
| "dsa_port_lag_fdb_del drv dp addr vid t = Some (r, t') \<Longrightarrow> port_request env drv t r t'"
| "dsa_port_mdb_add drv dp mdb t = Some (r, t') \<Longrightarrow> port_request env drv t r t'"
| "dsa_port_mdb_del drv dp mdb t = Some (r, t') \<Longrightarrow> port_request env drv t r t'"
| "dsa_port_standalone_host_mdb_add drv dp mdb t = Some (r, t') \<Longrightarrow> port_request env drv t r t'"
| "dsa_port_standalone_host_mdb_del drv dp mdb t = Some (r, t') \<Longrightarrow> port_request env drv t r t'"
| "dsa_port_bridge_host_mdb_add drv dp mdb t = Some (r, t') \<Longrightarrow> port_request env drv t r t'"
| "dsa_port_bridge_host_mdb_del drv dp mdb t = Some (r, t') \<Longrightarrow> port_request env drv t r t'"
| "dsa_port_vlan_add drv dp vlan t = Some (r, t') \<Longrightarrow> port_request env drv t r t'"
| "dsa_port_vlan_del drv dp vlan t = Some (r, t') \<Longrightarrow> port_request env drv t r t'"
| "dsa_port_host_vlan_add drv dp vlan t = Some (r, t') \<Longrightarrow> port_request env drv t r t'"
| "dsa_port_host_vlan_del drv dp vlan t = Some (r, t') \<Longrightarrow> port_request env drv t r t'"
| "dsa_port_mtu_change drv dp mtu t = Some (r, t') \<Longrightarrow> port_request env drv t r t'"

definition keeps_tree :: "(dsa_tree \<Rightarrow> (int \<times> dsa_tree) option) \<Rightarrow> bool" where
  "keeps_tree g \<longleftrightarrow> (\<forall>t r t'. g t = Some (r, t') \<longrightarrow> bare t' = bare t \<and> (tree_dbs_ok t \<longrightarrow> tree_dbs_ok t'))"

lemma keeps_tree_notify: "keeps_tree (dsa_port_notify drv dp e)"
  unfolding keeps_tree_def using port_notify_bare port_notify_dbs by blast

lemma keeps_tree_bind: "(\<And>x. keeps_tree (g x)) \<Longrightarrow> keeps_tree (\<lambda>t. Option.bind (f t) (\<lambda>x. g x t))"
  unfolding keeps_tree_def by (auto simp: bind_eq_Some_conv)

lemma keeps_tree_before:
  assumes "keeps_tree g"
  shows "keeps_tree (\<lambda>t. let (err, t) = (if c then kernel_event drv k t else (0, t)) in
    if err \<noteq> 0 then Some (err, t) else g t)"
proof -
  have "bare u = bare t \<and> (tree_dbs_ok t \<longrightarrow> tree_dbs_ok u)" if "kernel_event drv k t = (e, u)" for t e u
    using kernel_event_bare [of drv k t] kernel_event_dbs [of t drv k] that by simp
  then show ?thesis using assms unfolding keeps_tree_def
    by (auto simp: Let_def split: if_splits prod.splits)
qed

lemma keeps_tree_kernel:
  "keeps_tree g \<Longrightarrow> keeps_tree (\<lambda>t. let (err, t) = kernel_event drv k t in
    if err \<noteq> 0 then Some (err, t) else g t)"
  using keeps_tree_before [of g True] by simp

lemma keeps_tree_after:
  assumes "keeps_tree g"
  shows "keeps_tree (\<lambda>t. do {(err, t) \<leftarrow> g t; if P err then Some (err, t) else Some (err, snd (kernel_event drv k t))})"
  using assms unfolding keeps_tree_def
  by (auto simp: bind_eq_Some_conv intro: kernel_event_dbs split: if_splits)

lemmas keeps_tree_rules = keeps_tree_notify keeps_tree_bind keeps_tree_before keeps_tree_kernel keeps_tree_after

lemma object_requests_keep:
  "keeps_tree (dsa_port_fdb_add drv dp addr vid)" "keeps_tree (dsa_port_fdb_del drv dp addr vid)"
  "keeps_tree (dsa_port_standalone_host_fdb_add drv dp addr vid)"
  "keeps_tree (dsa_port_standalone_host_fdb_del drv dp addr vid)"
  "keeps_tree (dsa_port_lag_fdb_add drv dp addr vid)" "keeps_tree (dsa_port_lag_fdb_del drv dp addr vid)"
  "keeps_tree (dsa_port_mdb_add drv dp mdb)" "keeps_tree (dsa_port_mdb_del drv dp mdb)"
  "keeps_tree (dsa_port_standalone_host_mdb_add drv dp mdb)"
  "keeps_tree (dsa_port_standalone_host_mdb_del drv dp mdb)"
  "keeps_tree (dsa_port_vlan_add drv dp vlan)" "keeps_tree (dsa_port_vlan_del drv dp vlan)"
  "keeps_tree (dsa_port_mtu_change drv dp mtu)"
  unfolding dsa_port_fdb_add_def dsa_port_fdb_del_def dsa_port_standalone_host_fdb_add_def
    dsa_port_standalone_host_fdb_del_def dsa_port_lag_fdb_add_def dsa_port_lag_fdb_del_def dsa_port_mdb_add_def
    dsa_port_mdb_del_def dsa_port_standalone_host_mdb_add_def dsa_port_standalone_host_mdb_del_def
    dsa_port_vlan_add_def dsa_port_vlan_del_def dsa_port_mtu_change_def dsa_port_host_fdb_add_def
    dsa_port_host_fdb_del_def dsa_port_host_mdb_add_def dsa_port_host_mdb_del_def
  by (intro keeps_tree_rules)+

lemma host_requests_keep:
  "keeps_tree (dsa_port_bridge_host_fdb_add env drv dp addr vid)"
  "keeps_tree (dsa_port_bridge_host_fdb_del env drv dp addr vid)"
  "keeps_tree (dsa_port_bridge_host_mdb_add drv dp mdb)" "keeps_tree (dsa_port_bridge_host_mdb_del drv dp mdb)"
  "keeps_tree (dsa_port_host_vlan_add drv dp vlan)" "keeps_tree (dsa_port_host_vlan_del drv dp vlan)"
  unfolding dsa_port_bridge_host_fdb_add_def dsa_port_bridge_host_fdb_del_def dsa_port_bridge_host_mdb_add_def
    dsa_port_bridge_host_mdb_del_def dsa_port_host_vlan_add_def dsa_port_host_vlan_del_def
    dsa_port_host_fdb_add_def dsa_port_host_fdb_del_def dsa_port_host_mdb_add_def dsa_port_host_mdb_del_def
  by (intro keeps_tree_rules keeps_tree_bind [OF keeps_tree_after])+

lemma request_keeps:
  "port_request env drv t r t' \<Longrightarrow> bare t' = bare t \<and> (tree_dbs_ok t \<longrightarrow> tree_dbs_ok t')"
  by (erule port_request.cases; elim object_requests_keep [unfolded keeps_tree_def, rule_format]
      host_requests_keep [unfolded keeps_tree_def, rule_format])

subsection \<open>Properties\<close>

inductive port_requests :: "stack_env \<Rightarrow> driver \<Rightarrow> dsa_tree \<Rightarrow> dsa_tree \<Rightarrow> bool" for env drv t where
  requests_refl: "port_requests env drv t t"
| requests_step: "port_requests env drv t u \<Longrightarrow> port_request env drv u r v \<Longrightarrow> port_requests env drv t v"


text \<open>A request on the board.\<close>

lemma board_host_request:
  "\<exists>t1. port_request env (\<lambda>_ _. 0) fdb_board 0 t1 \<and>
     port_fdbs (t_dp t1 4) = [\<lparr>a_addr = [1, 2, 3, 4, 5, 6], a_vid = 7, a_refcount = 1, a_db = DSA_DB_PORT 2\<rparr>]"
proof -
  have "local_cpu fdb_board 0 2 4" by (simp add: local_cpu_def inj_on_def)
  from notify_host_fdb(1) [OF this, of "\<lambda>_ _. 0" "[1, 2, 3, 4, 5, 6]" 7 "DSA_DB_PORT 2"]
  obtain t1 where "dsa_port_standalone_host_fdb_add (\<lambda>_ _. 0) 2 [1, 2, 3, 4, 5, 6] 7 fdb_board = Some (0, t1)"
    and "port_fdbs (t_dp t1 4) = [\<lparr>a_addr = [1, 2, 3, 4, 5, 6], a_vid = 7, a_refcount = 1, a_db = DSA_DB_PORT 2\<rparr>]"
    by (simp add: dsa_port_standalone_host_fdb_add_def dsa_port_host_fdb_add_def dsa_port_notify_def has_op_def
        on_port_def dsa_port_do_fdb_add_def db_unfold dsa_mac_addr_find_def dsa_store)
  then show ?thesis by (blast intro: port_request.intros)
qed


text \<open>
  The driver is asked whether learning can be switched off, after it has been told the new state.
\<close>

definition learning_configurable :: "driver \<Rightarrow> dp_ptr \<Rightarrow> u8 \<Rightarrow> dsa_tree \<Rightarrow> bool" where
  "learning_configurable drv dp state t \<longleftrightarrow>
     (let p = t_dp t dp; c = Port_call (port_ds p) (port_index p); s = c (Port_stp_state_set state) in
      port_has_op t dp Op_port_bridge_flags \<and> port_has_op t dp Op_port_pre_bridge_flags \<and>
      drv (c (Port_pre_bridge_flags (BIT32 BR_LEARNING_BIT) 0)) ((s, drv s (t_log t)) # t_log t) = 0)"

lemma flush_log:
  "\<exists>new. t_log (dsa_port_notify_bridge_fdb_flush drv dp vid t) = new @ t_log t \<and> (\<forall>c\<in>fst ` set new. \<exists>k. c = Kernel_call k)"
  by (cases "dsa_port_to_bridge_port t dp")
    (auto simp: dsa_port_notify_bridge_fdb_flush_def kernel_event_def dsa_event_def)

lemma flush_bare [simp]: "bare (dsa_port_notify_bridge_fdb_flush drv dp vid t) = bare t"
  by (simp add: dsa_port_notify_bridge_fdb_flush_def split: option.split)

lemma fast_age_bare: "dsa_port_fast_age drv dp t = Some t' \<Longrightarrow> bare t' = bare t"
  by (auto simp: dsa_port_fast_age_def bind_eq_Some_conv dest: port_op_bare split: if_splits)

lemma port_op_run:
  "port_has_op t dp f \<Longrightarrow> port_op drv f c dp t =
     (let p = t_dp t dp; e = Port_call (port_ds p) (port_index p) c in
      Some (drv e (t_log t), t\<lparr>t_log := (e, drv e (t_log t)) # t_log t\<rparr>))"
  by (simp add: port_op_def tree_call_def call_op_def port_has_op_def has_op_def dsa_event_def Let_def)

lemma port_has_op_log [simp]: "port_has_op (t\<lparr>t_log := l\<rparr>) dp f = port_has_op t dp f"
  by (simp add: port_has_op_def has_op_def)

lemma fast_age_run:
  "\<exists>t' new. dsa_port_fast_age drv dp t = Some t' \<and> t_log t' = new @ t_log t \<and> t_dp t' = t_dp t \<and>
     ((\<exists>a. (Port_call (port_ds (t_dp t dp)) (port_index (t_dp t dp)) Port_fast_age, a) \<in> set new) \<longleftrightarrow>
        port_has_op t dp Op_port_fast_age) \<and>
     bare t' = bare t"
proof (cases "port_has_op t dp Op_port_fast_age")
  case True
  define e where "e = Port_call (port_ds (t_dp t dp)) (port_index (t_dp t dp)) Port_fast_age"
  define u where "u = t\<lparr>t_log := (e, drv e (t_log t)) # t_log t\<rparr>"
  obtain new where new: "t_log (dsa_port_notify_bridge_fdb_flush drv dp 0 u) = new @ t_log u"
    using flush_log [of drv dp 0 u] by blast
  have "t_dp (dsa_port_notify_bridge_fdb_flush drv dp 0 u) = t_dp t"
    by (simp add: dsa_port_notify_bridge_fdb_flush_def kernel_event_def dsa_event_def u_def split: option.split)
  moreover have "dsa_port_fast_age drv dp t = Some (dsa_port_notify_bridge_fdb_flush drv dp 0 u)"
    using True by (simp add: dsa_port_fast_age_def port_op_run u_def e_def Let_def)
  ultimately show ?thesis using True new
    by (intro exI [of _ "dsa_port_notify_bridge_fdb_flush drv dp 0 u"] exI [of _ "new @ [(e, drv e (t_log t))]"])
      (auto simp: u_def e_def)
next
  case False
  then show ?thesis by (intro exI [of _ t] exI [of _ "[]"]) (simp add: dsa_port_fast_age_def)
qed

lemma can_configure_run:
  "\<exists>new. dsa_port_can_configure_learning drv dp (t\<lparr>t_log := (s, drv s (t_log t)) # t_log t\<rparr>) =
     Some (learning_configurable drv dp state t, t\<lparr>t_log := new @ (s, drv s (t_log t)) # t_log t\<rparr>) \<and>
     (\<forall>c\<in>fst ` set new. \<exists>d i a b. c = Port_call d i (Port_pre_bridge_flags a b))"
  if "s = Port_call (port_ds (t_dp t dp)) (port_index (t_dp t dp)) (Port_stp_state_set state)" for s
proof (cases "port_has_op t dp Op_port_bridge_flags \<and> port_has_op t dp Op_port_pre_bridge_flags")
  case True
  define c where "c = Port_call (port_ds (t_dp t dp)) (port_index (t_dp t dp)) (Port_pre_bridge_flags (BIT32 BR_LEARNING_BIT) 0)"
  show ?thesis
    by (intro exI [of _ "[(c, drv c ((s, drv s (t_log t)) # t_log t))]"])
      (use True in \<open>simp add: dsa_port_can_configure_learning_def learning_configurable_def port_op_run Let_def that c_def\<close>)
next
  case False
  then show ?thesis
    by (intro exI [of _ "[]"]) (auto simp: dsa_port_can_configure_learning_def learning_configurable_def Let_def)
qed


end
