(* ===== verification/Dsa_User.thy ===== *)
theory Dsa_User
  imports Dsa_Port
begin

section \<open>Host addresses, VLANs and MTU of the user interfaces\<close>

text \<open>
  The part of \<open>DSA/user.c\<close> that keeps the CPU port in step with a user interface: its addresses
  go to the conduit and, through an ordered work queue, to the CPU port, once per VLAN of the
  interface; its VLANs go to the port, to the CPU port and to the conduit; its MTU has to fit
  the conduit and, in a bridge, the other ports.

  A user interface is named by its port (\<open>dsa_user_to_port\<close>). The work queue runs its items in
  order; the model runs them when the code waits for them (\<open>dsa_flush_workqueue\<close>), which is one
  of the times at which the kernel may. \<open>dev_set_mtu\<close> belongs to the kernel and is a parameter: it calls
  the driver of the device, so it may change the tree.

  The theorems: adding a VLAN and removing it again restores the interface, whatever the switch
  does; setting the MTU of the ports
  of a bridge is all or nothing; a change of MTU that fails leaves every device with the MTU it had.
\<close>

subsection \<open>Addresses\<close>

definition dsa_switch_supports_uc_filtering :: "dsa_switch \<Rightarrow> bool" where
  "dsa_switch_supports_uc_filtering sw \<longleftrightarrow>
     Op_port_fdb_add \<in> sw_ops sw \<and> Op_port_fdb_del \<in> sw_ops sw \<and> sw_fdb_isolation sw \<and>
     \<not> sw_vlan_filtering_is_global sw \<and> \<not> sw_needs_standalone_vlan_filtering sw"

definition dsa_switch_supports_mc_filtering :: "dsa_switch \<Rightarrow> bool" where
  "dsa_switch_supports_mc_filtering sw \<longleftrightarrow>
     Op_port_mdb_add \<in> sw_ops sw \<and> Op_port_mdb_del \<in> sw_ops sw \<and> sw_fdb_isolation sw \<and>
     \<not> sw_vlan_filtering_is_global sw \<and> \<not> sw_needs_standalone_vlan_filtering sw"

definition dsa_user_standalone_event_work ::
  "driver \<Rightarrow> dsa_standalone_event_work \<Rightarrow> dsa_tree \<Rightarrow> dsa_tree option" where
  "dsa_user_standalone_event_work drv wk t =
     (let dp = wk_dp wk; addr = wk_addr wk; vid = wk_vid wk; mdb = \<lparr>mdb_addr = addr, mdb_vid = vid\<rparr> in
      map_option snd
        (case wk_event wk of
           DSA_UC_ADD \<Rightarrow> dsa_port_standalone_host_fdb_add drv dp addr vid t
         | DSA_UC_DEL \<Rightarrow> dsa_port_standalone_host_fdb_del drv dp addr vid t
         | DSA_MC_ADD \<Rightarrow> dsa_port_standalone_host_mdb_add drv dp mdb t
         | DSA_MC_DEL \<Rightarrow> dsa_port_standalone_host_mdb_del drv dp mdb t))"

definition dsa_schedule_work :: "dsa_standalone_event_work \<Rightarrow> dsa_tree \<Rightarrow> dsa_tree" where
  "dsa_schedule_work wk t = t\<lparr>t_work := t_work t @ [wk]\<rparr>"

definition dsa_flush_workqueue :: "driver \<Rightarrow> dsa_tree \<Rightarrow> dsa_tree option" where
  "dsa_flush_workqueue drv t =
     fold_opt (\<lambda>t wk. dsa_user_standalone_event_work drv wk t) (t\<lparr>t_work := []\<rparr>) (t_work t)"

definition dsa_user_schedule_standalone_work ::
  "driver \<Rightarrow> dp_ptr \<Rightarrow> dsa_standalone_event \<Rightarrow> u8 list \<Rightarrow> u16 \<Rightarrow> dsa_tree \<Rightarrow> int \<times> dsa_tree" where
  "dsa_user_schedule_standalone_work drv dp ev addr vid t =
     (let (got, l) = dsa_kzalloc drv (t_log t); t = t\<lparr>t_log := l\<rparr> in
      if \<not> got then (ENOMEM_NEG, t)
      else (0, dsa_schedule_work \<lparr>wk_event = ev, wk_dp = dp, wk_addr = addr, wk_vid = vid\<rparr> t))"

definition dsa_user_host_vlan_rx_filtering ::
  "driver \<Rightarrow> dp_ptr \<Rightarrow> dsa_standalone_event \<Rightarrow> u8 list \<Rightarrow> u16 \<Rightarrow> dsa_tree \<Rightarrow> (int \<times> dsa_tree) option" where
  "dsa_user_host_vlan_rx_filtering drv dp ev addr vid t =
     Some (dsa_user_schedule_standalone_work drv dp ev addr vid t)"

definition dsa_user_vlan_for_each ::
  "(u16 \<Rightarrow> dsa_tree \<Rightarrow> (int \<times> dsa_tree) option) \<Rightarrow> dp_ptr \<Rightarrow> dsa_tree \<Rightarrow> (int \<times> dsa_tree) option" where
  "dsa_user_vlan_for_each cb dp t = until_err cb (0 # map v_vid (port_vlans (t_dp t dp))) t"

definition dsa_user_sync_uc :: "driver \<Rightarrow> dp_ptr \<Rightarrow> u8 list \<Rightarrow> dsa_tree \<Rightarrow> (int \<times> dsa_tree) option" where
  "dsa_user_sync_uc drv dp addr t = do {
     conduit \<leftarrow> dsa_port_to_conduit t dp;
     let t = snd (kernel_event drv (Dev_uc_add conduit addr) t);
     if \<not> dsa_switch_supports_uc_filtering (t_ds t (port_ds (t_dp t dp))) then Some (0, t)
     else dsa_user_vlan_for_each (dsa_user_host_vlan_rx_filtering drv dp DSA_UC_ADD addr) dp t}"

definition dsa_user_unsync_uc :: "driver \<Rightarrow> dp_ptr \<Rightarrow> u8 list \<Rightarrow> dsa_tree \<Rightarrow> (int \<times> dsa_tree) option" where
  "dsa_user_unsync_uc drv dp addr t = do {
     conduit \<leftarrow> dsa_port_to_conduit t dp;
     let t = snd (kernel_event drv (Dev_uc_del conduit addr) t);
     if \<not> dsa_switch_supports_uc_filtering (t_ds t (port_ds (t_dp t dp))) then Some (0, t)
     else dsa_user_vlan_for_each (dsa_user_host_vlan_rx_filtering drv dp DSA_UC_DEL addr) dp t}"

definition dsa_user_sync_mc :: "driver \<Rightarrow> dp_ptr \<Rightarrow> u8 list \<Rightarrow> dsa_tree \<Rightarrow> (int \<times> dsa_tree) option" where
  "dsa_user_sync_mc drv dp addr t = do {
     conduit \<leftarrow> dsa_port_to_conduit t dp;
     let t = snd (kernel_event drv (Dev_mc_add conduit addr) t);
     if \<not> dsa_switch_supports_mc_filtering (t_ds t (port_ds (t_dp t dp))) then Some (0, t)
     else dsa_user_vlan_for_each (dsa_user_host_vlan_rx_filtering drv dp DSA_MC_ADD addr) dp t}"

definition dsa_user_unsync_mc :: "driver \<Rightarrow> dp_ptr \<Rightarrow> u8 list \<Rightarrow> dsa_tree \<Rightarrow> (int \<times> dsa_tree) option" where
  "dsa_user_unsync_mc drv dp addr t = do {
     conduit \<leftarrow> dsa_port_to_conduit t dp;
     let t = snd (kernel_event drv (Dev_mc_del conduit addr) t);
     if \<not> dsa_switch_supports_mc_filtering (t_ds t (port_ds (t_dp t dp))) then Some (0, t)
     else dsa_user_vlan_for_each (dsa_user_host_vlan_rx_filtering drv dp DSA_MC_DEL addr) dp t}"

text \<open>The answers for the single addresses are dropped.\<close>

definition each_addr ::
  "(u8 list \<Rightarrow> dsa_tree \<Rightarrow> (int \<times> dsa_tree) option) \<Rightarrow> u8 list list \<Rightarrow> dsa_tree \<Rightarrow> dsa_tree option" where
  "each_addr f addrs t = fold_opt (\<lambda>t a. map_option snd (f a t)) t addrs"

definition flush_if_filtering :: "driver \<Rightarrow> dp_ptr \<Rightarrow> dsa_tree \<Rightarrow> dsa_tree option" where
  "flush_if_filtering drv dp t =
     (let sw = t_ds t (port_ds (t_dp t dp)) in
      if dsa_switch_supports_uc_filtering sw \<or> dsa_switch_supports_mc_filtering sw
      then dsa_flush_workqueue drv t else Some t)"

definition dsa_user_sync_ha :: "stack_env \<Rightarrow> driver \<Rightarrow> dp_ptr \<Rightarrow> dsa_tree \<Rightarrow> dsa_tree option" where
  "dsa_user_sync_ha env drv dp t = do {
     dev \<leftarrow> port_netdev (t_dp t dp);
     t \<leftarrow> each_addr (dsa_user_sync_mc drv dp) (synced_mc env dev) t;
     t \<leftarrow> each_addr (dsa_user_sync_uc drv dp) (synced_uc env dev) t;
     flush_if_filtering drv dp t}"

definition dsa_user_unsync_ha :: "stack_env \<Rightarrow> driver \<Rightarrow> dp_ptr \<Rightarrow> dsa_tree \<Rightarrow> dsa_tree option" where
  "dsa_user_unsync_ha env drv dp t = do {
     dev \<leftarrow> port_netdev (t_dp t dp);
     t \<leftarrow> each_addr (dsa_user_unsync_uc drv dp) (synced_uc env dev) t;
     t \<leftarrow> each_addr (dsa_user_unsync_mc drv dp) (synced_mc env dev) t;
     flush_if_filtering drv dp t}"

subsection \<open>VLANs\<close>

text \<open>
  The loop that asks for each address of the interface on one more (or one less) VLAN. Failed
  allocations are ignored.
\<close>

definition schedule_addrs ::
  "driver \<Rightarrow> dp_ptr \<Rightarrow> dsa_standalone_event \<Rightarrow> u16 \<Rightarrow> u8 list list \<Rightarrow> dsa_tree \<Rightarrow> dsa_tree" where
  "schedule_addrs drv dp ev vid addrs t =
     foldl (\<lambda>t a. snd (dsa_user_schedule_standalone_work drv dp ev a vid t)) t addrs"

definition vlan_obj :: "u16 \<Rightarrow> switchdev_obj_port_vlan" where
  "vlan_obj vid = \<lparr>obj_flags = 0, obj_vid = vid, obj_changed = False\<rparr>"

definition dsa_user_vlan_rx_add_vid ::
  "stack_env \<Rightarrow> driver \<Rightarrow> dp_ptr \<Rightarrow> u16 \<Rightarrow> dsa_tree \<Rightarrow> (int \<times> dsa_tree) option" where
  "dsa_user_vlan_rx_add_vid env drv dp vid t = do {
     dev \<leftarrow> port_netdev (t_dp t dp);
     let sw = t_ds t (port_ds (t_dp t dp));
     (ret, t) \<leftarrow> dsa_port_vlan_add drv dp (vlan_obj vid) t;
     if ret \<noteq> 0 then Some (ret, t)
     else do {
       (ret, t) \<leftarrow> dsa_port_host_vlan_add drv dp (vlan_obj vid) t;
       if ret \<noteq> 0 then Some (ret, t)
       else if \<not> dsa_switch_supports_uc_filtering sw \<and> \<not> dsa_switch_supports_mc_filtering sw then Some (0, t)
       else
         (let (got, l) = dsa_kzalloc drv (t_log t); t = t\<lparr>t_log := l\<rparr> in
          if \<not> got then do {
            (_, t) \<leftarrow> dsa_port_host_vlan_del drv dp (vlan_obj vid) t;
            (_, t) \<leftarrow> dsa_port_vlan_del drv dp (vlan_obj vid) t;
            Some (ENOMEM_NEG, t)}
          else
            (let t = upd_port dp (\<lambda>p. p\<lparr>port_vlans := port_vlans p @ [\<lparr>v_vid = vid, v_refcount = 0\<rparr>]\<rparr>) t;
                 t = (if dsa_switch_supports_mc_filtering sw
                      then schedule_addrs drv dp DSA_MC_ADD vid (synced_mc env dev) t else t);
                 t = (if dsa_switch_supports_uc_filtering sw
                      then schedule_addrs drv dp DSA_UC_ADD vid (synced_uc env dev) t else t)
             in do {t \<leftarrow> dsa_flush_workqueue drv t; Some (0, t)}))}}"

definition dsa_user_vlan_rx_kill_vid ::
  "stack_env \<Rightarrow> driver \<Rightarrow> dp_ptr \<Rightarrow> u16 \<Rightarrow> dsa_tree \<Rightarrow> (int \<times> dsa_tree) option" where
  "dsa_user_vlan_rx_kill_vid env drv dp vid t = do {
     dev \<leftarrow> port_netdev (t_dp t dp);
     let sw = t_ds t (port_ds (t_dp t dp));
     (err, t) \<leftarrow> dsa_port_vlan_del drv dp (vlan_obj vid) t;
     if err \<noteq> 0 then Some (err, t)
     else do {
       (err, t) \<leftarrow> dsa_port_host_vlan_del drv dp (vlan_obj vid) t;
       if err \<noteq> 0 then Some (err, t)
       else if \<not> dsa_switch_supports_uc_filtering sw \<and> \<not> dsa_switch_supports_mc_filtering sw then Some (0, t)
       else
         (case dsa_vlan_find (port_vlans (t_dp t dp)) (vlan_obj vid) of
            None \<Rightarrow> Some (ENOENT_NEG, t)
          | Some i \<Rightarrow>
              (let t = upd_port dp (\<lambda>p. p\<lparr>port_vlans := list_del_at i (port_vlans p)\<rparr>) t;
                   t = (if dsa_switch_supports_mc_filtering sw
                        then schedule_addrs drv dp DSA_MC_DEL vid (synced_mc env dev) t else t);
                   t = (if dsa_switch_supports_uc_filtering sw
                        then schedule_addrs drv dp DSA_UC_DEL vid (synced_uc env dev) t else t)
               in do {t \<leftarrow> dsa_flush_workqueue drv t; Some (0, t)}))}}"

text \<open>The callbacks of \<open>vlan_for_each\<close>, which stops at the first error.\<close>

definition dsa_user_restore_vlan ::
  "stack_env \<Rightarrow> driver \<Rightarrow> dp_ptr \<Rightarrow> u16 \<Rightarrow> dsa_tree \<Rightarrow> (int \<times> dsa_tree) option" where
  "dsa_user_restore_vlan env drv dp vid t = dsa_user_vlan_rx_add_vid env drv dp vid t"

definition dsa_user_clear_vlan ::
  "stack_env \<Rightarrow> driver \<Rightarrow> dp_ptr \<Rightarrow> u16 \<Rightarrow> dsa_tree \<Rightarrow> (int \<times> dsa_tree) option" where
  "dsa_user_clear_vlan env drv dp vid t = dsa_user_vlan_rx_kill_vid env drv dp vid t"

definition set_ctag_filter :: "netdev \<Rightarrow> bool \<Rightarrow> dsa_tree \<Rightarrow> dsa_tree" where
  "set_ctag_filter dev b t = t\<lparr>t_net := (t_net t)(dev := (t_net t dev)\<lparr>nd_hw_vlan_ctag_filter := b\<rparr>)\<rparr>"

definition dsa_user_manage_vlan_filtering ::
  "stack_env \<Rightarrow> driver \<Rightarrow> dp_ptr \<Rightarrow> bool \<Rightarrow> dsa_tree \<Rightarrow> (int \<times> dsa_tree) option" where
  "dsa_user_manage_vlan_filtering env drv dp vlan_filtering t = do {
     user \<leftarrow> port_netdev (t_dp t dp);
     if vlan_filtering then do {
       (err, t) \<leftarrow> until_err (dsa_user_restore_vlan env drv dp) (vlan_filter env user) (set_ctag_filter user True t);
       if err \<noteq> 0 then do {
         (_, t) \<leftarrow> until_err (dsa_user_clear_vlan env drv dp) (vlan_filter env user) t;
         Some (err, set_ctag_filter user False t)}
       else Some (0, t)}
     else do {
       (err, t) \<leftarrow> until_err (dsa_user_clear_vlan env drv dp) (vlan_filter env user) t;
       if err \<noteq> 0 then Some (err, t) else Some (0, set_ctag_filter user False t)}}"

subsection \<open>MTU\<close>

type_synonym mtu_setter = "netdev \<Rightarrow> int \<Rightarrow> dsa_tree \<Rightarrow> int \<times> dsa_tree"

record dsa_hw_port =
  hw_dev :: netdev
  hw_old_mtu :: int

fun hw_rollback :: "mtu_setter \<Rightarrow> dsa_hw_port list \<Rightarrow> dsa_tree \<Rightarrow> dsa_tree" where
  "hw_rollback set_mtu [] t = t"
| "hw_rollback set_mtu (p # ps) t =
     hw_rollback set_mtu ps
       (if nd_mtu (t_net t (hw_dev p)) = hw_old_mtu p then t else snd (set_mtu (hw_dev p) (hw_old_mtu p) t))"

text \<open>The ports already visited are kept, the last one first: the order of the rollback.\<close>

fun hw_set :: "mtu_setter \<Rightarrow> dsa_hw_port list \<Rightarrow> dsa_hw_port list \<Rightarrow> int \<Rightarrow> dsa_tree \<Rightarrow> int \<times> dsa_tree" where
  "hw_set set_mtu seen [] mtu t = (0, t)"
| "hw_set set_mtu seen (p # ps) mtu t =
     (if nd_mtu (t_net t (hw_dev p)) = mtu then hw_set set_mtu (p # seen) ps mtu t
      else
        (let (err, t) = set_mtu (hw_dev p) mtu t in
         if err \<noteq> 0 then (err, hw_rollback set_mtu seen t) else hw_set set_mtu (p # seen) ps mtu t))"

definition dsa_hw_port_list_set_mtu :: "mtu_setter \<Rightarrow> dsa_hw_port list \<Rightarrow> int \<Rightarrow> dsa_tree \<Rightarrow> int \<times> dsa_tree" where
  "dsa_hw_port_list_set_mtu set_mtu hw_port_list mtu t = hw_set set_mtu [] hw_port_list mtu t"

abbreviation (input) ETH_MAX_MTU :: int where "ETH_MAX_MTU \<equiv> 65535"

text \<open>
  The ports of the bridge, newest first (\<open>list_add\<close>), with the smallest MTU among them; no list when
  an allocation fails.
\<close>

fun hw_collect ::
  "driver \<Rightarrow> dp_ptr \<Rightarrow> dp_ptr list \<Rightarrow> int \<Rightarrow> dsa_hw_port list \<Rightarrow> dsa_tree \<Rightarrow>
   ((int \<times> dsa_hw_port list) option \<times> dsa_tree) option" where
  "hw_collect drv dp [] min_mtu hl t = Some (Some (min_mtu, hl), t)"
| "hw_collect drv dp (q # qs) min_mtu hl t =
     (if \<not> dsa_port_is_user (t_dp t q) \<or> \<not> dsa_port_bridge_same t (t_dp t dp) (t_dp t q) \<or>
         \<not> sw_mtu_enforcement_ingress (t_ds t (port_ds (t_dp t q)))
      then hw_collect drv dp qs min_mtu hl t
      else do {
        user \<leftarrow> port_netdev (t_dp t q);
        let mtu = nd_mtu (t_net t user);
        let min_mtu = (if min_mtu > mtu then mtu else min_mtu);
        let (got, l) = dsa_kzalloc drv (t_log t);
        let t = t\<lparr>t_log := l\<rparr>;
        if \<not> got then Some (None, t)
        else hw_collect drv dp qs min_mtu (\<lparr>hw_dev = user, hw_old_mtu = mtu\<rparr> # hl) t})"

definition dsa_bridge_mtu_normalization ::
  "driver \<Rightarrow> mtu_setter \<Rightarrow> dp_ptr \<Rightarrow> dsa_tree \<Rightarrow> dsa_tree option" where
  "dsa_bridge_mtu_normalization drv set_mtu dp t =
     (if \<not> sw_mtu_enforcement_ingress (t_ds t (port_ds (t_dp t dp))) \<or> port_bridge (t_dp t dp) = None then Some t
      else do {
        (res, t) \<leftarrow> hw_collect drv dp (t_ports t) ETH_MAX_MTU [] t;
        (case res of
           None \<Rightarrow> Some t
         | Some (min_mtu, hw_port_list) \<Rightarrow> do {
             user \<leftarrow> port_netdev (t_dp t dp);
             let (err, t) = dsa_hw_port_list_set_mtu set_mtu hw_port_list (nd_mtu (t_net t user)) t;
             Some (if err = 0 then t else snd (dsa_hw_port_list_set_mtu set_mtu hw_port_list min_mtu t))})})"

text \<open>The largest MTU of the user interfaces of the tree, as if the new one were already set.\<close>

definition largest_mtu :: "dsa_tree \<Rightarrow> dp_ptr \<Rightarrow> int \<Rightarrow> int" where
  "largest_mtu t dp new_mtu =
     foldl (\<lambda>m q. case port_netdev (t_dp t q) of
              None \<Rightarrow> m
            | Some d \<Rightarrow> (let user_mtu = (if dp = q then new_mtu else nd_mtu (t_net t d)) in
                        if m < user_mtu then user_mtu else m))
       0 (filter (\<lambda>q. dsa_port_is_user (t_dp t q)) (t_ports t))"

definition set_nd_mtu :: "netdev \<Rightarrow> int \<Rightarrow> dsa_tree \<Rightarrow> dsa_tree" where
  "set_nd_mtu dev m t = t\<lparr>t_net := (t_net t)(dev := (t_net t dev)\<lparr>nd_mtu := m\<rparr>)\<rparr>"

text \<open>\<open>overhead\<close> is \<open>dsa_tag_protocol_overhead\<close> of the tagger of the CPU port.\<close>

definition dsa_user_change_mtu ::
  "driver \<Rightarrow> mtu_setter \<Rightarrow> int \<Rightarrow> dp_ptr \<Rightarrow> int \<Rightarrow> dsa_tree \<Rightarrow> (int \<times> dsa_tree) option" where
  "dsa_user_change_mtu drv set_mtu overhead dp new_mtu t = do {
     dev \<leftarrow> port_netdev (t_dp t dp);
     conduit \<leftarrow> dsa_port_to_conduit t dp;
     cpu_dp \<leftarrow> port_cpu_dp (t_dp t dp);
     let ds = port_ds (t_dp t dp);
     let cpu_mtu = largest_mtu t dp new_mtu;
     let mtu_limit = min (nd_max_mtu (t_net t conduit)) (nd_max_mtu (t_net t dev) + overhead);
     let old_conduit_mtu = nd_mtu (t_net t conduit);
     let new_conduit_mtu = cpu_mtu + overhead;
     if \<not> port_has_op t dp Op_port_change_mtu then Some (EOPNOTSUPP_NEG, t)
     else if new_conduit_mtu > mtu_limit then Some (ERANGE_NEG, t)
     else
       (let (err, t) = (if new_conduit_mtu \<noteq> old_conduit_mtu then set_mtu conduit new_conduit_mtu t else (0, t)) in
        if err < 0 then Some (err, t)
        else do {
          (err, t) \<leftarrow> (if new_conduit_mtu \<noteq> old_conduit_mtu then dsa_port_mtu_change drv cpu_dp cpu_mtu t else Some (0, t));
          if err \<noteq> 0 then Some (err, snd (set_mtu conduit old_conduit_mtu t))
          else do {
            (err, t) \<leftarrow> tree_call drv ds Op_port_change_mtu (Port_change_mtu ds (port_index (t_dp t dp)) new_mtu) t;
            if err \<noteq> 0 then
              (if new_conduit_mtu \<noteq> old_conduit_mtu then do {
                 (_, t) \<leftarrow> dsa_port_mtu_change drv cpu_dp (old_conduit_mtu - overhead) t;
                 Some (err, snd (set_mtu conduit old_conduit_mtu t))}
               else Some (err, t))
            else do {
              t \<leftarrow> dsa_bridge_mtu_normalization drv set_mtu dp (set_nd_mtu dev new_mtu t);
              Some (0, t)}}})}"

subsection \<open>Laws of the MTU loops\<close>

text \<open>
  What the kernel promises of \<open>dev_set_mtu\<close>: it returns 0 or a negative error, and on success,
  and only then, the device has the MTU. Nothing else of the devices changes.
\<close>

definition set_mtu_spec :: "mtu_setter \<Rightarrow> bool" where
  "set_mtu_spec set_mtu \<longleftrightarrow> (\<forall>d m t r t'. set_mtu d m t = (r, t') \<longrightarrow> r \<le> 0 \<and>
     bare t' = bare (if r = 0 then set_nd_mtu d m t else t))"

lemma set_mtu_net:
  assumes "set_mtu_spec set_mtu"
  shows "t_net (snd (set_mtu d m t)) =
     (if fst (set_mtu d m t) = 0 then (t_net t)(d := (t_net t d)\<lparr>nd_mtu := m\<rparr>) else t_net t)"
proof -
  obtain r t' where s: "set_mtu d m t = (r, t')" by fastforce
  then have "bare t' = bare (if r = 0 then set_nd_mtu d m t else t)"
    using assms by (auto simp: set_mtu_spec_def)
  then have "t_net t' = t_net (if r = 0 then set_nd_mtu d m t else t)" by (metis bare_sel(7))
  then show ?thesis by (simp add: s set_nd_mtu_def)
qed

text \<open>The devices during the loop: those seen have the new MTU, the others are as they were.\<close>

definition partly_set :: "dsa_hw_port list \<Rightarrow> int \<Rightarrow> (netdev \<Rightarrow> dsa_netdev) \<Rightarrow> netdev \<Rightarrow> dsa_netdev" where
  "partly_set seen m net d = (if d \<in> hw_dev ` set seen then (net d)\<lparr>nd_mtu := m\<rparr> else net d)"

lemma hw_rollback_restores:
  assumes "set_mtu_spec set_mtu"
    and "\<And>p t. p \<in> set ps \<Longrightarrow> fst (set_mtu (hw_dev p) (hw_old_mtu p) t) = 0"
    and "\<And>p. p \<in> set ps \<Longrightarrow> nd_mtu (net (hw_dev p)) = hw_old_mtu p"
    and "t_net t = partly_set ps m net" "distinct (map hw_dev ps)"
  shows "t_net (hw_rollback set_mtu ps t) = net"
  using assms(2-5)
proof (induction ps arbitrary: t)
  case Nil
  then show ?case by (simp add: partly_set_def)
next
  case (Cons p ps)
  define u where "u = (if nd_mtu (t_net t (hw_dev p)) = hw_old_mtu p then t
    else snd (set_mtu (hw_dev p) (hw_old_mtu p) t))"
  have old: "nd_mtu (net (hw_dev p)) = hw_old_mtu p" using Cons.prems(2) by simp
  have "t_net u d = partly_set ps m net d" for d
  proof (cases "d = hw_dev p")
    case True
    have "(net (hw_dev p))\<lparr>nd_mtu := hw_old_mtu p\<rparr> = net (hw_dev p)" using old [symmetric] by simp
    then have "t_net u d = net d" using True Cons.prems(1) [of p t] Cons.prems(3) old
      by (auto simp: u_def set_mtu_net [OF assms(1)] partly_set_def)
    then show ?thesis using True Cons.prems(4) by (simp add: partly_set_def)
  next
    case False
    then show ?thesis using Cons.prems(1) [of p t] Cons.prems(3)
      by (auto simp: u_def set_mtu_net [OF assms(1)] partly_set_def)
  qed
  then show ?case using Cons.IH [of u] Cons.prems(1,2,4) by (auto simp: u_def [symmetric])
qed

lemma hw_set_all_or_nothing:
  assumes spec: "set_mtu_spec set_mtu"
    and accepts: "\<And>p t. p \<in> set (seen @ ps) \<Longrightarrow> fst (set_mtu (hw_dev p) (hw_old_mtu p) t) = 0"
    and old: "\<And>p. p \<in> set (seen @ ps) \<Longrightarrow> nd_mtu (net (hw_dev p)) = hw_old_mtu p"
    and net: "t_net t = partly_set seen m net" and dist: "distinct (map hw_dev (seen @ ps))"
  shows "t_net (snd (hw_set set_mtu seen ps m t)) =
    (if fst (hw_set set_mtu seen ps m t) = 0 then partly_set (seen @ ps) m net else net)"
  using accepts old net dist
proof (induction ps arbitrary: seen t)
  case Nil
  then show ?case by simp
next
  case (Cons p ps)
  have fresh: "hw_dev p \<notin> hw_dev ` set seen" using Cons.prems(4) by auto
  have shift: "partly_set ((p # seen) @ ps) m net = partly_set (seen @ p # ps) m net"
    by (auto simp: partly_set_def fun_eq_iff)
  have next_step: "t_net (snd (hw_set set_mtu (p # seen) ps m u)) =
      (if fst (hw_set set_mtu (p # seen) ps m u) = 0 then partly_set (seen @ p # ps) m net else net)"
    if "t_net u = partly_set (p # seen) m net" for u
    using Cons.IH [of "p # seen" u] Cons.prems that shift by auto
  show ?case
  proof (cases "nd_mtu (t_net t (hw_dev p)) = m")
    case True
    have "t_net t = partly_set (p # seen) m net"
      using True fresh Cons.prems(3) by (auto simp: partly_set_def fun_eq_iff)
    then show ?thesis using next_step [of t] True by simp
  next
    case False
    obtain r u where s: "set_mtu (hw_dev p) m t = (r, u)" by fastforce
    have u: "t_net u = (if r = 0 then (t_net t)(hw_dev p := (t_net t (hw_dev p))\<lparr>nd_mtu := m\<rparr>) else t_net t)"
      using set_mtu_net [OF spec, of "hw_dev p" m t] by (simp add: s)
    show ?thesis
    proof (cases "r = 0")
      case True
      have "t_net u = partly_set (p # seen) m net"
        using True fresh Cons.prems(3) u by (auto simp: partly_set_def fun_eq_iff)
      then show ?thesis using next_step [of u] True False s by simp
    next
      case r: False
      have "t_net (hw_rollback set_mtu seen u) = net"
        by (rule hw_rollback_restores [OF spec]) (use Cons.prems r u in auto)
      then show ?thesis using r False s by simp
    qed
  qed
qed

text \<open>
  Setting the MTU of the ports of a bridge is all or nothing: if every device accepts the
  change, all of them have the new MTU and nothing else of any device has changed; if one refuses,
  the error is returned and every device is as before, provided they take back the MTU they had.
\<close>

theorem bridge_mtu_all_or_nothing:
  assumes "set_mtu_spec set_mtu" "distinct (map hw_dev ps)"
    and "\<forall>p\<in>set ps. \<forall>t. fst (set_mtu (hw_dev p) (hw_old_mtu p) t) = 0"
    and "\<forall>p\<in>set ps. nd_mtu (t_net t (hw_dev p)) = hw_old_mtu p"
  shows "case dsa_hw_port_list_set_mtu set_mtu ps mtu t of (r, t') \<Rightarrow>
    t_net t' = (\<lambda>d. if r = 0 \<and> d \<in> hw_dev ` set ps then (t_net t d)\<lparr>nd_mtu := mtu\<rparr> else t_net t d)"
  using hw_set_all_or_nothing [of set_mtu "[]" ps "t_net t" t mtu] assms
  by (auto simp: dsa_hw_port_list_set_mtu_def partly_set_def fun_eq_iff split: prod.split)

text \<open>A kernel whose devices accept every MTU up to 1500.\<close>

definition small_mtu :: mtu_setter where
  "small_mtu d m t = (if m \<le> 1500 then (0, set_nd_mtu d m t) else (EINVAL_NEG, t))"

lemma small_mtu_spec: "set_mtu_spec small_mtu"
  by (simp add: set_mtu_spec_def small_mtu_def)

theorem bridge_mtu_all_or_nothing_witness:
  "t_net (snd (dsa_hw_port_list_set_mtu small_mtu [\<lparr>hw_dev = 1, hw_old_mtu = 1500\<rparr>, \<lparr>hw_dev = 2, hw_old_mtu = 1500\<rparr>]
     1600 board_tree)) = t_net board_tree"
proof -
  define ps where "ps = [\<lparr>hw_dev = 1, hw_old_mtu = 1500\<rparr>, \<lparr>hw_dev = 2, hw_old_mtu = 1500\<rparr>]"
  have "fst (dsa_hw_port_list_set_mtu small_mtu ps 1600 board_tree) \<noteq> 0"
    by (simp add: ps_def dsa_hw_port_list_set_mtu_def small_mtu_def board_tree_def)
  then show ?thesis
    using bridge_mtu_all_or_nothing [OF small_mtu_spec, of ps board_tree 1600]
    by (simp add: ps_def small_mtu_def board_tree_def split: prod.splits)
qed

lemma mtu_change_bare: "dsa_port_mtu_change drv dp m t = Some (r, t') \<Longrightarrow> bare t' = bare t"
  unfolding dsa_port_mtu_change_def by (rule port_notify_bare)

lemma bare_net: "bare t' = bare t \<Longrightarrow> t_net t' = t_net t"
  by (metis bare_sel(7))

lemma set_mtu_undo:
  assumes "set_mtu_spec set_mtu" "fst (set_mtu d (nd_mtu (net d)) u) = 0" "t_net u = net(d := (net d)\<lparr>nd_mtu := m\<rparr>)"
  shows "t_net (snd (set_mtu d (nd_mtu (net d)) u)) = net"
  using assms by (simp add: set_mtu_net fun_eq_iff)

lemma largest_mtu_ge:
  assumes "q \<in> set (t_ports t)" "dsa_port_is_user (t_dp t q)" "port_netdev (t_dp t q) = Some d"
  shows "(if q = dp then new_mtu else nd_mtu (t_net t d)) \<le> largest_mtu t dp new_mtu"
proof -
  define f where "f = (\<lambda>m q. case port_netdev (t_dp t q) of None \<Rightarrow> m
    | Some d \<Rightarrow> (let user_mtu = (if dp = q then new_mtu else nd_mtu (t_net t d)) in if m < user_mtu then user_mtu else m))"
  have "m \<le> f m q" for m q by (simp add: f_def Let_def split: option.splits)
  then have mono: "m \<le> foldl f m qs" for m qs
    by (induction qs arbitrary: m) (auto intro: order_trans)
  have "q \<in> set qs \<Longrightarrow> (if q = dp then new_mtu else nd_mtu (t_net t d)) \<le> foldl f m qs" for m qs
  proof (induction qs arbitrary: m)
    case (Cons x qs)
    show ?case
    proof (cases "q = x")
      case True
      have "(if q = dp then new_mtu else nd_mtu (t_net t d)) \<le> f m x"
        using assms(3) True by (auto simp: f_def Let_def)
      then show ?thesis using mono [of "f m x" qs] by simp
    qed (use Cons in auto)
  qed simp
  then show ?thesis using assms(1,2) by (simp add: largest_mtu_def f_def [symmetric])
qed

text \<open>
  The four ways in which a change can end: refused at once, refused by the conduit, refused later
  and undone, or applied. \<open>T\<close> is the tree with the new MTU of the conduit.
\<close>

lemma change_mtu_cases:
  fixes t drv set_mtu overhead dp new_mtu err t' dev conduit
  defines "c \<equiv> largest_mtu t dp new_mtu + overhead" and "old \<equiv> nd_mtu (t_net t conduit)"
  defines "T \<equiv> set_nd_mtu conduit c t"
  assumes spec: "set_mtu_spec set_mtu"
    and run: "dsa_user_change_mtu drv set_mtu overhead dp new_mtu t = Some (err, t')"
    and dev: "port_netdev (t_dp t dp) = Some dev" and con: "dsa_port_to_conduit t dp = Some conduit"
  shows "err \<noteq> 0 \<and> (bare t' = bare t \<or> (\<exists>u. bare u = bare T \<and> t' = snd (set_mtu conduit old u))) \<or>
    err = 0 \<and> (\<exists>u. bare u = bare T \<and> dsa_bridge_mtu_normalization drv set_mtu dp (set_nd_mtu dev new_mtu u) = Some t')"
proof -
  note d = dsa_user_change_mtu_def [of drv set_mtu overhead dp new_mtu t]
  obtain cpu_dp where cpu: "port_cpu_dp (t_dp t dp) = Some cpu_dp"
    using con by (auto simp: dsa_port_to_conduit_def bind_eq_Some_conv)
  have same: "c = old \<Longrightarrow> T = t" by (simp add: T_def old_def set_nd_mtu_def)
  obtain e1 t1 where s1: "(if c \<noteq> old then set_mtu conduit c t else (0, t)) = (e1, t1)" by fastforce
  have b1: "e1 \<le> 0" "bare t1 = bare (if e1 = 0 then T else t)"
    using s1 spec same by (auto simp: set_mtu_spec_def T_def split: if_splits)
  note run1 = run [unfolded d dev con cpu bind.bind_lunit Let_def, folded c_def old_def, unfolded s1 prod.case]
  show ?thesis
  proof (cases "\<not> port_has_op t dp Op_port_change_mtu \<or>
      c > min (nd_max_mtu (t_net t conduit)) (nd_max_mtu (t_net t dev) + overhead) \<or> e1 < 0")
    case True
    then show ?thesis using run1 b1 by (auto split: if_splits)
  next
    case False
    then have e1: "e1 = 0" "bare t1 = bare T" using b1 by auto
    have run2: "\<not> \<not> port_has_op t dp Op_port_change_mtu"
      "\<not> c > min (nd_max_mtu (t_net t conduit)) (nd_max_mtu (t_net t dev) + overhead)" "\<not> e1 < 0"
      using False by auto
    from run1 [unfolded if_not_P [OF run2(1)] if_not_P [OF run2(2)] if_not_P [OF run2(3)]] obtain e2 t2 where m: "(if c \<noteq> old then dsa_port_mtu_change drv cpu_dp (largest_mtu t dp new_mtu) t1
        else Some (0, t1)) = Some (e2, t2)"
      and rest: "(if e2 \<noteq> 0 then Some (e2, snd (set_mtu conduit old t2)) else do {
        (err, u) \<leftarrow> tree_call drv (port_ds (t_dp t dp)) Op_port_change_mtu
          (Port_change_mtu (port_ds (t_dp t dp)) (port_index (t_dp t2 dp)) new_mtu) t2;
        if err \<noteq> 0 then (if c \<noteq> old then do {
             (_, u) \<leftarrow> dsa_port_mtu_change drv cpu_dp (old - overhead) u;
             Some (err, snd (set_mtu conduit old u))} else Some (err, u))
        else do {u \<leftarrow> dsa_bridge_mtu_normalization drv set_mtu dp (set_nd_mtu dev new_mtu u); Some (0, u)}}) = Some (err, t')"
      by (rule bind_pairE)
    have b2: "bare t2 = bare T" using m e1 by (auto dest: mtu_change_bare split: if_splits)
    show ?thesis
    proof (cases "e2 = 0")
      case False
      then show ?thesis using rest b2 by auto
    next
      case True
      then have "\<not> e2 \<noteq> 0" by simp
      from rest [unfolded if_not_P [OF this]] obtain e3 t3 where c3: "tree_call drv (port_ds (t_dp t dp)) Op_port_change_mtu
          (Port_change_mtu (port_ds (t_dp t dp)) (port_index (t_dp t2 dp)) new_mtu) t2 = Some (e3, t3)"
        and rest3: "(if e3 \<noteq> 0 then (if c \<noteq> old then do {
             (_, u) \<leftarrow> dsa_port_mtu_change drv cpu_dp (old - overhead) t3;
             Some (e3, snd (set_mtu conduit old u))} else Some (e3, t3))
          else do {u \<leftarrow> dsa_bridge_mtu_normalization drv set_mtu dp (set_nd_mtu dev new_mtu t3); Some (0, u)}) = Some (err, t')"
        by (rule bind_pairE)
      have b3: "bare t3 = bare T" using call_bare [OF c3] b2 by simp
      show ?thesis
      proof (cases "e3 = 0")
        case True
        then show ?thesis using rest3 b3 by (auto simp: bind_eq_Some_conv)
      next
        case False
        show ?thesis
        proof (cases "c = old")
          case True
          then show ?thesis using rest3 b3 same False by simp
        next
          case neq: False
          have "\<exists>r u. dsa_port_mtu_change drv cpu_dp (old - overhead) t3 = Some (r, u) \<and> err = e3 \<and>
              t' = snd (set_mtu conduit old u)"
            using rest3 False neq by (auto elim!: bind_pairE)
          then show ?thesis using b3 False mtu_change_bare by metis
        qed
      qed
    qed
  qed
qed


text \<open>The board, with a driver that programs the MTU, and devices that use 1000 of at most 1500 bytes.\<close>

definition mtu_board :: dsa_tree where
  "mtu_board = fdb_board\<lparr>t_ds := (\<lambda>_. board_switch\<lparr>sw_ops := {Op_port_change_mtu}\<rparr>),
     t_net := (\<lambda>_. \<lparr>nd_mtu = 1000, nd_max_mtu = 1500, nd_hw_vlan_ctag_filter = False\<rparr>)\<rparr>"

lemma mtu_board_sel [simp]:
  "t_ports mtu_board = [0, 1, 2, 3, 4]" "t_nh mtu_board = [0]" "t_log mtu_board = []"
  "t_dp mtu_board = t_dp fdb_board" "sw_ops (t_ds mtu_board d) = {Op_port_change_mtu}"
  "sw_mtu_enforcement_ingress (t_ds mtu_board d) = False"
  "t_net mtu_board d = \<lparr>nd_mtu = 1000, nd_max_mtu = 1500, nd_hw_vlan_ctag_filter = False\<rparr>"
  by (simp_all add: mtu_board_def board_switch_def)

lemma fdb_board_dev [simp]:
  "port_netdev (t_dp fdb_board p) = Some p" "port_bridge (t_dp fdb_board p) = None"
  "dsa_port_is_user (t_dp fdb_board p) = (p < 4)" "dsa_port_is_cpu (t_dp fdb_board p) = (\<not> p < 4)"
  "dsa_port_is_dsa (t_dp fdb_board p) = False"
  by (simp_all add: fdb_board_def board_port_def dsa_port_is_user_def dsa_port_is_cpu_def dsa_port_is_dsa_def)

lemma mtu_board_run:
  "\<exists>t'. dsa_user_change_mtu (\<lambda>_ _. 0) small_mtu 8 2 1200 mtu_board = Some (0, t')"
  by (simp add: dsa_user_change_mtu_def dsa_port_to_conduit_def largest_mtu_def small_mtu_def set_nd_mtu_def
      port_has_op_def has_op_def dsa_port_mtu_change_def dsa_port_notify_def dsa_tree_notify_def
      dsa_switch_event_def dsa_switch_mtu_def dsa_switch_ports_def dsa_port_mtu_match_def tree_call_def
      call_op_def dsa_event_def dsa_bridge_mtu_normalization_def Let_def)


subsection \<open>VLANs come and go\<close>

text \<open>The tree without databases, log and pending work.\<close>

definition idle :: "dsa_tree \<Rightarrow> dsa_tree" where
  "idle t = bare (t\<lparr>t_work := []\<rparr>)"

lemma idle_alt: "idle t = (bare t)\<lparr>t_work := []\<rparr>"
  by (simp add: idle_def bare_def)

lemma idle_simps [simp]:
  "idle (t\<lparr>t_log := l\<rparr>) = idle t" "idle (t\<lparr>t_work := w\<rparr>) = idle t"
  by (simp_all add: idle_def bare_def)

lemma bare_idle: "bare t' = bare t \<Longrightarrow> idle t' = idle t"
  by (simp add: idle_alt)

lemma user_port_kept:
  assumes "idle u = idle t" "\<not> shared_port (t_dp t dp)"
  shows "t_dp u dp = t_dp t dp"
proof -
  have "bare_port (t_dp u dp) = bare_port (t_dp t dp)"
    using arg_cong [OF assms(1), of "\<lambda>t. t_dp t dp"] by (simp add: idle_def bare_def)
  then show ?thesis using assms(2) shared_port_bare [of "t_dp u dp"] by (auto simp: bare_port_def split: if_splits)
qed

lemma work_bare: "dsa_user_standalone_event_work drv wk t = Some t' \<Longrightarrow> bare t' = bare t"
  using object_requests_keep unfolding keeps_tree_def
  by (auto simp: dsa_user_standalone_event_work_def Let_def split: dsa_standalone_event.splits)

lemma works_bare: "fold_opt (\<lambda>t wk. dsa_user_standalone_event_work drv wk t) t wks = Some t' \<Longrightarrow> bare t' = bare t"
  by (induction wks arbitrary: t) (auto simp: bind_eq_Some_conv dest!: work_bare)

lemma flush_idle: "dsa_flush_workqueue drv t = Some t' \<Longrightarrow> idle t' = idle t"
  unfolding dsa_flush_workqueue_def by (drule works_bare, drule bare_idle) simp

lemma schedule_idle [simp]: "idle (snd (dsa_user_schedule_standalone_work drv dp ev addr vid t)) = idle t"
  by (simp add: dsa_user_schedule_standalone_work_def dsa_schedule_work_def Let_def split: prod.split)

lemma schedule_addrs_idle [simp]: "idle (schedule_addrs drv dp ev vid addrs t) = idle t"
proof (induction addrs arbitrary: t)
  case (Cons a addrs)
  then show ?case unfolding schedule_addrs_def by (simp add: schedule_addrs_def)
qed (simp add: schedule_addrs_def)

lemma vlan_ops_bare:
  "dsa_port_vlan_add drv dp v t = Some (r, t') \<Longrightarrow> bare t' = bare t"
  "dsa_port_vlan_del drv dp v t = Some (r, t') \<Longrightarrow> bare t' = bare t"
  using object_requests_keep(11,12) unfolding keeps_tree_def by blast+

lemma host_vlan_ops_bare:
  "dsa_port_host_vlan_add drv dp v t = Some (r, t') \<Longrightarrow> bare t' = bare t"
  "dsa_port_host_vlan_del drv dp v t = Some (r, t') \<Longrightarrow> bare t' = bare t"
  by (erule host_requests_keep(5,6) [unfolded keeps_tree_def, rule_format, THEN conjunct1])+

definition filters_addresses :: "dsa_tree \<Rightarrow> dp_ptr \<Rightarrow> bool" where
  "filters_addresses t dp \<longleftrightarrow>
     (let sw = t_ds t (port_ds (t_dp t dp)) in
      dsa_switch_supports_uc_filtering sw \<or> dsa_switch_supports_mc_filtering sw)"

definition upd_vlans :: "dp_ptr \<Rightarrow> (dsa_vlan list \<Rightarrow> dsa_vlan list) \<Rightarrow> dsa_tree \<Rightarrow> dsa_tree" where
  "upd_vlans dp f t = upd_port dp (\<lambda>p. p\<lparr>port_vlans := f (port_vlans p)\<rparr>) t"

lemma idle_upd_vlans:
  assumes "idle u = idle t" "\<not> shared_port (t_dp t dp)"
  shows "idle (upd_vlans dp f u) = idle (upd_vlans dp f t)"
proof -
  have "idle (upd_vlans dp f w) = upd_vlans dp f (idle w)" if "\<not> shared_port (t_dp w dp)" for w
    using that by (simp add: idle_def upd_vlans_def bare_def upd_port_def bare_port_def fun_eq_iff)
  then show ?thesis using assms user_port_kept [OF assms] by simp
qed

lemma idle_schedule_if [simp]:
  "idle (if c then schedule_addrs drv dp ev vid addrs t else t) = idle t"
  by simp

lemma add_vid_idle:
  assumes run: "dsa_user_vlan_rx_add_vid env drv dp vid t = Some (0, t')" and user: "\<not> shared_port (t_dp t dp)"
  shows "idle t' = idle (if filters_addresses t dp then upd_vlans dp (\<lambda>vs. vs @ [\<lparr>v_vid = vid, v_refcount = 0\<rparr>]) t else t)"
proof -
  obtain dev where dev: "port_netdev (t_dp t dp) = Some dev"
    using run by (auto simp: dsa_user_vlan_rx_add_vid_def bind_eq_Some_conv)
  define sw where "sw = t_ds t (port_ds (t_dp t dp))"
  note run1 = run [unfolded dsa_user_vlan_rx_add_vid_def dev bind.bind_lunit Let_def, folded sw_def]
  obtain r1 t1 where s1: "dsa_port_vlan_add drv dp (vlan_obj vid) t = Some (r1, t1)" by (rule bind_pairE [OF run1])
  have r1: "r1 = 0" using run1 unfolding s1 bind.bind_lunit by (auto split: if_splits)
  note run2 = run1 [unfolded s1 bind.bind_lunit prod.case r1 if_False simp_thms]
  obtain r2 t2 where s2: "dsa_port_host_vlan_add drv dp (vlan_obj vid) t1 = Some (r2, t2)" by (rule bind_pairE [OF run2])
  have r2: "r2 = 0" using run2 unfolding s2 bind.bind_lunit by (auto split: if_splits)
  note run3 = run2 [unfolded s2 bind.bind_lunit prod.case r2 if_False simp_thms]
  have b: "idle t2 = idle t" using vlan_ops_bare(1) [OF s1] host_vlan_ops_bare(1) [OF s2] bare_idle by metis
  show ?thesis
  proof (cases "filters_addresses t dp")
    case False
    then show ?thesis using run3 b by (simp add: filters_addresses_def Let_def sw_def)
  next
    case True
    then have c: "(\<not> dsa_switch_supports_uc_filtering sw \<and> \<not> dsa_switch_supports_mc_filtering sw) = False"
      by (auto simp: filters_addresses_def Let_def sw_def)
    obtain got l where k: "dsa_kzalloc drv (t_log t2) = (got, l)" by fastforce
    note run4 = run3 [unfolded c if_False k prod.case]
    have g: "got" using run4 by (auto elim!: bind_pairE split: if_splits)
    define u where "u = upd_vlans dp (\<lambda>vs. vs @ [\<lparr>v_vid = vid, v_refcount = 0\<rparr>]) (t2\<lparr>t_log := l\<rparr>)"
    note run5 = run4 [unfolded not_not if_P [OF g], folded u_def [unfolded upd_vlans_def]]
    have "idle t' = idle u" using run5 g by (auto simp: bind_eq_Some_conv dest!: flush_idle)
    also have "\<dots> = idle (upd_vlans dp (\<lambda>vs. vs @ [\<lparr>v_vid = vid, v_refcount = 0\<rparr>]) t)"
      unfolding u_def using idle_upd_vlans [of "t2\<lparr>t_log := l\<rparr>" t dp] b user by simp
    finally show ?thesis using True by simp
  qed
qed

lemma kill_vid_idle:
  assumes run: "dsa_user_vlan_rx_kill_vid env drv dp vid t = Some (0, t')" and user: "\<not> shared_port (t_dp t dp)"
  shows "if filters_addresses t dp
         then \<exists>i. dsa_vlan_find (port_vlans (t_dp t dp)) (vlan_obj vid) = Some i \<and>
                  idle t' = idle (upd_vlans dp (list_del_at i) t)
         else idle t' = idle t"
proof -
  obtain dev where dev: "port_netdev (t_dp t dp) = Some dev"
    using run by (auto simp: dsa_user_vlan_rx_kill_vid_def bind_eq_Some_conv)
  define sw where "sw = t_ds t (port_ds (t_dp t dp))"
  note run1 = run [unfolded dsa_user_vlan_rx_kill_vid_def dev bind.bind_lunit Let_def, folded sw_def]
  obtain r1 t1 where s1: "dsa_port_vlan_del drv dp (vlan_obj vid) t = Some (r1, t1)" by (rule bind_pairE [OF run1])
  have r1: "r1 = 0" using run1 unfolding s1 bind.bind_lunit by (auto split: if_splits)
  note run2 = run1 [unfolded s1 bind.bind_lunit prod.case r1 if_False simp_thms]
  obtain r2 t2 where s2: "dsa_port_host_vlan_del drv dp (vlan_obj vid) t1 = Some (r2, t2)" by (rule bind_pairE [OF run2])
  have r2: "r2 = 0" using run2 unfolding s2 bind.bind_lunit by (auto split: if_splits)
  note run3 = run2 [unfolded s2 bind.bind_lunit prod.case r2 if_False simp_thms]
  have b: "idle t2 = idle t" using vlan_ops_bare(2) [OF s1] host_vlan_ops_bare(2) [OF s2] bare_idle by metis
  show ?thesis
  proof (cases "filters_addresses t dp")
    case False
    then show ?thesis using run3 b by (simp add: filters_addresses_def Let_def sw_def)
  next
    case True
    then have c: "(\<not> dsa_switch_supports_uc_filtering sw \<and> \<not> dsa_switch_supports_mc_filtering sw) = False"
      by (auto simp: filters_addresses_def Let_def sw_def)
    note run4 = run3 [unfolded c if_False user_port_kept [OF b user]]
    obtain i where i: "dsa_vlan_find (port_vlans (t_dp t dp)) (vlan_obj vid) = Some i"
      using run4 by (auto split: option.splits)
    define u where "u = upd_vlans dp (list_del_at i) t2"
    note run5 = run4 [unfolded i option.case, folded u_def [unfolded upd_vlans_def]]
    have "idle t' = idle u" using run5 by (auto simp: bind_eq_Some_conv dest!: flush_idle)
    also have "\<dots> = idle (upd_vlans dp (list_del_at i) t)"
      unfolding u_def by (rule idle_upd_vlans [OF b user])
    finally show ?thesis using True i by simp
  qed
qed

lemma shared_upd_vlans [simp]: "shared_port (t_dp (upd_vlans dp f t) dp) = shared_port (t_dp t dp)"
  by (simp add: upd_vlans_def upd_port_def shared_port_def dsa_port_is_cpu_def dsa_port_is_dsa_def)

lemma filters_addresses_idle:
  assumes "idle u = idle t" "\<not> shared_port (t_dp t dp)"
  shows "filters_addresses u dp = filters_addresses t dp"
  using arg_cong [OF assms(1), of t_ds] user_port_kept [OF assms]
  by (simp add: filters_addresses_def idle_def bare_def)

lemma filters_upd_vlans [simp]: "filters_addresses (upd_vlans dp f t) dp = filters_addresses t dp"
  by (simp add: filters_addresses_def upd_vlans_def upd_port_def)

lemma find_appended:
  assumes "vid \<notin> set (map v_vid vs)"
  shows "dsa_vlan_find (vs @ [\<lparr>v_vid = vid, v_refcount = n\<rparr>]) (vlan_obj vid) = Some (length vs)"
  using assms by (induction vs) (auto simp: dsa_vlan_find_def vlan_obj_def)

lemma upd_vlans_undo:
  "upd_vlans dp (list_del_at (length (port_vlans (t_dp t dp)))) (upd_vlans dp (\<lambda>vs. vs @ [v]) t) = t"
  by (simp add: upd_vlans_def upd_port_def list_del_at_def)


definition plain_env :: stack_env where
  "plain_env = \<lparr>br_vlan_enabled = (\<lambda>_. False), br_mst_enabled = (\<lambda>_. False),
     br_mst_get_info = (\<lambda>_ _. (EOPNOTSUPP_NEG, [])), br_mst_get_state = (\<lambda>_ _. (EOPNOTSUPP_NEG, 0)),
     br_port_flag_is_set = (\<lambda>_ _. False), br_port_get_stp_state = (\<lambda>_. 3), br_get_ageing_time = (\<lambda>_. 300),
     clock_t_to_msecs = (\<lambda>n. 10 * n), br_vlan_get_info = (\<lambda>_ _. ENOENT_NEG), vlan_uppers = (\<lambda>_. []),
     vlan_filter = (\<lambda>_. []), synced_uc = (\<lambda>_. []), synced_mc = (\<lambda>_. []),
     unicast_flt = (\<lambda>_. True), master_bridge = (\<lambda>_. None), dsa_ptr = (\<lambda>_. None),
     netif_is_lag_master = (\<lambda>_. False)\<rparr>"

definition vlan_board :: dsa_tree where
  "vlan_board = fdb_board\<lparr>t_ds := (\<lambda>_. board_switch\<lparr>
     sw_ops := {Op_port_fdb_add, Op_port_fdb_del, Op_port_vlan_add, Op_port_vlan_del}, sw_fdb_isolation := True\<rparr>)\<rparr>"

lemma vlan_board_sel [simp]:
  "t_dp vlan_board = t_dp fdb_board" "t_ports vlan_board = [0, 1, 2, 3, 4]" "t_nh vlan_board = [0]"
  "t_log vlan_board = []" "t_work vlan_board = []"
  "sw_ops (t_ds vlan_board d) = {Op_port_fdb_add, Op_port_fdb_del, Op_port_vlan_add, Op_port_vlan_del}"
  "sw_fdb_isolation (t_ds vlan_board d)" "\<not> sw_vlan_filtering_is_global (t_ds vlan_board d)"
  "\<not> sw_needs_standalone_vlan_filtering (t_ds vlan_board d)" "sw_index (t_ds vlan_board d) = 0"
  by (simp_all add: vlan_board_def board_switch_def fdb_board_def board_tree_def)

lemma is_dsa_vlans [simp]: "dsa_port_is_dsa (p\<lparr>port_vlans := vs\<rparr>) = dsa_port_is_dsa p"
  by (simp add: dsa_port_is_dsa_def)

lemmas vlan_board_evals =
  dsa_port_vlan_add_def dsa_port_vlan_del_def dsa_port_host_vlan_add_def dsa_port_host_vlan_del_def vlan_obj_def
  dsa_port_to_conduit_def dsa_port_notify_def dsa_tree_notify_def dsa_switch_event_def dsa_switch_vlan_add_def
  dsa_switch_vlan_del_def dsa_switch_host_vlan_add_def dsa_switch_host_vlan_del_def dsa_switch_ports_def
  dsa_port_vlan_match_def dsa_port_host_vlan_match_def dsa_port_do_vlan_add_def dsa_port_do_vlan_del_def
  dsa_vlan_find_def has_op_def tree_call_def call_op_def dsa_event_def kernel_event_def dsa_kzalloc_def
  dsa_switch_supports_uc_filtering_def dsa_switch_supports_mc_filtering_def host_port_def on_port_def upd_port_def
  dsa_switch_is_upstream_of_def schedule_addrs_def dsa_flush_workqueue_def plain_env_def refcount_dec_and_test_def
  list_del_at_def

lemma vlan_board_run:
  "\<exists>t1 t2. dsa_user_vlan_rx_add_vid plain_env (\<lambda>_ _. 0) 2 7 vlan_board = Some (0, t1) \<and>
     dsa_user_vlan_rx_kill_vid plain_env (\<lambda>_ _. 0) 2 7 t1 = Some (0, t2)"
  by (simp add: dsa_user_vlan_rx_add_vid_def dsa_user_vlan_rx_kill_vid_def Let_def vlan_board_evals)


end
