(* ===== verification/Dsa_Bridge.thy ===== *)
theory Dsa_Bridge
  imports Dsa_User
begin

section \<open>Bridges and link aggregation groups\<close>

text \<open>
  The part of \<open>DSA/port.c\<close> that makes a port a member of a bridge or of a LAG and takes it out
  again, with the attributes a port inherits from its bridge, and the move of a port from one
  conduit to another.

  Bridges and LAGs are objects shared by their ports: the first port to join allocates the object, the
  last to leave frees it, and a reference count tells which is which. A new object is at an address
  that the allocator chooses: an argument of the operations that allocate. \<open>switchdev\<close> belongs to the
  kernel: \<open>offload\<close> and \<open>unoffload\<close> replay or take back the objects of the bridge port through
  the handlers of the user interfaces, so they may change the tree, and \<open>tx_fwd\<close> reads what the drivers
  wrote to \<open>info.tx_fwd_offload\<close> while they answered the calls of the log.

  The locales \<open>tree_view\<close> and \<open>attr_view\<close> collect what the requests and the attributes leave alone,
  for whatever view of the tree has their laws; they are interpreted on the memberships, the CPU ports and
  the settings of the VLAN filters. The theorems are in \<open>Dsa_Member\<close>.
\<close>

record bridge_env =
  offload :: "netdev \<Rightarrow> dp_ptr \<Rightarrow> bool \<Rightarrow> dsa_tree \<Rightarrow> (int \<times> dsa_tree) option"
  unoffload :: "netdev \<Rightarrow> dp_ptr \<Rightarrow> dsa_tree \<Rightarrow> dsa_tree option"
  tx_fwd :: "dsa_log \<Rightarrow> bool"

subsection \<open>VLAN filtering\<close>

definition dsa_port_can_apply_vlan_filtering :: "stack_env \<Rightarrow> dsa_tree \<Rightarrow> dp_ptr \<Rightarrow> bool \<Rightarrow> bool option" where
  "dsa_port_can_apply_vlan_filtering env t dp vlan_filtering =
     (let p = t_dp t dp; br = dsa_port_bridge_dev_get t p in do {
        clash \<leftarrow> (if vlan_filtering \<and> dsa_port_is_user p then do {
                     user \<leftarrow> port_netdev p;
                     Some (\<exists>vid\<in>set (vlan_uppers env user). br_vlan_get_info env br vid = 0)}
                   else Some False);
        Some (\<not> clash \<and>
          (\<not> sw_vlan_filtering_is_global (t_ds t (port_ds p)) \<or>
           (\<forall>other_dp\<in>set (dsa_switch_ports t (port_ds p)).
              case dsa_port_bridge_dev_get t (t_dp t other_dp) of
                None \<Rightarrow> True
              | Some other_br \<Rightarrow> Some other_br = br \<or> br_vlan_enabled env other_br = vlan_filtering)))})"

definition dsa_port_vlan_filtering ::
  "stack_env \<Rightarrow> driver \<Rightarrow> dp_ptr \<Rightarrow> bool \<Rightarrow> dsa_tree \<Rightarrow> (int \<times> dsa_tree) option" where
  "dsa_port_vlan_filtering env drv dp vlan_filtering t =
     (let old_vlan_filtering = dsa_port_is_vlan_filtering t (t_dp t dp); ds = port_ds (t_dp t dp);
          is_global = sw_vlan_filtering_is_global (t_ds t ds) in
      if \<not> port_has_op t dp Op_port_vlan_filtering then Some (EOPNOTSUPP_NEG, t)
      else do {
        can \<leftarrow> dsa_port_can_apply_vlan_filtering env t dp vlan_filtering;
        if \<not> can then Some (EINVAL_NEG, t)
        else if old_vlan_filtering = vlan_filtering then Some (0, t)
        else do {
          (err, t) \<leftarrow> port_op drv Op_port_vlan_filtering (Port_vlan_filtering vlan_filtering) dp t;
          if err \<noteq> 0 then Some (err, t)
          else do {
            (err, t) \<leftarrow>
              (if is_global then
                 until_err (\<lambda>other_dp t. if port_netdev (t_dp t other_dp) = None then Some (0, t)
                              else dsa_user_manage_vlan_filtering env drv other_dp vlan_filtering t)
                   (filter (\<lambda>q. dsa_port_is_user (t_dp t q)) (dsa_switch_ports t ds))
                   (upd_ds ds (\<lambda>s. s\<lparr>sw_vlan_filtering := vlan_filtering\<rparr>) t)
               else
                 dsa_user_manage_vlan_filtering env drv dp vlan_filtering
                   (upd_port dp (\<lambda>p. p\<lparr>port_vlan_filtering := vlan_filtering\<rparr>) t));
            if err = 0 then Some (0, t)
            else do {
              (_, t) \<leftarrow> port_op drv Op_port_vlan_filtering (Port_vlan_filtering old_vlan_filtering) dp t;
              Some (err, if is_global then upd_ds ds (\<lambda>s. s\<lparr>sw_vlan_filtering := old_vlan_filtering\<rparr>) t
                         else upd_port dp (\<lambda>p. p\<lparr>port_vlan_filtering := old_vlan_filtering\<rparr>) t)}}}})"

definition dsa_port_reset_vlan_filtering ::
  "stack_env \<Rightarrow> driver \<Rightarrow> dp_ptr \<Rightarrow> netdev \<Rightarrow> dsa_tree \<Rightarrow> dsa_tree option" where
  "dsa_port_reset_vlan_filtering env drv dp bridge_dev t =
     (let ds = port_ds (t_dp t dp); sw = t_ds t ds; vlan_filtering = sw_needs_standalone_vlan_filtering sw;
          change = (vlan_filtering \<noteq> br_vlan_enabled env bridge_dev);
          change = (change \<and> \<not> (sw_vlan_filtering_is_global sw \<and>
            (\<exists>other_dp\<in>set (dsa_switch_ports t ds).
               case dsa_port_bridge_dev_get t (t_dp t other_dp) of Some br \<Rightarrow> br_vlan_enabled env br | None \<Rightarrow> False)))
      in if \<not> change then Some t
         else map_option snd (dsa_port_vlan_filtering env drv dp vlan_filtering t))"

subsection \<open>Attributes of the bridge\<close>

text \<open>\<open>-EOPNOTSUPP\<close> is not an error when attributes are taken over.\<close>

definition dsa_port_switchdev_sync_attrs ::
  "stack_env \<Rightarrow> driver \<Rightarrow> dp_ptr \<Rightarrow> dsa_tree \<Rightarrow> (int \<times> dsa_tree) option" where
  "dsa_port_switchdev_sync_attrs env drv dp t = do {
     brport_dev \<leftarrow> dsa_port_to_bridge_port t dp;
     br \<leftarrow> dsa_port_bridge_dev_get t (t_dp t dp);
     (err, t) \<leftarrow> dsa_port_inherit_brport_flags env drv dp t;
     if err \<noteq> 0 then Some (err, t)
     else do {
       (err, t) \<leftarrow> dsa_port_set_state drv dp (br_port_get_stp_state env brport_dev) False t;
       if err \<noteq> 0 \<and> err \<noteq> EOPNOTSUPP_NEG then Some (err, t)
       else do {
         (err, t) \<leftarrow> dsa_port_vlan_filtering env drv dp (br_vlan_enabled env br) t;
         if err \<noteq> 0 \<and> err \<noteq> EOPNOTSUPP_NEG then Some (err, t)
         else do {
           (err, t) \<leftarrow> dsa_port_ageing_time env drv dp (br_get_ageing_time env br) t;
           if err \<noteq> 0 \<and> err \<noteq> EOPNOTSUPP_NEG then Some (err, t) else Some (0, t)}}}}"

definition dsa_port_switchdev_unsync_attrs ::
  "stack_env \<Rightarrow> driver \<Rightarrow> dp_ptr \<Rightarrow> netdev \<Rightarrow> dsa_tree \<Rightarrow> dsa_tree option" where
  "dsa_port_switchdev_unsync_attrs env drv dp bridge_dev t = do {
     t \<leftarrow> dsa_port_clear_brport_flags drv dp t;
     t \<leftarrow> dsa_port_set_state_now drv dp BR_STATE_FORWARDING True t;
     dsa_port_reset_vlan_filtering env drv dp bridge_dev t}"

subsection \<open>Joining and leaving a bridge\<close>

definition upd_br :: "br_ptr \<Rightarrow> (dsa_bridge \<Rightarrow> dsa_bridge) \<Rightarrow> dsa_tree \<Rightarrow> dsa_tree" where
  "upd_br b f t = t\<lparr>t_br := (t_br t)(b := f (t_br t b))\<rparr>"

definition dsa_port_bridge_create ::
  "driver \<Rightarrow> br_ptr \<Rightarrow> dp_ptr \<Rightarrow> netdev \<Rightarrow> dsa_tree \<Rightarrow> (int \<times> dsa_tree) option" where
  "dsa_port_bridge_create drv new_br dp br t =
     (let mx = sw_max_num_bridges (t_ds t (port_ds (t_dp t dp))) in
      case dsa_tree_bridge_find t br of
        Some bridge \<Rightarrow>
          Some (0, upd_port dp (\<lambda>p. p\<lparr>port_bridge := Some bridge\<rparr>)
                    (upd_br bridge (\<lambda>b. b\<lparr>br_refcount := refcount_inc (br_refcount b)\<rparr>) t))
      | None \<Rightarrow>
          (let (got, l) = dsa_kzalloc drv (t_log t); t = t\<lparr>t_log := l\<rparr> in
           if \<not> got then Some (ENOMEM_NEG, t)
           else do {
             (num, w) \<leftarrow> dsa_bridge_num_get [t] br mx (t_bridges t);
             if mx \<noteq> 0 \<and> num = 0 then Some (EOPNOTSUPP_NEG, t)
             else Some (0, upd_port dp (\<lambda>p. p\<lparr>port_bridge := Some new_br\<rparr>)
                    (upd_br new_br (\<lambda>_. \<lparr>br_dev = br, br_num = num, br_tx_fwd_offload = False, br_refcount = 1\<rparr>)
                      (t\<lparr>t_bridges := w\<rparr>)))}))"

definition dsa_port_bridge_destroy :: "dp_ptr \<Rightarrow> dsa_tree \<Rightarrow> dsa_tree option" where
  "dsa_port_bridge_destroy dp t = do {
     bridge \<leftarrow> port_bridge (t_dp t dp);
     let t = upd_port dp (\<lambda>p. p\<lparr>port_bridge := None\<rparr>) t;
     let (n, last) = refcount_dec_and_test (br_refcount (t_br t bridge));
     let t = upd_br bridge (\<lambda>b. b\<lparr>br_refcount := n\<rparr>) t;
     let num = br_num (t_br t bridge);
     Some (if last \<and> num \<noteq> 0 then t\<lparr>t_bridges := dsa_bridge_num_put num (t_bridges t)\<rparr> else t)}"

text \<open>The broadcast goes to every tree, and there is one.\<close>

definition broadcast :: "driver \<Rightarrow> dsa_notifier \<Rightarrow> dsa_tree \<Rightarrow> (int \<times> dsa_tree) option" where
  "broadcast drv e t = do {(err, ts) \<leftarrow> dsa_broadcast drv e [t]; Some (err, hd ts)}"

definition dsa_port_bridge_join ::
  "stack_env \<Rightarrow> bridge_env \<Rightarrow> driver \<Rightarrow> br_ptr \<Rightarrow> dp_ptr \<Rightarrow> netdev \<Rightarrow> dsa_tree \<Rightarrow> (int \<times> dsa_tree) option" where
  "dsa_port_bridge_join env sdev drv new_br dp br t = do {
     (refused, t) \<leftarrow> (if br_mst_enabled env br then do {
         (sup, t) \<leftarrow> dsa_port_supports_mst drv dp t; Some (\<not> sup, t)} else Some (False, t));
     if refused then Some (EOPNOTSUPP_NEG, t)
     else do {
       (err, t) \<leftarrow> dsa_port_bridge_create drv new_br dp br t;
       if err \<noteq> 0 then Some (err, t)
       else do {
         brport_dev \<leftarrow> dsa_port_to_bridge_port t dp;
         bridge \<leftarrow> port_bridge (t_dp t dp);
         let dev = br_dev (t_br t bridge);
         let num = br_num (t_br t bridge);
         (err, t) \<leftarrow> broadcast drv (DSA_NOTIFIER_BRIDGE_JOIN dp dev num) t;
         if err \<noteq> 0 then do {
           t \<leftarrow> dsa_port_bridge_destroy dp t;
           Some (err, t)}
         else do {
           let fwd = tx_fwd sdev (t_log t);
           let t = upd_br bridge (\<lambda>b. b\<lparr>br_tx_fwd_offload := fwd\<rparr>) t;
           (err, t) \<leftarrow> offload sdev brport_dev dp fwd t;
           if err \<noteq> 0 then do {
             (_, t) \<leftarrow> broadcast drv (DSA_NOTIFIER_BRIDGE_LEAVE dp dev num) t;
             t \<leftarrow> dsa_port_bridge_destroy dp t;
             Some (err, t)}
           else do {
             (err, t) \<leftarrow> dsa_port_switchdev_sync_attrs env drv dp t;
             if err \<noteq> 0 then do {
               t \<leftarrow> unoffload sdev brport_dev dp t;
               t \<leftarrow> dsa_flush_workqueue drv t;
               (_, t) \<leftarrow> broadcast drv (DSA_NOTIFIER_BRIDGE_LEAVE dp dev num) t;
               t \<leftarrow> dsa_port_bridge_destroy dp t;
               Some (err, t)}
             else Some (0, t)}}}}}"

definition dsa_port_pre_bridge_leave :: "bridge_env \<Rightarrow> driver \<Rightarrow> dp_ptr \<Rightarrow> dsa_tree \<Rightarrow> dsa_tree option" where
  "dsa_port_pre_bridge_leave sdev drv dp t =
     (case dsa_port_to_bridge_port t dp of
        None \<Rightarrow> Some t
      | Some brport_dev \<Rightarrow> do {
          t \<leftarrow> unoffload sdev brport_dev dp t;
          dsa_flush_workqueue drv t})"

definition dsa_port_bridge_leave ::
  "stack_env \<Rightarrow> driver \<Rightarrow> dp_ptr \<Rightarrow> dsa_tree \<Rightarrow> dsa_tree option" where
  "dsa_port_bridge_leave env drv dp t =
     (case port_bridge (t_dp t dp) of
        None \<Rightarrow> Some t
      | Some bridge \<Rightarrow>
          (let dev = br_dev (t_br t bridge); num = br_num (t_br t bridge) in do {
             t \<leftarrow> dsa_port_bridge_destroy dp t;
             (err, t) \<leftarrow> broadcast drv (DSA_NOTIFIER_BRIDGE_LEAVE dp dev num) t;
             dsa_port_switchdev_unsync_attrs env drv dp dev t}))"

subsection \<open>Joining and leaving a LAG\<close>

definition dsa_port_lag_change :: "driver \<Rightarrow> dp_ptr \<Rightarrow> bool \<Rightarrow> bool \<Rightarrow> dsa_tree \<Rightarrow> (int \<times> dsa_tree) option" where
  "dsa_port_lag_change drv dp link_up tx_en t =
     (let tx_enabled = (link_up \<and> tx_en) in
      if port_lag (t_dp t dp) = None then Some (0, t)
      else if tx_enabled = port_lag_tx_enabled (t_dp t dp) then Some (0, t)
      else dsa_port_notify drv dp (DSA_NOTIFIER_LAG_CHANGE dp)
             (upd_port dp (\<lambda>p. p\<lparr>port_lag_tx_enabled := tx_enabled\<rparr>) t))"

definition dsa_port_lag_create ::
  "driver \<Rightarrow> lag_ptr \<Rightarrow> dp_ptr \<Rightarrow> netdev \<Rightarrow> dsa_tree \<Rightarrow> (int \<times> dsa_tree) option" where
  "dsa_port_lag_create drv new_lag dp dev t =
     (case dsa_tree_lag_find t dev of
        Some lag \<Rightarrow>
          Some (0, upd_port dp (\<lambda>p. p\<lparr>port_lag := Some lag\<rparr>)
                    (upd_lag lag (\<lambda>g. g\<lparr>lag_refcount := refcount_inc (lag_refcount g)\<rparr>) t))
      | None \<Rightarrow>
          (let (got, l) = dsa_kzalloc drv (t_log t); t = t\<lparr>t_log := l\<rparr> in
           if \<not> got then Some (ENOMEM_NEG, t)
           else
             (let t = upd_lag new_lag (\<lambda>_. \<lparr>lag_dev = dev, lag_id = 0, lag_fdbs = [], lag_refcount = 1\<rparr>) t in
              Some (0, upd_port dp (\<lambda>p. p\<lparr>port_lag := Some new_lag\<rparr>) (dsa_lag_map new_lag t)))))"

definition dsa_port_lag_destroy :: "dp_ptr \<Rightarrow> dsa_tree \<Rightarrow> dsa_tree option" where
  "dsa_port_lag_destroy dp t = do {
     lag \<leftarrow> port_lag (t_dp t dp);
     let t = upd_port dp (\<lambda>p. p\<lparr>port_lag := None, port_lag_tx_enabled := False\<rparr>) t;
     let (n, last) = refcount_dec_and_test (lag_refcount (t_lag t lag));
     let t = upd_lag lag (\<lambda>g. g\<lparr>lag_refcount := n\<rparr>) t;
     Some (if last then dsa_lag_unmap lag t else t)}"

definition dsa_port_lag_join ::
  "stack_env \<Rightarrow> bridge_env \<Rightarrow> driver \<Rightarrow> lag_ptr \<Rightarrow> br_ptr \<Rightarrow> dp_ptr \<Rightarrow> netdev \<Rightarrow> dsa_tree \<Rightarrow> (int \<times> dsa_tree) option" where
  "dsa_port_lag_join env sdev drv new_lag new_br dp dev t = do {
     (err, t) \<leftarrow> dsa_port_lag_create drv new_lag dp dev t;
     if err \<noteq> 0 then Some (err, t)
     else do {
       lag \<leftarrow> port_lag (t_dp t dp);
       let ldev = lag_dev (t_lag t lag);
       (err, t) \<leftarrow> dsa_port_notify drv dp (DSA_NOTIFIER_LAG_JOIN dp ldev) t;
       if err \<noteq> 0 then do {
         t \<leftarrow> dsa_port_lag_destroy dp t;
         Some (err, t)}
       else
         (case master_bridge env dev of
            None \<Rightarrow> Some (0, t)
          | Some bridge_dev \<Rightarrow> do {
              (err, t) \<leftarrow> dsa_port_bridge_join env sdev drv new_br dp bridge_dev t;
              if err \<noteq> 0 then do {
                (_, t) \<leftarrow> dsa_port_notify drv dp (DSA_NOTIFIER_LAG_LEAVE dp ldev) t;
                t \<leftarrow> dsa_port_lag_destroy dp t;
                Some (err, t)}
              else Some (0, t)})}}"

definition dsa_port_pre_lag_leave :: "bridge_env \<Rightarrow> driver \<Rightarrow> dp_ptr \<Rightarrow> dsa_tree \<Rightarrow> dsa_tree option" where
  "dsa_port_pre_lag_leave sdev drv dp t =
     (if dsa_port_bridge_dev_get t (t_dp t dp) \<noteq> None then dsa_port_pre_bridge_leave sdev drv dp t else Some t)"

definition dsa_port_lag_leave :: "stack_env \<Rightarrow> driver \<Rightarrow> dp_ptr \<Rightarrow> dsa_tree \<Rightarrow> dsa_tree option" where
  "dsa_port_lag_leave env drv dp t =
     (if port_lag (t_dp t dp) = None then Some t
      else do {
        t \<leftarrow> (if dsa_port_bridge_dev_get t (t_dp t dp) \<noteq> None then dsa_port_bridge_leave env drv dp t else Some t);
        lag \<leftarrow> port_lag (t_dp t dp);
        let ldev = lag_dev (t_lag t lag);
        t \<leftarrow> dsa_port_lag_destroy dp t;
        (err, t) \<leftarrow> dsa_port_notify drv dp (DSA_NOTIFIER_LAG_LEAVE dp ldev) t;
        Some t})"

subsection \<open>Change of conduit\<close>

definition dsa_port_assign_conduit ::
  "stack_env \<Rightarrow> driver \<Rightarrow> dp_ptr \<Rightarrow> netdev \<Rightarrow> bool \<Rightarrow> dsa_tree \<Rightarrow> (int \<times> dsa_tree) option" where
  "dsa_port_assign_conduit env drv dp conduit fail_on_err t = do {
     (err, t) \<leftarrow> port_op drv Op_port_change_conduit (Port_change_conduit conduit) dp t;
     if err \<noteq> 0 \<and> fail_on_err then Some (err, t)
     else Some (0, upd_port dp (\<lambda>p. p\<lparr>port_cpu_dp := dsa_ptr env conduit,
                                      port_cpu_in_lag := netif_is_lag_master env conduit\<rparr>) t)}"

text \<open>The stages of the rewind, in the order in which they fall through.\<close>

definition rewind_old_bridge ::
  "stack_env \<Rightarrow> bridge_env \<Rightarrow> driver \<Rightarrow> br_ptr \<Rightarrow> dp_ptr \<Rightarrow> netdev option \<Rightarrow> dsa_tree \<Rightarrow> dsa_tree option" where
  "rewind_old_bridge env sdev drv new_br dp bridge_dev t =
     (case bridge_dev of
        None \<Rightarrow> Some t
      | Some br \<Rightarrow> map_option snd (dsa_port_bridge_join env sdev drv new_br dp br t))"

definition rewind_old_addrs ::
  "stack_env \<Rightarrow> bridge_env \<Rightarrow> driver \<Rightarrow> br_ptr \<Rightarrow> dp_ptr \<Rightarrow> netdev option \<Rightarrow> bool \<Rightarrow> dsa_tree \<Rightarrow> dsa_tree option" where
  "rewind_old_addrs env sdev drv new_br dp bridge_dev vlan_filtering t = do {
     t \<leftarrow> dsa_user_sync_ha env drv dp t;
     t \<leftarrow> (if vlan_filtering then map_option snd (dsa_user_manage_vlan_filtering env drv dp True t) else Some t);
     rewind_old_bridge env sdev drv new_br dp bridge_dev t}"

definition rewind_new_addrs ::
  "stack_env \<Rightarrow> bridge_env \<Rightarrow> driver \<Rightarrow> br_ptr \<Rightarrow> dp_ptr \<Rightarrow> netdev option \<Rightarrow> bool \<Rightarrow> netdev \<Rightarrow> dsa_tree \<Rightarrow> dsa_tree option" where
  "rewind_new_addrs env sdev drv new_br dp bridge_dev vlan_filtering old_conduit t = do {
     t \<leftarrow> dsa_user_unsync_ha env drv dp t;
     (_, t) \<leftarrow> dsa_port_assign_conduit env drv dp old_conduit False t;
     rewind_old_addrs env sdev drv new_br dp bridge_dev vlan_filtering t}"

definition dsa_port_change_conduit ::
  "stack_env \<Rightarrow> bridge_env \<Rightarrow> driver \<Rightarrow> br_ptr \<Rightarrow> br_ptr \<Rightarrow> dp_ptr \<Rightarrow> netdev \<Rightarrow> dsa_tree \<Rightarrow> (int \<times> dsa_tree) option" where
  "dsa_port_change_conduit env sdev drv new_br new_br' dp conduit t =
     (let bridge_dev = dsa_port_bridge_dev_get t (t_dp t dp) in do {
        old_conduit \<leftarrow> dsa_port_to_conduit t dp;
        t \<leftarrow> (if bridge_dev \<noteq> None then do {
                t \<leftarrow> dsa_port_pre_bridge_leave sdev drv dp t;
                dsa_port_bridge_leave env drv dp t} else Some t);
        let vlan_filtering = dsa_port_is_vlan_filtering t (t_dp t dp);
        (err, t) \<leftarrow> (if vlan_filtering then dsa_user_manage_vlan_filtering env drv dp False t else Some (0, t));
        if err \<noteq> 0 then do {
          t \<leftarrow> rewind_old_bridge env sdev drv new_br dp bridge_dev t;
          Some (err, t)}
        else do {
          t \<leftarrow> dsa_user_unsync_ha env drv dp t;
          (err, t) \<leftarrow> dsa_port_assign_conduit env drv dp conduit True t;
          if err \<noteq> 0 then do {
            t \<leftarrow> rewind_old_addrs env sdev drv new_br dp bridge_dev vlan_filtering t;
            Some (err, t)}
          else do {
            t \<leftarrow> dsa_user_sync_ha env drv dp t;
            (err, t) \<leftarrow> (if vlan_filtering then dsa_user_manage_vlan_filtering env drv dp True t else Some (0, t));
            if err \<noteq> 0 then do {
              t \<leftarrow> rewind_new_addrs env sdev drv new_br dp bridge_dev vlan_filtering old_conduit t;
              Some (err, t)}
            else
              (case bridge_dev of
                 None \<Rightarrow> Some (0, t)
               | Some br \<Rightarrow> do {
                   (err, t) \<leftarrow> dsa_port_bridge_join env sdev drv new_br dp br t;
                   if err = EOPNOTSUPP_NEG then do {
                     t \<leftarrow> (if vlan_filtering then map_option snd (dsa_user_manage_vlan_filtering env drv dp False t)
                           else Some t);
                     t \<leftarrow> rewind_new_addrs env sdev drv new_br' dp bridge_dev vlan_filtering old_conduit t;
                     Some (err, t)}
                   else Some (0, t)})}}})"

subsection \<open>Views of the tree\<close>

text \<open>
  What an operation leaves alone is stated with a view, a function of the tree: \<open>stays view t out m\<close> says
  that whatever \<open>m\<close> returns shows the same view as \<open>t\<close>, where \<open>out\<close> picks the tree from the result.
\<close>

definition stays :: "(dsa_tree \<Rightarrow> 'v) \<Rightarrow> dsa_tree \<Rightarrow> ('r \<Rightarrow> dsa_tree) \<Rightarrow> 'r option \<Rightarrow> bool" where
  "stays view t out m \<longleftrightarrow> (\<forall>x. m = Some x \<longrightarrow> view (out x) = view t)"

lemma staysD: "stays view t out m \<Longrightarrow> m = Some x \<Longrightarrow> view (out x) = view t"
  by (simp add: stays_def)

lemma stays_pairD: "stays view t snd m \<Longrightarrow> m = Some (r, t') \<Longrightarrow> view t' = view t"
  by (auto dest: staysD)

lemma stays_Some: "view (out x) = view t \<Longrightarrow> stays view t out (Some x)"
  by (simp add: stays_def)

lemma stays_bind_pair:
  fixes m :: "('r \<times> dsa_tree) option"
  assumes "stays view t snd m" "\<And>r u. view u = view t \<Longrightarrow> stays view t out (f r u)"
  shows "stays view t out (Option.bind m (\<lambda>(r, u). f r u))"
  using assms unfolding stays_def by (auto simp: bind_eq_Some_conv)

lemma stays_bind_tree:
  fixes m :: "dsa_tree option"
  assumes "stays view t (\<lambda>u. u) m" "\<And>u. view u = view t \<Longrightarrow> stays view t out (f u)"
  shows "stays view t out (Option.bind m f)"
  using assms unfolding stays_def by (auto simp: bind_eq_Some_conv)

lemma stays_bind_nat:
  "(\<And>x. stays view t out (f x)) \<Longrightarrow> stays view t out (Option.bind (m :: nat option) f)"
  unfolding stays_def by (auto simp: bind_eq_Some_conv)

lemma stays_bind_bool:
  "(\<And>x. stays view t out (f x)) \<Longrightarrow> stays view t out (Option.bind (m :: bool option) f)"
  unfolding stays_def by (auto simp: bind_eq_Some_conv)

lemma stays_if:
  "(c \<Longrightarrow> stays view t out m) \<Longrightarrow> (\<not> c \<Longrightarrow> stays view t out m') \<Longrightarrow> stays view t out (if c then m else m')"
  by simp

lemma stays_case_prod: "(\<And>a b. x = (a, b) \<Longrightarrow> stays view t out (f a b)) \<Longrightarrow> stays view t out (case x of (a, b) \<Rightarrow> f a b)"
  by (cases x) simp

lemma stays_case_option:
  "(x = None \<Longrightarrow> stays view t out m) \<Longrightarrow> (\<And>y. x = Some y \<Longrightarrow> stays view t out (f y)) \<Longrightarrow>
   stays view t out (case x of None \<Rightarrow> m | Some y \<Rightarrow> f y)"
  by (cases x) simp_all

lemma stays_map_snd: "stays view t snd m \<Longrightarrow> stays view t (\<lambda>u. u) (map_option snd m)"
  by (auto simp: stays_def)

lemma stays_until_err:
  assumes "\<And>p u. view u = view t \<Longrightarrow> stays view t snd (f p u)" "view u = view t"
  shows "stays view t snd (until_err f ps u)"
  using assms(2)
proof (induction ps arbitrary: u)
  case (Cons p ps)
  then show ?case unfolding until_err.simps by (intro stays_bind_pair stays_if stays_Some assms(1)) simp_all
qed (simp add: stays_Some)

lemma stays_fold_opt:
  assumes "\<And>u x. view u = view t \<Longrightarrow> stays view t (\<lambda>u. u) (f u x)" "view u = view t"
  shows "stays view t (\<lambda>u. u) (fold_opt f u xs)"
  using assms(2)
proof (induction xs arbitrary: u)
  case (Cons x xs)
  then show ?case unfolding fold_opt.simps by (intro stays_bind_tree assms(1)) simp_all
qed (simp add: stays_Some)

lemmas stays_rules = stays_if stays_bind_pair stays_bind_tree stays_bind_nat stays_bind_bool stays_case_prod
  stays_case_option stays_map_snd stays_until_err stays_fold_opt stays_Some

lemma broadcast_notify: "broadcast drv e t = dsa_tree_notify drv e t"
  by (cases "dsa_tree_notify drv e t") (auto simp: broadcast_def)

text \<open>
  The views that the requests of the interfaces and the attributes of a bridge do not touch. The first
  locale leaves the setting of the VLAN filter visible, the second does not.
\<close>

locale tree_view =
  fixes view :: "dsa_tree \<Rightarrow> 'v"
  assumes view_bare: "bare t' = bare t \<Longrightarrow> view t' = view t"
    and view_work: "view (t\<lparr>t_work := w\<rparr>) = view t"
    and view_net: "view (t\<lparr>t_net := n\<rparr>) = view t"
    and view_vlans: "view (upd_port dp (\<lambda>p. p\<lparr>port_vlans := f p\<rparr>) t) = view t"
    and view_attrs: "view (upd_port dp (\<lambda>p. p\<lparr>port_stp_state := s\<rparr>) t) = view t"
      "view (upd_port dp (\<lambda>p. p\<lparr>port_learning := b\<rparr>) t) = view t"
      "view (upd_port dp (\<lambda>p. p\<lparr>port_ageing_time := a\<rparr>) t) = view t"
begin

lemma view_log: "view (t\<lparr>t_log := l\<rparr>) = view t"
  by (rule view_bare) simp

lemmas view_simps = view_log view_work view_net view_vlans view_attrs

lemma view_kernel: "view (snd (kernel_event drv c t)) = view t"
  by (rule view_bare) simp

lemma stays_bare:
  "view u = view t \<Longrightarrow> (\<And>r t'. m = Some (r, t') \<Longrightarrow> bare t' = bare u) \<Longrightarrow> stays view t snd m"
  unfolding stays_def by (metis prod.collapse view_bare)

lemma stays_keeps_tree: "view u = view t \<Longrightarrow> keeps_tree g \<Longrightarrow> stays view t snd (g u)"
  by (rule stays_bare) (auto simp: keeps_tree_def)

lemma stays_calls:
  "view u = view t \<Longrightarrow> stays view t snd (dsa_port_notify drv dp e u)"
  "view u = view t \<Longrightarrow> stays view t snd (port_op drv op c dp u)"
  "view u = view t \<Longrightarrow> stays view t snd (dsa_port_vlan_add drv dp v u)"
  "view u = view t \<Longrightarrow> stays view t snd (dsa_port_vlan_del drv dp v u)"
  "view u = view t \<Longrightarrow> stays view t snd (dsa_port_host_vlan_add drv dp v u)"
  "view u = view t \<Longrightarrow> stays view t snd (dsa_port_host_vlan_del drv dp v u)"
  by (erule stays_keeps_tree [OF _ keeps_tree_notify])
    (erule stays_bare, erule port_op_bare,
     (erule stays_keeps_tree, rule object_requests_keep host_requests_keep)+)

lemma stays_fast_age: "view u = view t \<Longrightarrow> stays view t (\<lambda>u. u) (dsa_port_fast_age drv dp u)"
  by (auto simp: stays_def dest!: fast_age_bare view_bare)

lemma stays_can_configure:
  "view u = view t \<Longrightarrow> stays view t snd (dsa_port_can_configure_learning drv dp u)"
  unfolding dsa_port_can_configure_learning_def by (intro stays_rules stays_calls) simp_all

lemma stays_supports_mst: "view u = view t \<Longrightarrow> stays view t snd (dsa_port_supports_mst drv dp u)"
  unfolding dsa_port_supports_mst_def by (intro stays_rules stays_can_configure) simp_all

lemma stays_set_state: "view u = view t \<Longrightarrow> stays view t snd (dsa_port_set_state drv dp s b u)"
  unfolding dsa_port_set_state_def
  by (intro stays_rules stays_calls stays_can_configure stays_fast_age) (simp_all add: view_simps)

lemma stays_set_state_now: "view u = view t \<Longrightarrow> stays view t (\<lambda>u. u) (dsa_port_set_state_now drv dp s b u)"
  unfolding dsa_port_set_state_now_def by (intro stays_rules stays_set_state) simp_all

lemma stays_bridge_flags: "view u = view t \<Longrightarrow> stays view t snd (dsa_port_bridge_flags drv dp m v u)"
  unfolding dsa_port_bridge_flags_def Let_def
  by (intro stays_rules stays_calls stays_fast_age) (simp_all add: view_simps)

lemma stays_brport_flags:
  "view u = view t \<Longrightarrow> stays view t snd (dsa_port_inherit_brport_flags env drv dp u)"
  "view u = view t \<Longrightarrow> stays view t (\<lambda>u. u) (dsa_port_clear_brport_flags drv dp u)"
  unfolding dsa_port_inherit_brport_flags_def dsa_port_clear_brport_flags_def Let_def
  by (intro stays_rules stays_bridge_flags; simp)+

lemma stays_ageing_time: "view u = view t \<Longrightarrow> stays view t snd (dsa_port_ageing_time env drv dp a u)"
  unfolding dsa_port_ageing_time_def Let_def by (intro stays_rules stays_calls) (simp_all add: view_simps)

lemma stays_work: "view u = view t \<Longrightarrow> stays view t (\<lambda>u. u) (dsa_user_standalone_event_work drv wk u)"
  by (auto simp: stays_def dest!: work_bare view_bare)

lemma stays_flush: "view u = view t \<Longrightarrow> stays view t (\<lambda>u. u) (dsa_flush_workqueue drv u)"
  unfolding dsa_flush_workqueue_def by (intro stays_rules stays_work) (simp_all add: view_simps)

lemma view_schedule: "view (snd (dsa_user_schedule_standalone_work drv dp ev addr vid t)) = view t"
  by (simp add: dsa_user_schedule_standalone_work_def dsa_schedule_work_def Let_def view_simps split: prod.split)

lemma view_schedule_addrs: "view (schedule_addrs drv dp ev vid addrs t) = view t"
  unfolding schedule_addrs_def by (induction addrs arbitrary: t) (simp_all add: view_schedule)

lemma stays_rx_vid:
  "view u = view t \<Longrightarrow> stays view t snd (dsa_user_vlan_rx_add_vid env drv dp vid u)"
  "view u = view t \<Longrightarrow> stays view t snd (dsa_user_vlan_rx_kill_vid env drv dp vid u)"
  unfolding dsa_user_vlan_rx_add_vid_def dsa_user_vlan_rx_kill_vid_def Let_def
  by (intro stays_rules stays_calls stays_flush; simp add: view_simps view_schedule_addrs)+

lemma stays_manage_vlan: "view u = view t \<Longrightarrow> stays view t snd (dsa_user_manage_vlan_filtering env drv dp b u)"
  unfolding dsa_user_manage_vlan_filtering_def dsa_user_restore_vlan_def dsa_user_clear_vlan_def
  by (intro stays_rules stays_rx_vid; simp add: view_simps set_ctag_filter_def)

lemma stays_vlan_for_each:
  "view u = view t \<Longrightarrow> stays view t snd (dsa_user_vlan_for_each (dsa_user_host_vlan_rx_filtering drv dp ev addr) dp u)"
  unfolding dsa_user_vlan_for_each_def dsa_user_host_vlan_rx_filtering_def
  by (intro stays_rules) (simp_all add: view_schedule)

lemma stays_sync_addr:
  "view u = view t \<Longrightarrow> stays view t snd (dsa_user_sync_uc drv dp a u)"
  "view u = view t \<Longrightarrow> stays view t snd (dsa_user_unsync_uc drv dp a u)"
  "view u = view t \<Longrightarrow> stays view t snd (dsa_user_sync_mc drv dp a u)"
  "view u = view t \<Longrightarrow> stays view t snd (dsa_user_unsync_mc drv dp a u)"
  unfolding dsa_user_sync_uc_def dsa_user_unsync_uc_def dsa_user_sync_mc_def dsa_user_unsync_mc_def Let_def
  by (intro stays_rules stays_vlan_for_each; simp add: view_kernel)+

lemma stays_host_addresses:
  "view u = view t \<Longrightarrow> stays view t (\<lambda>u. u) (dsa_user_sync_ha env drv dp u)"
  "view u = view t \<Longrightarrow> stays view t (\<lambda>u. u) (dsa_user_unsync_ha env drv dp u)"
  unfolding dsa_user_sync_ha_def dsa_user_unsync_ha_def each_addr_def flush_if_filtering_def Let_def
  by (intro stays_rules stays_sync_addr stays_flush; simp)+

lemma stays_broadcast: "view u = view t \<Longrightarrow> stays view t snd (broadcast drv e u)"
  unfolding broadcast_notify by (erule stays_bare) (rule keeps_bareD [OF notify_bare])

end

locale attr_view = tree_view +
  assumes view_filtering: "view (upd_port dp (\<lambda>p. p\<lparr>port_vlan_filtering := b\<rparr>) t) = view t"
      "view (upd_ds ds (\<lambda>s. s\<lparr>sw_vlan_filtering := b\<rparr>) t) = view t"
begin

lemma stays_vlan_filtering: "view u = view t \<Longrightarrow> stays view t snd (dsa_port_vlan_filtering env drv dp b u)"
  unfolding dsa_port_vlan_filtering_def Let_def
  by (intro stays_rules stays_calls stays_manage_vlan) (simp_all add: view_filtering)

lemma stays_reset_vlan:
  "view u = view t \<Longrightarrow> stays view t (\<lambda>u. u) (dsa_port_reset_vlan_filtering env drv dp br u)"
  unfolding dsa_port_reset_vlan_filtering_def Let_def by (intro stays_rules stays_vlan_filtering) simp_all

lemma stays_sync_attrs: "view u = view t \<Longrightarrow> stays view t snd (dsa_port_switchdev_sync_attrs env drv dp u)"
  unfolding dsa_port_switchdev_sync_attrs_def
  by (intro stays_rules stays_brport_flags stays_set_state stays_vlan_filtering stays_ageing_time) simp_all

lemma stays_unsync_attrs:
  "view u = view t \<Longrightarrow> stays view t (\<lambda>u. u) (dsa_port_switchdev_unsync_attrs env drv dp br u)"
  unfolding dsa_port_switchdev_unsync_attrs_def
  by (intro stays_rules stays_brport_flags stays_set_state_now stays_reset_vlan) simp_all

end

text \<open>
  The views: the memberships with the objects behind them (but for the flag \<open>tx_fwd_offload\<close>), the CPU ports of the ports, the
  settings of the VLAN filters.
\<close>

record membership =
  m_ports :: "dp_ptr list"
  m_ds :: "dp_ptr \<Rightarrow> ds_ptr"
  m_bridge :: "dp_ptr \<Rightarrow> br_ptr option"
  m_lag :: "dp_ptr \<Rightarrow> lag_ptr option"
  m_br :: "br_ptr \<Rightarrow> dsa_bridge"
  m_lagobj :: "lag_ptr \<Rightarrow> dsa_lag"
  m_lags :: "lag_ptr option list"
  m_bridges :: u64
  m_max :: "ds_ptr \<Rightarrow> nat"

definition members :: "dsa_tree \<Rightarrow> membership" where
  "members t = \<lparr>m_ports = t_ports t, m_ds = (\<lambda>p. port_ds (t_dp t p)), m_bridge = (\<lambda>p. port_bridge (t_dp t p)),
     m_lag = (\<lambda>p. port_lag (t_dp t p)),
     m_br = (\<lambda>b. (t_br t b)\<lparr>br_tx_fwd_offload := False\<rparr>), m_lagobj = (\<lambda>g. bare_lag (t_lag t g)),
     m_lags = t_lags t, m_bridges = t_bridges t, m_max = (\<lambda>d. sw_max_num_bridges (t_ds t d))\<rparr>"

definition cpu_links :: "dsa_tree \<Rightarrow> dp_ptr \<Rightarrow> dp_ptr option \<times> bool" where
  "cpu_links t p = (port_cpu_dp (t_dp t p), port_cpu_in_lag (t_dp t p))"

definition filters :: "dsa_tree \<Rightarrow> (dp_ptr \<Rightarrow> ds_ptr \<times> bool) \<times> (ds_ptr \<Rightarrow> bool \<times> bool)" where
  "filters t = ((\<lambda>p. (port_ds (t_dp t p), port_vlan_filtering (t_dp t p))),
     (\<lambda>d. (sw_vlan_filtering_is_global (t_ds t d), sw_vlan_filtering (t_ds t d))))"

lemma views_bare: "members (bare t) = members t" "cpu_links (bare t) = cpu_links t" "filters (bare t) = filters t"
  by (simp_all add: members_def cpu_links_def filters_def fun_eq_iff bare_sel) (simp add: bare_lag_def)

lemma views_upd_port:
  "members (upd_port dp (\<lambda>p. p\<lparr>port_vlans := f p\<rparr>) t) = members t"
  "members (upd_port dp (\<lambda>p. p\<lparr>port_stp_state := s\<rparr>) t) = members t"
  "members (upd_port dp (\<lambda>p. p\<lparr>port_learning := b\<rparr>) t) = members t"
  "members (upd_port dp (\<lambda>p. p\<lparr>port_ageing_time := a\<rparr>) t) = members t"
  "members (upd_port dp (\<lambda>p. p\<lparr>port_vlan_filtering := b\<rparr>) t) = members t"
  "members (upd_ds ds (\<lambda>s. s\<lparr>sw_vlan_filtering := b\<rparr>) t) = members t"
  by (simp_all add: members_def upd_port_def upd_ds_def fun_eq_iff)

interpretation mv: attr_view members
  by unfold_locales (simp_all add: views_upd_port, metis views_bare(1), simp_all add: members_def)

interpretation cv: attr_view cpu_links
  by unfold_locales (metis views_bare(2), simp_all add: cpu_links_def upd_port_def upd_ds_def fun_eq_iff)

interpretation fv: tree_view filters
  by unfold_locales (metis views_bare(3), simp_all add: filters_def upd_port_def fun_eq_iff)

end
