(* ===== verification/Dsa_Member.thy ===== *)
theory Dsa_Member
  imports Dsa_Bridge
begin

section \<open>Memberships of bridges and LAGs\<close>

text \<open>
  What the operations of \<open>Dsa_Bridge\<close> do to the memberships. The locale \<open>shared_object\<close> is the contract of an
  object that ports share under a reference count; it is interpreted on bridges and on LAGs. The numbers of the bridges
  and the slots of the LAGs are on top of it. Joining and leaving are then steps of a transition system, each of which
  creates an object, destroys one, undoes a creation, or leaves the memberships alone.

  The theorems: in every history of joining and leaving, the reference count of an object is the number
  of its ports, there is one object per device, and a number is taken exactly while an object in use
  carries it; a join that fails leaves the memberships as they were; joining and leaving again restores them;
  VLAN filtering that cannot be switched leaves the settings as they were; a change of conduit that fails leaves the
  port with its old CPU port, but one that succeeds may lose the bridge of the port.
\<close>

subsection \<open>Shared objects\<close>

text \<open>
  The contract that bridges and LAGs share: a port refers to at most one object; an object has a device and a
  reference count. The invariant: the count of an object in use is the number of its ports, and two
  objects in use have different devices.
\<close>

definition users :: "(dp_ptr \<Rightarrow> nat option) \<Rightarrow> dp_ptr list \<Rightarrow> nat \<Rightarrow> nat" where
  "users ref ps b = length (filter (\<lambda>p. ref p = Some b) ps)"

definition in_use :: "(dp_ptr \<Rightarrow> nat option) \<Rightarrow> dp_ptr list \<Rightarrow> nat \<Rightarrow> bool" where
  "in_use ref ps b \<longleftrightarrow> (\<exists>p\<in>set ps. ref p = Some b)"

definition objects_ok :: "dp_ptr list \<Rightarrow> (dp_ptr \<Rightarrow> nat option) \<Rightarrow> (nat \<Rightarrow> nat) \<Rightarrow> (nat \<Rightarrow> netdev) \<Rightarrow> bool" where
  "objects_ok ps ref cnt dev \<longleftrightarrow> distinct ps \<and> length ps < REFCOUNT_MAX \<and>
     (\<forall>b. in_use ref ps b \<longrightarrow> cnt b = users ref ps b) \<and>
     (\<forall>b c. in_use ref ps b \<and> in_use ref ps c \<and> dev b = dev c \<longrightarrow> b = c)"

definition object_of :: "dp_ptr list \<Rightarrow> (dp_ptr \<Rightarrow> nat option) \<Rightarrow> (nat \<Rightarrow> netdev) \<Rightarrow> netdev \<Rightarrow> nat option" where
  "object_of ps ref dev d =
     do {p \<leftarrow> find (\<lambda>p. case ref p of Some b \<Rightarrow> dev b = d | None \<Rightarrow> False) ps; ref p}"

lemma object_of_Some: "object_of ps ref dev d = Some b \<Longrightarrow> in_use ref ps b \<and> dev b = d"
  by (auto simp: object_of_def in_use_def bind_eq_Some_conv find_Some_iff split: option.splits)

lemma object_of_None: "object_of ps ref dev d = None \<Longrightarrow> in_use ref ps b \<Longrightarrow> dev b \<noteq> d"
  by (cases "find (\<lambda>p. case ref p of Some b \<Rightarrow> dev b = d | None \<Rightarrow> False) ps")
    (auto simp: object_of_def in_use_def find_None_iff find_Some_iff split: option.splits)

lemma users_pos: "in_use ref ps b \<longleftrightarrow> 0 < users ref ps b"
  by (auto simp: in_use_def users_def filter_empty_conv)

lemma users_le: "users ref ps b \<le> length ps"
  by (simp add: users_def)

lemma filter_gain:
  assumes "distinct ps" "dp \<in> set ps" "\<not> P dp" "Q dp" "\<And>p. p \<noteq> dp \<Longrightarrow> Q p = P p"
  shows "length (filter Q ps) = Suc (length (filter P ps))"
proof -
  have "set (filter Q ps) = insert dp (set (filter P ps))" using assms by auto metis+
  moreover have "dp \<notin> set (filter P ps)" using assms(3) by simp
  ultimately show ?thesis
    using assms(1) distinct_card [of "filter Q ps"] distinct_card [of "filter P ps"] by simp
qed

lemma users_attach:
  assumes "distinct ps" "dp \<in> set ps" "ref dp = None"
  shows "users (ref(dp \<mapsto> b)) ps c = (if c = b then Suc (users ref ps c) else users ref ps c)"
proof (cases "c = b")
  case True
  then show ?thesis
    using filter_gain [OF assms(1,2), of "\<lambda>p. ref p = Some b" "\<lambda>p. (ref(dp \<mapsto> b)) p = Some b"] assms(3)
    by (simp add: users_def)
next
  case False
  then show ?thesis using assms(3) by (auto simp: users_def intro!: arg_cong [of _ _ length] filter_cong)
qed

lemma users_detach:
  assumes "distinct ps" "dp \<in> set ps" "ref dp = Some b"
  shows "users (ref(dp := None)) ps c = (if c = b then users ref ps c - 1 else users ref ps c)"
proof -
  have "users ref ps c = (if c = b then Suc (users (ref(dp := None)) ps c) else users (ref(dp := None)) ps c)"
    using users_attach [OF assms(1,2), of "ref(dp := None)" b c] assms(3)
    by (simp add: fun_upd_idem [of ref dp "Some b"])
  then show ?thesis by (simp split: if_splits)
qed

locale shared_object =
  fixes ref :: "dsa_tree \<Rightarrow> dp_ptr \<Rightarrow> nat option"
    and cnt :: "dsa_tree \<Rightarrow> nat \<Rightarrow> nat"
    and dev :: "dsa_tree \<Rightarrow> nat \<Rightarrow> netdev"
    and create :: "driver \<Rightarrow> nat \<Rightarrow> dp_ptr \<Rightarrow> netdev \<Rightarrow> dsa_tree \<Rightarrow> (int \<times> dsa_tree) option"
    and destroy :: "dp_ptr \<Rightarrow> dsa_tree \<Rightarrow> dsa_tree option"
  assumes create_refused: "create drv new dp d t = Some (r, t') \<Longrightarrow> r \<noteq> 0 \<Longrightarrow>
      t_ports t' = t_ports t \<and> ref t' = ref t \<and> cnt t' = cnt t \<and> dev t' = dev t"
    and create_found: "create drv new dp d t = Some (0, t') \<Longrightarrow> object_of (t_ports t) (ref t) (dev t) d = Some b \<Longrightarrow>
      t_ports t' = t_ports t \<and> ref t' = (ref t)(dp \<mapsto> b) \<and> cnt t' = (cnt t)(b := refcount_inc (cnt t b)) \<and> dev t' = dev t"
    and create_new: "create drv new dp d t = Some (0, t') \<Longrightarrow> object_of (t_ports t) (ref t) (dev t) d = None \<Longrightarrow>
      t_ports t' = t_ports t \<and> ref t' = (ref t)(dp \<mapsto> new) \<and> cnt t' = (cnt t)(new := 1) \<and> dev t' = (dev t)(new := d)"
    and destroy_law: "destroy dp t = Some t' \<Longrightarrow> \<exists>b. ref t dp = Some b \<and>
      t_ports t' = t_ports t \<and> ref t' = (ref t)(dp := None) \<and>
      cnt t' = (cnt t)(b := fst (refcount_dec_and_test (cnt t b))) \<and> dev t' = dev t"
begin

lemma create_keeps:
  assumes ok: "objects_ok (t_ports t) (ref t) (cnt t) (dev t)" and dp: "dp \<in> set (t_ports t)" "ref t dp = None"
    and new: "\<not> in_use (ref t) (t_ports t) new" and run: "create drv new dp d t = Some (r, t')"
  shows "objects_ok (t_ports t') (ref t') (cnt t') (dev t')"
proof (cases "r = 0")
  case False
  then show ?thesis using create_refused [OF run] ok by simp
next
  case True
  note run = run [unfolded True]
  have ps: "distinct (t_ports t)" "length (t_ports t) < REFCOUNT_MAX"
    and c: "\<And>b. in_use (ref t) (t_ports t) b \<Longrightarrow> cnt t b = users (ref t) (t_ports t) b"
    and one: "\<And>b c. \<lbrakk>in_use (ref t) (t_ports t) b; in_use (ref t) (t_ports t) c; dev t b = dev t c\<rbrakk> \<Longrightarrow> b = c"
    using ok unfolding objects_ok_def by blast+
  note att = users_attach [OF ps(1) dp(1), of "ref t", OF dp(2)]
  show ?thesis
  proof (cases "object_of (t_ports t) (ref t) (dev t) d")
    case (Some b)
    note b = object_of_Some [OF Some]
    have use: "in_use ((ref t)(dp \<mapsto> b)) (t_ports t) x = in_use (ref t) (t_ports t) x" for x
      using b by (simp add: users_pos att)
    have "refcount_inc (cnt t b) = Suc (users (ref t) (t_ports t) b)"
      using c [of b] b ps(2) users_le [of "ref t" "t_ports t" b] by (simp add: refcount_inc_def users_pos)
    then show ?thesis using create_found [OF run Some] ps c one by (auto simp: objects_ok_def use att)
  next
    case None
    have use: "in_use ((ref t)(dp \<mapsto> new)) (t_ports t) x = (x = new \<or> in_use (ref t) (t_ports t) x)" for x
      by (simp add: users_pos att)
    have "users (ref t) (t_ports t) new = 0" using new by (simp add: users_pos)
    then show ?thesis
      using create_new [OF run None] ps c one new object_of_None [OF None] by (auto simp: objects_ok_def use att)
  qed
qed

lemma destroy_keeps:
  assumes ok: "objects_ok (t_ports t) (ref t) (cnt t) (dev t)" and dp: "dp \<in> set (t_ports t)"
    and run: "destroy dp t = Some t'"
  shows "objects_ok (t_ports t') (ref t') (cnt t') (dev t')"
proof -
  obtain b where b: "ref t dp = Some b" and t': "t_ports t' = t_ports t" "ref t' = (ref t)(dp := None)"
      "cnt t' = (cnt t)(b := fst (refcount_dec_and_test (cnt t b)))" "dev t' = dev t"
    using destroy_law [OF run] by blast
  have ps: "distinct (t_ports t)" "length (t_ports t) < REFCOUNT_MAX"
    and c: "\<And>b. in_use (ref t) (t_ports t) b \<Longrightarrow> cnt t b = users (ref t) (t_ports t) b"
    and one: "\<And>b c. \<lbrakk>in_use (ref t) (t_ports t) b; in_use (ref t) (t_ports t) c; dev t b = dev t c\<rbrakk> \<Longrightarrow> b = c"
    using ok unfolding objects_ok_def by blast+
  note det = users_detach [OF ps(1) dp, of "ref t", OF b]
  have use: "in_use ((ref t)(dp := None)) (t_ports t) x \<Longrightarrow> in_use (ref t) (t_ports t) x" for x
    by (auto simp: users_pos det split: if_splits)
  have "in_use (ref t) (t_ports t) b" using b dp by (auto simp: in_use_def)
  then have "fst (refcount_dec_and_test (cnt t b)) = users (ref t) (t_ports t) b - 1"
    using c [of b] ps(2) users_le [of "ref t" "t_ports t" b] by (auto simp: refcount_dec_and_test_def users_pos)
  then show ?thesis using ps c one use by (auto simp: objects_ok_def t' det)
qed

end

definition bridge_ref :: "dsa_tree \<Rightarrow> dp_ptr \<Rightarrow> br_ptr option" where
  "bridge_ref t p = port_bridge (t_dp t p)"

definition lag_ref :: "dsa_tree \<Rightarrow> dp_ptr \<Rightarrow> lag_ptr option" where
  "lag_ref t p = port_lag (t_dp t p)"

lemma bridge_find_object: "dsa_tree_bridge_find t d = object_of (t_ports t) (bridge_ref t) (\<lambda>b. br_dev (t_br t b)) d"
  by (auto simp: dsa_tree_bridge_find_def object_of_def bridge_ref_def dsa_port_bridge_dev_get_def
      intro!: arg_cong2 [of _ _ _ _ Option.bind] arg_cong2 [of _ _ _ _ find] split: option.split)

lemma lag_find_object: "dsa_tree_lag_find t d = object_of (t_ports t) (lag_ref t) (\<lambda>b. lag_dev (t_lag t b)) d"
  by (auto simp: dsa_tree_lag_find_def object_of_def lag_ref_def dsa_port_lag_dev_get_def
      intro!: arg_cong2 [of _ _ _ _ Option.bind] arg_cong2 [of _ _ _ _ find] split: option.split)

lemmas member_store = upd_port_def upd_br_def upd_lag_def bridge_ref_def lag_ref_def

interpretation bro: shared_object bridge_ref "\<lambda>t b. br_refcount (t_br t b)" "\<lambda>t b. br_dev (t_br t b)"
  dsa_port_bridge_create dsa_port_bridge_destroy
proof (unfold_locales, goal_cases)
  case (1 drv new dp d t r t')
  then show ?case
    by (auto simp: dsa_port_bridge_create_def Let_def member_store fun_eq_iff bind_eq_Some_conv split: option.splits prod.splits if_splits)
next
  case (2 drv new dp d t t' b)
  then show ?case
    by (auto simp: dsa_port_bridge_create_def bridge_find_object Let_def member_store fun_eq_iff)
next
  case (3 drv new dp d t t')
  then show ?case
    by (auto simp: dsa_port_bridge_create_def bridge_find_object Let_def member_store fun_eq_iff bind_eq_Some_conv split: prod.splits if_splits)
next
  case (4 dp t t')
  then show ?case
    by (auto simp: dsa_port_bridge_destroy_def Let_def case_prod_unfold member_store fun_eq_iff bind_eq_Some_conv)
qed

lemma lag_map_keeps:
  "t_ports (dsa_lag_map g t) = t_ports t" "t_dp (dsa_lag_map g t) = t_dp t"
  "lag_dev (t_lag (dsa_lag_map g t) k) = lag_dev (t_lag t k)" "lag_refcount (t_lag (dsa_lag_map g t) k) = lag_refcount (t_lag t k)"
  "t_ports (dsa_lag_unmap g t) = t_ports t" "t_dp (dsa_lag_unmap g t) = t_dp t"
  "lag_dev (t_lag (dsa_lag_unmap g t) k) = lag_dev (t_lag t k)" "lag_refcount (t_lag (dsa_lag_unmap g t) k) = lag_refcount (t_lag t k)"
  "t_br (dsa_lag_map g t) = t_br t" "t_br (dsa_lag_unmap g t) = t_br t" "t_bridges (dsa_lag_map g t) = t_bridges t"
  "t_bridges (dsa_lag_unmap g t) = t_bridges t" "t_ds (dsa_lag_map g t) = t_ds t" "t_ds (dsa_lag_unmap g t) = t_ds t"
  by (simp_all add: dsa_lag_map_def dsa_lag_unmap_def upd_lag_def split: option.split)

interpretation lgo: shared_object lag_ref "\<lambda>t b. lag_refcount (t_lag t b)" "\<lambda>t b. lag_dev (t_lag t b)"
  dsa_port_lag_create dsa_port_lag_destroy
proof (unfold_locales, goal_cases)
  case (1 drv new dp d t r t')
  then show ?case
    by (auto simp: dsa_port_lag_create_def Let_def member_store fun_eq_iff split: option.splits prod.splits if_splits)
next
  case (2 drv new dp d t t' b)
  then show ?case
    by (auto simp: dsa_port_lag_create_def lag_find_object Let_def member_store fun_eq_iff)
next
  case (3 drv new dp d t t')
  then show ?case
    by (auto simp: dsa_port_lag_create_def lag_find_object Let_def member_store fun_eq_iff lag_map_keeps split: prod.splits if_splits)
next
  case (4 dp t t')
  then show ?case
    by (auto simp: dsa_port_lag_destroy_def Let_def case_prod_unfold member_store fun_eq_iff bind_eq_Some_conv lag_map_keeps)
qed

subsection \<open>Joining and leaving as changes of the memberships\<close>

text \<open>
  What the kernel promises of \<open>switchdev_bridge_port_offload\<close> and of its inverse: they replay objects and
  attributes of the bridge port, and no port joins or leaves a bridge or a LAG, or changes its CPU port, meanwhile.
\<close>

definition switchdev_spec :: "bridge_env \<Rightarrow> bool" where
  "switchdev_spec sdev \<longleftrightarrow>
     (\<forall>d dp b t r t'. offload sdev d dp b t = Some (r, t') \<longrightarrow> members t' = members t \<and> cpu_links t' = cpu_links t) \<and>
     (\<forall>d dp t t'. unoffload sdev d dp t = Some t' \<longrightarrow> members t' = members t \<and> cpu_links t' = cpu_links t)"

lemma switchdev_specD:
  "switchdev_spec sdev \<Longrightarrow> offload sdev d dp b t = Some (r, t') \<Longrightarrow> members t' = members t"
  "switchdev_spec sdev \<Longrightarrow> unoffload sdev d dp t = Some t' \<Longrightarrow> members t' = members t"
  unfolding switchdev_spec_def by blast+

text \<open>A condition on whatever an operation returns; the rules collect the calls that led to each return.\<close>

definition yields :: "('r \<Rightarrow> bool) \<Rightarrow> 'r option \<Rightarrow> bool" where
  "yields Q m \<longleftrightarrow> (\<forall>x. m = Some x \<longrightarrow> Q x)"

lemma yieldsD: "yields Q m \<Longrightarrow> m = Some x \<Longrightarrow> Q x"
  by (simp add: yields_def)

lemma yields_Some: "Q x \<Longrightarrow> yields Q (Some x)"
  by (simp add: yields_def)

lemma yields_bind_pair:
  "(\<And>a b. m = Some (a, b) \<Longrightarrow> yields Q (f a b)) \<Longrightarrow> yields Q (Option.bind m (\<lambda>(a, b). f a b))"
  unfolding yields_def by (auto simp: bind_eq_Some_conv)

lemma yields_bind: "(\<And>a. m = Some a \<Longrightarrow> yields Q (f a)) \<Longrightarrow> yields Q (Option.bind m f)"
  unfolding yields_def by (auto simp: bind_eq_Some_conv)

lemma yields_if: "(c \<Longrightarrow> yields Q m) \<Longrightarrow> (\<not> c \<Longrightarrow> yields Q m') \<Longrightarrow> yields Q (if c then m else m')"
  by simp

lemma yields_case_option:
  "(x = None \<Longrightarrow> yields Q m) \<Longrightarrow> (\<And>y. x = Some y \<Longrightarrow> yields Q (f y)) \<Longrightarrow> yields Q (case x of None \<Rightarrow> m | Some y \<Rightarrow> f y)"
  by (cases x) simp_all

lemmas yields_rules = yields_if yields_bind_pair yields_bind yields_case_option yields_Some

lemmas member_steps = mv.stays_broadcast [OF refl, THEN stays_pairD] mv.stays_sync_attrs [OF refl, THEN stays_pairD]
  mv.stays_flush [OF refl, THEN staysD] mv.stays_unsync_attrs [OF refl, THEN staysD]
  mv.stays_calls(1) [OF refl, THEN stays_pairD] mv.stays_manage_vlan [OF refl, THEN stays_pairD]
  mv.stays_host_addresses [OF refl, THEN staysD] mv.stays_supports_mst [OF refl, THEN stays_pairD]

lemma members_tx_fwd [simp]: "members (upd_br b (\<lambda>x. x\<lparr>br_tx_fwd_offload := f\<rparr>) t) = members t"
  by (simp add: members_def upd_br_def fun_eq_iff)

definition created ::
  "driver \<Rightarrow> br_ptr \<Rightarrow> dp_ptr \<Rightarrow> netdev \<Rightarrow> dsa_tree \<Rightarrow> int \<Rightarrow> dsa_tree \<Rightarrow> bool" where
  "created drv new_br dp br t e t' \<longleftrightarrow>
     (\<exists>u u1. members u = members t \<and> dsa_port_bridge_create drv new_br dp br u = Some (e, u1) \<and> members t' = members u1)"

definition destroyed :: "dp_ptr \<Rightarrow> dsa_tree \<Rightarrow> dsa_tree \<Rightarrow> bool" where
  "destroyed dp t t' \<longleftrightarrow> (\<exists>u u'. members u = members t \<and> dsa_port_bridge_destroy dp u = Some u' \<and> members t' = members u')"

definition undone :: "driver \<Rightarrow> br_ptr \<Rightarrow> dp_ptr \<Rightarrow> netdev \<Rightarrow> dsa_tree \<Rightarrow> dsa_tree \<Rightarrow> bool" where
  "undone drv new_br dp br t t' \<longleftrightarrow> (\<exists>u. created drv new_br dp br t 0 u \<and> destroyed dp u t')"

lemma createdI:
  "dsa_port_bridge_create drv new_br dp br u = Some (e, u1) \<Longrightarrow> members u = members t \<Longrightarrow> members t' = members u1 \<Longrightarrow>
   created drv new_br dp br t e t'"
  unfolding created_def by blast

lemma destroyedI:
  "dsa_port_bridge_destroy dp u = Some u1 \<Longrightarrow> members u = members t \<Longrightarrow> members t' = members u1 \<Longrightarrow> destroyed dp t t'"
  unfolding destroyed_def by blast

lemma undoneI:
  "dsa_port_bridge_create drv new_br dp br u = Some (0, u1) \<Longrightarrow> members u = members t \<Longrightarrow>
   dsa_port_bridge_destroy dp v = Some t' \<Longrightarrow> members v = members u1 \<Longrightarrow> undone drv new_br dp br t t'"
  unfolding undone_def by (blast intro: createdI destroyedI)

lemma join_outcome:
  assumes "dsa_port_bridge_join env sdev drv new_br dp br t = Some (r, t')" "switchdev_spec sdev"
  shows "r \<noteq> 0 \<and> members t' = members t \<or> created drv new_br dp br t r t' \<or> r \<noteq> 0 \<and> undone drv new_br dp br t t'"
proof -
  note offl = switchdev_specD [OF assms(2)]
  have mst: "members u = members t" if "(if br_mst_enabled env br then do {
      (sup, t) \<leftarrow> dsa_port_supports_mst drv dp t; Some (\<not> sup, t)} else Some (False, t)) = Some (x, u)" for x u
    by (rule stays_pairD [OF _ that]) (intro stays_rules mv.stays_supports_mst; simp)
  have "yields (\<lambda>(r, t'). r \<noteq> 0 \<and> members t' = members t \<or> created drv new_br dp br t r t' \<or> r \<noteq> 0 \<and> undone drv new_br dp br t t')
    (dsa_port_bridge_join env sdev drv new_br dp br t)"
    unfolding dsa_port_bridge_join_def Let_def
    by (intro yields_rules; drule mst; auto dest!: member_steps offl intro: createdI undoneI)
  from yieldsD [OF this assms(1)] show ?thesis by simp
qed

lemma leave_outcome:
  assumes "dsa_port_bridge_leave env drv dp t = Some t'"
  shows "if port_bridge (t_dp t dp) = None then t' = t else destroyed dp t t'"
  using assms unfolding dsa_port_bridge_leave_def Let_def
  by (auto split: option.splits elim!: bind_pairE dest!: member_steps intro: destroyedI simp: bind_eq_Some_conv)

lemma pre_leave_members:
  "dsa_port_pre_bridge_leave sdev drv dp t = Some t' \<Longrightarrow> switchdev_spec sdev \<Longrightarrow> members t' = members t"
  unfolding dsa_port_pre_bridge_leave_def
  by (auto split: option.splits simp: bind_eq_Some_conv dest!: member_steps dest: switchdev_specD)

subsection \<open>The invariant of bridges\<close>

text \<open>
  A number is taken in the global mask exactly while a bridge in use carries it, and no two bridges in use
  carry the same number.
\<close>

definition bridge_used :: "dsa_tree \<Rightarrow> br_ptr \<Rightarrow> bool" where
  "bridge_used t = in_use (bridge_ref t) (t_ports t)"

definition nums_ok :: "dsa_tree \<Rightarrow> bool" where
  "nums_ok t \<longleftrightarrow>
     (\<forall>n. 0 < n \<and> n < 64 \<longrightarrow> bit (t_bridges t) n = (\<exists>b. bridge_used t b \<and> br_num (t_br t b) = n)) \<and>
     (\<forall>b. bridge_used t b \<longrightarrow> br_num (t_br t b) < 64) \<and>
     (\<forall>b c. bridge_used t b \<and> bridge_used t c \<and> br_num (t_br t b) = br_num (t_br t c) \<and> br_num (t_br t b) \<noteq> 0 \<longrightarrow> b = c)"

definition bridges_ok :: "dsa_tree \<Rightarrow> bool" where
  "bridges_ok t \<longleftrightarrow>
     objects_ok (t_ports t) (bridge_ref t) (\<lambda>b. br_refcount (t_br t b)) (\<lambda>b. br_dev (t_br t b)) \<and> nums_ok t"

lemma members_sel:
  "t_ports t = m_ports (members t)" "bridge_ref t = m_bridge (members t)" "lag_ref t = m_lag (members t)"
  "t_bridges t = m_bridges (members t)" "t_lags t = m_lags (members t)"
  "br_refcount (t_br t b) = br_refcount (m_br (members t) b)" "br_dev (t_br t b) = br_dev (m_br (members t) b)"
  "br_num (t_br t b) = br_num (m_br (members t) b)" "lag_dev (t_lag t g) = lag_dev (m_lagobj (members t) g)"
  "lag_id (t_lag t g) = lag_id (m_lagobj (members t) g)" "lag_refcount (t_lag t g) = lag_refcount (m_lagobj (members t) g)"
  by (simp_all add: members_def bridge_ref_def lag_ref_def fun_eq_iff)

lemma bridges_ok_members: "members t' = members t \<Longrightarrow> bridges_ok t' = bridges_ok t"
  unfolding bridges_ok_def nums_ok_def bridge_used_def members_sel by simp

lemma bridge_used_members: "members t' = members t \<Longrightarrow> bridge_used t' = bridge_used t"
  unfolding bridge_used_def members_sel by simp

lemma num_get_new:
  assumes "dsa_bridge_num_get [t] br mx w = Some (num, w')" "dsa_tree_bridge_find t br = None"
  shows "num = 0 \<and> w' = w \<or> 0 < num \<and> num < 64 \<and> \<not> bit w num \<and> w' = set_bit num w"
proof -
  have "dsa_bridge_num_find [t] br = 0" using assms(2) by (simp add: dsa_bridge_num_find_def)
  then show ?thesis
    using assms(1) find_next_zero_bit_spec [of w 64 1, OF refl]
    by (auto simp: dsa_bridge_num_get_def Let_def split: if_splits)
qed

definition share_bridge :: "br_ptr \<Rightarrow> dp_ptr \<Rightarrow> dsa_tree \<Rightarrow> dsa_tree" where
  "share_bridge b dp t = upd_port dp (\<lambda>p. p\<lparr>port_bridge := Some b\<rparr>)
     (upd_br b (\<lambda>x. x\<lparr>br_refcount := refcount_inc (br_refcount x)\<rparr>) t)"

definition fresh_bridge :: "br_ptr \<Rightarrow> dp_ptr \<Rightarrow> netdev \<Rightarrow> nat \<Rightarrow> u64 \<Rightarrow> dsa_log \<Rightarrow> dsa_tree \<Rightarrow> dsa_tree" where
  "fresh_bridge new_br dp br num w l t = upd_port dp (\<lambda>p. p\<lparr>port_bridge := Some new_br\<rparr>)
     (upd_br new_br (\<lambda>_. \<lparr>br_dev = br, br_num = num, br_tx_fwd_offload = False, br_refcount = 1\<rparr>)
       (t\<lparr>t_log := l, t_bridges := w\<rparr>))"

definition takes_num :: "nat \<Rightarrow> u64 \<Rightarrow> u64 \<Rightarrow> bool" where
  "takes_num num w w' \<longleftrightarrow> num = 0 \<and> w' = w \<or> 0 < num \<and> num < 64 \<and> \<not> bit w num \<and> w' = set_bit num w"

lemma create_cases:
  assumes run: "dsa_port_bridge_create drv new_br dp br t = Some (r, t')"
  obtains (refused) "r \<noteq> 0" "members t' = members t"
  | (found) b where "r = 0" "dsa_tree_bridge_find t br = Some b" "t' = share_bridge b dp t"
  | (new) num w l where "r = 0" "dsa_tree_bridge_find t br = None" "takes_num num (t_bridges t) w"
      "t' = fresh_bridge new_br dp br num w l t"
proof (cases "dsa_tree_bridge_find t br")
  case (Some b)
  then show ?thesis using run found [of b] by (auto simp: dsa_port_bridge_create_def share_bridge_def)
next
  case None
  obtain got l where k: "dsa_kzalloc drv (t_log t) = (got, l)" by fastforce
  have find: "dsa_tree_bridge_find (t\<lparr>t_log := l\<rparr>) br = None"
    using None by (simp add: bridge_find_object bridge_ref_def [abs_def])
  define mx where "mx = sw_max_num_bridges (t_ds t (port_ds (t_dp t dp)))"
  note run1 = run [unfolded dsa_port_bridge_create_def Let_def None option.case k prod.case, folded mx_def]
  show ?thesis
  proof (cases got)
    case False
    then show ?thesis using run1 refused mv.view_log [of l t] by auto
  next
    case True
    obtain num w where n: "dsa_bridge_num_get [t\<lparr>t_log := l\<rparr>] br mx (t_bridges t) = Some (num, w)"
      using run1 True by (auto elim!: bind_pairE)
    from num_get_new [OF n find] have "takes_num num (t_bridges t) w" by (simp add: takes_num_def)
    then show ?thesis using run1 True n refused new [of num w l] None
      by (auto simp: mv.view_log fresh_bridge_def split: if_splits)
  qed
qed

lemma share_bridge_sel:
  "t_ports (share_bridge b dp t) = t_ports t" "bridge_ref (share_bridge b dp t) = (bridge_ref t)(dp \<mapsto> b)"
  "t_bridges (share_bridge b dp t) = t_bridges t" "br_num (t_br (share_bridge b dp t) x) = br_num (t_br t x)"
  "t_br (share_bridge b dp t) = (t_br t)(b := (t_br t b)\<lparr>br_refcount := refcount_inc (br_refcount (t_br t b))\<rparr>)"
  by (simp_all add: share_bridge_def member_store fun_eq_iff)

lemma fresh_bridge_sel:
  "t_ports (fresh_bridge b dp br num w l t) = t_ports t" "bridge_ref (fresh_bridge b dp br num w l t) = (bridge_ref t)(dp \<mapsto> b)"
  "t_bridges (fresh_bridge b dp br num w l t) = w"
  "t_br (fresh_bridge b dp br num w l t) =
     (t_br t)(b := \<lparr>br_dev = br, br_num = num, br_tx_fwd_offload = False, br_refcount = 1\<rparr>)"
  by (simp_all add: fresh_bridge_def member_store fun_eq_iff)

lemma bridges_okD:
  assumes "bridges_ok t"
  shows "distinct (t_ports t)" "length (t_ports t) < REFCOUNT_MAX"
    "\<And>b. bridge_used t b \<Longrightarrow> br_refcount (t_br t b) = users (bridge_ref t) (t_ports t) b" "nums_ok t"
  using assms unfolding bridges_ok_def objects_ok_def bridge_used_def by auto

lemma used_attach:
  assumes "distinct (t_ports t)" "dp \<in> set (t_ports t)" "port_bridge (t_dp t dp) = None"
    "t_ports t' = t_ports t" "bridge_ref t' = (bridge_ref t)(dp \<mapsto> b)"
  shows "bridge_used t' x = (x = b \<or> bridge_used t x)"
proof -
  have "bridge_ref t dp = None" using assms(3) by (simp add: bridge_ref_def)
  from users_attach [of _ _ "bridge_ref t", OF assms(1,2) this] show ?thesis by (auto simp: bridge_used_def assms(4,5) users_pos)
qed

lemma create_keeps_nums:
  assumes ok: "bridges_ok t" and dp: "dp \<in> set (t_ports t)" "port_bridge (t_dp t dp) = None"
    and new: "\<not> bridge_used t new_br" and run: "dsa_port_bridge_create drv new_br dp br t = Some (r, t')"
  shows "nums_ok t'"
  using run
proof (cases rule: create_cases)
  case refused
  then show ?thesis using ok bridges_ok_members [of t' t] by (simp add: bridges_ok_def)
next
  case (found b)
  have "bridge_used t b" using found(2) object_of_Some by (auto simp: bridge_find_object bridge_used_def)
  then have "bridge_used t' = bridge_used t"
    using used_attach [OF bridges_okD(1) [OF ok] dp, of t' b] by (auto simp: found(3) share_bridge_sel)
  then show ?thesis using bridges_okD(4) [OF ok] by (simp add: nums_ok_def found(3) share_bridge_sel(3,4))
next
  case c: (new num w l)
  have u: "bridge_used t' x = (x = new_br \<or> bridge_used t x)" for x
    using used_attach [OF bridges_okD(1) [OF ok] dp, of t' new_br] by (simp add: c(4) fresh_bridge_sel)
  have sel: "t_bridges t' = w" "br_num (t_br t' x) = (if x = new_br then num else br_num (t_br t x))" for x
    by (simp_all add: c(4) fresh_bridge_sel)
  have old: "\<And>n. 0 < n \<Longrightarrow> n < 64 \<Longrightarrow> bit (t_bridges t) n = (\<exists>b. bridge_used t b \<and> br_num (t_br t b) = n)"
    "\<And>b. bridge_used t b \<Longrightarrow> br_num (t_br t b) < 64"
    "\<And>b c. \<lbrakk>bridge_used t b; bridge_used t c; br_num (t_br t b) = br_num (t_br t c); br_num (t_br t b) \<noteq> 0\<rbrakk> \<Longrightarrow> b = c"
    using bridges_okD(4) [OF ok] unfolding nums_ok_def by blast+
  have w: "bit w n = (n = num \<or> bit (t_bridges t) n)" if "0 < n" "n < 64" for n
    using c(3) that by (auto simp: takes_num_def bit_set_bit_iff)
  have fresh: "num < 64" "bridge_used t b \<Longrightarrow> br_num (t_br t b) = num \<Longrightarrow> num = 0" for b
    using c(3) old(1) [of num] by (auto simp: takes_num_def)
  have ex: "(\<exists>b. bridge_used t' b \<and> br_num (t_br t' b) = n) = (n = num \<or> (\<exists>b. bridge_used t b \<and> br_num (t_br t b) = n))" for n
    using new by (auto simp: u sel)
  show ?thesis unfolding nums_ok_def
  proof (intro conjI allI impI)
    show "bit (t_bridges t') n = (\<exists>b. bridge_used t' b \<and> br_num (t_br t' b) = n)" if "0 < n \<and> n < 64" for n
      using that by (simp add: ex) (simp add: sel w old(1))
    show "br_num (t_br t' b) < 64" if "bridge_used t' b" for b
      using that old(2) [of b] fresh(1) by (auto simp: u sel)
    show "b = d" if "bridge_used t' b \<and> bridge_used t' d \<and> br_num (t_br t' b) = br_num (t_br t' d) \<and> br_num (t_br t' b) \<noteq> 0" for b d
      using that old(3) [of b d] fresh(2) [of b] fresh(2) [of d] by (auto simp: u sel split: if_splits)
  qed
qed

lemma destroy_cases:
  assumes "dsa_port_bridge_destroy dp t = Some t'"
  obtains b where "bridge_ref t dp = Some b" "t_ports t' = t_ports t" "bridge_ref t' = (bridge_ref t)(dp := None)"
    "t_br t' = (t_br t)(b := (t_br t b)\<lparr>br_refcount := fst (refcount_dec_and_test (br_refcount (t_br t b)))\<rparr>)"
    "t_bridges t' = (if snd (refcount_dec_and_test (br_refcount (t_br t b))) \<and> br_num (t_br t b) \<noteq> 0
       then dsa_bridge_num_put (br_num (t_br t b)) (t_bridges t) else t_bridges t)"
  using assms
  by (auto simp: dsa_port_bridge_destroy_def Let_def case_prod_unfold member_store fun_eq_iff bind_eq_Some_conv)

lemma destroy_keeps_nums:
  assumes ok: "bridges_ok t" and dp: "dp \<in> set (t_ports t)" and run: "dsa_port_bridge_destroy dp t = Some t'"
  shows "nums_ok t'"
  using run
proof (cases rule: destroy_cases)
  case (1 b)
  note d = bridges_okD [OF ok]
  have b: "bridge_used t b" using 1(1) dp by (auto simp: bridge_used_def in_use_def)
  have u: "bridge_used t' x = (if x = b then 1 < users (bridge_ref t) (t_ports t) b else bridge_used t x)" for x
    using users_detach [of _ _ "bridge_ref t", OF d(1) dp 1(1)] by (auto simp: bridge_used_def users_pos 1(2,3))
  have lst: "snd (refcount_dec_and_test (br_refcount (t_br t b))) = (\<not> bridge_used t' b)"
    using d(3) [OF b] b [unfolded bridge_used_def users_pos] d(2) users_le [of "bridge_ref t" "t_ports t" b]
    by (auto simp: u refcount_dec_and_test_def)
  have num: "br_num (t_br t' x) = br_num (t_br t x)" for x by (simp add: 1(4))
  have old: "\<And>n. 0 < n \<Longrightarrow> n < 64 \<Longrightarrow> bit (t_bridges t) n = (\<exists>b. bridge_used t b \<and> br_num (t_br t b) = n)"
    "\<And>b. bridge_used t b \<Longrightarrow> br_num (t_br t b) < 64"
    "\<And>b c. \<lbrakk>bridge_used t b; bridge_used t c; br_num (t_br t b) = br_num (t_br t c); br_num (t_br t b) \<noteq> 0\<rbrakk> \<Longrightarrow> b = c"
    using d(4) unfolding nums_ok_def by blast+
  have sub: "bridge_used t' x \<Longrightarrow> bridge_used t x" for x using b by (auto simp: u split: if_splits)
  have w: "bit (t_bridges t') n = (bit (t_bridges t) n \<and> (bridge_used t' b \<or> br_num (t_br t b) \<noteq> n))" if "0 < n" for n
    using that by (auto simp: 1(5) lst dsa_bridge_num_put_def bit_unset_bit_iff)
  have ex: "(\<exists>x. bridge_used t' x \<and> br_num (t_br t x) = n) =
      ((\<exists>x. bridge_used t x \<and> br_num (t_br t x) = n) \<and> (bridge_used t' b \<or> br_num (t_br t b) \<noteq> n))" if "0 < n" for n
    using that old(3) [of b] b sub u by (metis less_irrefl)
  show ?thesis unfolding nums_ok_def num
    using sub old(2,3) by (auto simp: w old(1) ex)
qed

lemma bridges_ok_create:
  assumes "bridges_ok t" "dp \<in> set (t_ports t)" "port_bridge (t_dp t dp) = None" "\<not> bridge_used t new_br"
    and "dsa_port_bridge_create drv new_br dp br t = Some (r, t')"
  shows "bridges_ok t'"
  using bro.create_keeps [of t dp new_br drv br r t'] create_keeps_nums [OF assms] assms
  by (simp add: bridges_ok_def bridge_used_def bridge_ref_def [abs_def])

lemma bridges_ok_destroy:
  assumes "bridges_ok t" "dp \<in> set (t_ports t)" "dsa_port_bridge_destroy dp t = Some t'"
  shows "bridges_ok t'"
  using bro.destroy_keeps [of t dp t'] destroy_keeps_nums [OF assms] assms by (simp add: bridges_ok_def)

text \<open>What the ports see of their bridges, and the numbers taken.\<close>

definition bridge_state :: "dsa_tree \<Rightarrow> (br_ptr \<times> dsa_bridge) option list \<times> u64" where
  "bridge_state t =
     (map (\<lambda>p. map_option (\<lambda>b. (b, (t_br t b)\<lparr>br_tx_fwd_offload := False\<rparr>)) (bridge_ref t p)) (t_ports t), t_bridges t)"

lemma inc_dec: "0 < n \<Longrightarrow> n < REFCOUNT_MAX \<Longrightarrow> refcount_dec_and_test (refcount_inc n) = (n, False)"
  by (simp add: refcount_inc_def refcount_dec_and_test_def)

lemma create_destroy:
  assumes ok: "bridges_ok t" and dp: "dp \<in> set (t_ports t)" "port_bridge (t_dp t dp) = None"
    and new: "\<not> bridge_used t new_br" and c: "dsa_port_bridge_create drv new_br dp br t = Some (0, u)"
    and m: "members v = members u" and d: "dsa_port_bridge_destroy dp v = Some t'"
  shows "bridge_state t' = bridge_state t"
proof -
  let ?strip = "\<lambda>x. x\<lparr>br_tx_fwd_offload := False\<rparr>"
  have v: "t_ports v = t_ports u" "bridge_ref v = bridge_ref u" "t_bridges v = t_bridges u"
    "br_refcount (t_br v x) = br_refcount (t_br u x)" "br_num (t_br v x) = br_num (t_br u x)" for x
    unfolding members_sel m by simp_all
  have sv: "?strip (t_br v x) = ?strip (t_br u x)" for x
    using arg_cong [OF m, of m_br] by (simp add: members_def fun_eq_iff)
  from destroy_cases [OF d, unfolded v] obtain b where b: "bridge_ref u dp = Some b" "t_ports t' = t_ports u"
    "bridge_ref t' = (bridge_ref u)(dp := None)"
    and br: "t_br t' = (t_br v)(b := (t_br v b)\<lparr>br_refcount := fst (refcount_dec_and_test (br_refcount (t_br u b)))\<rparr>)"
    and w: "t_bridges t' = (if snd (refcount_dec_and_test (br_refcount (t_br u b))) \<and> br_num (t_br u b) \<noteq> 0
       then dsa_bridge_num_put (br_num (t_br u b)) (t_bridges u) else t_bridges u)" by blast
  have st: "?strip (t_br t' x) = (if x = b then (?strip (t_br u b))\<lparr>br_refcount := fst (refcount_dec_and_test (br_refcount (t_br u b)))\<rparr>
      else ?strip (t_br u x))" for x
    unfolding sv [symmetric] by (simp add: br)
  have none: "bridge_ref t dp = None" using dp(2) by (simp add: bridge_ref_def)
  have used: "bridge_used t x" if "p \<in> set (t_ports t)" "bridge_ref t p = Some x" for p x
    using that by (auto simp: bridge_used_def in_use_def)
  from c have "t_ports t' = t_ports t \<and> bridge_ref t' = bridge_ref t \<and> t_bridges t' = t_bridges t \<and>
    (\<forall>x. bridge_used t x \<longrightarrow> ?strip (t_br t' x) = ?strip (t_br t x))"
  proof (cases rule: create_cases)
    case (found b')
    have "b' = b" using b(1) by (simp add: found share_bridge_sel)
    have bu: "bridge_used t b'" using found(2) object_of_Some by (auto simp: bridge_find_object bridge_used_def)
    then have "refcount_dec_and_test (refcount_inc (br_refcount (t_br t b))) = (br_refcount (t_br t b), False)"
      using bridges_okD(2,3) [OF ok] users_le [of "bridge_ref t" "t_ports t" b] \<open>b' = b\<close>
      by (intro inc_dec) (auto simp: bridge_used_def users_pos)
    then show ?thesis using none \<open>b' = b\<close>
      by (auto simp: b(2,3) w st found(3) share_bridge_sel fun_upd_idem)
  next
    case k: (new num w' l)
    have "new_br = b" using b(1) by (simp add: k fresh_bridge_sel)
    have "dsa_bridge_num_put num w' = t_bridges t" if "num \<noteq> 0"
      using k(3) that by (auto simp: takes_num_def dsa_bridge_num_put_def unset_set_bit_id)
    moreover have "w' = t_bridges t" if "num = 0" using k(3) that by (auto simp: takes_num_def)
    ultimately show ?thesis using none new \<open>new_br = b\<close>
      by (auto simp: b(2,3) w st k(4) fresh_bridge_sel refcount_dec_and_test_def fun_upd_idem)
  qed simp
  then show ?thesis using used by (auto simp: bridge_state_def map_option_case split: option.splits)
qed

subsection \<open>The invariant of LAGs\<close>

text \<open>
  A slot of the array holds a LAG in use that carries the number of the slot, and a LAG in use that carries a
  number is in its slot.
\<close>

definition lag_used :: "dsa_tree \<Rightarrow> lag_ptr \<Rightarrow> bool" where
  "lag_used t = in_use (lag_ref t) (t_ports t)"

definition slots_ok :: "dsa_tree \<Rightarrow> bool" where
  "slots_ok t \<longleftrightarrow>
     (\<forall>i<length (t_lags t). \<forall>g. t_lags t ! i = Some g \<longrightarrow> lag_used t g \<and> lag_id (t_lag t g) = Suc i) \<and>
     (\<forall>g. lag_used t g \<and> lag_id (t_lag t g) \<noteq> 0 \<longrightarrow>
        lag_id (t_lag t g) \<le> length (t_lags t) \<and> t_lags t ! (lag_id (t_lag t g) - 1) = Some g)"

definition lag_objects_ok :: "dsa_tree \<Rightarrow> bool" where
  "lag_objects_ok t \<longleftrightarrow>
     objects_ok (t_ports t) (lag_ref t) (\<lambda>g. lag_refcount (t_lag t g)) (\<lambda>g. lag_dev (t_lag t g)) \<and> slots_ok t"

definition lag_part ::
  "dsa_tree \<Rightarrow> dp_ptr list \<times> (dp_ptr \<Rightarrow> lag_ptr option) \<times> (lag_ptr \<Rightarrow> netdev \<times> nat \<times> nat) \<times> lag_ptr option list" where
  "lag_part t = (t_ports t, lag_ref t, (\<lambda>g. (lag_dev (t_lag t g), lag_id (t_lag t g), lag_refcount (t_lag t g))), t_lags t)"

lemma lag_part_sel:
  assumes "lag_part v = lag_part u"
  shows "t_ports v = t_ports u" "lag_ref v = lag_ref u" "t_lags v = t_lags u"
    "lag_refcount (t_lag v x) = lag_refcount (t_lag u x)" "lag_id (t_lag v x) = lag_id (t_lag u x)"
    "lag_dev (t_lag v x) = lag_dev (t_lag u x)"
  using assms by (auto simp: lag_part_def fun_eq_iff)

lemma lag_part_members: "members t' = members t \<Longrightarrow> lag_part t' = lag_part t"
  unfolding lag_part_def members_sel by simp

lemma lag_objects_ok_part:
  assumes m: "lag_part t' = lag_part t"
  shows "lag_objects_ok t' = lag_objects_ok t"
  unfolding lag_objects_ok_def slots_ok_def lag_used_def by (simp add: lag_part_sel [OF m])

lemmas lag_objects_ok_members = lag_objects_ok_part [OF lag_part_members]

lemma slots_okD:
  assumes "slots_ok t"
  shows "\<And>i g. i < length (t_lags t) \<Longrightarrow> t_lags t ! i = Some g \<Longrightarrow> lag_used t g \<and> lag_id (t_lag t g) = Suc i"
    "\<And>g. lag_used t g \<Longrightarrow> lag_id (t_lag t g) \<noteq> 0 \<Longrightarrow>
       lag_id (t_lag t g) \<le> length (t_lags t) \<and> t_lags t ! (lag_id (t_lag t g) - 1) = Some g"
  using assms unfolding slots_ok_def by blast+

definition share_lag :: "lag_ptr \<Rightarrow> dp_ptr \<Rightarrow> dsa_tree \<Rightarrow> dsa_tree" where
  "share_lag g dp t = upd_port dp (\<lambda>p. p\<lparr>port_lag := Some g\<rparr>)
     (upd_lag g (\<lambda>x. x\<lparr>lag_refcount := refcount_inc (lag_refcount x)\<rparr>) t)"

definition fresh_lag :: "lag_ptr \<Rightarrow> dp_ptr \<Rightarrow> netdev \<Rightarrow> nat \<Rightarrow> lag_ptr option list \<Rightarrow> dsa_log \<Rightarrow> dsa_tree \<Rightarrow> dsa_tree" where
  "fresh_lag g dp dev n lags l t = upd_port dp (\<lambda>p. p\<lparr>port_lag := Some g\<rparr>)
     (upd_lag g (\<lambda>_. \<lparr>lag_dev = dev, lag_id = n, lag_fdbs = [], lag_refcount = 1\<rparr>) (t\<lparr>t_log := l, t_lags := lags\<rparr>))"

definition takes_slot :: "lag_ptr \<Rightarrow> nat \<Rightarrow> lag_ptr option list \<Rightarrow> lag_ptr option list \<Rightarrow> bool" where
  "takes_slot g n lags lags' \<longleftrightarrow> n = 0 \<and> lags' = lags \<or>
     0 < n \<and> n \<le> length lags \<and> lags ! (n - 1) = None \<and> lags' = lags[n - 1 := Some g]"

lemma lag_create_cases:
  assumes run: "dsa_port_lag_create drv new_lag dp dev t = Some (r, t')"
  obtains (refused) "r \<noteq> 0" "members t' = members t"
  | (found) g where "r = 0" "dsa_tree_lag_find t dev = Some g" "t' = share_lag g dp t"
  | (new) n lags l where "r = 0" "dsa_tree_lag_find t dev = None" "takes_slot new_lag n (t_lags t) lags"
      "t' = fresh_lag new_lag dp dev n lags l t"
proof (cases "dsa_tree_lag_find t dev")
  case (Some g)
  then show ?thesis using run found [of g] by (auto simp: dsa_port_lag_create_def share_lag_def)
next
  case None
  obtain got l where k: "dsa_kzalloc drv (t_log t) = (got, l)" by fastforce
  note run1 = run [unfolded dsa_port_lag_create_def Let_def None option.case k prod.case]
  show ?thesis
  proof (cases got)
    case False
    then show ?thesis using run1 refused mv.view_log [of l t] by auto
  next
    case True
    define u where "u = upd_lag new_lag (\<lambda>_. \<lparr>lag_dev = dev, lag_id = 0, lag_fdbs = [], lag_refcount = 1\<rparr>) (t\<lparr>t_log := l\<rparr>)"
    have u: "r = 0" "t' = upd_port dp (\<lambda>p. p\<lparr>port_lag := Some new_lag\<rparr>) (dsa_lag_map new_lag u)"
      using run1 True by (auto simp: u_def)
    show ?thesis
    proof (cases "find (\<lambda>n. dsa_lag_by_id u n = None) [1..<Suc (length (t_lags u))]")
      case None': None
      then show ?thesis using u None new [of 0 "t_lags t" l]
        by (simp add: takes_slot_def fresh_lag_def dsa_lag_map_def del: upt_Suc) (simp add: u_def upd_lag_def)
    next
      case (Some n)
      then have "1 \<le> n" "n \<le> length (t_lags t)" "t_lags t ! (n - 1) = None"
        by (auto simp: find_upt_least u_def upd_lag_def dsa_lag_by_id_def simp del: upt_Suc)
      then show ?thesis using u None Some new [of n "(t_lags t)[n - 1 := Some new_lag]" l]
        by (simp add: takes_slot_def fresh_lag_def dsa_lag_map_def del: upt_Suc) (simp add: u_def upd_lag_def)
    qed
  qed
qed

lemma share_lag_sel:
  "t_ports (share_lag b dp t) = t_ports t" "lag_ref (share_lag b dp t) = (lag_ref t)(dp \<mapsto> b)"
  "t_lags (share_lag b dp t) = t_lags t" "lag_id (t_lag (share_lag b dp t) x) = lag_id (t_lag t x)"
  "t_lag (share_lag b dp t) = (t_lag t)(b := (t_lag t b)\<lparr>lag_refcount := refcount_inc (lag_refcount (t_lag t b))\<rparr>)"
  by (simp_all add: share_lag_def member_store fun_eq_iff)

lemma fresh_lag_sel:
  "t_ports (fresh_lag b dp d n lags l t) = t_ports t" "lag_ref (fresh_lag b dp d n lags l t) = (lag_ref t)(dp \<mapsto> b)"
  "t_lags (fresh_lag b dp d n lags l t) = lags"
  "t_lag (fresh_lag b dp d n lags l t) = (t_lag t)(b := \<lparr>lag_dev = d, lag_id = n, lag_fdbs = [], lag_refcount = 1\<rparr>)"
  by (simp_all add: fresh_lag_def member_store fun_eq_iff)

lemma lag_used_attach:
  assumes "distinct (t_ports t)" "dp \<in> set (t_ports t)" "port_lag (t_dp t dp) = None"
    "t_ports t' = t_ports t" "lag_ref t' = (lag_ref t)(dp \<mapsto> b)"
  shows "lag_used t' x = (x = b \<or> lag_used t x)"
proof -
  have "lag_ref t dp = None" using assms(3) by (simp add: lag_ref_def)
  from users_attach [of _ _ "lag_ref t", OF assms(1,2) this] show ?thesis
    by (auto simp: lag_used_def assms(4,5) users_pos)
qed

lemma lag_create_slots:
  assumes ok: "lag_objects_ok t" and dp: "dp \<in> set (t_ports t)" "port_lag (t_dp t dp) = None"
    and new: "\<not> lag_used t new_lag" and run: "dsa_port_lag_create drv new_lag dp dev t = Some (r, t')"
  shows "slots_ok t'"
proof -
  have ps: "distinct (t_ports t)" and sl: "slots_ok t" using ok by (auto simp: lag_objects_ok_def objects_ok_def)
  note s = slots_okD [OF sl]
  from run show ?thesis
  proof (cases rule: lag_create_cases)
    case refused
    then show ?thesis using ok lag_objects_ok_members [of t' t] by (simp add: lag_objects_ok_def)
  next
    case (found g)
    have "lag_used t g" using found(2) object_of_Some by (auto simp: lag_find_object lag_used_def)
    then have "lag_used t' = lag_used t"
      using lag_used_attach [OF ps dp, of t' g] by (auto simp: found(3) share_lag_sel)
    then show ?thesis using sl by (simp add: slots_ok_def found(3) share_lag_sel(3,4))
  next
    case c: (new n lags l)
    have u: "lag_used t' x = (x = new_lag \<or> lag_used t x)" for x
      using lag_used_attach [OF ps dp, of t' new_lag] by (simp add: c(4) fresh_lag_sel)
    have sel: "t_lags t' = lags" "lag_id (t_lag t' x) = (if x = new_lag then n else lag_id (t_lag t x))" for x
      by (simp_all add: c(4) fresh_lag_sel)
    have slot: "lags ! i = (if 0 < n \<and> i = n - 1 then Some new_lag else t_lags t ! i)" "length lags = length (t_lags t)"
      if "i < length (t_lags t)" for i
      using c(3) that by (auto simp: takes_slot_def nth_list_update)
    have n: "n \<le> length (t_lags t)" "0 < n \<Longrightarrow> t_lags t ! (n - 1) = None" "length lags = length (t_lags t)"
      using c(3) by (auto simp: takes_slot_def)
    show ?thesis unfolding slots_ok_def u sel n(3)
    proof (intro conjI allI impI)
      fix i g assume i: "i < length (t_lags t)" "lags ! i = Some g"
      then show "g = new_lag \<or> lag_used t g" "(if g = new_lag then n else lag_id (t_lag t g)) = Suc i"
        using s(1) [OF i(1)] slot [OF i(1)] new by (auto split: if_splits)
    next
      fix g assume g: "(g = new_lag \<or> lag_used t g) \<and> (if g = new_lag then n else lag_id (t_lag t g)) \<noteq> 0"
      let ?n = "if g = new_lag then n else lag_id (t_lag t g)"
      show "?n \<le> length (t_lags t)" using g s(2) [of g] n(1) by (auto split: if_splits)
      then have "?n - 1 < length (t_lags t)" using g by (simp split: if_splits)
      then show "lags ! (?n - 1) = Some g"
        using slot(1) [of "?n - 1"] s(2) [of g] g n(2) by (auto split: if_splits)
    qed
  qed
qed

lemma lag_unmap_sel:
  assumes "slots_ok u'" "t_lags t = t_lags u'" "\<And>x. lag_id (t_lag t x) = lag_id (t_lag u' x)" "lag_used u' g"
  shows "t_lags (dsa_lag_unmap g t) = (if lag_id (t_lag t g) = 0 then t_lags t else (t_lags t)[lag_id (t_lag t g) - 1 := None])"
    "lag_id (t_lag (dsa_lag_unmap g t) x) = (if x = g then 0 else lag_id (t_lag t x))"
proof -
  let ?n = "lag_id (t_lag t g)"
  note s = slots_okD [OF assms(1)]
  have "find (\<lambda>n. dsa_lag_by_id t n = Some g) [1..<Suc (length (t_lags t))] = (if ?n = 0 then None else Some ?n)"
  proof (cases "?n = 0")
    case True
    have "t_lags u' ! (m - 1) \<noteq> Some g" if "1 \<le> m" "m < Suc (length (t_lags u'))" for m
      using s(1) [of "m - 1" g] that True assms(3) [of g] by force
    then show ?thesis using True by (auto simp: find_upt_none dsa_lag_by_id_def assms(2) simp del: upt_Suc)
  next
    case False
    have "?n \<le> length (t_lags u')" "t_lags u' ! (?n - 1) = Some g" using s(2) [OF assms(4)] False assms(3) by auto
    moreover have "t_lags u' ! (m - 1) \<noteq> Some g" if "1 \<le> m" "m < ?n" for m
      using s(1) [of "m - 1" g] that assms(3) [of g] calculation(1) by force
    ultimately show ?thesis using False by (auto simp: find_upt_least dsa_lag_by_id_def assms(2) simp del: upt_Suc)
  qed
  then show "t_lags (dsa_lag_unmap g t) = (if ?n = 0 then t_lags t else (t_lags t)[?n - 1 := None])"
    "lag_id (t_lag (dsa_lag_unmap g t) x) = (if x = g then 0 else lag_id (t_lag t x))"
    by (simp_all add: dsa_lag_unmap_def upd_lag_def del: upt_Suc)
qed

lemma lag_destroy_cases:
  assumes "dsa_port_lag_destroy dp t = Some t'" "slots_ok t" "dp \<in> set (t_ports t)"
  obtains g n zero where "lag_ref t dp = Some g" "t_ports t' = t_ports t" "lag_ref t' = (lag_ref t)(dp := None)"
    "refcount_dec_and_test (lag_refcount (t_lag t g)) = (n, zero)"
    "\<And>x. lag_id (t_lag t' x) = (if zero \<and> x = g then 0 else lag_id (t_lag t x))"
    "\<And>x. lag_dev (t_lag t' x) = lag_dev (t_lag t x)"
    "\<And>x. lag_refcount (t_lag t' x) = (if x = g then n else lag_refcount (t_lag t x))"
    "t_lags t' = (if zero \<and> lag_id (t_lag t g) \<noteq> 0 then (t_lags t)[lag_id (t_lag t g) - 1 := None] else t_lags t)"
proof -
  obtain g where g: "lag_ref t dp = Some g" using assms(1) by (auto simp: dsa_port_lag_destroy_def lag_ref_def bind_eq_Some_conv)
  obtain n zero where r: "refcount_dec_and_test (lag_refcount (t_lag t g)) = (n, zero)" by fastforce
  define u where "u = upd_lag g (\<lambda>g. g\<lparr>lag_refcount := n\<rparr>) (upd_port dp (\<lambda>p. p\<lparr>port_lag := None, port_lag_tx_enabled := False\<rparr>) t)"
  have t': "t' = (if zero then dsa_lag_unmap g u else u)"
    using assms(1) g r by (auto simp: dsa_port_lag_destroy_def lag_ref_def u_def Let_def dsa_store)
  have us: "t_lags u = t_lags t" "lag_id (t_lag u x) = lag_id (t_lag t x)" "lag_dev (t_lag u x) = lag_dev (t_lag t x)"
    "lag_refcount (t_lag u x) = (if x = g then n else lag_refcount (t_lag t x))" "t_ports u = t_ports t"
    "lag_ref u = (lag_ref t)(dp := None)" for x
    by (simp_all add: u_def member_store fun_eq_iff)
  have "lag_used t g" using g assms(3) by (auto simp: lag_used_def in_use_def)
  note un = lag_unmap_sel [of t u, OF assms(2) us(1,2) this]
  show thesis
    by (rule that [OF g _ _ r]) (simp_all add: t' un us lag_map_keeps, simp_all add: lag_ref_def [abs_def] us [unfolded lag_ref_def [abs_def]] lag_map_keeps)
qed

lemma lag_objects_okD:
  assumes "lag_objects_ok t"
  shows "distinct (t_ports t)" "length (t_ports t) < REFCOUNT_MAX"
    "\<And>g. lag_used t g \<Longrightarrow> lag_refcount (t_lag t g) = users (lag_ref t) (t_ports t) g" "slots_ok t"
  using assms unfolding lag_objects_ok_def objects_ok_def lag_used_def by auto

lemma lag_destroy_slots:
  assumes ok: "lag_objects_ok t" and dp: "dp \<in> set (t_ports t)" and run: "dsa_port_lag_destroy dp t = Some t'"
  shows "slots_ok t'"
  using run lag_objects_okD(4) [OF ok] dp
proof (cases rule: lag_destroy_cases)
  case (1 g n zero)
  note d = lag_objects_okD [OF ok]
  note s = slots_okD [OF d(4)]
  have g: "lag_used t g" using 1(1) dp by (auto simp: lag_used_def in_use_def)
  have u: "lag_used t' x = (if x = g then 1 < users (lag_ref t) (t_ports t) g else lag_used t x)" for x
    using users_detach [of _ _ "lag_ref t", OF d(1) dp 1(1)] by (auto simp: lag_used_def users_pos 1(2,3))
  have zero: "zero = (\<not> lag_used t' g)"
    using d(3) [OF g] g [unfolded lag_used_def users_pos] d(2) users_le [of "lag_ref t" "t_ports t" g] 1(4)
    by (auto simp: u refcount_dec_and_test_def split: if_splits)
  show ?thesis
  proof (cases zero)
    case False
    then have "lag_used t' = lag_used t" using zero g by (auto simp: u fun_eq_iff)
    then show ?thesis using d(4) False by (simp add: slots_ok_def 1(5,8))
  next
    case True
    let ?n = "lag_id (t_lag t g)"
    have len: "length (t_lags t') = length (t_lags t)" by (simp add: 1(8))
    have slot: "t_lags t' ! i = (if ?n \<noteq> 0 \<and> i = ?n - 1 then None else t_lags t ! i)" if "i < length (t_lags t)" for i
      using that by (auto simp: 1(8) True nth_list_update)
    have ids: "lag_id (t_lag t' x) = (if x = g then 0 else lag_id (t_lag t x))" for x using 1(5) True by simp
    have used: "lag_used t' x = (x \<noteq> g \<and> lag_used t x)" for x using True zero u [of x] by auto
    show ?thesis unfolding slots_ok_def len used ids
    proof (intro conjI allI impI)
      fix i x assume i: "i < length (t_lags t)" "t_lags t' ! i = Some x"
      then show "x \<noteq> g" "lag_used t x" "(if x = g then 0 else lag_id (t_lag t x)) = Suc i"
        using s(1) [OF i(1), of x] slot [OF i(1)] by (auto split: if_splits)
    next
      fix x assume x: "(x \<noteq> g \<and> lag_used t x) \<and> (if x = g then 0 else lag_id (t_lag t x)) \<noteq> 0"
      then have x': "x \<noteq> g" "lag_id (t_lag t x) \<noteq> 0" "lag_id (t_lag t x) \<le> length (t_lags t)"
          "t_lags t ! (lag_id (t_lag t x) - 1) = Some x" using s(2) [of x] by (auto split: if_splits)
      moreover have "t_lags t ! (?n - 1) = Some g" if "?n \<noteq> 0" using s(2) [OF g] that by simp
      ultimately show "(if x = g then 0 else lag_id (t_lag t x)) \<le> length (t_lags t)"
        "t_lags t' ! ((if x = g then 0 else lag_id (t_lag t x)) - 1) = Some x"
        using slot [of "lag_id (t_lag t x) - 1"] by (auto split: if_splits)
    qed
  qed
qed

lemma lag_objects_ok_create:
  assumes "lag_objects_ok t" "dp \<in> set (t_ports t)" "port_lag (t_dp t dp) = None" "\<not> lag_used t new_lag"
    and "dsa_port_lag_create drv new_lag dp dev t = Some (r, t')"
  shows "lag_objects_ok t'"
  using lgo.create_keeps [of t dp new_lag drv dev r t'] lag_create_slots [OF assms] assms
  by (simp add: lag_objects_ok_def lag_used_def lag_ref_def [abs_def])

lemma lag_objects_ok_destroy:
  assumes "lag_objects_ok t" "dp \<in> set (t_ports t)" "dsa_port_lag_destroy dp t = Some t'"
  shows "lag_objects_ok t'"
  using lgo.destroy_keeps [of t dp t'] lag_destroy_slots [OF assms] assms by (simp add: lag_objects_ok_def)

definition lag_state :: "dsa_tree \<Rightarrow> (lag_ptr \<times> netdev \<times> nat \<times> nat) option list \<times> lag_ptr option list" where
  "lag_state t =
     (map (\<lambda>p. map_option (\<lambda>g. (g, lag_dev (t_lag t g), lag_id (t_lag t g), lag_refcount (t_lag t g))) (lag_ref t p)) (t_ports t),
      t_lags t)"

lemma lag_create_destroy:
  assumes ok: "lag_objects_ok t" and dp: "dp \<in> set (t_ports t)" "port_lag (t_dp t dp) = None"
    and new: "\<not> lag_used t new_lag" and c: "dsa_port_lag_create drv new_lag dp dev t = Some (0, u)"
    and m: "lag_part v = lag_part u" and d: "dsa_port_lag_destroy dp v = Some t'"
  shows "lag_state t' = lag_state t"
proof -
  note v = lag_part_sel [OF m]
  have "lag_objects_ok u" by (rule lag_objects_ok_create [OF ok dp new c])
  then have "slots_ok v" using lag_objects_ok_part [OF m] by (simp add: lag_objects_ok_def)
  moreover have ports: "t_ports u = t_ports t"
    using c by (cases rule: lag_create_cases) (simp_all add: share_lag_sel fresh_lag_sel)
  ultimately obtain g n zero where b: "lag_ref u dp = Some g" "t_ports t' = t_ports u" "lag_ref t' = (lag_ref u)(dp := None)"
    and r: "refcount_dec_and_test (lag_refcount (t_lag u g)) = (n, zero)"
    and ids: "\<And>x. lag_id (t_lag t' x) = (if zero \<and> x = g then 0 else lag_id (t_lag u x))"
    and devs: "\<And>x. lag_dev (t_lag t' x) = lag_dev (t_lag u x)"
    and cnts: "\<And>x. lag_refcount (t_lag t' x) = (if x = g then n else lag_refcount (t_lag u x))"
    and lags: "t_lags t' = (if zero \<and> lag_id (t_lag u g) \<noteq> 0 then (t_lags u)[lag_id (t_lag u g) - 1 := None] else t_lags u)"
    using lag_destroy_cases [OF d, unfolded v, of thesis] dp(1) by auto
  have none: "lag_ref t dp = None" using dp(2) by (simp add: lag_ref_def)
  have used: "lag_used t x" if "p \<in> set (t_ports t)" "lag_ref t p = Some x" for p x
    using that by (auto simp: lag_used_def in_use_def)
  let ?see = "\<lambda>t x. (lag_dev (t_lag t x), lag_id (t_lag t x), lag_refcount (t_lag t x))"
  from c have "t_ports t' = t_ports t \<and> lag_ref t' = lag_ref t \<and> t_lags t' = t_lags t \<and> (\<forall>x. lag_used t x \<longrightarrow> ?see t' x = ?see t x)"
  proof (cases rule: lag_create_cases)
    case (found g')
    have gg: "g' = g" using b(1) by (simp add: found share_lag_sel)
    have bu: "lag_used t g'" using found(2) object_of_Some by (auto simp: lag_find_object lag_used_def)
    then have "refcount_dec_and_test (refcount_inc (lag_refcount (t_lag t g))) = (lag_refcount (t_lag t g), False)"
      using lag_objects_okD(2,3) [OF ok] users_le [of "lag_ref t" "t_ports t" g] gg
      by (intro inc_dec) (auto simp: lag_used_def users_pos)
    then show ?thesis using none gg r by (auto simp: b(2,3) lags ids devs cnts found(3) share_lag_sel fun_upd_idem)
  next
    case k: (new m ls l)
    have gg: "new_lag = g" using b(1) by (simp add: k fresh_lag_sel)
    have zero: "zero" using r gg by (auto simp: k(4) fresh_lag_sel refcount_dec_and_test_def)
    have "ls[m - 1 := None] = t_lags t" if "m \<noteq> 0"
      using k(3) that by (auto simp: takes_slot_def list_update_same_conv)
    moreover have "ls = t_lags t" if "m = 0" using k(3) that by (auto simp: takes_slot_def)
    ultimately show ?thesis using none new gg zero
      by (auto simp: b(2,3) lags ids devs cnts k(4) fresh_lag_sel fun_upd_idem)
  qed simp
  then show ?thesis using used by (auto simp: lag_state_def map_option_case split: option.splits)
qed

subsection \<open>Histories\<close>

definition bridge_part ::
  "dsa_tree \<Rightarrow> dp_ptr list \<times> (dp_ptr \<Rightarrow> br_ptr option) \<times> (br_ptr \<Rightarrow> dsa_bridge) \<times> u64" where
  "bridge_part t = (t_ports t, bridge_ref t, (\<lambda>b. (t_br t b)\<lparr>br_tx_fwd_offload := False\<rparr>), t_bridges t)"

lemma bridge_part_members: "members t' = members t \<Longrightarrow> bridge_part t' = bridge_part t"
  by (simp add: members_def bridge_part_def bridge_ref_def [abs_def])

lemma bridge_part_sel:
  assumes "bridge_part v = bridge_part u"
  shows "t_ports v = t_ports u" "bridge_ref v = bridge_ref u" "t_bridges v = t_bridges u"
    "br_refcount (t_br v x) = br_refcount (t_br u x)" "br_num (t_br v x) = br_num (t_br u x)"
    "br_dev (t_br v x) = br_dev (t_br u x)"
proof -
  have "(t_br v x)\<lparr>br_tx_fwd_offload := False\<rparr> = (t_br u x)\<lparr>br_tx_fwd_offload := False\<rparr>"
    using assms by (simp add: bridge_part_def fun_eq_iff)
  then show "br_refcount (t_br v x) = br_refcount (t_br u x)" "br_num (t_br v x) = br_num (t_br u x)"
    "br_dev (t_br v x) = br_dev (t_br u x)"
    by (metis dsa_bridge.select_convs dsa_bridge.surjective dsa_bridge.update_convs)+
qed (use assms in \<open>simp_all add: bridge_part_def\<close>)

lemma bridges_ok_part:
  assumes m: "bridge_part t' = bridge_part t"
  shows "bridges_ok t' = bridges_ok t"
  unfolding bridges_ok_def nums_ok_def bridge_used_def by (simp add: bridge_part_sel [OF m])

lemma bridge_state_part: "bridge_part t' = bridge_part t \<Longrightarrow> bridge_state t' = bridge_state t"
  by (simp add: bridge_part_def bridge_state_def fun_eq_iff)

lemma bridge_used_part:
  assumes m: "bridge_part t' = bridge_part t"
  shows "bridge_used t' = bridge_used t"
  by (simp add: bridge_used_def bridge_part_sel [OF m])

lemma lag_state_part:
  assumes m: "lag_part t' = lag_part t"
  shows "lag_state t' = lag_state t"
  by (simp add: lag_state_def lag_part_sel [OF m])

lemma lag_ops_bridge_part:
  "dsa_port_lag_create drv g dp dev t = Some (r, t') \<Longrightarrow> bridge_part t' = bridge_part t"
  "dsa_port_lag_destroy dp t = Some t' \<Longrightarrow> bridge_part t' = bridge_part t"
proof -
  assume "dsa_port_lag_create drv g dp dev t = Some (r, t')"
  then show "bridge_part t' = bridge_part t"
    by (cases rule: lag_create_cases) (auto dest: bridge_part_members simp: share_lag_def fresh_lag_def bridge_part_def
      bridge_ref_def fun_eq_iff upd_port_def upd_lag_def)
next
  assume "dsa_port_lag_destroy dp t = Some t'"
  then show "bridge_part t' = bridge_part t"
    by (auto simp: dsa_port_lag_destroy_def Let_def case_prod_unfold bridge_part_def
      bridge_ref_def fun_eq_iff lag_map_keeps upd_port_def upd_lag_def bind_eq_Some_conv)
qed

lemma bridge_ops_lag_part:
  "dsa_port_bridge_create drv b dp br t = Some (r, t') \<Longrightarrow> lag_part t' = lag_part t"
  "dsa_port_bridge_destroy dp t = Some t' \<Longrightarrow> lag_part t' = lag_part t"
proof -
  assume "dsa_port_bridge_create drv b dp br t = Some (r, t')"
  then show "lag_part t' = lag_part t"
    by (cases rule: create_cases) (auto dest: lag_part_members simp: share_bridge_def fresh_bridge_def lag_part_def
      lag_ref_def fun_eq_iff upd_port_def upd_br_def)
next
  assume "dsa_port_bridge_destroy dp t = Some t'"
  then show "lag_part t' = lag_part t"
    by (auto simp: dsa_port_bridge_destroy_def Let_def case_prod_unfold lag_part_def
      lag_ref_def fun_eq_iff upd_port_def upd_br_def bind_eq_Some_conv)
qed

lemma created_ok:
  assumes "created drv new_br dp br t r t'" "bridges_ok t" "dp \<in> set (t_ports t)" "bridge_ref t dp = None" "\<not> bridge_used t new_br"
  shows "bridges_ok t' \<and> lag_part t' = lag_part t \<and> (r \<noteq> 0 \<longrightarrow> bridge_state t' = bridge_state t)"
proof -
  obtain u u1 where u: "members u = members t" "dsa_port_bridge_create drv new_br dp br u = Some (r, u1)" "members t' = members u1"
    using assms(1) unfolding created_def by blast
  note p = bridge_part_members [OF u(1)]
  have "bridges_ok u" "dp \<in> set (t_ports u)" "port_bridge (t_dp u dp) = None" "\<not> bridge_used u new_br"
    using assms bridges_ok_part [OF p] bridge_part_sel [OF p] bridge_used_part [OF p] by (simp_all flip: bridge_ref_def)
  from bridges_ok_create [OF this u(2)] have "bridges_ok u1" .
  moreover have "bridge_state u1 = bridge_state u" if "r \<noteq> 0"
    using u(2) that by (cases rule: create_cases) (auto dest: bridge_part_members bridge_state_part)
  ultimately show ?thesis
    using bridge_ops_lag_part(1) [OF u(2)] bridge_state_part [OF p] lag_part_members [OF u(1)] lag_part_members [OF u(3)]
      bridges_ok_members [OF u(3)] bridge_state_part [OF bridge_part_members [OF u(3)]] by simp
qed

lemma destroyed_ok:
  assumes "destroyed dp t t'" "bridges_ok t" "dp \<in> set (t_ports t)"
  shows "bridges_ok t' \<and> lag_part t' = lag_part t \<and> bridge_ref t' dp = None \<and> (\<forall>b. bridge_used t' b \<longrightarrow> bridge_used t b)"
proof -
  obtain u u1 where u: "members u = members t" "dsa_port_bridge_destroy dp u = Some u1" "members t' = members u1"
    using assms(1) unfolding destroyed_def by blast
  note p = bridge_part_members [OF u(1)] and q = bridge_part_members [OF u(3)]
  have "bridges_ok u1" using bridges_ok_destroy [OF _ _ u(2)] assms bridges_ok_part [OF p] bridge_part_sel(1) [OF p] by simp
  moreover have "bridge_ref u1 dp = None" "bridge_used u1 b \<Longrightarrow> bridge_used u b" for b
    using u(2) by (cases rule: destroy_cases, auto simp: bridge_used_def in_use_def split: if_splits)+
  ultimately show ?thesis
    using bridge_ops_lag_part(2) [OF u(2)] lag_part_members [OF u(1)] lag_part_members [OF u(3)]
      bridges_ok_part [OF q] bridge_part_sel(2) [OF q] bridge_used_part [OF p] bridge_used_part [OF q] by simp
qed

lemma undone_ok:
  assumes "undone drv new_br dp br t t'" "bridges_ok t" "dp \<in> set (t_ports t)" "bridge_ref t dp = None" "\<not> bridge_used t new_br"
  shows "bridges_ok t' \<and> lag_part t' = lag_part t \<and> bridge_state t' = bridge_state t"
proof -
  obtain u where u: "created drv new_br dp br t 0 u" "destroyed dp u t'" using assms(1) unfolding undone_def by blast
  obtain a b where a: "members a = members t" "dsa_port_bridge_create drv new_br dp br a = Some (0, b)" "members u = members b"
    using u(1) unfolding created_def by blast
  obtain c d where c: "members c = members u" "dsa_port_bridge_destroy dp c = Some d" "members t' = members d"
    using u(2) unfolding destroyed_def by blast
  note p = bridge_part_members [OF a(1)]
  have ok: "bridges_ok a" "dp \<in> set (t_ports a)" "port_bridge (t_dp a dp) = None" "\<not> bridge_used a new_br"
    using assms bridges_ok_part [OF p] bridge_part_sel [OF p] bridge_used_part [OF p] by (simp_all flip: bridge_ref_def)
  have "members c = members b" using c(1) a(3) by simp
  from create_destroy [OF ok a(2) this c(2)] have "bridge_state d = bridge_state a" .
  then have "bridge_state t' = bridge_state t"
    using bridge_state_part [OF p] bridge_state_part [OF bridge_part_members [OF c(3)]] by simp
  moreover note cu = created_ok [OF u(1) assms(2-5)]
  moreover have "dp \<in> set (t_ports u)"
    using cu assms(3) lag_part_sel(1) [of u t] by simp
  ultimately show ?thesis using destroyed_ok [OF u(2)] by simp
qed

lemma join_ok:
  assumes "dsa_port_bridge_join env sdev drv new_br dp br t = Some (r, t')" "switchdev_spec sdev"
    and "bridges_ok t" "dp \<in> set (t_ports t)" "bridge_ref t dp = None" "\<not> bridge_used t new_br"
  shows "bridges_ok t' \<and> lag_part t' = lag_part t \<and> (r \<noteq> 0 \<longrightarrow> bridge_state t' = bridge_state t)"
  using join_outcome [OF assms(1,2)]
proof (elim disjE conjE)
  assume "members t' = members t"
  then show ?thesis using assms(3) bridges_ok_members lag_part_members bridge_state_part [OF bridge_part_members] by blast
qed (use created_ok [OF _ assms(3-6)] undone_ok [OF _ assms(3-6)] in blast)+

lemma leave_ok:
  assumes "dsa_port_bridge_leave env drv dp t = Some t'" "bridges_ok t" "dp \<in> set (t_ports t)"
  shows "bridges_ok t' \<and> lag_part t' = lag_part t \<and> bridge_ref t' dp = None \<and> (\<forall>b. bridge_used t' b \<longrightarrow> bridge_used t b)"
  using leave_outcome [OF assms(1)] destroyed_ok [OF _ assms(2,3)] assms(2)
  by (cases "port_bridge (t_dp t dp)") (auto simp: bridge_ref_def)

lemma notify_members: "dsa_port_notify drv dp e t = Some (r, t') \<Longrightarrow> members t' = members t"
  by (rule mv.stays_calls(1) [OF refl, THEN stays_pairD])

definition lag_join_result :: "dsa_tree \<Rightarrow> int \<times> dsa_tree \<Rightarrow> bool" where
  "lag_join_result t x \<longleftrightarrow> bridges_ok (snd x) \<and> lag_objects_ok (snd x) \<and>
     (fst x \<noteq> 0 \<longrightarrow> bridge_state (snd x) = bridge_state t \<and> lag_state (snd x) = lag_state t)"

lemma lag_join_ok:
  assumes run: "dsa_port_lag_join env sdev drv new_lag new_br dp dev t = Some (r, t')" and sw: "switchdev_spec sdev"
    and ok: "bridges_ok t" "lag_objects_ok t" and dp: "dp \<in> set (t_ports t)" "bridge_ref t dp = None" "lag_ref t dp = None"
    and new: "\<not> bridge_used t new_br" "\<not> lag_used t new_lag"
  shows "lag_join_result t (r, t')"
proof -
  obtain e t1 where c: "dsa_port_lag_create drv new_lag dp dev t = Some (e, t1)"
    using run unfolding dsa_port_lag_join_def by (elim bind_pairE) simp
  have dp': "port_lag (t_dp t dp) = None" using dp(3) by (simp add: lag_ref_def)
  have ok1: "lag_objects_ok t1" by (rule lag_objects_ok_create [OF ok(2) dp(1) dp' new(2) c])
  note b1 = lag_ops_bridge_part(1) [OF c]
  have br1: "bridges_ok t1" "bridge_state t1 = bridge_state t" using ok(1) bridges_ok_part [OF b1] bridge_state_part [OF b1] by simp_all
  note run1 = run [unfolded dsa_port_lag_join_def c bind.bind_lunit prod.case]
  show ?thesis
  proof (cases "e = 0")
    case False
    have "members t1 = members t" using c False by (cases rule: lag_create_cases) auto
    from lag_state_part [OF lag_part_members [OF this]] show ?thesis
      using run1 False ok1 br1 by (auto simp: lag_join_result_def)
  next
    case True
    note c0 = c [unfolded True]
    have undo: "lag_state v' = lag_state t \<and> lag_objects_ok v' \<and> bridge_part v' = bridge_part v"
      if "lag_part v = lag_part t1" "dsa_port_lag_destroy dp v = Some v'" for v v'
    proof -
      have "lag_objects_ok v" "dp \<in> set (t_ports v)"
        using ok1 lag_objects_ok_part [OF that(1)] lag_part_sel(1) [OF that(1)] bridge_part_sel(1) [OF b1] dp(1) by simp_all
      then show ?thesis
        using lag_create_destroy [OF ok(2) dp(1) dp' new(2) c0 that] lag_objects_ok_destroy [OF _ _ that(2)]
          lag_ops_bridge_part(2) [OF that(2)] by simp
    qed
    have part: "bridge_part u = bridge_part t \<and> lag_part u = lag_part t1" if "members u = members t1" for u
      using bridge_part_members [OF that] lag_part_members [OF that] b1 by simp
    have join: "bridges_ok v \<and> lag_part v = lag_part t1 \<and> (x \<noteq> 0 \<longrightarrow> bridge_state v = bridge_state t)"
      if "dsa_port_bridge_join env sdev drv new_br dp br u = Some (x, v)" "members u = members t1" for br u x v
    proof -
      note p = part [OF that(2), THEN conjunct1]
      show ?thesis
        using join_ok [OF that(1) sw] ok(1) dp new(1) bridges_ok_part [OF p] bridge_part_sel [OF p] bridge_used_part [OF p]
          bridge_state_part [OF p] part [OF that(2)] by simp
    qed
    have res: "lag_join_result t (0, v)" if "bridges_ok v" "lag_part v = lag_part t1" for v
      using that ok1 lag_objects_ok_part [OF that(2)] by (simp add: lag_join_result_def)
    have res': "lag_join_result t (x, v')"
      if "lag_part v = lag_part t1" "bridges_ok v" "bridge_state v = bridge_state t" "dsa_port_lag_destroy dp v = Some v'" for v v' x
      using undo [OF that(1,4)] that(2,3) bridges_ok_part [of v' v] bridge_state_part [of v' v] by (simp add: lag_join_result_def)
    have part': "lag_part u = lag_part v \<and> bridges_ok u = bridges_ok v \<and> bridge_state u = bridge_state v"
      if "members u = members v" for u v
      using lag_part_members [OF that] bridges_ok_members [OF that] bridge_state_part [OF bridge_part_members [OF that]] by simp
    have "yields (lag_join_result t) (dsa_port_lag_join env sdev drv new_lag new_br dp dev t)"
      unfolding dsa_port_lag_join_def c0 bind.bind_lunit prod.case Let_def if_False simp_thms
    proof (intro yields_rules, goal_cases)
      case (1 lag err u v')
      note u = notify_members [OF 1(2)]
      show ?case using res' [OF _ _ _ 1(4)] part [OF u] part' [OF u] br1 by simp
    next
      case (2 lag err u)
      note u = notify_members [OF 2(2)]
      show ?case using res part [OF u] part' [OF u] br1 by simp
    next
      case (3 lag err u br err' v x w v')
      note u = notify_members [OF 3(2)] and w = notify_members [OF 3(7)]
      show ?case using res' [OF _ _ _ 3(8)] join [OF 3(5) u] 3(6) part' [OF w] by simp
    next
      case (4 lag err u br err' v)
      note u = notify_members [OF 4(2)]
      show ?case using res join [OF 4(5) u] by simp
    qed
    from yieldsD [OF this run] show ?thesis .
  qed
qed

lemma lag_leave_ok:
  assumes run: "dsa_port_lag_leave env drv dp t = Some t'" and ok: "bridges_ok t" "lag_objects_ok t" and dp: "dp \<in> set (t_ports t)"
  shows "bridges_ok t' \<and> lag_objects_ok t'"
proof -
  have leave: "bridges_ok u \<and> lag_part u = lag_part t"
    if "(if dsa_port_bridge_dev_get t (t_dp t dp) \<noteq> None then dsa_port_bridge_leave env drv dp t else Some t) = Some u" for u
    using that leave_ok [OF _ ok(1) dp] ok(1) by (auto split: if_splits)
  have "yields (\<lambda>t'. bridges_ok t' \<and> lag_objects_ok t') (dsa_port_lag_leave env drv dp t)"
    unfolding dsa_port_lag_leave_def Let_def
  proof (intro yields_rules, goal_cases)
    case 1
    then show ?case using ok by simp
  next
    case (2 u lag v x w)
    note u = leave [OF 2(2)] and w = notify_members [OF 2(5)]
    have "lag_objects_ok u" "dp \<in> set (t_ports u)"
      using u ok(2) dp lag_objects_ok_part [of u t] lag_part_sel(1) [of u t] by simp_all
    from lag_objects_ok_destroy [OF this 2(4)] lag_ops_bridge_part(2) [OF 2(4)] u
    show ?case using bridges_ok_part [of v u] bridges_ok_members [OF w] lag_objects_ok_members [OF w] by simp
  qed
  from yieldsD [OF this run] show ?thesis .
qed

text \<open>
  The operations on memberships. A port that joins has no master yet, and the allocator returns memory that is not in
  use. Requests for objects, VLAN filtering and changes of the LAG's transmit state may happen in between.
\<close>

inductive member_step :: "stack_env \<Rightarrow> bridge_env \<Rightarrow> driver \<Rightarrow> dsa_tree \<Rightarrow> dsa_tree \<Rightarrow> bool" for env sdev drv t t' where
  join: "dp \<in> set (t_ports t) \<Longrightarrow> bridge_ref t dp = None \<Longrightarrow> \<not> bridge_used t new_br \<Longrightarrow>
    dsa_port_bridge_join env sdev drv new_br dp br t = Some (r, t') \<Longrightarrow> member_step env sdev drv t t'"
| pre_leave: "dsa_port_pre_bridge_leave sdev drv dp t = Some t' \<Longrightarrow> member_step env sdev drv t t'"
| leave: "dp \<in> set (t_ports t) \<Longrightarrow> dsa_port_bridge_leave env drv dp t = Some t' \<Longrightarrow> member_step env sdev drv t t'"
| lag_join: "dp \<in> set (t_ports t) \<Longrightarrow> bridge_ref t dp = None \<Longrightarrow> lag_ref t dp = None \<Longrightarrow> \<not> bridge_used t new_br \<Longrightarrow>
    \<not> lag_used t new_lag \<Longrightarrow> dsa_port_lag_join env sdev drv new_lag new_br dp dev t = Some (r, t') \<Longrightarrow> member_step env sdev drv t t'"
| pre_lag_leave: "dsa_port_pre_lag_leave sdev drv dp t = Some t' \<Longrightarrow> member_step env sdev drv t t'"
| lag_leave: "dp \<in> set (t_ports t) \<Longrightarrow> dsa_port_lag_leave env drv dp t = Some t' \<Longrightarrow> member_step env sdev drv t t'"
| lag_change: "dsa_port_lag_change drv dp up tx t = Some (r, t') \<Longrightarrow> member_step env sdev drv t t'"
| request: "port_request env drv t r t' \<Longrightarrow> member_step env sdev drv t t'"
| filtering: "dsa_port_vlan_filtering env drv dp b t = Some (r, t') \<Longrightarrow> member_step env sdev drv t t'"

lemma lag_change_members: "dsa_port_lag_change drv dp up tx t = Some (r, t') \<Longrightarrow> members t' = members t"
  unfolding dsa_port_lag_change_def Let_def
  by (auto split: if_splits dest!: notify_members simp: members_def upd_port_def fun_eq_iff)

lemma member_step_ok:
  assumes "member_step env sdev drv t t'" "switchdev_spec sdev" "bridges_ok t" "lag_objects_ok t"
  shows "bridges_ok t' \<and> lag_objects_ok t'"
proof -
  have same: ?thesis if "members t' = members t"
    using assms(3,4) bridges_ok_members [OF that] lag_objects_ok_members [OF that] by simp
  have lag: ?thesis if "bridges_ok t'" "lag_part t' = lag_part t"
    using that assms(4) lag_objects_ok_part [OF that(2)] by simp
  from assms(1) show ?thesis
  proof cases
    case (join dp new_br br r)
    then show ?thesis using join_ok [OF join(4) assms(2,3)] lag by blast
  next
    case (pre_leave dp)
    then show ?thesis using pre_leave_members [OF _ assms(2)] same by blast
  next
    case (leave dp)
    then show ?thesis using leave_ok [OF leave(2) assms(3)] lag by blast
  next
    case (lag_join dp new_br new_lag dev r)
    then show ?thesis using lag_join_ok [OF lag_join(6) assms(2-4)] by (simp add: lag_join_result_def)
  next
    case (pre_lag_leave dp)
    then show ?thesis using pre_leave_members [OF _ assms(2)] same assms(3,4)
      by (auto simp: dsa_port_pre_lag_leave_def split: if_splits)
  next
    case (lag_leave dp)
    then show ?thesis using lag_leave_ok assms(3,4) by blast
  next
    case (lag_change dp up tx r)
    then show ?thesis using lag_change_members same by blast
  next
    case (request r)
    then show ?thesis using request_keeps mv.view_bare same by blast
  next
    case (filtering dp b r)
    then show ?thesis using mv.stays_vlan_filtering [OF refl, THEN stays_pairD] same by blast
  qed
qed

subsection \<open>Properties\<close>

text \<open>
  C35. Memberships are counted exactly, in every history: whatever sequence of joins and leaves of bridges and LAGs,
  requests for objects and changes of the VLAN filter the network stack makes, granted or refused at any point by the
  driver, the allocator or \<open>switchdev\<close>, the reference count of a bridge or a LAG in use is the number of its
  ports, no two of them stand for the same device, a bridge number is taken exactly while a bridge in use carries it,
  no two bridges share a number, and the LAG array holds exactly the numbered LAGs in use, each in its slot.
\<close>

theorem memberships_counted:
  assumes "rtranclp (member_step env sdev drv) t t'" and "switchdev_spec sdev"
    and "bridges_ok t" and "lag_objects_ok t"
  shows "bridges_ok t' \<and> lag_objects_ok t'"
  using assms(1) by (induction rule: rtranclp_induct) (use assms member_step_ok in auto)

definition bridge_board :: dsa_tree where
  "bridge_board = fdb_board\<lparr>t_ds := (\<lambda>_. board_switch\<lparr>sw_ops := {Op_port_bridge_join}, sw_max_num_bridges := 8\<rparr>)\<rparr>"

definition plain_switchdev :: bridge_env where
  "plain_switchdev = \<lparr>offload = (\<lambda>_ _ _ t. Some (0, t)), unoffload = (\<lambda>_ _ t. Some t), tx_fwd = (\<lambda>_. False)\<rparr>"

lemma bridge_board_sel [simp]:
  "t_dp bridge_board = t_dp fdb_board" "t_ports bridge_board = [0, 1, 2, 3, 4]" "t_nh bridge_board = [0]"
  "t_log bridge_board = []" "t_lags bridge_board = []" "t_bridges bridge_board = 0" "t_index bridge_board = 0"
  "sw_ops (t_ds bridge_board d) = {Op_port_bridge_join}" "sw_max_num_bridges (t_ds bridge_board d) = 8"
  "sw_ageing_time_min (t_ds bridge_board d) = 0" "sw_ageing_time_max (t_ds bridge_board d) = 0"
  "port_lag (t_dp fdb_board p) = None" "port_hsr_dev (t_dp fdb_board p) = None"
  by (simp_all add: bridge_board_def board_switch_def fdb_board_def board_tree_def board_port_def)

lemma bridge_board_free: "bridge_ref bridge_board p = None" "lag_ref bridge_board p = None"
  "\<not> bridge_used bridge_board b" "\<not> lag_used bridge_board g"
  by (simp_all add: bridge_ref_def lag_ref_def bridge_used_def lag_used_def in_use_def)

lemma bridge_board_ok: "bridges_ok bridge_board" "lag_objects_ok bridge_board" "switchdev_spec plain_switchdev"
  using bridge_board_free [unfolded bridge_used_def lag_used_def]
  by (simp_all add: bridges_ok_def nums_ok_def lag_objects_ok_def slots_ok_def objects_ok_def bridge_used_def lag_used_def
      switchdev_spec_def plain_switchdev_def REFCOUNT_MAX_def)

lemma first_number: "find_next_zero_bit 0 64 (Suc 0) = 1"
  by (simp add: find_next_zero_bit_def upt_conv_Cons)

lemmas join_evals = dsa_port_bridge_join_def dsa_port_bridge_create_def dsa_tree_bridge_find_def dsa_port_bridge_dev_get_def
  dsa_kzalloc_def dsa_event_def Let_def dsa_bridge_num_get_def dsa_bridge_num_find_def first_number
  plain_env_def plain_switchdev_def dsa_port_to_bridge_port_def broadcast_notify dsa_tree_notify_def dsa_switch_event_def
  dsa_switch_bridge_join_def has_op_def tree_call_def call_op_def dsa_port_switchdev_sync_attrs_def
  dsa_port_inherit_brport_flags_def brport_flags_def dsa_port_bridge_flags_def port_has_op_def dsa_port_set_state_def
  dsa_port_vlan_filtering_def dsa_port_ageing_time_def dsa_port_notify_def dsa_switch_ageing_time_def upd_port_def upd_br_def

lemma bridge_board_joins:
  "\<exists>t1. dsa_port_bridge_join plain_env plain_switchdev (\<lambda>_ _. 0) 6 2 9 bridge_board = Some (0, t1)"
  by (simp add: join_evals)

theorem memberships_counted_witness:
  "\<exists>t'. dsa_port_bridge_join plain_env plain_switchdev (\<lambda>_ _. 0) 6 2 9 bridge_board = Some (0, t') \<and>
     bridges_ok t' \<and> lag_objects_ok t'"
proof -
  obtain t1 where run: "dsa_port_bridge_join plain_env plain_switchdev (\<lambda>_ _. 0) 6 2 9 bridge_board = Some (0, t1)"
    using bridge_board_joins by blast
  have "rtranclp (member_step plain_env plain_switchdev (\<lambda>_ _. 0)) bridge_board t1"
    by (rule r_into_rtranclp, rule member_step.join [OF _ _ _ run]) (simp_all add: bridge_board_free)
  from memberships_counted [OF this bridge_board_ok(3,1,2)] run show ?thesis by blast
qed

text \<open>
  C36. A join that fails leaves no trace in the memberships: wherever a port that joins a bridge or a LAG is refused, by
  the driver of any switch, for lack of memory or numbers, by \<open>switchdev\<close>, while it takes over the attributes of the
  bridge or, in a LAG, in the bridge above it, afterwards every port has the bridge and the LAG it had, with the device,
  the number and the reference count it had, and the same bridge numbers and LAG slots are taken.
\<close>

theorem failed_join_restores:
  assumes "dsa_port_bridge_join env sdev drv new_br dp br t = Some (r, t') \<or>
      dsa_port_lag_join env sdev drv new_lag new_br dp dev t = Some (r, t')"
    and "r \<noteq> 0" "switchdev_spec sdev" "bridges_ok t" "lag_objects_ok t" "dp \<in> set (t_ports t)"
    and "bridge_ref t dp = None" "lag_ref t dp = None" "\<not> bridge_used t new_br" "\<not> lag_used t new_lag"
  shows "bridge_state t' = bridge_state t \<and> lag_state t' = lag_state t"
  using assms(1)
proof
  assume "dsa_port_bridge_join env sdev drv new_br dp br t = Some (r, t')"
  from join_ok [OF this assms(3,4,6,7,9)] show ?thesis using assms(2) lag_state_part by blast
next
  assume "dsa_port_lag_join env sdev drv new_lag new_br dp dev t = Some (r, t')"
  from lag_join_ok [OF this assms(3-10)] show ?thesis using assms(2) by (simp add: lag_join_result_def)
qed

definition no_bridges :: driver where
  "no_bridges c l = (case c of Port_bridge_join _ _ _ _ \<Rightarrow> EINVAL_NEG | _ \<Rightarrow> 0)"

lemma bridge_board_refuses:
  "\<exists>t1. dsa_port_bridge_join plain_env plain_switchdev no_bridges 6 2 9 bridge_board = Some (EINVAL_NEG, t1)"
  by (simp add: join_evals no_bridges_def dsa_port_bridge_destroy_def refcount_dec_and_test_def)

theorem failed_join_restores_witness:
  "\<exists>t1. dsa_port_bridge_join plain_env plain_switchdev no_bridges 6 2 9 bridge_board = Some (EINVAL_NEG, t1) \<and>
     bridge_state t1 = bridge_state bridge_board \<and> lag_state t1 = lag_state bridge_board"
proof -
  obtain t1 where run: "dsa_port_bridge_join plain_env plain_switchdev no_bridges 6 2 9 bridge_board = Some (EINVAL_NEG, t1)"
    using bridge_board_refuses by blast
  from failed_join_restores [OF disjI1 [OF run] _ bridge_board_ok(3,1,2) _ bridge_board_free(1,2,3) bridge_board_free(4)] run
  show ?thesis by simp
qed

text \<open>
  C37. Joining a bridge and leaving it again restores the memberships: when the join succeeds, the leave puts every
  count, number and membership back, whatever the driver answers to either and whatever happens to attributes and
  objects meanwhile.
\<close>

theorem bridge_join_leave_roundtrip:
  assumes "dsa_port_bridge_join env sdev drv new_br dp br t = Some (0, t1)"
    and "members t2 = members t1" and "dsa_port_bridge_leave env' drv' dp t2 = Some t3"
    and "switchdev_spec sdev" "bridges_ok t" "dp \<in> set (t_ports t)" "bridge_ref t dp = None" "\<not> bridge_used t new_br"
  shows "bridge_state t3 = bridge_state t \<and> lag_state t3 = lag_state t"
proof -
  have cr: "created drv new_br dp br t 0 t1" using join_outcome [OF assms(1,4)] by simp
  then obtain u u1 where u: "members u = members t" "dsa_port_bridge_create drv new_br dp br u = Some (0, u1)" "members t1 = members u1"
    unfolding created_def by blast
  have "bridge_ref u1 dp \<noteq> None" using u(2) by (cases rule: create_cases) (simp_all add: share_bridge_sel fresh_bridge_sel)
  then have "port_bridge (t_dp t2 dp) \<noteq> None"
    using bridge_part_sel(2) [OF bridge_part_members, of t2 u1] u(3) assms(2) by (simp flip: bridge_ref_def)
  then have "destroyed dp t2 t3" using leave_outcome [OF assms(3)] by simp
  then have "destroyed dp t1 t3" using assms(2) unfolding destroyed_def by metis
  with cr have "undone drv new_br dp br t t3" unfolding undone_def by blast
  from undone_ok [OF this assms(5-8)] show ?thesis using lag_state_part by blast
qed

lemma bridge_board_leaves:
  "\<exists>t1 t3. dsa_port_bridge_join plain_env plain_switchdev (\<lambda>_ _. 0) 6 2 9 bridge_board = Some (0, t1) \<and>
     dsa_port_bridge_leave plain_env (\<lambda>_ _. 0) 2 t1 = Some t3"
  by (simp add: join_evals dsa_port_bridge_leave_def dsa_port_bridge_destroy_def refcount_dec_and_test_def
      dsa_switch_bridge_leave_def dsa_port_switchdev_unsync_attrs_def dsa_port_clear_brport_flags_def
      dsa_port_set_state_now_def dsa_port_reset_vlan_filtering_def)

theorem bridge_join_leave_roundtrip_witness:
  "\<exists>t1 t3. dsa_port_bridge_join plain_env plain_switchdev (\<lambda>_ _. 0) 6 2 9 bridge_board = Some (0, t1) \<and>
     dsa_port_bridge_leave plain_env (\<lambda>_ _. 0) 2 t1 = Some t3 \<and> bridge_state t3 = bridge_state bridge_board"
proof -
  obtain t1 t3 where run: "dsa_port_bridge_join plain_env plain_switchdev (\<lambda>_ _. 0) 6 2 9 bridge_board = Some (0, t1)"
    "dsa_port_bridge_leave plain_env (\<lambda>_ _. 0) 2 t1 = Some t3"
    using bridge_board_leaves by blast
  from bridge_join_leave_roundtrip [OF run(1) refl run(2) bridge_board_ok(3,1) _ bridge_board_free(1,3)] run
  show ?thesis by auto
qed

subsection \<open>VLAN filtering and change of conduit\<close>

definition set_filtering :: "dp_ptr \<Rightarrow> bool \<Rightarrow> dsa_tree \<Rightarrow> dsa_tree" where
  "set_filtering dp b t =
     (let ds = port_ds (t_dp t dp) in
      if sw_vlan_filtering_is_global (t_ds t ds) then upd_ds ds (\<lambda>s. s\<lparr>sw_vlan_filtering := b\<rparr>) t
      else upd_port dp (\<lambda>p. p\<lparr>port_vlan_filtering := b\<rparr>) t)"

lemma filters_sel:
  assumes "filters u = filters t"
  shows "port_ds (t_dp u p) = port_ds (t_dp t p)" "port_vlan_filtering (t_dp u p) = port_vlan_filtering (t_dp t p)"
    "sw_vlan_filtering_is_global (t_ds u d) = sw_vlan_filtering_is_global (t_ds t d)"
    "sw_vlan_filtering (t_ds u d) = sw_vlan_filtering (t_ds t d)"
  using assms by (simp_all add: filters_def fun_eq_iff)

lemma set_filtering_filters:
  assumes "filters u = filters t"
  shows "filters (set_filtering dp b u) = filters (set_filtering dp b t)"
  using filters_sel [OF assms] by (simp add: filters_def set_filtering_def Let_def upd_ds_def upd_port_def fun_eq_iff)

lemma set_filtering_sel:
  "port_ds (t_dp (set_filtering dp b t) p) = port_ds (t_dp t p)"
  "sw_vlan_filtering_is_global (t_ds (set_filtering dp b t) d) = sw_vlan_filtering_is_global (t_ds t d)"
  by (simp_all add: set_filtering_def Let_def upd_ds_def upd_port_def)

lemma set_filtering_twice:
  "filters (set_filtering dp (dsa_port_is_vlan_filtering t (t_dp t dp)) (set_filtering dp b t)) = filters t"
  "filters (set_filtering dp (dsa_port_is_vlan_filtering t (t_dp t dp)) t) = filters t"
  by (simp_all add: filters_def set_filtering_def Let_def upd_ds_def upd_port_def dsa_port_is_vlan_filtering_def fun_eq_iff)



lemmas cpu_steps = cv.stays_broadcast [OF refl, THEN stays_pairD] cv.stays_sync_attrs [OF refl, THEN stays_pairD]
  cv.stays_flush [OF refl, THEN staysD] cv.stays_unsync_attrs [OF refl, THEN staysD]
  cv.stays_manage_vlan [OF refl, THEN stays_pairD]
  cv.stays_host_addresses [OF refl, THEN staysD] cv.stays_supports_mst [OF refl, THEN stays_pairD]

lemma cpu_links_objects:
  "dsa_port_bridge_create drv b dp br t = Some (r, t') \<Longrightarrow> cpu_links t' = cpu_links t"
  "dsa_port_bridge_destroy dp t = Some t' \<Longrightarrow> cpu_links t' = cpu_links t"
  "cpu_links (upd_br b f t) = cpu_links t"
proof -
  assume "dsa_port_bridge_create drv b dp br t = Some (r, t')"
  then show "cpu_links t' = cpu_links t"
    by (auto simp: dsa_port_bridge_create_def Let_def cpu_links_def fun_eq_iff upd_port_def upd_br_def
        split: option.splits prod.splits if_splits elim!: bind_pairE)
next
  assume "dsa_port_bridge_destroy dp t = Some t'"
  then have "t_dp t' = (t_dp t)(dp := (t_dp t dp)\<lparr>port_bridge := None\<rparr>)"
    by (auto simp: dsa_port_bridge_destroy_def Let_def case_prod_unfold upd_port_def upd_br_def bind_eq_Some_conv)
  then show "cpu_links t' = cpu_links t" by (simp add: cpu_links_def fun_eq_iff)
qed (simp add: cpu_links_def upd_br_def fun_eq_iff)

lemma stays_join:
  assumes "switchdev_spec sdev" "cpu_links u = cpu_links t"
  shows "stays cpu_links t snd (dsa_port_bridge_join env sdev drv new_br dp br u)"
proof -
  have sw: "cpu_links u = cpu_links t \<Longrightarrow> stays cpu_links t snd (offload sdev d dp b u)"
    "cpu_links u = cpu_links t \<Longrightarrow> stays cpu_links t (\<lambda>u. u) (unoffload sdev d dp u)" for u d b
    using assms(1) unfolding switchdev_spec_def stays_def by (metis prod.collapse)+
  have obj: "cpu_links u = cpu_links t \<Longrightarrow> stays cpu_links t snd (dsa_port_bridge_create drv new_br dp br u)"
    "cpu_links u = cpu_links t \<Longrightarrow> stays cpu_links t (\<lambda>u. u) (dsa_port_bridge_destroy dp u)" for u
    using cpu_links_objects unfolding stays_def by (metis prod.collapse)+
  show ?thesis unfolding dsa_port_bridge_join_def Let_def
    by (intro stays_rules sw obj cv.stays_broadcast cv.stays_supports_mst cv.stays_sync_attrs cv.stays_flush)
      (use assms(2) in \<open>simp_all add: cpu_links_objects\<close>)
qed

lemma stays_leave:
  assumes "switchdev_spec sdev" "cpu_links u = cpu_links t"
  shows "stays cpu_links t (\<lambda>u. u) (dsa_port_pre_bridge_leave sdev drv dp u)"
    "stays cpu_links t (\<lambda>u. u) (dsa_port_bridge_leave env drv dp u)"
proof -
  have sw: "cpu_links u = cpu_links t \<Longrightarrow> stays cpu_links t (\<lambda>u. u) (unoffload sdev d dp u)" for u d
    using assms(1) unfolding switchdev_spec_def stays_def by metis
  have obj: "cpu_links u = cpu_links t \<Longrightarrow> stays cpu_links t (\<lambda>u. u) (dsa_port_bridge_destroy dp u)" for u
    using cpu_links_objects unfolding stays_def by metis
  show "stays cpu_links t (\<lambda>u. u) (dsa_port_pre_bridge_leave sdev drv dp u)"
    unfolding dsa_port_pre_bridge_leave_def by (intro stays_rules sw cv.stays_flush) (use assms(2) in simp_all)
  show "stays cpu_links t (\<lambda>u. u) (dsa_port_bridge_leave env drv dp u)"
    unfolding dsa_port_bridge_leave_def Let_def
    by (intro stays_rules obj cv.stays_broadcast cv.stays_unsync_attrs) (use assms(2) in simp_all)
qed

lemma assign_cpu_links:
  assumes "dsa_port_assign_conduit env drv dp conduit fail t = Some (r, t')"
  shows "cpu_links t' = (if r = 0 then (cpu_links t)(dp := (dsa_ptr env conduit, netif_is_lag_master env conduit)) else cpu_links t)"
    "\<not> fail \<Longrightarrow> r = 0"
  using assms unfolding dsa_port_assign_conduit_def
  by (auto elim!: bind_pairE split: if_splits dest!: cv.stays_calls(2) [OF refl, THEN stays_pairD])
    (auto simp: cpu_links_def upd_port_def fun_eq_iff)

lemma rewind_old_cpu:
  assumes "switchdev_spec sdev" "cpu_links u = cpu_links t"
  shows "stays cpu_links t (\<lambda>u. u) (rewind_old_bridge env sdev drv b dp bd u)"
    "stays cpu_links t (\<lambda>u. u) (rewind_old_addrs env sdev drv b dp bd vf u)"
proof -
  have old: "stays cpu_links t (\<lambda>u. u) (rewind_old_bridge env sdev drv b dp bd u)" if "cpu_links u = cpu_links t" for u
    unfolding rewind_old_bridge_def by (intro stays_rules stays_join assms(1) that)
  show "stays cpu_links t (\<lambda>u. u) (rewind_old_bridge env sdev drv b dp bd u)" by (rule old [OF assms(2)])
  show "stays cpu_links t (\<lambda>u. u) (rewind_old_addrs env sdev drv b dp bd vf u)"
    unfolding rewind_old_addrs_def
    by (intro stays_rules old cv.stays_host_addresses cv.stays_manage_vlan) (use assms(2) in simp_all)
qed

lemma rewind_new_cpu:
  assumes "rewind_new_addrs env sdev drv b dp bd vf old_conduit u = Some t'" "switchdev_spec sdev"
    and "cpu_links u = (cpu_links t)(dp := x)" "cpu_links t dp = (dsa_ptr env old_conduit, netif_is_lag_master env old_conduit)"
  shows "cpu_links t' = cpu_links t"
proof -
  obtain v r w where v: "dsa_user_unsync_ha env drv dp u = Some v"
    "dsa_port_assign_conduit env drv dp old_conduit False v = Some (r, w)" "rewind_old_addrs env sdev drv b dp bd vf w = Some t'"
    using assms(1) unfolding rewind_new_addrs_def by (auto simp: bind_eq_Some_conv)
  have "cpu_links w = (cpu_links t)(dp := cpu_links t dp)"
    using assign_cpu_links [OF v(2)] cpu_steps(7) [OF v(1)] assms(3,4) by simp
  then show ?thesis using rewind_old_cpu(2) [OF assms(2), THEN staysD, OF _ v(3)] by simp
qed

text \<open>
  C39. A change of conduit is all or nothing for the CPU ports: when it succeeds, the port has the CPU port of the new
  conduit and no other port has changed its own; when it fails, in whatever stage, every port has the CPU port it had. The
  conduit of the port knows its CPU port, as the interfaces of a tree do once the tree is set up.
\<close>

theorem conduit_change_all_or_nothing:
  assumes run: "dsa_port_change_conduit env sdev drv new_br new_br' dp conduit t = Some (r, t')" and sw: "switchdev_spec sdev"
    and old: "dsa_port_to_conduit t dp = Some old_conduit"
    and links: "cpu_links t dp = (dsa_ptr env old_conduit, netif_is_lag_master env old_conduit)"
  shows "cpu_links t' =
    (if r = 0 then (cpu_links t)(dp := (dsa_ptr env conduit, netif_is_lag_master env conduit)) else cpu_links t)"
proof -
  let ?new = "(dsa_ptr env conduit, netif_is_lag_master env conduit)"
  let ?bd = "dsa_port_bridge_dev_get t (t_dp t dp)"
  have leave: "cpu_links u = cpu_links t" if "(if ?bd \<noteq> None then do {
      t \<leftarrow> dsa_port_pre_bridge_leave sdev drv dp t; dsa_port_bridge_leave env drv dp t} else Some t) = Some u" for u
    by (rule staysD [where out = "\<lambda>u. u", OF _ that]) (intro stays_rules stays_leave [OF sw]; simp)
  have manage: "cpu_links v = cpu_links u"
    if "(if c then dsa_user_manage_vlan_filtering env drv dp b u else Some (0, u)) = Some (x, v)" for c b u x v
    by (rule stays_pairD [OF _ that]) (intro stays_rules cv.stays_manage_vlan; simp)
  have manage': "cpu_links v = cpu_links u"
    if "(if c then map_option snd (dsa_user_manage_vlan_filtering env drv dp b u) else Some u) = Some v" for c b u v
    by (rule staysD [where out = "\<lambda>u. u", OF _ that]) (intro stays_rules cv.stays_manage_vlan; simp)
  have join: "cpu_links v = cpu_links u" if "dsa_port_bridge_join env sdev drv new_br dp br u = Some (x, v)" for br u x v
    by (rule stays_pairD [OF stays_join [OF sw refl] that])
  note rewind = rewind_old_cpu [OF sw, THEN staysD] and ha = cpu_steps(6,7)
  have "yields (\<lambda>(r, t'). cpu_links t' = (if r = 0 then (cpu_links t)(dp := ?new) else cpu_links t))
      (dsa_port_change_conduit env sdev drv new_br new_br' dp conduit t)"
    unfolding dsa_port_change_conduit_def Let_def old bind.bind_lunit
  proof (intro yields_rules, goal_cases)
    case (1 u err v w)
    then show ?case using leave [OF 1(1)] manage [OF 1(2)] rewind(1) [OF _ 1(4)] by simp
  next
    case (2 u err v w err' x y)
    then show ?case
      using leave [OF 2(1)] manage [OF 2(2)] ha(2) [OF 2(4)] assign_cpu_links(1) [OF 2(5)] rewind(2) [OF _ 2(7)] by simp
  next
    case (3 u err v w err' x y err'' z q)
    have "cpu_links z = (cpu_links t)(dp := ?new)"
      using leave [OF 3(1)] manage [OF 3(2)] ha(2) [OF 3(4)] assign_cpu_links(1) [OF 3(5)] 3(6) ha(1) [OF 3(7)] manage [OF 3(8)] by simp
    then show ?case using rewind_new_cpu [OF 3(10) sw _ links] 3(9) by simp
  next
    case (4 u err v w err' x y err'' z)
    then show ?case
      using leave [OF 4(1)] manage [OF 4(2)] ha(2) [OF 4(4)] assign_cpu_links(1) [OF 4(5)] ha(1) [OF 4(7)] manage [OF 4(8)] by simp
  next
    case (5 u err v w err' x y err'' z br e q m n)
    have "cpu_links m = (cpu_links t)(dp := ?new)"
      using leave [OF 5(1)] manage [OF 5(2)] ha(2) [OF 5(4)] assign_cpu_links(1) [OF 5(5)] 5(6) ha(1) [OF 5(7)] manage [OF 5(8)]
        join [OF 5(11)] manage' [OF 5(13)] by simp
    then show ?case using rewind_new_cpu [OF 5(14) sw _ links] 5(12) by simp
  next
    case (6 u err v w err' x y err'' z br e q)
    then show ?case
      using leave [OF 6(1)] manage [OF 6(2)] ha(2) [OF 6(4)] assign_cpu_links(1) [OF 6(5)] ha(1) [OF 6(7)] manage [OF 6(8)]
        join [OF 6(11)] by simp
  qed
  from yieldsD [OF this run] show ?thesis by simp
qed

definition conduit_board :: dsa_tree where
  "conduit_board = bridge_board\<lparr>t_dp := (t_dp bridge_board)(2 := (t_dp bridge_board 2)\<lparr>port_bridge := Some 6\<rparr>),
     t_ds := (\<lambda>_. board_switch\<lparr>sw_ops := {Op_port_bridge_join, Op_port_change_conduit}\<rparr>),
     t_br := (\<lambda>_. \<lparr>br_dev = 9, br_num = 0, br_tx_fwd_offload = False, br_refcount = 1\<rparr>), t_work := []\<rparr>"

definition conduit_env :: stack_env where
  "conduit_env = plain_env\<lparr>dsa_ptr := (\<lambda>_. Some 4)\<rparr>"

lemma conduit_board_sel [simp]:
  "t_dp conduit_board = (t_dp fdb_board)(2 := (t_dp fdb_board 2)\<lparr>port_bridge := Some 6\<rparr>)" "t_ports conduit_board = [0, 1, 2, 3, 4]"
  "t_nh conduit_board = [0]" "t_log conduit_board = []" "t_bridges conduit_board = 0" "t_work conduit_board = []"
  "t_br conduit_board = (\<lambda>_. \<lparr>br_dev = 9, br_num = 0, br_tx_fwd_offload = False, br_refcount = 1\<rparr>)"
  "sw_ops (t_ds conduit_board d) = {Op_port_bridge_join, Op_port_change_conduit}" "sw_max_num_bridges (t_ds conduit_board d) = 0"
  "sw_vlan_filtering_is_global (t_ds conduit_board d) = False" "port_vlan_filtering (t_dp fdb_board p) = False"
  "sw_needs_standalone_vlan_filtering (t_ds conduit_board d) = False"
  "sw_ageing_time_min (t_ds conduit_board d) = 0" "sw_ageing_time_max (t_ds conduit_board d) = 0"
  by (simp_all add: conduit_board_def board_switch_def fdb_board_def board_tree_def board_port_def)

lemma conduit_board_run:
  "\<exists>t'. dsa_port_change_conduit conduit_env plain_switchdev no_bridges 7 8 2 5 conduit_board = Some (0, t') \<and>
     port_bridge (t_dp t' 2) = None"
  by (simp add: dsa_port_change_conduit_def conduit_env_def dsa_port_to_conduit_def dsa_port_pre_bridge_leave_def
      dsa_port_bridge_leave_def dsa_port_bridge_destroy_def refcount_dec_and_test_def dsa_switch_bridge_leave_def
      dsa_port_switchdev_unsync_attrs_def dsa_port_clear_brport_flags_def dsa_port_set_state_now_def
      dsa_port_reset_vlan_filtering_def dsa_flush_workqueue_def dsa_port_is_vlan_filtering_def dsa_user_unsync_ha_def
      dsa_user_sync_ha_def each_addr_def flush_if_filtering_def dsa_switch_supports_uc_filtering_def
      dsa_switch_supports_mc_filtering_def dsa_port_assign_conduit_def port_op_def join_evals no_bridges_def)

theorem conduit_change_all_or_nothing_witness:
  "\<exists>t'. dsa_port_change_conduit conduit_env plain_switchdev no_bridges 7 8 2 5 conduit_board = Some (0, t') \<and>
     cpu_links t' = (cpu_links conduit_board)(2 := (Some 4, False))"
proof -
  obtain t' where run: "dsa_port_change_conduit conduit_env plain_switchdev no_bridges 7 8 2 5 conduit_board = Some (0, t')"
    using conduit_board_run by blast
  have "dsa_port_to_conduit conduit_board 2 = Some 4" by (simp add: dsa_port_to_conduit_def)
  from conduit_change_all_or_nothing [OF run bridge_board_ok(3) this] run
  show ?thesis by (simp add: cpu_links_def conduit_env_def plain_env_def)
qed


end
