(* ===== verification/Dsa_Loop.thy ===== *)
theory Dsa_Loop
  imports Dsa_Db Mdio
begin

section \<open>The switch driver of the board\<close>

text \<open>
  The DSA driver ASIX derives from the loopback driver (\<open>DSA/dsa_loop.c\<close>): the VLAN table it
  keeps in software, the access to the PHYs through the MDIO bus with its four counters, the
  choice of the CPU port, and the life of the driver from probe to removal. It is one
  instance of the drivers that the DSA core is modelled against, so the last part lets the
  core and this driver run together: the table of the driver always shows what the core
  counts.

  The bus behind \<open>mdiobus_read\<close> and \<open>mdiobus_write\<close> is a parameter; \<open>ax_mdio_bus_read\<close> and
  \<open>ax_mdio_bus_write\<close> of \<open>Mdio\<close> are the instance the board registers. \<open>ps->port_base\<close> is
  never assigned and stays 0. A table index out of range is \<open>None\<close>.
\<close>

subsection \<open>State\<close>

definition DSA_LOOP_VLANS :: nat where "DSA_LOOP_VLANS = 5"
definition DSA_LOOP_CPU_PORT :: nat where "DSA_LOOP_CPU_PORT = 4"

record dsa_loop_vlan =
  lv_members :: u16
  lv_untagged :: u16

record dsa_loop_port =
  mib_read_ok :: u64
  mib_read_err :: u64
  mib_write_ok :: u64
  mib_write_err :: u64
  lp_pvid :: u16

record dsa_loop_priv =
  ps_port_base :: int
  ps_vlans :: "dsa_loop_vlan list"
  ps_ports :: "dsa_loop_port list"

text \<open>The memory of the driver after \<open>devm_kzalloc\<close>; the kernel fixes the number of ports.\<close>

definition loop_zero :: "nat \<Rightarrow> dsa_loop_priv" where
  "loop_zero max_ports = \<lparr>ps_port_base = 0,
     ps_vlans = replicate DSA_LOOP_VLANS \<lparr>lv_members = 0, lv_untagged = 0\<rparr>,
     ps_ports = replicate max_ports \<lparr>mib_read_ok = 0, mib_read_err = 0, mib_write_ok = 0, mib_write_err = 0, lp_pvid = 0\<rparr>\<rparr>"

definition dsa_loop_devlink_vtu_get :: "dsa_loop_priv \<Rightarrow> nat" where
  "dsa_loop_devlink_vtu_get ps = foldl (\<lambda>count vl. if lv_members vl \<noteq> 0 then count + 1 else count) 0 (ps_vlans ps)"

text \<open>The counters of the ports get their names, all zero, when the switch is set up.\<close>

fun clear_mibs :: "nat \<Rightarrow> dsa_loop_port list \<Rightarrow> dsa_loop_port list option" where
  "clear_mibs 0 ps = Some ps"
| "clear_mibs (Suc i) ps = do {
     ps \<leftarrow> clear_mibs i ps;
     p \<leftarrow> arr_get ps (int i);
     arr_set ps (int i) (p\<lparr>mib_read_ok := 0, mib_read_err := 0, mib_write_ok := 0, mib_write_err := 0\<rparr>)}"

text \<open>\<open>reg\<close> is the answer of the devlink layer to the registration of the table.\<close>

definition dsa_loop_setup :: "int \<Rightarrow> nat \<Rightarrow> dsa_loop_priv \<Rightarrow> (int \<times> dsa_loop_priv) option" where
  "dsa_loop_setup reg num_ports ps = do {
     pts \<leftarrow> clear_mibs num_ports (ps_ports ps);
     Some (reg, ps\<lparr>ps_ports := pts\<rparr>)}"

definition dsa_loop_get_sset_count :: "nat \<Rightarrow> nat" where
  "dsa_loop_get_sset_count sset = (if sset \<noteq> 1 \<and> sset \<noteq> 7 then 0 else 4)"

definition dsa_loop_get_ethtool_stats :: "dsa_loop_priv \<Rightarrow> int \<Rightarrow> u64 list option" where
  "dsa_loop_get_ethtool_stats ps port = do {
     p \<leftarrow> arr_get (ps_ports ps) port;
     Some [mib_read_ok p, mib_read_err p, mib_write_ok p, mib_write_err p]}"

subsection \<open>PHY access\<close>

definition dsa_loop_phy_read ::
  "(int \<Rightarrow> int \<Rightarrow> 'm \<Rightarrow> int \<times> 'm) \<Rightarrow> dsa_loop_priv \<Rightarrow> int \<Rightarrow> int \<Rightarrow> 'm \<Rightarrow> (int \<times> dsa_loop_priv \<times> 'm) option" where
  "dsa_loop_phy_read bus_read ps port reg m =
     (let tmp = (if reg = 0x12 then 0x1a else reg);
          (ret, m) = bus_read (ps_port_base ps + port) tmp m in do {
        p \<leftarrow> arr_get (ps_ports ps) port;
        pts \<leftarrow> arr_set (ps_ports ps) port
          (if ret < 0 then p\<lparr>mib_read_err := mib_read_err p + 1\<rparr> else p\<lparr>mib_read_ok := mib_read_ok p + 1\<rparr>);
        Some (ret, ps\<lparr>ps_ports := pts\<rparr>, m)})"

definition dsa_loop_phy_write ::
  "(int \<Rightarrow> int \<Rightarrow> u16 \<Rightarrow> 'm \<Rightarrow> int \<times> 'm) \<Rightarrow> dsa_loop_priv \<Rightarrow> int \<Rightarrow> int \<Rightarrow> u16 \<Rightarrow> 'm \<Rightarrow>
   (int \<times> dsa_loop_priv \<times> 'm) option" where
  "dsa_loop_phy_write bus_write ps port reg v m =
     (let (ret, m) = bus_write (ps_port_base ps + port) reg v m in do {
        p \<leftarrow> arr_get (ps_ports ps) port;
        pts \<leftarrow> arr_set (ps_ports ps) port
          (if ret < 0 then p\<lparr>mib_write_err := mib_write_err p + 1\<rparr> else p\<lparr>mib_write_ok := mib_write_ok p + 1\<rparr>);
        Some (ret, ps\<lparr>ps_ports := pts\<rparr>, m)})"

subsection \<open>VLAN table\<close>

abbreviation (input) BRIDGE_VLAN_INFO_PVID :: u16 where "BRIDGE_VLAN_INFO_PVID \<equiv> 2"
abbreviation (input) BRIDGE_VLAN_INFO_UNTAGGED :: u16 where "BRIDGE_VLAN_INFO_UNTAGGED \<equiv> 4"
abbreviation (input) MII_BMSR :: int where "MII_BMSR \<equiv> 1"

text \<open>\<open>BIT(port)\<close> is an \<open>unsigned long\<close> that is combined with a \<open>u16\<close>.\<close>

definition BIT16 :: "nat \<Rightarrow> u16" where
  "BIT16 port = ucast (push_bit port (1 :: u64))"

definition dsa_loop_port_vlan_add ::
  "(int \<Rightarrow> int \<Rightarrow> 'm \<Rightarrow> int \<times> 'm) \<Rightarrow> dsa_loop_priv \<Rightarrow> nat \<Rightarrow> switchdev_obj_port_vlan \<Rightarrow> 'm \<Rightarrow>
   (int \<times> dsa_loop_priv \<times> 'm) option" where
  "dsa_loop_port_vlan_add bus_read ps port vlan m =
     (let is_untagged = (obj_flags vlan AND BRIDGE_VLAN_INFO_UNTAGGED \<noteq> 0);
          is_pvid = (obj_flags vlan AND BRIDGE_VLAN_INFO_PVID \<noteq> 0) in
      if unat (obj_vid vlan) \<ge> length (ps_vlans ps) then Some (ERANGE_NEG, ps, m)
      else
        (let (_, m) = bus_read (ps_port_base ps + int port) MII_BMSR m in do {
           vl \<leftarrow> arr_get (ps_vlans ps) (uint (obj_vid vlan));
           vs \<leftarrow> arr_set (ps_vlans ps) (uint (obj_vid vlan))
             (vl\<lparr>lv_members := lv_members vl OR BIT16 port,
                 lv_untagged := (if is_untagged then lv_untagged vl OR BIT16 port else lv_untagged vl AND NOT (BIT16 port))\<rparr>);
           if is_pvid then do {
             p \<leftarrow> arr_get (ps_ports ps) (int port);
             pts \<leftarrow> arr_set (ps_ports ps) (int port) (p\<lparr>lp_pvid := obj_vid vlan\<rparr>);
             Some (0, ps\<lparr>ps_vlans := vs, ps_ports := pts\<rparr>, m)}
           else Some (0, ps\<lparr>ps_vlans := vs\<rparr>, m)}))"

definition dsa_loop_port_vlan_del ::
  "(int \<Rightarrow> int \<Rightarrow> 'm \<Rightarrow> int \<times> 'm) \<Rightarrow> dsa_loop_priv \<Rightarrow> nat \<Rightarrow> switchdev_obj_port_vlan \<Rightarrow> 'm \<Rightarrow>
   (int \<times> dsa_loop_priv \<times> 'm) option" where
  "dsa_loop_port_vlan_del bus_read ps port vlan m =
     (let is_untagged = (obj_flags vlan AND BRIDGE_VLAN_INFO_UNTAGGED \<noteq> 0) in do {
        p \<leftarrow> arr_get (ps_ports ps) (int port);
        let (_, m) = bus_read (ps_port_base ps + int port) MII_BMSR m;
        vl \<leftarrow> arr_get (ps_vlans ps) (uint (obj_vid vlan));
        vs \<leftarrow> arr_set (ps_vlans ps) (uint (obj_vid vlan))
          (vl\<lparr>lv_members := lv_members vl AND NOT (BIT16 port),
              lv_untagged := (if is_untagged then lv_untagged vl AND NOT (BIT16 port) else lv_untagged vl)\<rparr>);
        let pv = (if lp_pvid p = obj_vid vlan then 1 else lp_pvid p);
        pts \<leftarrow> arr_set (ps_ports ps) (int port) (p\<lparr>lp_pvid := pv\<rparr>);
        Some (0, ps\<lparr>ps_vlans := vs, ps_ports := pts\<rparr>, m)})"

subsection \<open>CPU port\<close>

definition ax_preferred_default_local_cpu_port :: "dsa_tree \<Rightarrow> ds_ptr \<Rightarrow> dp_ptr option option" where
  "ax_preferred_default_local_cpu_port t ds = do {
     cpu_dp \<leftarrow> dsa_to_port t ds DSA_LOOP_CPU_PORT;
     Some (if dsa_port_is_cpu (t_dp t cpu_dp) then Some cpu_dp else None)}"

subsection \<open>Probe and removal\<close>

text \<open>
  What the driver asks of the kernel: the two allocations, the network device by its name,
  and the registration of the switch (\<open>dsa_register_switch\<close>). The state is whether the device
  is bound, the number of references taken on the network device, and whether the switch is
  registered with the core.
\<close>

record loop_env =
  env_pdata :: bool
  env_ds :: bool
  env_ps :: bool
  env_netdev :: bool
  env_register :: int

record loop_dev =
  drvdata :: bool
  netdev_refs :: int
  ds_registered :: bool

definition asix_dsa_loop_drv_probe :: "loop_env \<Rightarrow> loop_dev \<Rightarrow> int \<times> loop_dev" where
  "asix_dsa_loop_drv_probe env st =
     (if \<not> env_pdata env then (ENODEV_NEG, st)
      else if \<not> env_ds env then (ENOMEM_NEG, st)
      else if \<not> env_ps env then (ENOMEM_NEG, st)
      else if \<not> env_netdev env then (-517, st)
      else
        (let st = st\<lparr>netdev_refs := netdev_refs st + 1\<rparr>; st = st\<lparr>drvdata := True\<rparr> in
         (env_register env, st\<lparr>ds_registered := env_register env = 0\<rparr>)))"

definition asix_dsa_loop_drv_remove :: "loop_dev \<Rightarrow> loop_dev" where
  "asix_dsa_loop_drv_remove st =
     (if \<not> drvdata st then st
      else
        (let st = st\<lparr>ds_registered := False\<rparr> in st\<lparr>netdev_refs := netdev_refs st - 1\<rparr>))"

subsection \<open>The table as sets\<close>

definition loop_ok :: "dsa_loop_priv \<Rightarrow> bool" where
  "loop_ok ps \<longleftrightarrow> length (ps_vlans ps) = DSA_LOOP_VLANS \<and> ps_port_base ps = 0"

definition vlan_member :: "dsa_loop_priv \<Rightarrow> u16 \<Rightarrow> nat \<Rightarrow> bool" where
  "vlan_member ps vid port \<longleftrightarrow> bit (lv_members (ps_vlans ps ! unat vid)) port"

definition vlan_untagged :: "dsa_loop_priv \<Rightarrow> u16 \<Rightarrow> nat \<Rightarrow> bool" where
  "vlan_untagged ps vid port \<longleftrightarrow> bit (lv_untagged (ps_vlans ps ! unat vid)) port"

lemma bit_BIT16: "bit (BIT16 port) q \<longleftrightarrow> q = port \<and> port < 16"
  by (auto simp: BIT16_def bit_simps)

lemma loop_zero_ok: "loop_ok (loop_zero n)"
  by (simp add: loop_ok_def loop_zero_def)

lemma uint_less_int: "uint w < int n \<longleftrightarrow> unat w < n"
  using nat_less_iff [of "uint w" n] by simp

lemma arr_vid [simp]:
  "loop_ok ps \<Longrightarrow> unat vid < DSA_LOOP_VLANS \<Longrightarrow> arr_get (ps_vlans ps) (uint vid) = Some (ps_vlans ps ! unat vid)"
  "loop_ok ps \<Longrightarrow> unat vid < DSA_LOOP_VLANS \<Longrightarrow> arr_set (ps_vlans ps) (uint vid) v = Some ((ps_vlans ps)[unat vid := v])"
  "loop_ok ps \<Longrightarrow> \<not> unat vid < DSA_LOOP_VLANS \<Longrightarrow> arr_get (ps_vlans ps) (uint vid) = None"
  by (simp_all add: arr_get_def arr_set_def loop_ok_def uint_less_int)

lemma arr_port [simp]:
  "port < length pts \<Longrightarrow> arr_get pts (int port) = Some (pts ! port)"
  "port < length pts \<Longrightarrow> arr_set pts (int port) p = Some (pts[port := p])"
  by (simp_all add: arr_get_def arr_set_def)

text \<open>What adding and removing do to the row of the VLAN and to the port.\<close>

definition row_add :: "u16 \<Rightarrow> nat \<Rightarrow> dsa_loop_vlan \<Rightarrow> dsa_loop_vlan" where
  "row_add flags port vl = vl\<lparr>lv_members := lv_members vl OR BIT16 port,
     lv_untagged := (if flags AND BRIDGE_VLAN_INFO_UNTAGGED \<noteq> 0 then lv_untagged vl OR BIT16 port
       else lv_untagged vl AND NOT (BIT16 port))\<rparr>"

definition row_del :: "u16 \<Rightarrow> nat \<Rightarrow> dsa_loop_vlan \<Rightarrow> dsa_loop_vlan" where
  "row_del flags port vl = vl\<lparr>lv_members := lv_members vl AND NOT (BIT16 port),
     lv_untagged := (if flags AND BRIDGE_VLAN_INFO_UNTAGGED \<noteq> 0 then lv_untagged vl AND NOT (BIT16 port)
       else lv_untagged vl)\<rparr>"

definition upd_row :: "u16 \<Rightarrow> (dsa_loop_vlan \<Rightarrow> dsa_loop_vlan) \<Rightarrow> dsa_loop_priv \<Rightarrow> dsa_loop_priv" where
  "upd_row vid f ps = ps\<lparr>ps_vlans := (ps_vlans ps)[unat vid := f (ps_vlans ps ! unat vid)]\<rparr>"

definition upd_pvid :: "nat \<Rightarrow> u16 \<Rightarrow> dsa_loop_priv \<Rightarrow> dsa_loop_priv" where
  "upd_pvid port v ps = ps\<lparr>ps_ports := (ps_ports ps)[port := (ps_ports ps ! port)\<lparr>lp_pvid := v\<rparr>]\<rparr>"

lemma upd_sel [simp]:
  "ps_vlans (upd_pvid port v ps) = ps_vlans ps" "ps_ports (upd_row vid f ps) = ps_ports ps"
  "loop_ok (upd_row vid f ps) = loop_ok ps" "loop_ok (upd_pvid port v ps) = loop_ok ps"
  "length (ps_ports (upd_pvid port v ps)) = length (ps_ports ps)"
  "port < length (ps_ports ps) \<Longrightarrow> lp_pvid (ps_ports (upd_pvid port v ps) ! port) = v"
  by (simp_all add: upd_row_def upd_pvid_def loop_ok_def)

lemma vlan_add_eq:
  assumes "loop_ok ps" "port < length (ps_ports ps)"
  shows "dsa_loop_port_vlan_add rd ps port vlan m =
    (if unat (obj_vid vlan) < DSA_LOOP_VLANS then
       Some (0, (if obj_flags vlan AND BRIDGE_VLAN_INFO_PVID \<noteq> 0
                 then upd_pvid port (obj_vid vlan) (upd_row (obj_vid vlan) (row_add (obj_flags vlan) port) ps)
                 else upd_row (obj_vid vlan) (row_add (obj_flags vlan) port) ps), snd (rd (int port) MII_BMSR m))
     else Some (ERANGE_NEG, ps, m))"
proof -
  obtain x m' where rd: "rd (int port) MII_BMSR m = (x, m')" by fastforce
  have len: "length (ps_vlans ps) = DSA_LOOP_VLANS" "ps_port_base ps = 0" using assms(1) by (simp_all add: loop_ok_def)
  show ?thesis
    by (simp add: dsa_loop_port_vlan_add_def Let_def len assms rd upd_row_def upd_pvid_def row_add_def)
qed

lemma vlan_del_eq:
  assumes "loop_ok ps" "port < length (ps_ports ps)"
  shows "dsa_loop_port_vlan_del rd ps port vlan m =
    (if unat (obj_vid vlan) < DSA_LOOP_VLANS then
       Some (0, upd_pvid port (if lp_pvid (ps_ports ps ! port) = obj_vid vlan then 1 else lp_pvid (ps_ports ps ! port))
                  (upd_row (obj_vid vlan) (row_del (obj_flags vlan) port) ps), snd (rd (int port) MII_BMSR m))
     else None)"
proof -
  obtain x m' where rd: "rd (int port) MII_BMSR m = (x, m')" by fastforce
  have len: "ps_port_base ps = 0" using assms(1) by (simp add: loop_ok_def)
  show ?thesis
    by (simp add: dsa_loop_port_vlan_del_def Let_def len assms rd upd_row_def upd_pvid_def row_del_def)
qed

lemma member_upd_row:
  "loop_ok ps \<Longrightarrow> unat v < DSA_LOOP_VLANS \<Longrightarrow> vlan_member (upd_row vid f ps) v q =
     (if v = vid then bit (lv_members (f (ps_vlans ps ! unat vid))) q else vlan_member ps v q)"
  "loop_ok ps \<Longrightarrow> unat v < DSA_LOOP_VLANS \<Longrightarrow> vlan_untagged (upd_row vid f ps) v q =
     (if v = vid then bit (lv_untagged (f (ps_vlans ps ! unat vid))) q else vlan_untagged ps v q)"
  by (auto simp: vlan_member_def vlan_untagged_def upd_row_def loop_ok_def nth_list_update word_unat_eq_iff)

lemma member_upd_pvid [simp]:
  "vlan_member (upd_pvid port x ps) = vlan_member ps" "vlan_untagged (upd_pvid port x ps) = vlan_untagged ps"
  by (simp_all add: fun_eq_iff vlan_member_def vlan_untagged_def)

lemma row_bits:
  assumes "port < 16"
  shows "bit (lv_members (row_add flags port vl)) q \<longleftrightarrow> q = port \<or> bit (lv_members vl) q"
    and "bit (lv_members (row_del flags port vl)) q \<longleftrightarrow> q \<noteq> port \<and> bit (lv_members vl) q"
    and "bit (lv_untagged (row_add flags port vl)) q \<longleftrightarrow>
           (if q = port then flags AND BRIDGE_VLAN_INFO_UNTAGGED \<noteq> 0 else bit (lv_untagged vl) q)"
proof -
  have m: "bit (lv_members vl) q \<Longrightarrow> q < 16" and u: "bit (lv_untagged vl) q \<Longrightarrow> q < 16"
    using bit_imp_le_length [of "lv_members vl" q] bit_imp_le_length [of "lv_untagged vl" q] by simp_all
  show "bit (lv_members (row_add flags port vl)) q \<longleftrightarrow> q = port \<or> bit (lv_members vl) q"
    using assms by (auto simp: row_add_def bit_or_iff bit_BIT16)
  show "bit (lv_members (row_del flags port vl)) q \<longleftrightarrow> q \<noteq> port \<and> bit (lv_members vl) q"
    using assms m by (auto simp: row_del_def bit_and_iff bit_not_iff bit_BIT16)
  show "bit (lv_untagged (row_add flags port vl)) q \<longleftrightarrow>
      (if q = port then flags AND BRIDGE_VLAN_INFO_UNTAGGED \<noteq> 0 else bit (lv_untagged vl) q)"
    using assms u by (simp add: row_add_def bit_and_iff bit_or_iff bit_not_iff bit_BIT16) auto
qed

text \<open>
  The VLAN table is a set of memberships: adding a VLAN to a port makes the port, and no
  other, a member, records whether it is untagged, and makes the VLAN the port's PVID when
  asked to; removing it ends the membership of that port only, and a port that loses its
  PVID falls back to 1. VLANs outside the five rows of the table are refused with \<open>-ERANGE\<close>
  by the addition; the removal has no such test and leaves the table.
\<close>

theorem loop_vlan_table:
  assumes ps: "loop_ok ps" "port < length (ps_ports ps)" "port < 16"
  shows "(unat (obj_vid vlan) < DSA_LOOP_VLANS \<longrightarrow>
     (\<exists>ps1 ps2. dsa_loop_port_vlan_add rd ps port vlan m = Some (0, ps1, snd (rd (int port) MII_BMSR m)) \<and>
        dsa_loop_port_vlan_del rd ps port vlan m = Some (0, ps2, snd (rd (int port) MII_BMSR m)) \<and>
        (\<forall>v q. unat v < DSA_LOOP_VLANS \<longrightarrow>
           vlan_member ps1 v q = (vlan_member ps v q \<or> v = obj_vid vlan \<and> q = port) \<and>
           vlan_member ps2 v q = (vlan_member ps v q \<and> \<not> (v = obj_vid vlan \<and> q = port))) \<and>
        vlan_untagged ps1 (obj_vid vlan) port = (obj_flags vlan AND BRIDGE_VLAN_INFO_UNTAGGED \<noteq> 0) \<and>
        lp_pvid (ps_ports ps1 ! port) =
          (if obj_flags vlan AND BRIDGE_VLAN_INFO_PVID \<noteq> 0 then obj_vid vlan else lp_pvid (ps_ports ps ! port)) \<and>
        lp_pvid (ps_ports ps2 ! port) =
          (if lp_pvid (ps_ports ps ! port) = obj_vid vlan then 1 else lp_pvid (ps_ports ps ! port)))) \<and>
    (\<not> unat (obj_vid vlan) < DSA_LOOP_VLANS \<longrightarrow>
       dsa_loop_port_vlan_add rd ps port vlan m = Some (ERANGE_NEG, ps, m) \<and>
       dsa_loop_port_vlan_del rd ps port vlan m = None)"
proof (cases "unat (obj_vid vlan) < DSA_LOOP_VLANS")
  case False
  then show ?thesis using ps by (simp add: vlan_add_eq vlan_del_eq)
next
  case vid: True
  define ra where "ra = upd_row (obj_vid vlan) (row_add (obj_flags vlan) port) ps"
  define rd' where "rd' = upd_row (obj_vid vlan) (row_del (obj_flags vlan) port) ps"
  have mem: "vlan_member ra v q = (vlan_member ps v q \<or> v = obj_vid vlan \<and> q = port)"
    "vlan_member rd' v q = (vlan_member ps v q \<and> \<not> (v = obj_vid vlan \<and> q = port))"
    if "unat v < DSA_LOOP_VLANS" for v q
    using that ps by (auto simp: ra_def rd'_def member_upd_row row_bits vlan_member_def [of ps])
  have un: "vlan_untagged ra (obj_vid vlan) port = (obj_flags vlan AND BRIDGE_VLAN_INFO_UNTAGGED \<noteq> 0)"
    using vid ps by (simp add: ra_def member_upd_row row_bits)
  have pts: "ps_ports ra = ps_ports ps" "ps_ports rd' = ps_ports ps" by (simp_all add: ra_def rd'_def)
  show ?thesis
    using vid ps(1,2)
    by (simp add: vlan_add_eq vlan_del_eq ra_def [symmetric] rd'_def [symmetric] mem un pts)
qed

theorem loop_vlan_table_witness:
  "\<exists>ps1 ps2. dsa_loop_port_vlan_add (\<lambda>_ _ m. (0, m)) (loop_zero 12) 4 \<lparr>obj_flags = 6, obj_vid = 3, obj_changed = False\<rparr> () =
       Some (0, ps1, ()) \<and>
     dsa_loop_port_vlan_del (\<lambda>_ _ m. (0, m)) (loop_zero 12) 4 \<lparr>obj_flags = 6, obj_vid = 3, obj_changed = False\<rparr> () =
       Some (0, ps2, ()) \<and> vlan_member ps1 3 4 \<and> \<not> vlan_member ps2 3 4 \<and> vlan_untagged ps1 3 4 \<and>
     lp_pvid (ps_ports ps1 ! 4) = 3"
  using loop_vlan_table [of "loop_zero 12" 4 "\<lparr>obj_flags = 6, obj_vid = 3, obj_changed = False\<rparr>" "\<lambda>_ _ m. (0, m)" "()"]
    loop_zero_ok
  by (force simp: loop_zero_def DSA_LOOP_VLANS_def)

subsection \<open>PHYs of the board\<close>

text \<open>The bus the board registers: the values are 16 bits wide, so they are never negative.\<close>

definition board_bus_read :: "device \<Rightarrow> int \<Rightarrow> int \<Rightarrow> io_log \<Rightarrow> int \<times> io_log" where
  "board_bus_read hw phy reg l = (let (v, l) = ax_mdio_bus_read hw phy reg l in (sint v, l))"

lemma sint_u16:
  assumes "v < (0x10000 :: u32)" shows "sint v = uint v" and "0 \<le> sint v"
proof -
  have "uint v < 0x10000" using assms by (simp add: word_less_def)
  then have "- (2 ^ 31) \<le> uint v" "uint v < 2 ^ 31" by (simp_all add: order_trans [of _ 0])
  then show "sint v = uint v" using signed_take_bit_int_eq_self [of 31 "uint v"] by (simp add: sint_uint)
  then show "0 \<le> sint v" by simp
qed

text \<open>
  Access to the PHYs through the switch driver: on hardware that answers MDIO reads, a read of
  register \<open>r\<close> of port \<open>p\<close> returns the content of that register of PHY \<open>p + 1\<close>, except that
  register 0x12 is redirected to 0x1a, and counts as a successful read. A write reports success
  and counts as a successful write, but no access to the hardware is made.
\<close>

theorem loop_phy_access:
  assumes hw: "mdio_slave hw R" "\<And>p r. R p r < 0x10000"
    and ps: "loop_ok ps" "port < length (ps_ports ps)" "port + 1 < 32" "r < 32"
  shows "\<exists>l'. dsa_loop_phy_read (board_bus_read hw) ps (int port) (int r) l =
      Some (uint (R (port + 1) (if r = 0x12 then 0x1a else r)),
            ps\<lparr>ps_ports := (ps_ports ps)[port := (ps_ports ps ! port)\<lparr>mib_read_ok := mib_read_ok (ps_ports ps ! port) + 1\<rparr>]\<rparr>, l') \<and>
    dsa_loop_phy_write (ax_mdio_bus_write hw) ps (int port) (int r) v l =
      Some (0, ps\<lparr>ps_ports := (ps_ports ps)[port := (ps_ports ps ! port)\<lparr>mib_write_ok := mib_write_ok (ps_ports ps ! port) + 1\<rparr>]\<rparr>, l)"
proof -
  define r' where "r' = (if r = 0x12 then 0x1a else r)"
  have r': "r' < 32" using ps by (simp add: r'_def)
  obtain l' where "phy_read hw (port + 1) (int r') l = (R (port + 1) r', l')"
    using phy_read_ok [OF hw(1) ps(3) r'] by blast
  then have "ax_mdio_bus_read hw (int port) (int r') l = (R (port + 1) r', l')"
    by (simp add: ax_mdio_bus_read_def phy_read_def ac_simps)
  then have bus: "board_bus_read hw (int port) (int r') l = (uint (R (port + 1) r'), l')"
    using sint_u16 [OF hw(2)] by (simp add: board_bus_read_def)
  have base: "ps_port_base ps = 0" using ps by (simp add: loop_ok_def)
  have reg: "(if int r = 0x12 then 0x1a else int r) = int r'" by (auto simp: r'_def)
  have rd: "dsa_loop_phy_read (board_bus_read hw) ps (int port) (int r) l = Some (uint (R (port + 1) r'),
      ps\<lparr>ps_ports := (ps_ports ps)[port := (ps_ports ps ! port)\<lparr>mib_read_ok := mib_read_ok (ps_ports ps ! port) + 1\<rparr>]\<rparr>, l')"
    unfolding dsa_loop_phy_read_def Let_def base add_0 reg bus prod.case
    using ps by simp
  have "dsa_loop_phy_write (ax_mdio_bus_write hw) ps (int port) (int r) v l =
      Some (0, ps\<lparr>ps_ports := (ps_ports ps)[port := (ps_ports ps ! port)\<lparr>mib_write_ok := mib_write_ok (ps_ports ps ! port) + 1\<rparr>]\<rparr>, l)"
    using ps by (simp add: dsa_loop_phy_write_def base ax_mdio_bus_write_def)
  with rd show ?thesis unfolding r'_def by blast
qed

theorem loop_phy_access_witness:
  "\<exists>l'. dsa_loop_phy_read (board_bus_read sample_phy) (loop_zero 12) 3 5 [] =
      Some (0x0DE1, (loop_zero 12)\<lparr>ps_ports := (ps_ports (loop_zero 12))[3 :=
        (ps_ports (loop_zero 12) ! 3)\<lparr>mib_read_ok := 1\<rparr>]\<rparr>, l')"
proof -
  let ?R = "\<lambda>p r. if r = 1 then 4 else if r = 5 then 0x0DE1 else if r = 4 then 0x0DE1 else (0 :: u32)"
  have "3 < length (ps_ports (loop_zero 12))" "mib_read_ok (ps_ports (loop_zero 12) ! 3) = 0"
    by (simp_all add: loop_zero_def)
  then show ?thesis
    using loop_phy_access [OF sample_phy_slave _ loop_zero_ok, of 3 12 5 "[]"] by auto
qed

subsection \<open>The CPU port of the board\<close>

lemma find_eq: "c \<in> set xs \<Longrightarrow> find (\<lambda>q. q = c) xs = Some c"
  by (induction xs) auto

text \<open>
  A tree in which port 4 of a switch of this driver is a CPU port: every user port and link
  of that switch without a CPU port gets port 4, even when the switch has other CPU ports that
  come first in the tree.
\<close>

theorem board_prefers_port_four:
  assumes "p \<in> set (t_ports t)" "port_ds (t_dp t p) = ds" "dsa_port_is_user (t_dp t p) \<or> dsa_port_is_dsa (t_dp t p)"
    and "port_cpu_dp (t_dp t p) = None" "Op_preferred_default_local_cpu_port \<in> sw_ops (t_ds t ds)"
    and four: "dsa_to_port t ds 4 = Some c" "dsa_port_is_cpu (t_dp t c)"
    and pref: "\<And>d. preferred d = (case ax_preferred_default_local_cpu_port t d of Some x \<Rightarrow> x | None \<Rightarrow> None)"
  shows "fst (dsa_tree_setup_cpu_ports preferred t) = 0 \<and>
    t_dp (snd (dsa_tree_setup_cpu_ports preferred t)) p = (t_dp t p)\<lparr>port_cpu_dp := Some c\<rparr>"
proof -
  have c: "c \<in> set (t_ports t)" "port_ds (t_dp t c) = ds"
    using four(1) by (auto simp: dsa_to_port_def find_Some_iff)
  have "preferred ds = Some c"
    using four by (simp add: pref ax_preferred_default_local_cpu_port_def DSA_LOOP_CPU_PORT_def)
  then have "dsa_switch_preferred_default_local_cpu_port preferred t ds = Some c"
    using assms(5) four(2) c by (simp add: dsa_switch_preferred_default_local_cpu_port_def)
  then have serve: "serves preferred t p = (\<lambda>q. q = c)"
    using assms(2) four(2) c by (auto simp: serves_def fun_eq_iff)
  then have "cpu_choice preferred t p = Some c"
    using assms(3,4) c by (simp add: cpu_choice_def serve Let_def find_eq)
  moreover have "\<exists>c\<in>set (t_ports t). dsa_port_is_cpu (t_dp t c)" using c four(2) by blast
  ultimately show ?thesis using setup_cpu_choice [OF assms(1), of preferred] by simp
qed

theorem board_prefers_port_four_witness:
  "let pref = (\<lambda>d. case ax_preferred_default_local_cpu_port board_tree d of Some x \<Rightarrow> x | None \<Rightarrow> None) in
   t_dp (snd (dsa_tree_setup_cpu_ports pref board_tree)) 1 = (board_port 1)\<lparr>port_cpu_dp := Some 4\<rparr>"
  unfolding Let_def
  using board_prefers_port_four [of 1 board_tree 0 4
      "\<lambda>d. case ax_preferred_default_local_cpu_port board_tree d of Some x \<Rightarrow> x | None \<Rightarrow> None"]
  by (simp add: board_tree_def board_port_def board_switch_def dsa_port_is_user_def dsa_port_is_cpu_def
      dsa_to_port_def)

subsection \<open>The core and the driver together\<close>

text \<open>
  The private state of the driver after a history of calls, and the driver as the core sees it:
  it answers a VLAN request with what the operation returns in that state. \<open>mem\<close> answers the
  allocations; the PHY read that only serves lock checking is answered by 0.
\<close>

definition loop_apply :: "dsa_call \<Rightarrow> dsa_loop_priv \<Rightarrow> (int \<times> dsa_loop_priv) option" where
  "loop_apply c ps =
     (case c of
        Port_vlan_add d p v \<Rightarrow> map_option (\<lambda>(r, ps, _). (r, ps)) (dsa_loop_port_vlan_add (\<lambda>_ _ m. (0, m)) ps p v ())
      | Port_vlan_del d p v \<Rightarrow> map_option (\<lambda>(r, ps, _). (r, ps)) (dsa_loop_port_vlan_del (\<lambda>_ _ m. (0, m)) ps p v ())
      | _ \<Rightarrow> Some (0, ps))"

fun loop_replay :: "dsa_loop_priv \<Rightarrow> dsa_log \<Rightarrow> dsa_loop_priv option" where
  "loop_replay ps [] = Some ps"
| "loop_replay ps ((c, r) # l) = do {ps \<leftarrow> loop_replay ps l; (_, ps) \<leftarrow> loop_apply c ps; Some ps}"

definition loop_driver :: "(dsa_log \<Rightarrow> int) \<Rightarrow> dsa_loop_priv \<Rightarrow> driver" where
  "loop_driver mem ps0 c l =
     (if c = Kzalloc then mem l
      else (case loop_replay ps0 l \<bind> loop_apply c of Some (r, _) \<Rightarrow> r | None \<Rightarrow> 0))"

text \<open>The histories that requests for VLANs 0 to 4 on one port produce.\<close>

definition table_call :: "ds_ptr \<Rightarrow> nat \<Rightarrow> dsa_call \<Rightarrow> bool" where
  "table_call d p c \<longleftrightarrow> c = Kzalloc \<or>
     (\<exists>v. (c = Port_vlan_add d p v \<or> c = Port_vlan_del d p v) \<and> unat (obj_vid v) < DSA_LOOP_VLANS)"

definition table_log :: "ds_ptr \<Rightarrow> nat \<Rightarrow> dsa_log \<Rightarrow> bool" where
  "table_log d p l \<longleftrightarrow> (\<forall>(c, r)\<in>set l. table_call d p c \<and> (c \<noteq> Kzalloc \<longrightarrow> r = 0))"

lemma loop_apply_ok:
  assumes "table_call d p c" "c \<noteq> Kzalloc" "loop_ok ps" "p < length (ps_ports ps)" "p < 16"
  shows "\<exists>ps'. loop_apply c ps = Some (0, ps') \<and> loop_ok ps' \<and> length (ps_ports ps') = length (ps_ports ps) \<and>
    (\<forall>v. unat v < DSA_LOOP_VLANS \<longrightarrow> vlan_member ps' v p =
       (case vlan_calls d p c of Some (v', b) \<Rightarrow> if v' = v then b else vlan_member ps v p | None \<Rightarrow> vlan_member ps v p))"
proof -
  obtain v where v: "c = Port_vlan_add d p v \<or> c = Port_vlan_del d p v" "unat (obj_vid v) < DSA_LOOP_VLANS"
    using assms(1,2) by (auto simp: table_call_def)
  from v(1) show ?thesis
  proof
    assume "c = Port_vlan_add d p v"
    then show ?thesis using v(2) assms(3-5)
      by (auto simp: loop_apply_def vlan_add_eq vlan_calls_def member_upd_row row_bits)
  next
    assume "c = Port_vlan_del d p v"
    then show ?thesis using v(2) assms(3-5)
      by (auto simp: loop_apply_def vlan_del_eq vlan_calls_def member_upd_row row_bits)
  qed
qed

lemma loop_replay_ok:
  assumes "table_log d p l" "loop_ok ps0" "p < length (ps_ports ps0)" "p < 16"
    and "\<And>v. unat v < DSA_LOOP_VLANS \<Longrightarrow> \<not> vlan_member ps0 v p"
  shows "\<exists>ps. loop_replay ps0 l = Some ps \<and> loop_ok ps \<and> length (ps_ports ps) = length (ps_ports ps0) \<and>
    (\<forall>v. unat v < DSA_LOOP_VLANS \<longrightarrow> vlan_member ps v p = installed (vlan_calls d p) l v)"
  using assms(1)
proof (induction l)
  case Nil
  then show ?case using assms by (simp add: installed_def)
next
  case (Cons x l)
  obtain c r where x: "x = (c, r)" by (cases x)
  from Cons obtain ps where ps: "loop_replay ps0 l = Some ps" "loop_ok ps" "length (ps_ports ps) = length (ps_ports ps0)"
    "\<And>v. unat v < DSA_LOOP_VLANS \<Longrightarrow> vlan_member ps v p = installed (vlan_calls d p) l v"
    by (auto simp: table_log_def)
  have tc: "table_call d p c" "c \<noteq> Kzalloc \<longrightarrow> r = 0" using Cons.prems by (auto simp: table_log_def x)
  show ?case
  proof (cases "c = Kzalloc")
    case True
    have "vlan_calls d p Kzalloc = None" by (simp add: vlan_calls_def)
    then show ?thesis using True ps by (simp add: x loop_apply_def installed_def)
  next
    case False
    have p: "p < length (ps_ports ps)" using ps(3) assms(3) by simp
    obtain ps' where ps': "loop_apply c ps = Some (0, ps')" "loop_ok ps'" "length (ps_ports ps') = length (ps_ports ps)"
      "\<And>v. unat v < DSA_LOOP_VLANS \<Longrightarrow> vlan_member ps' v p =
       (case vlan_calls d p c of Some (v', b) \<Rightarrow> if v' = v then b else vlan_member ps v p | None \<Rightarrow> vlan_member ps v p)"
      using loop_apply_ok [OF tc(1) False ps(2) p assms(4)] by blast
    then show ?thesis
      using ps tc(2) False by (auto simp: x installed_def split: option.splits)
  qed
qed

lemma table_log_driver:
  assumes "table_log d p l" "table_call d p c" "c \<noteq> Kzalloc" "loop_ok ps0" "p < length (ps_ports ps0)" "p < 16"
    and "\<And>v. unat v < DSA_LOOP_VLANS \<Longrightarrow> \<not> vlan_member ps0 v p"
  shows "loop_driver mem ps0 c l = 0"
  using loop_replay_ok [OF assms(1,4-7)] loop_apply_ok [OF assms(2,3)] assms(3,5,6)
  by (fastforce simp: loop_driver_def)

lemma vlan_ops_table:
  fixes d p mem ps0
  defines "drv \<equiv> loop_driver mem ps0"
  assumes answers: "\<And>c l. table_log d p l \<Longrightarrow> table_call d p c \<Longrightarrow> c \<noteq> Kzalloc \<Longrightarrow> drv c l = 0"
    and dp: "port_ds dp = d" "port_index dp = p" "shared_port dp" and v: "unat (obj_vid v) < DSA_LOOP_VLANS"
    and l: "table_log d p l"
    and run: "vlan_add_op drv ds v (dp, l) = Some (r, dp', l') \<or> vlan_del_op drv ds v (dp, l) = Some (r, dp', l')"
  shows "table_log d p l' \<and> port_ds dp' = d \<and> port_index dp' = p \<and> shared_port dp'"
proof -
  have l1: "table_log d p ((Kzalloc, x) # l)" for x using l by (simp add: table_log_def table_call_def)
  have c: "table_call d p (Port_vlan_add d p v)" "table_call d p (Port_vlan_del d p v)"
    using v by (auto simp: table_call_def)
  then have ans: "drv (Port_vlan_add d p v) ((Kzalloc, x) # l) = 0" "drv (Port_vlan_del d p v) l = 0" for x
    using answers l l1 by auto
  have l2: "table_log d p ((Port_vlan_add d p v, 0) # (Kzalloc, x) # l)" "table_log d p ((Port_vlan_del d p v, 0) # l)" for x
    using c l by (auto simp: table_log_def table_call_def)
  from run show ?thesis
  proof
    assume "vlan_add_op drv ds v (dp, l) = Some (r, dp', l')"
    then show ?thesis using dp ans l l1 l2
      by (auto simp: vlan_add_op_def dsa_port_do_vlan_add_def db_unfold split: if_splits option.splits)
  next
    assume "vlan_del_op drv ds v (dp, l) = Some (r, dp', l')"
    then show ?thesis using dp ans l l1 l2
      by (auto simp: vlan_del_op_def dsa_port_do_vlan_del_def db_unfold split: if_splits option.splits prod.splits)
  qed
qed

lemma vlan_run_table:
  fixes d p mem ps0
  defines "drv \<equiv> loop_driver mem ps0"
  assumes answers: "\<And>c l. table_log d p l \<Longrightarrow> table_call d p c \<Longrightarrow> c \<noteq> Kzalloc \<Longrightarrow> drv c l = 0"
    and "db_run (vlan_add_op drv ds) (vlan_del_op drv ds) ops s = Some (rs, s')"
    and "table_log d p (snd s)" "port_ds (fst s) = d" "port_index (fst s) = p" "shared_port (fst s)"
    and "\<And>v. Db_add v \<in> set ops \<or> Db_del v \<in> set ops \<Longrightarrow> unat (obj_vid v) < DSA_LOOP_VLANS"
  shows "table_log d p (snd s') \<and> port_ds (fst s') = d \<and> port_index (fst s') = p"
  using assms(3-)
proof (induction ops arbitrary: s rs)
  case (Cons x ops)
  obtain dp l where s: "s = (dp, l)" by (cases s)
  obtain v where v: "x = Db_add v \<or> x = Db_del v" by (cases x) auto
  obtain r dp1 l1 rs' where
    step: "vlan_add_op drv ds v (dp, l) = Some (r, dp1, l1) \<or> vlan_del_op drv ds v (dp, l) = Some (r, dp1, l1)"
    and rest: "db_run (vlan_add_op drv ds) (vlan_del_op drv ds) ops (dp1, l1) = Some (rs', s')"
    using Cons.prems(1) v by (fastforce simp: s bind_eq_Some_conv)
  have "port_ds dp = d" "port_index dp = p" "shared_port dp" "unat (obj_vid v) < DSA_LOOP_VLANS" "table_log d p l"
    using Cons.prems v by (auto simp: s)
  from vlan_ops_table [OF answers [unfolded drv_def] this step [unfolded drv_def]]
  have "table_log d p l1 \<and> port_ds dp1 = d \<and> port_index dp1 = p \<and> shared_port dp1" .
  moreover have "unat (obj_vid w) < DSA_LOOP_VLANS" if "Db_add w \<in> set ops \<or> Db_del w \<in> set ops" for w
    using Cons.prems(6) that by auto
  ultimately show ?case by (intro Cons.IH [OF rest]) auto
qed simp

text \<open>
  C30. The core and the driver agree: after any history of up to \<open>INT_MAX\<close> additions and removals
  of VLANs 0 to 4 on a CPU port or link that the core makes against this driver, whatever the
  allocator answers, the table of the driver has the port as a member of a VLAN exactly when
  the core has granted more additions of it than removals.
\<close>

theorem loop_table_matches_core:
  assumes "shared_port dp" "{Op_port_vlan_add, Op_port_vlan_del} \<subseteq> sw_ops ds" "port_vlans dp = []"
    and "port_index dp < max_ports" "port_index dp < 16" "length ops \<le> REFCOUNT_MAX"
    and "\<And>v. Db_add v \<in> set ops \<or> Db_del v \<in> set ops \<Longrightarrow> unat (obj_vid v) < DSA_LOOP_VLANS"
  shows "\<exists>rs s' ps. db_run (vlan_add_op (loop_driver mem (loop_zero max_ports)) ds)
        (vlan_del_op (loop_driver mem (loop_zero max_ports)) ds) ops (dp, []) = Some (rs, s') \<and>
      loop_replay (loop_zero max_ports) (snd s') = Some ps \<and>
      (\<forall>vid. unat vid < DSA_LOOP_VLANS \<longrightarrow> vlan_member ps vid (port_index dp) =
         (db_dropped (\<lambda>v. obj_vid v = vid) ops rs < db_granted (\<lambda>v. obj_vid v = vid \<and> \<not> obj_changed v) ops rs))"
proof -
  let ?drv = "loop_driver mem (loop_zero max_ports)" and ?p = "port_index dp" and ?d = "port_ds dp"
  have z: "?p < length (ps_ports (loop_zero max_ports))" using assms(4) by (simp add: loop_zero_def)
  have empty: "\<not> vlan_member (loop_zero max_ports) v ?p" if "unat v < DSA_LOOP_VLANS" for v
    using that by (simp add: vlan_member_def loop_zero_def)
  have ok: "vlan_db_ok ds (dp, [])" using assms by (simp add: vlan_db_ok_def db_ok_empty)
  have none: "vlan_refs (dp, []) k = 0" for k using assms(3) by (simp add: vlan_refs_def entry_refs_def)
  obtain rs s' where run: "db_run (vlan_add_op ?drv ds) (vlan_del_op ?drv ds) ops (dp, []) = Some (rs, s')"
    using vlan_db.run_total [OF ok] by blast
  have log: "table_log ?d ?p (snd s') \<and> port_ds (fst s') = ?d \<and> port_index (fst s') = ?p"
    using vlan_run_table [OF table_log_driver [OF _ _ _ loop_zero_ok z assms(5) empty] run] assms(1,7)
    by (simp add: table_log_def)
  then obtain ps where ps: "loop_replay (loop_zero max_ports) (snd s') = Some ps"
    "\<And>v. unat v < DSA_LOOP_VLANS \<Longrightarrow> vlan_member ps v ?p = installed (vlan_calls ?d ?p) (snd s') v"
    using loop_replay_ok [OF _ loop_zero_ok z assms(5) empty] by blast
  have "vlan_held s' = installed (vlan_calls ?d ?p) (snd s')"
    using log by (cases s') (simp add: vlan_held_def)
  then show ?thesis
    using run ps vlan_db.run_held [OF ok none assms(6) run] by (intro exI [of _ rs] exI [of _ s'] exI [of _ ps]) simp
qed

theorem loop_table_matches_core_witness:
  "let v = \<lparr>obj_flags = 6, obj_vid = 3, obj_changed = False\<rparr>; ops = [Db_add v, Db_add v, Db_del v] in
   \<exists>rs s' ps. db_run (vlan_add_op (loop_driver (\<lambda>_. 0) (loop_zero 12)) board_switch)
        (vlan_del_op (loop_driver (\<lambda>_. 0) (loop_zero 12)) board_switch) ops (board_port 4, []) = Some (rs, s') \<and>
      loop_replay (loop_zero 12) (snd s') = Some ps \<and>
      (\<forall>vid. unat vid < DSA_LOOP_VLANS \<longrightarrow> vlan_member ps vid (port_index (board_port 4)) =
         (db_dropped (\<lambda>v. obj_vid v = vid) ops rs < db_granted (\<lambda>v. obj_vid v = vid \<and> \<not> obj_changed v) ops rs))"
  unfolding Let_def
  by (rule loop_table_matches_core)
    (auto simp: board_port_def board_switch_def shared_port_def dsa_port_is_cpu_def REFCOUNT_MAX_def DSA_LOOP_VLANS_def)

subsection \<open>Life of the driver\<close>

text \<open>
  The reference on the network device: probing takes one exactly when it gets as far as
  registering the switch, removing a bound device gives it back, so a successful probe and the
  removal balance. A probe whose registration fails keeps the reference, because nothing on
  that path gives it back and a device that failed to probe is not removed.
\<close>

theorem loop_probe_references:
  fixes env st
  defines "res \<equiv> asix_dsa_loop_drv_probe env st"
  shows "netdev_refs (snd res) =
      netdev_refs st + (if env_pdata env \<and> env_ds env \<and> env_ps env \<and> env_netdev env then 1 else 0) \<and>
    (fst res = 0 \<longrightarrow> ds_registered (snd res) \<and>
       netdev_refs (asix_dsa_loop_drv_remove (snd res)) = netdev_refs st \<and>
       \<not> ds_registered (asix_dsa_loop_drv_remove (snd res))) \<and>
    (fst res \<noteq> 0 \<and> env_pdata env \<and> env_ds env \<and> env_ps env \<and> env_netdev env \<longrightarrow>
       fst res = env_register env \<and> netdev_refs (snd res) = netdev_refs st + 1)"
  by (auto simp: res_def asix_dsa_loop_drv_probe_def asix_dsa_loop_drv_remove_def Let_def)

theorem loop_probe_references_witness:
  "netdev_refs (asix_dsa_loop_drv_remove (snd (asix_dsa_loop_drv_probe
     \<lparr>env_pdata = True, env_ds = True, env_ps = True, env_netdev = True, env_register = 0\<rparr>
     \<lparr>drvdata = False, netdev_refs = 3, ds_registered = False\<rparr>))) = 3"
  using loop_probe_references [of "\<lparr>env_pdata = True, env_ds = True, env_ps = True, env_netdev = True, env_register = 0\<rparr>"
     "\<lparr>drvdata = False, netdev_refs = 3, ds_registered = False\<rparr>"]
  by (simp add: asix_dsa_loop_drv_probe_def)

end
