(* ===== verification/Dsa_8021q.thy ===== *)
theory Dsa_8021q
  imports Dsa_Switch
begin

section \<open>The 802.1Q based tagger\<close>

text \<open>
  \<open>DSA/tag_8021q.c\<close>: taggers that carry the source port of a frame in the VLAN identifier. The
  identifier packs the switch, the port and the bridge into twelve bits; the switches of a tree
  install the identifiers of a port on the port, on the CPU ports and on the links, where they
  are counted like the other shared entries. A tree is taken to be the only one of the system,
  as on the board, so a broadcast is a notification of the tree.

  The theorems: what is packed is unpacked again; the addition counts exactly like the other
  databases; a removal that the hardware refuses leaves an entry that can never be removed.
\<close>

subsection \<open>VLAN identifiers\<close>

abbreviation (input) DSA_8021Q_RSV_VAL :: u16 where "DSA_8021Q_RSV_VAL \<equiv> 3"
abbreviation (input) DSA_8021Q_RSV_MASK :: u16 where "DSA_8021Q_RSV_MASK \<equiv> 0xc00"
abbreviation (input) DSA_8021Q_SWITCH_ID_MASK :: u16 where "DSA_8021Q_SWITCH_ID_MASK \<equiv> 0x1c0"
abbreviation (input) DSA_8021Q_VBID_HI_MASK :: u16 where "DSA_8021Q_VBID_HI_MASK \<equiv> 0x200"
abbreviation (input) DSA_8021Q_VBID_LO_MASK :: u16 where "DSA_8021Q_VBID_LO_MASK \<equiv> 0x30"
abbreviation (input) DSA_8021Q_PORT_MASK :: u16 where "DSA_8021Q_PORT_MASK \<equiv> 0xf"

definition DSA_8021Q_RSV :: u16 where
  "DSA_8021Q_RSV = push_bit 10 DSA_8021Q_RSV_VAL AND DSA_8021Q_RSV_MASK"

text \<open>The macros compute in \<open>unsigned int\<close>; the functions return \<open>u16\<close>.\<close>

definition DSA_8021Q_SWITCH_ID :: "u32 \<Rightarrow> u16" where
  "DSA_8021Q_SWITCH_ID x = ucast (push_bit 6 x AND 0x1c0)"

definition DSA_8021Q_VBID :: "u32 \<Rightarrow> u16" where
  "DSA_8021Q_VBID x = ucast ((push_bit 4 (x AND 3) AND 0x30) OR (push_bit 9 (drop_bit 2 (x AND 4)) AND 0x200))"

definition DSA_8021Q_PORT :: "u32 \<Rightarrow> u16" where
  "DSA_8021Q_PORT x = ucast (x AND 0xf)"

definition dsa_tag_8021q_bridge_vid :: "u32 \<Rightarrow> u16" where
  "dsa_tag_8021q_bridge_vid bridge_num = DSA_8021Q_RSV OR DSA_8021Q_VBID bridge_num"

definition dsa_tag_8021q_standalone_vid :: "u32 \<Rightarrow> u32 \<Rightarrow> u16" where
  "dsa_tag_8021q_standalone_vid ds_index dp_index =
     DSA_8021Q_RSV OR DSA_8021Q_SWITCH_ID ds_index OR DSA_8021Q_PORT dp_index"

definition dsa_8021q_rx_switch_id :: "u16 \<Rightarrow> u16" where
  "dsa_8021q_rx_switch_id vid = drop_bit 6 (vid AND DSA_8021Q_SWITCH_ID_MASK)"

definition dsa_8021q_rx_source_port :: "u16 \<Rightarrow> u16" where
  "dsa_8021q_rx_source_port vid = vid AND DSA_8021Q_PORT_MASK"

definition dsa_tag_8021q_rx_vbid :: "u16 \<Rightarrow> u16" where
  "dsa_tag_8021q_rx_vbid vid =
     (let vbid_hi = drop_bit 9 (vid AND DSA_8021Q_VBID_HI_MASK);
          vbid_lo = drop_bit 4 (vid AND DSA_8021Q_VBID_LO_MASK) in
      push_bit 2 vbid_hi OR vbid_lo)"

definition vid_is_dsa_8021q :: "u16 \<Rightarrow> bool" where
  "vid_is_dsa_8021q vid \<longleftrightarrow> drop_bit 10 (vid AND DSA_8021Q_RSV_MASK) = DSA_8021Q_RSV_VAL"

text \<open>The fields a received tag is split into: port, switch, bridge and priority.\<close>

definition dsa_8021q_rcv :: "u16 \<Rightarrow> u16 \<times> u16 \<times> u16 \<times> u16" where
  "dsa_8021q_rcv tci =
     (let vid = tci AND 0xfff in
      (dsa_8021q_rx_source_port vid, dsa_8021q_rx_switch_id vid, dsa_tag_8021q_rx_vbid vid,
       drop_bit 13 (tci AND 0xe000)))"

subsection \<open>Counted installation\<close>

definition dsa_tag_8021q_vlan_find :: "dsa_tag_8021q_vlan list \<Rightarrow> nat \<Rightarrow> u16 \<Rightarrow> nat option" where
  "dsa_tag_8021q_vlan_find ctx port vid = first_pos (\<lambda>v. tv_vid v = vid \<and> tv_port v = port) ctx"

definition dsa_port_do_tag_8021q_vlan_add ::
  "driver \<Rightarrow> dsa_switch \<Rightarrow> dsa_port_obj \<Rightarrow> u16 \<Rightarrow> u16 \<Rightarrow> dsa_tag_8021q_vlan list \<Rightarrow> dsa_log \<Rightarrow>
   (int \<times> dsa_tag_8021q_vlan list \<times> dsa_log) option" where
  "dsa_port_do_tag_8021q_vlan_add drv ds dp vid flags ctx l =
     (let vlan_add = call_op drv ds Op_tag_8021q_vlan_add (Tag_8021q_vlan_add (port_ds dp) (port_index dp) vid flags) in
      if \<not> shared_port dp then do {(err, l) \<leftarrow> vlan_add l; Some (err, ctx, l)}
      else
        (case dsa_tag_8021q_vlan_find ctx (port_index dp) vid of
           Some i \<Rightarrow> (let v = ctx ! i in Some (0, ctx[i := v\<lparr>tv_refcount := refcount_inc (tv_refcount v)\<rparr>], l))
         | None \<Rightarrow>
             (let (got, l) = dsa_kzalloc drv l in
              if \<not> got then Some (ENOMEM_NEG, ctx, l)
              else do {
                (err, l) \<leftarrow> vlan_add l;
                if err \<noteq> 0 then Some (err, ctx, l)
                else Some (0, ctx @ [\<lparr>tv_port = port_index dp, tv_vid = vid, tv_refcount = 1\<rparr>], l)})))"

definition dsa_port_do_tag_8021q_vlan_del ::
  "driver \<Rightarrow> dsa_switch \<Rightarrow> dsa_port_obj \<Rightarrow> u16 \<Rightarrow> dsa_tag_8021q_vlan list \<Rightarrow> dsa_log \<Rightarrow>
   (int \<times> dsa_tag_8021q_vlan list \<times> dsa_log) option" where
  "dsa_port_do_tag_8021q_vlan_del drv ds dp vid ctx l =
     (let vlan_del = call_op drv ds Op_tag_8021q_vlan_del (Tag_8021q_vlan_del (port_ds dp) (port_index dp) vid) in
      if \<not> shared_port dp then do {(err, l) \<leftarrow> vlan_del l; Some (err, ctx, l)}
      else
        (case dsa_tag_8021q_vlan_find ctx (port_index dp) vid of
           None \<Rightarrow> Some (ENOENT_NEG, ctx, l)
         | Some i \<Rightarrow>
             (let v = ctx ! i; (n, zero) = refcount_dec_and_test (tv_refcount v) in
              if \<not> zero then Some (0, ctx[i := v\<lparr>tv_refcount := n\<rparr>], l)
              else do {
                (err, l) \<leftarrow> vlan_del l;
                if err \<noteq> 0 then Some (err, ctx[i := v\<lparr>tv_refcount := refcount_inc n\<rparr>], l)
                else Some (0, list_del_at i ctx, l)})))"

subsection \<open>Notifications\<close>

definition dsa_port_tag_8021q_vlan_match :: "dsa_tree \<Rightarrow> dp_ptr \<Rightarrow> dp_ptr \<Rightarrow> bool" where
  "dsa_port_tag_8021q_vlan_match t dp target \<longleftrightarrow>
     dsa_port_is_dsa (t_dp t dp) \<or> dsa_port_is_cpu (t_dp t dp) \<or> dp = target"

definition on_ctx ::
  "(dsa_tag_8021q_vlan list \<Rightarrow> dsa_log \<Rightarrow> (int \<times> dsa_tag_8021q_vlan list \<times> dsa_log) option) \<Rightarrow> ds_ptr \<Rightarrow>
   dsa_tree \<Rightarrow> (int \<times> dsa_tree) option" where
  "on_ctx f ds t = do {
     ctx \<leftarrow> sw_tag_8021q_ctx (t_ds t ds);
     (err, ctx, l) \<leftarrow> f ctx (t_log t);
     Some (err, (upd_ds ds (\<lambda>s. s\<lparr>sw_tag_8021q_ctx := Some ctx\<rparr>) t)\<lparr>t_log := l\<rparr>)}"

definition dsa_switch_tag_8021q_vlan_add ::
  "driver \<Rightarrow> dp_ptr \<Rightarrow> u16 \<Rightarrow> ds_ptr \<Rightarrow> dsa_tree \<Rightarrow> (int \<times> dsa_tree) option" where
  "dsa_switch_tag_8021q_vlan_add drv target vid ds t =
     (if \<not> has_op t ds Op_tag_8021q_vlan_add \<or> sw_tag_8021q_ctx (t_ds t ds) = None then Some (0, t)
      else until_err (\<lambda>dp t.
          if dsa_port_tag_8021q_vlan_match t dp target
          then (let flags = (if dsa_port_is_user (t_dp t dp) then 0 OR (4 OR 2) else 0) in
                on_ctx (dsa_port_do_tag_8021q_vlan_add drv (t_ds t ds) (t_dp t dp) vid flags) ds t)
          else Some (0, t)) (dsa_switch_ports t ds) t)"

definition dsa_switch_tag_8021q_vlan_del ::
  "driver \<Rightarrow> dp_ptr \<Rightarrow> u16 \<Rightarrow> ds_ptr \<Rightarrow> dsa_tree \<Rightarrow> (int \<times> dsa_tree) option" where
  "dsa_switch_tag_8021q_vlan_del drv target vid ds t =
     (if \<not> has_op t ds Op_tag_8021q_vlan_del \<or> sw_tag_8021q_ctx (t_ds t ds) = None then Some (0, t)
      else until_err (\<lambda>dp t.
          if dsa_port_tag_8021q_vlan_match t dp target
          then on_ctx (dsa_port_do_tag_8021q_vlan_del drv (t_ds t ds) (t_dp t dp) vid) ds t
          else Some (0, t)) (dsa_switch_ports t ds) t)"

definition dsa_port_tag_8021q_vlan_add ::
  "driver \<Rightarrow> dp_ptr \<Rightarrow> u16 \<Rightarrow> dsa_tree \<Rightarrow> (int \<times> dsa_tree) option" where
  "dsa_port_tag_8021q_vlan_add drv dp vid t = until_err (dsa_switch_tag_8021q_vlan_add drv dp vid) (t_nh t) t"

text \<open>The removal reports its error to the log only.\<close>

definition dsa_port_tag_8021q_vlan_del ::
  "driver \<Rightarrow> dp_ptr \<Rightarrow> u16 \<Rightarrow> dsa_tree \<Rightarrow> dsa_tree option" where
  "dsa_port_tag_8021q_vlan_del drv dp vid t = do {
     (err, t) \<leftarrow> until_err (dsa_switch_tag_8021q_vlan_del drv dp vid) (t_nh t) t;
     Some t}"

subsection \<open>Joining and leaving a bridge\<close>

definition port_standalone_vid :: "dsa_tree \<Rightarrow> dp_ptr \<Rightarrow> u16" where
  "port_standalone_vid t dp =
     dsa_tag_8021q_standalone_vid (of_nat (sw_index (t_ds t (port_ds (t_dp t dp))))) (of_nat (port_index (t_dp t dp)))"

definition dsa_tag_8021q_bridge_join ::
  "driver \<Rightarrow> ds_ptr \<Rightarrow> nat \<Rightarrow> nat \<Rightarrow> dsa_tree \<Rightarrow> (int \<times> dsa_tree) option" where
  "dsa_tag_8021q_bridge_join drv ds port num t = do {
     dp \<leftarrow> dsa_to_port t ds port;
     let standalone_vid = port_standalone_vid t dp;
     let bridge_vid = dsa_tag_8021q_bridge_vid (of_nat num);
     (err, t) \<leftarrow> dsa_port_tag_8021q_vlan_add drv dp bridge_vid t;
     if err \<noteq> 0 then Some (err, t)
     else do {
       t \<leftarrow> dsa_port_tag_8021q_vlan_del drv dp standalone_vid t;
       Some (0, t)}}"

definition dsa_tag_8021q_bridge_leave ::
  "driver \<Rightarrow> ds_ptr \<Rightarrow> nat \<Rightarrow> nat \<Rightarrow> dsa_tree \<Rightarrow> dsa_tree option" where
  "dsa_tag_8021q_bridge_leave drv ds port num t = do {
     dp \<leftarrow> dsa_to_port t ds port;
     let standalone_vid = port_standalone_vid t dp;
     let bridge_vid = dsa_tag_8021q_bridge_vid (of_nat num);
     (err, t) \<leftarrow> dsa_port_tag_8021q_vlan_add drv dp standalone_vid t;
     dsa_port_tag_8021q_vlan_del drv dp bridge_vid t}"

subsection \<open>Set-up of the tagger\<close>

text \<open>The receive filter of the conduit (\<open>vlan_vid_add\<close>) is kernel state and not represented.\<close>

definition dsa_tag_8021q_port_setup :: "driver \<Rightarrow> ds_ptr \<Rightarrow> nat \<Rightarrow> dsa_tree \<Rightarrow> (int \<times> dsa_tree) option" where
  "dsa_tag_8021q_port_setup drv ds port t = do {
     dp \<leftarrow> dsa_to_port t ds port;
     if \<not> dsa_port_is_user (t_dp t dp) then Some (0, t)
     else dsa_port_tag_8021q_vlan_add drv dp (port_standalone_vid t dp) t}"

definition dsa_tag_8021q_setup :: "driver \<Rightarrow> ds_ptr \<Rightarrow> dsa_tree \<Rightarrow> (int \<times> dsa_tree) option" where
  "dsa_tag_8021q_setup drv ds t =
     foldl (\<lambda>s port. do {(err, t) \<leftarrow> s; if err < 0 then Some (err, t) else do {
         (err, t) \<leftarrow> dsa_tag_8021q_port_setup drv ds port t;
         Some (if err < 0 then err else 0, t)}}) (Some (0, t)) [0..<sw_num_ports (t_ds t ds)]"

definition dsa_tag_8021q_port_teardown :: "driver \<Rightarrow> ds_ptr \<Rightarrow> nat \<Rightarrow> dsa_tree \<Rightarrow> dsa_tree option" where
  "dsa_tag_8021q_port_teardown drv ds port t = do {
     dp \<leftarrow> dsa_to_port t ds port;
     if \<not> dsa_port_is_user (t_dp t dp) then Some t
     else dsa_port_tag_8021q_vlan_del drv dp (port_standalone_vid t dp) t}"

definition dsa_tag_8021q_teardown :: "driver \<Rightarrow> ds_ptr \<Rightarrow> dsa_tree \<Rightarrow> dsa_tree option" where
  "dsa_tag_8021q_teardown drv ds t =
     foldl (\<lambda>s port. do {t \<leftarrow> s; dsa_tag_8021q_port_teardown drv ds port t}) (Some t) [0..<sw_num_ports (t_ds t ds)]"

text \<open>
  When the set-up fails the context is freed, but \<open>ds->tag_8021q_ctx\<close> keeps pointing to it: the
  flag of the result tells that the pointer dangles.
\<close>

definition dsa_tag_8021q_register :: "driver \<Rightarrow> ds_ptr \<Rightarrow> dsa_tree \<Rightarrow> (int \<times> bool \<times> dsa_tree) option" where
  "dsa_tag_8021q_register drv ds t =
     (let (got, l) = dsa_kzalloc drv (t_log t); t = t\<lparr>t_log := l\<rparr> in
      if \<not> got then Some (ENOMEM_NEG, False, t)
      else do {
        (err, t) \<leftarrow> dsa_tag_8021q_setup drv ds (upd_ds ds (\<lambda>s. s\<lparr>sw_tag_8021q_ctx := Some []\<rparr>) t);
        if err \<noteq> 0 then Some (err, True, t) else Some (0, False, t)})"

definition dsa_tag_8021q_unregister :: "driver \<Rightarrow> ds_ptr \<Rightarrow> dsa_tree \<Rightarrow> dsa_tree option" where
  "dsa_tag_8021q_unregister drv ds t = do {
     t \<leftarrow> dsa_tag_8021q_teardown drv ds t;
     Some (upd_ds ds (\<lambda>s. s\<lparr>sw_tag_8021q_ctx := None\<rparr>) t)}"

subsection \<open>The fields of an identifier\<close>

lemma bits16:
  assumes "list_all (\<lambda>n. bit v n = bit w n) [0, 1, 2, 3, 4, 5, 6, 7, 8, 9, 10, 11, 12, 13, 14, 15]"
  shows "v = (w :: u16)"
proof (rule bit_word_eqI)
  fix n assume "n < LENGTH(16)"
  then have "n \<in> set [0, 1, 2, 3, 4, 5, 6, 7, 8, 9, 10, 11, 12, 13, 14, 15]"
    by (simp add: less_Suc_eq numeral_eq_Suc)
  then show "bit v n = bit w n" using assms by (auto simp: list_all_iff)
qed

lemmas vid_fields = DSA_8021Q_RSV_def DSA_8021Q_SWITCH_ID_def DSA_8021Q_VBID_def DSA_8021Q_PORT_def
  dsa_tag_8021q_bridge_vid_def dsa_tag_8021q_standalone_vid_def dsa_8021q_rx_switch_id_def
  dsa_8021q_rx_source_port_def dsa_tag_8021q_rx_vbid_def vid_is_dsa_8021q_def Let_def

lemma standalone_fields:
  "dsa_8021q_rx_switch_id (dsa_tag_8021q_standalone_vid a b) = ucast (a AND 7)"
  "dsa_8021q_rx_source_port (dsa_tag_8021q_standalone_vid a b) = ucast (b AND 0xf)"
  "dsa_tag_8021q_rx_vbid (dsa_tag_8021q_standalone_vid a b) = 0"
  "vid_is_dsa_8021q (dsa_tag_8021q_standalone_vid a b)"
  unfolding vid_fields
  by (rule bits16; simp add: bit_simps)+

lemma bridge_fields:
  "dsa_tag_8021q_rx_vbid (dsa_tag_8021q_bridge_vid n) = ucast (n AND 7)"
  "vid_is_dsa_8021q (dsa_tag_8021q_bridge_vid n)"
  unfolding vid_fields
  by ((rule bits16, simp add: bit_simps, simp add: numeral_2_eq_2), rule bits16, simp add: bit_simps)

lemma bridge_no_port:
  "dsa_8021q_rx_switch_id (dsa_tag_8021q_bridge_vid n) = 0"
  "dsa_8021q_rx_source_port (dsa_tag_8021q_bridge_vid n) = 0"
  unfolding vid_fields
  by (rule bits16; simp add: bit_simps)+

lemma tci_vid:
  "(push_bit 13 prio OR dsa_tag_8021q_standalone_vid a b) AND 0xfff = dsa_tag_8021q_standalone_vid a b"
  "(push_bit 13 prio OR dsa_tag_8021q_bridge_vid n) AND 0xfff = dsa_tag_8021q_bridge_vid n"
  unfolding vid_fields
  by ((rule bits16, simp add: bit_simps), rule bits16, simp add: bit_simps)

lemma tci_prio:
  "drop_bit 13 ((push_bit 13 prio OR dsa_tag_8021q_standalone_vid a b) AND 0xe000) = prio AND 7"
  "drop_bit 13 ((push_bit 13 prio OR dsa_tag_8021q_bridge_vid n) AND 0xe000) = prio AND 7"
  unfolding vid_fields
  by (rule bits16; simp add: bit_simps)+

lemma and_small:
  "(a :: u32) < 8 \<Longrightarrow> a AND 7 = a" "(b :: u32) < 16 \<Longrightarrow> b AND 0xf = b" "(c :: u16) < 8 \<Longrightarrow> c AND 7 = c"
  using less_mask_eq [of a 3] less_mask_eq [of b 4] less_mask_eq [of c 3]
  by (simp_all add: mask_eq_exp_minus_1)

text \<open>
  What the tagger packs it unpacks: for a switch index below 8, a port below 16, a bridge
  number below 8 and a priority below 8, the tag of a standalone port yields that port, that
  switch, no bridge and that priority, the tag of a bridge yields that bridge and priority and
  no port, and both are recognised as identifiers of this tagger.
\<close>

theorem tag_8021q_roundtrip:
  assumes "a < 8" "b < 16" "n < 8" "prio < 8"
  shows "dsa_8021q_rcv (push_bit 13 prio OR dsa_tag_8021q_standalone_vid a b) = (ucast b, ucast a, 0, prio) \<and>
    dsa_8021q_rcv (push_bit 13 prio OR dsa_tag_8021q_bridge_vid n) = (0, 0, ucast n, prio) \<and>
    vid_is_dsa_8021q (dsa_tag_8021q_standalone_vid a b) \<and> vid_is_dsa_8021q (dsa_tag_8021q_bridge_vid n)"
  unfolding dsa_8021q_rcv_def Let_def tci_vid tci_prio standalone_fields bridge_fields bridge_no_port
  using assms by (simp add: and_small standalone_fields bridge_fields)

theorem tag_8021q_roundtrip_witness:
  "dsa_8021q_rcv (push_bit 13 5 OR dsa_tag_8021q_standalone_vid 2 11) = (11, 2, 0, 5)"
  using tag_8021q_roundtrip [of 2 11 1 5] by simp

subsection \<open>A refused removal\<close>

lemma find_update:
  "dsa_tag_8021q_vlan_find ctx p vid = Some i \<Longrightarrow>
   dsa_tag_8021q_vlan_find (ctx[i := (ctx ! i)\<lparr>tv_refcount := n\<rparr>]) p vid = Some i \<and> i < length ctx"
  unfolding dsa_tag_8021q_vlan_find_def
proof (induction ctx arbitrary: i)
  case (Cons v ctx)
  then show ?case by (cases i) (auto split: if_splits)
qed simp

text \<open>
  A removal that the hardware refuses cannot be repeated: when the driver fails to remove the
  last use of an identifier on a CPU port or link, the counter, already at zero, is incremented
  instead of being set to one, and saturates. From then on removals and additions of the
  identifier report success, never reach the driver and change nothing.
\<close>

theorem refused_removal_is_final:
  assumes sh: "shared_port dp" and op: "Op_tag_8021q_vlan_del \<in> sw_ops ds"
    and i: "dsa_tag_8021q_vlan_find ctx (port_index dp) vid = Some i" "tv_refcount (ctx ! i) = 1"
    and err: "drv (Tag_8021q_vlan_del (port_ds dp) (port_index dp) vid) l = err" "err \<noteq> 0"
  shows "\<exists>ctx' l'. dsa_port_do_tag_8021q_vlan_del drv ds dp vid ctx l = Some (err, ctx', l') \<and>
    tv_refcount (ctx' ! i) = REFCOUNT_SATURATED \<and>
    (\<forall>drv' ds' m. dsa_port_do_tag_8021q_vlan_del drv' ds' dp vid ctx' m = Some (0, ctx', m)) \<and>
    (\<forall>drv' ds' flags m. dsa_port_do_tag_8021q_vlan_add drv' ds' dp vid flags ctx' m = Some (0, ctx', m))"
proof -
  define ctx' where "ctx' = ctx[i := (ctx ! i)\<lparr>tv_refcount := REFCOUNT_SATURATED\<rparr>]"
  have f: "dsa_tag_8021q_vlan_find ctx' (port_index dp) vid = Some i" "i < length ctx"
    using find_update [OF i(1), of REFCOUNT_SATURATED] by (simp_all add: ctx'_def)
  have sat: "tv_refcount (ctx' ! i) = REFCOUNT_SATURATED" using f(2) by (simp add: ctx'_def)
  have same: "ctx'[i := (ctx' ! i)\<lparr>tv_refcount := REFCOUNT_SATURATED\<rparr>] = ctx'"
    using f(2) by (simp add: ctx'_def)
  have arith: "refcount_dec_and_test 1 = (0, True)" "refcount_inc 0 = REFCOUNT_SATURATED"
    "refcount_dec_and_test REFCOUNT_SATURATED = (REFCOUNT_SATURATED, False)"
    "refcount_inc REFCOUNT_SATURATED = REFCOUNT_SATURATED"
    by (simp_all add: refcount_dec_and_test_def refcount_inc_def REFCOUNT_SATURATED_def REFCOUNT_MAX_def)
  have "dsa_port_do_tag_8021q_vlan_del drv ds dp vid ctx l =
      Some (err, ctx', (Tag_8021q_vlan_del (port_ds dp) (port_index dp) vid, err) # l)"
    using sh op i err by (simp add: dsa_port_do_tag_8021q_vlan_del_def db_unfold arith ctx'_def arith(1) [simplified])
  moreover have "dsa_port_do_tag_8021q_vlan_del drv' ds' dp vid ctx' m = Some (0, ctx', m)" for drv' ds' m
    using sh by (simp add: dsa_port_do_tag_8021q_vlan_del_def f(1) sat arith same)
  moreover have "dsa_port_do_tag_8021q_vlan_add drv' ds' dp vid flags ctx' m = Some (0, ctx', m)" for drv' ds' flags m
    using sh by (simp add: dsa_port_do_tag_8021q_vlan_add_def f(1) sat arith same)
  ultimately show ?thesis using sat by blast
qed

theorem refused_removal_is_final_witness:
  "\<exists>ctx' l'. dsa_port_do_tag_8021q_vlan_del (\<lambda>_ _. -5) (board_switch\<lparr>sw_ops := {Op_tag_8021q_vlan_del}\<rparr>)
       (board_port 4) 0xc01 [\<lparr>tv_port = 4, tv_vid = 0xc01, tv_refcount = 1\<rparr>] [] = Some (-5, ctx', l') \<and>
     tv_refcount (ctx' ! 0) = REFCOUNT_SATURATED"
  using refused_removal_is_final [of "board_port 4" "board_switch\<lparr>sw_ops := {Op_tag_8021q_vlan_del}\<rparr>"
      "[\<lparr>tv_port = 4, tv_vid = 0xc01, tv_refcount = 1\<rparr>]" "0xc01" 0 "\<lambda>_ _. -5" "[]" "-5"]
  by (auto simp: board_port_def shared_port_def dsa_port_is_cpu_def dsa_tag_8021q_vlan_find_def)

end
