(* ===== verification/Spec2Isabelle.thy ===== *)
theory Spec2Isabelle
  imports Ts_Queue Ax_Switch Qbv Hw_Tstamp Ax_Ptp Sdsa_Tag Xdma_Engine Tx_Path Rx_Path Xdma_Dev Xdma_Irq User_Irq Net_Dev Ioctl Mdio Xdma_Life Probe Dsa_Switch Dsa_Member Dsa_Loop Dsa_8021q
begin

text \<open>
  \<^bold>\<open>A verification development for the Linux driver of the ASIX AXM57104A\<close>, a PCIe network card
  that carries a five-port TSN switch. The sources are under \<open>src/\<close>.

  \<^bold>\<open>The program and its parts.\<close> The driver is one kernel module. \<open>xdma_mod.c\<close> attaches to the PCI
  device, registers one network device and offers ioctls; \<open>libxdma.c\<close> and \<open>libxdma.h\<close> drive the
  DMA engines and the interrupts below it; \<open>switch/ax_switch.c\<close> and \<open>switch/ax_ptp.c\<close> serve the
  switch core (802.1Qbv gate schedules, hardware timestamps, PTP clocks); \<open>DSA/\<close> is a copy of the
  kernel's distributed switch architecture (DSA) with the tagger \<open>tag_asix.c\<close> and the switch
  driver \<open>dsa_loop.c\<close> of this board. A frame of a user port gets a tag (\<open>tag_asix.c\<close>), goes down
  through \<open>ax_net_start_xmit\<close> into one of two descriptor lists and out by DMA; a received frame
  comes up through the result ring and \<open>ax_net_poll\<close>, is matched with a captured timestamp and
  handed to the user port the tag names. Requests of the network stack to the switch (addresses,
  VLANs, bridges, LAGs) go from the user port through \<open>port.c\<close> as notifications (\<open>switch.c\<close>) to every
  switch of the tree.

  \<^bold>\<open>Conventions.\<close> C structures are records, machine integers are words where their width matters.
  The hardware is a parameter that answers each register read from the history of all accesses
  (\<open>Ax_Prelude\<close>); accesses are logged, newest first. The kernel is a parameter too: its answers
  are arguments or fields of an environment record, or, in the DSA core, a function from the
  history of all calls. An access outside an array, a NULL pointer, a failed \<open>BUG_ON\<close>, a division
  by zero and a loop that runs out of fuel are the value \<open>None\<close>, so \<open>f x = Some y\<close> includes that
  the code runs to its end without them. Routines that run under one lock are one step. The
  compiled configuration is followed: one queue (\<open>AX_MQ\<close> off), NAPI, copying receive and transmit,
  tasklet on; power management is not compiled.

  \<^bold>\<open>Theories and sources.\<close>
  \<^item> \<open>Ax_Prelude\<close>, \<open>Ax_Regs\<close>: words, errors, arrays, register access; register numbers of the headers.
  \<^item> \<open>Ts_Queue\<close>, \<open>Ax_Switch\<close>, \<open>Qbv\<close>, \<open>Hw_Tstamp\<close> (\<open>switch/ax_switch.c\<close>): the ring of captures as an
    implementation of a bounded history with newest-match search; the switch object; the three
    gate schedule handlers; draining of the timestamp FIFOs and lookup of a frame's stamp.
  \<^item> \<open>Ax_Ptp\<close> (\<open>switch/ax_ptp.c\<close>): the clock operations, exact up to the arithmetic of the code.
  \<^item> \<open>Sdsa_Tag\<close> (\<open>DSA/tag_asix.c\<close>, \<open>DSA/tag.h\<close>, parts of \<open>libxdma.c\<close>): tagging, untagging and
    classification of frames; what is tagged is untagged to the same frame and port.
  \<^item> \<open>Xdma_Engine\<close>, \<open>Tx_Path\<close>, \<open>Rx_Path\<close> (\<open>libxdma.c\<close>, \<open>xdma_mod.c\<close>): descriptor lists and engines, and
    the two data paths as step relations; in every reachable state no frame is lost, duplicated
    or reordered, nothing faults, and a stopped queue wakes.
  \<^item> \<open>Xdma_Dev\<close>, \<open>Xdma_Irq\<close>, \<open>User_Irq\<close>, \<open>Xdma_Life\<close> (\<open>libxdma.c\<close>): device list, BARs, engine discovery;
    interrupt modes, opening and closing with every error label; switch interrupts; the composition
    of opening and closing.
  \<^item> \<open>Net_Dev\<close>, \<open>Ioctl\<close>, \<open>Mdio\<close>, \<open>Probe\<close> (\<open>xdma_mod.c\<close>): network device operations, ioctls, PHYs and EEPROM,
    and attach, detach and PCI error recovery, which compose all of the above.
  \<^item> \<open>Dsa_Tree\<close> (\<open>DSA/dsa.h\<close>, \<open>DSA/dsa2.c\<close>): ports, switches, LAGs and bridges in stores; navigation,
    numbering, routing table, CPU ports.
  \<^item> \<open>Dsa_Db\<close> and \<open>Dsa_Switch\<close> (\<open>DSA/switch.c\<close>): the reference counted databases of shared ports and
    the notifications that reach them.
  \<^item> \<open>Dsa_Port\<close> (\<open>DSA/port.c\<close>): the requests of a user interface to its port: ageing, spanning tree
    states, flags, addresses, groups, VLANs; whatever is asked, only the databases change.
  \<^item> \<open>Dsa_User\<close> (\<open>DSA/user.c\<close>): host addresses with their work queue, VLANs and MTU of the interfaces.
  \<^item> \<open>Dsa_Bridge\<close>, \<open>Dsa_Member\<close> (\<open>DSA/port.c\<close>): VLAN filtering, bridges, LAGs and the change of conduit;
    the memberships as a transition system in which counts, numbers and slots are exact and failures
    leave no trace.
  \<^item> \<open>Dsa_Loop\<close> (\<open>DSA/dsa_loop.c\<close>): the switch driver of the board, alone and under the core.
  \<^item> \<open>Dsa_8021q\<close> (\<open>DSA/tag_8021q.c\<close>): VLAN based tagging.

  \<^bold>\<open>Interfaces.\<close> Locales state what one part relies on of another, and are interpreted on the model:
  the ring as a bounded history (\<open>Ts_Queue\<close>, used by \<open>Hw_Tstamp\<close>), the counted entries and reference
  counted databases (\<open>Dsa_Db\<close>, interpreted for addresses, multicast, LAG and VLAN entries), the
  operations a notification runs on a port (\<open>Dsa_Switch\<close>), views of the tree that requests and attributes
  leave alone (\<open>Dsa_Bridge\<close>, interpreted on memberships, CPU ports and filter settings) and the object that ports share
  under a reference count (\<open>Dsa_Member\<close>, interpreted on bridges and LAGs).

  \<^bold>\<open>Bounds and fuel.\<close> The FIFO drains take fuel; the theorems show that one unit per pending entry
  is enough. The transmit stamp is tried at most 21 times, as in the code. Waiting
  for the auto-negotiation in \<open>ax_init_rgmii\<close> takes at most five reads per restart (fuel 6), a receive poll handles its budget, the
  ioctl that empties the FIFOs takes fuel and is shown to end when the FIFOs become empty. Reference
  counters saturate as the kernel's do; the counting theorems hold for histories of up to
  \<open>INT_MAX\<close> requests.

  \<^bold>\<open>What the model showed.\<close> Several routines do not do what they mean to, and theorems prove it: the
  base time of a gate schedule less than ten cycles ahead leaves the cycle grid; the error path of a
  user interrupt frees it twice; probe mishandles all failures after the DMA device is open, and
  remove leaks; ioctl opcode 5 reads behind its table; PHY writes are lost; an address of a LAG over
  two switches is installed on one only; a refused removal of a tagger VLAN is final; a change of conduit may drop
  the port out of its bridge and report success.

  \<^bold>\<open>Not modelled.\<close> Power management (not compiled), ethtool, proc and trace output (reporting only),
  the netlink and devlink glue, the ethtool, traffic control and switchdev callbacks of \<open>user.c\<close>, the phylink callbacks and
  the link registration of \<open>port.c\<close>, \<open>conduit.c\<close> and the set-up of ports and switches in \<open>dsa2.c\<close>. Concurrency inside a
  locked section and memory ordering are outside the model, and so is the kernel itself.
\<close>

end
